(* ===== verification/Prelude.thy ===== *)
theory Prelude
  imports Main "HOL-Library.Word" "HOL-Library.Code_Target_Numeral"
begin

text \<open>
  Shared vocabulary of the development: bytes and big-endian encodings, Rust strings and
  the string functions of the standard library that the sources use, HTTP replies, the
  relational operations behind the SQL statements, and the generic lemmas about them.

  \<^item> A Rust \<open>Vec<u8>\<close> or \<open>&[u8]\<close> is \<open>bytes\<close>, a list of \<open>8 word\<close>.
  \<^item> A Rust \<open>String\<close> or \<open>&str\<close> is an Isabelle \<open>string\<close> whose characters are the
    bytes of its UTF-8 form, so \<open>length\<close> is Rust's \<open>len()\<close>; \<open>chars\<close> groups the bytes
    into scalar values where the source iterates over \<open>chars()\<close>.
  \<^item> A table is the list of its rows in storage order.
\<close>

named_theorems framing_simps \<open>lengths and inverses of byte encodings\<close>
named_theorems table_simps \<open>select, update and delete on tables\<close>

type_synonym u8 = "8 word"
type_synonym u32 = "32 word"
type_synonym bytes = "u8 list"

section \<open>Big-endian encodings\<close>

text \<open>The low \<open>k\<close> bytes of a number, most significant byte first (\<open>to_be_bytes\<close>).\<close>

fun be_bytes :: "nat \<Rightarrow> nat \<Rightarrow> bytes" where
  "be_bytes 0 x = []"
| "be_bytes (Suc k) x = be_bytes k (x div 256) @ [word_of_nat (x mod 256)]"

definition of_be :: "bytes \<Rightarrow> nat" where
  "of_be bs = foldl (\<lambda>acc b. acc * 256 + unat b) 0 bs"

text \<open>\<open>(s.len() as u32).to_be_bytes()\<close>: the length is truncated to 32 bits.\<close>

definition len_u32 :: "bytes \<Rightarrow> bytes" where
  "len_u32 bs = be_bytes 4 (unat (word_of_nat (length bs) :: u32))"

definition u32_max_be :: bytes where
  "u32_max_be = be_bytes 4 (unat (- 1 :: u32))"

text \<open>\<open>i64::to_be_bytes\<close>: two's complement, eight bytes.\<close>

definition i64_be :: "int \<Rightarrow> bytes" where
  "i64_be x = be_bytes 8 (nat (x mod 2 ^ 64))"

definition i32_be :: "int \<Rightarrow> bytes" where
  "i32_be x = be_bytes 4 (nat (x mod 2 ^ 32))"

definition i32_max :: int where
  "i32_max = 2 ^ 31 - 1"

definition i64_max :: int where
  "i64_max = 2 ^ 63 - 1"

definition in_i64 :: "int \<Rightarrow> bool" where
  "in_i64 x \<longleftrightarrow> - (2 ^ 63) \<le> x \<and> x < 2 ^ 63"

definition in_i32 :: "int \<Rightarrow> bool" where
  "in_i32 x \<longleftrightarrow> - (2 ^ 31) \<le> x \<and> x < 2 ^ 31"

text \<open>A field with its length in front, as every keyed hash of the program writes it.\<close>

definition lp :: "bytes \<Rightarrow> bytes" where
  "lp bs = len_u32 bs @ bs"

definition short :: "bytes \<Rightarrow> bool" where
  "short bs \<longleftrightarrow> length bs < 2 ^ 32 - 1"

section \<open>Strings\<close>

definition as_bytes :: "string \<Rightarrow> bytes" where
  "as_bytes s = map (\<lambda>c. word_of_nat (of_char c)) s"

definition str_of :: "bytes \<Rightarrow> string" where
  "str_of bs = map (\<lambda>b. char_of (unat b)) bs"

text \<open>Well-formed UTF-8, as \<open>String::from_utf8\<close> accepts it (RFC 3629).\<close>

definition cont :: "u8 \<Rightarrow> bool" where
  "cont b \<longleftrightarrow> 128 \<le> unat b \<and> unat b \<le> 191"

function utf8_ok :: "bytes \<Rightarrow> bool" where
  "utf8_ok bs = (case bs of
      [] \<Rightarrow> True
    | a # r \<Rightarrow>
       (if unat a < 128 then utf8_ok r
        else if 194 \<le> unat a \<and> unat a \<le> 223
        then (case r of b # r' \<Rightarrow> cont b \<and> utf8_ok r' | _ \<Rightarrow> False)
        else if 224 \<le> unat a \<and> unat a \<le> 239
        then (case r of b # c # r' \<Rightarrow> cont b \<and> cont c
                \<and> (unat a = 224 \<longrightarrow> 160 \<le> unat b) \<and> (unat a = 237 \<longrightarrow> unat b \<le> 159)
                \<and> utf8_ok r' | _ \<Rightarrow> False)
        else if 240 \<le> unat a \<and> unat a \<le> 244
        then (case r of b # c # d # r' \<Rightarrow> cont b \<and> cont c \<and> cont d
                \<and> (unat a = 240 \<longrightarrow> 144 \<le> unat b) \<and> (unat a = 244 \<longrightarrow> unat b \<le> 143)
                \<and> utf8_ok r' | _ \<Rightarrow> False)
        else False))"
  by pat_completeness auto
termination
  by (relation "measure length") auto

declare utf8_ok.simps [simp del]

definition from_utf8 :: "bytes \<Rightarrow> string option" where
  "from_utf8 bs = (if utf8_ok bs then Some (str_of bs) else None)"

definition utf8_str :: "string \<Rightarrow> bool" where
  "utf8_str s \<longleftrightarrow> utf8_ok (as_bytes s)"

text \<open>
  \<open>str::chars\<close>: each scalar value is kept as the bytes of its encoding, a byte in
  \<open>0x80..0xBF\<close> continuing the value before it.
\<close>

definition is_cont_char :: "char \<Rightarrow> bool" where
  "is_cont_char c \<longleftrightarrow> 128 \<le> (of_char c :: nat) \<and> (of_char c :: nat) < 192"

function chars :: "string \<Rightarrow> string list" where
  "chars [] = []"
| "chars (c # s) = (c # takeWhile is_cont_char s) # chars (dropWhile is_cont_char s)"
  by pat_completeness auto
termination
  by (relation "measure length") (auto simp: le_imp_less_Suc length_dropWhile_le)

text \<open>\<open>str::split_once(sep)\<close>.\<close>

fun split_once :: "char \<Rightarrow> string \<Rightarrow> (string \<times> string) option" where
  "split_once d [] = None"
| "split_once d (c # s) =
     (if c = d then Some ([], s)
      else map_option (\<lambda>(a, b). (c # a, b)) (split_once d s))"

text \<open>
  The scalar values with the property White_Space, by the bytes of their encoding, as
  \<open>char::is_whitespace\<close> has them.
\<close>

definition whitespace_codes :: "nat list list" where
  "whitespace_codes =
     [[9], [10], [11], [12], [13], [32], [194, 133], [194, 160], [225, 154, 128]]
     @ map (\<lambda>k. [226, 128, k]) ([128..<139] @ [168, 169, 175])
     @ [[226, 129, 159], [227, 128, 128]]"

definition is_whitespace :: "string \<Rightarrow> bool" where
  "is_whitespace c \<longleftrightarrow> map of_char c \<in> set whitespace_codes"

fun split_list :: "('a \<Rightarrow> bool) \<Rightarrow> 'a list \<Rightarrow> 'a list list" where
  "split_list P [] = [[]]"
| "split_list P (c # s) =
     (if P c then [] # split_list P s
      else (case split_list P s of [] \<Rightarrow> [[c]] | w # ws \<Rightarrow> (c # w) # ws))"

definition split_on :: "char \<Rightarrow> string \<Rightarrow> string list" where
  "split_on d s = split_list (\<lambda>c. c = d) s"

definition split_whitespace :: "string \<Rightarrow> string list" where
  "split_whitespace s = filter (\<lambda>w. w \<noteq> []) (map concat (split_list is_whitespace (chars s)))"

definition trim :: "string \<Rightarrow> string" where
  "trim s = concat (rev (dropWhile is_whitespace (rev (dropWhile is_whitespace (chars s)))))"

definition starts_with :: "string \<Rightarrow> string \<Rightarrow> bool" where
  "starts_with pre s \<longleftrightarrow> take (length pre) s = pre"

definition ends_with :: "string \<Rightarrow> string \<Rightarrow> bool" where
  "ends_with suf s \<longleftrightarrow> length suf \<le> length s \<and> drop (length s - length suf) s = suf"

definition strip_prefix :: "'a list \<Rightarrow> 'a list \<Rightarrow> 'a list option" where
  "strip_prefix pre s = (if take (length pre) s = pre then Some (drop (length pre) s) else None)"

fun contains_str :: "string \<Rightarrow> string \<Rightarrow> bool" where
  "contains_str sub [] = (sub = [])"
| "contains_str sub (c # s) = (starts_with sub (c # s) \<or> contains_str sub s)"

definition to_ascii_lowercase :: "string \<Rightarrow> string" where
  "to_ascii_lowercase s =
     map (\<lambda>c. let n = (of_char c :: nat) in if 65 \<le> n \<and> n \<le> 90 then char_of (n + 32) else c) s"

text \<open>\<open>str::parse::<u32>\<close>: an optional plus sign and at least one digit, below \<open>2^32\<close>.\<close>

definition is_digit :: "char \<Rightarrow> bool" where
  "is_digit c \<longleftrightarrow> 48 \<le> (of_char c :: nat) \<and> (of_char c :: nat) \<le> 57"

definition digits_val :: "string \<Rightarrow> nat" where
  "digits_val s = foldl (\<lambda>acc c. acc * 10 + ((of_char c :: nat) - 48)) 0 s"

definition parse_u32 :: "string \<Rightarrow> nat option" where
  "parse_u32 s =
     (let d = (case s of CHR ''+'' # r \<Rightarrow> r | _ \<Rightarrow> s)
      in if d \<noteq> [] \<and> list_all is_digit d \<and> digits_val d < 2 ^ 32
         then Some (digits_val d) else None)"

text \<open>Decimal output, as \<open>format!\<close> prints integers; \<open>pad10\<close> is \<open>{:010}\<close>.\<close>

fun show_nat :: "nat \<Rightarrow> string" where
  "show_nat n = (if n < 10 then [char_of (48 + n)] else show_nat (n div 10) @ [char_of (48 + n mod 10)])"

declare show_nat.simps [simp del]

definition show_int :: "int \<Rightarrow> string" where
  "show_int x = (if x < 0 then CHR ''-'' # show_nat (nat (- x)) else show_nat (nat x))"

definition pad10 :: "int \<Rightarrow> string" where
  "pad10 x = (let s = show_nat (nat \<bar>x\<bar>); w = (if x < 0 then 9 else 10)
     in (if x < 0 then ''-'' else []) @ replicate (w - length s) CHR ''0'' @ s)"

text \<open>Strings in their byte order (\<open>str::cmp\<close>), and a sort by it.\<close>

fun str_le :: "string \<Rightarrow> string \<Rightarrow> bool" where
  "str_le [] t = True"
| "str_le (c # s) [] = False"
| "str_le (c # s) (d # t) = ((of_char c :: nat) < of_char d \<or> c = d \<and> str_le s t)"

fun insert_str :: "('a \<Rightarrow> string) \<Rightarrow> 'a \<Rightarrow> 'a list \<Rightarrow> 'a list" where
  "insert_str f x [] = [x]"
| "insert_str f x (y # ys) = (if str_le (f x) (f y) then x # y # ys else y # insert_str f x ys)"

definition sort_str :: "('a \<Rightarrow> string) \<Rightarrow> 'a list \<Rightarrow> 'a list" where
  "sort_str f xs = foldr (insert_str f) xs []"

section \<open>Results\<close>

text \<open>The \<open>?\<close> of Rust on a \<open>Result\<close>: \<open>Inl\<close> is the error.\<close>

definition and_then :: "'e + 'a \<Rightarrow> ('a \<Rightarrow> 'e + 'b) \<Rightarrow> 'e + 'b" where
  "and_then r f = (case r of Inl e \<Rightarrow> Inl e | Inr x \<Rightarrow> f x)"

definition ok_or :: "'e \<Rightarrow> 'a option \<Rightarrow> 'e + 'a" where
  "ok_or e x = (case x of None \<Rightarrow> Inl e | Some v \<Rightarrow> Inr v)"

lemma and_then_simps [simp]: "and_then (Inl e) f = Inl e" "and_then (Inr x) f = f x"
  by (simp_all add: and_then_def)

lemma ok_or_simps [simp]: "ok_or e None = Inl e" "ok_or e (Some v) = Inr v"
  by (simp_all add: ok_or_def)

lemma and_then_InrE:
  assumes "and_then r f = Inr y"
  obtains x where "r = Inr x" and "f x = Inr y"
  using assms by (cases r) auto

lemma ok_or_Inr [simp]: "ok_or e x = Inr v \<longleftrightarrow> x = Some v"
  by (cases x) auto

section \<open>Replies of the HTTP handlers\<close>

text \<open>
  \<open>Reply st b\<close> is a JSON reply with body \<open>b\<close>, \<open>ErrorReply st code\<close> an \<open>ErrorResponse\<close>
  built by \<open>err(status, code, message)\<close>, \<open>ActixError st\<close> an \<open>Err\<close> returned to the
  framework. The human-readable messages are not kept.
\<close>

datatype 'b response = Reply nat 'b | ErrorReply nat string | ActixError nat

fun succeeded :: "'b response \<Rightarrow> bool" where
  "succeeded (Reply st b) = True"
| "succeeded _ = False"

section \<open>Tables\<close>

definition update_where :: "('r \<Rightarrow> bool) \<Rightarrow> ('r \<Rightarrow> 'r) \<Rightarrow> 'r list \<Rightarrow> 'r list" where
  "update_where P f rows = map (\<lambda>r. if P r then f r else r) rows"

definition delete_where :: "('r \<Rightarrow> bool) \<Rightarrow> 'r list \<Rightarrow> 'r list" where
  "delete_where P rows = filter (\<lambda>r. \<not> P r) rows"

definition rows_affected :: "('r \<Rightarrow> bool) \<Rightarrow> 'r list \<Rightarrow> nat" where
  "rows_affected P rows = length (filter P rows)"

section \<open>Lemmas on encodings\<close>

lemma length_be_bytes [simp, framing_simps]: "length (be_bytes k x) = k"
  by (induction k arbitrary: x) auto

lemma of_be_snoc: "of_be (bs @ [b]) = of_be bs * 256 + unat b"
  by (simp add: of_be_def)

lemma of_be_be_bytes [framing_simps]: "x < 256 ^ k \<Longrightarrow> of_be (be_bytes k x) = x"
proof (induction k arbitrary: x)
  case 0
  then show ?case by (simp add: of_be_def)
next
  case (Suc k)
  have "x div 256 < 256 ^ k"
    using Suc.prems by (simp add: less_mult_imp_div_less mult.commute)
  then have "of_be (be_bytes k (x div 256)) = x div 256"
    by (rule Suc.IH)
  moreover have "unat (word_of_nat (x mod 256) :: u8) = x mod 256"
    by (simp add: unat_of_nat)
  ultimately show ?case by (simp add: of_be_snoc)
qed

lemma be_bytes_inject:
  "x < 256 ^ k \<Longrightarrow> y < 256 ^ k \<Longrightarrow> be_bytes k x = be_bytes k y \<Longrightarrow> x = y"
  by (metis of_be_be_bytes)

lemma length_len_u32 [simp, framing_simps]: "length (len_u32 bs) = 4"
  by (simp add: len_u32_def)

lemma length_u32_max_be [simp, framing_simps]: "length u32_max_be = 4"
  by (simp add: u32_max_be_def)

lemma length_i64_be [simp, framing_simps]: "length (i64_be x) = 8"
  by (simp add: i64_be_def)

lemma length_i32_be [simp, framing_simps]: "length (i32_be x) = 4"
  by (simp add: i32_be_def)

lemma len_u32_inject:
  assumes "length a < 2 ^ 32" and "length b < 2 ^ 32" and "len_u32 a = len_u32 b"
  shows "length a = length b"
proof -
  have "unat (word_of_nat (length a) :: u32) = length a"
    and "unat (word_of_nat (length b) :: u32) = length b"
    using assms(1,2) by (simp_all add: unat_of_nat)
  moreover have "unat (word_of_nat (length a) :: u32) < 256 ^ 4"
    and "unat (word_of_nat (length b) :: u32) < 256 ^ 4"
    using unsigned_less [of "word_of_nat (length a) :: u32"]
      unsigned_less [of "word_of_nat (length b) :: u32"] by simp_all
  ultimately show ?thesis
    using assms(3) be_bytes_inject unfolding len_u32_def by metis
qed

lemma len_u32_not_max: "short a \<Longrightarrow> len_u32 a \<noteq> u32_max_be"
proof
  assume "short a" and eq: "len_u32 a = u32_max_be"
  then have "length a < 2 ^ 32 - 1" by (simp add: short_def)
  then have "unat (word_of_nat (length a) :: u32) = length a"
    by (simp add: unat_of_nat)
  moreover have "unat (- 1 :: u32) = 2 ^ 32 - 1"
    by (simp add: unsigned_minus_1_eq_mask mask_eq_exp_minus_1)
  ultimately show False
    using eq \<open>length a < 2 ^ 32 - 1\<close> be_bytes_inject [of "length a" 4 "2 ^ 32 - 1"]
    unfolding len_u32_def u32_max_be_def by simp
qed

text \<open>Length-prefixed fields can be read back one after the other.\<close>

lemma lp_append_inject:
  assumes "length a < 2 ^ 32" and "length b < 2 ^ 32" and "lp a @ x = lp b @ y"
  shows "a = b \<and> x = y"
proof -
  from assms(3) have heads: "len_u32 a = len_u32 b" and "a @ x = b @ y"
    by (simp_all add: lp_def)
  moreover have "length a = length b"
    using assms(1,2) heads by (rule len_u32_inject)
  ultimately show ?thesis by simp
qed

lemma i64_be_inject:
  assumes "in_i64 x" and "in_i64 y" and "i64_be x = i64_be y"
  shows "x = y"
proof -
  have "nat (x mod 2 ^ 64) < 256 ^ 8" and "nat (y mod 2 ^ 64) < 256 ^ 8"
    by (simp_all add: nat_less_iff)
  then have "nat (x mod 2 ^ 64) = nat (y mod 2 ^ 64)"
    using assms(3) unfolding i64_be_def by (rule be_bytes_inject)
  then have "x mod 2 ^ 64 = y mod 2 ^ 64" by (simp add: eq_nat_nat_iff)
  then have "(2 ^ 64 :: int) dvd x - y" by (simp add: mod_eq_dvd_iff)
  moreover have "\<bar>x - y\<bar> < 2 ^ 64" using assms(1,2) by (auto simp: in_i64_def)
  ultimately show ?thesis using zdvd_imp_le [of "2 ^ 64" "\<bar>x - y\<bar>"] by force
qed

lemma i32_be_inject:
  assumes "in_i32 x" and "in_i32 y" and "i32_be x = i32_be y"
  shows "x = y"
proof -
  have "nat (x mod 2 ^ 32) < 256 ^ 4" and "nat (y mod 2 ^ 32) < 256 ^ 4"
    by (simp_all add: nat_less_iff)
  then have "nat (x mod 2 ^ 32) = nat (y mod 2 ^ 32)"
    using assms(3) unfolding i32_be_def by (rule be_bytes_inject)
  then have "x mod 2 ^ 32 = y mod 2 ^ 32" by (simp add: eq_nat_nat_iff)
  then have "(2 ^ 32 :: int) dvd x - y" by (simp add: mod_eq_dvd_iff)
  moreover have "\<bar>x - y\<bar> < 2 ^ 32" using assms(1,2) by (auto simp: in_i32_def)
  ultimately show ?thesis using zdvd_imp_le [of "2 ^ 32" "\<bar>x - y\<bar>"] by force
qed

section \<open>Lemmas on strings\<close>

lemma length_as_bytes [simp, framing_simps]: "length (as_bytes s) = length s"
  by (simp add: as_bytes_def)

lemma str_of_as_bytes [simp]: "str_of (as_bytes s) = s"
proof -
  have "char_of (unat (word_of_nat (of_char c) :: u8)) = c" for c
    by (simp add: unat_of_nat take_bit_eq_mod flip: char_of_take_bit_eq)
  then show ?thesis by (simp add: str_of_def as_bytes_def comp_def)
qed

lemma unat_u8_less [simp]: "unat (b :: u8) < 256"
  using unsigned_less [of b] by simp

lemma as_bytes_str_of [simp]: "as_bytes (str_of b) = b"
  by (induction b) (simp_all add: as_bytes_def str_of_def)

lemma as_bytes_inject [simp]: "as_bytes s = as_bytes t \<longleftrightarrow> s = t"
  by (metis str_of_as_bytes)

lemma from_utf8_as_bytes [simp]: "utf8_str s \<Longrightarrow> from_utf8 (as_bytes s) = Some s"
  by (simp add: from_utf8_def utf8_str_def)

lemma utf8_ok_Nil [simp]: "utf8_ok []"
  by (subst utf8_ok.simps) simp

lemma utf8_ok_ascii: "list_all (\<lambda>b. unat b < 128) bs \<Longrightarrow> utf8_ok bs"
proof (induction bs)
  case (Cons b bs)
  then show ?case by (subst utf8_ok.simps) simp
qed simp

text \<open>ASCII text is valid UTF-8.\<close>

definition ascii :: "string \<Rightarrow> bool" where
  "ascii s \<longleftrightarrow> list_all (\<lambda>c. (of_char c :: nat) < 128) s"

lemma ascii_simps [simp]:
  "ascii []" "ascii (s @ t) \<longleftrightarrow> ascii s \<and> ascii t"
  "ascii (c # s) \<longleftrightarrow> (of_char c :: nat) < 128 \<and> ascii s"
  by (simp_all add: ascii_def)

lemma ascii_utf8: "ascii s \<Longrightarrow> utf8_str s"
  unfolding utf8_str_def
  by (rule utf8_ok_ascii) (auto simp: ascii_def as_bytes_def list_all_iff unat_of_nat)

lemma ascii_replicate [simp]: "ascii (replicate n CHR ''0'')"
  by (simp add: ascii_def list_all_iff)

lemma ascii_show_nat [simp]: "ascii (show_nat n)"
proof (induction n rule: show_nat.induct)
  case (1 n)
  then show ?case by (subst show_nat.simps) (auto simp: of_char_of)
qed

lemma ascii_show_int [simp]: "ascii (show_int x)"
  by (simp add: show_int_def)

lemma ascii_pad10 [simp]: "ascii (pad10 x)"
  by (simp add: pad10_def Let_def)

lemma be_bytes_of_be [framing_simps]: "be_bytes (length bs) (of_be bs) = bs"
proof (induction bs rule: rev_induct)
  case (snoc b bs)
  have "(of_be bs * 256 + unat b) div 256 = of_be bs" "(of_be bs * 256 + unat b) mod 256 = unat b"
    using unat_u8_less [of b] by simp_all
  with snoc show ?case by (simp add: of_be_snoc)
qed (simp add: of_be_def)

lemma of_be_less: "of_be bs < 256 ^ length bs"
proof (induction bs rule: rev_induct)
  case (snoc b bs)
  have "of_be bs * 256 + unat b < (of_be bs + 1) * 256"
    using unat_u8_less [of b] by simp
  also have "\<dots> \<le> 256 ^ length bs * 256"
    using snoc by (intro mult_le_mono1) simp
  finally show ?case by (simp add: of_be_snoc)
qed (simp add: of_be_def)

lemma of_be_inject: "length a = length b \<Longrightarrow> of_be a = of_be b \<Longrightarrow> a = b"
  by (metis be_bytes_of_be)

section \<open>Lemmas on tables\<close>

lemma update_where_Nil [simp, table_simps]: "update_where P f [] = []"
  by (simp add: update_where_def)

lemma update_where_Cons [simp, table_simps]:
  "update_where P f (r # rows) = (if P r then f r else r) # update_where P f rows"
  by (simp add: update_where_def)

lemma length_update_where [simp, table_simps]: "length (update_where P f rows) = length rows"
  by (simp add: update_where_def)

lemma set_update_where:
  "r \<in> set (update_where P f rows) \<longleftrightarrow> (\<exists>q \<in> set rows. r = (if P q then f q else q))"
  by (auto simp: update_where_def)

lemma map_update_where [table_simps]:
  "(\<And>r. g (f r) = g r) \<Longrightarrow> map g (update_where P f rows) = map g rows"
  by (induction rows) auto

lemma set_delete_where [simp, table_simps]:
  "r \<in> set (delete_where P rows) \<longleftrightarrow> r \<in> set rows \<and> \<not> P r"
  by (auto simp: delete_where_def)

lemma distinct_map_delete_where [table_simps]:
  "distinct (map g rows) \<Longrightarrow> distinct (map g (delete_where P rows))"
  by (simp add: delete_where_def distinct_map_filter)

lemma rows_affected_0: "rows_affected P rows = 0 \<longleftrightarrow> (\<forall>r \<in> set rows. \<not> P r)"
  by (auto simp: rows_affected_def filter_empty_conv)

lemma delete_sorted_prefix:
  fixes f :: "'r \<Rightarrow> int"
  assumes "sorted_wrt (<) (map f rows)" and "0 < c" and "c \<le> length rows"
    and "\<forall>r \<in> set rows. a < f r"
  shows "delete_where (\<lambda>r. a < f r \<and> f r \<le> f (last (take c rows))) rows = drop c rows"
proof -
  let ?P = "\<lambda>r. a < f r \<and> f r \<le> f (last (take c rows))"
  obtain xs x where xs: "take c rows = xs @ [x]"
    using assms(2,3) by (metis append_butlast_last_id gr_implies_not0 length_0_conv length_take min.absorb2)
  have rows: "rows = xs @ [x] @ drop c rows" by (metis append_take_drop_id append_assoc xs)
  have sorted: "sorted_wrt (<) (map f xs @ [f x] @ map f (drop c rows))"
    using assms(1) by (subst (asm) rows) simp
  have "\<forall>r \<in> set (xs @ [x]). a < f r"
    using assms(4) set_take_subset [of c rows] xs by auto
  then have "filter (\<lambda>r. \<not> ?P r) (xs @ [x]) = []"
    using sorted by (subst filter_empty_conv) (auto simp: xs sorted_wrt_append)
  moreover have "filter (\<lambda>r. \<not> ?P r) (drop c rows) = drop c rows"
    using sorted by (subst filter_id_conv) (fastforce simp: xs sorted_wrt_append)
  ultimately show ?thesis
    unfolding delete_where_def by (metis (no_types, lifting) filter_append append_take_drop_id self_append_conv2 xs)
qed

lemma find_update_other:
  assumes "\<And>r. P r \<Longrightarrow> \<not> Q r" and "\<And>r. P r \<Longrightarrow> \<not> Q (f r)"
  shows "List.find Q (update_where P f rows) = List.find Q rows"
  by (induction rows) (use assms in auto)

lemma find_SomeD: "List.find P rows = Some r \<Longrightarrow> r \<in> set rows \<and> P r"
  by (auto simp: find_Some_iff in_set_conv_nth)

lemma find_NoneD: "List.find P rows = None \<Longrightarrow> r \<in> set rows \<Longrightarrow> \<not> P r"
  by (auto simp: find_None_iff)

lemma find_append:
  "List.find P (xs @ ys) = (case List.find P xs of None \<Rightarrow> List.find P ys | Some r \<Rightarrow> Some r)"
  by (induction xs) auto

lemma find_unique:
  assumes "r \<in> set rows" and "P r" and "\<And>q. q \<in> set rows \<Longrightarrow> P q \<Longrightarrow> q = r"
  shows "List.find P rows = Some r"
proof (cases "List.find P rows")
  case None
  with assms(1,2) show ?thesis by (auto simp: find_None_iff)
next
  case (Some q)
  then have "q \<in> set rows" and "P q" by (auto dest: find_SomeD)
  then have "q = r" by (rule assms(3))
  with Some show ?thesis by simp
qed

lemma find_by_id:
  assumes "distinct (map f rows)" and "r \<in> set rows"
  shows "List.find (\<lambda>q. f q = f r) rows = Some r"
  using assms by (induction rows) auto

lemma find_eq_by_id:
  assumes "distinct (map f rows)" and "List.find (\<lambda>q. f q = i) rows = Some r" and "q \<in> set rows" and "f q = i"
  shows "q = r"
  using find_by_id [OF assms(1,3)] assms(2,4) by simp

lemma find_update_by_id:
  assumes "\<And>r. f (g r) = f r"
  shows "List.find (\<lambda>q. f q = i) (update_where (\<lambda>q. f q = i) g rows)
    = map_option g (List.find (\<lambda>q. f q = i) rows)"
  using assms by (induction rows) auto

lemma update_where_id:
  assumes "distinct (map f rows)" and "List.find (\<lambda>q. f q = i) rows = Some r" and "g r = r"
  shows "update_where (\<lambda>q. f q = i) g rows = rows"
  unfolding update_where_def by (rule map_idI) (use find_eq_by_id [OF assms(1,2)] assms(3) in auto)

lemma update_where_twice:
  assumes "\<And>r. f (g r) = f r"
  shows "update_where (\<lambda>q. f q = i) h (update_where (\<lambda>q. f q = i) g rows)
    = update_where (\<lambda>q. f q = i) (h \<circ> g) rows"
  using assms by (simp add: update_where_def)

section \<open>Printable text\<close>

text \<open>Characters that are printed and are no space: no change by \<open>trim\<close>.\<close>

definition visible :: "char \<Rightarrow> bool" where
  "visible c \<longleftrightarrow> 33 \<le> (of_char c :: nat) \<and> (of_char c :: nat) < 127"

lemma chars_visible: "list_all visible s \<Longrightarrow> chars s = map (\<lambda>c. [c]) s"
proof (induction s)
  case (Cons c s)
  then have "takeWhile is_cont_char s = [] \<and> dropWhile is_cont_char s = s"
    by (cases s) (auto simp: visible_def is_cont_char_def)
  with Cons show ?case by simp
qed simp

lemma visible_not_space: "visible c \<Longrightarrow> \<not> is_whitespace [c]"
  by (auto simp: visible_def is_whitespace_def whitespace_codes_def)

lemma trim_visible: "list_all visible s \<Longrightarrow> trim s = s"
proof -
  assume v: "list_all visible s"
  have "dropWhile is_whitespace (map (\<lambda>c. [c]) t) = map (\<lambda>c. [c]) t" if "list_all visible t" for t
    using that by (cases t) (auto simp: visible_not_space)
  from this [of s] this [of "rev s"] v show ?thesis
    by (simp add: trim_def chars_visible rev_map)
qed

lemma trim_line: "list_all visible s \<Longrightarrow> trim (s @ [CHR 0x0A]) = s"
proof -
  assume v: "list_all visible s"
  have c: "chars (s @ [CHR 0x0A]) = map (\<lambda>c. [c]) s @ [[CHR 0x0A]]" using v
  proof (induction s)
    case Nil
    show ?case by simp
  next
    case (Cons c s)
    then have "takeWhile is_cont_char (s @ [CHR 0x0A]) = [] \<and> dropWhile is_cont_char (s @ [CHR 0x0A]) = s @ [CHR 0x0A]"
      by (cases s) (auto simp: visible_def is_cont_char_def)
    with Cons show ?case by simp
  qed
  have w: "is_whitespace [CHR 0x0A]" by (simp add: is_whitespace_def whitespace_codes_def)
  have d: "dropWhile is_whitespace (map (\<lambda>c. [c]) t @ u) = map (\<lambda>c. [c]) t @ u" if "list_all visible t" "t \<noteq> []" for t u
    using that by (cases t) (auto simp: visible_not_space)
  show ?thesis
  proof (cases "s = []")
    case True
    with w show ?thesis by (simp add: trim_def)
  next
    case False
    with d [OF v, of "[[CHR 0x0A]]"] d [of "rev s" "[]"] v w c show ?thesis
      by (simp add: trim_def rev_map)
  qed
qed

lemma visible_ascii: "list_all visible s \<Longrightarrow> ascii s"
  by (auto simp: ascii_def visible_def list_all_iff)

lemma visible_utf8: "list_all visible s \<Longrightarrow> utf8_str s" "list_all visible s \<Longrightarrow> utf8_str (s @ [CHR 0x0A])"
  using visible_ascii [of s] by (simp_all add: ascii_utf8 ascii_def)

lemma chars_ascii: "ascii s \<Longrightarrow> chars s = map (\<lambda>c. [c]) s"
proof (induction s)
  case (Cons c s)
  then have "takeWhile is_cont_char s = [] \<and> dropWhile is_cont_char s = s"
    by (cases s) (auto simp: ascii_def is_cont_char_def)
  with Cons show ?case by (simp add: ascii_def)
qed simp

lemma visible_digit: "is_digit c \<Longrightarrow> visible c"
  by (simp add: is_digit_def visible_def)

lemma show_nat_digits: "c \<in> set (show_nat n) \<Longrightarrow> is_digit c"
proof (induction n rule: show_nat.induct)
  case (1 n)
  have d: "is_digit (char_of (48 + m))" if "m < 10" for m :: nat
    using that by (simp add: is_digit_def of_char_of)
  show ?case
    using "1.prems" "1.IH" d [of n] d [of "n mod 10"]
    by (subst (asm) show_nat.simps) (auto split: if_splits)
qed

lemma digits_val_snoc: "digits_val (s @ [c]) = digits_val s * 10 + (of_char c - 48)"
  by (simp add: digits_val_def)

lemma digits_val_show: "digits_val (show_nat n) = n"
proof (induction n rule: show_nat.induct)
  case (1 n)
  have d: "of_char (char_of (48 + m) :: char) = 48 + m" if "m < 10" for m :: nat
    using that by (simp add: of_char_of)
  show ?case
  proof (cases "n < 10")
    case True
    then show ?thesis using d [of n] by (subst show_nat.simps) (simp add: digits_val_def)
  next
    case False
    then show ?thesis using 1 d [of "n mod 10"] by (subst show_nat.simps) (simp add: digits_val_snoc)
  qed
qed

lemma show_nat_not_Nil: "show_nat n \<noteq> []"
  by (subst show_nat.simps) simp

lemma split_once_first: "d \<notin> set a \<Longrightarrow> split_once d (a @ d # b) = Some (a, b)"
  by (induction a) auto

lemma split_on_first: "d \<notin> set a \<Longrightarrow> split_on d (a @ d # b) = a # split_on d b"
  by (induction a) (auto simp: split_on_def split: list.splits)

lemma split_on_none: "d \<notin> set a \<Longrightarrow> split_on d a = [a]"
  by (induction a) (auto simp: split_on_def)

lemma strip_prefix_append [simp]: "strip_prefix p (p @ s) = Some s"
  by (simp add: strip_prefix_def)

section \<open>Reachability\<close>

text \<open>
  The interface between a component's operations and its invariant: a step relation and a
  property of states that every step keeps. The client of the interface concludes that the
  property holds in every reachable state.
\<close>

locale step_invariant =
  fixes step :: "'s \<Rightarrow> 's \<Rightarrow> bool"
    and inv :: "'s \<Rightarrow> bool"
  assumes step_keeps: "step s t \<Longrightarrow> inv s \<Longrightarrow> inv t"
begin

lemma steps_keep: "rtranclp step s t \<Longrightarrow> inv s \<Longrightarrow> inv t"
  by (induction rule: rtranclp_induct) (auto intro: step_keeps)

end

end
