(* ===== verification/Glob.thy ===== *)
theory Glob
  imports Prelude
begin

text \<open>
  The pattern matcher of access rules and standing approvals, \<open>sql_like_match\<close> in
  \<open>auth.rs\<close>: the two-pointer loop with its backtracking point is kept as written, one
  \<open>glob_step\<close> per iteration. The lemmas relate it to the recursive matcher \<open>glob\<close> that
  the source's comment calls the natural form, bound the number of iterations, and give
  the exact condition under which the two agree.
\<close>

section \<open>The loop of the source\<close>

text \<open>The four mutable variables: \<open>i\<close> over the text, \<open>j\<close> over the pattern.\<close>

record glob_state =
  gi :: nat
  gj :: nat
  star :: "nat option"
  mark :: nat

definition glob_init :: glob_state where
  "glob_init = \<lparr>gi = 0, gj = 0, star = None, mark = 0\<rparr>"

text \<open>One pass through the body of the \<open>while\<close>; \<open>None\<close> is its \<open>return false\<close>.\<close>

definition glob_step :: "string list \<Rightarrow> string list \<Rightarrow> glob_state \<Rightarrow> glob_state option" where
  "glob_step p t st =
     (if gj st < length p \<and> (p ! gj st = ''_'' \<or> p ! gj st = t ! gi st)
      then Some (st\<lparr>gi := gi st + 1, gj := gj st + 1\<rparr>)
      else if gj st < length p \<and> p ! gj st = ''*''
      then Some (st\<lparr>star := Some (gj st), mark := gi st, gj := gj st + 1\<rparr>)
      else (case star st of
              Some s \<Rightarrow> Some (st\<lparr>gj := s + 1, mark := mark st + 1, gi := mark st + 1\<rparr>)
            | None \<Rightarrow> None))"

text \<open>
  The backtracking point lies behind both pointers. Every step but a literal match
  establishes this, so that it need not be assumed for termination.
\<close>

definition glob_behind :: "glob_state \<Rightarrow> bool" where
  "glob_behind st \<longleftrightarrow> mark st \<le> gi st \<and> (\<forall>s. star st = Some s \<longrightarrow> s < gj st)"

text \<open>The work left: each backtrack moves \<open>mark\<close>, every other step moves \<open>j\<close>.\<close>

definition glob_work :: "string list \<Rightarrow> string list \<Rightarrow> glob_state \<Rightarrow> nat" where
  "glob_work p t st = (length t - mark st) * (length p + 1) + (length p - gj st)"

lemma glob_step_cases:
  assumes "glob_step p t st = Some st'"
  obtains (literal) "gj st < length p" "p ! gj st = ''_'' \<or> p ! gj st = t ! gi st"
      "st' = st\<lparr>gi := gi st + 1, gj := gj st + 1\<rparr>"
  | (wildcard) "gj st < length p" "p ! gj st = ''*''" "p ! gj st \<noteq> t ! gi st"
      "st' = st\<lparr>star := Some (gj st), mark := gi st, gj := gj st + 1\<rparr>"
  | (backtrack) s where "star st = Some s"
      "gj st < length p \<Longrightarrow> p ! gj st \<noteq> ''_'' \<and> p ! gj st \<noteq> t ! gi st \<and> p ! gj st \<noteq> ''*''"
      "st' = st\<lparr>gj := s + 1, mark := mark st + 1, gi := mark st + 1\<rparr>"
  using assms by (auto simp: glob_step_def split: if_splits option.splits)

lemma glob_step_behind:
  assumes "glob_step p t st = Some st'" and "glob_behind st"
  shows "glob_behind st'"
  using assms(1)
  by (cases rule: glob_step_cases) (use assms(2) in \<open>auto simp: glob_behind_def\<close>)

lemma glob_step_work:
  assumes "glob_step p t st = Some st'" and "glob_behind st" and "gi st < length t"
  shows "glob_work p t st' < glob_work p t st"
  using assms(1)
proof (cases rule: glob_step_cases)
  case wildcard
  have "length t - gi st \<le> length t - mark st"
    using assms(2) by (auto simp: glob_behind_def)
  then have "(length t - gi st) * (length p + 1) \<le> (length t - mark st) * (length p + 1)"
    by (rule mult_le_mono1)
  moreover have "glob_work p t st'
      = (length t - gi st) * (length p + 1) + (length p - Suc (gj st))"
    using wildcard by (simp add: glob_work_def)
  ultimately show ?thesis
    using wildcard(1) unfolding glob_work_def [of p t st] by linarith
next
  case (backtrack s)
  have "mark st < length t" using assms(2,3) by (auto simp: glob_behind_def)
  then have "length t - mark st = Suc (length t - Suc (mark st))" by simp
  then have "(length t - mark st) * (length p + 1)
      = (length p + 1) + (length t - Suc (mark st)) * (length p + 1)"
    by (metis mult_Suc)
  with backtrack show ?thesis by (simp add: glob_work_def)
qed (use assms(3) in \<open>simp add: glob_work_def\<close>)

lemma glob_step_not_behind:
  assumes "glob_step p t st = Some st'" and "\<not> glob_behind st'"
  shows "gi st' = Suc (gi st)"
  using assms(1) by (cases rule: glob_step_cases) (use assms(2) in \<open>auto simp: glob_behind_def\<close>)

text \<open>The order in which the iterations descend.\<close>

definition glob_order :: "((string list \<times> string list \<times> glob_state) \<times> (string list \<times> string list \<times> glob_state)) set" where
  "glob_order = (\<lambda>(p, t, st). if glob_behind st then 0 else Suc (length t - gi st))
     <*mlex*> measure (\<lambda>(p, t, st). glob_work p t st)"

lemma wf_glob_order: "wf glob_order"
  by (simp add: glob_order_def wf_mlex)

lemma glob_step_order:
  assumes "gi st < length t" and "glob_step p t st = Some st'"
  shows "((p, t, st'), p, t, st) \<in> glob_order"
proof (cases "glob_behind st")
  case True
  with assms show ?thesis
    by (simp add: glob_order_def mlex_prod_def glob_step_behind glob_step_work)
next
  case False
  with assms show ?thesis
    by (cases "glob_behind st'")
      (auto simp: glob_order_def mlex_prod_def dest: glob_step_not_behind)
qed

text \<open>The \<open>while\<close> over the text; \<open>Some st\<close> is the state in which it is left.\<close>

function glob_loop :: "string list \<Rightarrow> string list \<Rightarrow> glob_state \<Rightarrow> glob_state option" where
  "glob_loop p t st =
     (if gi st < length t
      then (case glob_step p t st of None \<Rightarrow> None | Some st' \<Rightarrow> glob_loop p t st')
      else Some st)"
  by pat_completeness auto
termination
  by (relation glob_order) (auto simp: wf_glob_order intro: glob_step_order)

declare glob_loop.simps [simp del]

text \<open>The trailing \<open>while\<close> skips stars at the end of the pattern.\<close>

definition skip_stars :: "string list \<Rightarrow> nat \<Rightarrow> nat" where
  "skip_stars p j = j + length (takeWhile (\<lambda>c. c = ''*'') (drop j p))"

definition glob_chars :: "string list \<Rightarrow> string list \<Rightarrow> bool" where
  "glob_chars p t =
     (case glob_loop p t glob_init of
        None \<Rightarrow> False
      | Some st \<Rightarrow> skip_stars p (gj st) = length p)"

definition sql_like_match :: "string \<Rightarrow> string \<Rightarrow> bool" where
  "sql_like_match pattern text_s = glob_chars (chars pattern) (chars text_s)"

section \<open>The reference matcher\<close>

text \<open>
  \<open>*\<close> stands for any sequence, \<open>_\<close> for one character, everything else for itself.
\<close>

fun glob :: "string list \<Rightarrow> string list \<Rightarrow> bool" where
  "glob [] [] = True"
| "glob [] (c # t) = False"
| "glob (a # p) [] = (a = ''*'' \<and> glob p [])"
| "glob (a # p) (c # t) =
     (if a = ''*'' then glob p (c # t) \<or> glob (a # p) t
      else (a = ''_'' \<or> a = c) \<and> glob p t)"

text \<open>The number of times the body of the loop runs.\<close>

function glob_iters :: "string list \<Rightarrow> string list \<Rightarrow> glob_state \<Rightarrow> nat" where
  "glob_iters p t st =
     (if gi st < length t
      then (case glob_step p t st of None \<Rightarrow> 1 | Some st' \<Rightarrow> Suc (glob_iters p t st'))
      else 0)"
  by pat_completeness auto
termination
  by (relation glob_order) (auto simp: wf_glob_order intro: glob_step_order)

declare glob_iters.simps [simp del]

section \<open>Lemmas on the reference matcher\<close>

lemma glob_star_Cons: "glob (''*'' # p) t \<longleftrightarrow> glob p t \<or> (t \<noteq> [] \<and> glob (''*'' # p) (tl t))"
  by (cases t) auto

lemma glob_star_drop: "glob (''*'' # p) (drop n t) \<Longrightarrow> glob (''*'' # p) t"
proof (induction n arbitrary: t)
  case (Suc n)
  then show ?case by (cases t) auto
qed simp

lemma glob_star_ex: "glob (''*'' # p) t \<longleftrightarrow> (\<exists>k \<le> length t. glob p (drop k t))"
proof
  show "glob (''*'' # p) t \<Longrightarrow> \<exists>k \<le> length t. glob p (drop k t)"
  proof (induction t)
    case (Cons c t)
    then show ?case by (metis (no_types) Suc_le_mono drop0 drop_Suc_Cons glob.simps(4) le0 length_Cons)
  qed simp
  show "\<exists>k \<le> length t. glob p (drop k t) \<Longrightarrow> glob (''*'' # p) t"
    by (meson glob_star_Cons glob_star_drop)
qed

lemma glob_stars_only: "glob p [] \<longleftrightarrow> (\<forall>a \<in> set p. a = ''*'')"
  by (induction p) auto

text \<open>A segment without a star consumes exactly as many characters as it has.\<close>

lemma glob_segment:
  assumes "''*'' \<notin> set w" and "glob (w @ p) t"
  shows "length w \<le> length t \<and> glob p (drop (length w) t)"
  using assms
proof (induction w arbitrary: t)
  case (Cons a w)
  then show ?case by (cases t) auto
qed simp

lemma length_takeWhile_all: "length (takeWhile P xs) = length xs \<longleftrightarrow> (\<forall>x \<in> set xs. P x)"
  by (induction xs) auto

lemma skip_stars_glob: "j \<le> length p \<Longrightarrow> skip_stars p j = length p \<longleftrightarrow> glob (drop j p) []"
proof -
  assume "j \<le> length p"
  then have "skip_stars p j = length p
      \<longleftrightarrow> length (takeWhile (\<lambda>c. c = ''*'') (drop j p)) = length (drop j p)"
    by (auto simp: skip_stars_def)
  also have "\<dots> \<longleftrightarrow> (\<forall>a \<in> set (drop j p). a = ''*'')"
    by (rule length_takeWhile_all)
  finally show ?thesis by (simp add: glob_stars_only)
qed

section \<open>The invariants of the loop\<close>

text \<open>
  What can still match: the rest of the pattern against the rest of the text, or the
  last star absorbing at least one character more.
\<close>

definition glob_rest :: "string list \<Rightarrow> string list \<Rightarrow> glob_state \<Rightarrow> bool" where
  "glob_rest p t st \<longleftrightarrow> glob (drop (gj st) p) (drop (gi st) t)
     \<or> (\<exists>s. star st = Some s \<and> glob (drop s p) (drop (Suc (mark st)) t))"

definition glob_wf :: "string list \<Rightarrow> string list \<Rightarrow> glob_state \<Rightarrow> bool" where
  "glob_wf p t st \<longleftrightarrow> gj st \<le> length p \<and> gi st \<le> length t \<and> mark st \<le> gi st
     \<and> (\<forall>s. star st = Some s \<longrightarrow> s < gj st \<and> p ! s = ''*'')"

text \<open>The segment since the last star has been matched against the text since \<open>mark\<close>.\<close>

definition glob_seg :: "string list \<Rightarrow> glob_state \<Rightarrow> bool" where
  "glob_seg p st \<longleftrightarrow> (\<forall>s. star st = Some s \<longrightarrow>
     gi st - mark st = gj st - Suc s \<and> ''*'' \<notin> set (take (gj st - Suc s) (drop (Suc s) p)))"

lemma glob_wf_init: "glob_wf p t glob_init" "glob_seg p glob_init"
  by (simp_all add: glob_wf_def glob_seg_def glob_init_def)

lemma glob_wf_behind: "glob_wf p t st \<Longrightarrow> glob_behind st"
  by (auto simp: glob_wf_def glob_behind_def)

lemma glob_step_wf:
  assumes "glob_step p t st = Some st'" and "glob_wf p t st" and "gi st < length t"
  shows "glob_wf p t st'"
  using assms(1)
  by (cases rule: glob_step_cases) (use assms(2,3) in \<open>auto simp: glob_wf_def\<close>)

lemma glob_rest_init: "glob_rest p t glob_init = glob p t"
  by (simp add: glob_rest_def glob_init_def)

lemma drop_star: "s < length p \<Longrightarrow> p ! s = ''*'' \<Longrightarrow> drop s p = ''*'' # drop (Suc s) p"
  by (metis Cons_nth_drop_Suc)

lemma glob_star_at:
  assumes "s < length p" and "p ! s = ''*''"
  shows "glob (drop s p) (drop n t)
    \<longleftrightarrow> glob (drop (Suc s) p) (drop n t) \<or> glob (drop s p) (drop (Suc n) t)"
proof -
  have "glob (''*'' # q) u \<longleftrightarrow> glob q u \<or> glob (''*'' # q) (tl u)" for q u
    by (cases u) auto
  note this [of "drop (Suc s) p" "drop n t"]
  moreover have "drop (Suc n) t = tl (drop n t)" by (simp add: drop_Suc tl_drop)
  ultimately show ?thesis by (metis drop_star [OF assms])
qed

text \<open>Soundness of one step: what the new state can match, the old one can.\<close>

lemma glob_step_sound:
  assumes "glob_step p t st = Some st'" and "glob_wf p t st" and "gi st < length t"
    and "glob_rest p t st'"
  shows "glob_rest p t st"
  using assms(1)
proof (cases rule: glob_step_cases)
  case literal
  have "glob (drop (gj st) p) (drop (gi st) t)"
    if "glob (drop (Suc (gj st)) p) (drop (Suc (gi st)) t)"
    using that literal(2) glob_star_Cons [of "drop (Suc (gj st)) p" "drop (Suc (gi st)) t"]
    by (simp flip: Cons_nth_drop_Suc [OF literal(1)] Cons_nth_drop_Suc [OF assms(3)])
  with literal assms(4) show ?thesis by (auto simp: glob_rest_def)
next
  case wildcard
  have "glob (drop (gj st) p) (drop (gi st) t)"
    by (rule glob_star_at [THEN iffD2, OF wildcard(1,2)])
      (use assms(4) in \<open>simp add: glob_rest_def wildcard(4)\<close>)
  then show ?thesis by (simp add: glob_rest_def)
next
  case (backtrack s)
  have "s < length p" and "p ! s = ''*''" using backtrack(1) assms(2) by (auto simp: glob_wf_def)
  then have "glob (drop s p) (drop (Suc (mark st)) t)"
    by (rule glob_star_at [THEN iffD2])
      (use assms(4) in \<open>simp add: glob_rest_def backtrack(1,3)\<close>)
  with backtrack(1) show ?thesis by (simp add: glob_rest_def)
qed

text \<open>Exactness of one step, when no character of the text is itself a star.\<close>

lemma glob_seg_star:
  assumes "glob_wf p t st" and "glob_seg p st" and "star st = Some s"
    and "glob (drop s p) (drop (Suc (mark st)) t)"
  shows "\<exists>k. glob (drop (gj st) p) (drop (Suc (gi st) + k) t)"
proof -
  let ?w = "take (gj st - Suc s) (drop (Suc s) p)"
  have s: "s < gj st" "gj st \<le> length p" "p ! s = ''*''" "mark st \<le> gi st"
    using assms(1,3) by (auto simp: glob_wf_def)
  then have "s < length p" by simp
  from assms(4) obtain k where
      k: "glob (drop (Suc s) p) (drop k (drop (Suc (mark st)) t))"
    unfolding drop_star [OF \<open>s < length p\<close> s(3)] glob_star_ex by blast
  have "drop (Suc s) p = ?w @ drop (gj st) p"
    using s(1,2) by (metis Suc_leI append_take_drop_id drop_drop le_add_diff_inverse2)
  moreover have len: "length ?w = gi st - mark st" and free: "''*'' \<notin> set ?w"
    using assms(2,3) s(1,2) by (auto simp: glob_seg_def)
  ultimately have "glob (drop (gj st) p) (drop (length ?w) (drop k (drop (Suc (mark st)) t)))"
    using glob_segment [OF free] k(1) by metis
  then show ?thesis
    using len s(4) by (intro exI [of _ k]) (auto simp: ac_simps)
qed

lemma glob_step_exact:
  assumes "glob_step p t st = Some st'" and "glob_wf p t st" and "glob_seg p st"
    and "gi st < length t" and "''*'' \<notin> set t" and "glob_rest p t st"
  shows "glob_rest p t st' \<and> glob_seg p st'"
  using assms(1)
proof (cases rule: glob_step_cases)
  case literal
  have ne: "p ! gj st \<noteq> ''*''" using literal(2) nth_mem [OF assms(4)] assms(5) by auto
  have "glob (drop (Suc (gj st)) p) (drop (Suc (gi st)) t)"
    if "glob (drop (gj st) p) (drop (gi st) t)"
    using that literal(2) ne
    by (simp flip: Cons_nth_drop_Suc [OF literal(1)] Cons_nth_drop_Suc [OF assms(4)])
  moreover have "glob_seg p st'"
    unfolding glob_seg_def
  proof (intro allI impI)
    fix s assume "star st' = Some s"
    then have s: "star st = Some s" "s < gj st" "mark st \<le> gi st"
      using literal(3) assms(2) by (auto simp: glob_wf_def)
    define n where "n = gj st - Suc s"
    have "Suc (gj st) - Suc s = Suc n" and "drop (Suc s) p ! n = p ! gj st"
      and "n < length (drop (Suc s) p)"
      using s(2) literal(1) by (auto simp: n_def)
    then have "take (Suc (gj st) - Suc s) (drop (Suc s) p)
        = take (gj st - Suc s) (drop (Suc s) p) @ [p ! gj st]"
      by (simp only: take_Suc_conv_app_nth n_def)
    with s assms(3) literal(3) ne
    show "gi st' - mark st' = gj st' - Suc s \<and> ''*'' \<notin> set (take (gj st' - Suc s) (drop (Suc s) p))"
      by (auto simp: glob_seg_def)
  qed
  ultimately show ?thesis using assms(6) literal(3) by (auto simp: glob_rest_def)
next
  case wildcard
  have "glob (drop (gj st) p) (drop (gi st) t)"
  proof (rule ccontr)
    assume "\<not> ?thesis"
    with assms(6) obtain k where "glob (drop (gj st) p) (drop (Suc (gi st) + k) t)"
      using glob_seg_star [OF assms(2,3)] by (auto simp: glob_rest_def)
    then have "glob (''*'' # drop (Suc (gj st)) p) (drop (Suc k) (drop (gi st) t))"
      using drop_star [OF wildcard(1,2)] by (simp add: ac_simps)
    then have "glob (''*'' # drop (Suc (gj st)) p) (drop (gi st) t)"
      by (rule glob_star_drop)
    with \<open>\<not> ?thesis\<close> show False using drop_star [OF wildcard(1,2)] by simp
  qed
  then have "glob (drop (Suc (gj st)) p) (drop (gi st) t)
      \<or> glob (drop (gj st) p) (drop (Suc (gi st)) t)"
    by (rule glob_star_at [THEN iffD1, OF wildcard(1,2)])
  with wildcard(4) show ?thesis by (simp add: glob_rest_def glob_seg_def)
next
  case (backtrack s)
  have "\<not> glob (drop (gj st) p) (drop (gi st) t)"
    using backtrack(2)
    by (cases "gj st < length p")
      (simp_all flip: Cons_nth_drop_Suc [OF assms(4)] Cons_nth_drop_Suc)
  then have "glob (drop s p) (drop (Suc (mark st)) t)"
    using assms(6) backtrack(1) by (auto simp: glob_rest_def)
  moreover have "s < length p" and "p ! s = ''*''"
    using backtrack(1) assms(2) by (auto simp: glob_wf_def)
  ultimately have "glob (drop (Suc s) p) (drop (Suc (mark st)) t)
      \<or> glob (drop s p) (drop (Suc (Suc (mark st))) t)"
    by (metis glob_star_at)
  with backtrack(1,3) show ?thesis by (simp add: glob_rest_def glob_seg_def)
qed

section \<open>The whole loop\<close>

lemma glob_loop_sound:
  assumes "glob_loop p t st = Some st'" and "glob_wf p t st"
    and "glob (drop (gj st') p) []"
  shows "glob_rest p t st"
  using assms
proof (induction p t st rule: glob_loop.induct)
  case (1 p t st)
  show ?case
  proof (cases "gi st < length t")
    case True
    then obtain st1 where st1: "glob_step p t st = Some st1" "glob_loop p t st1 = Some st'"
      using "1.prems"(1) by (subst (asm) glob_loop.simps) (auto split: option.splits)
    then have "glob_rest p t st1"
      using "1.IH" True "1.prems"(2,3) glob_step_wf by blast
    then show ?thesis using glob_step_sound st1(1) True "1.prems"(2) by blast
  next
    case False
    then have "st' = st" using "1.prems"(1) by (subst (asm) glob_loop.simps) simp
    with False "1.prems"(3) show ?thesis by (simp add: glob_rest_def)
  qed
qed

lemma glob_loop_exact:
  assumes "''*'' \<notin> set t" and "glob_wf p t st" and "glob_seg p st" and "glob_rest p t st"
  shows "\<exists>st'. glob_loop p t st = Some st' \<and> glob (drop (gj st') p) []"
  using assms
proof (induction p t st rule: glob_loop.induct)
  case (1 p t st)
  note prems = "1.prems"
  show ?case
  proof (cases "gi st < length t")
    case True
    show ?thesis
    proof (cases "glob_step p t st")
      case None
      then have "\<not> glob (drop (gj st) p) (drop (gi st) t)" and "star st = None"
        using Cons_nth_drop_Suc [OF True, symmetric]
        by (cases "gj st < length p";
            force simp: glob_step_def split: if_splits option.splits
              simp flip: Cons_nth_drop_Suc)+
      with prems(4) show ?thesis by (simp add: glob_rest_def)
    next
      case (Some st1)
      have "glob_rest p t st1 \<and> glob_seg p st1"
        using glob_step_exact [OF Some prems(2,3) True prems(1,4)] .
      then have "\<exists>st'. glob_loop p t st1 = Some st' \<and> glob (drop (gj st') p) []"
        using "1.IH" [OF True Some prems(1)] glob_step_wf [OF Some prems(2) True] by blast
      with True Some show ?thesis by (subst glob_loop.simps) simp
    qed
  next
    case False
    then have "gi st = length t" using prems(2) by (auto simp: glob_wf_def)
    then have "glob (drop (gj st) p) []"
      using prems(4) glob_seg_star [OF prems(2,3)] by (auto simp: glob_rest_def)
    with False show ?thesis by (subst glob_loop.simps) simp
  qed
qed

lemma glob_loop_wf:
  "glob_loop p t st = Some st' \<Longrightarrow> glob_wf p t st \<Longrightarrow> glob_wf p t st'"
proof (induction p t st rule: glob_loop.induct)
  case (1 p t st)
  show ?case
  proof (cases "gi st < length t")
    case True
    then obtain st1 where st1: "glob_step p t st = Some st1" "glob_loop p t st1 = Some st'"
      using "1.prems"(1) by (subst (asm) glob_loop.simps) (auto split: option.splits)
    then show ?thesis using "1.IH" True "1.prems"(2) glob_step_wf by blast
  next
    case False
    then show ?thesis using "1.prems" by (subst (asm) glob_loop.simps) simp
  qed
qed

lemma glob_chars_loop:
  "glob_chars p t \<longleftrightarrow> (\<exists>st. glob_loop p t glob_init = Some st \<and> glob (drop (gj st) p) [])"
proof (cases "glob_loop p t glob_init")
  case (Some st)
  then have "gj st \<le> length p"
    using glob_loop_wf glob_wf_init(1) by (auto simp: glob_wf_def)
  with Some show ?thesis by (simp add: glob_chars_def skip_stars_glob)
qed (simp add: glob_chars_def)

lemma glob_chars_sound: "glob_chars p t \<Longrightarrow> glob p t"
  using glob_loop_sound [OF _ glob_wf_init(1)] glob_rest_init by (auto simp: glob_chars_loop)

lemma glob_chars_exact: "''*'' \<notin> set t \<Longrightarrow> glob_chars p t \<longleftrightarrow> glob p t"
  using glob_chars_sound glob_loop_exact [OF _ glob_wf_init] glob_rest_init
  by (auto simp: glob_chars_loop)

lemma glob_iters_work: "glob_wf p t st \<Longrightarrow> glob_iters p t st \<le> Suc (glob_work p t st)"
proof (induction p t st rule: glob_iters.induct)
  case (1 p t st)
  show ?case
  proof (cases "gi st < length t \<and> glob_step p t st \<noteq> None")
    case True
    then obtain st1 where st1: "glob_step p t st = Some st1" by auto
    have "glob_iters p t st1 \<le> Suc (glob_work p t st1)"
      using "1.IH" True st1 "1.prems" glob_step_wf by blast
    moreover have "glob_work p t st1 < glob_work p t st"
      using st1 True "1.prems" glob_step_work glob_wf_behind by blast
    moreover have "glob_iters p t st = Suc (glob_iters p t st1)"
      using True st1 by (subst glob_iters.simps) simp
    ultimately show ?thesis by simp
  next
    case False
    then show ?thesis by (subst glob_iters.simps) (auto split: option.splits)
  qed
qed

section \<open>Properties\<close>

text \<open>
  C37. The matcher that decides which access rules and standing approvals cover a resource
  computes exactly the textbook relation (\<open>*\<close> any sequence, \<open>_\<close> one character, the rest
  literal) on every text that contains no star.
\<close>

theorem sql_like_match_exact:
  "''*'' \<notin> set (chars text_s) \<Longrightarrow>
     sql_like_match pattern text_s \<longleftrightarrow> glob (chars pattern) (chars text_s)"
  by (simp add: sql_like_match_def glob_chars_exact)

theorem sql_like_match_exact_witness:
  "sql_like_match ''pa*s_'' ''passwd-st'' \<longleftrightarrow> glob (chars ''pa*s_'') (chars ''passwd-st'')"
  by (rule sql_like_match_exact) code_simp

text \<open>
  For every pattern and text, stars in the text included, a match reported by the code
  is a match: the backtracking never lets a pattern cover a name it does not describe.
\<close>

theorem sql_like_match_sound:
  "sql_like_match pattern text_s \<Longrightarrow> glob (chars pattern) (chars text_s)"
  by (simp add: sql_like_match_def glob_chars_sound)

theorem sql_like_match_sound_witness:
  "glob (chars ''db/*/pass_'') (chars ''db/a*b/pass1'')"
  by (rule sql_like_match_sound) code_simp

text \<open>
  C38. The loop runs at most \<open>(|text| + 1) * (|pattern| + 1)\<close> times, whatever the inputs:
  the bound against denial of service that the source's comment states.
\<close>

theorem sql_like_match_steps:
  "glob_iters (chars pattern) (chars text_s) glob_init
     \<le> (length (chars text_s) + 1) * (length (chars pattern) + 1)"
proof -
  have "glob_iters (chars pattern) (chars text_s) glob_init
      \<le> Suc (glob_work (chars pattern) (chars text_s) glob_init)"
    by (rule glob_iters_work) (rule glob_wf_init)
  then show ?thesis by (simp add: glob_work_def glob_init_def algebra_simps)
qed

text \<open>
  A star in the text is compared literally before the star of the pattern is
  recognised, so the pattern that should cover everything misses such a name.
\<close>

theorem sql_like_match_star_text:
  "\<not> sql_like_match ''*'' ''*a'' \<and> glob (chars ''*'') (chars ''*a'')"
  by code_simp

end
