(* ===== verification/Externals.thy ===== *)
theory Externals
  imports Prelude
begin

text \<open>
  The third-party code the program calls, as one record of functions that every
  definition of the model takes as its first argument \<open>E\<close>. Nothing is assumed of them in
  a definition; what the program relies on is stated by the predicates of the second
  section, each a documented behaviour of the crate, and appears as a named hypothesis of
  the theorems that need it.
\<close>

section \<open>The functions\<close>

text \<open>
  \<^item> \<open>sha3_256\<close>: crate sha3. \<open>hex_encode\<close>, \<open>hex_decode\<close>: crate hex. \<open>b64_encode\<close>,
    \<open>b64_decode\<close>: crate base64, standard alphabet; \<open>b64url_encode\<close>: URL-safe, no padding.
  \<^item> \<open>scrypt_kdf log_n r p key salt len\<close>: \<open>scrypt::Params::new\<close> followed by
    \<open>scrypt::scrypt\<close>; \<open>pbkdf2_sha3_512 key salt rounds len\<close>: crate pbkdf2.
  \<^item> \<open>gcm_encrypt key nonce aad msg\<close> and \<open>gcm_decrypt\<close>: \<open>Aes256Gcm\<close> of crate aes-gcm;
    \<open>kw_wrap kek data\<close> and \<open>kw_unwrap\<close>: \<open>KekAes256\<close> of crate aes-kw.
  \<^item> \<open>ed_public\<close>, \<open>ed_point\<close>, \<open>ed_sign\<close>, \<open>ed_verify\<close>: crate ed25519-dalek
    (\<open>ed_point\<close> is whether \<open>VerifyingKey::from_bytes\<close> accepts the bytes).
  \<^item> \<open>json_map\<close>: \<open>serde_json::to_string\<close> of a map, given its entries in iteration order;
    \<open>json_sealed\<close>, \<open>json_unsealed\<close>: \<open>serde_json\<close> of a \<open>SerializedData\<close>.
  \<^item> \<open>totp_url secret name\<close>: \<open>TOTP::new\<close> and \<open>get_url\<close> of crate totp-rs; \<open>totp_check secret now
    code\<close>: \<open>TOTP::new\<close> and \<open>check_current\<close>; no value when the crate returns an error.
    \<open>base32_encode\<close>: crate base32.
  \<^item> \<open>parse_rfc3339\<close>, \<open>parse_datetime fmt\<close>, \<open>parse_date fmt\<close>: the parsers of crate chrono, in
    microseconds since the epoch; \<open>to_rfc3339\<close>, \<open>format_stamp\<close>: its printers, the second with
    the format \<open>%Y%m%dT%H%M%SZ\<close>.
  \<^item> \<open>civil\<close>: the minute, hour, day, month and weekday (days from Sunday) of a UTC time.
  \<^item> \<open>issue_cert cn ttl_days rnd\<close>: the key pair and client certificate crate rcgen issues, as
    the certificate, the private key and the certificate's fingerprint.
\<close>

record ext =
  sha3_256 :: "bytes \<Rightarrow> bytes"
  hex_encode :: "bytes \<Rightarrow> string"
  hex_decode :: "string \<Rightarrow> bytes option"
  b64_encode :: "bytes \<Rightarrow> string"
  b64_decode :: "string \<Rightarrow> bytes option"
  b64url_encode :: "bytes \<Rightarrow> string"
  scrypt_kdf :: "nat \<Rightarrow> nat \<Rightarrow> nat \<Rightarrow> bytes \<Rightarrow> bytes \<Rightarrow> nat \<Rightarrow> bytes option"
  pbkdf2_sha3_512 :: "bytes \<Rightarrow> bytes \<Rightarrow> nat \<Rightarrow> nat \<Rightarrow> bytes"
  gcm_encrypt :: "bytes \<Rightarrow> bytes \<Rightarrow> bytes \<Rightarrow> bytes \<Rightarrow> bytes option"
  gcm_decrypt :: "bytes \<Rightarrow> bytes \<Rightarrow> bytes \<Rightarrow> bytes \<Rightarrow> bytes option"
  kw_wrap :: "bytes \<Rightarrow> bytes \<Rightarrow> bytes option"
  kw_unwrap :: "bytes \<Rightarrow> bytes \<Rightarrow> bytes option"
  ed_public :: "bytes \<Rightarrow> bytes"
  ed_point :: "bytes \<Rightarrow> bool"
  ed_sign :: "bytes \<Rightarrow> bytes \<Rightarrow> bytes"
  ed_verify :: "bytes \<Rightarrow> bytes \<Rightarrow> bytes \<Rightarrow> bool"
  json_map :: "(string \<times> bytes) list \<Rightarrow> bytes"
  json_sealed :: "(string \<times> bytes) list \<Rightarrow> bytes \<Rightarrow> bytes"
  json_unsealed :: "bytes \<Rightarrow> ((string \<times> bytes) list \<times> bytes) option"
  totp_url :: "bytes \<Rightarrow> string \<Rightarrow> string option"
  totp_check :: "bytes \<Rightarrow> int \<Rightarrow> string \<Rightarrow> bool option"
  base32_encode :: "bytes \<Rightarrow> string"
  parse_rfc3339 :: "string \<Rightarrow> int option"
  parse_datetime :: "string \<Rightarrow> string \<Rightarrow> int option"
  parse_date :: "string \<Rightarrow> string \<Rightarrow> int option"
  to_rfc3339 :: "int \<Rightarrow> string"
  format_stamp :: "int \<Rightarrow> string"
  civil :: "int \<Rightarrow> nat \<times> nat \<times> nat \<times> nat \<times> nat"
  issue_cert :: "string \<Rightarrow> int \<Rightarrow> bytes \<Rightarrow> (string \<times> string \<times> string) option"

section \<open>What the program relies on\<close>

definition hex_law :: "ext \<Rightarrow> bool" where
  "hex_law E \<longleftrightarrow> (\<forall>b. hex_decode E (hex_encode E b) = Some b)"

definition b64_law :: "ext \<Rightarrow> bool" where
  "b64_law E \<longleftrightarrow> (\<forall>b. b64_decode E (b64_encode E b) = Some b)"

text \<open>Decryption inverts encryption, and the tag adds sixteen bytes.\<close>

definition gcm_law :: "ext \<Rightarrow> bool" where
  "gcm_law E \<longleftrightarrow> (\<forall>k n a m c. gcm_encrypt E k n a m = Some c \<longrightarrow>
     gcm_decrypt E k n a c = Some m \<and> length c = length m + 16)"

text \<open>
  RFC 3394: data of whole 64-bit blocks, at least two of them, can be wrapped; the result
  is one block longer and unwraps to the data.
\<close>

definition kw_law :: "ext \<Rightarrow> bool" where
  "kw_law E \<longleftrightarrow> (\<forall>k m. length k = 32 \<and> length m mod 8 = 0 \<and> 16 \<le> length m \<longrightarrow>
     (\<exists>c. kw_wrap E k m = Some c \<and> kw_unwrap E k c = Some m \<and> length c = length m + 8))"

text \<open>scrypt fills every output of 10 to 64 bytes.\<close>

definition scrypt_law :: "ext \<Rightarrow> bool" where
  "scrypt_law E \<longleftrightarrow> (\<forall>k s n. 10 \<le> n \<and> n \<le> 64 \<longrightarrow>
     (\<exists>out. scrypt_kdf E 12 16 4 k s n = Some out \<and> length out = n))"

text \<open>Ed25519: a signature verifies under the public key of its seed.\<close>

definition ed_law :: "ext \<Rightarrow> bool" where
  "ed_law E \<longleftrightarrow> (\<forall>seed m. length seed = 32 \<longrightarrow>
     length (ed_public E seed) = 32 \<and> ed_point E (ed_public E seed)
     \<and> length (ed_sign E seed m) = 64
     \<and> ed_verify E (ed_public E seed) m (ed_sign E seed m))"

text \<open>
  The hash has no collision among the messages of \<open>S\<close>. The program hashes finitely many
  messages, and collision resistance is stated for those only: no function to 32 bytes is
  injective on all of them.
\<close>

definition collision_free :: "ext \<Rightarrow> bytes set \<Rightarrow> bool" where
  "collision_free E S \<longleftrightarrow> inj_on (sha3_256 E) S"

lemma hex_law_inject: "hex_law E \<Longrightarrow> hex_encode E a = hex_encode E b \<longleftrightarrow> a = b"
  by (metis hex_law_def option.inject)

lemma hex_lawD: "hex_law E \<Longrightarrow> hex_decode E (hex_encode E b) = Some b"
  by (simp add: hex_law_def)

lemma b64_lawD: "b64_law E \<Longrightarrow> b64_decode E (b64_encode E b) = Some b"
  by (simp add: b64_law_def)

lemma gcm_encryptD:
  "gcm_encrypt E k n a m = Some c \<Longrightarrow> gcm_law E \<Longrightarrow>
     gcm_decrypt E k n a c = Some m \<and> length c = length m + 16"
  by (simp add: gcm_law_def)

lemma scrypt_lawE:
  assumes "scrypt_law E" and "10 \<le> n" and "n \<le> 64"
  obtains out where "scrypt_kdf E 12 16 4 k s n = Some out" and "length out = n"
  using assms unfolding scrypt_law_def by meson

lemma kw_lawE:
  assumes "kw_law E" and "length k = 32" and "length m mod 8 = 0" and "16 \<le> length m"
  obtains c where "kw_wrap E k m = Some c" and "kw_unwrap E k c = Some m"
    and "length c = length m + 8"
  using assms unfolding kw_law_def by meson

definition sha3_law :: "ext \<Rightarrow> bool" where
  "sha3_law E \<longleftrightarrow> (\<forall>m. length (sha3_256 E m) = 32)"

lemma sha3_lawD [simp]: "sha3_law E \<Longrightarrow> length (sha3_256 E m) = 32"
  by (simp add: sha3_law_def)

text \<open>The printed time stamp of a file name has digits, \<open>T\<close> and \<open>Z\<close> only.\<close>

definition stamp_law :: "ext \<Rightarrow> bool" where
  "stamp_law E \<longleftrightarrow> (\<forall>t. list_all (\<lambda>c. is_digit c \<or> c = CHR ''T'' \<or> c = CHR ''Z'') (format_stamp E t))"

lemma stamp_ascii: "stamp_law E \<Longrightarrow> ascii (format_stamp E t)"
  by (fastforce simp: stamp_law_def ascii_def is_digit_def list_all_iff)

section \<open>Framed messages\<close>

text \<open>
  The interface of every keyed hash and signature of the program: \<open>frame\<close> lays out the
  fields of a message as bytes so that well-formed messages can be told apart. Then a
  digest of the frame binds every field.
\<close>

locale framing =
  fixes wf_msg :: "'m \<Rightarrow> bool" and frame :: "'m \<Rightarrow> bytes"
  assumes frame_inject: "wf_msg m \<Longrightarrow> wf_msg m' \<Longrightarrow> frame m = frame m' \<Longrightarrow> m = m'"
begin

lemma digest_binds:
  assumes "collision_free E S" and "frame m \<in> S" and "frame m' \<in> S"
    and "wf_msg m" and "wf_msg m'" and "sha3_256 E (frame m) = sha3_256 E (frame m')"
  shows "m = m'"
proof -
  have "frame m = frame m'"
    using assms(1,6,2,3) unfolding collision_free_def by (rule inj_onD)
  with assms(4,5) show ?thesis by (rule frame_inject)
qed

lemma hex_digest_binds:
  assumes "hex_law E" and "collision_free E S" and "frame m \<in> S" and "frame m' \<in> S"
    and "wf_msg m" and "wf_msg m'"
    and "hex_encode E (sha3_256 E (frame m)) = hex_encode E (sha3_256 E (frame m'))"
  shows "m = m'"
  using digest_binds [OF assms(2-6)] assms(1,7) by (simp add: hex_law_inject)

end

section \<open>An instance\<close>

text \<open>
  Functions with the laws above that evaluate inside the logic, for the instances at which
  the theorems are exercised: the digest is the message modulo a 16-bit prime, the cipher appends a tag of zeros, encodings are the identity on bytes.
\<close>

definition zeros :: "nat \<Rightarrow> bytes" where
  "zeros n = replicate n 0"

definition demo_ext :: ext where
  "demo_ext = \<lparr>
     sha3_256 = (\<lambda>m. zeros 30 @ be_bytes 2 (foldl (\<lambda>acc b. (acc * 256 + unat b) mod 65521) 7 m)),
     hex_encode = str_of,
     hex_decode = (\<lambda>s. Some (as_bytes s)),
     b64_encode = str_of,
     b64_decode = (\<lambda>s. Some (as_bytes s)),
     b64url_encode = str_of,
     scrypt_kdf = (\<lambda>ln r p k s n. Some (take n (k @ zeros n))),
     pbkdf2_sha3_512 = (\<lambda>k s it n. take n (k @ s @ zeros n)),
     gcm_encrypt = (\<lambda>k n a m. Some (m @ zeros 16)),
     gcm_decrypt = (\<lambda>k n a c. Some (take (length c - 16) c)),
     kw_wrap = (\<lambda>k m. Some (m @ zeros 8)),
     kw_unwrap = (\<lambda>k c. Some (take (length c - 8) c)),
     ed_public = (\<lambda>seed. seed),
     ed_point = (\<lambda>k. True),
     ed_sign = (\<lambda>seed m. seed @ zeros 32),
     ed_verify = (\<lambda>k m s. take 32 s = k),
     json_map = (\<lambda>kvs. concat (map (\<lambda>(k, v). as_bytes k @ v) kvs)),
     json_sealed = (\<lambda>kvs c. c),
     json_unsealed = (\<lambda>c. None),
     totp_url = (\<lambda>s name. Some name),
     totp_check = (\<lambda>s now code. Some (code = ''123456'')),
     base32_encode = str_of,
     parse_rfc3339 = (\<lambda>s. None),
     parse_datetime = (\<lambda>fmt s. None),
     parse_date = (\<lambda>fmt s. None),
     to_rfc3339 = (\<lambda>t. ''2025''),
     format_stamp = (\<lambda>t. ''2025''),
     civil = (\<lambda>now. (30, 10, 15, 6, 3)),
     issue_cert = (\<lambda>cn ttl rnd. Some (''pem'', ''key'', str_of rnd))\<rparr>"

lemma demo_laws [simp]:
  "hex_law demo_ext" "b64_law demo_ext" "gcm_law demo_ext" "kw_law demo_ext"
  "scrypt_law demo_ext" "ed_law demo_ext" "sha3_law demo_ext"
  "stamp_law demo_ext"
  by (auto simp: hex_law_def b64_law_def gcm_law_def kw_law_def scrypt_law_def ed_law_def
      sha3_law_def stamp_law_def is_digit_def demo_ext_def zeros_def)

end
