(* ===== verification/Cron.thy ===== *)
theory Cron
  imports Externals
begin

text \<open>
  Access schedules: the five-field cron mask of \<open>cron_window_matches\<close> and \<open>cron_field\<close> in
  \<open>auth.rs\<close>. The lemmas give each field the set of values it denotes and show what a
  positive answer, an error and an answer on a well-formed schedule mean.
\<close>

section \<open>Definitions\<close>

datatype cron_error = BadFieldCount | BadStep | ZeroStep | BadRange | BadValue

text \<open>One term of a field as its bounds and step (\<open>lo\<close>, \<open>hi\<close>, \<open>step\<close>).\<close>

definition cron_range :: "string \<Rightarrow> nat \<Rightarrow> nat \<Rightarrow> cron_error + (nat \<times> nat)" where
  "cron_range range_s mn mx =
     (if range_s = ''*'' then Inr (mn, mx)
      else (case split_once CHR ''-'' range_s of
              Some (a, b) \<Rightarrow>
                and_then (ok_or BadRange (parse_u32 a)) (\<lambda>lo.
                and_then (ok_or BadRange (parse_u32 b)) (\<lambda>hi. Inr (lo, hi)))
            | None \<Rightarrow> and_then (ok_or BadValue (parse_u32 range_s)) (\<lambda>v. Inr (v, v))))"

definition cron_term :: "string \<Rightarrow> nat \<Rightarrow> nat \<Rightarrow> cron_error + (nat \<times> nat \<times> nat)" where
  "cron_term term_s mn mx =
     and_then
       (case split_once CHR ''/'' term_s of
          Some (r, s) \<Rightarrow> and_then (ok_or BadStep (parse_u32 s)) (\<lambda>step. Inr (r, step))
        | None \<Rightarrow> Inr (term_s, 1))
       (\<lambda>(r, step).
          if step = 0 then Inl ZeroStep
          else and_then (cron_range r mn mx) (\<lambda>(lo, hi). Inr (lo, hi, step)))"

definition in_term :: "nat \<Rightarrow> nat \<times> nat \<times> nat \<Rightarrow> bool" where
  "in_term val t = (case t of (lo, hi, step) \<Rightarrow> lo \<le> val \<and> val \<le> hi \<and> (val - lo) mod step = 0)"

fun cron_terms :: "string list \<Rightarrow> nat \<Rightarrow> nat \<Rightarrow> nat \<Rightarrow> cron_error + bool" where
  "cron_terms [] val mn mx = Inr False"
| "cron_terms (t # ts) val mn mx =
     and_then (cron_term t mn mx)
       (\<lambda>r. if in_term val r then Inr True else cron_terms ts val mn mx)"

definition cron_field :: "string \<Rightarrow> nat \<Rightarrow> nat \<Rightarrow> nat \<Rightarrow> cron_error + bool" where
  "cron_field field val mn mx = cron_terms (split_on CHR '','' field) val mn mx"

text \<open>Rust's short-circuiting \<open>a? && b?\<close> and \<open>a? || b?\<close>.\<close>

definition and_also :: "'e + bool \<Rightarrow> 'e + bool \<Rightarrow> 'e + bool" where
  "and_also a b = and_then a (\<lambda>x. if x then b else Inr False)"

definition or_else :: "'e + bool \<Rightarrow> 'e + bool \<Rightarrow> 'e + bool" where
  "or_else a b = and_then a (\<lambda>x. if x then Inr True else b)"

definition cron_fields :: "nat \<times> nat \<times> nat \<times> nat \<times> nat \<Rightarrow> string list \<Rightarrow> cron_error + bool" where
  "cron_fields cal f =
     (case cal of (minute, hour, day, month, dow) \<Rightarrow>
        and_also (cron_field (f ! 0) minute 0 59)
        (and_also (cron_field (f ! 1) hour 0 23)
        (and_also (cron_field (f ! 2) day 1 31)
        (and_also (cron_field (f ! 3) month 1 12)
        (or_else (cron_field (f ! 4) dow 0 6)
          (and_also (Inr (dow = 0)) (cron_field (f ! 4) 7 0 7)))))))"

definition cron_window_matches :: "ext \<Rightarrow> string \<Rightarrow> int \<Rightarrow> cron_error + bool" where
  "cron_window_matches E expr now =
     (let f = split_whitespace expr
      in if length f \<noteq> 5 then Inl BadFieldCount else cron_fields (civil E now) f)"

section \<open>What a field denotes\<close>

definition term_ok :: "nat \<Rightarrow> nat \<Rightarrow> string \<Rightarrow> bool" where
  "term_ok mn mx t = (case cron_term t mn mx of Inl e \<Rightarrow> False | Inr r \<Rightarrow> True)"

definition field_ok :: "nat \<Rightarrow> nat \<Rightarrow> string \<Rightarrow> bool" where
  "field_ok mn mx field \<longleftrightarrow> list_all (term_ok mn mx) (split_on CHR '','' field)"

definition term_has :: "nat \<Rightarrow> nat \<Rightarrow> nat \<Rightarrow> string \<Rightarrow> bool" where
  "term_has mn mx v t = (case cron_term t mn mx of Inl e \<Rightarrow> False | Inr r \<Rightarrow> in_term v r)"

definition field_has :: "nat \<Rightarrow> nat \<Rightarrow> string \<Rightarrow> nat \<Rightarrow> bool" where
  "field_has mn mx field v \<longleftrightarrow> list_ex (term_has mn mx v) (split_on CHR '','' field)"

text \<open>The mask a five-field expression stands for.\<close>

definition window_has :: "string list \<Rightarrow> nat \<times> nat \<times> nat \<times> nat \<times> nat \<Rightarrow> bool" where
  "window_has f cal = (case cal of (minute, hour, day, month, dow) \<Rightarrow>
     field_has 0 59 (f ! 0) minute \<and> field_has 0 23 (f ! 1) hour
     \<and> field_has 1 31 (f ! 2) day \<and> field_has 1 12 (f ! 3) month
     \<and> (field_has 0 6 (f ! 4) dow \<or> dow = 0 \<and> field_has 0 7 (f ! 4) 7))"

definition schedule_ok :: "string \<Rightarrow> bool" where
  "schedule_ok expr \<longleftrightarrow> (let f = split_whitespace expr in length f = 5
     \<and> field_ok 0 59 (f ! 0) \<and> field_ok 0 23 (f ! 1) \<and> field_ok 1 31 (f ! 2)
     \<and> field_ok 1 12 (f ! 3) \<and> field_ok 0 6 (f ! 4) \<and> field_ok 0 7 (f ! 4))"

lemma cron_terms_True: "cron_terms ts val mn mx = Inr True \<Longrightarrow> list_ex (term_has mn mx val) ts"
  by (induction ts) (auto simp: term_has_def elim!: and_then_InrE split: if_splits)

lemma cron_terms_ok:
  "list_all (term_ok mn mx) ts \<Longrightarrow> cron_terms ts val mn mx = Inr (list_ex (term_has mn mx val) ts)"
  by (induction ts) (auto simp: term_ok_def term_has_def split: sum.splits)

lemma cron_field_True: "cron_field field val mn mx = Inr True \<Longrightarrow> field_has mn mx field val"
  by (auto simp: cron_field_def field_has_def intro: cron_terms_True)

lemma cron_field_ok: "field_ok mn mx field \<Longrightarrow> cron_field field val mn mx = Inr (field_has mn mx field val)"
  by (simp add: cron_field_def field_has_def field_ok_def cron_terms_ok)

lemma and_also_True [simp]: "and_also a b = Inr True \<longleftrightarrow> a = Inr True \<and> b = Inr True"
  by (cases a) (auto simp: and_also_def)

lemma or_else_True [simp]:
  "or_else a b = Inr True \<longleftrightarrow> a = Inr True \<or> a = Inr False \<and> b = Inr True"
  by (cases a) (auto simp: or_else_def)

lemma and_also_Inr [simp]: "and_also (Inr x) (Inr y) = Inr (x \<and> y)"
  by (simp add: and_also_def)

lemma or_else_Inr [simp]: "or_else (Inr x) (Inr y) = Inr (x \<or> y)"
  by (simp add: or_else_def)

lemma cron_fields_True: "cron_fields cal f = Inr True \<Longrightarrow> window_has f cal"
  by (cases cal) (auto simp: cron_fields_def window_has_def dest!: cron_field_True)

section \<open>A schedule in words\<close>

text \<open>
  The set a term denotes, read off its text and not off the parser: a number, two numbers with a
  dash between them, or a star for the whole range, with a positive step after a slash. Terms
  that denote nothing are malformed.
\<close>

inductive range_denotes :: "nat \<Rightarrow> nat \<Rightarrow> string \<Rightarrow> nat \<Rightarrow> nat \<Rightarrow> bool" where
  star: "range_denotes mn mx ''*'' mn mx"
| single: "r \<noteq> ''*'' \<Longrightarrow> CHR ''-'' \<notin> set r \<Longrightarrow> parse_u32 r = Some v \<Longrightarrow> range_denotes mn mx r v v"
| span: "CHR ''-'' \<notin> set a \<Longrightarrow> parse_u32 a = Some lo \<Longrightarrow> parse_u32 b = Some hi
    \<Longrightarrow> range_denotes mn mx (a @ ''-'' @ b) lo hi"

inductive term_denotes :: "nat \<Rightarrow> nat \<Rightarrow> string \<Rightarrow> nat set \<Rightarrow> bool" where
  every: "CHR ''/'' \<notin> set r \<Longrightarrow> range_denotes mn mx r lo hi \<Longrightarrow> term_denotes mn mx r {lo..hi}"
| steps: "CHR ''/'' \<notin> set r \<Longrightarrow> parse_u32 s = Some step \<Longrightarrow> 0 < step \<Longrightarrow> range_denotes mn mx r lo hi
    \<Longrightarrow> term_denotes mn mx (r @ ''/'' @ s) {v. lo \<le> v \<and> v \<le> hi \<and> step dvd v - lo}"

text \<open>
  A field admits a value when one of its comma-separated terms has it and every term before that
  one is well formed; it rejects a value when all its terms are well formed and none has it.
\<close>

definition field_admits :: "nat \<Rightarrow> nat \<Rightarrow> string \<Rightarrow> nat \<Rightarrow> bool" where
  "field_admits mn mx field v \<longleftrightarrow> (\<exists>before t after. split_on CHR '','' field = before @ t # after
     \<and> (\<forall>u \<in> set before. \<exists>T. term_denotes mn mx u T) \<and> (\<exists>S. term_denotes mn mx t S \<and> v \<in> S))"

definition field_rejects :: "nat \<Rightarrow> nat \<Rightarrow> string \<Rightarrow> nat \<Rightarrow> bool" where
  "field_rejects mn mx field v \<longleftrightarrow>
     (\<forall>t \<in> set (split_on CHR '','' field). \<exists>S. term_denotes mn mx t S \<and> v \<notin> S)"

text \<open>Five fields, each of which admits the clock's value; Sunday is 0 or 7.\<close>

definition schedule_admits :: "string list \<Rightarrow> nat \<times> nat \<times> nat \<times> nat \<times> nat \<Rightarrow> bool" where
  "schedule_admits f cal \<longleftrightarrow> (\<exists>fmin fhour fday fmon fdow minute hour day month dow.
     f = [fmin, fhour, fday, fmon, fdow] \<and> cal = (minute, hour, day, month, dow)
     \<and> field_admits 0 59 fmin minute \<and> field_admits 0 23 fhour hour \<and> field_admits 1 31 fday day
     \<and> field_admits 1 12 fmon month
     \<and> (field_admits 0 6 fdow dow \<or> field_rejects 0 6 fdow dow \<and> dow = 0 \<and> field_admits 0 7 fdow 7))"

lemma split_once_SomeD: "split_once d s = Some (a, b) \<Longrightarrow> d \<notin> set a \<and> s = a @ d # b"
  by (induction s arbitrary: a) (auto split: if_splits)

lemma split_once_NoneD: "split_once d s = None \<Longrightarrow> d \<notin> set s"
  by (induction s) (auto split: if_splits)

lemma split_once_None: "d \<notin> set s \<Longrightarrow> split_once d s = None"
  by (induction s) auto

lemma cron_range_denotes: "cron_range r mn mx = Inr (lo, hi) \<longleftrightarrow> range_denotes mn mx r lo hi"
proof
  assume c: "cron_range r mn mx = Inr (lo, hi)"
  show "range_denotes mn mx r lo hi"
  proof (cases "r = ''*''")
    case True
    then show ?thesis using c by (auto simp: cron_range_def intro: range_denotes.star)
  next
    case False
    show ?thesis
    proof (cases "split_once CHR ''-'' r")
      case None
      from split_once_NoneD [OF this] False c None show ?thesis
        by (auto simp: cron_range_def ok_or_def elim!: and_then_InrE intro!: range_denotes.single split: option.splits)
    next
      case (Some p)
      then obtain a b where p: "split_once CHR ''-'' r = Some (a, b)" by (cases p) simp
      from split_once_SomeD [OF this] False c p show ?thesis
        using range_denotes.span [of a lo b hi mn mx]
        by (auto simp: cron_range_def ok_or_def elim!: and_then_InrE split: option.splits)
    qed
  qed
next
  assume "range_denotes mn mx r lo hi"
  then show "cron_range r mn mx = Inr (lo, hi)"
  proof cases
    case (span a b)
    then have "a @ ''-'' @ b \<noteq> ''*''" by (cases a) auto
    then show ?thesis using span split_once_first [of "CHR ''-''" a b] by (simp add: cron_range_def ok_or_def)
  qed (simp_all add: cron_range_def ok_or_def split_once_None)
qed

lemma term_denotes_iff:
  "term_denotes mn mx t S \<longleftrightarrow> (\<exists>r. cron_term t mn mx = Inr r \<and> S = {v. in_term v r})"
proof
  assume "term_denotes mn mx t S"
  then show "\<exists>r. cron_term t mn mx = Inr r \<and> S = {v. in_term v r}"
  proof cases
    case (every lo hi)
    then show ?thesis
      by (intro exI [of _ "(lo, hi, 1)"])
        (auto simp: cron_term_def split_once_None in_term_def simp flip: cron_range_denotes)
  next
    case (steps r s step lo hi)
    then show ?thesis
      using split_once_first [of "CHR ''/''" r s]
      by (intro exI [of _ "(lo, hi, step)"])
        (auto simp: cron_term_def ok_or_def in_term_def dvd_eq_mod_eq_0 simp flip: cron_range_denotes)
  qed
next
  assume "\<exists>r. cron_term t mn mx = Inr r \<and> S = {v. in_term v r}"
  then obtain lo hi step where r: "cron_term t mn mx = Inr (lo, hi, step)" "S = {v. in_term v (lo, hi, step)}" by auto
  have S: "S = {v. lo \<le> v \<and> v \<le> hi \<and> step dvd v - lo}" using r(2) by (auto simp: in_term_def dvd_eq_mod_eq_0)
  show "term_denotes mn mx t S"
  proof (cases "split_once CHR ''/'' t")
    case None
    then have "step = 1" "range_denotes mn mx t lo hi"
      using r(1) by (auto simp: cron_term_def simp flip: cron_range_denotes split: if_splits elim!: and_then_InrE)
    then show ?thesis
      using term_denotes.every [OF split_once_NoneD [OF None], of mn mx lo hi] S by (simp add: atLeastAtMost_def atLeast_def atMost_def Int_def)
  next
    case (Some p)
    then obtain a b where p: "split_once CHR ''/'' t = Some (a, b)" by (cases p) simp
    then have "parse_u32 b = Some step" "0 < step" "range_denotes mn mx a lo hi"
      using r(1) by (auto simp: cron_term_def ok_or_def simp flip: cron_range_denotes split: if_splits option.splits elim!: and_then_InrE)
    then show ?thesis
      using term_denotes.steps [of a b step mn mx lo hi] split_once_SomeD [OF p] S by simp
  qed
qed

lemma first_hit:
  "(\<exists>before t after. x # xs = before @ t # after \<and> (\<forall>u \<in> set before. P u) \<and> R t) \<longleftrightarrow>
     R x \<or> P x \<and> (\<exists>before t after. xs = before @ t # after \<and> (\<forall>u \<in> set before. P u) \<and> R t)"
  (is "?l \<longleftrightarrow> ?r")
proof
  assume ?l
  then obtain before t after where h: "x # xs = before @ t # after" "\<forall>u \<in> set before. P u" "R t" by blast
  then show ?r by (cases before) auto
next
  assume ?r
  then show ?l
  proof
    assume "R x"
    then show ?l by (intro exI [of _ "[]"]) simp
  next
    assume "P x \<and> (\<exists>before t after. xs = before @ t # after \<and> (\<forall>u \<in> set before. P u) \<and> R t)"
    then obtain before t after where "P x" "xs = before @ t # after" "\<forall>u \<in> set before. P u" "R t" by blast
    then show ?l by (intro exI [of _ "x # before"] exI [of _ t] exI [of _ after]) simp
  qed
qed

lemma cron_terms_admits:
  "cron_terms ts v mn mx = Inr True \<longleftrightarrow> (\<exists>before t after. ts = before @ t # after
     \<and> (\<forall>u \<in> set before. \<exists>T. term_denotes mn mx u T) \<and> (\<exists>S. term_denotes mn mx t S \<and> v \<in> S))"
proof (induction ts)
  case (Cons t ts)
  show ?case
    unfolding first_hit Cons.IH [symmetric] by (cases "cron_term t mn mx") (auto simp: term_denotes_iff)
qed simp

lemma cron_terms_rejects:
  "cron_terms ts v mn mx = Inr False \<longleftrightarrow> (\<forall>t \<in> set ts. \<exists>S. term_denotes mn mx t S \<and> v \<notin> S)"
proof (induction ts)
  case (Cons t ts)
  then show ?case by (cases "cron_term t mn mx") (auto simp: term_denotes_iff)
qed simp

lemma cron_field_admits:
  "cron_field field v mn mx = Inr True \<longleftrightarrow> field_admits mn mx field v"
  "cron_field field v mn mx = Inr False \<longleftrightarrow> field_rejects mn mx field v"
  by (simp_all only: cron_field_def field_admits_def field_rejects_def cron_terms_admits cron_terms_rejects)

lemma five_fields: "length f = 5 \<longleftrightarrow> (\<exists>a b c d e. f = [a, b, c, d, e])"
  by (auto simp: numeral_eq_Suc length_Suc_conv)

text \<open>The evaluation grants access exactly when the schedule, in these words, admits the clock.\<close>

lemma cron_window_admits:
  "cron_window_matches E expr now = Inr True \<longleftrightarrow> schedule_admits (split_whitespace expr) (civil E now)"
proof (cases "length (split_whitespace expr) = 5")
  case True
  then obtain a b c d e where f: "split_whitespace expr = [a, b, c, d, e]" unfolding five_fields by blast
  obtain mi h da mo dw where cal: "civil E now = (mi, h, da, mo, dw)" by (cases "civil E now") simp
  show ?thesis
    by (auto simp: cron_window_matches_def f cal cron_fields_def cron_field_admits schedule_admits_def)
next
  case False
  then show ?thesis by (auto simp: cron_window_matches_def Let_def schedule_admits_def)
qed

section \<open>Properties\<close>

text \<open>
  On a schedule all of whose terms are well formed the answer is exactly whether each
  calendar field of the clock belongs to the schedule's field, with 7 accepted for Sunday,
  and never an error.
\<close>

theorem cron_window_exact:
  assumes "schedule_ok expr"
  shows "cron_window_matches E expr now = Inr (window_has (split_whitespace expr) (civil E now))"
  using assms
  by (cases "civil E now")
    (simp add: cron_window_matches_def cron_fields_def window_has_def schedule_ok_def Let_def
      cron_field_ok)

theorem cron_window_exact_witness:
  "cron_window_matches demo_ext ''*/15 9-17 * * 1-5,7'' 0 = Inr True"
proof -
  have "schedule_ok ''*/15 9-17 * * 1-5,7''" by code_simp
  moreover have "window_has (split_whitespace ''*/15 9-17 * * 1-5,7'') (civil demo_ext 0)"
    by code_simp
  ultimately show ?thesis by (simp add: cron_window_exact)
qed

text \<open>
  Even on a malformed schedule, access is inside the window only when each calendar
  field of the clock belongs to a well-formed term of the schedule's field: errors and the
  terms that are skipped never widen the window.
\<close>

theorem cron_window_sound:
  assumes "cron_window_matches E expr now = Inr True"
  shows "window_has (split_whitespace expr) (civil E now)"
  using assms
  by (auto simp: cron_window_matches_def Let_def dest: cron_fields_True split: if_splits)

theorem cron_window_sound_witness:
  "window_has (split_whitespace ''30,x * * * *'') (civil demo_ext 0)"
  by (rule cron_window_sound) code_simp

text \<open>
  Whether a malformed schedule is reported depends on the clock: a bad last field is not
  read while an earlier field does not match, so the validation at grant time accepts it
  and later evaluations fail.
\<close>

theorem cron_malformed_accepted:
  "\<not> schedule_ok ''0 9 * * x''
   \<and> cron_fields (30, 10, 15, 6, 3) (split_whitespace ''0 9 * * x'') = Inr False
   \<and> cron_fields (0, 9, 15, 6, 3) (split_whitespace ''0 9 * * x'') = Inl BadValue"
  by code_simp

end
