(* ===== verification/Blackbook_Core.thy ===== *)
theory Blackbook_Core
  imports Externals
begin

text \<open>
  The key hierarchy and the ciphers of \<open>blackbook_core.rs\<close>: identifiers and their Z85
  form, primary and secondary keys, the iterated key wrap, the two AES-GCM envelopes,
  signing keys, checksummed maps and password hashes. Random draws (key bytes, salts,
  nonces) and the clock are arguments. The interface \<open>sealed_box\<close> states what the
  components that store ciphertext rely on; it is interpreted on the three envelopes.
\<close>

section \<open>Errors and identifiers\<close>

datatype crypto_error =
    KeyDerivation | Encryption | Decryption | Signature | Serialization | Json | Base64
  | InvalidKeyFormat

type_synonym 'a crypto_result = "crypto_error + 'a"

datatype id_encoding = Hex | IdBase64 | Base85

record ident =
  raw :: bytes
  encoding :: id_encoding

definition id_new :: "bytes \<Rightarrow> ident" where
  "id_new rnd = \<lparr>raw = rnd, encoding = Hex\<rparr>"

definition id_from_string :: "ext \<Rightarrow> string \<Rightarrow> string \<Rightarrow> nat \<Rightarrow> ident crypto_result" where
  "id_from_string E v tag dklen =
     and_then (ok_or KeyDerivation (scrypt_kdf E 12 16 4 (as_bytes v) (as_bytes tag) dklen))
       (\<lambda>out. Inr \<lparr>raw = out, encoding = Hex\<rparr>)"

definition z85_alphabet :: string where
  "z85_alphabet =
     ''0123456789abcdefghijklmnopqrstuvwxyzABCDEFGHIJKLMNOPQRSTUVWXYZ.-:+=^!/*?&<>()[]{}@%$#''"

text \<open>One group: \<open>n\<close> in \<open>u32\<close> with wrap-around, then five digits, last digit first.\<close>

definition z85_word :: "bytes \<Rightarrow> u32" where
  "z85_word chunk =
     foldl (\<lambda>n i. n * 256 + (if i < length chunk then ucast (chunk ! i) else 0)) 0 [0..<4]"

primrec z85_digits :: "nat \<Rightarrow> u32 \<Rightarrow> string" where
  "z85_digits 0 v = []"
| "z85_digits (Suc k) v = z85_digits k (v div 85) @ [z85_alphabet ! unat (v mod 85)]"

function base85_encode :: "bytes \<Rightarrow> string" where
  "base85_encode data =
     (if data = [] then []
      else z85_digits 5 (z85_word (take 4 data)) @ base85_encode (drop 4 data))"
  by pat_completeness auto
termination
  by (relation "measure length") auto

declare base85_encode.simps [simp del]

definition id_encode :: "ext \<Rightarrow> ident \<Rightarrow> string" where
  "id_encode E x = (case encoding x of
      Hex \<Rightarrow> hex_encode E (raw x)
    | IdBase64 \<Rightarrow> b64_encode E (raw x)
    | Base85 \<Rightarrow> base85_encode (raw x))"

section \<open>Signing keys\<close>

record asymmetric_key =
  ak_id :: ident
  signing_key :: bytes
  verifying_key :: bytes
  ak_signature :: bytes

definition asymmetric_generate :: "ext \<Rightarrow> bytes \<Rightarrow> bytes \<Rightarrow> asymmetric_key" where
  "asymmetric_generate E seed rnd =
     \<lparr>ak_id = id_new rnd, signing_key = seed, verifying_key = ed_public E seed,
      ak_signature = []\<rparr>"

definition asymmetric_sign :: "ext \<Rightarrow> asymmetric_key \<Rightarrow> bytes \<Rightarrow> string crypto_result" where
  "asymmetric_sign E k m =
     (if length (signing_key k) \<noteq> 32 then Inl InvalidKeyFormat
      else Inr (b64_encode E (ed_sign E (signing_key k) m)))"

definition asymmetric_verify ::
    "ext \<Rightarrow> asymmetric_key \<Rightarrow> string \<Rightarrow> bytes \<Rightarrow> bool crypto_result" where
  "asymmetric_verify E k sig m =
     and_then (ok_or Base64 (b64_decode E sig)) (\<lambda>sb.
       if length (verifying_key k) \<noteq> 32 then Inl InvalidKeyFormat
       else if \<not> ed_point E (verifying_key k) then Inl InvalidKeyFormat
       else if length sb \<noteq> 64 then Inl InvalidKeyFormat
       else Inr (ed_verify E (verifying_key k) m sb))"

section \<open>Symmetric keys\<close>

record base_key =
  bk_id :: ident
  bk_key :: bytes

record primary_key =
  base :: base_key

definition primary_new :: "bytes \<Rightarrow> bytes \<Rightarrow> primary_key" where
  "primary_new rnd_id rnd_key = \<lparr>base = \<lparr>bk_id = id_new rnd_id, bk_key = rnd_key\<rparr>\<rparr>"

definition seed :: "primary_key \<Rightarrow> bytes" where
  "seed p = bk_key (base p)"

datatype kdf = Scrypt | Pbkdf2Sha3_512

record secondary_key =
  sk_primary :: primary_key
  sk_domain :: string
  sk_kdf :: kdf
  sk_length :: nat

definition sk_scrypt :: "primary_key \<Rightarrow> string \<Rightarrow> nat \<Rightarrow> secondary_key" where
  "sk_scrypt p tag n = \<lparr>sk_primary = p, sk_domain = tag, sk_kdf = Scrypt, sk_length = n\<rparr>"

definition sk_pbkdf2 :: "primary_key \<Rightarrow> string \<Rightarrow> nat \<Rightarrow> secondary_key" where
  "sk_pbkdf2 p tag n =
     \<lparr>sk_primary = p, sk_domain = tag, sk_kdf = Pbkdf2Sha3_512, sk_length = n\<rparr>"

text \<open>The salt fed to the KDF: \<open>domain || info\<close>.\<close>

definition handle_salt :: "secondary_key \<Rightarrow> bytes \<Rightarrow> bytes" where
  "handle_salt sk info = as_bytes (sk_domain sk) @ info"

definition handle_with_info :: "ext \<Rightarrow> secondary_key \<Rightarrow> bytes \<Rightarrow> bytes crypto_result" where
  "handle_with_info E sk info =
     (let salt = handle_salt sk info
      in case sk_kdf sk of
           Scrypt \<Rightarrow> ok_or KeyDerivation
             (scrypt_kdf E 12 16 4 (seed (sk_primary sk)) salt (sk_length sk))
         | Pbkdf2Sha3_512 \<Rightarrow>
             Inr (pbkdf2_sha3_512 E (seed (sk_primary sk)) salt 200000 (sk_length sk)))"

definition handle :: "ext \<Rightarrow> secondary_key \<Rightarrow> bytes crypto_result" where
  "handle E sk = handle_with_info E sk []"

section \<open>The iterated key wrap\<close>

record wrapped_key =
  wrapped :: bytes
  wrapper :: secondary_key
  iterations :: nat

text \<open>\<open>usize::BITS - i.leading_zeros()\<close>.\<close>

fun bit_length :: "nat \<Rightarrow> nat" where
  "bit_length n = (if n = 0 then 0 else Suc (bit_length (n div 2)))"

declare bit_length.simps [simp del]

definition round_info :: "nat \<Rightarrow> bytes" where
  "round_info i = (if i = 0 then [0] else be_bytes (bit_length i div 8 + 1) i)"

text \<open>The KEK of a round; \<open>try_from\<close> refuses a key that is not 32 bytes long.\<close>

definition round_kek :: "ext \<Rightarrow> secondary_key \<Rightarrow> nat \<Rightarrow> bytes crypto_result" where
  "round_kek E sk i =
     and_then (handle_with_info E sk (round_info i))
       (\<lambda>k. if length k = 32 then Inr k else Inl KeyDerivation)"

fun wrap_rounds ::
    "ext \<Rightarrow> secondary_key \<Rightarrow> nat list \<Rightarrow> bytes \<Rightarrow> bytes crypto_result" where
  "wrap_rounds E sk [] buf = Inr buf"
| "wrap_rounds E sk (i # is) buf =
     and_then (round_kek E sk i) (\<lambda>kek.
     and_then (ok_or Encryption (kw_wrap E kek buf)) (\<lambda>next_buf.
       wrap_rounds E sk is next_buf))"

definition wrap_bytes ::
    "ext \<Rightarrow> primary_key \<Rightarrow> bytes \<Rightarrow> nat \<Rightarrow> wrapped_key crypto_result" where
  "wrap_bytes E p secret n =
     (if length secret \<noteq> 32 then Inl Encryption
      else
        let sk = sk_scrypt p ''key-wrap/v1'' 32
        in and_then (wrap_rounds E sk [0..<n] secret)
             (\<lambda>buf. Inr \<lparr>wrapped = buf, wrapper = sk, iterations = n\<rparr>))"

fun unwrap_rounds ::
    "ext \<Rightarrow> secondary_key \<Rightarrow> nat list \<Rightarrow> bytes \<Rightarrow> bytes crypto_result" where
  "unwrap_rounds E sk [] buf = Inr buf"
| "unwrap_rounds E sk (i # is) buf =
     (if length buf < 8 then Inl Decryption
      else
        and_then (round_kek E sk i) (\<lambda>kek.
        and_then (ok_or Decryption (kw_unwrap E kek buf)) (\<lambda>next_buf.
          unwrap_rounds E sk is next_buf)))"

definition unwrap_key :: "ext \<Rightarrow> wrapped_key \<Rightarrow> bytes crypto_result" where
  "unwrap_key E wk = unwrap_rounds E (wrapper wk) (rev [0..<iterations wk]) (wrapped wk)"

section \<open>AES-GCM envelopes\<close>

definition timestamp_bytes :: "nat \<Rightarrow> bytes" where
  "timestamp_bytes secs = drop 3 (be_bytes 8 secs)"

definition derive_message_key :: "ext \<Rightarrow> bytes \<Rightarrow> bytes \<Rightarrow> bytes crypto_result" where
  "derive_message_key E k salt = ok_or KeyDerivation (scrypt_kdf E 12 16 4 k salt 32)"

text \<open>\<open>timestamp(5) || salt(32) || ciphertext-with-tag\<close>.\<close>

definition encrypt_aes_gcm ::
    "ext \<Rightarrow> nat \<Rightarrow> bytes \<Rightarrow> bytes \<Rightarrow> bytes \<Rightarrow> bytes crypto_result" where
  "encrypt_aes_gcm E secs salt data k =
     (let ts = timestamp_bytes secs
      in and_then (derive_message_key E k salt) (\<lambda>mk.
         and_then (ok_or Encryption (gcm_encrypt E mk (take 12 salt) ts data)) (\<lambda>ct.
           Inr (ts @ salt @ ct))))"

definition decrypt_aes_gcm :: "ext \<Rightarrow> bytes \<Rightarrow> bytes \<Rightarrow> bytes crypto_result" where
  "decrypt_aes_gcm E env k =
     (if length env < 37 + 16 then Inl Decryption
      else
        let ts = take 5 env; salt = take 32 (drop 5 env); body = drop 37 env
        in and_then (derive_message_key E k salt) (\<lambda>mk.
             ok_or Decryption (gcm_decrypt E mk (take 12 salt) ts body)))"

definition aead_seal_nonce :: "ext \<Rightarrow> bytes \<Rightarrow> bytes \<Rightarrow> bytes \<Rightarrow> bytes crypto_result" where
  "aead_seal_nonce E plaintext dek nonce =
     (if length dek \<noteq> 32 then Inl Encryption
      else and_then (ok_or Encryption (gcm_encrypt E dek nonce [] plaintext))
             (\<lambda>ct. Inr (nonce @ ct)))"

text \<open>\<open>aead_seal\<close> draws the nonce and calls \<open>aead_seal_nonce\<close>.\<close>

definition aead_seal :: "ext \<Rightarrow> bytes \<Rightarrow> bytes \<Rightarrow> bytes \<Rightarrow> bytes crypto_result" where
  "aead_seal E nonce plaintext dek = aead_seal_nonce E plaintext dek nonce"

definition aead_open_nonce :: "ext \<Rightarrow> bytes \<Rightarrow> bytes \<Rightarrow> bytes \<Rightarrow> bytes crypto_result" where
  "aead_open_nonce E frame dek expected =
     (if length dek \<noteq> 32 then Inl Decryption
      else if length frame < 12 + 16 then Inl Decryption
      else if take 12 frame \<noteq> expected then Inl Decryption
      else ok_or Decryption (gcm_decrypt E dek (take 12 frame) [] (drop 12 frame)))"

definition aead_seal_aad ::
    "ext \<Rightarrow> bytes \<Rightarrow> bytes \<Rightarrow> bytes \<Rightarrow> bytes \<Rightarrow> bytes crypto_result" where
  "aead_seal_aad E nonce plaintext dek aad =
     (if length dek \<noteq> 32 then Inl Encryption
      else and_then (ok_or Encryption (gcm_encrypt E dek nonce aad plaintext))
             (\<lambda>ct. Inr (nonce @ ct)))"

definition aead_open_aad :: "ext \<Rightarrow> bytes \<Rightarrow> bytes \<Rightarrow> bytes \<Rightarrow> bytes crypto_result" where
  "aead_open_aad E env dek aad =
     (if length dek \<noteq> 32 then Inl Decryption
      else if length env < 12 + 16 then Inl Decryption
      else ok_or Decryption (gcm_decrypt E dek (take 12 env) aad (drop 12 env)))"

definition aead_open :: "ext \<Rightarrow> bytes \<Rightarrow> bytes \<Rightarrow> bytes crypto_result" where
  "aead_open E env dek =
     (if length dek \<noteq> 32 then Inl Decryption
      else if length env < 12 + 16 then Inl Decryption
      else ok_or Decryption (gcm_decrypt E dek (take 12 env) [] (drop 12 env)))"

section \<open>Checksummed maps and password hashes\<close>

text \<open>
  A \<open>HashMap\<close> is the list of its entries in the order in which it iterates. The order of
  the map that \<open>serde_json\<close> rebuilds is that of a fresh \<open>RandomState\<close>: \<open>order\<close> is the
  permutation it applies.
\<close>

definition serialize :: "ext \<Rightarrow> (string \<times> bytes) list \<Rightarrow> string" where
  "serialize E data =
     b64_encode E (json_sealed E data (sha3_256 E (json_map E data)))"

definition deserialize ::
    "ext \<Rightarrow> ((string \<times> bytes) list \<Rightarrow> (string \<times> bytes) list) \<Rightarrow> string
      \<Rightarrow> (string \<times> bytes) list crypto_result" where
  "deserialize E order s =
     and_then (ok_or Base64 (b64_decode E s)) (\<lambda>decoded.
     and_then (ok_or Json (json_unsealed E decoded)) (\<lambda>(entries, checksum).
       let data = order entries
       in if sha3_256 E (json_map E data) \<noteq> checksum then Inl Serialization else Inr data))"

definition hash_password :: "ext \<Rightarrow> bytes \<Rightarrow> string \<Rightarrow> string crypto_result" where
  "hash_password E salt password =
     and_then (ok_or KeyDerivation (scrypt_kdf E 12 16 4 (as_bytes password) salt 32))
       (\<lambda>out. Inr (b64_encode E (salt @ out)))"

definition verify_password :: "ext \<Rightarrow> string \<Rightarrow> string \<Rightarrow> bool crypto_result" where
  "verify_password E password h =
     and_then (ok_or Base64 (b64_decode E h)) (\<lambda>decoded.
       if length decoded \<noteq> 64 then Inl Encryption
       else and_then (ok_or KeyDerivation
              (scrypt_kdf E 12 16 4 (as_bytes password) (take 32 decoded) 32))
              (\<lambda>out. Inr (out = drop 32 decoded)))"

section \<open>The master key bundle\<close>

record blackbook_key =
  bb_id :: ident
  symmetric :: wrapped_key
  root :: primary_key
  secret_layer1 :: secondary_key
  secret_layer2 :: secondary_key
  file_dek_kek :: secondary_key
  bb_index :: secondary_key
  bb_hmac :: secondary_key
  mfa_secret_kek :: secondary_key
  asymmetric :: asymmetric_key
  exchange_key :: base_key

text \<open>The random draws of \<open>BlackbookKey::generate\<close>, in the order they are made.\<close>

record key_draws =
  d_id :: bytes
  d_secret :: bytes
  d_wrap_root :: primary_key
  d_root :: primary_key
  d_seed :: bytes
  d_asym_id :: bytes
  d_exchange :: base_key

definition generate :: "ext \<Rightarrow> key_draws \<Rightarrow> blackbook_key crypto_result" where
  "generate E d =
     and_then (wrap_bytes E (d_wrap_root d) (d_secret d) 30) (\<lambda>sym.
       let r = d_root d in
       Inr \<lparr>bb_id = id_new (d_id d),
            symmetric = sym,
            root = r,
            secret_layer1 = sk_scrypt r ''secret/layer1/v1'' 32,
            secret_layer2 = sk_scrypt r ''secret/layer2/v1'' 32,
            file_dek_kek = sk_scrypt r ''file/dek-kek/v1'' 32,
            bb_index = sk_pbkdf2 r ''index/v1'' 32,
            bb_hmac = sk_pbkdf2 r ''hmac/v1'' 32,
            mfa_secret_kek = sk_scrypt r ''mfa/secret-kek/v1'' 32,
            asymmetric = asymmetric_generate E (d_seed d) (d_asym_id d),
            exchange_key = d_exchange d\<rparr>)"

definition symmetric_bytes :: "ext \<Rightarrow> blackbook_key \<Rightarrow> bytes crypto_result" where
  "symmetric_bytes E k = unwrap_key E (symmetric k)"

definition index_id :: "ext \<Rightarrow> blackbook_key \<Rightarrow> string \<Rightarrow> string crypto_result" where
  "index_id E k name =
     and_then (handle_with_info E (bb_index k) (as_bytes name)) (\<lambda>b. Inr (hex_encode E b))"

text \<open>The derivation keys of a bundle, by name.\<close>

definition derivation_keys :: "blackbook_key \<Rightarrow> secondary_key list" where
  "derivation_keys k =
     [secret_layer1 k, secret_layer2 k, file_dek_kek k, bb_index k, bb_hmac k,
      mfa_secret_kek k]"

section \<open>Identifiers\<close>

lemma z85_word_of_be:
  assumes "length chunk = 4"
  shows "z85_word chunk = word_of_nat (of_be chunk)"
proof -
  obtain a b c d where "chunk = [a, b, c, d]"
    using assms by (auto simp: length_Suc_conv numeral_eq_Suc)
  then show ?thesis by (simp add: z85_word_def of_be_def upt_conv_Cons)
qed

lemma z85_word_inject:
  assumes "length a = 4" and "length b = 4" and "z85_word a = z85_word b"
  shows "a = b"
proof -
  have "unat (word_of_nat (of_be a) :: u32) = unat (word_of_nat (of_be b) :: u32)"
    using assms by (simp add: z85_word_of_be)
  moreover have "of_be a < 2 ^ 32" and "of_be b < 2 ^ 32"
    using of_be_less [of a] of_be_less [of b] assms(1,2) by simp_all
  ultimately have "of_be a = of_be b"
    by (simp add: unat_of_nat)
  with assms(1,2) show ?thesis by (simp add: of_be_inject)
qed

lemma z85_alphabet_nth: "i < 85 \<Longrightarrow> j < 85 \<Longrightarrow> z85_alphabet ! i = z85_alphabet ! j \<longleftrightarrow> i = j"
proof -
  have "distinct z85_alphabet \<and> length z85_alphabet = 85" by code_simp
  then show "i < 85 \<Longrightarrow> j < 85 \<Longrightarrow> ?thesis" by (simp add: nth_eq_iff_index_eq)
qed

lemma length_z85_digits [simp]: "length (z85_digits k v) = k"
  by (induction k arbitrary: v) auto

lemma z85_digits_inject:
  "unat v < 85 ^ k \<Longrightarrow> unat w < 85 ^ k \<Longrightarrow> z85_digits k v = z85_digits k w \<Longrightarrow> v = w"
proof (induction k arbitrary: v w)
  case 0
  then have "unat v = unat w" by simp
  then show ?case by (rule unsigned_word_eqI)
next
  case (Suc k)
  have dm: "unat (x div 85) = unat x div 85" "unat (x mod 85) = unat x mod 85" for x :: u32
    by (simp_all add: unat_div unat_mod)
  have "unat (v mod 85) = unat (w mod 85)"
    using Suc.prems(3) z85_alphabet_nth [of "unat v mod 85" "unat w mod 85"] by (simp add: dm)
  then have "v mod 85 = w mod 85" by (rule unsigned_word_eqI)
  moreover have "unat (v div 85) < 85 ^ k" "unat (w div 85) < 85 ^ k"
    using Suc.prems(1,2) by (simp_all add: dm less_mult_imp_div_less mult.commute)
  then have "v div 85 = w div 85" using Suc.IH Suc.prems(3) by simp
  ultimately show ?case by (metis div_mult_mod_eq)
qed

lemma base85_inject:
  "length a = length b \<Longrightarrow> length a mod 4 = 0 \<Longrightarrow> base85_encode a = base85_encode b \<Longrightarrow> a = b"
proof (induction a arbitrary: b rule: base85_encode.induct)
  case (1 a)
  show ?case
  proof (cases "a = []")
    case False
    then have "0 < length a" by simp
    with "1.prems"(2) have "4 \<le> length a" by presburger
    with "1.prems"(1) have b: "b \<noteq> []" "length (take 4 a) = 4" "length (take 4 b) = 4"
      by auto
    have eq: "z85_digits 5 (z85_word (take 4 a)) @ base85_encode (drop 4 a)
        = z85_digits 5 (z85_word (take 4 b)) @ base85_encode (drop 4 b)"
      using "1.prems"(3) base85_encode.simps [of a] base85_encode.simps [of b] False b(1) by simp
    then have "z85_digits 5 (z85_word (take 4 a)) = z85_digits 5 (z85_word (take 4 b))"
      by simp
    moreover have "unat v < 85 ^ 5" for v :: u32
      by (rule less_le_trans [OF unsigned_less]) simp
    ultimately have "take 4 a = take 4 b"
      using z85_digits_inject z85_word_inject b(2,3) by blast
    moreover have "drop 4 a = drop 4 b"
    proof (rule "1.IH" [OF False])
      show "length (drop 4 a) mod 4 = 0" using "1.prems"(2) \<open>4 \<le> length a\<close> by (simp add: le_mod_geq)
    qed (use eq "1.prems" in auto)
    ultimately show ?thesis by (metis append_take_drop_id)
  qed (use 1 in auto)
qed

section \<open>The key wrap\<close>

lemma bit_length_bound: "n < 2 ^ bit_length n"
proof (induction n rule: bit_length.induct)
  case (1 n)
  show ?case
  proof (cases "n = 0")
    case False
    then have "n div 2 < 2 ^ bit_length (n div 2)" by (rule 1)
    then have "n < 2 * 2 ^ bit_length (n div 2)" by simp
    with False show ?thesis by (subst bit_length.simps) simp
  qed (simp add: bit_length.simps)
qed

text \<open>Different rounds never share a KEK salt: the counter can be read back from it.\<close>

lemma of_be_round_info: "of_be (round_info i) = i"
proof (cases "i = 0")
  case False
  have "i < 2 ^ bit_length i" by (rule bit_length_bound)
  also have "\<dots> \<le> 2 ^ (8 * (bit_length i div 8 + 1))"
    by (rule power_increasing) presburger+
  finally have "i < 256 ^ (bit_length i div 8 + 1)"
    by (simp only: power_mult) simp
  with False show ?thesis
    by (simp only: round_info_def if_False of_be_be_bytes)
qed (simp add: round_info_def of_be_def)

lemma round_kek_ok:
  assumes "scrypt_law E" and "sk_kdf sk = Scrypt" and "sk_length sk = 32"
  obtains kek where "round_kek E sk i = Inr kek" and "length kek = 32"
proof -
  obtain out where "scrypt_kdf E 12 16 4 (seed (sk_primary sk)) (handle_salt sk (round_info i)) 32
      = Some out" and "length out = 32"
    using scrypt_lawE [OF assms(1), of 32] by auto
  with assms(2,3) that show ?thesis
    by (auto simp: round_kek_def handle_with_info_def)
qed

lemma unwrap_rounds_append:
  "unwrap_rounds E sk (xs @ ys) buf = and_then (unwrap_rounds E sk xs buf) (unwrap_rounds E sk ys)"
proof (induction xs arbitrary: buf)
  case (Cons i xs)
  then show ?case
    by (auto simp: and_then_def split: sum.splits)
qed simp

lemma wrap_rounds_unwrap:
  assumes "kw_law E" and "scrypt_law E" and "sk_kdf sk = Scrypt" and "sk_length sk = 32"
    and "length buf mod 8 = 0" and "16 \<le> length buf"
  shows "\<exists>out. wrap_rounds E sk is buf = Inr out \<and> length out = length buf + 8 * length is
    \<and> unwrap_rounds E sk (rev is) out = Inr buf"
  using assms(5,6)
proof (induction "is" arbitrary: buf)
  case (Cons i "is")
  obtain kek where kek: "round_kek E sk i = Inr kek" "length kek = 32"
    using round_kek_ok [OF assms(2-4)] .
  obtain c where c: "kw_wrap E kek buf = Some c" "kw_unwrap E kek c = Some buf"
      "length c = length buf + 8"
    using kw_lawE [OF assms(1) kek(2) Cons.prems] .
  moreover obtain out where "wrap_rounds E sk is c = Inr out"
      "length out = length c + 8 * length is" "unwrap_rounds E sk (rev is) out = Inr c"
    using Cons.IH [of c] Cons.prems c(3) by auto
  ultimately show ?case
    using kek by (simp add: unwrap_rounds_append)
qed simp

lemma wrap_bytes_ok:
  assumes "kw_law E" and "scrypt_law E" and "length secret = 32"
  shows "\<exists>wk. wrap_bytes E p secret n = Inr wk \<and> length (wrapped wk) = 32 + 8 * n
    \<and> unwrap_key E wk = Inr secret"
proof -
  let ?sk = "sk_scrypt p ''key-wrap/v1'' 32"
  have "sk_kdf ?sk = Scrypt" and "sk_length ?sk = 32" by (simp_all add: sk_scrypt_def)
  then obtain out where "wrap_rounds E ?sk [0..<n] secret = Inr out"
      "length out = 32 + 8 * n" "unwrap_rounds E ?sk (rev [0..<n]) out = Inr secret"
    using wrap_rounds_unwrap [OF assms(1,2), of ?sk secret "[0..<n]"] assms(3) by auto
  with assms(3) show ?thesis by (simp add: wrap_bytes_def unwrap_key_def)
qed

lemma generate_ok:
  assumes "kw_law E" and "scrypt_law E" and "length (d_secret d) = 32"
  shows "\<exists>k. generate E d = Inr k \<and> symmetric_bytes E k = Inr (d_secret d)"
proof -
  obtain wk where "wrap_bytes E (d_wrap_root d) (d_secret d) 30 = Inr wk"
      "unwrap_key E wk = Inr (d_secret d)"
    using wrap_bytes_ok [OF assms] by blast
  then show ?thesis by (simp add: generate_def Let_def symmetric_bytes_def)
qed

lemma generate_domains:
  "generate E d = Inr k \<Longrightarrow> map sk_domain (derivation_keys k) =
     [''secret/layer1/v1'', ''secret/layer2/v1'', ''file/dek-kek/v1'', ''index/v1'', ''hmac/v1'',
      ''mfa/secret-kek/v1'']"
  unfolding generate_def Let_def
  by (elim and_then_InrE) (auto simp: derivation_keys_def sk_scrypt_def sk_pbkdf2_def)

section \<open>Envelopes\<close>

text \<open>
  The interface of an envelope: \<open>seal E r k m\<close> encrypts \<open>m\<close> under \<open>k\<close> with the random draw
  \<open>r\<close>, \<open>unseal E k c\<close> opens. \<open>fresh\<close> is the size the program draws \<open>r\<close> with.
\<close>

locale sealed_box =
  fixes seal :: "ext \<Rightarrow> 'r \<Rightarrow> 'k \<Rightarrow> bytes \<Rightarrow> bytes crypto_result"
    and unseal :: "ext \<Rightarrow> 'k \<Rightarrow> bytes \<Rightarrow> bytes crypto_result"
    and fresh :: "'r \<Rightarrow> bool"
    and overhead :: nat
  assumes unseal_seal:
      "gcm_law E \<Longrightarrow> fresh r \<Longrightarrow> seal E r k m = Inr c \<Longrightarrow> unseal E k c = Inr m"
    and seal_length:
      "gcm_law E \<Longrightarrow> fresh r \<Longrightarrow> seal E r k m = Inr c \<Longrightarrow> length c = length m + overhead"
begin

lemma seal_inject:
  assumes "gcm_law E" and "fresh r" and "fresh r'"
    and "seal E r k m = Inr c" and "seal E r' k m' = Inr c"
  shows "m = m'"
  using unseal_seal [OF assms(1,2,4)] unseal_seal [OF assms(1,3,5)] by simp

lemma two_layers:
  assumes "gcm_law E" and "fresh r1" and "fresh r2"
    and "seal E r1 k1 m = Inr c1" and "seal E r2 k2 c1 = Inr c2"
  shows "and_then (unseal E k2 c2) (unseal E k1) = Inr m"
  using unseal_seal [OF assms(1,2,4)] unseal_seal [OF assms(1,3,5)] by simp

lemma sealed_text:
  assumes "gcm_law E" and "fresh r" and "seal E r k (as_bytes s) = Inr c" and "utf8_str s"
  shows "and_then (unseal E k c) (\<lambda>b. ok_or Decryption (from_utf8 b)) = Inr s"
  using unseal_seal [OF assms(1-3)] assms(4) by simp

end

interpretation box: sealed_box "\<lambda>E n k m. aead_seal E n m k" "\<lambda>E k c. aead_open E c k"
  "\<lambda>n. length n = 12" 28
  by unfold_locales
    (auto simp: aead_seal_def aead_seal_nonce_def aead_open_def dest!: gcm_encryptD
      elim!: and_then_InrE split: if_splits)

interpretation bound_box: sealed_box "\<lambda>E n (k, aad) m. aead_seal_aad E n m k aad"
  "\<lambda>E (k, aad) c. aead_open_aad E c k aad" "\<lambda>n. length n = 12" 28
  by unfold_locales
    (auto simp: aead_seal_aad_def aead_open_aad_def dest!: gcm_encryptD
      elim!: and_then_InrE split: if_splits)

lemma length_timestamp_bytes [simp]: "length (timestamp_bytes secs) = 5"
  by (simp add: timestamp_bytes_def)

interpretation stretched_box: sealed_box "\<lambda>E (secs, salt) k m. encrypt_aes_gcm E secs salt m k"
  "\<lambda>E k c. decrypt_aes_gcm E c k" "\<lambda>(secs, salt). length salt = 32" 53
  by unfold_locales
    (auto simp: encrypt_aes_gcm_def decrypt_aes_gcm_def Let_def dest!: gcm_encryptD
      elim!: and_then_InrE split: if_splits)

section \<open>Properties\<close>

text \<open>
  Wrapping any 32-byte key through any number of rounds succeeds, adds eight bytes per
  round, and unwrapping the result gives the key back.
\<close>

theorem wrap_unwrap:
  assumes "kw_law E" and "scrypt_law E" and "length secret = 32"
  shows "\<exists>wk. wrap_bytes E p secret n = Inr wk \<and> length (wrapped wk) = 32 + 8 * n
    \<and> unwrap_key E wk = Inr secret"
  using assms by (rule wrap_bytes_ok)

theorem wrap_unwrap_witness:
  "\<exists>wk. wrap_bytes demo_ext (primary_new (zeros 32) (zeros 32)) (replicate 32 7) 30 = Inr wk
    \<and> length (wrapped wk) = 272 \<and> unwrap_key demo_ext wk = Inr (replicate 32 7)"
  using wrap_unwrap [of demo_ext "replicate 32 7" "primary_new (zeros 32) (zeros 32)" 30] by simp

text \<open>
  The salts of the six derivation keys of a generated bundle differ for different keys,
  whatever the per-call info is: domain separation holds although the info is appended to
  the domain string without a separator.
\<close>

theorem derivation_salts_separate:
  assumes "generate E d = Inr k"
    and "a \<in> set (derivation_keys k)" and "b \<in> set (derivation_keys k)"
    and "handle_salt a info = handle_salt b info'"
  shows "a = b \<and> info = info'"
  using assms unfolding generate_def Let_def
  by (elim and_then_InrE)
    (auto simp: derivation_keys_def handle_salt_def sk_scrypt_def sk_pbkdf2_def as_bytes_def)

definition demo_draws :: key_draws where
  "demo_draws = \<lparr>d_id = zeros 32, d_secret = replicate 32 7,
     d_wrap_root = primary_new (zeros 32) (zeros 32), d_root = primary_new (zeros 32) (zeros 32),
     d_seed = zeros 32, d_asym_id = zeros 32,
     d_exchange = \<lparr>bk_id = id_new (zeros 32), bk_key = zeros 32\<rparr>\<rparr>"

theorem derivation_salts_separate_witness:
  "\<exists>k. generate demo_ext demo_draws = Inr k
    \<and> handle_salt (bb_index k) (as_bytes ''x'') \<noteq> handle_salt (bb_hmac k) (as_bytes ''x'')"
proof -
  have "length (d_secret demo_draws) = 32" by (simp add: demo_draws_def)
  then obtain k where k: "generate demo_ext demo_draws = Inr k"
    using generate_ok [OF demo_laws(4,5)] by blast
  have "bb_index k \<in> set (derivation_keys k)" "bb_hmac k \<in> set (derivation_keys k)"
    by (simp_all add: derivation_keys_def)
  note sep = derivation_salts_separate [OF k this]
  have "sk_domain (bb_index k) = ''index/v1''" "sk_domain (bb_hmac k) = ''hmac/v1''"
    using generate_domains [OF k] by (simp_all add: derivation_keys_def)
  then have "bb_index k \<noteq> bb_hmac k" by auto
  with k sep show ?thesis by blast
qed

text \<open>
  The Z85 form of an identifier determines it: identifiers of the same length, a
  multiple of four, have the same text only when they are equal.
\<close>

theorem base85_lossless:
  assumes "length a = length b" and "length a mod 4 = 0"
  shows "base85_encode a = base85_encode b \<longleftrightarrow> a = b"
  using base85_inject [OF assms] by fast

theorem base85_lossless_witness: "base85_encode [0, 0, 0, 1] \<noteq> base85_encode [0, 0, 0, 2]"
proof -
  have "[0, 0, 0, 1] \<noteq> [0, 0, 0, 2 :: u8]" by simp
  then show ?thesis by (subst base85_lossless) simp_all
qed

section \<open>A bundle for the instances\<close>

definition demo_root :: primary_key where
  "demo_root = primary_new (zeros 32) (zeros 32)"

definition demo_keys :: blackbook_key where
  "demo_keys = \<lparr>bb_id = id_new (zeros 32),
     symmetric = \<lparr>wrapped = zeros 32, wrapper = sk_scrypt demo_root ''key-wrap/v1'' 32, iterations = 0\<rparr>,
     root = demo_root,
     secret_layer1 = sk_scrypt demo_root ''secret/layer1/v1'' 32,
     secret_layer2 = sk_scrypt demo_root ''secret/layer2/v1'' 32,
     file_dek_kek = sk_scrypt demo_root ''file/dek-kek/v1'' 32,
     bb_index = sk_pbkdf2 demo_root ''index/v1'' 32,
     bb_hmac = sk_pbkdf2 demo_root ''hmac/v1'' 32,
     mfa_secret_kek = sk_scrypt demo_root ''mfa/secret-kek/v1'' 32,
     asymmetric = asymmetric_generate demo_ext (zeros 32) (zeros 32),
     exchange_key = \<lparr>bk_id = id_new (zeros 32), bk_key = zeros 32\<rparr>\<rparr>"

end
