(* ===== verification/Server_Base.thy ===== *)
theory Server_Base
  imports Blackbook_Core
begin

text \<open>
  What every handler of \<open>server.rs\<close> shares: the keys of \<open>AppState\<close>, the clock and the
  random draws of a request, the keyed lookup ids of names, the encryption of metadata
  columns, the caller and the role checks. The lookup ids instantiate the \<open>framing\<close>
  interface: names in different domains and of different kinds have different ids.
\<close>

section \<open>State and requests\<close>

text \<open>\<open>AppState\<close> without the database, which is the state of the tables below.\<close>

record app =
  bb_keys :: blackbook_key
  audit_hmac_key :: bytes
  name_index_key :: bytes
  metadata_enc_key :: bytes
  managed_key_kek :: bytes

text \<open>
  One request: the clock, in microseconds since the epoch and read once, and the sequence
  of its random draws. \<open>rand\<close> is the \<open>i\<close>-th draw, filled to \<open>n\<close> bytes.
\<close>

record request =
  now :: int
  entropy :: "nat \<Rightarrow> bytes"

definition rand :: "request \<Rightarrow> nat \<Rightarrow> nat \<Rightarrow> bytes" where
  "rand rq i n = take n (entropy rq i @ zeros n)"

lemma length_rand [simp]: "length (rand rq i n) = n"
  by (simp add: rand_def zeros_def)

datatype auth_method = MutualTlsAndToken

record authenticated_client =
  ac_id :: string
  ac_name :: string
  ac_role :: string
  ac_method :: auth_method

definition is_admin :: "authenticated_client \<Rightarrow> bool" where
  "is_admin c \<longleftrightarrow> ac_role c = ''admin''"

definition require_admin :: "authenticated_client \<Rightarrow> 'b response option" where
  "require_admin c = (if is_admin c then None else Some (ErrorReply 403 ''forbidden''))"

section \<open>Keyed lookup ids\<close>

definition hmac_frame :: "bytes \<times> bytes \<times> bytes list \<Rightarrow> bytes" where
  "hmac_frame m = (case m of (scope, index_key, parts) \<Rightarrow>
     scope @ [0] @ lp index_key @ concat (map lp parts))"

definition hmac_id :: "ext \<Rightarrow> bytes \<Rightarrow> bytes \<Rightarrow> bytes list \<Rightarrow> string" where
  "hmac_id E index_key scope parts =
     hex_encode E (sha3_256 E (hmac_frame (scope, index_key, parts)))"

definition name_id_hex :: "ext \<Rightarrow> bytes \<Rightarrow> string \<Rightarrow> string \<Rightarrow> string" where
  "name_id_hex E k domain_id name =
     hmac_id E k (as_bytes ''blackbook-name-id/v1'') [as_bytes domain_id, as_bytes name]"

definition client_name_id_hex :: "ext \<Rightarrow> bytes \<Rightarrow> string \<Rightarrow> string" where
  "client_name_id_hex E k name =
     hmac_id E k (as_bytes ''blackbook-client-name-id/v1'') [as_bytes name]"

definition domain_name_id_hex :: "ext \<Rightarrow> bytes \<Rightarrow> string \<Rightarrow> string" where
  "domain_name_id_hex E k name =
     hmac_id E k (as_bytes ''blackbook-domain-name-id/v1'') [as_bytes name]"

definition file_hash_id_hex :: "ext \<Rightarrow> bytes \<Rightarrow> string \<Rightarrow> string" where
  "file_hash_id_hex E k h =
     hmac_id E k (as_bytes ''blackbook-file-hash-id/v1'') [as_bytes h]"

section \<open>Encrypted metadata columns\<close>

definition enc_field :: "ext \<Rightarrow> bytes \<Rightarrow> bytes \<Rightarrow> bytes \<Rightarrow> bytes crypto_result" where
  "enc_field E nonce k plaintext = aead_seal E nonce plaintext k"

definition dec_field :: "ext \<Rightarrow> bytes \<Rightarrow> bytes \<Rightarrow> bytes crypto_result" where
  "dec_field E k c = aead_open E c k"

definition enc_str :: "ext \<Rightarrow> bytes \<Rightarrow> bytes \<Rightarrow> string \<Rightarrow> bytes crypto_result" where
  "enc_str E nonce k s = enc_field E nonce k (as_bytes s)"

definition dec_str :: "ext \<Rightarrow> bytes \<Rightarrow> bytes \<Rightarrow> string crypto_result" where
  "dec_str E k c = and_then (dec_field E k c) (\<lambda>b. ok_or Decryption (from_utf8 b))"

lemma dec_enc_str:
  assumes "gcm_law E" and "length nonce = 12" and "enc_str E nonce k s = Inr c" and "utf8_str s"
  shows "dec_str E k c = Inr s"
  using box.sealed_text [OF assms(1,2) _ assms(4)] assms(3)
  by (simp add: enc_str_def enc_field_def dec_str_def dec_field_def)

lemma dec_enc_field:
  assumes "gcm_law E" and "length nonce = 12" and "enc_field E nonce k b = Inr c"
  shows "dec_field E k c = Inr b"
  using box.unseal_seal [OF assms(1,2)] assms(3)
  by (simp add: enc_field_def dec_field_def)

section \<open>Framing of lookup ids\<close>

text \<open>The scope has no zero byte and every field a length below \<open>2^32\<close>.\<close>

definition wf_hmac :: "bytes \<times> bytes \<times> bytes list \<Rightarrow> bool" where
  "wf_hmac m = (case m of (scope, index_key, parts) \<Rightarrow>
     0 \<notin> set scope \<and> length index_key < 2 ^ 32 \<and> (\<forall>p \<in> set parts. length p < 2 ^ 32))"

lemma lp_list_inject:
  assumes "\<forall>p \<in> set ps. length p < 2 ^ 32" and "\<forall>p \<in> set qs. length p < 2 ^ 32"
    and "concat (map lp ps) = concat (map lp qs)"
  shows "ps = qs"
  using assms
proof (induction ps arbitrary: qs)
  case Nil
  then show ?case by (cases qs) (auto simp: lp_def dest: arg_cong [where f = length])
next
  case (Cons p ps)
  obtain q qs' where qs: "qs = q # qs'"
    using Cons.prems(3) by (cases qs) (auto simp: lp_def dest: arg_cong [where f = length])
  then have "p = q \<and> concat (map lp ps) = concat (map lp qs')"
    using Cons.prems by (intro lp_append_inject) auto
  with Cons qs show ?case by auto
qed

lemma tag_inject:
  assumes "0 \<notin> set s" and "0 \<notin> set t" and "s @ [0] @ x = t @ [0 :: u8] @ y"
  shows "s = t \<and> x = y"
  using assms
proof (induction s arbitrary: t)
  case Nil
  then show ?case by (cases t) auto
next
  case (Cons a s)
  then show ?case by (cases t) auto
qed

interpretation name_frame: framing wf_hmac hmac_frame
proof
  fix m m' :: "bytes \<times> bytes \<times> bytes list"
  obtain s k ps s' k' ps' where m: "m = (s, k, ps)" "m' = (s', k', ps')"
    by (cases m, cases m') auto
  assume "wf_hmac m" "wf_hmac m'" "hmac_frame m = hmac_frame m'"
  then have wf: "0 \<notin> set s" "0 \<notin> set s'" "length k < 2 ^ 32" "length k' < 2 ^ 32"
      "\<forall>p \<in> set ps. length p < 2 ^ 32" "\<forall>p \<in> set ps'. length p < 2 ^ 32"
    and eq: "s @ [0] @ lp k @ concat (map lp ps) = s' @ [0] @ lp k' @ concat (map lp ps')"
    by (simp_all add: m wf_hmac_def hmac_frame_def)
  have "s = s' \<and> lp k @ concat (map lp ps) = lp k' @ concat (map lp ps')"
    using wf(1,2) eq by (rule tag_inject)
  moreover from this have "k = k' \<and> concat (map lp ps) = concat (map lp ps')"
    using wf(3,4) lp_append_inject by blast
  moreover from this have "ps = ps'" using wf(5,6) lp_list_inject by blast
  ultimately show "m = m'" by (simp add: m)
qed

section \<open>Properties\<close>

text \<open>
  Under one index key, two resources have the same lookup id only when they have the
  same domain and the same name, and a client's id is never a domain's or a resource's:
  the scope tag and the length prefixes leave no ambiguity, as long as the hash has no
  collision among the messages involved.
\<close>

theorem lookup_ids_separate:
  assumes "hex_law E" and "collision_free E S"
    and "hmac_frame (s, k, ps) \<in> S" and "hmac_frame (s', k, ps') \<in> S"
    and "wf_hmac (s, k, ps)" and "wf_hmac (s', k, ps')"
  shows "hmac_id E k s ps = hmac_id E k s' ps' \<longleftrightarrow> s = s' \<and> ps = ps'"
  using name_frame.hex_digest_binds [OF assms] by (auto simp: hmac_id_def)

theorem lookup_ids_separate_witness:
  "name_id_hex demo_ext [1] ''d1'' ''db'' \<noteq> name_id_hex demo_ext [1] ''d2'' ''db''"
proof -
  let ?s = "as_bytes ''blackbook-name-id/v1''"
  let ?m = "hmac_frame (?s, [1], [as_bytes ''d1'', as_bytes ''db''])"
  let ?n = "hmac_frame (?s, [1], [as_bytes ''d2'', as_bytes ''db''])"
  have "sha3_256 demo_ext ?m \<noteq> sha3_256 demo_ext ?n" by code_simp
  then have "collision_free demo_ext {?m, ?n}" by (auto simp: collision_free_def)
  moreover have "0 \<notin> set ?s" by code_simp
  ultimately show ?thesis
    unfolding name_id_hex_def
    by (subst lookup_ids_separate [of demo_ext "{?m, ?n}"]) (auto simp: wf_hmac_def)
qed

end
