(* ===== verification/Audit_Chain.thy ===== *)
theory Audit_Chain
  imports Server_Base
begin

text \<open>
  The tamper-evident audit log: the writer \<open>audit\<close> and the row hash of \<open>auth.rs\<close>, the
  chain check of \<open>verify_audit\<close> in \<open>server.rs\<close>. The table is the list of its rows in the
  order of their serial ids; the advisory lock that serialises writers is the atomicity of
  \<open>audit\<close>. The row hash instantiates \<open>framing\<close>; the lemmas show that honest writes keep the
  chain verifiable and that the head of a verified chain determines every event in it.
\<close>

section \<open>Events and their hash\<close>

datatype audit_status = AuditOk | AuditDenied | AuditNotFound | AuditError

fun status_str :: "audit_status \<Rightarrow> string" where
  "status_str AuditOk = ''ok''"
| "status_str AuditDenied = ''denied''"
| "status_str AuditNotFound = ''not_found''"
| "status_str AuditError = ''error''"

text \<open>The hashed fields of a row, after decryption.\<close>

record audit_event =
  ev_ts :: int
  ev_client :: "string option"
  ev_action :: string
  ev_resource :: "string option"
  ev_status :: string
  ev_message :: "string option"

definition write_audit_req :: "string \<Rightarrow> bytes" where
  "write_audit_req s = lp (as_bytes s)"

definition write_audit_opt :: "string option \<Rightarrow> bytes" where
  "write_audit_opt s = (case s of None \<Rightarrow> u32_max_be | Some s \<Rightarrow> write_audit_req s)"

definition audit_frame :: "bytes \<times> bytes \<times> audit_event \<Rightarrow> bytes" where
  "audit_frame m = (case m of (hmac_key, prev_hash, ev) \<Rightarrow>
     as_bytes ''blackbook-audit-row/v1'' @ [0]
     @ lp hmac_key @ prev_hash @ i64_be (ev_ts ev)
     @ write_audit_opt (ev_client ev) @ write_audit_req (ev_action ev)
     @ write_audit_opt (ev_resource ev) @ write_audit_req (ev_status ev)
     @ write_audit_opt (ev_message ev))"

definition compute_audit_hash :: "ext \<Rightarrow> bytes \<Rightarrow> bytes \<Rightarrow> audit_event \<Rightarrow> bytes" where
  "compute_audit_hash E hmac_key prev_hash ev =
     sha3_256 E (audit_frame (hmac_key, prev_hash, ev))"

section \<open>The table and the writer\<close>

record audit_row =
  au_id :: int
  au_ts :: int
  au_client :: "string option"
  au_action :: string
  au_status :: string
  au_resource_enc :: "bytes option"
  au_message_enc :: "bytes option"
  au_prev :: "string option"
  au_hash :: "string option"

text \<open>
  \<open>anchors\<close> are the rows of \<open>blackbook_audit_anchors\<close>: the last pruned id, its row hash and
  the archive file.
\<close>

record audit_state =
  audit_log :: "audit_row list"
  audit_next :: int
  anchors :: "(int \<times> string \<times> string) list"

text \<open>\<open>hex::decode_to_slice\<close> into a 32-byte buffer.\<close>

definition hex32 :: "ext \<Rightarrow> string \<Rightarrow> bytes option" where
  "hex32 E s = (case hex_decode E s of
      Some b \<Rightarrow> if length b = 32 then Some b else None
    | None \<Rightarrow> None)"

definition row_head :: "ext \<Rightarrow> audit_row \<Rightarrow> bytes" where
  "row_head E r = (case au_hash r of
      Some h \<Rightarrow> (case hex32 E h of Some b \<Rightarrow> b | None \<Rightarrow> zeros 32)
    | None \<Rightarrow> zeros 32)"

text \<open>The chain value the next row continues from.\<close>

definition chain_head :: "ext \<Rightarrow> bytes \<Rightarrow> audit_row list \<Rightarrow> bytes" where
  "chain_head E start rows = (if rows = [] then start else row_head E (last rows))"

definition seal_opt ::
    "ext \<Rightarrow> bytes \<Rightarrow> bytes \<Rightarrow> string option \<Rightarrow> bytes option crypto_result" where
  "seal_opt E nonce k s = (case s of
      None \<Rightarrow> Inr None
    | Some s \<Rightarrow> and_then (aead_seal E nonce (as_bytes s) k) (\<lambda>b. Inr (Some b)))"

text \<open>
  \<open>audit\<close>: a row is skipped when a column fails to encrypt. The \<open>k\<close>-th audit call of a
  request draws the nonces \<open>1000 + 2 k\<close> and \<open>1001 + 2 k\<close>.
\<close>

definition audit ::
    "ext \<Rightarrow> app \<Rightarrow> request \<Rightarrow> nat \<Rightarrow> string option \<Rightarrow> string \<Rightarrow> string option \<Rightarrow> audit_status
      \<Rightarrow> string option \<Rightarrow> 'a audit_state_scheme \<Rightarrow> 'a audit_state_scheme" where
  "audit E app rq k client_id action resource status message st =
     (case seal_opt E (rand rq (1000 + 2 * k) 12) (metadata_enc_key app) resource of
        Inl e \<Rightarrow> st
      | Inr enc_resource \<Rightarrow>
        (case seal_opt E (rand rq (1001 + 2 * k) 12) (metadata_enc_key app) message of
           Inl e \<Rightarrow> st
         | Inr enc_message \<Rightarrow>
           (let prev = chain_head E (zeros 32) (audit_log st);
                ev = \<lparr>ev_ts = now rq, ev_client = client_id, ev_action = action,
                      ev_resource = resource, ev_status = status_str status,
                      ev_message = message\<rparr>;
                row_hash = compute_audit_hash E (audit_hmac_key app) prev ev;
                row = \<lparr>au_id = audit_next st, au_ts = now rq, au_client = client_id,
                       au_action = action, au_status = status_str status,
                       au_resource_enc = enc_resource, au_message_enc = enc_message,
                       au_prev = Some (hex_encode E prev),
                       au_hash = Some (hex_encode E row_hash)\<rparr>
            in st\<lparr>audit_log := audit_log st @ [row], audit_next := audit_next st + 1\<rparr>)))"

section \<open>Verification\<close>

text \<open>\<open>latest_audit_anchor\<close>: the anchor with the highest id, if its hash decodes.\<close>

fun max_anchor :: "(int \<times> string \<times> string) list \<Rightarrow> (int \<times> string \<times> string) option" where
  "max_anchor [] = None"
| "max_anchor (a # as) = (case max_anchor as of
      None \<Rightarrow> Some a
    | Some b \<Rightarrow> if fst b \<le> fst a then Some a else Some b)"

definition latest_audit_anchor :: "ext \<Rightarrow> 'a audit_state_scheme \<Rightarrow> (int \<times> bytes) option" where
  "latest_audit_anchor E st = (case max_anchor (anchors st) of
      None \<Rightarrow> None
    | Some (i, h, f) \<Rightarrow> map_option (\<lambda>b. (i, b)) (hex32 E h))"

definition chain_start :: "ext \<Rightarrow> 'a audit_state_scheme \<Rightarrow> bytes" where
  "chain_start E st = (case latest_audit_anchor E st of Some (i, h) \<Rightarrow> h | None \<Rightarrow> zeros 32)"

datatype bad_link = ResourceEnc | MessageEnc | NoRowHash | PrevMismatch | HashMismatch | NotHex

datatype audit_verdict = Verified nat | Broken nat int bad_link

definition dec_opt :: "ext \<Rightarrow> bytes \<Rightarrow> bytes option \<Rightarrow> string option crypto_result" where
  "dec_opt E k b = (case b of
      None \<Rightarrow> Inr None
    | Some b \<Rightarrow> and_then (dec_str E k b) (\<lambda>s. Inr (Some s)))"

definition event_of :: "audit_row \<Rightarrow> string option \<Rightarrow> string option \<Rightarrow> audit_event" where
  "event_of r resource message =
     \<lparr>ev_ts = au_ts r, ev_client = au_client r, ev_action = au_action r, ev_resource = resource,
      ev_status = au_status r, ev_message = message\<rparr>"

text \<open>One row of the loop of \<open>verify_audit\<close>: the next chain value, or the fault.\<close>

definition check_row :: "ext \<Rightarrow> app \<Rightarrow> bytes \<Rightarrow> audit_row \<Rightarrow> bad_link + bytes" where
  "check_row E app prev r =
     (case dec_opt E (metadata_enc_key app) (au_resource_enc r) of
        Inl e \<Rightarrow> Inl ResourceEnc
      | Inr resource \<Rightarrow>
        (case dec_opt E (metadata_enc_key app) (au_message_enc r) of
           Inl e \<Rightarrow> Inl MessageEnc
         | Inr message \<Rightarrow>
           (case au_hash r of
              None \<Rightarrow> Inl NoRowHash
            | Some stored_row \<Rightarrow>
              (if au_prev r \<noteq> Some (hex_encode E prev) then Inl PrevMismatch
               else if hex_encode E (compute_audit_hash E (audit_hmac_key app) prev
                         (event_of r resource message)) \<noteq> stored_row then Inl HashMismatch
               else ok_or NotHex (hex32 E stored_row)))))"

fun verify_rows :: "ext \<Rightarrow> app \<Rightarrow> bytes \<Rightarrow> nat \<Rightarrow> audit_row list \<Rightarrow> audit_verdict" where
  "verify_rows E app prev verified [] = Verified verified"
| "verify_rows E app prev verified (r # rows) =
     (case check_row E app prev r of
        Inl why \<Rightarrow> Broken verified (au_id r) why
      | Inr next_prev \<Rightarrow> verify_rows E app next_prev (verified + 1) rows)"

definition verify_log :: "ext \<Rightarrow> app \<Rightarrow> 'a audit_state_scheme \<Rightarrow> audit_verdict" where
  "verify_log E app st = verify_rows E app (chain_start E st) 0 (audit_log st)"

definition verify_audit ::
    "ext \<Rightarrow> app \<Rightarrow> request \<Rightarrow> authenticated_client \<Rightarrow> 'a audit_state_scheme
      \<Rightarrow> audit_verdict response \<times> 'a audit_state_scheme" where
  "verify_audit E app rq caller st =
     (case require_admin caller of
        Some resp \<Rightarrow> (resp, st)
      | None \<Rightarrow>
        (case verify_log E app st of
           Broken n i why \<Rightarrow> (Reply 200 (Broken n i why), st)
         | Verified n \<Rightarrow>
             (Reply 200 (Verified n),
              audit E app rq 0 (Some (ac_id caller)) ''audit.verify'' None AuditOk
                (Some (''verified '' @ show_nat n @ '' rows'')) st)))"

section \<open>Listing\<close>

text \<open>
  \<open>list_audit\<close> of \<open>server.rs\<close>: the newest \<open>limit\<close> rows, columns that do not decrypt shown
  empty. \<open>client_name\<close> is the outer join with the clients table.
\<close>

definition dec_or_none :: "ext \<Rightarrow> bytes \<Rightarrow> bytes option \<Rightarrow> string option" where
  "dec_or_none E k b = (case b of
      None \<Rightarrow> None
    | Some b \<Rightarrow> (case dec_str E k b of Inl e \<Rightarrow> None | Inr s \<Rightarrow> Some s))"

record audit_entry =
  ae_id :: int
  ae_client_name :: "string option"
  ae_event :: audit_event

definition list_audit ::
    "ext \<Rightarrow> app \<Rightarrow> (string \<Rightarrow> bytes option) \<Rightarrow> int \<Rightarrow> authenticated_client
      \<Rightarrow> 'a audit_state_scheme \<Rightarrow> audit_entry list response" where
  "list_audit E app client_name_enc limit caller st =
     (case require_admin caller of
        Some resp \<Rightarrow> resp
      | None \<Rightarrow>
        (let k = metadata_enc_key app;
             n = nat (max 1 (min 1000 limit));
             newest = take n (rev (sort_key au_ts (audit_log st)))
         in Reply 200 (map (\<lambda>r.
              \<lparr>ae_id = au_id r,
               ae_client_name = (case au_client r of
                  None \<Rightarrow> None
                | Some c \<Rightarrow> dec_or_none E k (client_name_enc c)),
               ae_event = event_of r (dec_or_none E k (au_resource_enc r))
                 (dec_or_none E k (au_message_enc r))\<rparr>) newest)))"

section \<open>The row hash binds every field\<close>

definition wf_opt :: "string option \<Rightarrow> bool" where
  "wf_opt s \<longleftrightarrow> (case s of None \<Rightarrow> True | Some s \<Rightarrow> short (as_bytes s))"

definition wf_event :: "audit_event \<Rightarrow> bool" where
  "wf_event ev \<longleftrightarrow> in_i64 (ev_ts ev) \<and> wf_opt (ev_client ev) \<and> short (as_bytes (ev_action ev))
     \<and> wf_opt (ev_resource ev) \<and> short (as_bytes (ev_status ev)) \<and> wf_opt (ev_message ev)"

definition wf_audit :: "bytes \<times> bytes \<times> audit_event \<Rightarrow> bool" where
  "wf_audit m = (case m of (k, prev, ev) \<Rightarrow> length k < 2 ^ 32 \<and> length prev = 32 \<and> wf_event ev)"

lemma short_less: "short b \<Longrightarrow> length b < 2 ^ 32"
  by (simp add: short_def)

lemma audit_req_inject:
  assumes "short (as_bytes a)" and "short (as_bytes b)"
    and "write_audit_req a @ x = write_audit_req b @ y"
  shows "a = b \<and> x = y"
  using lp_append_inject [OF short_less [OF assms(1)] short_less [OF assms(2)]] assms(3)
  by (simp add: write_audit_req_def)

lemma audit_opt_inject:
  assumes "wf_opt a" and "wf_opt b" and "write_audit_opt a @ x = write_audit_opt b @ y"
  shows "a = b \<and> x = y"
proof (cases a)
  case None
  show ?thesis
  proof (cases b)
    case (Some s)
    then have "u32_max_be = len_u32 (as_bytes s)"
      using assms(3) None by (simp add: write_audit_opt_def write_audit_req_def lp_def)
    with assms(2) Some show ?thesis by (metis len_u32_not_max option.simps(5) wf_opt_def)
  qed (use None assms(3) in \<open>simp add: write_audit_opt_def\<close>)
next
  case (Some s)
  show ?thesis
  proof (cases b)
    case None
    then have "len_u32 (as_bytes s) = u32_max_be"
      using assms(3) Some by (simp add: write_audit_opt_def write_audit_req_def lp_def)
    with assms(1) Some show ?thesis by (metis len_u32_not_max option.simps(5) wf_opt_def)
  next
    case (Some s')
    with \<open>a = Some s\<close> assms audit_req_inject [of s s' x y] show ?thesis
      by (simp add: write_audit_opt_def wf_opt_def)
  qed
qed

interpretation audit_framing: framing wf_audit audit_frame
proof
  fix m m' :: "bytes \<times> bytes \<times> audit_event"
  obtain k p ev k' p' ev' where m: "m = (k, p, ev)" "m' = (k', p', ev')"
    by (cases m, cases m') auto
  assume wf: "wf_audit m" "wf_audit m'" and eq: "audit_frame m = audit_frame m'"
  let ?rest = "\<lambda>e. write_audit_opt (ev_client e) @ write_audit_req (ev_action e)
    @ write_audit_opt (ev_resource e) @ write_audit_req (ev_status e)
    @ write_audit_opt (ev_message e)"
  have "lp k @ p @ i64_be (ev_ts ev) @ ?rest ev = lp k' @ p' @ i64_be (ev_ts ev') @ ?rest ev'"
    using eq by (simp add: m audit_frame_def)
  then have k: "k = k'" and "p @ i64_be (ev_ts ev) @ ?rest ev = p' @ i64_be (ev_ts ev') @ ?rest ev'"
    using wf lp_append_inject [of k k'] by (auto simp: m wf_audit_def)
  then have p: "p = p'" and ts: "i64_be (ev_ts ev) = i64_be (ev_ts ev')"
    and rest: "?rest ev = ?rest ev'"
    using wf by (auto simp: m wf_audit_def)
  have ws: "wf_event ev" "wf_event ev'" using wf by (auto simp: m wf_audit_def)
  then have t: "ev_ts ev = ev_ts ev'" using ts i64_be_inject by (auto simp: wf_event_def)
  then have w: "wf_opt (ev_client ev)" "wf_opt (ev_client ev')"
      "short (as_bytes (ev_action ev))" "short (as_bytes (ev_action ev'))"
      "wf_opt (ev_resource ev)" "wf_opt (ev_resource ev')"
      "short (as_bytes (ev_status ev))" "short (as_bytes (ev_status ev'))"
      "wf_opt (ev_message ev)" "wf_opt (ev_message ev')"
    using ws by (simp_all add: wf_event_def)
  note c = audit_opt_inject [OF w(1,2) rest]
  note a = audit_req_inject [OF w(3,4) c [THEN conjunct2]]
  note r = audit_opt_inject [OF w(5,6) a [THEN conjunct2]]
  note s = audit_req_inject [OF w(7,8) r [THEN conjunct2]]
  have "write_audit_opt (ev_message ev) @ [] = write_audit_opt (ev_message ev') @ []"
    using s by simp
  note audit_opt_inject [OF w(9,10) this]
  with k p t c a r s show "m = m'" by (simp add: m)
qed

section \<open>Chains of events\<close>

definition ev_head :: "ext \<Rightarrow> bytes \<Rightarrow> bytes \<Rightarrow> audit_event list \<Rightarrow> bytes" where
  "ev_head E k p evs = foldl (compute_audit_hash E k) p evs"

text \<open>The messages hashed along a chain.\<close>

fun ev_frames :: "ext \<Rightarrow> bytes \<Rightarrow> bytes \<Rightarrow> audit_event list \<Rightarrow> bytes list" where
  "ev_frames E k p [] = []"
| "ev_frames E k p (ev # evs) =
     audit_frame (k, p, ev) # ev_frames E k (compute_audit_hash E k p ev) evs"

lemma ev_head_simps [simp]:
  "ev_head E k p [] = p"
  "ev_head E k p (evs @ [ev]) = compute_audit_hash E k (ev_head E k p evs) ev"
  "ev_head E k p (ev # evs) = ev_head E k (compute_audit_hash E k p ev) evs"
  by (simp_all add: ev_head_def)

lemma ev_frames_append:
  "ev_frames E k p (xs @ ys) = ev_frames E k p xs @ ev_frames E k (ev_head E k p xs) ys"
  by (induction xs arbitrary: p) auto

lemma length_ev_head: "sha3_law E \<Longrightarrow> length p = 32 \<Longrightarrow> length (ev_head E k p evs) = 32"
  by (induction evs rule: rev_induct) (simp_all add: compute_audit_hash_def)

text \<open>The head of a chain determines the chain.\<close>

lemma ev_head_inject:
  assumes "sha3_law E" and "collision_free E S" and "length k < 2 ^ 32" and "length p = 32"
    and "p \<notin> sha3_256 E ` S"
    and "set (ev_frames E k p xs) \<subseteq> S" and "set (ev_frames E k p ys) \<subseteq> S"
    and "list_all wf_event xs" and "list_all wf_event ys"
    and "ev_head E k p xs = ev_head E k p ys"
  shows "xs = ys"
  using assms(6-10)
proof (induction xs arbitrary: ys rule: rev_induct)
  case Nil
  show ?case
  proof (cases ys rule: rev_cases)
    case (snoc zs z)
    then have "audit_frame (k, ev_head E k p zs, z) \<in> S"
      using Nil.prems(2) by (simp add: ev_frames_append)
    moreover have "p = sha3_256 E (audit_frame (k, ev_head E k p zs, z))"
      using Nil.prems(5) snoc by (simp add: compute_audit_hash_def)
    ultimately show ?thesis using assms(5) by blast
  qed simp
next
  case (snoc x xs)
  show ?case
  proof (cases ys rule: rev_cases)
    case Nil
    have "audit_frame (k, ev_head E k p xs, x) \<in> S"
      using snoc.prems(1) by (simp add: ev_frames_append)
    moreover have "p = sha3_256 E (audit_frame (k, ev_head E k p xs, x))"
      using snoc.prems(5) Nil by (simp add: compute_audit_hash_def)
    ultimately show ?thesis using assms(5) by blast
  next
    case ys: (snoc zs z)
    have "(k, ev_head E k p xs, x) = (k, ev_head E k p zs, z)"
    proof (rule audit_framing.digest_binds [OF assms(2)])
      show "audit_frame (k, ev_head E k p xs, x) \<in> S" "audit_frame (k, ev_head E k p zs, z) \<in> S"
        using snoc.prems(1,2) ys by (simp_all add: ev_frames_append)
      show "wf_audit (k, ev_head E k p xs, x)" "wf_audit (k, ev_head E k p zs, z)"
        using snoc.prems(3,4) ys assms(1,3,4) by (simp_all add: wf_audit_def length_ev_head)
      show "sha3_256 E (audit_frame (k, ev_head E k p xs, x))
          = sha3_256 E (audit_frame (k, ev_head E k p zs, z))"
        using snoc.prems(5) ys by (simp add: compute_audit_hash_def)
    qed
    moreover have "xs = zs"
      using calculation snoc.prems ys by (intro snoc.IH) (simp_all add: ev_frames_append)
    ultimately show ?thesis using ys by simp
  qed
qed

section \<open>Verified tables\<close>

text \<open>The decrypted event of a row.\<close>

definition row_event :: "ext \<Rightarrow> app \<Rightarrow> audit_row \<Rightarrow> audit_event option" where
  "row_event E app r =
     (case dec_opt E (metadata_enc_key app) (au_resource_enc r) of
        Inl e \<Rightarrow> None
      | Inr resource \<Rightarrow>
        (case dec_opt E (metadata_enc_key app) (au_message_enc r) of
           Inl e \<Rightarrow> None
         | Inr message \<Rightarrow> Some (event_of r resource message)))"

definition events :: "ext \<Rightarrow> app \<Rightarrow> audit_row list \<Rightarrow> audit_event list" where
  "events E app rows = map (\<lambda>r. the (row_event E app r)) rows"

lemma check_row_InrD:
  assumes "check_row E app prev r = Inr h"
  shows "row_head E r = h" and "\<exists>ev. row_event E app r = Some ev
    \<and> au_hash r = Some (hex_encode E (compute_audit_hash E (audit_hmac_key app) prev ev))"
  using assms by (auto simp: check_row_def row_head_def row_event_def
      split: sum.splits option.splits if_splits)

lemma hex32_hex: "hex_law E \<Longrightarrow> length b = 32 \<Longrightarrow> hex32 E (hex_encode E b) = Some b"
  by (simp add: hex32_def hex_lawD)

lemma check_row_hash:
  assumes "hex_law E" and "sha3_law E" and "check_row E app prev r = Inr h"
  shows "\<exists>ev. row_event E app r = Some ev \<and> h = compute_audit_hash E (audit_hmac_key app) prev ev"
  using check_row_InrD [OF assms(3)] hex32_hex [OF assms(1)] assms(2)
  by (fastforce simp: row_head_def compute_audit_hash_def)

lemma verify_rows_count:
  "verify_rows E app p n rows = Verified m \<Longrightarrow> m = n + length rows"
  by (induction rows arbitrary: p n) (fastforce split: sum.splits)+

lemma verify_rows_append:
  "verify_rows E app p n (xs @ ys) = (case verify_rows E app p n xs of
      Broken i j why \<Rightarrow> Broken i j why
    | Verified m \<Rightarrow> verify_rows E app (chain_head E p xs) m ys)"
proof (induction xs arbitrary: p n)
  case (Cons r xs)
  show ?case
  proof (cases "check_row E app p r")
    case (Inr h)
    then have "row_head E r = h" by (rule check_row_InrD)
    with Inr Cons show ?thesis by (auto simp: chain_head_def split: audit_verdict.splits)
  qed simp
qed (simp add: chain_head_def)

lemma verify_rows_head:
  assumes "hex_law E" and "sha3_law E"
  shows "verify_rows E app p n rows = Verified m \<Longrightarrow>
    chain_head E p rows = ev_head E (audit_hmac_key app) p (events E app rows)"
proof (induction rows arbitrary: p n)
  case (Cons r rows)
  then obtain h where h: "check_row E app p r = Inr h"
      and rest: "verify_rows E app h (n + 1) rows = Verified m"
    by (auto split: sum.splits)
  obtain ev where "row_event E app r = Some ev"
      "h = compute_audit_hash E (audit_hmac_key app) p ev"
    using check_row_hash [OF assms h] by blast
  moreover have "chain_head E p (r # rows) = chain_head E h rows"
    using check_row_InrD(1) [OF h] by (simp add: chain_head_def)
  ultimately show ?case using Cons.IH [OF rest] by (simp add: events_def)
qed (simp add: chain_head_def events_def)

section \<open>The writer keeps the chain\<close>

definition utf8_opt :: "string option \<Rightarrow> bool" where
  "utf8_opt s \<longleftrightarrow> (case s of None \<Rightarrow> True | Some s \<Rightarrow> utf8_str s)"

lemma seal_opt_dec:
  assumes "gcm_law E" and "length nonce = 12" and "seal_opt E nonce k s = Inr b" and "utf8_opt s"
  shows "dec_opt E k b = Inr s"
  using assms dec_enc_str [OF assms(1,2), of k]
  by (cases s)
    (auto simp: seal_opt_def dec_opt_def utf8_opt_def enc_str_def enc_field_def
      elim!: and_then_InrE)

definition log_ok :: "ext \<Rightarrow> app \<Rightarrow> 'a audit_state_scheme \<Rightarrow> bool" where
  "log_ok E app st \<longleftrightarrow> verify_log E app st = Verified (length (audit_log st))
     \<and> (audit_log st = [] \<longrightarrow> chain_start E st = zeros 32)"

lemma audit_cases:
  assumes "gcm_law E" and "hex_law E" and "sha3_law E" and "utf8_opt resource" and "utf8_opt message"
  obtains (skipped) "audit E app rq k c a resource s message st = st"
  | (written) row h where "audit E app rq k c a resource s message st
        = st\<lparr>audit_log := audit_log st @ [row], audit_next := audit_next st + 1\<rparr>"
      "check_row E app (chain_head E (zeros 32) (audit_log st)) row = Inr h"
      "au_id row = audit_next st"
proof -
  let ?k = "metadata_enc_key app"
  let ?p = "chain_head E (zeros 32) (audit_log st)"
  show ?thesis
  proof (cases "seal_opt E (rand rq (1000 + 2 * k) 12) ?k resource")
    case (Inr er)
    show ?thesis
    proof (cases "seal_opt E (rand rq (1001 + 2 * k) 12) ?k message")
      case em: (Inr em)
      have "dec_opt E ?k er = Inr resource" "dec_opt E ?k em = Inr message"
        using seal_opt_dec [OF assms(1) _ Inr assms(4)] seal_opt_dec [OF assms(1) _ em assms(5)]
        by simp_all
      moreover have "hex32 E (hex_encode E (compute_audit_hash E (audit_hmac_key app) ?p ev))
          = Some (compute_audit_hash E (audit_hmac_key app) ?p ev)" for ev
        using assms(2,3) by (simp add: hex32_hex compute_audit_hash_def)
      moreover define ev where "ev = \<lparr>ev_ts = now rq, ev_client = c, ev_action = a,
        ev_resource = resource, ev_status = status_str s, ev_message = message\<rparr>"
      moreover define row where "row = \<lparr>au_id = audit_next st, au_ts = now rq, au_client = c,
        au_action = a, au_status = status_str s, au_resource_enc = er, au_message_enc = em,
        au_prev = Some (hex_encode E ?p),
        au_hash = Some (hex_encode E (compute_audit_hash E (audit_hmac_key app) ?p ev))\<rparr>"
      ultimately have "check_row E app ?p row
          = Inr (compute_audit_hash E (audit_hmac_key app) ?p ev)" and "au_id row = audit_next st"
        by (simp_all add: check_row_def event_of_def)
      moreover have "audit E app rq k c a resource s message st
          = st\<lparr>audit_log := audit_log st @ [row], audit_next := audit_next st + 1\<rparr>"
        using Inr em by (simp add: audit_def Let_def ev_def row_def)
      ultimately show ?thesis by (intro written)
    qed (use skipped Inr in \<open>simp add: audit_def\<close>)
  qed (use skipped in \<open>simp add: audit_def\<close>)
qed

lemma chain_start_log [simp]:
  "chain_start E (st\<lparr>audit_log := l, audit_next := n\<rparr>) = chain_start E st"
  by (simp add: chain_start_def latest_audit_anchor_def)

lemma audit_log_ok:
  assumes "gcm_law E" and "hex_law E" and "sha3_law E" and "utf8_opt resource" and "utf8_opt message"
    and "log_ok E app st"
  shows "log_ok E app (audit E app rq k c a resource s message st)"
  using assms(1-5)
proof (cases rule: audit_cases [where app = app and rq = rq and k = k and c = c and a = a
      and s = s and st = st])
  case (written row h)
  have ver: "verify_rows E app (chain_start E st) 0 (audit_log st) = Verified (length (audit_log st))"
    and head: "chain_head E (chain_start E st) (audit_log st) = chain_head E (zeros 32) (audit_log st)"
    using assms(6) by (auto simp: log_ok_def verify_log_def chain_head_def)
  have "verify_rows E app (chain_start E st) 0 (audit_log st @ [row])
      = Verified (Suc (length (audit_log st)))"
    using ver head written(2) by (simp add: verify_rows_append)
  with written(1) show ?thesis by (simp add: log_ok_def verify_log_def)
qed (use assms(6) in simp)

section \<open>Properties\<close>

text \<open>
  C6. The head of a verified chain commits to the whole log: two tables that verify from
  the same starting value and end in the same row hash contain the same events in the same
  order (time, client, action, resource, status and message of every row), provided the
  hash has no collision among the messages hashed and does not hit the starting value.
  An alteration, insertion, deletion or reordering of rows therefore changes the head or
  breaks the chain.
\<close>

theorem audit_head_commits:
  assumes "hex_law E" and "sha3_law E"
    and "verify_rows E app p 0 xs = Verified n" and "verify_rows E app p 0 ys = Verified m"
    and "chain_head E p xs = chain_head E p ys"
    and "length p = 32" and "length (audit_hmac_key app) < 2 ^ 32"
    and "S = set (ev_frames E (audit_hmac_key app) p (events E app xs))
           \<union> set (ev_frames E (audit_hmac_key app) p (events E app ys))"
    and "collision_free E S" and "p \<notin> sha3_256 E ` S"
    and "list_all wf_event (events E app xs)" and "list_all wf_event (events E app ys)"
  shows "events E app xs = events E app ys"
proof (rule ev_head_inject [OF assms(2,9,7,6,10)])
  show "ev_head E (audit_hmac_key app) p (events E app xs)
      = ev_head E (audit_hmac_key app) p (events E app ys)"
    using verify_rows_head [OF assms(1,2,3)] verify_rows_head [OF assms(1,2,4)] assms(5) by simp
qed (use assms(8,11,12) in auto)

definition demo_app :: app where
  "demo_app = \<lparr>bb_keys = demo_keys, audit_hmac_key = [1, 2, 3], name_index_key = [4],
     metadata_enc_key = zeros 32, managed_key_kek = zeros 32\<rparr>"

definition demo_rq :: "int \<Rightarrow> request" where
  "demo_rq t = \<lparr>now = t, entropy = (\<lambda>i. [])\<rparr>"

definition demo_empty :: audit_state where
  "demo_empty = \<lparr>audit_log = [], audit_next = 1, anchors = []\<rparr>"

definition demo_log :: audit_state where
  "demo_log =
     audit demo_ext demo_app (demo_rq 2) 0 None ''secret.read'' None AuditDenied (Some ''no'')
       (audit demo_ext demo_app (demo_rq 1) 0 (Some ''c1'') ''secret.store'' None AuditOk None
         demo_empty)"

definition demo_row :: audit_row where
  "demo_row = hd (audit_log demo_log)"

lemma demo_log_ok: "log_ok demo_ext demo_app demo_log"
proof -
  have "utf8_str ''no''" by code_simp
  then show ?thesis
    unfolding demo_log_def
    by (intro audit_log_ok)
      (simp_all add: utf8_opt_def log_ok_def verify_log_def demo_empty_def chain_start_def
        latest_audit_anchor_def)
qed

lemma demo_log_rows: "\<exists>r. audit_log demo_log = [demo_row, r]"
  by (simp add: demo_row_def demo_log_def audit_def seal_opt_def aead_seal_def aead_seal_nonce_def
      demo_app_def demo_ext_def demo_empty_def zeros_def Let_def)

lemma demo_row_verifies:
  "verify_rows demo_ext demo_app (zeros 32) 0 (demo_row # rs) = verify_rows demo_ext demo_app
     (row_head demo_ext demo_row) 1 rs"
  "row_event demo_ext demo_app demo_row = Some \<lparr>ev_ts = 1, ev_client = Some ''c1'',
     ev_action = ''secret.store'', ev_resource = None, ev_status = ''ok'', ev_message = None\<rparr>"
proof -
  obtain r where "audit_log demo_log = [demo_row, r]" using demo_log_rows by blast
  moreover have "chain_start demo_ext demo_log = zeros 32"
    by (simp add: demo_log_def audit_def chain_start_def latest_audit_anchor_def demo_empty_def
        Let_def split: sum.splits)
  ultimately have "verify_rows demo_ext demo_app (zeros 32) 0 [demo_row, r] = Verified 2"
    using demo_log_ok by (simp add: log_ok_def verify_log_def)
  then show "verify_rows demo_ext demo_app (zeros 32) 0 (demo_row # rs)
      = verify_rows demo_ext demo_app (row_head demo_ext demo_row) 1 rs"
    by (auto dest: check_row_InrD(1) split: sum.splits)
  show "row_event demo_ext demo_app demo_row = Some \<lparr>ev_ts = 1, ev_client = Some ''c1'',
     ev_action = ''secret.store'', ev_resource = None, ev_status = ''ok'', ev_message = None\<rparr>"
    by (simp add: row_event_def dec_opt_def event_of_def demo_row_def demo_log_def audit_def
        seal_opt_def aead_seal_def aead_seal_nonce_def demo_app_def demo_ext_def demo_empty_def
        demo_rq_def zeros_def Let_def)
qed

theorem audit_head_commits_witness:
  "events demo_ext demo_app [demo_row] = events demo_ext demo_app [demo_row\<lparr>au_id := 9\<rparr>]"
proof -
  let ?r = "demo_row\<lparr>au_id := 9\<rparr>"
  have same: "row_event demo_ext demo_app ?r = row_event demo_ext demo_app demo_row"
      "check_row demo_ext demo_app (zeros 32) ?r = check_row demo_ext demo_app (zeros 32) demo_row"
      "row_head demo_ext ?r = row_head demo_ext demo_row"
    by (simp_all add: row_event_def event_of_def check_row_def row_head_def
        cong: sum.case_cong option.case_cong if_cong)
  have v: "verify_rows demo_ext demo_app (zeros 32) 0 [demo_row] = Verified 1"
    by (simp add: demo_row_verifies(1) del: verify_rows.simps(2))
  then have v': "verify_rows demo_ext demo_app (zeros 32) 0 [?r] = Verified 1"
    using same(2) by (auto split: sum.splits)
  let ?ev = "\<lparr>ev_ts = 1, ev_client = Some ''c1'', ev_action = ''secret.store'',
    ev_resource = None, ev_status = ''ok'', ev_message = None\<rparr> :: audit_event"
  have ev: "events demo_ext demo_app [demo_row] = [?ev]" "events demo_ext demo_app [?r] = [?ev]"
    using same(1) by (simp_all add: events_def demo_row_verifies(2))
  have k: "audit_hmac_key demo_app = [1, 2, 3]" by (simp add: demo_app_def)
  have h: "sha3_256 demo_ext (audit_frame ([1, 2, 3], zeros 32, ?ev)) \<noteq> zeros 32"
    by code_simp
  have w: "wf_event ?ev" by (simp add: wf_event_def wf_opt_def in_i64_def short_def)
  show ?thesis
    by (rule audit_head_commits [OF demo_laws(1,7) v v' _ _ _ refl])
      (use h w in \<open>simp_all add: ev k chain_head_def same(3) collision_free_def zeros_def\<close>)
qed

text \<open>
  Verification accepts every prefix of a log it accepts: dropping the newest rows is
  not noticed by the chain, although the documentation promises that truncation is.
\<close>

theorem verify_accepts_truncation:
  assumes "verify_rows E app p 0 (xs @ ys) = Verified n"
  shows "verify_rows E app p 0 xs = Verified (length xs)"
proof (cases "verify_rows E app p 0 xs")
  case (Verified m)
  then show ?thesis using verify_rows_count by fastforce
qed (use assms in \<open>simp add: verify_rows_append\<close>)

theorem verify_accepts_truncation_witness:
  "verify_rows demo_ext demo_app (zeros 32) 0 [demo_row] = Verified 1"
proof -
  obtain r where "audit_log demo_log = [demo_row, r]" using demo_log_rows by blast
  moreover have "chain_start demo_ext demo_log = zeros 32"
    by (simp add: demo_log_def audit_def chain_start_def latest_audit_anchor_def demo_empty_def
        Let_def split: sum.splits)
  ultimately have "verify_rows demo_ext demo_app (zeros 32) 0 ([demo_row] @ [r]) = Verified 2"
    using demo_log_ok by (simp add: log_ok_def verify_log_def)
  from verify_accepts_truncation [OF this] show ?thesis by simp
qed

end
