(* ===== verification/Audit_Archive.thy ===== *)
theory Audit_Archive
  imports Audit_Chain
begin

text \<open>
  Archival of the audit log: the sealed archive format and its chain check
  (\<open>audit_archive.rs\<close>), and the handlers of \<open>server.rs\<close> that export, prune, list and verify
  archives. JSON and gzip are the parameters of \<open>archive_codec\<close>; the directory
  \<open>audit-archives\<close> is the list of its files. The lemmas show that in every state reached
  by writing, verifying, archiving and pruning the live chain verifies in full.
\<close>

section \<open>Archives\<close>

record archived_row =
  ar_id :: int
  ar_ts_micros :: int
  ar_client_id :: "string option"
  ar_action :: string
  ar_status :: string
  ar_resource :: "string option"
  ar_message :: "string option"
  ar_prev_hash :: string
  ar_row_hash :: string

record audit_archive =
  aa_v :: nat
  aa_created_at :: string
  aa_count :: nat
  aa_first_id :: int
  aa_last_id :: int
  aa_genesis_prev :: string
  aa_final_row_hash :: string
  aa_rows :: "archived_row list"

text \<open>\<open>serde_json\<close> on \<open>AuditArchive\<close> and crate flate2.\<close>

record archive_codec =
  to_json :: "audit_archive \<Rightarrow> bytes option"
  from_json :: "bytes \<Rightarrow> audit_archive option"
  gzip :: "bytes \<Rightarrow> bytes option"
  gunzip :: "bytes \<Rightarrow> bytes option"

definition codec_law :: "archive_codec \<Rightarrow> bool" where
  "codec_law cd \<longleftrightarrow> (\<forall>a j. to_json cd a = Some j \<longrightarrow> from_json cd j = Some a)
     \<and> (\<forall>j z. gzip cd j = Some z \<longrightarrow> gunzip cd z = Some j)"

datatype archive_error = BadMagic | Crypto | Gzip | ArchiveJson

definition archive_magic :: bytes where
  "archive_magic = as_bytes ''BBKA1'' @ [0]"

definition build_archive ::
    "ext \<Rightarrow> archive_codec \<Rightarrow> bytes \<Rightarrow> bytes \<Rightarrow> audit_archive \<Rightarrow> archive_error + bytes" where
  "build_archive E cd nonce enc_key a =
     and_then (ok_or ArchiveJson (to_json cd a)) (\<lambda>json.
     and_then (ok_or Gzip (gzip cd json)) (\<lambda>compressed.
       case aead_seal E nonce compressed enc_key of
         Inl e \<Rightarrow> Inl Crypto
       | Inr sealed \<Rightarrow> Inr (archive_magic @ sealed)))"

definition open_archive ::
    "ext \<Rightarrow> archive_codec \<Rightarrow> bytes \<Rightarrow> bytes \<Rightarrow> archive_error + audit_archive" where
  "open_archive E cd enc_key blob =
     and_then (ok_or BadMagic (strip_prefix archive_magic blob)) (\<lambda>body.
       case aead_open E body enc_key of
         Inl e \<Rightarrow> Inl Crypto
       | Inr compressed \<Rightarrow>
           and_then (ok_or Gzip (gunzip cd compressed)) (\<lambda>json.
             ok_or ArchiveJson (from_json cd json)))"

datatype archive_fault = BadGenesis | ArchivePrev | ArchiveHash | BadFinal

record archive_verification =
  av_ok :: bool
  av_count :: nat
  av_verified :: nat
  av_first_id :: int
  av_last_id :: int
  av_first_bad_id :: "int option"
  av_reason :: "archive_fault option"

definition archived_event :: "archived_row \<Rightarrow> audit_event" where
  "archived_event r =
     \<lparr>ev_ts = ar_ts_micros r, ev_client = ar_client_id r, ev_action = ar_action r,
      ev_resource = ar_resource r, ev_status = ar_status r, ev_message = ar_message r\<rparr>"

definition archive_bail :: "audit_archive \<Rightarrow> nat \<Rightarrow> int \<Rightarrow> archive_fault \<Rightarrow> archive_verification" where
  "archive_bail a verified i why =
     \<lparr>av_ok = False, av_count = aa_count a, av_verified = verified, av_first_id = aa_first_id a,
      av_last_id = aa_last_id a, av_first_bad_id = Some i, av_reason = Some why\<rparr>"

fun verify_archived_rows ::
    "ext \<Rightarrow> bytes \<Rightarrow> bytes \<Rightarrow> nat \<Rightarrow> archived_row list \<Rightarrow> (nat \<times> int \<times> archive_fault) + bytes" where
  "verify_archived_rows E mac_key prev i [] = Inr prev"
| "verify_archived_rows E mac_key prev i (r # rows) =
     (if ar_prev_hash r \<noteq> hex_encode E prev then Inl (i, ar_id r, ArchivePrev)
      else let computed = compute_audit_hash E mac_key prev (archived_event r)
           in if hex_encode E computed \<noteq> ar_row_hash r then Inl (i, ar_id r, ArchiveHash)
              else verify_archived_rows E mac_key computed (i + 1) rows)"

definition verify_archive :: "ext \<Rightarrow> bytes \<Rightarrow> audit_archive \<Rightarrow> archive_verification" where
  "verify_archive E mac_key a =
     (case hex32 E (aa_genesis_prev a) of
        None \<Rightarrow> archive_bail a 0 (aa_first_id a) BadGenesis
      | Some prev \<Rightarrow>
        (case verify_archived_rows E mac_key prev 0 (aa_rows a) of
           Inl (i, row_id, why) \<Rightarrow> archive_bail a i row_id why
         | Inr final \<Rightarrow>
             if hex_encode E final \<noteq> aa_final_row_hash a
             then archive_bail a (length (aa_rows a)) (aa_last_id a) BadFinal
             else \<lparr>av_ok = True, av_count = aa_count a, av_verified = length (aa_rows a),
                   av_first_id = aa_first_id a, av_last_id = aa_last_id a,
                   av_first_bad_id = None, av_reason = None\<rparr>))"

section \<open>Handlers\<close>

record archive_state = audit_state +
  archive_files :: "(string \<times> bytes) list"

definition audit_archive_enc_key :: "ext \<Rightarrow> blackbook_key \<Rightarrow> bytes crypto_result" where
  "audit_archive_enc_key E ks = handle_with_info E (bb_index ks) (as_bytes ''audit-archive-enc/v1'')"

fun parse_audit_fmts :: "ext \<Rightarrow> string list \<Rightarrow> string \<Rightarrow> int option" where
  "parse_audit_fmts E [] s = None"
| "parse_audit_fmts E (fmt # fmts) s =
     (case parse_datetime E fmt s of
        Some t \<Rightarrow> Some t
      | None \<Rightarrow>
          if fmt = ''%Y-%m-%d'' then
            (case parse_date E fmt s of Some t \<Rightarrow> Some t | None \<Rightarrow> parse_audit_fmts E fmts s)
          else parse_audit_fmts E fmts s)"

definition parse_audit_ts :: "ext \<Rightarrow> string \<Rightarrow> int option" where
  "parse_audit_ts E s = (case parse_rfc3339 E s of
      Some t \<Rightarrow> Some t
    | None \<Rightarrow> parse_audit_fmts E [''%Y-%m-%d %H:%M:%S'', ''%Y-%m-%dT%H:%M:%S'', ''%Y-%m-%d''] s)"

definition safe_archive_name :: "string \<Rightarrow> bool" where
  "safe_archive_name name \<longleftrightarrow> name \<noteq> [] \<and> ends_with ''.bbka'' name
     \<and> \<not> contains_str ''/'' name \<and> \<not> contains_str [CHR 0x5C] name \<and> \<not> contains_str ''..'' name"

record archive_query =
  aq_before :: "string option"
  aq_keep_last :: "int option"
  aq_prune :: bool

text \<open>The number of oldest rows the query selects, before it is capped.\<close>

definition archive_cutoff :: "ext \<Rightarrow> archive_query \<Rightarrow> audit_row list \<Rightarrow> string + nat" where
  "archive_cutoff E q rows =
     (case aq_keep_last q of
        Some keep \<Rightarrow> Inr (length rows - nat (max keep 0))
      | None \<Rightarrow>
        (case aq_before q of
           Some before \<Rightarrow>
             (case parse_audit_ts E before of
                Some b \<Rightarrow> Inr (length (takeWhile (\<lambda>r. au_ts r < b) rows))
              | None \<Rightarrow> Inl ''unparseable before timestamp'')
         | None \<Rightarrow> Inl ''specify keep_last or before''))"

text \<open>A live row in its archived form; a column that does not decrypt aborts the request.\<close>

definition archive_row :: "ext \<Rightarrow> app \<Rightarrow> audit_row \<Rightarrow> archived_row crypto_result" where
  "archive_row E app r =
     and_then (dec_opt E (metadata_enc_key app) (au_resource_enc r)) (\<lambda>resource.
     and_then (dec_opt E (metadata_enc_key app) (au_message_enc r)) (\<lambda>message.
       Inr \<lparr>ar_id = au_id r, ar_ts_micros = au_ts r, ar_client_id = au_client r,
            ar_action = au_action r, ar_status = au_status r, ar_resource = resource,
            ar_message = message,
            ar_prev_hash = (case au_prev r of Some h \<Rightarrow> h | None \<Rightarrow> []),
            ar_row_hash = (case au_hash r of Some h \<Rightarrow> h | None \<Rightarrow> [])\<rparr>))"

fun archive_rows :: "ext \<Rightarrow> app \<Rightarrow> audit_row list \<Rightarrow> archived_row list crypto_result" where
  "archive_rows E app [] = Inr []"
| "archive_rows E app (r # rs) =
     and_then (archive_row E app r) (\<lambda>a.
     and_then (archive_rows E app rs) (\<lambda>as. Inr (a # as)))"

definition make_archive :: "ext \<Rightarrow> request \<Rightarrow> bytes \<Rightarrow> archived_row list \<Rightarrow> audit_archive" where
  "make_archive E rq genesis_prev arows =
     \<lparr>aa_v = 1, aa_created_at = to_rfc3339 E (now rq), aa_count = length arows,
      aa_first_id = ar_id (hd arows), aa_last_id = ar_id (last arows),
      aa_genesis_prev = hex_encode E genesis_prev,
      aa_final_row_hash = ar_row_hash (last arows), aa_rows = arows\<rparr>"

definition archive_name :: "ext \<Rightarrow> request \<Rightarrow> audit_archive \<Rightarrow> string" where
  "archive_name E rq a =
     ''audit-'' @ pad10 (aa_first_id a) @ ''-'' @ pad10 (aa_last_id a) @ ''-''
     @ format_stamp E (now rq) @ ''.bbka''"

definition put_file :: "string \<Rightarrow> bytes \<Rightarrow> (string \<times> bytes) list \<Rightarrow> (string \<times> bytes) list" where
  "put_file f b files = (f, b) # filter (\<lambda>(g, c). g \<noteq> f) files"

datatype archive_reply = NothingArchived | Archived nat int int string nat nat

text \<open>The part of \<open>audit_archive_create\<close> after the archive file has been built.\<close>

definition archive_commit ::
    "ext \<Rightarrow> app \<Rightarrow> request \<Rightarrow> archive_query \<Rightarrow> authenticated_client \<Rightarrow> int \<Rightarrow> audit_archive
      \<Rightarrow> bytes \<Rightarrow> 'a archive_state_scheme \<Rightarrow> archive_reply response \<times> 'a archive_state_scheme" where
  "archive_commit E app rq q caller anchor_id a blob st =
     (let fname = archive_name E rq a;
          gone = (\<lambda>r. anchor_id < au_id r \<and> au_id r \<le> aa_last_id a);
          st1 = st\<lparr>archive_files := put_file fname blob (archive_files st)\<rparr>;
          pruned = (if aq_prune q then rows_affected gone (audit_log st1) else 0);
          st2 = (if aq_prune q
                 then st1\<lparr>audit_log := delete_where gone (audit_log st1),
                          anchors := anchors st1 @ [(aa_last_id a, aa_final_row_hash a, fname)]\<rparr>
                 else st1);
          st3 = audit E app rq 0 (Some (ac_id caller)) ''audit.archive'' (Some fname) AuditOk
                  (Some (''archived '' @ show_nat (aa_count a) @ '' rows (id ''
                     @ show_int (aa_first_id a) @ ''..'' @ show_int (aa_last_id a)
                     @ ''); pruned '' @ show_nat pruned)) st2
      in (Reply 200 (Archived (aa_count a) (aa_first_id a) (aa_last_id a) fname pruned (length blob)),
          st3))"

text \<open>The body of \<open>audit_archive_create\<close> once the number of rows to archive is known.\<close>

definition archive_build ::
    "ext \<Rightarrow> archive_codec \<Rightarrow> app \<Rightarrow> request \<Rightarrow> archive_query \<Rightarrow> authenticated_client \<Rightarrow> int \<Rightarrow> bytes
      \<Rightarrow> audit_row list \<Rightarrow> 'a archive_state_scheme
      \<Rightarrow> archive_reply response \<times> 'a archive_state_scheme" where
  "archive_build E cd app rq q caller anchor_id genesis_prev sel st =
     (case archive_rows E app sel of
        Inl e \<Rightarrow> (ActixError 500, st)
      | Inr arows \<Rightarrow>
        (let a = make_archive E rq genesis_prev arows
         in if \<not> av_ok (verify_archive E (audit_hmac_key app) a)
            then (ErrorReply 409 ''the live audit chain does not verify'', st)
            else (case audit_archive_enc_key E (bb_keys app) of
                    Inl e \<Rightarrow> (ActixError 500, st)
                  | Inr enc_key \<Rightarrow>
                    (case build_archive E cd (rand rq 0 12) enc_key a of
                       Inl e \<Rightarrow> (ActixError 500, st)
                     | Inr blob \<Rightarrow> archive_commit E app rq q caller anchor_id a blob st))))"

definition audit_archive_create ::
    "ext \<Rightarrow> archive_codec \<Rightarrow> app \<Rightarrow> request \<Rightarrow> archive_query \<Rightarrow> authenticated_client
      \<Rightarrow> 'a archive_state_scheme \<Rightarrow> archive_reply response \<times> 'a archive_state_scheme" where
  "audit_archive_create E cd app rq q caller st =
     (case require_admin caller of
        Some resp \<Rightarrow> (resp, st)
      | None \<Rightarrow>
        (let (anchor_id, genesis_prev) =
               (case latest_audit_anchor E st of Some p \<Rightarrow> p | None \<Rightarrow> (0, zeros 32));
             rows = filter (\<lambda>r. anchor_id < au_id r) (audit_log st);
             total = length rows
         in if list_ex (\<lambda>r. au_hash r = None) rows then (ActixError 500, st)
            else if total \<le> 1 then (Reply 200 NothingArchived, st)
            else (case archive_cutoff E q rows of
                    Inl msg \<Rightarrow> (ErrorReply 400 msg, st)
                  | Inr n \<Rightarrow>
                    (let cutoff = min n (total - 1)
                     in if cutoff = 0 then (Reply 200 NothingArchived, st)
                        else archive_build E cd app rq q caller anchor_id genesis_prev
                               (take cutoff rows) st))))"

datatype verify_reply = Unreadable archive_error | Checked archive_verification

definition audit_archive_verify ::
    "ext \<Rightarrow> archive_codec \<Rightarrow> app \<Rightarrow> string \<Rightarrow> authenticated_client \<Rightarrow> 'a archive_state_scheme
      \<Rightarrow> verify_reply response" where
  "audit_archive_verify E cd app file caller st =
     (case require_admin caller of
        Some resp \<Rightarrow> resp
      | None \<Rightarrow>
        if \<not> safe_archive_name file then ErrorReply 400 ''invalid archive name''
        else (case map_of (archive_files st) file of
                None \<Rightarrow> ErrorReply 404 ''no such archive''
              | Some blob \<Rightarrow>
                (case audit_archive_enc_key E (bb_keys app) of
                   Inl e \<Rightarrow> ActixError 500
                 | Inr enc_key \<Rightarrow>
                   (case open_archive E cd enc_key blob of
                      Inl e \<Rightarrow> Reply 200 (Unreadable e)
                    | Inr a \<Rightarrow> Reply 200 (Checked (verify_archive E (audit_hmac_key app) a))))))"

definition audit_archive_list ::
    "authenticated_client \<Rightarrow> 'a archive_state_scheme \<Rightarrow> (string \<times> nat) list response" where
  "audit_archive_list caller st =
     (case require_admin caller of
        Some resp \<Rightarrow> resp
      | None \<Rightarrow> Reply 200 (sort_str fst
          (map (\<lambda>(f, b). (f, length b))
            (filter (\<lambda>(f, b). ends_with ''.bbka'' f) (archive_files st)))))"

section \<open>Archive files\<close>

lemma open_build:
  assumes "gcm_law E" and "codec_law cd" and "length nonce = 12"
    and "build_archive E cd nonce k a = Inr blob"
  shows "open_archive E cd k blob = Inr a"
proof -
  obtain j z c where "to_json cd a = Some j" "gzip cd j = Some z" "aead_seal E nonce z k = Inr c"
      "blob = archive_magic @ c"
    using assms(4) by (auto simp: build_archive_def elim!: and_then_InrE split: sum.splits)
  moreover from this have "aead_open E c k = Inr z"
    using box.unseal_seal [OF assms(1), of nonce z k c] assms(3) by simp
  ultimately show ?thesis
    using assms(2) by (simp add: open_archive_def strip_prefix_def codec_law_def)
qed

section \<open>The invariant of the log\<close>

text \<open>
  Ids increase and start at one; every anchor lies before the live rows and carries a hash
  that decodes; pruning leaves a row.
\<close>

definition log_inv :: "ext \<Rightarrow> 'a audit_state_scheme \<Rightarrow> bool" where
  "log_inv E st \<longleftrightarrow> sorted_wrt (<) (map au_id (audit_log st)) \<and> 0 < audit_next st
     \<and> (\<forall>r \<in> set (audit_log st). 0 < au_id r \<and> au_id r < audit_next st)
     \<and> (\<forall>(i, h, f) \<in> set (anchors st). hex32 E h \<noteq> None \<and> i < audit_next st
          \<and> (\<forall>r \<in> set (audit_log st). i < au_id r))
     \<and> (anchors st \<noteq> [] \<longrightarrow> audit_log st \<noteq> [])"

definition chain_inv :: "ext \<Rightarrow> app \<Rightarrow> 'a audit_state_scheme \<Rightarrow> bool" where
  "chain_inv E app st \<longleftrightarrow> log_ok E app st \<and> log_inv E st"

lemma log_inv_write:
  assumes "log_inv E st" and "au_id row = audit_next st"
  shows "log_inv E (st\<lparr>audit_log := audit_log st @ [row], audit_next := audit_next st + 1\<rparr>)"
  using assms by (fastforce simp: log_inv_def sorted_wrt_append)

lemma audit_chain_inv:
  assumes "gcm_law E" and "hex_law E" and "sha3_law E" and "utf8_opt resource" and "utf8_opt message"
    and "chain_inv E app st"
  shows "chain_inv E app (audit E app rq k c a resource s message st)"
proof -
  have "log_inv E (audit E app rq k c a resource s message st)"
    using assms(1-5)
  proof (cases rule: audit_cases [where app = app and rq = rq and k = k and c = c and a = a
        and s = s and st = st])
    case (written row h)
    then show ?thesis using assms(6) by (simp add: log_inv_write chain_inv_def)
  qed (use assms(6) in \<open>simp add: chain_inv_def\<close>)
  moreover have "log_ok E app (audit E app rq k c a resource s message st)"
    using assms(6) unfolding chain_inv_def by (intro audit_log_ok assms(1-5)) blast
  ultimately show ?thesis by (simp add: chain_inv_def)
qed

lemma verify_rows_shift:
  "verify_rows E app p n rows = (case verify_rows E app p 0 rows of
      Verified m \<Rightarrow> Verified (n + m)
    | Broken i j why \<Rightarrow> Broken (n + i) j why)"
proof (induction rows arbitrary: p n)
  case (Cons r rows)
  show ?case
  proof (cases "check_row E app p r")
    case (Inr h)
    show ?thesis
      using Cons.IH [of h "n + 1"] Cons.IH [of h 1] Inr by (simp split: audit_verdict.splits)
  qed simp
qed simp

lemma max_anchor_snoc:
  "\<forall>b \<in> set as. fst b < fst a \<Longrightarrow> max_anchor (as @ [a]) = Some a"
  by (induction as) auto

lemma max_anchor_in: "max_anchor as = Some a \<Longrightarrow> a \<in> set as"
  by (induction as arbitrary: a) (auto split: option.splits if_splits)

lemma latest_anchor_before:
  assumes "log_inv E st" and "latest_audit_anchor E st = Some (i, h)" and "r \<in> set (audit_log st)"
  shows "i < au_id r"
  using assms max_anchor_in
  by (fastforce simp: log_inv_def latest_audit_anchor_def split: option.splits)

lemma all_rows_live:
  assumes "log_inv E st"
    and "(anchor_id, g) = (case latest_audit_anchor E st of Some p \<Rightarrow> p | None \<Rightarrow> (0, zeros 32))"
  shows "\<forall>r \<in> set (audit_log st). anchor_id < au_id r" and "g = chain_start E st"
  using assms latest_anchor_before [OF assms(1)]
  by (auto simp: log_inv_def chain_start_def split: option.splits)

lemma verify_last_hash:
  assumes "verify_rows E app p 0 rows = Verified n" and "rows \<noteq> []"
  obtains h where "au_hash (last rows) = Some h" and "hex32 E h = Some (chain_head E p rows)"
proof -
  have rows: "rows = butlast rows @ [last rows]" using assms(2) by simp
  have "verify_rows E app p 0 (butlast rows @ [last rows]) = Verified n" using assms by simp
  then obtain q b where "check_row E app q (last rows) = Inr b"
    by (auto simp: verify_rows_append split: audit_verdict.splits sum.splits)
  then obtain h where "au_hash (last rows) = Some h" "hex32 E h = Some b"
    by (auto simp: check_row_def split: sum.splits option.splits if_splits)
  then show ?thesis using that assms(2) by (simp add: chain_head_def row_head_def)
qed

text \<open>Pruning a verified prefix and recording its last hash keeps the invariant.\<close>

lemma prune_chain_inv:
  assumes "chain_inv E app st" and "0 < c" and "c < length (audit_log st)"
    and "au_hash (last (take c (audit_log st))) = Some h"
    and "\<forall>r \<in> set (audit_log st). anchor_id < au_id r"
    and "i = au_id (last (take c (audit_log st)))"
  shows "chain_inv E app (st\<lparr>
      audit_log := delete_where (\<lambda>r. anchor_id < au_id r \<and> au_id r \<le> i) (audit_log st),
      anchors := anchors st @ [(i, h, f)]\<rparr>)"
proof -
  let ?log = "audit_log st"
  let ?st = "st\<lparr>audit_log := drop c ?log, anchors := anchors st @ [(i, h, f)]\<rparr>"
  have inv: "log_inv E st" and ver: "verify_rows E app (chain_start E st) 0 ?log = Verified (length ?log)"
    using assms(1) by (auto simp: chain_inv_def log_ok_def verify_log_def)
  have sorted: "sorted_wrt (<) (map au_id ?log)" using inv by (simp add: log_inv_def)
  have del: "delete_where (\<lambda>r. anchor_id < au_id r \<and> au_id r \<le> i) ?log = drop c ?log"
    unfolding assms(6) using sorted assms(2,3,5) by (intro delete_sorted_prefix) auto
  have ne: "take c ?log \<noteq> []" using assms(2,3) by auto
  then have mem: "last (take c ?log) \<in> set ?log" using last_in_set set_take_subset by fast
  have split: "verify_rows E app (chain_start E st) 0 (take c ?log @ drop c ?log) = Verified (length ?log)"
    using ver by simp
  then obtain m where m: "verify_rows E app (chain_start E st) 0 (take c ?log) = Verified m"
    by (subst (asm) verify_rows_append) (auto split: audit_verdict.splits)
  then have "m = c" using verify_rows_count assms(3) by fastforce
  obtain h' where "au_hash (last (take c ?log)) = Some h'"
      "hex32 E h' = Some (chain_head E (chain_start E st) (take c ?log))"
    using verify_last_hash [OF m ne] by blast
  then have head: "hex32 E h = Some (chain_head E (chain_start E st) (take c ?log))"
    using assms(4) by simp
  have "sorted_wrt (<) (map au_id (take c ?log) @ map au_id (drop c ?log))"
    using sorted by (simp flip: map_append)
  then have after: "\<forall>r \<in> set (drop c ?log). i < au_id r"
    using last_in_set [OF ne] assms(6) by (simp add: sorted_wrt_append)
  have anch: "\<forall>(j, g, e) \<in> set (anchors st). hex32 E g \<noteq> None \<and> j < audit_next st
      \<and> (\<forall>r \<in> set ?log. j < au_id r)"
    using inv by (simp add: log_inv_def)
  then have before: "\<forall>b \<in> set (anchors st). fst b < i"
    using mem assms(6) by auto
  then have start: "chain_start E ?st = chain_head E (chain_start E st) (take c ?log)"
    using head max_anchor_snoc [of "anchors st" "(i, h, f)"]
    by (simp add: chain_start_def latest_audit_anchor_def)
  have "verify_rows E app (chain_start E ?st) c (drop c ?log) = Verified (length ?log)"
    using split m \<open>m = c\<close> start by (simp only: verify_rows_append audit_verdict.case)
  then have "verify_rows E app (chain_start E ?st) 0 (drop c ?log) = Verified (length ?log - c)"
    by (subst (asm) verify_rows_shift) (auto split: audit_verdict.splits)
  then have "log_ok E app ?st"
    using assms(3) by (simp add: log_ok_def verify_log_def)
  moreover have "log_inv E ?st"
  proof -
    have "sorted_wrt (<) (map au_id (drop c ?log))"
      using sorted by (simp add: sorted_wrt_drop flip: drop_map)
    moreover have sub: "set (drop c ?log) \<subseteq> set ?log" by (rule set_drop_subset)
    moreover have "\<forall>(j, g, e) \<in> set (anchors st @ [(i, h, f)]). hex32 E g \<noteq> None
        \<and> j < audit_next st \<and> (\<forall>r \<in> set (drop c ?log). j < au_id r)"
      using anch sub head after mem inv assms(6) by (fastforce simp: log_inv_def)
    moreover have "drop c ?log \<noteq> []" using assms(3) by simp
    ultimately show ?thesis
      using inv unfolding log_inv_def by simp blast
  qed
  ultimately show ?thesis by (simp add: chain_inv_def del)
qed

section \<open>Handlers keep the invariant\<close>

lemma chain_inv_files [simp]:
  "chain_inv E app (st\<lparr>archive_files := fs\<rparr>) = chain_inv E app st"
  by (simp add: chain_inv_def log_ok_def log_inv_def verify_log_def chain_start_def
      latest_audit_anchor_def)

lemma archive_rows_map:
  "archive_rows E app sel = Inr arows \<Longrightarrow> map ar_id arows = map au_id sel
     \<and> map ar_row_hash arows = map (\<lambda>r. case au_hash r of Some h \<Rightarrow> h | None \<Rightarrow> []) sel"
  by (induction sel arbitrary: arows) (auto simp: archive_row_def elim!: and_then_InrE)

lemma archive_rows_last:
  assumes "archive_rows E app sel = Inr arows" and "sel \<noteq> []" and "au_hash (last sel) = Some h"
  shows "arows \<noteq> []" and "ar_id (last arows) = au_id (last sel)" and "ar_row_hash (last arows) = h"
proof -
  note maps = archive_rows_map [OF assms(1)]
  from maps assms(2) show "arows \<noteq> []" by auto
  with maps assms(2,3) show "ar_id (last arows) = au_id (last sel)"
    and "ar_row_hash (last arows) = h"
    by (metis last_map, metis (no_types, lifting) last_map option.simps(5))
qed

lemma ascii_archive_name: "stamp_law E \<Longrightarrow> ascii (archive_name E rq a)"
  by (simp add: archive_name_def stamp_ascii)

lemma utf8_opt_ascii: "ascii s \<Longrightarrow> utf8_opt (Some s)"
  by (simp add: utf8_opt_def ascii_utf8)

lemma archive_commit_inv:
  assumes laws: "gcm_law E" "hex_law E" "sha3_law E" "stamp_law E"
    and inv: "chain_inv E app st" and c: "0 < c" "c < length (audit_log st)"
    and anchor: "\<forall>r \<in> set (audit_log st). anchor_id < au_id r"
    and rows: "archive_rows E app (take c (audit_log st)) = Inr arows"
    and hashed: "au_hash (last (take c (audit_log st))) \<noteq> None"
  shows "chain_inv E app (snd (archive_commit E app rq q caller anchor_id (make_archive E rq g arows) blob st))"
proof -
  let ?a = "make_archive E rq g arows"
  obtain h where h: "au_hash (last (take c (audit_log st))) = Some h" using hashed by auto
  have "take c (audit_log st) \<noteq> []" using c by auto
  note last = archive_rows_last [OF rows this h]
  have "chain_inv E app (st\<lparr>archive_files := fs,
      audit_log := delete_where (\<lambda>r. anchor_id < au_id r \<and> au_id r \<le> aa_last_id ?a) (audit_log st),
      anchors := anchors st @ [(aa_last_id ?a, aa_final_row_hash ?a, f)]\<rparr>)" for fs f
    using prune_chain_inv [of E app "st\<lparr>archive_files := fs\<rparr>" c h anchor_id] inv c anchor h last
    by (simp add: make_archive_def)
  then show ?thesis
    unfolding archive_commit_def Let_def snd_conv
    using inv
    by (intro audit_chain_inv laws(1-3) utf8_opt_ascii ascii_archive_name [OF laws(4)])
      (auto simp: make_archive_def)
qed

lemma audit_archive_create_inv:
  assumes laws: "gcm_law E" "hex_law E" "sha3_law E" "stamp_law E" and inv: "chain_inv E app st"
  shows "chain_inv E app (snd (audit_archive_create E cd app rq q caller st))"
proof -
  obtain anchor_id g where p: "(anchor_id, g)
      = (case latest_audit_anchor E st of Some p \<Rightarrow> p | None \<Rightarrow> (0, zeros 32))"
    by (metis surj_pair)
  have li: "log_inv E st" using inv by (simp add: chain_inv_def)
  note live = all_rows_live [OF li p]
  have rows: "filter (\<lambda>r. anchor_id < au_id r) (audit_log st) = audit_log st"
    using live(1) by (simp add: filter_id_conv)
  let ?log = "audit_log st"
  have build: "chain_inv E app (snd (archive_build E cd app rq q caller anchor_id g (take c ?log) st))"
    if "0 < c" "c < length ?log" "\<not> list_ex (\<lambda>r. au_hash r = None) ?log" for c
  proof -
    have "take c ?log \<noteq> []" using that(1,2) by auto
    then have "last (take c ?log) \<in> set ?log" by (meson in_set_takeD last_in_set)
    then have "au_hash (last (take c ?log)) \<noteq> None" using that(3) by (auto simp: list_ex_iff)
    with archive_commit_inv [OF laws inv that(1,2) live(1)] inv show ?thesis
      by (auto simp: archive_build_def Let_def split: sum.splits)
  qed
  have "min n (length ?log - 1) < length ?log" if "\<not> length ?log \<le> 1" for n
    using that by linarith
  with build show ?thesis
    using inv
    by (auto simp: audit_archive_create_def rows Let_def simp flip: p split: option.splits sum.splits)
qed

section \<open>Reachable logs\<close>

text \<open>
  The states a deployment reaches from an empty log by audit writes of any handler (Rust
  strings are valid UTF-8), by archiving with or without pruning, and by verification.
\<close>

inductive audit_reach :: "ext \<Rightarrow> archive_codec \<Rightarrow> app \<Rightarrow> archive_state \<Rightarrow> bool"
  for E cd app where
  genesis: "audit_reach E cd app \<lparr>audit_log = [], audit_next = 1, anchors = [], archive_files = []\<rparr>"
| append_row: "audit_reach E cd app st \<Longrightarrow> utf8_opt resource \<Longrightarrow> utf8_opt message \<Longrightarrow>
    audit_reach E cd app (audit E app rq k c a resource s message st)"
| verify: "audit_reach E cd app st \<Longrightarrow>
    audit_reach E cd app (snd (verify_audit E app rq caller st))"
| archive: "audit_reach E cd app st \<Longrightarrow>
    audit_reach E cd app (snd (audit_archive_create E cd app rq q caller st))"

lemma verify_audit_inv:
  assumes "gcm_law E" and "hex_law E" and "sha3_law E" and "chain_inv E app st"
  shows "chain_inv E app (snd (verify_audit E app rq caller st))"
  using assms
  by (auto simp: verify_audit_def utf8_opt_def ascii_utf8
      intro!: audit_chain_inv split: option.splits audit_verdict.splits)

lemma audit_reach_inv:
  assumes "gcm_law E" and "hex_law E" and "sha3_law E" and "stamp_law E"
  shows "audit_reach E cd app st \<Longrightarrow> chain_inv E app st"
proof (induction rule: audit_reach.induct)
  case genesis
  show ?case
    by (simp add: chain_inv_def log_ok_def log_inv_def verify_log_def chain_start_def
        latest_audit_anchor_def)
next
  case (append_row st resource message rq k c a s)
  then show ?case using assms by (intro audit_chain_inv)
next
  case (verify st rq caller)
  then show ?case using assms by (intro verify_audit_inv)
next
  case (archive st rq q caller)
  then show ?case using assms by (intro audit_archive_create_inv)
qed

section \<open>Exported files\<close>

lemma contains_char: "contains_str [c] s \<longleftrightarrow> c \<in> set s"
  by (induction s) (auto simp: starts_with_def)

lemma contains_dots: "CHR ''.'' \<notin> set s \<Longrightarrow> \<not> contains_str ''..'' (s @ ''.bbka'')"
  by (induction s) (auto simp: starts_with_def)

lemma safe_archive_name_suffix:
  assumes "CHR ''.'' \<notin> set s" and "CHR ''/'' \<notin> set s" and "CHR 0x5C \<notin> set s"
  shows "safe_archive_name (s @ ''.bbka'')"
  using assms contains_dots by (simp add: safe_archive_name_def contains_char ends_with_def)

lemma pad10_chars: "c \<in> set (pad10 x) \<Longrightarrow> is_digit c \<or> c = CHR ''-''"
  by (auto simp: pad10_def Let_def is_digit_def dest: show_nat_digits split: if_splits)

lemma safe_archive_name_archive:
  assumes "stamp_law E"
  shows "safe_archive_name (archive_name E rq a)"
proof -
  let ?s = "''audit-'' @ pad10 (aa_first_id a) @ ''-'' @ pad10 (aa_last_id a) @ ''-''
    @ format_stamp E (now rq)"
  have stamp: "is_digit c \<or> c = CHR ''T'' \<or> c = CHR ''Z''" if "c \<in> set (format_stamp E t)" for c t
    using assms that by (simp add: stamp_law_def list_all_iff)
  have chars: "c \<in> set ?s \<Longrightarrow> is_digit c \<or> c \<in> set ''audit-TZ''" for c
    using pad10_chars stamp by fastforce
  have no: "\<not> is_digit CHR ''.''" "\<not> is_digit CHR ''/''" "\<not> is_digit (CHR 0x5C)"
    by (simp_all add: is_digit_def)
  have "CHR ''.'' \<notin> set ?s" "CHR ''/'' \<notin> set ?s" "CHR 0x5C \<notin> set ?s"
    using chars [of "CHR ''.''"] chars [of "CHR ''/''"] chars [of "CHR 0x5C"] no by auto
  then have "safe_archive_name (?s @ ''.bbka'')" by (rule safe_archive_name_suffix)
  then show ?thesis by (simp add: archive_name_def)
qed

lemma archive_files_audit [simp]:
  "archive_files (audit E app rq k c a r s m st) = archive_files st"
  by (simp add: audit_def Let_def split: sum.splits)

lemma archive_create_replies:
  assumes "audit_archive_create E cd app rq q caller st = (Reply 200 (Archived n i j f pruned sz), st')"
  shows "\<exists>a blob key. av_ok (verify_archive E (audit_hmac_key app) a)
    \<and> aa_count a = length (aa_rows a) \<and> audit_archive_enc_key E (bb_keys app) = Inr key
    \<and> build_archive E cd (rand rq 0 12) key a = Inr blob
    \<and> require_admin caller = (None :: verify_reply response option)
    \<and> f = archive_name E rq a \<and> n = aa_count a \<and> map_of (archive_files st') f = Some blob"
proof -
  obtain anchor_id g c rows where "require_admin caller = (None :: archive_reply response option)"
      and b: "archive_build E cd app rq q caller anchor_id g (take c rows) st
        = (Reply 200 (Archived n i j f pruned sz), st')"
    using assms unfolding audit_archive_create_def Let_def
    by (auto simp: require_admin_def split: option.splits prod.splits if_splits sum.splits)
  moreover from this have "require_admin caller = (None :: verify_reply response option)"
    by (simp add: require_admin_def split: if_splits)
  ultimately show ?thesis
    by (auto simp: archive_build_def archive_commit_def make_archive_def put_file_def Let_def
        split: sum.splits if_splits)
qed

section \<open>Properties\<close>

text \<open>
  C36. In every state reached from an empty log by audit writes, verification, archiving
  and pruning, the chain check over the live rows succeeds for all of them, starting from
  the latest anchor: pruning never leaves a log that verification rejects.
\<close>

theorem reachable_log_verifies:
  assumes "gcm_law E" and "hex_law E" and "sha3_law E" and "stamp_law E"
    and "audit_reach E cd app st"
  shows "verify_log E app st = Verified (length (audit_log st))"
  using audit_reach_inv [OF assms] by (simp add: chain_inv_def log_ok_def)

definition demo_codec :: archive_codec where
  "demo_codec = \<lparr>to_json = (\<lambda>a. Some []), from_json = (\<lambda>j. None), gzip = Some, gunzip = Some\<rparr>"

definition demo_admin :: authenticated_client where
  "demo_admin = \<lparr>ac_id = ''adm'', ac_name = ''root'', ac_role = ''admin'', ac_method = MutualTlsAndToken\<rparr>"

text \<open>Three rows, the oldest two archived and pruned: two live rows, one of them the archive's own.\<close>

definition demo_pruned :: archive_state where
  "demo_pruned =
     (let w = (\<lambda>t. audit demo_ext demo_app (demo_rq t) 0 (Some ''c1'') ''secret.read'' None AuditOk None)
      in snd (audit_archive_create demo_ext demo_codec demo_app (demo_rq 9)
           \<lparr>aq_before = None, aq_keep_last = Some 1, aq_prune = True\<rparr> demo_admin
           (w 3 (w 2 (w 1 \<lparr>audit_log = [], audit_next = 1, anchors = [], archive_files = []\<rparr>)))))"

theorem reachable_log_verifies_witness:
  "verify_log demo_ext demo_app demo_pruned = Verified (length (audit_log demo_pruned))"
proof -
  have "audit_reach demo_ext demo_codec demo_app demo_pruned"
    unfolding demo_pruned_def Let_def
    by (intro audit_reach.intros) (simp_all add: utf8_opt_def)
  then show ?thesis by (intro reachable_log_verifies) simp_all
qed

text \<open>
  An archive written by the export is readable and verifies: when the export replies
  with a file name, the verification endpoint finds that file, opens it, and reports all
  of its rows verified.
\<close>

theorem archive_then_verify:
  assumes "gcm_law E" and "codec_law cd" and "stamp_law E"
    and "audit_archive_create E cd app rq q caller st = (Reply 200 (Archived n i j f pruned sz), st')"
  shows "\<exists>v. audit_archive_verify E cd app f caller st' = Reply 200 (Checked v)
    \<and> av_ok v \<and> av_verified v = n"
proof -
  obtain a blob key where a: "av_ok (verify_archive E (audit_hmac_key app) a)"
      "aa_count a = length (aa_rows a)" "audit_archive_enc_key E (bb_keys app) = Inr key"
      "build_archive E cd (rand rq 0 12) key a = Inr blob" "require_admin caller = (None :: verify_reply response option)"
      "f = archive_name E rq a" "n = aa_count a" "map_of (archive_files st') f = Some blob"
    using archive_create_replies [OF assms(4)] by blast
  have "open_archive E cd key blob = Inr a"
    using open_build [OF assms(1,2) _ a(4)] by simp
  moreover have "safe_archive_name f" using a(6) safe_archive_name_archive [OF assms(3)] by simp
  moreover have "av_verified (verify_archive E (audit_hmac_key app) a) = n"
    using a(1,2,7) by (auto simp: verify_archive_def archive_bail_def split: option.splits sum.splits if_splits)
  ultimately show ?thesis using a by (simp add: audit_archive_verify_def)
qed

text \<open>A codec for one archive, enough to exercise the export.\<close>

definition one_codec :: "audit_archive \<Rightarrow> archive_codec" where
  "one_codec a = \<lparr>to_json = (\<lambda>b. if b = a then Some [] else None), from_json = (\<lambda>j. Some a),
     gzip = Some, gunzip = Some\<rparr>"

definition demo_two :: archive_state where
  "demo_two =
     (let w = (\<lambda>t. audit demo_ext demo_app (demo_rq t) 0 None ''secret.read'' None AuditOk None)
      in w 2 (w 1 \<lparr>audit_log = [], audit_next = 1, anchors = [], archive_files = []\<rparr>))"

definition demo_archive :: audit_archive where
  "demo_archive = (case archive_rows demo_ext demo_app (take 1 (audit_log demo_two)) of
      Inr arows \<Rightarrow> make_archive demo_ext (demo_rq 9) (zeros 32) arows)"

lemma demo_enc_key: "audit_archive_enc_key demo_ext (bb_keys demo_app) = Inr (zeros 32)"
  by (simp add: audit_archive_enc_key_def handle_with_info_def demo_app_def demo_keys_def
      sk_pbkdf2_def seed_def demo_root_def primary_new_def demo_ext_def zeros_def)

lemma demo_seal: "length k = 32 \<Longrightarrow> \<exists>c. aead_seal demo_ext n m k = Inr c"
  by (simp add: aead_seal_def aead_seal_nonce_def demo_ext_def)

lemma demo_two_log:
  "\<exists>h r. audit_log demo_two = [\<lparr>au_id = 1, au_ts = 1, au_client = None, au_action = ''secret.read'',
      au_status = ''ok'', au_resource_enc = None, au_message_enc = None,
      au_prev = Some (hex_encode demo_ext (zeros 32)), au_hash = Some (hex_encode demo_ext h)\<rparr>, r]
    \<and> h = compute_audit_hash demo_ext (audit_hmac_key demo_app) (zeros 32)
        \<lparr>ev_ts = 1, ev_client = None, ev_action = ''secret.read'', ev_resource = None,
         ev_status = ''ok'', ev_message = None\<rparr>
    \<and> au_id r = 2 \<and> au_hash r \<noteq> None \<and> anchors demo_two = []"
  by (simp add: demo_two_def audit_def seal_opt_def Let_def chain_head_def demo_rq_def)

lemma demo_create:
  "\<exists>i j f pruned sz st'. audit_archive_create demo_ext (one_codec demo_archive) demo_app (demo_rq 9)
      \<lparr>aq_before = None, aq_keep_last = Some 1, aq_prune = True\<rparr> demo_admin demo_two
    = (Reply 200 (Archived 1 i j f pruned sz), st')"
proof -
  let ?k = "audit_hmac_key demo_app"
  obtain h r where log: "audit_log demo_two = [\<lparr>au_id = 1, au_ts = 1, au_client = None,
      au_action = ''secret.read'', au_status = ''ok'', au_resource_enc = None, au_message_enc = None,
      au_prev = Some (hex_encode demo_ext (zeros 32)), au_hash = Some (hex_encode demo_ext h)\<rparr>, r]"
    and h: "h = compute_audit_hash demo_ext ?k (zeros 32)
        \<lparr>ev_ts = 1, ev_client = None, ev_action = ''secret.read'', ev_resource = None,
         ev_status = ''ok'', ev_message = None\<rparr>"
    and r: "au_id r = 2" "au_hash r \<noteq> None" "anchors demo_two = []"
    using demo_two_log by blast
  have z: "length (zeros 32) = 32" by (simp add: zeros_def)
  obtain c where c: "aead_seal demo_ext (rand (demo_rq 9) 0 12) [] (zeros 32) = Inr c"
    using demo_seal [OF z] by blast
  show ?thesis
    by (simp add: audit_archive_create_def demo_admin_def require_admin_def is_admin_def Let_def
        latest_audit_anchor_def log r archive_cutoff_def archive_build_def archive_row_def
        dec_opt_def demo_archive_def make_archive_def verify_archive_def hex32_hex z
        archived_event_def h demo_enc_key build_archive_def one_codec_def c archive_commit_def)
qed

theorem archive_then_verify_witness:
  "\<exists>f v. audit_archive_verify demo_ext (one_codec demo_archive) demo_app f demo_admin
      (snd (audit_archive_create demo_ext (one_codec demo_archive) demo_app (demo_rq 9)
        \<lparr>aq_before = None, aq_keep_last = Some 1, aq_prune = True\<rparr> demo_admin demo_two))
    = Reply 200 (Checked v) \<and> av_ok v \<and> av_verified v = 1"
proof -
  have "codec_law (one_codec demo_archive)" by (simp add: codec_law_def one_codec_def)
  then show ?thesis
    using demo_create archive_then_verify [OF demo_laws(3) _ demo_laws(8)] by (metis snd_conv)
qed

end
