(* ===== verification/Accounts.thy ===== *)
theory Accounts
  imports Audit_Archive
begin

text \<open>
  Identities: the tables of clients, domains and memberships, request authentication by
  certificate and token, and the handlers that create, rotate and revoke clients, manage
  domains and enrol second factors (\<open>auth.rs\<close> and \<open>server.rs\<close>). Inserts and updates check
  the unique keys of the schema; the lemmas show that the keys stay unique, who can
  authenticate, and what rotation and revocation guarantee.
\<close>

section \<open>Tables\<close>

record client_row =
  cl_id :: string
  cl_name_enc :: bytes
  cl_name_id :: string
  cl_token_hash :: string
  cl_role :: string
  cl_created :: int
  cl_revoked :: "int option"
  cl_expires :: "int option"
  cl_fingerprint :: "string option"
  cl_totp_enc :: "bytes option"
  cl_totp_enrolled :: bool

record domain_row =
  dm_id :: string
  dm_name_enc :: bytes
  dm_name_id :: string
  dm_desc_enc :: "bytes option"
  dm_created :: int
  dm_archived :: "int option"

record member_row =
  mb_domain :: string
  mb_client :: string
  mb_role :: string
  mb_added :: int

record acct_state = archive_state +
  clients :: "client_row list"
  domains :: "domain_row list"
  members :: "member_row list"

datatype auth_op_error = DbUnique | Tls | CryptoFailed crypto_error | Totp | Invalid

section \<open>Tokens and roles\<close>

definition token_prefix :: string where
  "token_prefix = ''bbk_''"

definition generate_token :: "ext \<Rightarrow> bytes \<Rightarrow> string" where
  "generate_token E rnd = token_prefix @ b64url_encode E rnd"

definition hash_token :: "ext \<Rightarrow> string \<Rightarrow> string" where
  "hash_token E token = hex_encode E (sha3_256 E (as_bytes token))"

definition default_ttl_days :: "string \<Rightarrow> int" where
  "default_ttl_days role = (if role = ''admin'' then 365 else 30)"

text \<open>\<open>Utc::now() + Duration::days(ttl)\<close>.\<close>

definition expiry :: "request \<Rightarrow> int \<Rightarrow> int" where
  "expiry rq ttl = now rq + ttl * 86400000000"

definition issue_client_cert ::
    "ext \<Rightarrow> request \<Rightarrow> nat \<Rightarrow> string \<Rightarrow> int \<Rightarrow> auth_op_error + (string \<times> string \<times> string)" where
  "issue_client_cert E rq i name ttl = ok_or Tls (issue_cert E name ttl (rand rq i 32))"

section \<open>Authentication\<close>

text \<open>The certificate of the TLS peer, put on the connection by \<open>run_server\<close>.\<close>

record peer_cert =
  common_name :: string
  fingerprint :: string

definition expired :: "request \<Rightarrow> int option \<Rightarrow> bool" where
  "expired rq e = (case e of Some t \<Rightarrow> t \<le> now rq | None \<Rightarrow> False)"

text \<open>The common part of both look-ups, after the row has been selected.\<close>

definition as_client ::
    "ext \<Rightarrow> app \<Rightarrow> request \<Rightarrow> client_row option \<Rightarrow> authenticated_client option" where
  "as_client E app rq row = (case row of
      None \<Rightarrow> None
    | Some r \<Rightarrow>
        if expired rq (cl_expires r) then None
        else (case dec_str E (metadata_enc_key app) (cl_name_enc r) of
                Inl e \<Rightarrow> None
              | Inr name \<Rightarrow> Some \<lparr>ac_id = cl_id r, ac_name = name, ac_role = cl_role r,
                                 ac_method = MutualTlsAndToken\<rparr>))"

definition lookup_by_cn ::
    "ext \<Rightarrow> app \<Rightarrow> request \<Rightarrow> peer_cert \<Rightarrow> 'a acct_state_scheme \<Rightarrow> authenticated_client option" where
  "lookup_by_cn E app rq peer st =
     as_client E app rq (List.find (\<lambda>r.
       cl_name_id r = client_name_id_hex E (name_index_key app) (common_name peer)
       \<and> cl_fingerprint r = Some (fingerprint peer) \<and> cl_revoked r = None) (clients st))"

definition lookup_by_token ::
    "ext \<Rightarrow> app \<Rightarrow> request \<Rightarrow> string \<Rightarrow> 'a acct_state_scheme \<Rightarrow> authenticated_client option" where
  "lookup_by_token E app rq token st =
     as_client E app rq (List.find (\<lambda>r.
       cl_token_hash r = hash_token E token \<and> cl_revoked r = None) (clients st))"

datatype auth_error = DifferentClients | TokenRequired | CertRequired | BothRequired

text \<open>The final \<open>match\<close> of \<open>from_request\<close>: both factors are mandatory and must agree.\<close>

fun match_factors ::
    "authenticated_client option \<Rightarrow> authenticated_client option \<Rightarrow> auth_error + authenticated_client" where
  "match_factors (Some c) (Some t) =
     (if ac_id c = ac_id t then Inr (c\<lparr>ac_method := MutualTlsAndToken\<rparr>) else Inl DifferentClients)"
| "match_factors (Some c) None = Inl TokenRequired"
| "match_factors None (Some t) = Inl CertRequired"
| "match_factors None None = Inl BothRequired"

text \<open>
  \<open>AuthenticatedClient::from_request\<close>: \<open>header\<close> is the Authorization header, \<open>peer\<close> the
  certificate of the connection.
\<close>

definition from_request ::
    "ext \<Rightarrow> app \<Rightarrow> request \<Rightarrow> peer_cert option \<Rightarrow> string option \<Rightarrow> 'a acct_state_scheme
      \<Rightarrow> auth_error + authenticated_client" where
  "from_request E app rq peer header st =
     (let token_value = (case header of None \<Rightarrow> None | Some h \<Rightarrow> strip_prefix ''Bearer '' h);
          by_cert = (case peer of None \<Rightarrow> None | Some p \<Rightarrow> lookup_by_cn E app rq p st);
          by_token = (case token_value of None \<Rightarrow> None | Some t \<Rightarrow> lookup_by_token E app rq t st)
      in match_factors by_cert by_token)"

section \<open>Domains and membership\<close>

definition domain_by_name ::
    "ext \<Rightarrow> app \<Rightarrow> string \<Rightarrow> 'a acct_state_scheme \<Rightarrow> domain_row option" where
  "domain_by_name E app name st =
     List.find (\<lambda>d. dm_name_id d = domain_name_id_hex E (name_index_key app) name
       \<and> dm_archived d = None) (domains st)"

definition resolve_domain :: "ext \<Rightarrow> app \<Rightarrow> string \<Rightarrow> 'a acct_state_scheme \<Rightarrow> string option" where
  "resolve_domain E app name st = map_option dm_id (domain_by_name E app name st)"

definition domain_member :: "authenticated_client \<Rightarrow> string \<Rightarrow> 'a acct_state_scheme \<Rightarrow> bool" where
  "domain_member c domain_id st \<longleftrightarrow> is_admin c
     \<or> list_ex (\<lambda>m. mb_client m = ac_id c \<and> mb_domain m = domain_id) (members st)"

definition domain_admin :: "authenticated_client \<Rightarrow> string \<Rightarrow> 'a acct_state_scheme \<Rightarrow> bool" where
  "domain_admin c domain_id st \<longleftrightarrow> is_admin c
     \<or> list_ex (\<lambda>m. mb_client m = ac_id c \<and> mb_domain m = domain_id \<and> mb_role m = ''admin'')
         (members st)"

definition admin_domain_ids :: "authenticated_client \<Rightarrow> 'a acct_state_scheme \<Rightarrow> string list" where
  "admin_domain_ids c st =
     map mb_domain (filter (\<lambda>m. mb_client m = ac_id c \<and> mb_role m = ''admin'') (members st))"

definition domain_query :: "string option \<Rightarrow> string" where
  "domain_query d = (case d of Some n \<Rightarrow> n | None \<Rightarrow> ''default'')"

definition resolve_and_gate_domain ::
    "ext \<Rightarrow> app \<Rightarrow> authenticated_client \<Rightarrow> string option \<Rightarrow> 'a acct_state_scheme
      \<Rightarrow> 'b response + (string \<times> string)" where
  "resolve_and_gate_domain E app c q st =
     (let domain_name = domain_query q
      in case resolve_domain E app domain_name st of
           None \<Rightarrow> Inl (ErrorReply 404 ''no_such_domain'')
         | Some i \<Rightarrow>
             if \<not> domain_member c i st then Inl (ErrorReply 403 ''not_member'')
             else Inr (i, domain_name))"

definition require_domain_admin ::
    "authenticated_client \<Rightarrow> string \<Rightarrow> 'a acct_state_scheme \<Rightarrow> 'b response option" where
  "require_domain_admin c domain_id st =
     (if domain_admin c domain_id st then None else Some (ErrorReply 403 ''forbidden''))"

text \<open>\<open>INSERT ... ON CONFLICT (domain_id, client_id) DO UPDATE SET role\<close>.\<close>

definition is_member :: "string \<Rightarrow> string \<Rightarrow> member_row \<Rightarrow> bool" where
  "is_member d c m \<longleftrightarrow> mb_domain m = d \<and> mb_client m = c"

definition upsert_member ::
    "request \<Rightarrow> string \<Rightarrow> string \<Rightarrow> string \<Rightarrow> member_row list \<Rightarrow> member_row list" where
  "upsert_member rq d c role ms =
     (if list_ex (is_member d c) ms
      then update_where (is_member d c) (\<lambda>m. m\<lparr>mb_role := role\<rparr>) ms
      else ms @ [\<lparr>mb_domain = d, mb_client = c, mb_role = role, mb_added = now rq\<rparr>])"

text \<open>\<open>INSERT ... ON CONFLICT DO NOTHING\<close>.\<close>

definition insert_member ::
    "request \<Rightarrow> string \<Rightarrow> string \<Rightarrow> string \<Rightarrow> member_row list \<Rightarrow> member_row list" where
  "insert_member rq d c role ms =
     (if list_ex (is_member d c) ms then ms
      else ms @ [\<lparr>mb_domain = d, mb_client = c, mb_role = role, mb_added = now rq\<rparr>])"

section \<open>Creating clients\<close>

definition user_domain_prefix :: string where
  "user_domain_prefix = ''~''"

definition user_domain_name :: "string \<Rightarrow> string" where
  "user_domain_name client_name = user_domain_prefix @ client_name"

text \<open>
  \<open>ensure_user_domain\<close>. The draws are the domain's id and the nonces of its two encrypted
  columns. The insert does nothing when the name id exists (an archived domain), and the
  row is then read again without the archive filter.
\<close>

definition new_user_domain ::
    "ext \<Rightarrow> app \<Rightarrow> request \<Rightarrow> string \<Rightarrow> 'a acct_state_scheme
      \<Rightarrow> (auth_op_error + string) \<times> 'a acct_state_scheme" where
  "new_user_domain E app rq client_name st =
     (let dname = user_domain_name client_name;
          nid = domain_name_id_hex E (name_index_key app) dname;
          i = hex_encode E (rand rq 4 12)
      in case aead_seal E (rand rq 5 12) (as_bytes dname) (metadata_enc_key app) of
           Inl e \<Rightarrow> (Inl (CryptoFailed e), st)
         | Inr name_enc \<Rightarrow>
           (case aead_seal E (rand rq 6 12)
                   (as_bytes (''Private user domain for '' @ client_name)) (metadata_enc_key app) of
              Inl e \<Rightarrow> (Inl (CryptoFailed e), st)
            | Inr desc_enc \<Rightarrow>
              (case List.find (\<lambda>d. dm_name_id d = nid) (domains st) of
                 Some d \<Rightarrow> (Inr (dm_id d), st)
               | None \<Rightarrow>
                   if list_ex (\<lambda>d. dm_id d = i) (domains st) then (Inl DbUnique, st)
                   else (Inr i, st\<lparr>domains := domains st @
                     [\<lparr>dm_id = i, dm_name_enc = name_enc, dm_name_id = nid,
                       dm_desc_enc = Some desc_enc, dm_created = now rq, dm_archived = None\<rparr>]\<rparr>))))"

definition ensure_user_domain ::
    "ext \<Rightarrow> app \<Rightarrow> request \<Rightarrow> string \<Rightarrow> string \<Rightarrow> 'a acct_state_scheme
      \<Rightarrow> (auth_op_error + string) \<times> 'a acct_state_scheme" where
  "ensure_user_domain E app rq client_id client_name st =
     (let dname = user_domain_name client_name
      in case (case domain_by_name E app dname st of
                 Some d \<Rightarrow> (Inr (dm_id d), st)
               | None \<Rightarrow> new_user_domain E app rq client_name st) of
           (Inl e, st1) \<Rightarrow> (Inl e, st1)
         | (Inr domain_id, st1) \<Rightarrow>
             (Inr dname,
              st1\<lparr>members := upsert_member rq domain_id client_id ''admin'' (members st1)\<rparr>))"

record new_client =
  nc_id :: string
  nc_name :: string
  nc_role :: string
  nc_token :: string
  nc_cert_pem :: string
  nc_key_pem :: string
  nc_expires_at :: string
  nc_user_domain :: string

text \<open>The unique keys of \<open>blackbook_clients\<close>.\<close>

definition client_conflict :: "client_row \<Rightarrow> client_row \<Rightarrow> bool" where
  "client_conflict n r \<longleftrightarrow> cl_id r = cl_id n \<or> cl_name_id r = cl_name_id n
     \<or> cl_token_hash r = cl_token_hash n"

text \<open>
  \<open>create_client\<close>: the row of the client, its membership in the default domain, and its
  private domain. A later step that fails leaves the earlier ones in place: the source
  uses no transaction.
\<close>

definition join_default ::
    "ext \<Rightarrow> app \<Rightarrow> request \<Rightarrow> string \<Rightarrow> 'a acct_state_scheme \<Rightarrow> 'a acct_state_scheme" where
  "join_default E app rq client_id st =
     (case domain_by_name E app ''default'' st of
        None \<Rightarrow> st
      | Some d \<Rightarrow> st\<lparr>members := insert_member rq (dm_id d) client_id ''user'' (members st)\<rparr>)"

definition client_row_of ::
    "ext \<Rightarrow> app \<Rightarrow> request \<Rightarrow> string \<Rightarrow> string \<Rightarrow> bytes \<Rightarrow> int \<Rightarrow> string \<Rightarrow> client_row" where
  "client_row_of E app rq name role name_enc expires_dt fp =
     \<lparr>cl_id = hex_encode E (rand rq 1 16), cl_name_enc = name_enc,
      cl_name_id = client_name_id_hex E (name_index_key app) name,
      cl_token_hash = hash_token E (generate_token E (rand rq 0 32)), cl_role = role,
      cl_created = now rq, cl_revoked = None, cl_expires = Some expires_dt,
      cl_fingerprint = Some fp, cl_totp_enc = None, cl_totp_enrolled = False\<rparr>"

definition create_client ::
    "ext \<Rightarrow> app \<Rightarrow> request \<Rightarrow> string \<Rightarrow> string \<Rightarrow> int option \<Rightarrow> 'a acct_state_scheme
      \<Rightarrow> (auth_op_error + new_client) \<times> 'a acct_state_scheme" where
  "create_client E app rq name role ttl_days st =
     (if starts_with user_domain_prefix name then (Inl Invalid, st)
      else
        let ttl = (case ttl_days of Some t \<Rightarrow> t | None \<Rightarrow> default_ttl_days role);
            expires_dt = expiry rq ttl
        in case issue_client_cert E rq 2 name ttl of
             Inl e \<Rightarrow> (Inl e, st)
           | Inr (cert_pem, key_pem, fp) \<Rightarrow>
             (case aead_seal E (rand rq 3 12) (as_bytes name) (metadata_enc_key app) of
                Inl e \<Rightarrow> (Inl (CryptoFailed e), st)
              | Inr name_enc \<Rightarrow>
                (let row = client_row_of E app rq name role name_enc expires_dt fp
                 in if list_ex (client_conflict row) (clients st) then (Inl DbUnique, st)
                    else
                      let st1 = join_default E app rq (cl_id row)
                                  (st\<lparr>clients := clients st @ [row]\<rparr>)
                      in case ensure_user_domain E app rq (cl_id row) name st1 of
                           (Inl e, st2) \<Rightarrow> (Inl e, st2)
                         | (Inr user_domain, st2) \<Rightarrow>
                             (Inr \<lparr>nc_id = cl_id row, nc_name = name, nc_role = role,
                                   nc_token = generate_token E (rand rq 0 32),
                                   nc_cert_pem = cert_pem, nc_key_pem = key_pem,
                                   nc_expires_at = to_rfc3339 E expires_dt,
                                   nc_user_domain = user_domain\<rparr>, st2))))"

definition bootstrap_admin_if_needed ::
    "ext \<Rightarrow> app \<Rightarrow> request \<Rightarrow> 'a acct_state_scheme
      \<Rightarrow> (auth_op_error + (string \<times> string \<times> string) option) \<times> 'a acct_state_scheme" where
  "bootstrap_admin_if_needed E app rq st =
     (if list_ex (\<lambda>r. cl_role r = ''admin'' \<and> cl_revoked r = None) (clients st) then (Inr None, st)
      else
        let ttl = default_ttl_days ''admin''; expires_dt = expiry rq ttl
        in case issue_client_cert E rq 2 ''admin'' ttl of
             Inl e \<Rightarrow> (Inl e, st)
           | Inr (cert_pem, key_pem, fp) \<Rightarrow>
             (case aead_seal E (rand rq 3 12) (as_bytes ''admin'') (metadata_enc_key app) of
                Inl e \<Rightarrow> (Inl (CryptoFailed e), st)
              | Inr name_enc \<Rightarrow>
                (let row = client_row_of E app rq ''admin'' ''admin'' name_enc expires_dt fp
                 in if list_ex (client_conflict row) (clients st) then (Inl DbUnique, st)
                    else case ensure_user_domain E app rq (cl_id row) ''admin''
                                (st\<lparr>clients := clients st @ [row]\<rparr>) of
                           (Inl e, st2) \<Rightarrow> (Inl e, st2)
                         | (Inr user_domain, st2) \<Rightarrow>
                             (Inr (Some (generate_token E (rand rq 0 32), cert_pem, key_pem)), st2))))"

text \<open>\<open>rotate_client\<close>; the update fails when the new token hash is taken by another row.\<close>

definition active_client ::
    "ext \<Rightarrow> app \<Rightarrow> string \<Rightarrow> 'a acct_state_scheme \<Rightarrow> client_row option" where
  "active_client E app name st =
     List.find (\<lambda>r. cl_name_id r = client_name_id_hex E (name_index_key app) name
       \<and> cl_revoked r = None) (clients st)"

definition rotate_client ::
    "ext \<Rightarrow> app \<Rightarrow> request \<Rightarrow> string \<Rightarrow> int option \<Rightarrow> 'a acct_state_scheme
      \<Rightarrow> (auth_op_error + new_client option) \<times> 'a acct_state_scheme" where
  "rotate_client E app rq name ttl_days st =
     (case active_client E app name st of
        None \<Rightarrow> (Inr None, st)
      | Some r \<Rightarrow>
        (let token = generate_token E (rand rq 0 32);
             token_hash = hash_token E token;
             ttl = (case ttl_days of Some t \<Rightarrow> t | None \<Rightarrow> default_ttl_days (cl_role r));
             expires_dt = expiry rq ttl
         in case issue_client_cert E rq 2 name ttl of
              Inl e \<Rightarrow> (Inl e, st)
            | Inr (cert_pem, key_pem, fp) \<Rightarrow>
                if list_ex (\<lambda>q. cl_id q \<noteq> cl_id r \<and> cl_token_hash q = token_hash) (clients st)
                then (Inl DbUnique, st)
                else
                  (Inr (Some \<lparr>nc_id = cl_id r, nc_name = name, nc_role = cl_role r,
                              nc_token = token, nc_cert_pem = cert_pem, nc_key_pem = key_pem,
                              nc_expires_at = to_rfc3339 E expires_dt,
                              nc_user_domain = user_domain_name name\<rparr>),
                   st\<lparr>clients := update_where (\<lambda>q. cl_id q = cl_id r)
                      (\<lambda>q. q\<lparr>cl_token_hash := token_hash, cl_expires := Some expires_dt,
                             cl_fingerprint := Some fp\<rparr>) (clients st)\<rparr>)))"

section \<open>Second factors\<close>

definition enroll_totp ::
    "ext \<Rightarrow> request \<Rightarrow> bytes \<Rightarrow> string \<Rightarrow> string \<Rightarrow> 'a acct_state_scheme
      \<Rightarrow> (auth_op_error + (string \<times> string)) \<times> 'a acct_state_scheme" where
  "enroll_totp E rq kek client_id client_name st =
     (let secret = rand rq 0 20
      in case encrypt_aes_gcm E (nat (now rq div 1000000)) (rand rq 1 32) secret kek of
           Inl e \<Rightarrow> (Inl (CryptoFailed e), st)
         | Inr enc \<Rightarrow>
           (let st1 = st\<lparr>clients := update_where (\<lambda>r. cl_id r = client_id)
                          (\<lambda>r. r\<lparr>cl_totp_enc := Some enc, cl_totp_enrolled := False\<rparr>) (clients st)\<rparr>
            in case totp_url E secret client_name of
                 None \<Rightarrow> (Inl Totp, st1)
               | Some uri \<Rightarrow> (Inr (uri, base32_encode E secret), st1)))"

definition verify_totp ::
    "ext \<Rightarrow> request \<Rightarrow> bytes \<Rightarrow> string \<Rightarrow> string \<Rightarrow> 'a acct_state_scheme
      \<Rightarrow> (auth_op_error + bool) \<times> 'a acct_state_scheme" where
  "verify_totp E rq kek client_id code st =
     (case List.find (\<lambda>r. cl_id r = client_id \<and> cl_totp_enc r \<noteq> None) (clients st) of
        None \<Rightarrow> (Inr False, st)
      | Some r \<Rightarrow>
        (case decrypt_aes_gcm E (the (cl_totp_enc r)) kek of
           Inl e \<Rightarrow> (Inl (CryptoFailed e), st)
         | Inr secret \<Rightarrow>
           (case totp_check E secret (now rq) code of
              None \<Rightarrow> (Inl Totp, st)
            | Some ok \<Rightarrow>
                (Inr ok,
                 if ok then st\<lparr>clients := update_where (\<lambda>r. cl_id r = client_id)
                               (\<lambda>r. r\<lparr>cl_totp_enrolled := True\<rparr>) (clients st)\<rparr>
                 else st))))"

section \<open>Handlers\<close>

text \<open>\<open>unwrap_or_else(|_| "?")\<close> on a decrypted name.\<close>

definition name_or_mark :: "ext \<Rightarrow> app \<Rightarrow> bytes \<Rightarrow> string" where
  "name_or_mark E app b = (case dec_str E (metadata_enc_key app) b of Inl e \<Rightarrow> ''?'' | Inr s \<Rightarrow> s)"

datatype whoami_reply = Whoami string string string auth_method "string option"

definition whoami ::
    "ext \<Rightarrow> app \<Rightarrow> authenticated_client \<Rightarrow> 'a acct_state_scheme \<Rightarrow> whoami_reply response" where
  "whoami E app c st =
     (let dname = user_domain_name (ac_name c);
          nid = domain_name_id_hex E (name_index_key app) dname;
          has = list_ex (\<lambda>d. dm_name_id d = nid \<and> dm_archived d = None
                  \<and> list_ex (is_member (dm_id d) (ac_id c)) (members st)) (domains st)
      in Reply 200 (Whoami (ac_id c) (ac_name c) (ac_role c) (ac_method c)
           (if has then Some dname else None)))"

definition create_client_endpoint ::
    "ext \<Rightarrow> app \<Rightarrow> request \<Rightarrow> string \<Rightarrow> string \<Rightarrow> int option \<Rightarrow> authenticated_client
      \<Rightarrow> 'a acct_state_scheme \<Rightarrow> new_client response \<times> 'a acct_state_scheme" where
  "create_client_endpoint E app rq name role ttl_days caller st =
     (case require_admin caller of
        Some resp \<Rightarrow> (resp, st)
      | None \<Rightarrow>
          if trim name = [] then (ErrorReply 400 ''validation_error'', st)
          else if \<not> (role = ''admin'' \<or> role = ''user'') then (ErrorReply 400 ''validation_error'', st)
          else (case create_client E app rq name role ttl_days st of
                  (Inr new, st1) \<Rightarrow>
                    (Reply 201 new,
                     audit E app rq 0 (Some (ac_id caller)) ''client.create'' (Some name) AuditOk
                       (Some (''role='' @ role)) st1)
                | (Inl DbUnique, st1) \<Rightarrow> (ErrorReply 409 ''conflict'', st1)
                | (Inl Invalid, st1) \<Rightarrow> (ErrorReply 400 ''validation_error'', st1)
                | (Inl e, st1) \<Rightarrow> (ActixError 500, st1)))"

definition rotate_client_endpoint ::
    "ext \<Rightarrow> app \<Rightarrow> request \<Rightarrow> string \<Rightarrow> int option \<Rightarrow> authenticated_client
      \<Rightarrow> 'a acct_state_scheme \<Rightarrow> new_client response \<times> 'a acct_state_scheme" where
  "rotate_client_endpoint E app rq name ttl_days caller st =
     (case require_admin caller of
        Some resp \<Rightarrow> (resp, st)
      | None \<Rightarrow>
        (case rotate_client E app rq name ttl_days st of
           (Inr (Some new), st1) \<Rightarrow>
             (Reply 200 new,
              audit E app rq 0 (Some (ac_id caller)) ''client.rotate'' (Some name) AuditOk None st1)
         | (Inr None, st1) \<Rightarrow> (ErrorReply 404 ''not_found'', st1)
         | (Inl e, st1) \<Rightarrow> (ActixError 500, st1)))"

record client_summary =
  cs_id :: string
  cs_name :: string
  cs_role :: string
  cs_created :: int
  cs_expires :: "int option"
  cs_revoked :: "int option"

definition list_clients_endpoint ::
    "ext \<Rightarrow> app \<Rightarrow> authenticated_client \<Rightarrow> 'a acct_state_scheme \<Rightarrow> client_summary list response" where
  "list_clients_endpoint E app caller st =
     (case require_admin caller of
        Some resp \<Rightarrow> resp
      | None \<Rightarrow> Reply 200 (map (\<lambda>r.
          \<lparr>cs_id = cl_id r, cs_name = name_or_mark E app (cl_name_enc r), cs_role = cl_role r,
           cs_created = cl_created r, cs_expires = cl_expires r, cs_revoked = cl_revoked r\<rparr>)
          (rev (sort_key cl_created (clients st)))))"

definition revoke_client_endpoint ::
    "ext \<Rightarrow> app \<Rightarrow> request \<Rightarrow> string \<Rightarrow> authenticated_client
      \<Rightarrow> 'a acct_state_scheme \<Rightarrow> string response \<times> 'a acct_state_scheme" where
  "revoke_client_endpoint E app rq name caller st =
     (case require_admin caller of
        Some resp \<Rightarrow> (resp, st)
      | None \<Rightarrow>
          if name = ac_name caller then (ErrorReply 400 ''self_revoke'', st)
          else
            let P = (\<lambda>r. cl_name_id r = client_name_id_hex E (name_index_key app) name
                       \<and> cl_revoked r = None)
            in if rows_affected P (clients st) = 0 then (ErrorReply 404 ''not_found'', st)
               else (Reply 200 name,
                     audit E app rq 0 (Some (ac_id caller)) ''client.revoke'' (Some name) AuditOk None
                       (st\<lparr>clients := update_where P (\<lambda>r. r\<lparr>cl_revoked := Some (now rq)\<rparr>)
                            (clients st)\<rparr>)))"

definition create_domain ::
    "ext \<Rightarrow> app \<Rightarrow> request \<Rightarrow> string \<Rightarrow> string option \<Rightarrow> authenticated_client
      \<Rightarrow> 'a acct_state_scheme \<Rightarrow> (string \<times> string) response \<times> 'a acct_state_scheme" where
  "create_domain E app rq name description caller st =
     (case require_admin caller of
        Some resp \<Rightarrow> (resp, st)
      | None \<Rightarrow>
          if trim name = [] then (ErrorReply 400 ''validation_error'', st)
          else if starts_with user_domain_prefix name then (ErrorReply 400 ''validation_error'', st)
          else
            let i = hex_encode E (rand rq 0 12);
                nid = domain_name_id_hex E (name_index_key app) name
            in case enc_str E (rand rq 1 12) (metadata_enc_key app) name of
                 Inl e \<Rightarrow> (ActixError 500, st)
               | Inr name_enc \<Rightarrow>
                 (case seal_opt E (rand rq 2 12) (metadata_enc_key app) description of
                    Inl e \<Rightarrow> (ActixError 500, st)
                  | Inr desc_enc \<Rightarrow>
                      if list_ex (\<lambda>d. dm_id d = i \<or> dm_name_id d = nid) (domains st)
                      then (ErrorReply 409 ''conflict'', st)
                      else (Reply 201 (i, name),
                            audit E app rq 0 (Some (ac_id caller)) ''domain.create'' (Some name) AuditOk
                              None
                              (st\<lparr>domains := domains st @
                                [\<lparr>dm_id = i, dm_name_enc = name_enc, dm_name_id = nid,
                                  dm_desc_enc = desc_enc, dm_created = now rq,
                                  dm_archived = None\<rparr>]\<rparr>))))"

record domain_summary =
  ds_id :: string
  ds_name :: string
  ds_description :: "string option"
  ds_created :: int

definition list_domains ::
    "ext \<Rightarrow> app \<Rightarrow> authenticated_client \<Rightarrow> 'a acct_state_scheme \<Rightarrow> domain_summary list response" where
  "list_domains E app caller st =
     (let rows = (if is_admin caller
                  then filter (\<lambda>d. dm_archived d = None) (domains st)
                  else filter (\<lambda>d. dm_archived d = None
                         \<and> list_ex (is_member (dm_id d) (ac_id caller)) (members st)) (domains st))
      in Reply 200 (map (\<lambda>d.
           \<lparr>ds_id = dm_id d, ds_name = name_or_mark E app (dm_name_enc d),
            ds_description = dec_or_none E (metadata_enc_key app) (dm_desc_enc d),
            ds_created = dm_created d\<rparr>) (sort_str dm_id rows)))"

definition add_domain_member ::
    "ext \<Rightarrow> app \<Rightarrow> request \<Rightarrow> string \<Rightarrow> string \<Rightarrow> string \<Rightarrow> authenticated_client
      \<Rightarrow> 'a acct_state_scheme \<Rightarrow> string response \<times> 'a acct_state_scheme" where
  "add_domain_member E app rq domain_name client_name role caller st =
     (if \<not> (role = ''admin'' \<or> role = ''user'' \<or> role = ''guest'')
      then (ErrorReply 400 ''validation_error'', st)
      else (case resolve_domain E app domain_name st of
              None \<Rightarrow> (ErrorReply 404 ''no_such_domain'', st)
            | Some domain_id \<Rightarrow>
              (case require_domain_admin caller domain_id st of
                 Some resp \<Rightarrow>
                   (resp, audit E app rq 0 (Some (ac_id caller)) ''domain.add_member''
                      (Some domain_name) AuditDenied (Some ''not a domain admin'') st)
               | None \<Rightarrow>
                 (case active_client E app client_name st of
                    None \<Rightarrow> (ErrorReply 404 ''not_found'', st)
                  | Some r \<Rightarrow>
                      (Reply 200 role,
                       audit E app rq 0 (Some (ac_id caller)) ''domain.add_member''
                         (Some domain_name) AuditOk
                         (Some (''client='' @ client_name @ '' role='' @ role))
                         (st\<lparr>members := upsert_member rq domain_id (cl_id r) role
                              (members st)\<rparr>))))))"

text \<open>
  The sub-select of the delete ignores revocation; name ids are unique, so it selects at
  most one client.
\<close>

definition remove_domain_member ::
    "ext \<Rightarrow> app \<Rightarrow> request \<Rightarrow> string \<Rightarrow> string \<Rightarrow> authenticated_client
      \<Rightarrow> 'a acct_state_scheme \<Rightarrow> unit response \<times> 'a acct_state_scheme" where
  "remove_domain_member E app rq domain_name client_name caller st =
     (case resolve_domain E app domain_name st of
        None \<Rightarrow> (ErrorReply 404 ''no_such_domain'', st)
      | Some domain_id \<Rightarrow>
        (case require_domain_admin caller domain_id st of
           Some resp \<Rightarrow>
             (resp, audit E app rq 0 (Some (ac_id caller)) ''domain.remove_member''
                (Some domain_name) AuditDenied (Some ''not a domain admin'') st)
         | None \<Rightarrow>
           (let nid = client_name_id_hex E (name_index_key app) client_name;
                P = (case List.find (\<lambda>r. cl_name_id r = nid) (clients st) of
                       None \<Rightarrow> (\<lambda>m. False)
                     | Some r \<Rightarrow> is_member domain_id (cl_id r))
            in if rows_affected P (members st) = 0 then (ErrorReply 404 ''not_found'', st)
               else (Reply 200 (),
                     audit E app rq 0 (Some (ac_id caller)) ''domain.remove_member''
                       (Some domain_name) AuditOk (Some (''client='' @ client_name))
                       (st\<lparr>members := delete_where P (members st)\<rparr>)))))"

record member_summary =
  ms_client_name :: string
  ms_role :: string
  ms_added :: int

definition list_domain_members ::
    "ext \<Rightarrow> app \<Rightarrow> string \<Rightarrow> authenticated_client \<Rightarrow> 'a acct_state_scheme
      \<Rightarrow> member_summary list response" where
  "list_domain_members E app domain_name caller st =
     (case resolve_domain E app domain_name st of
        None \<Rightarrow> ErrorReply 404 ''no_such_domain''
      | Some domain_id \<Rightarrow>
          if \<not> is_admin caller \<and> \<not> domain_member caller domain_id st
          then ErrorReply 403 ''forbidden''
          else Reply 200 (concat (map (\<lambda>m.
            map (\<lambda>c. \<lparr>ms_client_name = name_or_mark E app (cl_name_enc c), ms_role = mb_role m,
                      ms_added = mb_added m\<rparr>)
              (filter (\<lambda>c. cl_id c = mb_client m) (clients st)))
            (sort_key mb_added (filter (\<lambda>m. mb_domain m = domain_id) (members st))))))"

definition mfa_enroll ::
    "ext \<Rightarrow> app \<Rightarrow> request \<Rightarrow> authenticated_client \<Rightarrow> 'a acct_state_scheme
      \<Rightarrow> (string \<times> string) response \<times> 'a acct_state_scheme" where
  "mfa_enroll E app rq caller st =
     (case handle E (mfa_secret_kek (bb_keys app)) of
        Inl e \<Rightarrow> (ActixError 500, st)
      | Inr kek \<Rightarrow>
        (case enroll_totp E rq kek (ac_id caller) (ac_name caller) st of
           (Inl e, st1) \<Rightarrow> (ActixError 500, st1)
         | (Inr (uri, b32), st1) \<Rightarrow>
             (Reply 200 (uri, b32),
              audit E app rq 0 (Some (ac_id caller)) ''mfa.enroll'' None AuditOk None st1)))"

definition mfa_verify ::
    "ext \<Rightarrow> app \<Rightarrow> request \<Rightarrow> string \<Rightarrow> authenticated_client \<Rightarrow> 'a acct_state_scheme
      \<Rightarrow> unit response \<times> 'a acct_state_scheme" where
  "mfa_verify E app rq code caller st =
     (case handle E (mfa_secret_kek (bb_keys app)) of
        Inl e \<Rightarrow> (ActixError 500, st)
      | Inr kek \<Rightarrow>
        (case verify_totp E rq kek (ac_id caller) code st of
           (Inl e, st1) \<Rightarrow> (ActixError 500, st1)
         | (Inr ok, st1) \<Rightarrow>
             (if ok then Reply 200 () else ErrorReply 401 ''mfa_failed'',
              audit E app rq 0 (Some (ac_id caller)) ''mfa.verify'' None
                (if ok then AuditOk else AuditDenied) None st1)))"

section \<open>Unique keys\<close>

definition acct_inv :: "'a acct_state_scheme \<Rightarrow> bool" where
  "acct_inv st \<longleftrightarrow> distinct (map cl_id (clients st)) \<and> distinct (map cl_name_id (clients st))
     \<and> distinct (map cl_token_hash (clients st))
     \<and> distinct (map dm_id (domains st)) \<and> distinct (map dm_name_id (domains st))
     \<and> distinct (map (\<lambda>m. (mb_domain m, mb_client m)) (members st))"

lemma audit_acct [simp]:
  "clients (audit E app rq k c a r s m st) = clients st"
  "domains (audit E app rq k c a r s m st) = domains st"
  "members (audit E app rq k c a r s m st) = members st"
  by (simp_all add: audit_def Let_def split: sum.splits)

lemma acct_inv_audit [simp]: "acct_inv (audit E app rq k c a r s m st) = acct_inv st"
  by (simp add: acct_inv_def)

lemma distinct_snoc_key:
  "distinct (map f (xs @ [x])) \<longleftrightarrow> distinct (map f xs) \<and> \<not> list_ex (\<lambda>y. f y = f x) xs"
  by (auto simp: list_ex_iff image_iff)

lemma distinct_upsert:
  "distinct (map (\<lambda>m. (mb_domain m, mb_client m)) ms) \<Longrightarrow>
     distinct (map (\<lambda>m. (mb_domain m, mb_client m)) (upsert_member rq d c role ms))"
  by (auto simp: upsert_member_def distinct_snoc_key map_update_where list_ex_iff is_member_def)

lemma distinct_insert_member:
  "distinct (map (\<lambda>m. (mb_domain m, mb_client m)) ms) \<Longrightarrow>
     distinct (map (\<lambda>m. (mb_domain m, mb_client m)) (insert_member rq d c role ms))"
  by (auto simp: insert_member_def distinct_snoc_key list_ex_iff is_member_def)

lemma upsert_member_inv: "acct_inv st \<Longrightarrow>
    acct_inv (st\<lparr>members := upsert_member rq d c role (members st)\<rparr>)"
  by (simp add: acct_inv_def distinct_upsert)

lemma new_user_domain_inv:
  "acct_inv st \<Longrightarrow> acct_inv (snd (new_user_domain E app rq n st))"
  by (auto simp: new_user_domain_def Let_def acct_inv_def list_ex_iff image_iff find_None_iff
      split: sum.splits option.splits)

lemma ensure_user_domain_inv:
  assumes "ensure_user_domain E app rq i n st = (res, st')" and "acct_inv st"
  shows "acct_inv st'"
  using assms new_user_domain_inv [OF assms(2), of E app rq n]
  by (auto simp: ensure_user_domain_def Let_def upsert_member_inv
      split: prod.splits sum.splits option.splits)

lemma join_default_inv: "acct_inv st \<Longrightarrow> acct_inv (join_default E app rq i st)"
  by (auto simp: join_default_def acct_inv_def distinct_insert_member split: option.splits)

lemma add_client_inv:
  "acct_inv st \<Longrightarrow> \<not> list_ex (client_conflict row) (clients st) \<Longrightarrow>
     acct_inv (st\<lparr>clients := clients st @ [row]\<rparr>)"
  by (auto simp: acct_inv_def client_conflict_def list_ex_iff image_iff)

lemma create_client_inv:
  assumes "create_client E app rq name role ttl st = (res, st')" and "acct_inv st"
  shows "acct_inv st'"
  using assms
  by (auto simp: create_client_def Let_def join_default_inv add_client_inv
      dest!: ensure_user_domain_inv split: if_splits prod.splits sum.splits)

lemma bootstrap_inv:
  assumes "bootstrap_admin_if_needed E app rq st = (res, st')" and "acct_inv st"
  shows "acct_inv st'"
  using assms
  by (auto simp: bootstrap_admin_if_needed_def Let_def add_client_inv
      dest!: ensure_user_domain_inv split: if_splits prod.splits sum.splits)

lemma distinct_update_key:
  assumes "distinct (map g rows)" and "distinct (map h rows)"
    and "\<not> list_ex (\<lambda>q. g q \<noteq> i \<and> h q = v) rows" and "\<And>q. h (f q) = v"
  shows "distinct (map h (update_where (\<lambda>q. g q = i) f rows))"
  using assms
proof (induction rows)
  case (Cons a rows)
  have g: "\<forall>q \<in> set rows. g q \<noteq> g a" and h: "\<forall>q \<in> set rows. h q \<noteq> h a"
    using Cons.prems(1,2) by (auto simp: image_iff)
  have none: "\<forall>q \<in> set (a # rows). g q = i \<or> h q \<noteq> v"
    using Cons.prems(3) by (auto simp: list_ex_iff)
  have "h (f a) \<noteq> h r" if "g a = i" "r \<in> set (update_where (\<lambda>q. g q = i) f rows)" for r
    using that g none Cons.prems(4) by (simp add: set_update_where) metis
  moreover have "h a \<noteq> h r" if "g a \<noteq> i" "r \<in> set (update_where (\<lambda>q. g q = i) f rows)" for r
    using that h none Cons.prems(4) by (simp add: set_update_where) metis
  moreover have "distinct (map h (update_where (\<lambda>q. g q = i) f rows))"
    using Cons by simp
  ultimately show ?case by auto
qed simp

lemma rotate_client_inv:
  assumes "rotate_client E app rq name ttl st = (res, st')" and "acct_inv st"
  shows "acct_inv st'"
  using assms
  by (auto simp: rotate_client_def acct_inv_def Let_def map_update_where
      intro!: distinct_update_key split: if_splits prod.splits sum.splits option.splits)

lemma update_clients_inv:
  assumes "acct_inv st" and "\<And>r. cl_id (f r) = cl_id r" and "\<And>r. cl_name_id (f r) = cl_name_id r"
    and "\<And>r. cl_token_hash (f r) = cl_token_hash r"
  shows "acct_inv (st\<lparr>clients := update_where P f (clients st)\<rparr>)"
  using assms by (simp add: acct_inv_def map_update_where)

lemma enroll_totp_inv:
  assumes "enroll_totp E rq kek i n st = (res, st')" and "acct_inv st"
  shows "acct_inv st'"
  using assms
  by (auto simp: enroll_totp_def Let_def update_clients_inv split: sum.splits option.splits)

lemma verify_totp_inv:
  assumes "verify_totp E rq kek i code st = (res, st')" and "acct_inv st"
  shows "acct_inv st'"
  using assms
  by (auto simp: verify_totp_def update_clients_inv split: sum.splits option.splits if_splits)

section \<open>Reachable tables\<close>

text \<open>One management request against the tables, from bootstrap to enrolment.\<close>

inductive acct_step :: "ext \<Rightarrow> app \<Rightarrow> acct_state \<Rightarrow> acct_state \<Rightarrow> bool" for E app where
  boot: "bootstrap_admin_if_needed E app rq st = (res, st') \<Longrightarrow> acct_step E app st st'"
| create: "create_client_endpoint E app rq name role ttl caller st = (resp, st') \<Longrightarrow> acct_step E app st st'"
| rotate: "rotate_client_endpoint E app rq name ttl caller st = (resp, st') \<Longrightarrow> acct_step E app st st'"
| revoke: "revoke_client_endpoint E app rq name caller st = (resp, st') \<Longrightarrow> acct_step E app st st'"
| new_domain: "create_domain E app rq name desc caller st = (resp, st') \<Longrightarrow> acct_step E app st st'"
| add_member: "add_domain_member E app rq d c role caller st = (resp, st') \<Longrightarrow> acct_step E app st st'"
| remove_member: "remove_domain_member E app rq d c caller st = (resp, st') \<Longrightarrow> acct_step E app st st'"
| enroll: "mfa_enroll E app rq caller st = (resp, st') \<Longrightarrow> acct_step E app st st'"
| verify_code: "mfa_verify E app rq code caller st = (resp, st') \<Longrightarrow> acct_step E app st st'"

lemma create_client_endpoint_inv:
  "create_client_endpoint E app rq name role ttl caller st = (resp, st') \<Longrightarrow> acct_inv st \<Longrightarrow> acct_inv st'"
  by (auto simp: create_client_endpoint_def dest!: create_client_inv
      split: option.splits if_splits prod.splits sum.splits auth_op_error.splits)

lemma rotate_client_endpoint_inv:
  "rotate_client_endpoint E app rq name ttl caller st = (resp, st') \<Longrightarrow> acct_inv st \<Longrightarrow> acct_inv st'"
  by (auto simp: rotate_client_endpoint_def dest!: rotate_client_inv
      split: option.splits if_splits prod.splits sum.splits)

lemma revoke_client_endpoint_inv:
  "revoke_client_endpoint E app rq name caller st = (resp, st') \<Longrightarrow> acct_inv st \<Longrightarrow> acct_inv st'"
  by (auto simp: revoke_client_endpoint_def Let_def update_clients_inv split: option.splits if_splits)

lemma add_domain_inv:
  assumes "acct_inv st" and "\<not> list_ex (\<lambda>d. dm_id d = dm_id row \<or> dm_name_id d = dm_name_id row) (domains st)"
  shows "acct_inv (st\<lparr>domains := domains st @ [row]\<rparr>)"
  using assms by (auto simp: acct_inv_def list_ex_iff image_iff)

lemma create_domain_inv:
  "create_domain E app rq name desc caller st = (resp, st') \<Longrightarrow> acct_inv st \<Longrightarrow> acct_inv st'"
  by (auto simp: create_domain_def Let_def intro!: add_domain_inv
      split: option.splits if_splits sum.splits)

lemma domain_member_inv:
  "add_domain_member E app rq d c role caller st = (resp, st') \<Longrightarrow> acct_inv st \<Longrightarrow> acct_inv st'"
  "remove_domain_member E app rq d c caller st = (resp', st'') \<Longrightarrow> acct_inv st \<Longrightarrow> acct_inv st''"
  by (auto simp: add_domain_member_def remove_domain_member_def Let_def upsert_member_inv
      split: option.splits if_splits)
    (simp_all add: acct_inv_def distinct_map_delete_where)

lemma mfa_inv:
  "mfa_enroll E app rq caller st = (resp, st') \<Longrightarrow> acct_inv st \<Longrightarrow> acct_inv st'"
  "mfa_verify E app rq code caller st = (resp', st'') \<Longrightarrow> acct_inv st \<Longrightarrow> acct_inv st''"
  by (auto simp: mfa_enroll_def mfa_verify_def dest!: enroll_totp_inv verify_totp_inv
      split: sum.splits prod.splits)

lemma acct_step_inv: "acct_step E app st st' \<Longrightarrow> acct_inv st \<Longrightarrow> acct_inv st'"
  by (induction rule: acct_step.induct)
    (auto dest: bootstrap_inv create_client_endpoint_inv rotate_client_endpoint_inv
      revoke_client_endpoint_inv create_domain_inv domain_member_inv mfa_inv)

section \<open>Who can authenticate\<close>

interpretation acct: step_invariant "acct_step E app" acct_inv for E app
  by unfold_locales (rule acct_step_inv)

lemma unique_row:
  assumes "distinct (map f rows)" and "r \<in> set rows" and "q \<in> set rows" and "f q = f r"
  shows "q = r"
  using assms by (auto simp: distinct_map inj_on_def)

lemma as_client_SomeD:
  "as_client E app rq row = Some ac \<Longrightarrow> \<exists>r. row = Some r \<and> \<not> expired rq (cl_expires r)
     \<and> ac_id ac = cl_id r \<and> ac_role ac = cl_role r
     \<and> dec_str E (metadata_enc_key app) (cl_name_enc r) = Inr (ac_name ac)"
  by (auto simp: as_client_def split: option.splits if_splits sum.splits)

text \<open>The row a certificate and a token of one client select.\<close>

definition credentials_of ::
    "ext \<Rightarrow> app \<Rightarrow> request \<Rightarrow> peer_cert \<Rightarrow> string \<Rightarrow> client_row \<Rightarrow> bool" where
  "credentials_of E app rq p t r \<longleftrightarrow>
     cl_name_id r = client_name_id_hex E (name_index_key app) (common_name p)
     \<and> cl_fingerprint r = Some (fingerprint p) \<and> cl_token_hash r = hash_token E t
     \<and> cl_revoked r = None \<and> \<not> expired rq (cl_expires r)"

lemma strip_prefix_Some: "strip_prefix pre s = Some t \<longleftrightarrow> s = pre @ t"
  unfolding strip_prefix_def by (metis append_eq_conv_conj option.distinct(1) option.inject)

lemma match_factors_Inr:
  "match_factors c t = Inr ac \<longleftrightarrow> (\<exists>a b. c = Some a \<and> t = Some b \<and> ac_id a = ac_id b
     \<and> ac = a\<lparr>ac_method := MutualTlsAndToken\<rparr>)"
  by (cases c; cases t) auto

lemma case_option_Some:
  "(case x of None \<Rightarrow> None | Some y \<Rightarrow> f y) = Some z \<longleftrightarrow> (\<exists>y. x = Some y \<and> f y = Some z)"
  by (cases x) auto

lemma from_request_Inr:
  "from_request E app rq peer header st = Inr ac \<longleftrightarrow> (\<exists>p h t c b. peer = Some p \<and> header = Some h
     \<and> strip_prefix ''Bearer '' h = Some t \<and> lookup_by_cn E app rq p st = Some c
     \<and> lookup_by_token E app rq t st = Some b \<and> ac_id c = ac_id b
     \<and> ac = c\<lparr>ac_method := MutualTlsAndToken\<rparr>)"
  unfolding from_request_def Let_def match_factors_Inr case_option_Some by blast

lemma find_by_key:
  assumes "distinct (map f rows)" and "r \<in> set rows" and "P r" and "\<And>q. P q \<Longrightarrow> f q = f r"
  shows "List.find P rows = Some r"
proof (rule find_unique [where P = P, OF assms(2,3)])
  show "q = r" if "q \<in> set rows" "P q" for q
    using unique_row [OF assms(1,2) that(1)] assms(4) [OF that(2)] by simp
qed

lemma from_request_InrD:
  assumes "from_request E app rq peer header st = Inr ac" and "acct_inv st"
  shows "\<exists>p t r. peer = Some p \<and> header = Some (''Bearer '' @ t) \<and> r \<in> set (clients st)
    \<and> credentials_of E app rq p t r \<and> ac_id ac = cl_id r \<and> ac_role ac = cl_role r
    \<and> dec_str E (metadata_enc_key app) (cl_name_enc r) = Inr (ac_name ac)"
proof -
  obtain p h t c b where p: "peer = Some p" and h: "header = Some h" "h = ''Bearer '' @ t"
    and c: "lookup_by_cn E app rq p st = Some c" and b: "lookup_by_token E app rq t st = Some b"
    and same: "ac_id c = ac_id b" and ac: "ac = c\<lparr>ac_method := MutualTlsAndToken\<rparr>"
    using assms(1) unfolding from_request_Inr strip_prefix_Some by blast
  obtain r where r: "r \<in> set (clients st)" "cl_fingerprint r = Some (fingerprint p)"
      "cl_name_id r = client_name_id_hex E (name_index_key app) (common_name p)"
      "cl_revoked r = None" "\<not> expired rq (cl_expires r)" "ac_id c = cl_id r" "ac_role c = cl_role r"
      "dec_str E (metadata_enc_key app) (cl_name_enc r) = Inr (ac_name c)"
    using c unfolding lookup_by_cn_def by (auto dest!: as_client_SomeD find_SomeD)
  obtain q where q: "q \<in> set (clients st)" "cl_token_hash q = hash_token E t" "ac_id b = cl_id q"
    using b unfolding lookup_by_token_def by (auto dest!: as_client_SomeD find_SomeD)
  have "q = r"
    using unique_row [of cl_id "clients st" r q] assms(2) r(1,6) q(1,3) same
    by (simp add: acct_inv_def)
  with r q have "credentials_of E app rq p t r" by (simp add: credentials_of_def)
  with r p h ac show ?thesis by (intro exI [of _ p] exI [of _ t] exI [of _ r]) simp
qed

lemma from_request_complete:
  assumes "acct_inv st" and "r \<in> set (clients st)" and "credentials_of E app rq p t r"
    and "dec_str E (metadata_enc_key app) (cl_name_enc r) = Inr name"
  shows "from_request E app rq (Some p) (Some (''Bearer '' @ t)) st
    = Inr \<lparr>ac_id = cl_id r, ac_name = name, ac_role = cl_role r, ac_method = MutualTlsAndToken\<rparr>"
proof -
  let ?ac = "\<lparr>ac_id = cl_id r, ac_name = name, ac_role = cl_role r, ac_method = MutualTlsAndToken\<rparr>"
  have d: "distinct (map cl_name_id (clients st))" "distinct (map cl_token_hash (clients st))"
    using assms(1) by (simp_all add: acct_inv_def)
  have "as_client E app rq (Some r) = Some ?ac"
    using assms(3,4) by (simp add: as_client_def credentials_of_def)
  moreover have "List.find (\<lambda>r. cl_name_id r = client_name_id_hex E (name_index_key app) (common_name p)
      \<and> cl_fingerprint r = Some (fingerprint p) \<and> cl_revoked r = None) (clients st) = Some r"
    using assms(3) by (intro find_by_key [OF d(1) assms(2)]) (auto simp: credentials_of_def)
  moreover have "List.find (\<lambda>r. cl_token_hash r = hash_token E t \<and> cl_revoked r = None) (clients st)
      = Some r"
    using assms(3) by (intro find_by_key [OF d(2) assms(2)]) (auto simp: credentials_of_def)
  ultimately have "lookup_by_cn E app rq p st = Some ?ac" "lookup_by_token E app rq t st = Some ?ac"
    by (simp_all add: lookup_by_cn_def lookup_by_token_def)
  then show ?thesis unfolding from_request_Inr strip_prefix_Some by fastforce
qed

section \<open>What creating a client establishes\<close>

lemma ensure_user_domain_clients:
  "ensure_user_domain E app rq i n st = (res, st') \<Longrightarrow> clients st' = clients st"
  by (auto simp: ensure_user_domain_def new_user_domain_def Let_def
      split: prod.splits sum.splits option.splits if_splits)

lemma join_default_keeps [simp]:
  "clients (join_default E app rq i st) = clients st"
  "domains (join_default E app rq i st) = domains st"
  by (simp_all add: join_default_def split: option.splits)

lemma domain_by_name_eq:
  assumes "acct_inv st" and "d \<in> set (domains st)" and "dm_archived d = None"
    and "dm_name_id d = domain_name_id_hex E (name_index_key app) name"
  shows "domain_by_name E app name st = Some d"
proof -
  have "distinct (map dm_name_id (domains st))" using assms(1) by (simp add: acct_inv_def)
  then show ?thesis
    unfolding domain_by_name_def using assms(3,4)
    by (intro find_by_key [where f = dm_name_id, OF _ assms(2)]) auto
qed

lemma upsert_member_admin:
  "list_ex (\<lambda>m. mb_client m = c \<and> mb_domain m = d \<and> mb_role m = role) (upsert_member rq d c role ms)"
proof (cases "list_ex (is_member d c) ms")
  case True
  then obtain m where "m \<in> set ms" "is_member d c m" by (auto simp: list_ex_iff)
  then have "m\<lparr>mb_role := role\<rparr> \<in> set (upsert_member rq d c role ms)"
    using True by (force simp: upsert_member_def set_update_where)
  with \<open>is_member d c m\<close> show ?thesis
    unfolding list_ex_iff by (intro bexI [of _ "m\<lparr>mb_role := role\<rparr>"]) (simp_all add: is_member_def)
qed (simp add: upsert_member_def)

lemma ensure_user_domain_admin:
  assumes "ensure_user_domain E app rq i n st = (Inr dn, st')" and "acct_inv st"
    and "\<forall>d \<in> set (domains st). dm_archived d = None"
  shows "\<exists>d. resolve_domain E app (user_domain_name n) st' = Some d
    \<and> list_ex (\<lambda>m. mb_client m = i \<and> mb_domain m = d \<and> mb_role m = ''admin'') (members st')"
proof -
  have inv': "acct_inv st'" using ensure_user_domain_inv [OF assms(1,2)] .
  have "\<exists>d. d \<in> set (domains st') \<and> dm_archived d = None
      \<and> dm_name_id d = domain_name_id_hex E (name_index_key app) (user_domain_name n)
      \<and> list_ex (\<lambda>m. mb_client m = i \<and> mb_domain m = dm_id d \<and> mb_role m = ''admin'') (members st')"
    using assms(1,3)
    by (auto simp: ensure_user_domain_def new_user_domain_def Let_def domain_by_name_def
        upsert_member_admin dest!: find_SomeD
        split: prod.splits sum.splits option.splits if_splits)
  then show ?thesis using domain_by_name_eq [OF inv'] by (auto simp: resolve_domain_def)
qed

lemma create_client_row:
  assumes "create_client E app rq name role ttl st = (Inr nc, st')" and "acct_inv st"
  shows "\<exists>pem key fp name_enc st1.
    issue_cert E name (case ttl of Some t \<Rightarrow> t | None \<Rightarrow> default_ttl_days role) (rand rq 2 32)
      = Some (pem, key, fp)
    \<and> aead_seal E (rand rq 3 12) (as_bytes name) (metadata_enc_key app) = Inr name_enc
    \<and> client_row_of E app rq name role name_enc
        (expiry rq (case ttl of Some t \<Rightarrow> t | None \<Rightarrow> default_ttl_days role)) fp \<in> set (clients st')
    \<and> nc_id nc = hex_encode E (rand rq 1 16) \<and> nc_token nc = generate_token E (rand rq 0 32)
    \<and> acct_inv st1 \<and> domains st1 = domains st
    \<and> ensure_user_domain E app rq (nc_id nc) name st1 = (Inr (nc_user_domain nc), st')"
proof -
  let ?ttl = "case ttl of Some t \<Rightarrow> t | None \<Rightarrow> default_ttl_days role"
  obtain pem key fp name_enc where c: "issue_cert E name ?ttl (rand rq 2 32) = Some (pem, key, fp)"
      "aead_seal E (rand rq 3 12) (as_bytes name) (metadata_enc_key app) = Inr name_enc"
    and n: "\<not> list_ex (client_conflict (client_row_of E app rq name role name_enc (expiry rq ?ttl) fp)) (clients st)"
    and e: "ensure_user_domain E app rq (nc_id nc) name (join_default E app rq (nc_id nc)
        (st\<lparr>clients := clients st @ [client_row_of E app rq name role name_enc (expiry rq ?ttl) fp]\<rparr>))
        = (Inr (nc_user_domain nc), st')"
    and i: "nc_id nc = hex_encode E (rand rq 1 16)" "nc_token nc = generate_token E (rand rq 0 32)"
    using assms(1)
    by (auto simp: create_client_def Let_def issue_client_cert_def client_row_of_def
        split: if_splits sum.splits prod.splits)
  then show ?thesis
    using ensure_user_domain_clients [OF e] join_default_inv [OF add_client_inv [OF assms(2) n]]
    by fastforce
qed

section \<open>Properties\<close>

text \<open>
  C5. A request is authenticated exactly when it carries a certificate and a bearer token
  that both belong to one client row, whose name is the certificate's common name, that is
  neither revoked nor expired and whose name decrypts; the identity and role handed to the
  handlers are those of that row.
\<close>

theorem authenticated_iff:
  assumes "acct_inv st"
  shows "from_request E app rq peer header st = Inr ac \<longleftrightarrow>
    (\<exists>p t r name. peer = Some p \<and> header = Some (''Bearer '' @ t) \<and> r \<in> set (clients st)
      \<and> credentials_of E app rq p t r
      \<and> dec_str E (metadata_enc_key app) (cl_name_enc r) = Inr name
      \<and> ac = \<lparr>ac_id = cl_id r, ac_name = name, ac_role = cl_role r,
              ac_method = MutualTlsAndToken\<rparr>)"
    (is "?L \<longleftrightarrow> ?R")
proof
  assume ?L
  then obtain p t r where "peer = Some p" "header = Some (''Bearer '' @ t)" "r \<in> set (clients st)"
      "credentials_of E app rq p t r" "ac_id ac = cl_id r" "ac_role ac = cl_role r"
      "dec_str E (metadata_enc_key app) (cl_name_enc r) = Inr (ac_name ac)"
    using from_request_InrD [OF _ assms] by blast
  moreover have "ac_method ac = MutualTlsAndToken" by (cases "ac_method ac")
  ultimately show ?R
    by (intro exI [of _ p] exI [of _ t] exI [of _ r] exI [of _ "ac_name ac"]) simp
next
  assume ?R
  then show ?L using from_request_complete [OF assms] by blast
qed

text \<open>
  Rotation replaces both factors: after a client has been rotated, whoever
  authenticates under its id presents the new certificate's fingerprint and a token with
  the new token's hash.
\<close>

theorem rotation_invalidates:
  assumes "acct_inv st" and "rotate_client E app rq name ttl st = (Inr (Some nc), st')"
    and "issue_cert E name (case ttl of Some t \<Rightarrow> t | None \<Rightarrow> default_ttl_days (nc_role nc)) (rand rq 2 32)
           = Some (pem, key, fp)"
    and "from_request E app rq' (Some p) (Some (''Bearer '' @ t)) st' = Inr ac"
    and "ac_id ac = nc_id nc"
  shows "fingerprint p = fp \<and> hash_token E t = hash_token E (nc_token nc)"
proof -
  obtain r where r: "active_client E app name st = Some r" "nc_id nc = cl_id r" "nc_role nc = cl_role r"
      "nc_token nc = generate_token E (rand rq 0 32)"
      "clients st' = update_where (\<lambda>q. cl_id q = cl_id r)
         (\<lambda>q. q\<lparr>cl_token_hash := hash_token E (nc_token nc),
           cl_expires := Some (expiry rq (case ttl of Some t \<Rightarrow> t | None \<Rightarrow> default_ttl_days (cl_role r))),
           cl_fingerprint := Some fp\<rparr>) (clients st)"
    using assms(2,3)
    by (auto simp: rotate_client_def Let_def issue_client_cert_def
        split: option.splits sum.splits prod.splits if_splits)
  have "acct_inv st'" using rotate_client_inv [OF assms(2,1)] .
  from from_request_InrD [OF assms(4) this] obtain q where "q \<in> set (clients st')"
      and cred: "credentials_of E app rq' p t q" and "ac_id ac = cl_id q"
    by auto
  moreover from this(1) obtain q0 where "q = (if cl_id q0 = cl_id r then q0\<lparr>
      cl_token_hash := hash_token E (nc_token nc),
      cl_expires := Some (expiry rq (case ttl of Some t \<Rightarrow> t | None \<Rightarrow> default_ttl_days (cl_role r))),
      cl_fingerprint := Some fp\<rparr> else q0)"
    unfolding r(5) set_update_where by blast
  ultimately have "cl_fingerprint q = Some fp \<and> cl_token_hash q = hash_token E (nc_token nc)"
    using r(2) assms(5) by (cases "cl_id q0 = cl_id r") simp_all
  with cred show ?thesis by (simp add: credentials_of_def)
qed

text \<open>
  Revocation is immediate and complete: after a successful revocation no request,
  whatever it carries, authenticates as the revoked client.
\<close>

theorem revocation_effective:
  assumes "acct_inv st" and "active_client E app name st = Some r"
    and "revoke_client_endpoint E app rq name caller st = (Reply 200 b, st')"
    and "from_request E app rq' peer header st' = Inr ac"
  shows "ac_id ac \<noteq> cl_id r"
proof
  assume same: "ac_id ac = cl_id r"
  let ?P = "\<lambda>r. cl_name_id r = client_name_id_hex E (name_index_key app) name \<and> cl_revoked r = None"
  have cl: "clients st' = update_where ?P (\<lambda>r. r\<lparr>cl_revoked := Some (now rq)\<rparr>) (clients st)"
    using assms(3) by (auto simp: revoke_client_endpoint_def Let_def require_admin_def split: option.splits if_splits)
  have r: "r \<in> set (clients st)" "?P r"
    using assms(2) by (auto simp: active_client_def dest: find_SomeD)
  have inv': "acct_inv st'" using revoke_client_endpoint_inv [OF assms(3,1)] .
  obtain q where q: "q \<in> set (clients st')" "cl_revoked q = None" "cl_id q = cl_id r"
    using from_request_InrD [OF assms(4) inv'] same by (auto simp: credentials_of_def)
  let ?r = "r\<lparr>cl_revoked := Some (now rq)\<rparr>"
  have "?r \<in> set (clients st')" using r by (force simp: cl set_update_where)
  then have "q = ?r"
    using unique_row [of cl_id "clients st'" ?r q] inv' q(1,3) by (simp add: acct_inv_def)
  with q(2) show False by simp
qed

text \<open>
  A created client can use what it was given: with the issued certificate and token it
  authenticates under its id, name and role until the credentials expire, and it
  administers its private domain.
\<close>

theorem created_client_authenticates:
  assumes "gcm_law E" and "acct_inv st" and "create_client E app rq name role ttl st = (Inr nc, st')"
    and "issue_cert E name (case ttl of Some t \<Rightarrow> t | None \<Rightarrow> default_ttl_days role) (rand rq 2 32)
           = Some (pem, key, fp)"
    and "utf8_str name"
    and "now rq' < expiry rq (case ttl of Some t \<Rightarrow> t | None \<Rightarrow> default_ttl_days role)"
    and "\<forall>d \<in> set (domains st). dm_archived d = None"
  shows "\<exists>ac d. from_request E app rq' (Some \<lparr>common_name = name, fingerprint = fp\<rparr>)
      (Some (''Bearer '' @ nc_token nc)) st' = Inr ac
    \<and> ac_id ac = nc_id nc \<and> ac_name ac = name \<and> ac_role ac = role
    \<and> resolve_domain E app (user_domain_name name) st' = Some d \<and> domain_admin ac d st'"
proof -
  let ?ttl = "case ttl of Some t \<Rightarrow> t | None \<Rightarrow> default_ttl_days role"
  obtain name_enc st1 where c: "aead_seal E (rand rq 3 12) (as_bytes name) (metadata_enc_key app) = Inr name_enc"
      "client_row_of E app rq name role name_enc (expiry rq ?ttl) fp \<in> set (clients st')"
      "nc_id nc = hex_encode E (rand rq 1 16)" "nc_token nc = generate_token E (rand rq 0 32)"
      "acct_inv st1" "domains st1 = domains st"
      "ensure_user_domain E app rq (nc_id nc) name st1 = (Inr (nc_user_domain nc), st')"
    using create_client_row [OF assms(3,2)] assms(4) by auto
  let ?r = "client_row_of E app rq name role name_enc (expiry rq ?ttl) fp"
  have "dec_str E (metadata_enc_key app) (cl_name_enc ?r) = Inr name"
    using dec_enc_str [OF assms(1), of "rand rq 3 12"] c(1) assms(5)
    by (simp add: client_row_of_def enc_str_def enc_field_def)
  moreover have "credentials_of E app rq' \<lparr>common_name = name, fingerprint = fp\<rparr> (nc_token nc) ?r"
    using assms(6) c(4) by (simp add: credentials_of_def client_row_of_def expired_def)
  ultimately have "from_request E app rq' (Some \<lparr>common_name = name, fingerprint = fp\<rparr>)
      (Some (''Bearer '' @ nc_token nc)) st' = Inr \<lparr>ac_id = nc_id nc, ac_name = name,
        ac_role = role, ac_method = MutualTlsAndToken\<rparr>"
    using from_request_complete [OF ensure_user_domain_inv [OF c(7,5)] c(2)] c(3)
    by (simp add: client_row_of_def)
  moreover obtain d where "resolve_domain E app (user_domain_name name) st' = Some d"
      "list_ex (\<lambda>m. mb_client m = nc_id nc \<and> mb_domain m = d \<and> mb_role m = ''admin'') (members st')"
    using ensure_user_domain_admin [OF c(7,5)] c(6) assms(7) by auto
  ultimately show ?thesis by (auto simp: domain_admin_def)
qed

definition acct_init :: acct_state where
  "acct_init = \<lparr>audit_log = [], audit_next = 1, anchors = [], archive_files = [],
     clients = [], domains = [], members = []\<rparr>"

section \<open>Instances\<close>

text \<open>Two clients, an administrator and a user, with the credentials named after them.\<close>

definition demo_client :: "string \<Rightarrow> string \<Rightarrow> client_row" where
  "demo_client name role = \<lparr>cl_id = name, cl_name_enc = zeros 12 @ as_bytes name @ zeros 16,
     cl_name_id = client_name_id_hex demo_ext (name_index_key demo_app) name,
     cl_token_hash = hash_token demo_ext name, cl_role = role, cl_created = 0, cl_revoked = None,
     cl_expires = Some 1000, cl_fingerprint = Some name, cl_totp_enc = None,
     cl_totp_enrolled = False\<rparr>"

definition demo_acct :: acct_state where
  "demo_acct = acct_init\<lparr>clients := [demo_client ''root'' ''admin'', demo_client ''bob'' ''user'']\<rparr>"

definition demo_peer :: "string \<Rightarrow> peer_cert" where
  "demo_peer name = \<lparr>common_name = name, fingerprint = name\<rparr>"

lemma demo_acct_inv: "acct_inv demo_acct"
proof -
  have "client_name_id_hex demo_ext [4] ''root'' \<noteq> client_name_id_hex demo_ext [4] ''bob''"
    and "hash_token demo_ext ''root'' \<noteq> hash_token demo_ext ''bob''"
    by code_simp+
  then show ?thesis
    by (simp add: acct_inv_def demo_acct_def acct_init_def demo_client_def demo_app_def)
qed

lemma demo_client_credentials:
  "credentials_of demo_ext demo_app (demo_rq 5) (demo_peer name) name (demo_client name role)"
  by (simp add: credentials_of_def demo_peer_def demo_client_def expired_def demo_rq_def)

lemma demo_client_name:
  assumes "utf8_str name"
  shows "dec_str demo_ext (metadata_enc_key demo_app) (cl_name_enc (demo_client name role)) = Inr name"
  using assms by (simp add: dec_str_def dec_field_def aead_open_def demo_client_def demo_app_def
      demo_ext_def zeros_def)

lemma demo_names: "utf8_str ''root''" "utf8_str ''bob''"
  by (simp_all add: ascii_utf8)

theorem authenticated_iff_witness:
  "from_request demo_ext demo_app (demo_rq 5) (Some (demo_peer ''bob'')) (Some (''Bearer '' @ ''bob''))
     demo_acct = Inr \<lparr>ac_id = ''bob'', ac_name = ''bob'', ac_role = ''user'',
       ac_method = MutualTlsAndToken\<rparr>"
proof -
  have "demo_client ''bob'' ''user'' \<in> set (clients demo_acct)"
    "cl_id (demo_client ''bob'' ''user'') = ''bob''" "cl_role (demo_client ''bob'' ''user'') = ''user''"
    by (simp_all add: demo_acct_def) (simp_all add: demo_client_def)
  then show ?thesis
    using demo_client_credentials [of "''bob''" "''user''"] demo_client_name [OF demo_names(2), of "''user''"]
    by (intro authenticated_iff [OF demo_acct_inv, THEN iffD2] exI [of _ "demo_peer ''bob''"]
        exI [of _ "''bob''"] exI [of _ "demo_client ''bob'' ''user''"]) simp
qed

text \<open>Rotation of \<open>bob\<close>, whose new certificate carries the fingerprint of 32 zero bytes.\<close>

definition demo_rotated :: "(auth_op_error + new_client option) \<times> acct_state" where
  "demo_rotated = rotate_client demo_ext demo_app (demo_rq 5) ''bob'' None demo_acct"

lemma demo_bob:
  "active_client demo_ext demo_app ''bob'' demo_acct = Some (demo_client ''bob'' ''user'')"
proof -
  have "client_name_id_hex demo_ext [4] ''root'' \<noteq> client_name_id_hex demo_ext [4] ''bob''"
    by code_simp
  then show ?thesis by (simp add: active_client_def demo_acct_def demo_client_def demo_app_def)
qed

definition demo_bob_new :: client_row where
  "demo_bob_new = (demo_client ''bob'' ''user'')\<lparr>
     cl_token_hash := hash_token demo_ext (generate_token demo_ext (zeros 32)),
     cl_expires := Some (expiry (demo_rq 5) 30), cl_fingerprint := Some (str_of (zeros 32))\<rparr>"

lemma demo_draw: "rand (demo_rq t) i n = zeros n"
  by (simp add: rand_def demo_rq_def zeros_def)

lemma demo_cert: "issue_cert demo_ext cn ttl rnd = Some (''pem'', ''key'', str_of rnd)"
  by (simp add: demo_ext_def)

lemma demo_rotation:
  "\<exists>nc st'. demo_rotated = (Inr (Some nc), st') \<and> nc_id nc = ''bob'' \<and> nc_role nc = ''user''
    \<and> nc_token nc = generate_token demo_ext (zeros 32) \<and> demo_bob_new \<in> set (clients st')"
proof -
  let ?h = "hash_token demo_ext (generate_token demo_ext (zeros 32))"
  let ?f = "\<lambda>q. q\<lparr>cl_token_hash := ?h, cl_expires := Some (expiry (demo_rq 5) 30),
    cl_fingerprint := Some (str_of (zeros 32))\<rparr>"
  let ?b = "demo_client ''bob'' ''user''"
  have h: "hash_token demo_ext ''root'' \<noteq> ?h" by code_simp
  have b: "cl_id ?b = ''bob''" "cl_role ?b = ''user''" by (simp_all add: demo_client_def)
  have "clients demo_acct = [demo_client ''root'' ''admin'', ?b]" by (simp add: demo_acct_def)
  then have ex: "\<not> list_ex (\<lambda>q. cl_id q \<noteq> cl_id ?b \<and> cl_token_hash q = ?h) (clients demo_acct)"
    and up: "?f ?b \<in> set (update_where (\<lambda>q. cl_id q = cl_id ?b) ?f (clients demo_acct))"
    using h by (simp_all add: demo_client_def)
  show ?thesis
    using ex up unfolding demo_rotated_def rotate_client_def demo_bob demo_bob_new_def
    by (simp add: Let_def issue_client_cert_def demo_cert demo_draw b default_ttl_days_def)
qed

theorem rotation_invalidates_witness:
  "\<exists>nc st' ac. demo_rotated = (Inr (Some nc), st')
    \<and> from_request demo_ext demo_app (demo_rq 6) (Some \<lparr>common_name = ''bob'', fingerprint = str_of (zeros 32)\<rparr>)
        (Some (''Bearer '' @ nc_token nc)) st' = Inr ac \<and> ac_id ac = nc_id nc
    \<and> hash_token demo_ext (nc_token nc) = hash_token demo_ext (generate_token demo_ext (zeros 32))"
proof -
  let ?p = "\<lparr>common_name = ''bob'', fingerprint = str_of (zeros 32)\<rparr>"
  obtain nc st' where rot: "demo_rotated = (Inr (Some nc), st')" and nc: "nc_id nc = ''bob''"
      "nc_role nc = ''user''" "nc_token nc = generate_token demo_ext (zeros 32)"
      and r: "demo_bob_new \<in> set (clients st')"
    using demo_rotation by blast
  have inv: "acct_inv st'"
    using rotate_client_inv [OF rot [unfolded demo_rotated_def] demo_acct_inv] .
  have "credentials_of demo_ext demo_app (demo_rq 6) ?p (nc_token nc) demo_bob_new"
    by (simp add: credentials_of_def nc expired_def expiry_def demo_rq_def demo_bob_new_def demo_client_def)
  moreover have "dec_str demo_ext (metadata_enc_key demo_app) (cl_name_enc demo_bob_new) = Inr ''bob''"
    using demo_client_name [OF demo_names(2)] by (simp add: demo_bob_new_def)
  ultimately have ok: "from_request demo_ext demo_app (demo_rq 6) (Some ?p) (Some (''Bearer '' @ nc_token nc)) st'
      = Inr \<lparr>ac_id = cl_id demo_bob_new, ac_name = ''bob'', ac_role = cl_role demo_bob_new,
          ac_method = MutualTlsAndToken\<rparr>"
    by (rule from_request_complete [OF inv r])
  have i: "cl_id demo_bob_new = ''bob''" by (simp add: demo_bob_new_def demo_client_def)
  have cert: "issue_cert demo_ext ''bob'' (case None of Some t \<Rightarrow> t | None \<Rightarrow> default_ttl_days (nc_role nc))
      (rand (demo_rq 5) 2 32) = Some (''pem'', ''key'', str_of (zeros 32))"
    by (simp add: demo_cert demo_draw)
  have "hash_token demo_ext (nc_token nc) = hash_token demo_ext (nc_token nc)"
    using rotation_invalidates [OF demo_acct_inv rot [unfolded demo_rotated_def] cert ok] i nc(1) by simp
  then show ?thesis
    using rot ok nc(1,3) i by (intro exI conjI) (assumption | simp)+
qed

theorem revocation_effective_witness:
  "\<exists>st' ac. revoke_client_endpoint demo_ext demo_app (demo_rq 5) ''bob'' demo_admin demo_acct
      = (Reply 200 ''bob'', st')
    \<and> from_request demo_ext demo_app (demo_rq 5) (Some (demo_peer ''root'')) (Some (''Bearer '' @ ''root'')) st'
      = Inr ac \<and> ac_id ac \<noteq> ''bob''"
proof -
  let ?P = "\<lambda>r. cl_name_id r = client_name_id_hex demo_ext (name_index_key demo_app) ''bob'' \<and> cl_revoked r = None"
  have "rows_affected ?P (clients demo_acct) \<noteq> 0"
    using demo_bob by (auto simp: active_client_def rows_affected_0 dest!: find_SomeD)
  then obtain st' where st': "revoke_client_endpoint demo_ext demo_app (demo_rq 5) ''bob'' demo_admin demo_acct
      = (Reply 200 ''bob'', st')" and cl: "clients st' = update_where ?P
        (\<lambda>r. r\<lparr>cl_revoked := Some (now (demo_rq 5))\<rparr>) (clients demo_acct)"
    by (simp add: revoke_client_endpoint_def demo_admin_def require_admin_def is_admin_def Let_def)
  have "client_name_id_hex demo_ext [4] ''root'' \<noteq> client_name_id_hex demo_ext [4] ''bob''"
    by code_simp
  then have "demo_client ''root'' ''admin'' \<in> set (clients st')"
    by (simp add: cl demo_acct_def demo_client_def demo_app_def)
  note ok = from_request_complete [OF revoke_client_endpoint_inv [OF st' demo_acct_inv] this
      demo_client_credentials demo_client_name [OF demo_names(1)]]
  from revocation_effective [OF demo_acct_inv demo_bob st' ok] ok st' show ?thesis
    by (auto simp: demo_client_def)
qed

lemma demo_seal_Inr: "aead_seal demo_ext n m (zeros 32) = Inr (n @ m @ zeros 16)"
  by (simp add: aead_seal_def aead_seal_nonce_def demo_ext_def zeros_def)

lemma demo_create_client:
  "\<exists>nc st'. create_client demo_ext demo_app (demo_rq 5) ''eve'' ''user'' None acct_init = (Inr nc, st')"
proof -
  have m: "metadata_enc_key demo_app = zeros 32" by (simp add: demo_app_def)
  show ?thesis
    by (simp add: create_client_def Let_def issue_client_cert_def demo_cert demo_draw m demo_seal_Inr
        starts_with_def user_domain_prefix_def acct_init_def join_default_def domain_by_name_def
        ensure_user_domain_def new_user_domain_def upsert_member_def)
qed

theorem created_client_authenticates_witness:
  "\<exists>nc st' ac d. create_client demo_ext demo_app (demo_rq 5) ''eve'' ''user'' None acct_init = (Inr nc, st')
    \<and> from_request demo_ext demo_app (demo_rq 6)
        (Some \<lparr>common_name = ''eve'', fingerprint = str_of (zeros 32)\<rparr>) (Some (''Bearer '' @ nc_token nc)) st'
      = Inr ac
    \<and> resolve_domain demo_ext demo_app (user_domain_name ''eve'') st' = Some d \<and> domain_admin ac d st'"
proof -
  obtain nc st' where c: "create_client demo_ext demo_app (demo_rq 5) ''eve'' ''user'' None acct_init = (Inr nc, st')"
    using demo_create_client by blast
  have "issue_cert demo_ext ''eve'' (case None of Some t \<Rightarrow> t | None \<Rightarrow> default_ttl_days ''user'')
      (rand (demo_rq 5) 2 32) = Some (''pem'', ''key'', str_of (zeros 32))"
    by (simp add: demo_cert demo_draw)
  moreover have "acct_inv acct_init" "\<forall>d \<in> set (domains acct_init). dm_archived d = None"
    by (simp_all add: acct_inv_def acct_init_def)
  moreover have "utf8_str ''eve''" by (simp add: ascii_utf8)
  moreover have "now (demo_rq 6) < expiry (demo_rq 5) (case None of Some t \<Rightarrow> t | None \<Rightarrow> default_ttl_days ''user'')"
    by (simp add: expiry_def demo_rq_def default_ttl_days_def)
  ultimately show ?thesis
    using created_client_authenticates [OF demo_laws(3) _ c] c by blast
qed

end
