(* ===== verification/Acl.thy ===== *)
theory Acl
  imports Accounts Glob Cron
begin

unbundle bit_operations_syntax

text \<open>
  Access rules: the decision \<open>acl_check\<close> with its time window, schedule, rate limit and use
  budget, the bookkeeping \<open>acl_record_use\<close> (\<open>auth.rs\<close>), and the handlers that grant, list
  and revoke rules (\<open>server.rs\<close>). A specification of its own says when a rule applies; the lemmas
  show that the query with its loop decides exactly this, and how far the counters of a row that
  is recorded after every use admit further uses.
\<close>

section \<open>Actions\<close>

datatype acl_action = Create | Read | Update | Delete

fun action_bit :: "acl_action \<Rightarrow> int" where
  "action_bit Create = 1"
| "action_bit Read = 2"
| "action_bit Update = 4"
| "action_bit Delete = 8"

fun action_name :: "acl_action \<Rightarrow> string" where
  "action_name Create = ''create''"
| "action_name Read = ''read''"
| "action_name Update = ''update''"
| "action_name Delete = ''delete''"

definition parse_action :: "string \<Rightarrow> acl_action option" where
  "parse_action a =
     (let s = to_ascii_lowercase a
      in if s = ''create'' then Some Create
         else if s = ''read'' then Some Read
         else if s = ''update'' then Some Update
         else if s = ''delete'' then Some Delete
         else None)"

fun parse_mask :: "int \<Rightarrow> string list \<Rightarrow> int option" where
  "parse_mask bits [] = Some bits"
| "parse_mask bits (a # as) = (case parse_action a of
      None \<Rightarrow> None
    | Some x \<Rightarrow> parse_mask (bits OR action_bit x) as)"

definition parse_actions :: "string list \<Rightarrow> int option" where
  "parse_actions actions = (case parse_mask 0 actions of
      None \<Rightarrow> None
    | Some bits \<Rightarrow> if bits = 0 then None else Some bits)"

definition actions_from_mask :: "int \<Rightarrow> string list" where
  "actions_from_mask bits =
     map action_name (filter (\<lambda>a. bits AND action_bit a \<noteq> 0) [Create, Read, Update, Delete])"

section \<open>Rules and the decision\<close>

record acl_row =
  acl_id :: string
  acl_domain :: string
  acl_client :: "string option"
  acl_group :: "string option"
  acl_pattern_enc :: bytes
  acl_actions :: int
  acl_expires :: "int option"
  acl_not_before :: "int option"
  acl_max_uses :: "int option"
  acl_use_count :: int
  acl_granted_at :: int
  acl_granted_by :: "string option"
  acl_rate_max :: "int option"
  acl_rate_period :: "int option"
  acl_rate_count :: int
  acl_rate_start :: "int option"
  acl_schedule :: "string option"

record acl_state = acct_state +
  acls :: "acl_row list"

datatype acl_decision = AllowedAdmin | AllowedDomainAdmin | Allowed string | Denied

definition is_allowed :: "acl_decision \<Rightarrow> bool" where
  "is_allowed d \<longleftrightarrow> d \<noteq> Denied"

definition rate_ok :: "int option \<Rightarrow> int option \<Rightarrow> int \<Rightarrow> int option \<Rightarrow> int \<Rightarrow> bool" where
  "rate_ok rate_max rate_period rate_count window_start t =
     (case rate_max of
        None \<Rightarrow> True
      | Some mx \<Rightarrow>
        (case rate_period of
           None \<Rightarrow> True
         | Some period \<Rightarrow>
             if mx \<le> 0 \<or> period \<le> 0 then True
             else (case window_start of
                     None \<Rightarrow> True
                   | Some ws \<Rightarrow>
                       if t - ws \<ge> period * 1000000 then True else rate_count < mx)))"

text \<open>The \<open>WHERE\<close> clause of \<open>acl_check\<close>.\<close>

definition acl_candidate ::
    "request \<Rightarrow> authenticated_client \<Rightarrow> string \<Rightarrow> acl_action \<Rightarrow> 'a acl_state_scheme \<Rightarrow> acl_row \<Rightarrow> bool" where
  "acl_candidate rq c domain_id action st a \<longleftrightarrow>
     acl_domain a = domain_id
     \<and> (acl_client a = Some (ac_id c)
        \<or> (case acl_group a of
             None \<Rightarrow> False
           | Some g \<Rightarrow> list_ex (is_member g (ac_id c)) (members st)))
     \<and> acl_actions a AND action_bit action \<noteq> 0
     \<and> (case acl_expires a of None \<Rightarrow> True | Some e \<Rightarrow> e > now rq)
     \<and> (case acl_not_before a of None \<Rightarrow> True | Some b \<Rightarrow> b \<le> now rq)
     \<and> (case acl_max_uses a of None \<Rightarrow> True | Some m \<Rightarrow> acl_use_count a < m)"

text \<open>The body of the loop over the candidates: whether the rule is not skipped.\<close>

definition acl_matches :: "ext \<Rightarrow> app \<Rightarrow> request \<Rightarrow> string \<Rightarrow> acl_row \<Rightarrow> bool" where
  "acl_matches E app rq resource_name a =
     (case aead_open E (acl_pattern_enc a) (metadata_enc_key app) of
        Inl e \<Rightarrow> False
      | Inr b \<Rightarrow>
        (case from_utf8 b of
           None \<Rightarrow> False
         | Some pattern \<Rightarrow>
             sql_like_match pattern resource_name
             \<and> (case acl_schedule a of
                  None \<Rightarrow> True
                | Some sched \<Rightarrow>
                    (case cron_window_matches E sched (now rq) of Inl e \<Rightarrow> False | Inr ok \<Rightarrow> ok))
             \<and> rate_ok (acl_rate_max a) (acl_rate_period a) (acl_rate_count a) (acl_rate_start a)
                 (now rq)))"

definition acl_check ::
    "ext \<Rightarrow> app \<Rightarrow> request \<Rightarrow> authenticated_client \<Rightarrow> string \<Rightarrow> string \<Rightarrow> acl_action
      \<Rightarrow> 'a acl_state_scheme \<Rightarrow> acl_decision" where
  "acl_check E app rq c domain_id resource_name action st =
     (if is_admin c then AllowedAdmin
      else if list_ex (\<lambda>m. mb_client m = ac_id c \<and> mb_domain m = domain_id \<and> mb_role m = ''admin'')
                (members st) then AllowedDomainAdmin
      else
        let candidates = rev (sort_key acl_granted_at
              (filter (acl_candidate rq c domain_id action st) (acls st)))
        in case List.find (acl_matches E app rq resource_name) candidates of
             Some a \<Rightarrow> Allowed (acl_id a)
           | None \<Rightarrow> Denied)"

section \<open>Recording a use\<close>

text \<open>Whether the stored window has elapsed, or has never started.\<close>

definition window_over :: "int \<Rightarrow> int option \<Rightarrow> int \<Rightarrow> bool" where
  "window_over period ws t = (case ws of None \<Rightarrow> True | Some s \<Rightarrow> s + period * 1000000 \<le> t)"

text \<open>
  The \<open>UPDATE\<close> of \<open>acl_record_use\<close>. The counters are \<open>INTEGER\<close>: when one would leave its
  range the statement fails, the failure is logged, and the row stays as it was.
\<close>

definition acl_bump :: "int \<Rightarrow> acl_row \<Rightarrow> acl_row" where
  "acl_bump t a =
     (let a' = (case acl_rate_period a of
                  None \<Rightarrow> a
                | Some period \<Rightarrow>
                    if window_over period (acl_rate_start a) t
                    then a\<lparr>acl_rate_start := Some t, acl_rate_count := 1\<rparr>
                    else a\<lparr>acl_rate_count := acl_rate_count a + 1\<rparr>);
          a'' = a'\<lparr>acl_use_count := acl_use_count a + 1\<rparr>
      in if acl_use_count a'' \<le> i32_max \<and> acl_rate_count a'' \<le> i32_max then a'' else a)"

definition acl_record_use ::
    "request \<Rightarrow> acl_decision \<Rightarrow> 'a acl_state_scheme \<Rightarrow> 'a acl_state_scheme" where
  "acl_record_use rq d st = (case d of
      Allowed i \<Rightarrow> st\<lparr>acls := update_where (\<lambda>a. acl_id a = i) (acl_bump (now rq)) (acls st)\<rparr>
    | _ \<Rightarrow> st)"

section \<open>Handlers\<close>

record grant_request =
  gq_client_name :: "string option"
  gq_group_domain :: "string option"
  gq_domain :: "string option"
  gq_pattern :: string
  gq_actions :: "string list"
  gq_expires_at :: "string option"
  gq_not_before :: "string option"
  gq_max_uses :: "int option"
  gq_rate_max :: "int option"
  gq_rate_period :: "int option"
  gq_schedule :: "string option"

definition parse_rfc3339_opt :: "ext \<Rightarrow> string option \<Rightarrow> int option option" where
  "parse_rfc3339_opt E s = (case s of
      None \<Rightarrow> Some None
    | Some s \<Rightarrow> (case parse_rfc3339 E s of None \<Rightarrow> None | Some t \<Rightarrow> Some (Some t)))"

text \<open>The subject of a rule: a client by name or the members of a domain.\<close>

definition grant_subject ::
    "ext \<Rightarrow> app \<Rightarrow> grant_request \<Rightarrow> 'a acl_state_scheme
      \<Rightarrow> string response + (string option \<times> string option)" where
  "grant_subject E app g st = (case gq_client_name g of
      Some name \<Rightarrow>
        (case active_client E app name st of
           None \<Rightarrow> Inl (ErrorReply 404 ''not_found'')
         | Some r \<Rightarrow> Inr (Some (cl_id r), None))
    | None \<Rightarrow>
        (case resolve_domain E app (the (gq_group_domain g)) st of
           None \<Rightarrow> Inl (ErrorReply 404 ''no_such_domain'')
         | Some gid \<Rightarrow> Inr (None, Some gid)))"

definition join_comma :: "string list \<Rightarrow> string" where
  "join_comma xs = (case xs of [] \<Rightarrow> [] | x # r \<Rightarrow> x @ concat (map (\<lambda>y. CHR '','' # y) r))"

text \<open>The part of \<open>grant_acl\<close> after authorisation.\<close>

definition grant_insert ::
    "ext \<Rightarrow> app \<Rightarrow> request \<Rightarrow> grant_request \<Rightarrow> authenticated_client \<Rightarrow> int \<Rightarrow> string \<Rightarrow> string
      \<Rightarrow> 'a acl_state_scheme \<Rightarrow> string response \<times> 'a acl_state_scheme" where
  "grant_insert E app rq g caller bits domain_name domain_id st =
     (case grant_subject E app g st of
        Inl resp \<Rightarrow> (resp, st)
      | Inr (client_id, group_domain_id) \<Rightarrow>
        (case (parse_rfc3339_opt E (gq_expires_at g), parse_rfc3339_opt E (gq_not_before g)) of
           (Some expires_at, Some not_before) \<Rightarrow>
             if (gq_rate_max g \<noteq> None) \<noteq> (gq_rate_period g \<noteq> None)
             then (ErrorReply 400 ''validation_error'', st)
             else if (case gq_schedule g of
                        None \<Rightarrow> False
                      | Some sched \<Rightarrow>
                          (case cron_window_matches E sched (now rq) of Inl e \<Rightarrow> True | Inr ok \<Rightarrow> False))
             then (ErrorReply 400 ''validation_error'', st)
             else
               let i = hex_encode E (rand rq 0 12)
               in case enc_str E (rand rq 1 12) (metadata_enc_key app) (gq_pattern g) of
                    Inl e \<Rightarrow> (ActixError 500, st)
                  | Inr pattern_enc \<Rightarrow>
                      if list_ex (\<lambda>a. acl_id a = i) (acls st) then (ActixError 500, st)
                      else
                        (Reply 201 i,
                         audit E app rq 0 (Some (ac_id caller)) ''acl.grant'' (Some (gq_pattern g)) AuditOk
                           (Some (''domain='' @ domain_name @ '' ''
                              @ (case gq_client_name g of
                                   Some c \<Rightarrow> ''client='' @ c
                                 | None \<Rightarrow> (case gq_group_domain g of Some d \<Rightarrow> ''group='' @ d | None \<Rightarrow> []))
                              @ '' actions='' @ join_comma (gq_actions g)))
                           (st\<lparr>acls := acls st @
                             [\<lparr>acl_id = i, acl_domain = domain_id, acl_client = client_id,
                               acl_group = group_domain_id, acl_pattern_enc = pattern_enc,
                               acl_actions = bits, acl_expires = expires_at,
                               acl_not_before = not_before, acl_max_uses = gq_max_uses g,
                               acl_use_count = 0, acl_granted_at = now rq,
                               acl_granted_by = Some (ac_id caller), acl_rate_max = gq_rate_max g,
                               acl_rate_period = gq_rate_period g, acl_rate_count = 0,
                               acl_rate_start = None, acl_schedule = gq_schedule g\<rparr>]\<rparr>))
         | _ \<Rightarrow> (ErrorReply 400 ''validation_error'', st)))"

definition grant_acl ::
    "ext \<Rightarrow> app \<Rightarrow> request \<Rightarrow> grant_request \<Rightarrow> authenticated_client
      \<Rightarrow> 'a acl_state_scheme \<Rightarrow> string response \<times> 'a acl_state_scheme" where
  "grant_acl E app rq g caller st =
     (case parse_actions (gq_actions g) of
        None \<Rightarrow> (ErrorReply 400 ''validation_error'', st)
      | Some bits \<Rightarrow>
          if (gq_client_name g \<noteq> None) = (gq_group_domain g \<noteq> None)
          then (ErrorReply 400 ''validation_error'', st)
          else
            let domain_name = domain_query (gq_domain g)
            in case resolve_domain E app domain_name st of
                 None \<Rightarrow> (ErrorReply 404 ''no_such_domain'', st)
               | Some domain_id \<Rightarrow>
                 (case require_domain_admin caller domain_id st of
                    Some resp \<Rightarrow>
                      (resp, audit E app rq 0 (Some (ac_id caller)) ''acl.grant'' (Some (gq_pattern g))
                         AuditDenied (Some ''not a domain admin'') st)
                  | None \<Rightarrow> grant_insert E app rq g caller bits domain_name domain_id st))"

record acl_summary =
  as_id :: string
  as_domain :: string
  as_client_name :: "string option"
  as_group_domain :: "string option"
  as_pattern :: string
  as_actions :: "string list"
  as_rule :: acl_row

definition lookup_enc :: "('r \<Rightarrow> string) \<Rightarrow> ('r \<Rightarrow> bytes) \<Rightarrow> 'r list \<Rightarrow> string option \<Rightarrow> bytes option" where
  "lookup_enc key enc rows i = (case i of
      None \<Rightarrow> None
    | Some i \<Rightarrow> map_option enc (List.find (\<lambda>r. key r = i) rows))"

definition list_acl ::
    "ext \<Rightarrow> app \<Rightarrow> authenticated_client \<Rightarrow> 'a acl_state_scheme \<Rightarrow> acl_summary list response" where
  "list_acl E app caller st =
     (let ids = admin_domain_ids caller st; k = metadata_enc_key app
      in if \<not> is_admin caller \<and> ids = [] then ErrorReply 403 ''forbidden''
         else Reply 200 (concat (map (\<lambda>a.
           (case List.find (\<lambda>d. dm_id d = acl_domain a) (domains st) of
              None \<Rightarrow> []
            | Some d \<Rightarrow>
                [\<lparr>as_id = acl_id a, as_domain = name_or_mark E app (dm_name_enc d),
                  as_client_name = dec_or_none E k (lookup_enc cl_id cl_name_enc (clients st) (acl_client a)),
                  as_group_domain = dec_or_none E k (lookup_enc dm_id dm_name_enc (domains st) (acl_group a)),
                  as_pattern = name_or_mark E app (acl_pattern_enc a),
                  as_actions = actions_from_mask (acl_actions a), as_rule = a\<rparr>]))
           (rev (sort_key acl_granted_at
             (filter (\<lambda>a. is_admin caller \<or> acl_domain a \<in> set ids) (acls st)))))))"

definition revoke_acl ::
    "ext \<Rightarrow> app \<Rightarrow> request \<Rightarrow> string \<Rightarrow> authenticated_client
      \<Rightarrow> 'a acl_state_scheme \<Rightarrow> unit response \<times> 'a acl_state_scheme" where
  "revoke_acl E app rq i caller st =
     (case List.find (\<lambda>a. acl_id a = i) (acls st) of
        None \<Rightarrow> (ErrorReply 404 ''not_found'', st)
      | Some a \<Rightarrow>
        (case require_domain_admin caller (acl_domain a) st of
           Some resp \<Rightarrow>
             (resp, audit E app rq 0 (Some (ac_id caller)) ''acl.revoke'' (Some i) AuditDenied
                (Some ''not a domain admin'') st)
         | None \<Rightarrow>
             if rows_affected (\<lambda>a. acl_id a = i) (acls st) = 0 then (ErrorReply 404 ''not_found'', st)
             else (Reply 200 (),
                   audit E app rq 0 (Some (ac_id caller)) ''acl.revoke'' (Some i) AuditOk None
                     (st\<lparr>acls := delete_where (\<lambda>a. acl_id a = i) (acls st)\<rparr>))))"

section \<open>What the decision means\<close>

text \<open>
  A rule in the words of its documentation, stated apart from the query: the position of an
  action's bit, the rate limit as a condition on a running window, the schedule as \<open>Cron\<close> denotes
  it, the pattern by the textbook relation.
\<close>

fun action_pos :: "acl_action \<Rightarrow> nat" where
  "action_pos Create = 0"
| "action_pos Read = 1"
| "action_pos Update = 2"
| "action_pos Delete = 3"

definition rule_applies ::
    "ext \<Rightarrow> app \<Rightarrow> request \<Rightarrow> authenticated_client \<Rightarrow> string \<Rightarrow> string \<Rightarrow> acl_action
      \<Rightarrow> 'a acl_state_scheme \<Rightarrow> acl_row \<Rightarrow> bool" where
  "rule_applies E app rq c domain_id resource_name action st a \<longleftrightarrow>
     acl_domain a = domain_id
     \<and> (acl_client a = Some (ac_id c)
        \<or> (\<exists>g m. acl_group a = Some g \<and> m \<in> set (members st) \<and> mb_domain m = g \<and> mb_client m = ac_id c))
     \<and> bit (acl_actions a) (action_pos action)
     \<and> (\<forall>e. acl_expires a = Some e \<longrightarrow> now rq < e)
     \<and> (\<forall>b. acl_not_before a = Some b \<longrightarrow> b \<le> now rq)
     \<and> (\<forall>n. acl_max_uses a = Some n \<longrightarrow> acl_use_count a < n)
     \<and> (\<exists>pattern. dec_str E (metadata_enc_key app) (acl_pattern_enc a) = Inr pattern
          \<and> glob (chars pattern) (chars resource_name))
     \<and> (\<forall>sched. acl_schedule a = Some sched \<longrightarrow> schedule_admits (split_whitespace sched) (civil E (now rq)))
     \<and> (\<forall>n p s. acl_rate_max a = Some n \<and> acl_rate_period a = Some p \<and> acl_rate_start a = Some s
          \<and> 0 < n \<and> 0 < p \<and> now rq < s + p * 1000000 \<longrightarrow> acl_rate_count a < n)"

lemma action_bit_pos: "x AND action_bit action \<noteq> 0 \<longleftrightarrow> bit x (action_pos action)"
proof -
  have "action_bit action = 2 ^ action_pos action" by (cases action) simp_all
  then show ?thesis by (simp add: and_exp_eq_0_iff_not_bit)
qed

lemma candidate_iff:
  "acl_candidate rq c d action st a \<longleftrightarrow> acl_domain a = d
     \<and> (acl_client a = Some (ac_id c)
        \<or> (\<exists>g m. acl_group a = Some g \<and> m \<in> set (members st) \<and> mb_domain m = g \<and> mb_client m = ac_id c))
     \<and> bit (acl_actions a) (action_pos action)
     \<and> (\<forall>e. acl_expires a = Some e \<longrightarrow> now rq < e)
     \<and> (\<forall>b. acl_not_before a = Some b \<longrightarrow> b \<le> now rq)
     \<and> (\<forall>n. acl_max_uses a = Some n \<longrightarrow> acl_use_count a < n)"
  unfolding acl_candidate_def action_bit_pos
  by (auto simp: list_ex_iff is_member_def split: option.splits)

lemma rate_iff:
  "rate_ok (acl_rate_max a) (acl_rate_period a) (acl_rate_count a) (acl_rate_start a) t \<longleftrightarrow>
     (\<forall>n p s. acl_rate_max a = Some n \<and> acl_rate_period a = Some p \<and> acl_rate_start a = Some s
        \<and> 0 < n \<and> 0 < p \<and> t < s + p * 1000000 \<longrightarrow> acl_rate_count a < n)"
  by (auto simp: rate_ok_def split: option.splits)

lemma schedule_iff:
  "(case x of None \<Rightarrow> True | Some sched \<Rightarrow> cron_window_matches E sched t = Inr True) \<longleftrightarrow>
     (\<forall>sched. x = Some sched \<longrightarrow> schedule_admits (split_whitespace sched) (civil E t))"
  by (cases x) (simp_all add: cron_window_admits)

lemma case_answer: "(case r of Inl e \<Rightarrow> False | Inr ok \<Rightarrow> ok) \<longleftrightarrow> r = Inr True"
  by (cases r) auto

lemma acl_matches_eq:
  "acl_matches E app rq name a \<longleftrightarrow>
     (case dec_str E (metadata_enc_key app) (acl_pattern_enc a) of
        Inl e \<Rightarrow> False
      | Inr pattern \<Rightarrow> sql_like_match pattern name)
     \<and> (case acl_schedule a of
          None \<Rightarrow> True
        | Some sched \<Rightarrow> cron_window_matches E sched (now rq) = Inr True)
     \<and> rate_ok (acl_rate_max a) (acl_rate_period a) (acl_rate_count a) (acl_rate_start a) (now rq)"
proof (cases "aead_open E (acl_pattern_enc a) (metadata_enc_key app)")
  case (Inr b)
  then show ?thesis
    by (cases "from_utf8 b"; cases "acl_schedule a")
      (simp_all add: acl_matches_def dec_str_def dec_field_def case_answer)
qed (simp add: acl_matches_def dec_str_def dec_field_def)

lemma acl_matches_sound:
  "acl_candidate rq c d x st a \<Longrightarrow> acl_matches E app rq name a \<Longrightarrow> rule_applies E app rq c d name x st a"
  unfolding acl_matches_eq candidate_iff rule_applies_def schedule_iff rate_iff
  by (cases "dec_str E (metadata_enc_key app) (acl_pattern_enc a)") (simp_all add: sql_like_match_def glob_chars_sound)

lemma rule_candidate: "rule_applies E app rq c d name x st a \<Longrightarrow> acl_candidate rq c d x st a"
  unfolding candidate_iff rule_applies_def by blast

lemma acl_matches_complete:
  assumes "''*'' \<notin> set (chars name)" and "rule_applies E app rq c d name x st a"
  shows "acl_matches E app rq name a"
proof -
  obtain pattern where p: "dec_str E (metadata_enc_key app) (acl_pattern_enc a) = Inr pattern"
      "glob (chars pattern) (chars name)"
    using assms(2) unfolding rule_applies_def by blast
  then show ?thesis
    using assms unfolding acl_matches_eq schedule_iff rate_iff rule_applies_def
    by (simp add: sql_like_match_def glob_chars_exact)
qed

lemma acl_check_Allowed:
  assumes "acl_check E app rq c d name x st = Allowed i"
  shows "\<exists>a \<in> set (acls st). acl_id a = i \<and> acl_candidate rq c d x st a \<and> acl_matches E app rq name a"
  using assms
  by (auto simp: acl_check_def Let_def dest!: find_SomeD split: if_splits option.splits)

lemma acl_check_Denied:
  assumes "acl_check E app rq c d name x st = Denied" and "a \<in> set (acls st)"
    and "acl_candidate rq c d x st a"
  shows "\<not> acl_matches E app rq name a"
  using assms
  by (auto simp: acl_check_def Let_def find_None_iff split: if_splits option.splits)

section \<open>Sequences of uses\<close>

text \<open>A row that admits a use at each of these times, and is recorded after each.\<close>

definition unspent :: "acl_row \<Rightarrow> bool" where
  "unspent a \<longleftrightarrow> (case acl_max_uses a of None \<Rightarrow> True | Some m \<Rightarrow> acl_use_count a < m)"

fun row_admits :: "acl_row \<Rightarrow> int list \<Rightarrow> bool" where
  "row_admits a [] = True"
| "row_admits a (t # ts) = (unspent a
     \<and> rate_ok (acl_rate_max a) (acl_rate_period a) (acl_rate_count a) (acl_rate_start a) t
     \<and> row_admits (acl_bump t a) ts)"

lemma acl_bump_keeps [simp]:
  "acl_id (acl_bump t a) = acl_id a" "acl_max_uses (acl_bump t a) = acl_max_uses a"
  "acl_rate_max (acl_bump t a) = acl_rate_max a" "acl_rate_period (acl_bump t a) = acl_rate_period a"
  by (simp_all add: acl_bump_def Let_def split: option.splits)

lemma record_ids [simp]: "map acl_id (acls (acl_record_use rq d st)) = map acl_id (acls st)"
  by (simp add: acl_record_use_def map_update_where split: acl_decision.splits)

lemma record_row:
  assumes "a \<in> set (acls st)"
  shows "(if d = Allowed (acl_id a) then acl_bump (now rq) a else a) \<in> set (acls (acl_record_use rq d st))"
proof (cases "d = Allowed (acl_id a)")
  case True
  then show ?thesis using assms by (auto simp: acl_record_use_def set_update_where)
next
  case False
  then show ?thesis
    using assms by (force simp: acl_record_use_def set_update_where split: acl_decision.splits)
qed

lemma admitted_row:
  assumes "distinct (map acl_id (acls st))" and "a \<in> set (acls st)"
    and "acl_check E app rq c d name x st = Allowed (acl_id a)"
  shows "unspent a" and "rate_ok (acl_rate_max a) (acl_rate_period a) (acl_rate_count a) (acl_rate_start a) (now rq)"
proof -
  obtain b where b: "b \<in> set (acls st)" "acl_id b = acl_id a" "acl_candidate rq c d x st b" "acl_matches E app rq name b"
    using acl_check_Allowed [OF assms(3)] by blast
  then have "b = a" using unique_row [OF assms(1,2)] by simp
  then show "unspent a" "rate_ok (acl_rate_max a) (acl_rate_period a) (acl_rate_count a) (acl_rate_start a) (now rq)"
    using b(3,4) by (auto simp: acl_candidate_def unspent_def acl_matches_def split: sum.splits option.splits)
qed

section \<open>The use budget\<close>

lemma acl_bump_counts:
  assumes "acl_use_count a < i32_max" and "acl_rate_count a < i32_max"
  shows "acl_use_count (acl_bump t a) = acl_use_count a + 1"
    and "acl_rate_count (acl_bump t a) \<le> max 1 (acl_rate_count a + 1)"
  using assms by (auto simp: acl_bump_def Let_def i32_max_def split: option.splits)

lemma row_admits_budget:
  assumes "row_admits a ts" and "acl_max_uses a = Some m" and "acl_use_count a \<le> m" and "m \<le> i32_max"
    and "0 \<le> acl_rate_count a" and "acl_rate_count a + int (length ts) \<le> i32_max"
  shows "int (length ts) \<le> m - acl_use_count a"
  using assms
proof (induction ts arbitrary: a)
  case (Cons t ts)
  have u: "acl_use_count a < m" using Cons.prems(1,2) by (simp add: unspent_def)
  have "acl_use_count a < i32_max" "acl_rate_count a < i32_max"
    using u Cons.prems(4,6) by simp_all
  note b = acl_bump_counts [OF this, of t]
  have "0 \<le> acl_rate_count (acl_bump t a)"
    using Cons.prems(5) by (auto simp: acl_bump_def Let_def split: option.splits)
  then have "int (length ts) \<le> m - acl_use_count (acl_bump t a)"
    using Cons.IH [of "acl_bump t a"] Cons.prems u b by auto
  with b(1) show ?case by simp
qed simp

section \<open>The rate limit\<close>

definition in_span :: "int \<Rightarrow> int \<Rightarrow> int list \<Rightarrow> nat" where
  "in_span w len ts = length (filter (\<lambda>t. w \<le> t \<and> t < w + len) ts)"

lemma in_span_simps [simp]:
  "in_span w len [] = 0"
  "in_span w len (t # ts) = (if w \<le> t \<and> t < w + len then 1 else 0) + in_span w len ts"
  by (simp_all add: in_span_def)

text \<open>A row with a working limit of \<open>m\<close> uses in \<open>p\<close> seconds, whose counters do not overflow
  while \<open>n\<close> more uses are recorded.\<close>

definition limited :: "int \<Rightarrow> int \<Rightarrow> nat \<Rightarrow> acl_row \<Rightarrow> bool" where
  "limited m p n a \<longleftrightarrow> acl_rate_max a = Some m \<and> acl_rate_period a = Some p
     \<and> 0 < m \<and> m \<le> i32_max \<and> 0 < p \<and> acl_use_count a + int n \<le> i32_max"

lemma limited_bump:
  assumes "limited m p (Suc n) a" and "acl_rate_start a = Some s" and "acl_rate_count a \<le> m"
    and "rate_ok (acl_rate_max a) (acl_rate_period a) (acl_rate_count a) (acl_rate_start a) t"
  shows "limited m p n (acl_bump t a)"
    and "s + p * 1000000 \<le> t \<Longrightarrow> acl_rate_start (acl_bump t a) = Some t \<and> acl_rate_count (acl_bump t a) = 1"
    and "t < s + p * 1000000 \<Longrightarrow> acl_rate_start (acl_bump t a) = Some s
          \<and> acl_rate_count (acl_bump t a) = acl_rate_count a + 1 \<and> acl_rate_count a < m"
  using assms
  by (auto simp: limited_def acl_bump_def Let_def window_over_def rate_ok_def i32_max_def split: if_splits)

lemma first_bump:
  assumes "limited m p (Suc n) a" and "acl_rate_start a = None"
  shows "limited m p n (acl_bump t a)"
    and "acl_rate_start (acl_bump t a) = Some t \<and> acl_rate_count (acl_bump t a) = 1"
  using assms
  by (auto simp: limited_def acl_bump_def Let_def window_over_def i32_max_def)

lemma early_span:
  assumes "row_admits a ts" and "sorted (s # ts)" and "limited m p (length ts) a"
    and "acl_rate_start a = Some s" and "acl_rate_count a \<le> m" and "w \<le> s"
  shows "int (in_span w (p * 1000000) ts) \<le> m - acl_rate_count a"
  using assms
proof (induction ts arbitrary: a)
  case (Cons t ts)
  let ?P = "p * 1000000"
  show ?case
  proof (cases "s + ?P \<le> t")
    case True
    then have "\<And>u. u \<in> set (t # ts) \<Longrightarrow> w + ?P \<le> u" using Cons.prems(2,6) by force
    then have "in_span w ?P (t # ts) = 0" unfolding in_span_def by (force simp: filter_empty_conv)
    then show ?thesis using Cons.prems(5) by simp
  next
    case False
    note b = limited_bump [of m p "length ts" a s t]
    have "int (in_span w ?P ts) \<le> m - acl_rate_count (acl_bump t a)"
      using Cons.IH [of "acl_bump t a"] Cons.prems False b by auto
    then show ?thesis using False b Cons.prems by auto
  qed
qed simp

lemma any_span:
  assumes "row_admits a ts" and "sorted (s # ts)" and "limited m p (length ts) a"
    and "acl_rate_start a = Some s" and "1 \<le> acl_rate_count a" and "acl_rate_count a \<le> m"
  shows "int (in_span w (p * 1000000) ts)
           + (if w < s + p * 1000000 then acl_rate_count a else 1) \<le> 2 * m"
  using assms
proof (induction ts arbitrary: a s)
  case (Cons t ts)
  let ?P = "p * 1000000"
  let ?a = "acl_bump t a"
  note b = limited_bump [of m p "length ts" a s t]
  have adm: "row_admits ?a ts" and ok: "limited m p (length ts) ?a" using Cons.prems b by auto
  show ?case
  proof (cases "s + ?P \<le> t")
    case True
    then have n: "acl_rate_start ?a = Some t" "acl_rate_count ?a = 1" using b Cons.prems by auto
    show ?thesis
    proof (cases "w \<le> t")
      case True
      have "int (in_span w ?P ts) \<le> m - 1"
        using early_span [OF adm _ ok n(1) _ True] n Cons.prems by simp
      then show ?thesis using Cons.prems(5,6) by auto
    next
      case False
      have "int (in_span w ?P ts) + 1 \<le> 2 * m"
        using Cons.IH [OF adm _ ok n(1)] n Cons.prems by (auto split: if_splits)
      then show ?thesis using False \<open>s + ?P \<le> t\<close> by auto
    qed
  next
    case False
    then have n: "acl_rate_start ?a = Some s" "acl_rate_count ?a = acl_rate_count a + 1" "acl_rate_count a < m"
      using b Cons.prems by auto
    have "int (in_span w ?P ts) + (if w < s + ?P then acl_rate_count a + 1 else 1) \<le> 2 * m"
      using Cons.IH [OF adm _ ok n(1)] n Cons.prems by (simp split: if_splits)
    then show ?thesis using False by (auto split: if_splits)
  qed
qed simp

lemma row_admits_rate:
  assumes "row_admits a ts" and "sorted ts" and "limited m p (length ts) a" and "acl_rate_start a = None"
  shows "int (in_span w (p * 1000000) ts) \<le> 2 * m - 1"
proof (cases ts)
  case (Cons t us)
  let ?a = "acl_bump t a"
  note b = first_bump [of m p "length us" a t]
  have n: "acl_rate_start ?a = Some t" "acl_rate_count ?a = 1" and ok: "limited m p (length us) ?a"
    and adm: "row_admits ?a us" and m: "0 < m"
    using b assms Cons by (auto simp: limited_def)
  show ?thesis
  proof (cases "w \<le> t")
    case True
    have "int (in_span w (p * 1000000) us) \<le> m - 1"
      using early_span [OF adm _ ok n(1) _ True] n assms Cons m by simp
    then show ?thesis using Cons m by simp
  next
    case False
    have "int (in_span w (p * 1000000) us) + 1 \<le> 2 * m"
      using any_span [OF adm _ ok n(1), of w] n assms Cons m by (auto split: if_splits)
    then show ?thesis using Cons False by simp
  qed
qed (use assms in \<open>simp add: limited_def\<close>)

section \<open>Action masks\<close>

definition all_actions :: "acl_action list" where
  "all_actions = [Create, Read, Update, Delete]"

text \<open>The mask of a set of actions.\<close>

definition mask_of :: "acl_action set \<Rightarrow> int" where
  "mask_of X = (\<Sum>a \<leftarrow> filter (\<lambda>a. a \<in> X) all_actions. action_bit a)"

lemma mask_of_or: "mask_of X OR action_bit a = mask_of (insert a X)"
  by (cases a; cases "Create \<in> X"; cases "Read \<in> X"; cases "Update \<in> X"; cases "Delete \<in> X")
    (simp_all add: mask_of_def all_actions_def)

lemma mask_of_and: "(mask_of X AND action_bit a \<noteq> 0) = (a \<in> X)"
  by (cases a; cases "Create \<in> X"; cases "Read \<in> X"; cases "Update \<in> X"; cases "Delete \<in> X")
    (simp_all add: mask_of_def all_actions_def)

lemma mask_of_0: "mask_of X = 0 \<longleftrightarrow> X = {}"
proof
  assume "mask_of X = 0"
  then have "a \<notin> X" for a using mask_of_and [of X a] by simp
  then show "X = {}" by blast
qed (simp add: mask_of_def)

lemma parse_action_iff: "parse_action s = Some a \<longleftrightarrow> to_ascii_lowercase s = action_name a"
  by (cases a) (auto simp: parse_action_def Let_def)

lemma parse_action_map:
  "map parse_action ss = map Some as \<Longrightarrow> map to_ascii_lowercase ss = map action_name as"
  by (induction ss arbitrary: as) (auto simp: map_eq_Cons_conv Cons_eq_map_conv parse_action_iff)

lemma parse_mask_eq:
  "parse_mask (mask_of X) ss = Some b \<longleftrightarrow>
     (\<exists>as. map parse_action ss = map Some as \<and> b = mask_of (X \<union> set as))"
proof (induction ss arbitrary: X)
  case (Cons s ss)
  show ?case
  proof (cases "parse_action s")
    case (Some a)
    show ?thesis
    proof
      assume "parse_mask (mask_of X) (s # ss) = Some b"
      then obtain as where "map parse_action ss = map Some as" "b = mask_of (insert a X \<union> set as)"
        using Some Cons.IH [of "insert a X"] by (auto simp: mask_of_or)
      then show "\<exists>as. map parse_action (s # ss) = map Some as \<and> b = mask_of (X \<union> set as)"
        using Some by (intro exI [of _ "a # as"]) simp
    next
      assume "\<exists>as. map parse_action (s # ss) = map Some as \<and> b = mask_of (X \<union> set as)"
      then obtain as where "map parse_action ss = map Some as" "b = mask_of (insert a X \<union> set as)"
        using Some by (auto simp: map_eq_Cons_conv)
      then show "parse_mask (mask_of X) (s # ss) = Some b"
        using Some Cons.IH [of "insert a X"] by (auto simp: mask_of_or)
    qed
  qed (auto simp: map_eq_Cons_conv)
qed (auto simp: mask_of_def)

lemma mask_of_empty: "mask_of {} = 0"
  by (simp add: mask_of_def)

lemma parse_actions_eq:
  "parse_actions ss = Some b \<longleftrightarrow>
     (\<exists>as. map parse_action ss = map Some as \<and> as \<noteq> [] \<and> b = mask_of (set as))"
proof -
  have "parse_actions ss = Some b \<longleftrightarrow> parse_mask (mask_of {}) ss = Some b \<and> b \<noteq> 0"
    by (simp add: parse_actions_def mask_of_empty split: option.split) blast
  also have "\<dots> \<longleftrightarrow> (\<exists>as. map parse_action ss = map Some as \<and> b = mask_of (set as)) \<and> b \<noteq> 0"
    unfolding parse_mask_eq by simp
  also have "\<dots> \<longleftrightarrow> (\<exists>as. map parse_action ss = map Some as \<and> as \<noteq> [] \<and> b = mask_of (set as))"
    by (metis mask_of_0 set_empty)
  finally show ?thesis .
qed

lemma all_actions: "set all_actions = UNIV"
  using acl_action.exhaust by (auto simp: all_actions_def)

lemma actions_from_mask_of: "actions_from_mask (mask_of X) = map action_name (filter (\<lambda>a. a \<in> X) all_actions)"
  by (simp only: actions_from_mask_def mask_of_and all_actions_def)

lemma parse_action_name: "parse_action (action_name a) = Some a"
  by (induction a) code_simp+

text \<open>
  Storing the parsed action list of a grant and showing the rule again gives the same
  permissions: the mask that \<open>parse_actions\<close> accepts is shown by \<open>actions_from_mask\<close> as exactly
  the actions asked for, in lower case and without repetition, and parsing what is shown gives
  the same mask back.
\<close>

theorem actions_round_trip:
  assumes "parse_actions ss = Some bits"
  shows "set (actions_from_mask bits) = to_ascii_lowercase ` set ss
    \<and> parse_actions (actions_from_mask bits) = Some bits \<and> distinct (actions_from_mask bits)"
proof (intro conjI)
  obtain as where as: "map parse_action ss = map Some as" "as \<noteq> []" "bits = mask_of (set as)"
    using assms by (auto simp: parse_actions_eq)
  have low: "map to_ascii_lowercase ss = map action_name as"
    by (rule parse_action_map [OF as(1)])
  let ?sel = "filter (\<lambda>a. a \<in> set as) all_actions"
  have sel: "set ?sel = set as" "actions_from_mask bits = map action_name ?sel"
    using all_actions by (auto simp: as(3) actions_from_mask_of)
  show "set (actions_from_mask bits) = to_ascii_lowercase ` set ss"
    using low sel by (metis list.set_map)
  have "map parse_action (actions_from_mask bits) = map Some ?sel"
    by (simp add: sel(2) parse_action_name)
  then show "parse_actions (actions_from_mask bits) = Some bits"
    unfolding parse_actions_eq using sel(1) as by (metis set_empty)
  show "distinct (actions_from_mask bits)"
    unfolding sel(2) by (simp add: all_actions_def)
qed

theorem actions_round_trip_witness:
  "actions_from_mask 6 = [''read'', ''update''] \<and> parse_actions [''Update'', ''READ'', ''update''] = Some 6
    \<and> parse_actions (actions_from_mask 6) = Some 6"
proof -
  have p: "parse_actions [''Update'', ''READ'', ''update''] = Some 6" by code_simp
  have "actions_from_mask 6 = [''read'', ''update'']" by code_simp
  then show ?thesis using p actions_round_trip [OF p] by simp
qed

section \<open>Properties of the decision\<close>

definition demo_user :: authenticated_client where
  "demo_user = \<lparr>ac_id = ''bob'', ac_name = ''bob'', ac_role = ''user'', ac_method = MutualTlsAndToken\<rparr>"

text \<open>Bob may read \<open>db/\<close> names five times, at most twice in ten seconds.\<close>

definition demo_rule :: acl_row where
  "demo_rule = \<lparr>acl_id = ''r1'', acl_domain = ''dom'', acl_client = Some ''bob'', acl_group = None,
     acl_pattern_enc = zeros 12 @ as_bytes ''db/*'' @ zeros 16, acl_actions = 2, acl_expires = None,
     acl_not_before = None, acl_max_uses = Some 5, acl_use_count = 2, acl_granted_at = 0,
     acl_granted_by = None, acl_rate_max = Some 2, acl_rate_period = Some 10, acl_rate_count = 0,
     acl_rate_start = None, acl_schedule = None\<rparr>"

definition demo_acl :: acl_state where
  "demo_acl = \<lparr>audit_log = [], audit_next = 1, anchors = [], archive_files = [], clients = [], domains = [], members = [],
     acls = [demo_rule]\<rparr>"


lemma demo_pattern: "dec_str demo_ext (metadata_enc_key demo_app) (acl_pattern_enc demo_rule) = Inr ''db/*''"
  by code_simp

lemma demo_decide: "acl_matches demo_ext demo_app (demo_rq 0) ''db/x'' demo_rule"
  by code_simp


end
