(* ===== verification/Approvals.thy ===== *)
theory Approvals
  imports Acl
begin

text \<open>
  K-of-N approval of reads (\<open>server.rs\<close>): access requests with their approvers, standing
  advance grants of signatories, the gate that a read of a guarded secret or file passes, and
  the handlers that approve, list and show requests and create, list and revoke grants. The
  lemmas relate the gate to the set of signatories that stand behind a read, show that a request
  is used at most once, that grants keep to their use caps, and that enough approvals let the
  requester read.
\<close>

section \<open>Data\<close>

record access_policy =
  threshold_k :: int
  signatories :: "string list"

record access_request =
  req_id :: string
  req_requester :: string
  req_kind :: string
  req_domain :: string
  req_name_enc :: bytes
  req_name_id :: string
  req_threshold :: int
  req_signatories :: "string list"
  req_approvers :: "string list"
  req_created :: int
  req_expires :: int
  req_consumed :: "int option"

record access_grant =
  ag_id :: string
  ag_signatory :: string
  ag_grantee :: string
  ag_domain :: string
  ag_kind :: string
  ag_pattern_enc :: bytes
  ag_max_uses :: "int option"
  ag_use_count :: int
  ag_not_before :: "int option"
  ag_expires :: int
  ag_created :: int
  ag_revoked :: "int option"

record appr_state = acl_state +
  requests :: "access_request list"
  grants :: "access_grant list"

text \<open>The times of a summary are those of its row; their rendering as text is left out.\<close>

record request_summary =
  sm_id :: string
  sm_requester :: string
  sm_kind :: string
  sm_domain :: string
  sm_name :: string
  sm_threshold :: int
  sm_signatories :: "string list"
  sm_approvers :: "string list"
  sm_created :: int
  sm_expires :: int
  sm_consumed :: "int option"
  sm_status :: string

definition request_ttl :: int where
  "request_ttl = 24 * 3600 * 1000000"

section \<open>Access requests\<close>

fun ids_to_names :: "ext \<Rightarrow> app \<Rightarrow> 'a appr_state_scheme \<Rightarrow> string list \<Rightarrow> string list" where
  "ids_to_names E app st [] = []"
| "ids_to_names E app st (i # is) =
     (case List.find (\<lambda>c. cl_id c = i) (clients st) of
        Some c \<Rightarrow> (case dec_str E (metadata_enc_key app) (cl_name_enc c) of Inr n \<Rightarrow> n | Inl e \<Rightarrow> i)
      | None \<Rightarrow> i) # ids_to_names E app st is"

text \<open>The open request of a client for a resource, the newest one if there are several.\<close>

definition is_open ::
    "request \<Rightarrow> string \<Rightarrow> string \<Rightarrow> string \<Rightarrow> string \<Rightarrow> access_request \<Rightarrow> bool" where
  "is_open rq requester kind domain_id name_id r \<longleftrightarrow>
     req_requester r = requester \<and> req_kind r = kind \<and> req_domain r = domain_id
     \<and> req_name_id r = name_id \<and> req_consumed r = None \<and> req_expires r > now rq"

definition open_request ::
    "request \<Rightarrow> string \<Rightarrow> string \<Rightarrow> string \<Rightarrow> string \<Rightarrow> 'a appr_state_scheme \<Rightarrow> access_request option" where
  "open_request rq requester kind domain_id name_id st =
     List.find (is_open rq requester kind domain_id name_id) (rev (sort_key req_created (requests st)))"

definition active_signatories :: "'a appr_state_scheme \<Rightarrow> string list \<Rightarrow> string list" where
  "active_signatories st sigs =
     filter (\<lambda>i. list_ex (\<lambda>c. cl_id c = i \<and> cl_revoked c = None) (clients st)) sigs"

definition create_access_request ::
    "ext \<Rightarrow> app \<Rightarrow> request \<Rightarrow> authenticated_client \<Rightarrow> string \<Rightarrow> string \<Rightarrow> string \<Rightarrow> access_policy
      \<Rightarrow> 'a appr_state_scheme \<Rightarrow> request_summary option \<times> 'a appr_state_scheme" where
  "create_access_request E app rq requester kind domain_id resource_name policy st =
     (let name_id = name_id_hex E (name_index_key app) domain_id resource_name
      in case open_request rq (ac_id requester) kind domain_id name_id st of
           Some r \<Rightarrow>
             (Some \<lparr>sm_id = req_id r, sm_requester = ac_name requester, sm_kind = kind,
                sm_domain = domain_id, sm_name = resource_name, sm_threshold = req_threshold r,
                sm_signatories = signatories policy,
                sm_approvers = ids_to_names E app st (req_approvers r), sm_created = req_created r,
                sm_expires = req_expires r, sm_consumed = None,
                sm_status = (if int (length (req_approvers r)) \<ge> req_threshold r then ''ready'' else ''pending'')\<rparr>,
              st)
         | None \<Rightarrow>
             (let ids = active_signatories st (signatories policy);
                  i = hex_encode E (rand rq 100 12);
                  expires_at = now rq + request_ttl
              in case aead_seal E (rand rq 101 12) (as_bytes resource_name) (metadata_enc_key app) of
                   Inl e \<Rightarrow> (None, st)
                 | Inr name_enc \<Rightarrow>
                     if list_ex (\<lambda>r. req_id r = i) (requests st) then (None, st)
                     else
                       (Some \<lparr>sm_id = i, sm_requester = ac_name requester, sm_kind = kind,
                          sm_domain = domain_id, sm_name = resource_name,
                          sm_threshold = threshold_k policy, sm_signatories = signatories policy,
                          sm_approvers = [], sm_created = now rq, sm_expires = expires_at,
                          sm_consumed = None, sm_status = ''pending''\<rparr>,
                        st\<lparr>requests := requests st @
                          [\<lparr>req_id = i, req_requester = ac_id requester, req_kind = kind,
                            req_domain = domain_id, req_name_enc = name_enc, req_name_id = name_id,
                            req_threshold = threshold_k policy, req_signatories = ids,
                            req_approvers = [], req_created = now rq, req_expires = expires_at,
                            req_consumed = None\<rparr>]\<rparr>)))"

section \<open>Advance grants\<close>

definition grant_active ::
    "request \<Rightarrow> string \<Rightarrow> string \<Rightarrow> string \<Rightarrow> access_grant \<Rightarrow> bool" where
  "grant_active rq grantee domain_id kind g \<longleftrightarrow>
     ag_grantee g = grantee \<and> ag_domain g = domain_id \<and> ag_kind g = kind \<and> ag_revoked g = None
     \<and> (case ag_not_before g of None \<Rightarrow> True | Some b \<Rightarrow> b \<le> now rq) \<and> ag_expires g > now rq
     \<and> (case ag_max_uses g of None \<Rightarrow> True | Some m \<Rightarrow> ag_use_count g < m)"

definition grant_matches :: "ext \<Rightarrow> app \<Rightarrow> string \<Rightarrow> access_grant \<Rightarrow> bool" where
  "grant_matches E app resource_name g =
     (case aead_open E (ag_pattern_enc g) (metadata_enc_key app) of
        Inl e \<Rightarrow> False
      | Inr b \<Rightarrow> sql_like_match (case from_utf8 b of None \<Rightarrow> [] | Some p \<Rightarrow> p) resource_name)"

fun scan_grants ::
    "ext \<Rightarrow> app \<Rightarrow> string \<Rightarrow> string list \<Rightarrow> string list \<Rightarrow> access_grant list \<Rightarrow> (string \<times> string) list" where
  "scan_grants E app resource_name sigset seen [] = []"
| "scan_grants E app resource_name sigset seen (g # gs) =
     (if ag_signatory g \<notin> set sigset \<or> ag_signatory g \<in> set seen
      then scan_grants E app resource_name sigset seen gs
      else if grant_matches E app resource_name g
      then (ag_signatory g, ag_id g)
             # scan_grants E app resource_name sigset (ag_signatory g # seen) gs
      else scan_grants E app resource_name sigset seen gs)"

definition advance_approvers ::
    "ext \<Rightarrow> app \<Rightarrow> request \<Rightarrow> string \<Rightarrow> string \<Rightarrow> string \<Rightarrow> string \<Rightarrow> string list
      \<Rightarrow> 'a appr_state_scheme \<Rightarrow> (string \<times> string) list" where
  "advance_approvers E app rq grantee kind domain_id resource_name policy_sigs st =
     scan_grants E app resource_name policy_sigs []
       (sort_key ag_created (filter (grant_active rq grantee domain_id kind) (grants st)))"

definition bump_grant :: "access_grant \<Rightarrow> access_grant" where
  "bump_grant g = (if ag_use_count g + 1 \<le> i32_max then g\<lparr>ag_use_count := ag_use_count g + 1\<rparr> else g)"

fun consume_grant_uses :: "string list \<Rightarrow> 'a appr_state_scheme \<Rightarrow> 'a appr_state_scheme" where
  "consume_grant_uses [] st = st"
| "consume_grant_uses (i # is) st =
     consume_grant_uses is (st\<lparr>grants := update_where (\<lambda>g. ag_id g = i) bump_grant (grants st)\<rparr>)"

section \<open>The gate\<close>

datatype gate = Proceed | Stop "request_summary response"

definition read_action :: "string \<Rightarrow> string" where
  "read_action kind = (if kind = ''file'' then ''file.read'' else ''read'')"

text \<open>The advance grants of signatories that have not approved the request itself.\<close>

definition advance_used :: "string list \<Rightarrow> (string \<times> string) list \<Rightarrow> string list" where
  "advance_used approvers advance = map snd (filter (\<lambda>(s, g). s \<notin> set approvers) advance)"

definition credit :: "string list \<Rightarrow> (string \<times> string) list \<Rightarrow> int" where
  "credit approvers advance = int (length (remdups (approvers @ map fst advance)))"

definition open_and_mine ::
    "ext \<Rightarrow> app \<Rightarrow> request \<Rightarrow> authenticated_client \<Rightarrow> string \<Rightarrow> string \<Rightarrow> access_request \<Rightarrow> bool" where
  "open_and_mine E app rq client kind resource_name r \<longleftrightarrow>
     (let rname = (case aead_open E (req_name_enc r) (metadata_enc_key app) of
                     Inl e \<Rightarrow> []
                   | Inr b \<Rightarrow> (case from_utf8 b of None \<Rightarrow> [] | Some s \<Rightarrow> s))
      in req_consumed r = None \<and> req_requester r = ac_id client \<and> req_kind r = kind
         \<and> rname = resource_name \<and> req_expires r > now rq)"

definition mark_consumed :: "request \<Rightarrow> string \<Rightarrow> 'a appr_state_scheme \<Rightarrow> 'a appr_state_scheme" where
  "mark_consumed rq rid st =
     st\<lparr>requests := update_where (\<lambda>r. req_id r = rid \<and> req_consumed r = None)
        (\<lambda>r. r\<lparr>req_consumed := Some (now rq)\<rparr>) (requests st)\<rparr>"

definition gate_with_request ::
    "ext \<Rightarrow> app \<Rightarrow> request \<Rightarrow> authenticated_client \<Rightarrow> string \<Rightarrow> string \<Rightarrow> string
      \<Rightarrow> (string \<times> string) list \<Rightarrow> 'a appr_state_scheme \<Rightarrow> gate \<times> 'a appr_state_scheme" where
  "gate_with_request E app rq client kind resource_name rid advance st =
     (let pending = Stop (ErrorReply 412 ''approval_pending'');
          denied = audit E app rq 0 (Some (ac_id client)) (read_action kind) (Some resource_name)
            AuditDenied (Some ''approval request not ready'') st
      in case List.find (\<lambda>r. req_id r = rid) (requests st) of
           None \<Rightarrow> (pending, st)
         | Some r \<Rightarrow>
             if \<not> open_and_mine E app rq client kind resource_name r then (pending, denied)
             else if credit (req_approvers r) advance < req_threshold r then (pending, denied)
             else if rows_affected (\<lambda>r. req_id r = rid \<and> req_consumed r = None) (requests st) = 0
             then (pending, st)
             else (Proceed, consume_grant_uses (advance_used (req_approvers r) advance)
                     (mark_consumed rq rid st)))"

definition gate_without_request ::
    "ext \<Rightarrow> app \<Rightarrow> request \<Rightarrow> authenticated_client \<Rightarrow> string \<Rightarrow> string \<Rightarrow> string \<Rightarrow> access_policy
      \<Rightarrow> (string \<times> string) list \<Rightarrow> 'a appr_state_scheme \<Rightarrow> gate \<times> 'a appr_state_scheme" where
  "gate_without_request E app rq client kind domain_id resource_name policy advance st =
     (let k = threshold_k policy;
          log = (\<lambda>status message. audit E app rq 0 (Some (ac_id client)) (read_action kind)
                   (Some resource_name) status (Some message))
      in if int (length advance) \<ge> k
         then (Proceed, log AuditOk ''approved via advance grants''
                (consume_grant_uses (map snd (if k < 0 then advance else take (nat k) advance)) st))
         else
           (case create_access_request E app rq client kind domain_id resource_name policy st of
              (None, st) \<Rightarrow> (Stop (ActixError 500), st)
            | (Some req, st) \<Rightarrow>
              (case List.find (\<lambda>r. req_id r = sm_id req) (requests st) of
                 None \<Rightarrow> (Stop (ActixError 500), st)
               | Some r \<Rightarrow>
                   (let effective = credit (req_approvers r) advance
                    in if effective \<ge> k
                          \<and> rows_affected (\<lambda>r. req_id r = sm_id req \<and> req_consumed r = None) (requests st) > 0
                       then (Proceed, log AuditOk ''approved via advance grants + live approvals''
                              (consume_grant_uses (advance_used (req_approvers r) advance)
                                (mark_consumed rq (sm_id req) st)))
                       else (Stop (Reply 412 req), log AuditDenied
                              (''threshold '' @ show_int k @ '': request '' @ sm_id req @ '' (''
                                @ show_int effective @ ''/'' @ show_int k @ '')'') st)))))"

definition threshold_gate ::
    "ext \<Rightarrow> app \<Rightarrow> request \<Rightarrow> authenticated_client \<Rightarrow> string \<Rightarrow> string \<Rightarrow> string \<Rightarrow> access_policy
      \<Rightarrow> string option \<Rightarrow> 'a appr_state_scheme \<Rightarrow> gate \<times> 'a appr_state_scheme" where
  "threshold_gate E app rq client kind domain_id resource_name policy request_id st =
     (let advance = advance_approvers E app rq (ac_id client) kind domain_id resource_name
                      (signatories policy) st
      in case request_id of
           Some rid \<Rightarrow> gate_with_request E app rq client kind resource_name rid advance st
         | None \<Rightarrow> gate_without_request E app rq client kind domain_id resource_name policy advance st)"

section \<open>Handlers\<close>

text \<open>The reply says whether the approval had been recorded before, and how many there are.\<close>

definition approve_access_request ::
    "ext \<Rightarrow> app \<Rightarrow> request \<Rightarrow> string \<Rightarrow> authenticated_client \<Rightarrow> 'a appr_state_scheme
      \<Rightarrow> (bool \<times> nat) response \<times> 'a appr_state_scheme" where
  "approve_access_request E app rq request_id caller st =
     (case List.find (\<lambda>r. req_id r = request_id) (requests st) of
        None \<Rightarrow> (ErrorReply 404 ''not_found'', st)
      | Some r \<Rightarrow>
          if req_consumed r \<noteq> None then (ErrorReply 409 ''consumed'', st)
          else if req_expires r \<le> now rq then (ErrorReply 410 ''expired'', st)
          else if ac_id caller \<notin> set (req_signatories r)
          then (ErrorReply 403 ''forbidden'',
                audit E app rq 0 (Some (ac_id caller)) ''approval'' (Some request_id) AuditDenied
                  (Some ''not a signatory'') st)
          else if ac_id caller \<in> set (req_approvers r)
          then (Reply 200 (True, length (req_approvers r)), st)
          else
            let approvers = req_approvers r @ [ac_id caller]
            in (Reply 200 (False, length approvers),
                audit E app rq 0 (Some (ac_id caller)) ''approval'' (Some request_id) AuditOk None
                  (st\<lparr>requests := update_where (\<lambda>r. req_id r = request_id)
                     (\<lambda>r. r\<lparr>req_approvers := approvers\<rparr>) (requests st)\<rparr>)))"

text \<open>
  The status compares the rendered expiry with the rendered clock as text: \<open>pg_text\<close> is the
  database's rendering of a timestamp, \<open>clock_text\<close> the server's.
\<close>

definition request_status ::
    "(int \<Rightarrow> string) \<Rightarrow> (int \<Rightarrow> string) \<Rightarrow> request \<Rightarrow> access_request \<Rightarrow> string" where
  "request_status pg_text clock_text rq r =
     (if req_consumed r \<noteq> None then ''consumed''
      else if \<not> str_le (clock_text (now rq)) (pg_text (req_expires r)) then ''expired''
      else if int (length (req_approvers r)) \<ge> req_threshold r then ''ready''
      else ''pending'')"

text \<open>The row joined with its requester; without the requester's row there is no result.\<close>

definition summarise ::
    "ext \<Rightarrow> app \<Rightarrow> (int \<Rightarrow> string) \<Rightarrow> (int \<Rightarrow> string) \<Rightarrow> request \<Rightarrow> 'a appr_state_scheme
      \<Rightarrow> access_request \<Rightarrow> request_summary option" where
  "summarise E app pg_text clock_text rq st r =
     (let k = metadata_enc_key app
      in case List.find (\<lambda>c. cl_id c = req_requester r) (clients st) of
           None \<Rightarrow> None
         | Some c \<Rightarrow>
             Some \<lparr>sm_id = req_id r, sm_requester = name_or_mark E app (cl_name_enc c),
               sm_kind = req_kind r,
               sm_domain = (case dec_or_none E k (lookup_enc dm_id dm_name_enc (domains st) (Some (req_domain r))) of
                              None \<Rightarrow> [] | Some n \<Rightarrow> n),
               sm_name = name_or_mark E app (req_name_enc r), sm_threshold = req_threshold r,
               sm_signatories = ids_to_names E app st (req_signatories r),
               sm_approvers = ids_to_names E app st (req_approvers r),
               sm_created = req_created r, sm_expires = req_expires r, sm_consumed = req_consumed r,
               sm_status = request_status pg_text clock_text rq r\<rparr>)"

definition list_access_requests ::
    "ext \<Rightarrow> app \<Rightarrow> (int \<Rightarrow> string) \<Rightarrow> (int \<Rightarrow> string) \<Rightarrow> request \<Rightarrow> authenticated_client
      \<Rightarrow> 'a appr_state_scheme \<Rightarrow> request_summary list response" where
  "list_access_requests E app pg_text clock_text rq caller st =
     Reply 200 (take 200 (List.map_filter (summarise E app pg_text clock_text rq st)
       (rev (sort_key req_created
         (filter (\<lambda>r. is_admin caller \<or> req_requester r = ac_id caller \<or> ac_id caller \<in> set (req_signatories r))
           (requests st))))))"

definition get_access_request ::
    "ext \<Rightarrow> app \<Rightarrow> (int \<Rightarrow> string) \<Rightarrow> (int \<Rightarrow> string) \<Rightarrow> request \<Rightarrow> string \<Rightarrow> authenticated_client
      \<Rightarrow> 'a appr_state_scheme \<Rightarrow> request_summary response" where
  "get_access_request E app pg_text clock_text rq i caller st =
     (case List.find (\<lambda>r. req_id r = i) (requests st) of
        None \<Rightarrow> ErrorReply 404 ''not_found''
      | Some r \<Rightarrow>
        (case summarise E app pg_text clock_text rq st r of
           None \<Rightarrow> ErrorReply 404 ''not_found''
         | Some s \<Rightarrow>
             if \<not> is_admin caller \<and> ac_id caller \<noteq> req_requester r \<and> ac_id caller \<notin> set (req_signatories r)
             then ErrorReply 403 ''forbidden''
             else Reply 200 s))"

record create_grant_request =
  cg_grantee :: string
  cg_pattern :: string
  cg_kind :: string
  cg_max_uses :: "int option"
  cg_expires_at :: "string option"
  cg_ttl_hours :: "int option"
  cg_not_before :: "string option"

text \<open>The expiry of a grant: \<open>Inl\<close> is the reply when there is none.\<close>

definition grant_expiry :: "ext \<Rightarrow> request \<Rightarrow> create_grant_request \<Rightarrow> 'b response + int" where
  "grant_expiry E rq b =
     (case (cg_expires_at b, cg_ttl_hours b) of
        (Some s, _) \<Rightarrow> (case parse_rfc3339 E s of None \<Rightarrow> Inl (ActixError 400) | Some t \<Rightarrow> Inr t)
      | (None, Some h) \<Rightarrow>
          if h > 0 then Inr (now rq + h * 3600 * 1000000) else Inl (ErrorReply 400 ''validation_error'')
      | (None, None) \<Rightarrow> Inl (ErrorReply 400 ''validation_error''))"

definition create_access_grant ::
    "ext \<Rightarrow> app \<Rightarrow> request \<Rightarrow> create_grant_request \<Rightarrow> string option \<Rightarrow> authenticated_client
      \<Rightarrow> 'a appr_state_scheme \<Rightarrow> string response \<times> 'a appr_state_scheme" where
  "create_access_grant E app rq b q caller st =
     (case resolve_and_gate_domain E app caller q st of
        Inl resp \<Rightarrow> (resp, st)
      | Inr (domain_id, domain_name) \<Rightarrow>
          if cg_kind b \<noteq> ''secret'' \<and> cg_kind b \<noteq> ''file'' then (ErrorReply 400 ''validation_error'', st)
          else if trim (cg_pattern b) = [] then (ErrorReply 400 ''validation_error'', st)
          else
            (case active_client E app (cg_grantee b) st of
               None \<Rightarrow> (ErrorReply 400 ''unknown_grantee'', st)
             | Some c \<Rightarrow>
               (case grant_expiry E rq b of
                  Inl resp \<Rightarrow> (resp, st)
                | Inr expires_at \<Rightarrow>
                  (case parse_rfc3339_opt E (cg_not_before b) of
                     None \<Rightarrow> (ActixError 400, st)
                   | Some not_before \<Rightarrow>
                       if (case cg_max_uses b of None \<Rightarrow> False | Some m \<Rightarrow> m < 1)
                       then (ErrorReply 400 ''validation_error'', st)
                       else
                         let i = hex_encode E (rand rq 0 12)
                         in case enc_str E (rand rq 1 12) (metadata_enc_key app) (cg_pattern b) of
                              Inl e \<Rightarrow> (ActixError 500, st)
                            | Inr pattern_enc \<Rightarrow>
                                if list_ex (\<lambda>g. ag_id g = i) (grants st) then (ActixError 500, st)
                                else
                                  (Reply 201 i,
                                   audit E app rq 0 (Some (ac_id caller)) ''grant.create''
                                     (Some (cg_pattern b)) AuditOk
                                     (Some (''grantee='' @ cg_grantee b @ '' domain='' @ domain_name
                                        @ '' kind='' @ cg_kind b))
                                     (st\<lparr>grants := grants st @
                                       [\<lparr>ag_id = i, ag_signatory = ac_id caller, ag_grantee = cl_id c,
                                         ag_domain = domain_id, ag_kind = cg_kind b,
                                         ag_pattern_enc = pattern_enc, ag_max_uses = cg_max_uses b,
                                         ag_use_count = 0, ag_not_before = not_before,
                                         ag_expires = expires_at, ag_created = now rq,
                                         ag_revoked = None\<rparr>]\<rparr>))))))"

record grant_summary =
  gs_id :: string
  gs_signatory :: string
  gs_grantee :: string
  gs_domain :: string
  gs_pattern :: string
  gs_revoked :: bool
  gs_grant :: access_grant

definition summarise_grant ::
    "ext \<Rightarrow> app \<Rightarrow> 'a appr_state_scheme \<Rightarrow> access_grant \<Rightarrow> grant_summary option" where
  "summarise_grant E app st g =
     (let find_client = (\<lambda>i. List.find (\<lambda>c. cl_id c = i) (clients st))
      in case (find_client (ag_signatory g), find_client (ag_grantee g)) of
           (Some s, Some c) \<Rightarrow>
             Some \<lparr>gs_id = ag_id g, gs_signatory = name_or_mark E app (cl_name_enc s),
               gs_grantee = name_or_mark E app (cl_name_enc c),
               gs_domain = (case dec_or_none E (metadata_enc_key app)
                                  (lookup_enc dm_id dm_name_enc (domains st) (Some (ag_domain g))) of
                              None \<Rightarrow> [] | Some n \<Rightarrow> n),
               gs_pattern = name_or_mark E app (ag_pattern_enc g),
               gs_revoked = (ag_revoked g \<noteq> None), gs_grant = g\<rparr>
         | _ \<Rightarrow> None)"

definition list_access_grants ::
    "ext \<Rightarrow> app \<Rightarrow> authenticated_client \<Rightarrow> 'a appr_state_scheme \<Rightarrow> grant_summary list response" where
  "list_access_grants E app caller st =
     Reply 200 (take 200 (List.map_filter (summarise_grant E app st)
       (rev (sort_key ag_created
         (filter (\<lambda>g. is_admin caller \<or> ag_signatory g = ac_id caller \<or> ag_grantee g = ac_id caller)
           (grants st))))))"

definition revoke_access_grant ::
    "ext \<Rightarrow> app \<Rightarrow> request \<Rightarrow> string \<Rightarrow> authenticated_client \<Rightarrow> 'a appr_state_scheme
      \<Rightarrow> string response \<times> 'a appr_state_scheme" where
  "revoke_access_grant E app rq i caller st =
     (case List.find (\<lambda>g. ag_id g = i \<and> ag_revoked g = None) (grants st) of
        None \<Rightarrow> (ErrorReply 404 ''not_found'', st)
      | Some g \<Rightarrow>
          if \<not> is_admin caller \<and> ac_id caller \<noteq> ag_signatory g then (ErrorReply 403 ''forbidden'', st)
          else (Reply 200 i,
                audit E app rq 0 (Some (ac_id caller)) ''grant.revoke'' (Some i) AuditOk None
                  (st\<lparr>grants := update_where (\<lambda>g. ag_id g = i)
                     (\<lambda>g. g\<lparr>ag_revoked := Some (now rq)\<rparr>) (grants st)\<rparr>)))"

section \<open>Advance grants: lemmas\<close>

lemma scan_grants_fst:
  "fst ` set (scan_grants E app name sigs seen gs) =
     {s \<in> set sigs - set seen. \<exists>g \<in> set gs. ag_signatory g = s \<and> grant_matches E app name g}"
  by (induction gs arbitrary: seen) auto

lemma scan_grants_distinct:
  "distinct (map fst (scan_grants E app name sigs seen gs))"
proof (induction gs arbitrary: seen)
  case (Cons g gs)
  have "ag_signatory g \<notin> fst ` set (scan_grants E app name sigs (ag_signatory g # seen) gs)"
    by (simp add: scan_grants_fst)
  with Cons show ?case by simp
qed simp

lemma scan_grants_ids: "set (map snd (scan_grants E app name sigs seen gs)) \<subseteq> ag_id ` set gs"
  by (induction gs arbitrary: seen) auto

lemma scan_grants_distinct_ids:
  "distinct (map ag_id gs) \<Longrightarrow> distinct (map snd (scan_grants E app name sigs seen gs))"
proof (induction gs arbitrary: seen)
  case (Cons g gs)
  have "ag_id g \<notin> snd ` set (scan_grants E app name sigs (ag_signatory g # seen) gs)"
    using scan_grants_ids [of E app name sigs "ag_signatory g # seen" gs] Cons.prems by auto
  with Cons show ?case by simp
qed simp

text \<open>The signatories with a standing approval for a read.\<close>

definition standing ::
    "ext \<Rightarrow> app \<Rightarrow> request \<Rightarrow> string \<Rightarrow> string \<Rightarrow> string \<Rightarrow> string \<Rightarrow> string list
      \<Rightarrow> 'a appr_state_scheme \<Rightarrow> string set" where
  "standing E app rq grantee kind domain_id name sigs st =
     {s \<in> set sigs. \<exists>g \<in> set (grants st). ag_signatory g = s
        \<and> grant_active rq grantee domain_id kind g \<and> grant_matches E app name g}"

text \<open>The clients that have approved the open request for a read.\<close>

definition live_approvers ::
    "ext \<Rightarrow> app \<Rightarrow> request \<Rightarrow> string \<Rightarrow> string \<Rightarrow> string \<Rightarrow> string \<Rightarrow> 'a appr_state_scheme \<Rightarrow> string set" where
  "live_approvers E app rq requester kind domain_id name st =
     (case open_request rq requester kind domain_id (name_id_hex E (name_index_key app) domain_id name) st of
        None \<Rightarrow> {}
      | Some r \<Rightarrow> set (req_approvers r))"

lemma advance_approvers_fst:
  "fst ` set (advance_approvers E app rq c kind d name sigs st) = standing E app rq c kind d name sigs st"
  by (auto simp: advance_approvers_def scan_grants_fst standing_def)

lemma advance_approvers_length:
  "length (advance_approvers E app rq c kind d name sigs st) = card (standing E app rq c kind d name sigs st)"
  unfolding advance_approvers_fst [symmetric]
  using distinct_card [OF scan_grants_distinct [of E app name sigs "[]"
      "sort_key ag_created (filter (grant_active rq c d kind) (grants st))"]]
  by (simp add: advance_approvers_def)

lemma credit_eq: "credit as adv = int (card (set as \<union> fst ` set adv))"
  by (simp add: credit_def length_remdups_card_conv)

lemma audit_appr [simp]:
  "requests (audit E app rq k c a r s m st) = requests st"
  "grants (audit E app rq k c a r s m st) = grants st"
  by (simp_all add: audit_def Let_def split: sum.splits)

lemma consume_requests [simp]: "requests (consume_grant_uses is st) = requests st"
  by (induction "is" st rule: consume_grant_uses.induct) simp_all

lemma mark_grants [simp]: "grants (mark_consumed rq rid st) = grants st"
  by (simp add: mark_consumed_def)

section \<open>The gate: lemmas\<close>

lemma open_request_SomeD:
  "open_request rq c kind d n st = Some r \<Longrightarrow> r \<in> set (requests st) \<and> is_open rq c kind d n r"
  by (auto simp: open_request_def dest: find_SomeD)

lemma create_reuses:
  assumes "open_request rq (ac_id c) kind d (name_id_hex E (name_index_key app) d name) st = Some r"
  shows "\<exists>s. create_access_request E app rq c kind d name pol st = (Some s, st) \<and> sm_id s = req_id r"
  using assms by (simp add: create_access_request_def Let_def)

lemma create_fresh:
  assumes "open_request rq (ac_id c) kind d (name_id_hex E (name_index_key app) d name) st = None"
    and "create_access_request E app rq c kind d name pol st = (Some s, st')"
  shows "\<exists>r. requests st' = requests st @ [r] \<and> req_id r = sm_id s \<and> req_approvers r = [] \<and> req_consumed r = None
    \<and> \<not> list_ex (\<lambda>q. req_id q = sm_id s) (requests st)
    \<and> set (req_signatories r) \<subseteq> set (signatories pol)"
  using assms
  by (auto simp: create_access_request_def Let_def active_signatories_def split: sum.splits if_splits)

lemma gate_without_request_exact:
  fixes st :: "'a appr_state_scheme"
  assumes "distinct (map req_id (requests st))" and "int (length adv) = int (card (fst ` set adv))"
  shows "fst (gate_without_request E app rq c kind d name pol adv st) = Proceed \<longleftrightarrow>
    threshold_k pol \<le> int (card (live_approvers E app rq (ac_id c) kind d name st \<union> fst ` set adv))"
    (is "?P \<longleftrightarrow> ?k \<le> int (card (?L \<union> ?A))")
proof (cases "?k \<le> int (length adv)")
  case True
  have "card ?A \<le> card (?L \<union> ?A)"
    by (intro card_mono) (auto simp: live_approvers_def split: option.splits)
  then show ?thesis using True assms(2) by (simp add: gate_without_request_def Let_def)
next
  case few: False
  let ?n = "name_id_hex E (name_index_key app) d name"
  show ?thesis
  proof (cases "open_request rq (ac_id c) kind d ?n st")
    case (Some r)
    then have r: "r \<in> set (requests st)" and op: "req_consumed r = None"
      using open_request_SomeD by (fastforce simp: is_open_def)+
    obtain s where s: "create_access_request E app rq c kind d name pol st = (Some s, st)" "sm_id s = req_id r"
      using create_reuses [OF Some] by blast
    have "rows_affected (\<lambda>q. req_id q = req_id r \<and> req_consumed q = None) (requests st) > 0"
      using r op rows_affected_0 by (metis (mono_tags, lifting) gr0I)
    moreover have "?L = set (req_approvers r)" using Some by (simp add: live_approvers_def)
    ultimately show ?thesis
      using few s find_by_id [OF assms(1) r] by (simp add: gate_without_request_def Let_def credit_eq)
  next
    case None
    have L: "?L = {}" using None by (simp add: live_approvers_def)
    show ?thesis
    proof (cases "create_access_request E app rq c kind d name pol st")
      case (Pair s st')
      show ?thesis
      proof (cases s)
        case None
        then show ?thesis using few Pair L assms(2) by (simp add: gate_without_request_def Let_def)
      next
        case (Some s)
        note f = create_fresh [OF \<open>open_request _ _ _ _ _ st = None\<close> Pair [unfolded Some]]
        then obtain r where "requests st' = requests st @ [r]" "req_id r = sm_id s" "req_approvers r = []"
          "\<not> list_ex (\<lambda>q. req_id q = sm_id s) (requests st)" by blast
        then have "List.find (\<lambda>q. req_id q = sm_id s) (requests st') = Some r"
          by (auto simp: find_append find_None_iff list_ex_iff split: option.splits dest: find_SomeD)
        then show ?thesis
          using few Pair Some L assms(2) \<open>req_approvers r = []\<close>
          by (simp add: gate_without_request_def Let_def credit_eq)
      qed
    qed
  qed
qed

lemma gate_with_request_Proceed:
  "fst (gate_with_request E app rq c kind name rid adv st) = Proceed \<longleftrightarrow>
     (\<exists>r. List.find (\<lambda>q. req_id q = rid) (requests st) = Some r \<and> open_and_mine E app rq c kind name r
        \<and> req_threshold r \<le> int (card (set (req_approvers r) \<union> fst ` set adv)))"
proof (cases "List.find (\<lambda>q. req_id q = rid) (requests st)")
  case (Some r)
  then have r: "r \<in> set (requests st)" "req_id r = rid" by (auto dest: find_SomeD)
  have "open_and_mine E app rq c kind name r \<Longrightarrow>
      rows_affected (\<lambda>q. req_id q = rid \<and> req_consumed q = None) (requests st) \<noteq> 0"
    using r by (auto simp: rows_affected_0 open_and_mine_def Let_def)
  then show ?thesis using Some by (auto simp: gate_with_request_def Let_def credit_eq)
qed (simp add: gate_with_request_def Let_def)

section \<open>The invariant of requests and grants\<close>

definition request_ok :: "access_request \<Rightarrow> bool" where
  "request_ok r \<longleftrightarrow> distinct (req_approvers r) \<and> set (req_approvers r) \<subseteq> set (req_signatories r)"

definition grant_ok :: "access_grant \<Rightarrow> bool" where
  "grant_ok g \<longleftrightarrow> 0 \<le> ag_use_count g \<and> (case ag_max_uses g of None \<Rightarrow> True | Some m \<Rightarrow> ag_use_count g \<le> m)"

definition appr_inv :: "'a appr_state_scheme \<Rightarrow> bool" where
  "appr_inv st \<longleftrightarrow> distinct (map req_id (requests st)) \<and> distinct (map ag_id (grants st))
     \<and> (\<forall>r \<in> set (requests st). request_ok r) \<and> (\<forall>g \<in> set (grants st). grant_ok g)"

lemma appr_inv_audit [simp]: "appr_inv (audit E app rq k c a r s m st) = appr_inv st"
  by (simp add: appr_inv_def)

lemma appr_inv_frame: "requests st' = requests st \<Longrightarrow> grants st' = grants st \<Longrightarrow> appr_inv st' = appr_inv st"
  by (simp add: appr_inv_def)

lemma consume_grants:
  "distinct is \<Longrightarrow> grants (consume_grant_uses is st) = update_where (\<lambda>g. ag_id g \<in> set is) bump_grant (grants st)"
proof (induction "is" st rule: consume_grant_uses.induct)
  case (2 i "is" st)
  have "ag_id (bump_grant g) = ag_id g" for g by (simp add: bump_grant_def)
  with 2 show ?case by (simp add: update_where_def)
qed (simp add: update_where_def)

text \<open>A list of grant ids that the gate may consume: distinct, and each of an active grant.\<close>

definition spendable :: "string list \<Rightarrow> 'a appr_state_scheme \<Rightarrow> bool" where
  "spendable is st \<longleftrightarrow> distinct is \<and> (\<forall>g \<in> set (grants st). ag_id g \<in> set is \<longrightarrow>
     (case ag_max_uses g of None \<Rightarrow> True | Some m \<Rightarrow> ag_use_count g < m))"

lemma consume_inv:
  assumes "appr_inv st" and "spendable is st"
  shows "appr_inv (consume_grant_uses is st)"
proof -
  have b: "ag_id (bump_grant g) = ag_id g" for g by (simp add: bump_grant_def)
  have "grant_ok (bump_grant g)" if "g \<in> set (grants st)" "ag_id g \<in> set is" for g
    using assms that by (auto simp: appr_inv_def spendable_def grant_ok_def bump_grant_def split: option.splits)
  then show ?thesis
    using assms consume_grants [of "is" st]
    by (auto simp: appr_inv_def spendable_def map_update_where b set_update_where)
qed

lemma advance_spendable:
  assumes "appr_inv st" and "set is \<subseteq> snd ` set (advance_approvers E app rq c kind d name sigs st)" and "distinct is"
  shows "spendable is st"
  unfolding spendable_def
proof (intro conjI ballI impI assms(3))
  fix g assume g: "g \<in> set (grants st)" "ag_id g \<in> set is"
  let ?gs = "sort_key ag_created (filter (grant_active rq c d kind) (grants st))"
  have "ag_id g \<in> ag_id ` set ?gs"
    using g(2) assms(2) scan_grants_ids [of E app name sigs "[]" ?gs] by (auto simp: advance_approvers_def)
  then obtain h where "h \<in> set (grants st)" "grant_active rq c d kind h" "ag_id h = ag_id g" by auto
  moreover from this have "h = g"
    using assms(1) g(1) by (auto simp: appr_inv_def distinct_map dest: inj_onD)
  ultimately show "case ag_max_uses g of None \<Rightarrow> True | Some m \<Rightarrow> ag_use_count g < m"
    by (simp add: grant_active_def)
qed

lemma advance_distinct_ids:
  "appr_inv st \<Longrightarrow> distinct (map snd (advance_approvers E app rq c kind d name sigs st))"
  unfolding advance_approvers_def
  by (rule scan_grants_distinct_ids)
    (simp add: appr_inv_def distinct_map inj_on_def)

lemma spendable_frame: "grants st' = grants st \<Longrightarrow> spendable is st' = spendable is st"
  by (simp add: spendable_def)

lemma request_ok_consumed [simp]: "request_ok (r\<lparr>req_consumed := x\<rparr>) = request_ok r"
  by (simp add: request_ok_def)

lemma mark_inv: "appr_inv st \<Longrightarrow> appr_inv (mark_consumed rq rid st)"
  by (auto simp: appr_inv_def mark_consumed_def map_update_where set_update_where)

lemma add_request_inv:
  "appr_inv st \<Longrightarrow> \<not> list_ex (\<lambda>q. req_id q = req_id r) (requests st) \<Longrightarrow> request_ok r \<Longrightarrow>
    appr_inv (st\<lparr>requests := requests st @ [r]\<rparr>)"
  by (auto simp: appr_inv_def list_ex_iff)

lemma create_access_request_inv:
  assumes "create_access_request E app rq c kind d name pol st = (s, st')" and "appr_inv st"
  shows "appr_inv st'"
proof (cases "open_request rq (ac_id c) kind d (name_id_hex E (name_index_key app) d name) st")
  case (Some r)
  with assms show ?thesis by (auto simp: create_access_request_def Let_def)
next
  case None
  with assms show ?thesis
    by (auto simp: create_access_request_def Let_def request_ok_def
        intro!: add_request_inv split: sum.splits if_splits)
qed

lemma create_access_request_grants:
  "create_access_request E app rq c kind d name pol st = (s, st') \<Longrightarrow> grants st' = grants st"
  by (auto simp: create_access_request_def Let_def split: sum.splits if_splits option.splits)

lemma gate_with_request_inv:
  assumes "appr_inv st" and "\<And>as. spendable (advance_used as adv) st"
  shows "appr_inv (snd (gate_with_request E app rq c kind name rid adv st))"
proof -
  have "appr_inv (consume_grant_uses (advance_used as adv) (mark_consumed rq rid st))" for as
    using assms by (intro consume_inv mark_inv) (simp_all add: spendable_frame [OF mark_grants])
  then show ?thesis
    using assms(1) by (simp add: gate_with_request_def Let_def split: option.split)
qed

lemma gate_without_request_inv:
  assumes "appr_inv st" and "\<And>as. spendable (advance_used as adv) st"
    and "\<And>n. spendable (map snd (take n adv)) st"
  shows "appr_inv (snd (gate_without_request E app rq c kind d name pol adv st))"
proof -
  obtain s st1 where cr: "create_access_request E app rq c kind d name pol st = (s, st1)" by fastforce
  note inv1 = create_access_request_inv [OF cr assms(1)]
  have "spendable (map snd adv) st" using assms(3) [of "length adv"] by simp
  then have all: "appr_inv (consume_grant_uses (map snd adv) st)"
    "\<And>n. appr_inv (consume_grant_uses (map snd (take n adv)) st)"
    using assms by (simp_all add: consume_inv)
  have "appr_inv (consume_grant_uses (advance_used as adv) (mark_consumed rq i st1))" for as i
    using assms(2) [of as] inv1 create_access_request_grants [OF cr]
    by (intro consume_inv mark_inv) (simp_all add: spendable_def)
  then show ?thesis
    using all cr inv1 by (simp add: gate_without_request_def Let_def split: option.split)
qed

lemma gate_inv:
  assumes "threshold_gate E app rq c kind d name pol rid st = (g, st')" and "appr_inv st"
  shows "appr_inv st'"
proof -
  let ?adv = "advance_approvers E app rq (ac_id c) kind d name (signatories pol) st"
  note ids = advance_distinct_ids [OF assms(2), of E app rq "ac_id c" kind d name "signatories pol"]
  have used: "spendable (advance_used as ?adv) st" for as
    using ids by (intro advance_spendable [OF assms(2)]) (auto simp: advance_used_def distinct_map_filter)
  have taken: "spendable (map snd (take n ?adv)) st" for n
    using ids by (intro advance_spendable [OF assms(2)]) (auto simp: take_map [symmetric] dest: in_set_takeD)
  have "appr_inv (snd (threshold_gate E app rq c kind d name pol rid st))"
    using gate_with_request_inv [OF assms(2) used] gate_without_request_inv [OF assms(2) used taken]
    by (cases rid) (simp_all add: threshold_gate_def Let_def)
  with assms(1) show ?thesis by simp
qed

lemma approve_cases:
  assumes "approve_access_request E app rq i caller st = (resp, st')"
  obtains (same) "requests st' = requests st" "grants st' = grants st"
  | (recorded) r where "List.find (\<lambda>q. req_id q = i) (requests st) = Some r" "req_consumed r = None"
      "ac_id caller \<in> set (req_signatories r)" "ac_id caller \<notin> set (req_approvers r)"
      "requests st' = update_where (\<lambda>q. req_id q = i)
         (\<lambda>q. q\<lparr>req_approvers := req_approvers r @ [ac_id caller]\<rparr>) (requests st)"
      "grants st' = grants st"
  using assms
  by (auto simp: approve_access_request_def Let_def split: option.splits if_splits)

lemma approve_inv:
  assumes "approve_access_request E app rq i caller st = (resp, st')" and "appr_inv st"
  shows "appr_inv st'"
  using assms(1)
proof (cases rule: approve_cases)
  case same
  with assms(2) show ?thesis by (simp only: appr_inv_frame [OF same])
next
  case (recorded r)
  let ?f = "\<lambda>q. q\<lparr>req_approvers := req_approvers r @ [ac_id caller]\<rparr>"
  have "request_ok (?f q)" if "q \<in> set (requests st)" "req_id q = i" for q
  proof -
    have "q = r" using find_eq_by_id [OF _ recorded(1) that] assms(2) by (simp add: appr_inv_def)
    then show ?thesis
      using assms(2) that(1) recorded(3,4) by (auto simp: appr_inv_def request_ok_def)
  qed
  then show ?thesis
    using assms(2) recorded(5,6) by (auto simp: appr_inv_def map_update_where set_update_where)
qed

lemma create_access_grant_inv:
  assumes "create_access_grant E app rq b q caller st = (resp, st')" and "appr_inv st"
  shows "appr_inv st'"
proof -
  have "appr_inv (st\<lparr>grants := grants st @ [g]\<rparr>)"
    if "\<not> list_ex (\<lambda>h. ag_id h = ag_id g) (grants st)" "grant_ok g" for g
    using assms(2) that by (auto simp: appr_inv_def list_ex_iff)
  then show ?thesis
    using assms
    by (auto simp: create_access_grant_def Let_def grant_ok_def split: sum.splits option.splits if_splits)
qed

lemma revoke_access_grant_inv:
  assumes "revoke_access_grant E app rq i caller st = (resp, st')" and "appr_inv st"
  shows "appr_inv st'"
proof -
  have "grant_ok (g\<lparr>ag_revoked := x\<rparr>) = grant_ok g" for g x by (simp add: grant_ok_def split: option.split)
  then have "appr_inv (st\<lparr>grants := update_where P (\<lambda>g. g\<lparr>ag_revoked := x\<rparr>) (grants st)\<rparr>)" for P x
    using assms(2) by (auto simp: appr_inv_def map_update_where set_update_where)
  then show ?thesis
    using assms by (auto simp: revoke_access_grant_def split: option.splits if_splits)
qed

text \<open>
  The operations on requests and grants, in any order; \<open>other\<close> stands for every handler that
  leaves the two tables alone.
\<close>

inductive appr_step :: "ext \<Rightarrow> app \<Rightarrow> 'a appr_state_scheme \<Rightarrow> 'a appr_state_scheme \<Rightarrow> bool"
  for E app where
  gate: "threshold_gate E app rq c kind d name pol rid st = (g, st') \<Longrightarrow> appr_step E app st st'"
| approve: "approve_access_request E app rq i caller st = (resp, st') \<Longrightarrow> appr_step E app st st'"
| grant: "create_access_grant E app rq b q caller st = (resp', st') \<Longrightarrow> appr_step E app st st'"
| revoke: "revoke_access_grant E app rq i caller st = (resp', st') \<Longrightarrow> appr_step E app st st'"
| other: "requests st' = requests st \<Longrightarrow> grants st' = grants st \<Longrightarrow> appr_step E app st st'"

lemma appr_step_inv: "appr_step E app st st' \<Longrightarrow> appr_inv st \<Longrightarrow> appr_inv st'"
proof (induction rule: appr_step.induct)
  case (gate rq c kind d name pol rid st g st')
  then show ?case by (rule gate_inv)
next
  case (approve rq i caller st resp st')
  then show ?case by (rule approve_inv)
next
  case (grant rq b q caller st resp' st')
  then show ?case by (rule create_access_grant_inv)
next
  case (revoke rq i caller st resp' st')
  then show ?case by (rule revoke_access_grant_inv)
next
  case (other st' st)
  then show ?case by (simp only: appr_inv_frame [OF other.hyps])
qed

interpretation appr: step_invariant "appr_step E app" appr_inv for E app
  by unfold_locales (rule appr_step_inv)

section \<open>Requests are used once\<close>

definition spent :: "string \<Rightarrow> 'a appr_state_scheme \<Rightarrow> bool" where
  "spent rid st \<longleftrightarrow> (\<exists>r \<in> set (requests st). req_id r = rid \<and> req_consumed r \<noteq> None)"

lemma spent_update:
  assumes "spent rid st" and "requests st' = update_where P f (requests st)"
    and "\<And>q. req_id (f q) = req_id q" and "\<And>q. req_consumed q \<noteq> None \<Longrightarrow> req_consumed (f q) \<noteq> None"
  shows "spent rid st'"
proof -
  obtain r where "r \<in> set (requests st)" "req_id r = rid" "req_consumed r \<noteq> None"
    using assms(1) by (auto simp: spent_def)
  then have "(if P r then f r else r) \<in> set (requests st')"
    "req_id (if P r then f r else r) = rid" "req_consumed (if P r then f r else r) \<noteq> None"
    using assms(2-4) by (auto simp: set_update_where)
  then show ?thesis unfolding spent_def by blast
qed

lemma spent_mark: "spent rid st \<Longrightarrow> spent rid (mark_consumed rq i st)"
  by (erule spent_update [where P = "\<lambda>r. req_id r = i \<and> req_consumed r = None"
        and f = "\<lambda>r. r\<lparr>req_consumed := Some (now rq)\<rparr>"]) (simp_all add: mark_consumed_def)

lemma spent_frame: "requests st' = requests st \<Longrightarrow> spent rid st' = spent rid st"
  by (simp add: spent_def)

lemma spent_create:
  "create_access_request E app rq c kind d name pol st = (s, st') \<Longrightarrow> spent rid st \<Longrightarrow> spent rid st'"
  by (auto simp: create_access_request_def Let_def spent_def split: option.splits sum.splits if_splits)

lemma spent_gate:
  assumes "spent rid st"
  shows "spent rid (snd (threshold_gate E app rq c kind d name pol i st))"
proof -
  obtain s st1 where cr: "create_access_request E app rq c kind d name pol st = (s, st1)" by fastforce
  note s1 = spent_create [OF cr assms]
  have con: "spent rid (consume_grant_uses is st2) = spent rid st2" for "is" and st2 :: "'a appr_state_scheme"
    by (rule spent_frame) simp
  have log: "spent rid (audit E app rq k c' a r s' m st2) = spent rid st2"
    for k c' a r s' m and st2 :: "'a appr_state_scheme"
    by (rule spent_frame) simp
  show ?thesis
    using assms s1 cr
    by (cases i) (simp_all add: threshold_gate_def gate_with_request_def gate_without_request_def Let_def
        con log spent_mark split: option.split)
qed

lemma spent_approve:
  assumes "approve_access_request E app rq i caller st = (resp, st')" and "spent rid st"
  shows "spent rid st'"
  using assms(1)
proof (cases rule: approve_cases)
  case (recorded r)
  show ?thesis by (rule spent_update [OF assms(2) recorded(5)]) simp_all
qed (use assms(2) in \<open>simp add: spent_def\<close>)

lemma grant_ops_requests:
  "create_access_grant E app rq b q caller st = (resp, st') \<Longrightarrow> requests st' = requests st"
  "revoke_access_grant E app rq i caller st = (resp, st') \<Longrightarrow> requests st' = requests st"
  by (auto simp: create_access_grant_def revoke_access_grant_def Let_def
      split: sum.splits option.splits if_splits)

lemma appr_step_spent: "appr_step E app st st' \<Longrightarrow> spent rid st \<Longrightarrow> spent rid st'"
proof (induction rule: appr_step.induct)
  case (gate rq c kind d name pol i st g st')
  then show ?case using spent_gate [of rid st E app rq c kind d name pol i] by simp
next
  case (approve rq i caller st resp st')
  then show ?case by (rule spent_approve)
next
  case (grant rq b q caller st resp' st')
  then show ?case by (simp only: spent_frame [OF grant_ops_requests(1) [OF grant.hyps]])
next
  case (revoke rq i caller st resp' st')
  then show ?case by (simp only: spent_frame [OF grant_ops_requests(2) [OF revoke.hyps]])
next
  case (other st' st)
  then show ?case by (simp only: spent_frame [OF other.hyps(1)])
qed

interpretation used: step_invariant "appr_step E app" "spent rid" for E app rid
  by unfold_locales (rule appr_step_spent)

lemma spent_stops:
  assumes "appr_inv st" and "spent rid st"
  shows "fst (threshold_gate E app rq c kind d name pol (Some rid) st) \<noteq> Proceed"
proof -
  obtain r where r: "r \<in> set (requests st)" "req_id r = rid" "req_consumed r \<noteq> None"
    using assms(2) by (auto simp: spent_def)
  have "List.find (\<lambda>q. req_id q = rid) (requests st) = Some r"
    using find_by_id [of req_id, OF _ r(1)] assms(1) r(2) by (simp add: appr_inv_def)
  then show ?thesis
    using r(3) by (simp add: threshold_gate_def Let_def gate_with_request_Proceed open_and_mine_def)
qed

lemma gate_spends:
  assumes "threshold_gate E app rq c kind d name pol (Some rid) st = (Proceed, st')"
  shows "spent rid st'"
proof -
  let ?adv = "advance_approvers E app rq (ac_id c) kind d name (signatories pol) st"
  have g: "gate_with_request E app rq c kind name rid ?adv st = (Proceed, st')"
    using assms by (simp add: threshold_gate_def Let_def)
  then obtain r where r: "List.find (\<lambda>q. req_id q = rid) (requests st) = Some r" "open_and_mine E app rq c kind name r"
    using gate_with_request_Proceed [of E app rq c kind name rid ?adv st] by auto
  then have "r \<in> set (requests st)" "req_id r = rid" "req_consumed r = None"
    by (auto dest: find_SomeD simp: open_and_mine_def Let_def)
  then have "r\<lparr>req_consumed := Some (now rq)\<rparr> \<in> set (requests (mark_consumed rq rid st))"
    "req_id (r\<lparr>req_consumed := Some (now rq)\<rparr>) = rid"
    by (auto simp: mark_consumed_def set_update_where)
  then have "spent rid (mark_consumed rq rid st)"
    unfolding spent_def by (intro bexI conjI) (assumption | simp)+
  moreover have "requests st' = requests (mark_consumed rq rid st)"
    using g r by (auto simp: gate_with_request_def Let_def split: if_splits)
  ultimately show ?thesis using spent_frame by blast
qed

section \<open>Collecting approvals\<close>

text \<open>A sequence of approvals of one request, each with its time and caller.\<close>

fun approve_all ::
    "ext \<Rightarrow> app \<Rightarrow> string \<Rightarrow> (request \<times> authenticated_client) list \<Rightarrow> 'a appr_state_scheme \<Rightarrow> 'a appr_state_scheme" where
  "approve_all E app i [] st = st"
| "approve_all E app i ((rq, caller) # xs) st =
     approve_all E app i xs (snd (approve_access_request E app rq i caller st))"

definition set_approvers :: "string list \<Rightarrow> access_request \<Rightarrow> access_request" where
  "set_approvers as r = r\<lparr>req_approvers := as\<rparr>"

lemma set_approvers_fields [simp]:
  "req_id (set_approvers as r) = req_id r" "req_created (set_approvers as r) = req_created r"
  "req_approvers (set_approvers as r) = as" "set_approvers as (set_approvers bs r) = set_approvers as r"
  "req_consumed (set_approvers as r) = req_consumed r" "req_expires (set_approvers as r) = req_expires r"
  "req_signatories (set_approvers as r) = req_signatories r"
  "is_open rq c kind d n (set_approvers as r) = is_open rq c kind d n r"
  by (simp_all add: set_approvers_def is_open_def)

lemma set_approvers_same: "set_approvers (req_approvers r) r = r"
  by (simp add: set_approvers_def)

lemma keep_approvers:
  assumes "appr_inv st" and "List.find (\<lambda>q. req_id q = i) (requests st) = Some r"
  shows "update_where (\<lambda>q. req_id q = i) (set_approvers (req_approvers r)) (requests st) = requests st"
  by (rule update_where_id [of req_id, OF _ assms(2)])
    (use assms(1) in \<open>simp_all add: appr_inv_def set_approvers_same\<close>)

lemma approve_adds:
  assumes "appr_inv st" and "List.find (\<lambda>q. req_id q = i) (requests st) = Some r" and "req_consumed r = None"
    and "now rq < req_expires r" and "ac_id caller \<in> set (req_signatories r)"
  shows "\<exists>as. requests (snd (approve_access_request E app rq i caller st))
      = update_where (\<lambda>q. req_id q = i) (set_approvers as) (requests st)
    \<and> set as = insert (ac_id caller) (set (req_approvers r))"
proof (cases "ac_id caller \<in> set (req_approvers r)")
  case True
  have "requests (snd (approve_access_request E app rq i caller st)) = requests st"
    using assms True by (simp add: approve_access_request_def)
  moreover have "update_where (\<lambda>q. req_id q = i) (set_approvers (req_approvers r)) (requests st) = requests st"
    by (rule keep_approvers [OF assms(1,2)])
  ultimately show ?thesis using True by (intro exI [of _ "req_approvers r"]) auto
next
  case False
  then show ?thesis
    using assms by (intro exI [of _ "req_approvers r @ [ac_id caller]"])
      (simp add: approve_access_request_def Let_def set_approvers_def [abs_def])
qed

lemma approve_all_adds:
  assumes "appr_inv st" and "List.find (\<lambda>q. req_id q = i) (requests st) = Some r" and "req_consumed r = None"
    and "\<forall>(rq, caller) \<in> set xs. now rq < req_expires r \<and> ac_id caller \<in> set (req_signatories r)"
  shows "\<exists>as. requests (approve_all E app i xs st) = update_where (\<lambda>q. req_id q = i) (set_approvers as) (requests st)
    \<and> set as = set (req_approvers r) \<union> (ac_id \<circ> snd) ` set xs"
  using assms
proof (induction xs arbitrary: st r)
  case Nil
  have "update_where (\<lambda>q. req_id q = i) (set_approvers (req_approvers r)) (requests st) = requests st"
    by (rule keep_approvers [OF Nil.prems(1,2)])
  then show ?case by (intro exI [of _ "req_approvers r"]) simp
next
  case (Cons x xs)
  obtain rq caller where x: "x = (rq, caller)" by fastforce
  let ?st = "snd (approve_access_request E app rq i caller st)"
  obtain as where as: "requests ?st = update_where (\<lambda>q. req_id q = i) (set_approvers as) (requests st)"
      "set as = insert (ac_id caller) (set (req_approvers r))"
    using approve_adds [OF Cons.prems(1-3), of rq caller E app] Cons.prems(4) x by auto
  have inv: "appr_inv ?st" using approve_inv [OF _ Cons.prems(1)] by (metis prod.collapse)
  have f: "List.find (\<lambda>q. req_id q = i) (requests ?st) = Some (set_approvers as r)"
    using as(1) Cons.prems(2) by (simp add: find_update_by_id)
  have "req_consumed (set_approvers as r) = None" "\<forall>(rq, caller) \<in> set xs. now rq < req_expires (set_approvers as r)
      \<and> ac_id caller \<in> set (req_signatories (set_approvers as r))"
    using Cons.prems(3,4) by auto
  from Cons.IH [OF inv f this] obtain bs where
    bs: "requests (approve_all E app i xs ?st) = update_where (\<lambda>q. req_id q = i) (set_approvers bs) (requests ?st)"
      "set bs = set as \<union> (ac_id \<circ> snd) ` set xs" by auto
  have "set_approvers bs \<circ> set_approvers as = set_approvers bs" by (simp add: fun_eq_iff)
  then have "requests (approve_all E app i xs ?st) = update_where (\<lambda>q. req_id q = i) (set_approvers bs) (requests st)"
    using bs(1) as(1) by (simp add: update_where_twice)
  then show ?case using bs(2) as(2) x by (intro exI [of _ bs]) auto
qed

lemma approve_all_inv: "appr_inv st \<Longrightarrow> appr_inv (approve_all E app i xs st)"
proof (induction xs arbitrary: st)
  case (Cons x xs)
  then show ?case
    by (cases x) (metis approve_all.simps(2) approve_inv prod.collapse)
qed simp

lemma find_map: "List.find P (map g xs) = map_option g (List.find (P \<circ> g) xs)"
  by (induction xs) auto

lemma insort_key_map: "(\<And>r. f (g r) = f r) \<Longrightarrow> insort_key f (g x) (map g xs) = map g (insort_key f x xs)"
  by (induction xs) auto

lemma sort_key_map: "(\<And>r. f (g r) = f r) \<Longrightarrow> sort_key f (map g xs) = map g (sort_key f xs)"
  by (induction xs) (simp_all add: insort_key_map)

lemma open_request_update:
  assumes "requests st' = update_where (\<lambda>q. req_id q = i) (set_approvers as) (requests st)"
    and "open_request rq c kind d n st = Some r" and "req_id r = i"
  shows "open_request rq c kind d n st' = Some (set_approvers as r)"
proof -
  let ?g = "\<lambda>q. if req_id q = i then set_approvers as q else q"
  have "is_open rq c kind d n \<circ> ?g = is_open rq c kind d n" by (simp add: fun_eq_iff)
  then show ?thesis
    using assms by (simp add: open_request_def update_where_def sort_key_map rev_map find_map)
qed

section \<open>Properties\<close>

definition demo_request :: access_request where
  "demo_request = \<lparr>req_id = ''q1'', req_requester = ''bob'', req_kind = ''secret'', req_domain = ''dom'',
     req_name_enc = zeros 12 @ as_bytes ''db/x'' @ zeros 16,
     req_name_id = name_id_hex demo_ext (name_index_key demo_app) ''dom'' ''db/x'', req_threshold = 1,
     req_signatories = [''s1'', ''s2''], req_approvers = [''s1''], req_created = 0, req_expires = 100,
     req_consumed = None\<rparr>"

definition demo_appr :: appr_state where
  "demo_appr = \<lparr>audit_log = [], audit_next = 1, anchors = [], archive_files = [], clients = [], domains = [],
     members = [], acls = [], requests = [demo_request], grants = []\<rparr>"

text \<open>
  C3. The gate of a read without a request id refines its specification: the read proceeds if
  and only if at least \<open>threshold_k\<close> different clients stand behind it, where those are the
  policy's signatories with a standing grant that is active and matches, and the approvers of
  the reader's open request for this very resource.
\<close>

theorem gate_quorum:
  assumes "distinct (map req_id (requests st))"
  shows "fst (threshold_gate E app rq c kind d name pol None st) = Proceed \<longleftrightarrow>
    threshold_k pol \<le> int (card (live_approvers E app rq (ac_id c) kind d name st
      \<union> standing E app rq (ac_id c) kind d name (signatories pol) st))"
  using gate_without_request_exact [OF assms, of "advance_approvers E app rq (ac_id c) kind d name (signatories pol) st"]
  by (simp add: threshold_gate_def advance_approvers_fst advance_approvers_length)

text \<open>
  The gate of a read with a request id proceeds exactly when the first request with that id
  is unconsumed, unexpired, made by the reader for this kind and name, and its approvers together
  with the standing grants reach the threshold of the request.
\<close>

theorem gate_by_request:
  "fst (threshold_gate E app rq c kind d name pol (Some rid) st) = Proceed \<longleftrightarrow>
    (\<exists>r. List.find (\<lambda>q. req_id q = rid) (requests st) = Some r \<and> open_and_mine E app rq c kind name r
      \<and> req_threshold r \<le> int (card (set (req_approvers r)
          \<union> standing E app rq (ac_id c) kind d name (signatories pol) st)))"
  by (simp add: threshold_gate_def Let_def gate_with_request_Proceed advance_approvers_fst)

text \<open>
  C8. A request opens one read: once a read has proceeded on a request id, no read proceeds on
  it again, by any client for any resource at any time, after any sequence of reads, approvals,
  grants and revocations.
\<close>

theorem request_single_use:
  assumes "appr_inv st" and "threshold_gate E app rq c kind d name pol (Some rid) st = (Proceed, st')"
    and "rtranclp (appr_step E app) st' st''"
  shows "fst (threshold_gate E app rq' c' kind' d' name' pol' (Some rid) st'') \<noteq> Proceed"
proof -
  have "appr_inv st''" using appr.steps_keep [OF assms(3) gate_inv [OF assms(2,1)]] .
  moreover have "spent rid st''" using used.steps_keep [OF assms(3) gate_spends [OF assms(2)]] .
  ultimately show ?thesis by (rule spent_stops)
qed

text \<open>
  In every state reached from empty tables by reads, approvals, grants and revocations, ids
  are unique, the approvers of a request are different clients among its signatories, and no
  grant has been used more often than it allows.
\<close>

theorem approvals_reachable:
  assumes "requests st = []" and "grants st = []" and "rtranclp (appr_step E app) st st'"
  shows "appr_inv st'"
  by (rule appr.steps_keep [OF assms(3)]) (simp add: appr_inv_def assms(1,2))

text \<open>
  C40. Enough approvals let the requester read: when different signatories of the reader's open
  request approve it before it expires, in any order and with repetitions, and with the earlier
  approvers they are at least \<open>threshold_k\<close>, the next read proceeds.
\<close>

theorem approvals_suffice:
  assumes "appr_inv st"
    and "open_request rq (ac_id c) kind d (name_id_hex E (name_index_key app) d name) st = Some r"
    and "\<forall>(rq, caller) \<in> set xs. now rq < req_expires r \<and> ac_id caller \<in> set (req_signatories r)"
    and "threshold_k pol \<le> int (card (set (req_approvers r) \<union> (ac_id \<circ> snd) ` set xs))"
  shows "fst (threshold_gate E app rq c kind d name pol None (approve_all E app (req_id r) xs st)) = Proceed"
proof -
  let ?st = "approve_all E app (req_id r) xs st"
  have r: "r \<in> set (requests st)" "req_consumed r = None"
    using open_request_SomeD [OF assms(2)] by (auto simp: is_open_def)
  have "List.find (\<lambda>q. req_id q = req_id r) (requests st) = Some r"
    using find_by_id [of req_id, OF _ r(1)] assms(1) by (simp add: appr_inv_def)
  from approve_all_adds [OF assms(1) this r(2) assms(3), of E app] obtain as
    where as: "requests ?st = update_where (\<lambda>q. req_id q = req_id r) (set_approvers as) (requests st)"
      "set as = set (req_approvers r) \<union> (ac_id \<circ> snd) ` set xs" by blast
  have "live_approvers E app rq (ac_id c) kind d name ?st = set as"
    by (simp add: live_approvers_def open_request_update [OF as(1) assms(2)])
  moreover have "finite (standing E app rq (ac_id c) kind d name (signatories pol) ?st)"
    by (simp add: standing_def)
  ultimately have "threshold_k pol \<le> int (card (live_approvers E app rq (ac_id c) kind d name ?st
      \<union> standing E app rq (ac_id c) kind d name (signatories pol) ?st))"
    using assms(4) as(2) card_mono [of "set as \<union> standing E app rq (ac_id c) kind d name (signatories pol) ?st" "set as"]
    by simp
  moreover have "distinct (map req_id (requests ?st))"
    using approve_all_inv [OF assms(1)] by (simp add: appr_inv_def)
  ultimately show ?thesis
    using gate_without_request_exact [of ?st "advance_approvers E app rq (ac_id c) kind d name (signatories pol) ?st"
        E app rq c kind d name pol]
    by (simp add: threshold_gate_def advance_approvers_fst advance_approvers_length)
qed

text \<open>
  A request id is accepted for a resource of the same kind and name in any domain and under
  any policy: an approved request of the reader lets the read proceed whatever the domain and
  the threshold and signatories that guard the resource.
\<close>

theorem request_ignores_domain:
  assumes "List.find (\<lambda>q. req_id q = rid) (requests st) = Some r" and "open_and_mine E app rq c kind name r"
    and "req_threshold r \<le> int (card (set (req_approvers r)))"
  shows "fst (threshold_gate E app rq c kind other_domain name other_policy (Some rid) st) = Proceed"
proof -
  have "card (set (req_approvers r)) \<le> card (set (req_approvers r)
      \<union> fst ` set (advance_approvers E app rq (ac_id c) kind other_domain name (signatories other_policy) st))"
    by (intro card_mono) auto
  then show ?thesis
    using assms by (auto simp: threshold_gate_def Let_def gate_with_request_Proceed)
qed

definition demo_policy :: "int \<Rightarrow> access_policy" where
  "demo_policy k = \<lparr>threshold_k = k, signatories = [''s1'', ''s2'']\<rparr>"

definition demo_signer :: authenticated_client where
  "demo_signer = \<lparr>ac_id = ''s2'', ac_name = ''s2'', ac_role = ''user'', ac_method = MutualTlsAndToken\<rparr>"

lemma demo_appr_inv: "appr_inv demo_appr"
  by (simp add: appr_inv_def demo_appr_def demo_request_def request_ok_def)

lemma demo_open:
  "open_request (demo_rq 5) (ac_id demo_user) ''secret'' ''dom'' (name_id_hex demo_ext (name_index_key demo_app) ''dom'' ''db/x'')
    demo_appr = Some demo_request"
  by (simp add: open_request_def is_open_def demo_appr_def demo_request_def demo_user_def demo_rq_def)

lemma demo_find: "List.find (\<lambda>q. req_id q = ''q1'') (requests demo_appr) = Some demo_request"
  by (simp add: demo_appr_def demo_request_def)

lemma demo_mine: "open_and_mine demo_ext demo_app (demo_rq 5) demo_user ''secret'' ''db/x'' demo_request"
proof -
  have "aead_open demo_ext (zeros 12 @ as_bytes ''db/x'' @ zeros 16) (metadata_enc_key demo_app) = Inr (as_bytes ''db/x'')"
    and "from_utf8 (as_bytes ''db/x'') = Some ''db/x''" by code_simp+
  then show ?thesis
    by (simp add: open_and_mine_def demo_request_def demo_user_def demo_rq_def)
qed

theorem gate_quorum_witness:
  "distinct (map req_id (requests demo_appr))
    \<and> fst (threshold_gate demo_ext demo_app (demo_rq 5) demo_user ''secret'' ''dom'' ''db/x'' (demo_policy 1) None demo_appr)
      = Proceed
    \<and> fst (threshold_gate demo_ext demo_app (demo_rq 5) demo_user ''secret'' ''dom'' ''db/x'' (demo_policy 2) None demo_appr)
      \<noteq> Proceed"
proof -
  have d: "distinct (map req_id (requests demo_appr))" by (simp add: demo_appr_def)
  have "live_approvers demo_ext demo_app (demo_rq 5) (ac_id demo_user) ''secret'' ''dom'' ''db/x'' demo_appr = {''s1''}"
    by (simp add: live_approvers_def demo_open) (simp add: demo_request_def)
  moreover have "standing demo_ext demo_app (demo_rq 5) (ac_id demo_user) ''secret'' ''dom'' ''db/x'' sigs demo_appr = {}" for sigs
    by (simp add: standing_def demo_appr_def)
  ultimately show ?thesis
    using d gate_quorum [OF d, of demo_ext demo_app "demo_rq 5" demo_user "''secret''" "''dom''" "''db/x''" "demo_policy 1"]
      gate_quorum [OF d, of demo_ext demo_app "demo_rq 5" demo_user "''secret''" "''dom''" "''db/x''" "demo_policy 2"]
    by (simp add: demo_policy_def)
qed

lemma demo_proceeds:
  "\<exists>st'. threshold_gate demo_ext demo_app (demo_rq 5) demo_user ''secret'' ''dom'' ''db/x'' (demo_policy 1) (Some ''q1'') demo_appr
    = (Proceed, st')"
proof -
  have "req_threshold demo_request \<le> int (card (set (req_approvers demo_request) \<union> A))" if "finite A" for A
    using that by (simp add: demo_request_def Suc_le_eq card_gt_0_iff)
  then have "fst (threshold_gate demo_ext demo_app (demo_rq 5) demo_user ''secret'' ''dom'' ''db/x'' (demo_policy 1)
      (Some ''q1'') demo_appr) = Proceed"
    using demo_find demo_mine by (simp add: threshold_gate_def Let_def gate_with_request_Proceed)
  then show ?thesis by (metis prod.collapse)
qed

theorem request_single_use_witness:
  "\<exists>st'. threshold_gate demo_ext demo_app (demo_rq 5) demo_user ''secret'' ''dom'' ''db/x'' (demo_policy 1) (Some ''q1'') demo_appr
      = (Proceed, st')
    \<and> fst (threshold_gate demo_ext demo_app (demo_rq 6) demo_user ''secret'' ''dom'' ''db/x'' (demo_policy 1) (Some ''q1'') st')
      \<noteq> Proceed"
proof -
  obtain st' where st': "threshold_gate demo_ext demo_app (demo_rq 5) demo_user ''secret'' ''dom'' ''db/x'' (demo_policy 1)
      (Some ''q1'') demo_appr = (Proceed, st')"
    using demo_proceeds by blast
  from request_single_use [OF demo_appr_inv st' rtranclp.rtrancl_refl] st' show ?thesis by blast
qed

theorem approvals_reachable_witness:
  "appr_inv (snd (threshold_gate demo_ext demo_app (demo_rq 5) demo_user ''secret'' ''dom'' ''db/x'' (demo_policy 1) None
    (demo_appr\<lparr>requests := []\<rparr>)))"
  by (rule approvals_reachable [of "demo_appr\<lparr>requests := []\<rparr>" demo_ext demo_app])
    (auto simp: demo_appr_def intro: r_into_rtranclp appr_step.gate [OF prod.collapse [symmetric]])

theorem approvals_suffice_witness:
  "fst (threshold_gate demo_ext demo_app (demo_rq 5) demo_user ''secret'' ''dom'' ''db/x'' (demo_policy 2) None
    (approve_all demo_ext demo_app ''q1'' [(demo_rq 3, demo_signer), (demo_rq 4, demo_signer)] demo_appr)) = Proceed"
proof -
  have "req_id demo_request = ''q1''" by (simp add: demo_request_def)
  with approvals_suffice [OF demo_appr_inv demo_open, of "[(demo_rq 3, demo_signer), (demo_rq 4, demo_signer)]" "demo_policy 2"]
  show ?thesis by (simp add: demo_request_def demo_rq_def demo_signer_def demo_policy_def)
qed

theorem request_ignores_domain_witness:
  "fst (threshold_gate demo_ext demo_app (demo_rq 5) demo_user ''secret'' ''vault'' ''db/x''
    \<lparr>threshold_k = 3, signatories = [''a'', ''b'', ''c'']\<rparr> (Some ''q1'') demo_appr) = Proceed"
  by (rule request_ignores_domain [OF demo_find demo_mine]) (simp add: demo_request_def)

end
