(* ===== verification/Secrets.thy ===== *)
theory Secrets
  imports Approvals
begin

text \<open>
  String secrets (\<open>server.rs\<close>): storing under the two server-side layers or as an opaque client
  envelope, reading through the access rules, the approval gate, the second factor and the read
  limit, the teardown after a read (deletion or tombstone), deletion and listing. The lemmas show
  what a successful read implies, that reading returns what was stored, that the read limit holds
  under every interleaving of requests, that the budget and the rate limit of a rule bound the reads
  it admits, and that immutable and exhausted secrets stay so.
\<close>

section \<open>Data\<close>

record resource_flags =
  mfa_required :: bool
  delete_on_read :: bool
  max_reads :: "int option"
  rotate_on_read :: bool
  preserve_on_cleanup :: bool
  no_overwrite :: bool

definition default_flags :: resource_flags where
  "default_flags = \<lparr>mfa_required = False, delete_on_read = False, max_reads = None, rotate_on_read = False,
     preserve_on_cleanup = False, no_overwrite = False\<rparr>"

record secret_row =
  sr_id :: string
  sr_name_enc :: bytes
  sr_name_id :: string
  sr_domain :: string
  sr_layer1 :: bytes
  sr_layer2 :: bytes
  sr_wrapped :: string
  sr_external :: bool
  sr_envelope :: "bytes option"
  sr_flags :: resource_flags
  sr_reads :: int
  sr_policy :: "access_policy option"
  sr_exhausted :: "int option"
  sr_created :: int
  sr_updated :: int
  sr_method :: string

record secret_state = appr_state +
  secrets :: "secret_row list"

section \<open>The sealed key bundle\<close>

text \<open>The JSON form of a key bundle (crate serde_json).\<close>

record key_codec =
  key_to_json :: "blackbook_key \<Rightarrow> bytes option"
  key_of_json :: "bytes \<Rightarrow> blackbook_key option"

definition key_codec_law :: "key_codec \<Rightarrow> bool" where
  "key_codec_law K \<longleftrightarrow> (\<forall>ks j. key_to_json K ks = Some j \<longrightarrow> key_of_json K j = Some ks)"

definition serialize_keys ::
    "ext \<Rightarrow> key_codec \<Rightarrow> nat \<Rightarrow> bytes \<Rightarrow> blackbook_key \<Rightarrow> string crypto_result" where
  "serialize_keys E K secs salt ks =
     and_then (ok_or Json (key_to_json K ks)) (\<lambda>json.
     and_then (symmetric_bytes E ks) (\<lambda>key_bytes.
     and_then (encrypt_aes_gcm E secs salt json key_bytes) (\<lambda>encrypted.
       Inr (b64_encode E encrypted))))"

definition deserialize_keys ::
    "ext \<Rightarrow> key_codec \<Rightarrow> string \<Rightarrow> bytes \<Rightarrow> blackbook_key crypto_result" where
  "deserialize_keys E K data symmetric_key =
     and_then (ok_or Base64 (b64_decode E data)) (\<lambda>encrypted.
     and_then (decrypt_aes_gcm E encrypted symmetric_key) (\<lambda>decrypted.
       ok_or Json (key_of_json K decrypted)))"

section \<open>Storing\<close>

record store_request =
  sq_name :: string
  sq_data :: string
  sq_flags :: "resource_flags option"
  sq_policy :: "access_policy option"
  sq_overwrite :: bool
  sq_external :: "string option"

text \<open>The decoded client envelope: \<open>Inl\<close> is the reply to a bad one.\<close>

definition external_blob :: "ext \<Rightarrow> store_request \<Rightarrow> 'b response + bytes option" where
  "external_blob E req = (case sq_external req of
      None \<Rightarrow> Inr None
    | Some b64 \<Rightarrow>
      (case b64_decode E b64 of
         None \<Rightarrow> Inl (ActixError 400)
       | Some b \<Rightarrow> if b = [] then Inl (ErrorReply 400 ''validation_error'') else Inr (Some b)))"

definition secs_of :: "request \<Rightarrow> nat" where
  "secs_of rq = nat (now rq div 1000000)"

text \<open>The two layers and the sealed key bundle of a server-side secret.\<close>

definition seal_layers ::
    "ext \<Rightarrow> key_codec \<Rightarrow> app \<Rightarrow> request \<Rightarrow> string \<Rightarrow> (bytes \<times> bytes \<times> string) crypto_result" where
  "seal_layers E K app rq data =
     and_then (handle E (secret_layer1 (bb_keys app))) (\<lambda>primary.
     and_then (handle E (secret_layer2 (bb_keys app))) (\<lambda>secondary.
     and_then (encrypt_aes_gcm E (secs_of rq) (rand rq 0 32) (as_bytes data) primary) (\<lambda>l1.
     and_then (encrypt_aes_gcm E (secs_of rq) (rand rq 1 32) l1 secondary) (\<lambda>l2.
     and_then (serialize_keys E K (secs_of rq) (rand rq 2 32) (bb_keys app)) (\<lambda>w.
       Inr (l1, l2, w))))))"

definition enc_method :: "bool \<Rightarrow> string" where
  "enc_method external =
     (if external then ''client-side (external) + server at-rest'' else ''AES-256-GCM (2-layer)'')"

text \<open>What a row keeps of the value: both layers, the key bundle, and the envelope at rest.\<close>

definition store_payload ::
    "ext \<Rightarrow> key_codec \<Rightarrow> app \<Rightarrow> request \<Rightarrow> string \<Rightarrow> bytes option
      \<Rightarrow> (bytes \<times> bytes \<times> string \<times> bytes option) crypto_result" where
  "store_payload E K app rq data blob = (case blob of
      Some b \<Rightarrow> and_then (enc_field E (rand rq 3 12) (metadata_enc_key app) b)
        (\<lambda>c. Inr ([], [], [], Some c))
    | None \<Rightarrow> and_then (seal_layers E K app rq data) (\<lambda>(l1, l2, w). Inr (l1, l2, w, None)))"

text \<open>Signatory names to client ids; \<open>None\<close> when a name is unknown.\<close>

fun signatory_ids :: "ext \<Rightarrow> app \<Rightarrow> 'a acct_state_scheme \<Rightarrow> string list \<Rightarrow> string list option" where
  "signatory_ids E app st [] = Some []"
| "signatory_ids E app st (n # ns) =
     (case List.find (\<lambda>c. cl_name_id c = client_name_id_hex E (name_index_key app) n) (clients st) of
        None \<Rightarrow> None
      | Some c \<Rightarrow> map_option (\<lambda>ids. cl_id c # ids) (signatory_ids E app st ns))"

definition policy_value ::
    "ext \<Rightarrow> app \<Rightarrow> 'a acct_state_scheme \<Rightarrow> access_policy option \<Rightarrow> 'b response + access_policy option" where
  "policy_value E app st policy = (case policy of
      None \<Rightarrow> Inr None
    | Some p \<Rightarrow>
        if threshold_k p < 1 \<or> threshold_k p > int (length (signatories p))
        then Inl (ErrorReply 400 ''validation_error'')
        else if signatories p = [] then Inl (ErrorReply 400 ''validation_error'')
        else (case signatory_ids E app st (signatories p) of
                None \<Rightarrow> Inl (ErrorReply 400 ''unknown_signatory'')
              | Some ids \<Rightarrow> Inr (Some \<lparr>threshold_k = threshold_k p, signatories = ids\<rparr>)))"

datatype store_reply = Stored string | Updated string

type_synonym payload = "bytes \<times> bytes \<times> string \<times> bytes option"

definition write_payload :: "request \<Rightarrow> payload \<Rightarrow> secret_row \<Rightarrow> secret_row" where
  "write_payload rq payload q = (case payload of (l1, l2, w, env) \<Rightarrow>
     q\<lparr>sr_layer1 := l1, sr_layer2 := l2, sr_wrapped := w, sr_external := (env \<noteq> None),
       sr_envelope := env, sr_method := enc_method (env \<noteq> None), sr_updated := now rq\<rparr>)"

definition overwrite_secret ::
    "request \<Rightarrow> secret_row \<Rightarrow> payload \<Rightarrow> 'a secret_state_scheme \<Rightarrow> 'a secret_state_scheme" where
  "overwrite_secret rq r payload st =
     st\<lparr>secrets := update_where (\<lambda>q. sr_id q = sr_id r) (write_payload rq payload) (secrets st)\<rparr>"

definition insert_secret ::
    "ext \<Rightarrow> app \<Rightarrow> request \<Rightarrow> store_request \<Rightarrow> string \<Rightarrow> string
      \<Rightarrow> payload \<Rightarrow> 'a secret_state_scheme \<Rightarrow> store_reply response \<times> 'a secret_state_scheme" where
  "insert_secret E app rq req domain_id name_id payload st =
     (let new_id = hex_encode E (rand rq 4 32)
      in case policy_value E app st (sq_policy req) of
           Inl resp \<Rightarrow> (resp, st)
         | Inr policy \<Rightarrow>
           (case enc_str E (rand rq 5 12) (metadata_enc_key app) (sq_name req) of
              Inl e \<Rightarrow> (ActixError 500, st)
            | Inr name_enc \<Rightarrow>
                if list_ex (\<lambda>q. sr_id q = new_id \<or> sr_domain q = domain_id \<and> sr_name_id q = name_id) (secrets st)
                then (ActixError 500, st)
                else
                  (case payload of (l1, l2, w, env) \<Rightarrow>
                    (Reply 201 (Stored new_id),
                     st\<lparr>secrets := secrets st @
                       [\<lparr>sr_id = new_id, sr_name_enc = name_enc, sr_name_id = name_id, sr_domain = domain_id,
                         sr_layer1 = l1, sr_layer2 = l2, sr_wrapped = w, sr_external = (env \<noteq> None),
                         sr_envelope = env,
                         sr_flags = (case sq_flags req of None \<Rightarrow> default_flags | Some f \<Rightarrow> f),
                         sr_reads = 0, sr_policy = policy, sr_exhausted = None, sr_created = now rq,
                         sr_updated = now rq, sr_method = enc_method (env \<noteq> None)\<rparr>]\<rparr>))))"

text \<open>The part of \<open>store_data\<close> after the checks on existing rows: authorisation, sealing, writing.\<close>

definition store_checked ::
    "ext \<Rightarrow> key_codec \<Rightarrow> app \<Rightarrow> request \<Rightarrow> store_request \<Rightarrow> bytes option \<Rightarrow> string \<Rightarrow> string \<Rightarrow> secret_row option
      \<Rightarrow> authenticated_client \<Rightarrow> 'a secret_state_scheme \<Rightarrow> store_reply response \<times> 'a secret_state_scheme" where
  "store_checked E K app rq req blob domain_id name_id existed client st =
     (let action = (if existed \<noteq> None then Update else Create);
          log = (\<lambda>status. audit E app rq 0 (Some (ac_id client)) (action_name action) (Some (sq_name req)) status None);
          decision = acl_check E app rq client domain_id (sq_name req) action st
      in if \<not> is_allowed decision then (ErrorReply 403 ''forbidden'', log AuditDenied st)
         else
           (case store_payload E K app rq (sq_data req) blob of
              Inl e \<Rightarrow> (ActixError 500, st)
            | Inr payload \<Rightarrow>
              (case existed of
                 Some r \<Rightarrow>
                   (Reply 201 (Updated (sr_id r)),
                    log AuditOk (acl_record_use rq decision (overwrite_secret rq r payload st)))
               | None \<Rightarrow>
                 (case insert_secret E app rq req domain_id name_id payload st of
                    (Reply c v, st) \<Rightarrow> (Reply c v, log AuditOk (acl_record_use rq decision st))
                  | (resp, st) \<Rightarrow> (resp, st)))))"

definition store_data ::
    "ext \<Rightarrow> key_codec \<Rightarrow> app \<Rightarrow> request \<Rightarrow> store_request \<Rightarrow> string option \<Rightarrow> authenticated_client
      \<Rightarrow> 'a secret_state_scheme \<Rightarrow> store_reply response \<times> 'a secret_state_scheme" where
  "store_data E K app rq req q client st =
     (let log = (\<lambda>action resource status message.
            audit E app rq 0 (Some (ac_id client)) action resource status (Some message))
      in if sq_name req = []
         then (ErrorReply 400 ''validation_error'', log ''store'' None AuditError ''empty resource_name'' st)
         else
           (case external_blob E req of
              Inl resp \<Rightarrow> (resp, st)
            | Inr blob \<Rightarrow>
                if blob = None \<and> sq_data req = []
                then (ErrorReply 400 ''validation_error'',
                      log ''store'' (Some (sq_name req)) AuditError ''empty data'' st)
                else
                  (case resolve_and_gate_domain E app client q st of
                     Inl resp \<Rightarrow> (resp, st)
                   | Inr (domain_id, _) \<Rightarrow>
                     (let name_id = name_id_hex E (name_index_key app) domain_id (sq_name req);
                          existed = List.find (\<lambda>r. sr_domain r = domain_id \<and> sr_name_id r = name_id) (secrets st)
                      in if (case existed of None \<Rightarrow> False | Some r \<Rightarrow> no_overwrite (sr_flags r))
                         then (ErrorReply 409 ''immutable'', log ''create'' (Some (sq_name req)) AuditDenied
                                ''immutable: no_overwrite set'' st)
                         else if existed \<noteq> None \<and> \<not> sq_overwrite req
                         then (ErrorReply 409 ''already_exists'', log ''create'' (Some (sq_name req)) AuditDenied
                                ''already exists; overwrite not requested'' st)
                         else store_checked E K app rq req blob domain_id name_id existed client st))))"

section \<open>Reading\<close>

text \<open>The request headers a read looks at.\<close>

record read_headers =
  h_mfa :: "string option"
  h_request_id :: "string option"

record retrieved =
  rt_id :: string
  rt_name :: string
  rt_data :: string
  rt_created :: int
  rt_updated :: int
  rt_external :: bool
  rt_envelope :: "string option"

datatype retrieve_reply = Retrieved retrieved | ApprovalRequired request_summary

definition lookup_secret ::
    "ext \<Rightarrow> app \<Rightarrow> string \<Rightarrow> string \<Rightarrow> 'a secret_state_scheme \<Rightarrow> secret_row option" where
  "lookup_secret E app domain_id resource_id st =
     (let name_id = name_id_hex E (name_index_key app) domain_id resource_id
      in List.find (\<lambda>r. sr_domain r = domain_id \<and> (sr_id r = resource_id \<or> sr_name_id r = name_id)) (secrets st))"

text \<open>The tightest of \<open>max_reads\<close> and one for \<open>delete_on_read\<close>.\<close>

definition read_cap :: "resource_flags \<Rightarrow> int option" where
  "read_cap f = (case (max_reads f, delete_on_read f) of
      (Some m, True) \<Rightarrow> Some (min m 1)
    | (Some m, False) \<Rightarrow> Some m
    | (None, True) \<Rightarrow> Some 1
    | (None, False) \<Rightarrow> None)"

definition bump_reads :: "secret_row \<Rightarrow> secret_row" where
  "bump_reads r = (if sr_reads r + 1 \<le> i64_max then r\<lparr>sr_reads := sr_reads r + 1\<rparr> else r)"

definition claimable :: "string \<Rightarrow> int \<Rightarrow> secret_row \<Rightarrow> bool" where
  "claimable i cap r \<longleftrightarrow> sr_id r = i \<and> sr_exhausted r = None \<and> sr_reads r < cap"

text \<open>
  The atomic claim of a read: \<open>Some\<close> the new count, or \<open>None\<close> when the conditional update
  matches no row.
\<close>

definition claim_read :: "string \<Rightarrow> int \<Rightarrow> secret_row list \<Rightarrow> int option \<times> secret_row list" where
  "claim_read i cap rows = (case List.find (claimable i cap) rows of
      None \<Rightarrow> (None, rows)
    | Some r \<Rightarrow> (Some (sr_reads r + 1), update_where (claimable i cap) (\<lambda>r. r\<lparr>sr_reads := sr_reads r + 1\<rparr>) rows))"

definition serve_payload ::
    "ext \<Rightarrow> app \<Rightarrow> secret_row \<Rightarrow> (string \<times> string option) crypto_result" where
  "serve_payload E app r =
     (if sr_external r
      then and_then (dec_field E (metadata_enc_key app) (case sr_envelope r of None \<Rightarrow> [] | Some b \<Rightarrow> b))
             (\<lambda>env. Inr ([], Some (b64_encode E env)))
      else
        and_then (handle E (secret_layer1 (bb_keys app))) (\<lambda>primary.
        and_then (handle E (secret_layer2 (bb_keys app))) (\<lambda>secondary.
        and_then (decrypt_aes_gcm E (sr_layer2 r) secondary) (\<lambda>dec_l2.
        and_then (decrypt_aes_gcm E dec_l2 primary) (\<lambda>plain.
        and_then (ok_or Decryption (from_utf8 plain)) (\<lambda>s. Inr (s, None)))))))"

text \<open>The row of an exhausted secret: every trace of the value is erased.\<close>

definition tombstone :: "request \<Rightarrow> secret_row \<Rightarrow> secret_row" where
  "tombstone rq r = r\<lparr>sr_layer1 := [], sr_layer2 := [], sr_wrapped := [], sr_envelope := None,
     sr_exhausted := Some (now rq)\<rparr>"

definition reached_max :: "resource_flags \<Rightarrow> int option \<Rightarrow> bool" where
  "reached_max f new_count = (case max_reads f of
      None \<Rightarrow> False
    | Some m \<Rightarrow> (case new_count of None \<Rightarrow> False | Some c \<Rightarrow> c \<ge> m))"

definition post_read ::
    "request \<Rightarrow> secret_row \<Rightarrow> int option \<Rightarrow> secret_row list \<Rightarrow> string option \<times> secret_row list" where
  "post_read rq r new_count rows =
     (if delete_on_read (sr_flags r)
      then (Some ''consumed by delete_on_read'', delete_where (\<lambda>q. sr_id q = sr_id r) rows)
      else if reached_max (sr_flags r) new_count
      then (Some ''tombstoned: max_reads reached on this read'',
            update_where (\<lambda>q. sr_id q = sr_id r) (tombstone rq) rows)
      else (None, rows))"

text \<open>
  The last part of \<open>retrieve_data\<close>: claim, decrypt, tear down, record. The audit calls of a
  request after the gate are numbered from one.
\<close>

definition claim_for :: "secret_row \<Rightarrow> secret_row list \<Rightarrow> (int option option) \<times> secret_row list" where
  "claim_for r rows = (case read_cap (sr_flags r) of
      Some cap \<Rightarrow> (case claim_read (sr_id r) cap rows of
          (None, rows) \<Rightarrow> (None, rows)
        | (Some c, rows) \<Rightarrow> (Some (Some c), rows))
    | None \<Rightarrow> (Some None, update_where (\<lambda>q. sr_id q = sr_id r) bump_reads rows))"

definition serve_read ::
    "ext \<Rightarrow> app \<Rightarrow> request \<Rightarrow> authenticated_client \<Rightarrow> acl_decision \<Rightarrow> string \<Rightarrow> secret_row
      \<Rightarrow> 'a secret_state_scheme \<Rightarrow> retrieve_reply response \<times> 'a secret_state_scheme" where
  "serve_read E app rq client decision res_name r st =
     (let log = audit E app rq 1 (Some (ac_id client)) ''read'' (Some res_name)
      in case claim_for r (secrets st) of
           (None, rows) \<Rightarrow>
             (ErrorReply 403 ''max_reads'', log AuditDenied (Some ''read limit reached (atomic claim)'')
               (st\<lparr>secrets := rows\<rparr>))
         | (Some new_count, rows) \<Rightarrow>
           (case serve_payload E app r of
              Inl e \<Rightarrow> (ActixError 500, st\<lparr>secrets := rows\<rparr>)
            | Inr (data, envelope) \<Rightarrow>
              (case post_read rq r new_count rows of
                 (note, rows) \<Rightarrow>
                   (Reply 200 (Retrieved \<lparr>rt_id = sr_id r, rt_name = res_name, rt_data = data,
                      rt_created = sr_created r, rt_updated = sr_updated r, rt_external = sr_external r,
                      rt_envelope = envelope\<rparr>),
                    log AuditOk note (acl_record_use rq decision (st\<lparr>secrets := rows\<rparr>))))))"

definition mfa_gate ::
    "ext \<Rightarrow> app \<Rightarrow> request \<Rightarrow> authenticated_client \<Rightarrow> string \<Rightarrow> string option \<Rightarrow> bool
      \<Rightarrow> 'a secret_state_scheme \<Rightarrow> 'b response option \<times> 'a secret_state_scheme" where
  "mfa_gate E app rq client res_name code required st =
     (let denied = (\<lambda>message. audit E app rq 1 (Some (ac_id client)) ''read'' (Some res_name) AuditDenied (Some message))
      in if \<not> required then (None, st)
         else
           (case code of
              None \<Rightarrow> (Some (ErrorReply 401 ''mfa_required''), denied ''missing MFA'' st)
            | Some code \<Rightarrow>
              (case handle E (mfa_secret_kek (bb_keys app)) of
                 Inl e \<Rightarrow> (Some (ActixError 500), st)
               | Inr kek \<Rightarrow>
                 (case verify_totp E rq kek (ac_id client) code st of
                    (Inl e, st) \<Rightarrow> (Some (ActixError 500), st)
                  | (Inr ok, st) \<Rightarrow>
                      if ok then (None, st)
                      else (Some (ErrorReply 401 ''mfa_failed''), denied ''MFA verification failed'' st)))))"

text \<open>The K-of-N gate, where the secret has a policy.\<close>

definition policy_gate ::
    "ext \<Rightarrow> app \<Rightarrow> request \<Rightarrow> authenticated_client \<Rightarrow> string \<Rightarrow> string \<Rightarrow> access_policy option \<Rightarrow> string option
      \<Rightarrow> 'a secret_state_scheme \<Rightarrow> gate \<times> 'a secret_state_scheme" where
  "policy_gate E app rq client domain_id res_name policy request_id st = (case policy of
      None \<Rightarrow> (Proceed, st)
    | Some p \<Rightarrow> threshold_gate E app rq client ''secret'' domain_id res_name p request_id st)"

fun gate_reply :: "request_summary response \<Rightarrow> retrieve_reply response" where
  "gate_reply (Reply c s) = Reply c (ApprovalRequired s)"
| "gate_reply (ErrorReply c e) = ErrorReply c e"
| "gate_reply (ActixError c) = ActixError c"

text \<open>The part of \<open>retrieve_data\<close> after authorisation.\<close>

definition retrieve_allowed ::
    "ext \<Rightarrow> app \<Rightarrow> request \<Rightarrow> read_headers \<Rightarrow> authenticated_client \<Rightarrow> string \<Rightarrow> acl_decision \<Rightarrow> string \<Rightarrow> secret_row
      \<Rightarrow> 'a secret_state_scheme \<Rightarrow> retrieve_reply response \<times> 'a secret_state_scheme" where
  "retrieve_allowed E app rq h client domain_id decision res_name r st =
     (let denied = (\<lambda>message. audit E app rq 0 (Some (ac_id client)) ''read'' (Some res_name) AuditDenied (Some message))
      in if sr_exhausted r \<noteq> None
         then (ErrorReply 410 ''exhausted'', denied ''tombstoned: data was scrubbed at exhaustion'' st)
         else if (case max_reads (sr_flags r) of None \<Rightarrow> False | Some m \<Rightarrow> sr_reads r \<ge> m)
         then (ErrorReply 403 ''max_reads'', denied ''max_reads exhausted'' st)
         else
           (case policy_gate E app rq client domain_id res_name (sr_policy r) (h_request_id h) st of
              (Stop resp, st) \<Rightarrow> (gate_reply resp, st)
            | (Proceed, st) \<Rightarrow>
              (case mfa_gate E app rq client res_name (h_mfa h) (mfa_required (sr_flags r)) st of
                 (Some resp, st) \<Rightarrow> (resp, st)
               | (None, st) \<Rightarrow> serve_read E app rq client decision res_name r st)))"

definition retrieve_data ::
    "ext \<Rightarrow> app \<Rightarrow> request \<Rightarrow> string \<Rightarrow> string option \<Rightarrow> read_headers \<Rightarrow> authenticated_client
      \<Rightarrow> 'a secret_state_scheme \<Rightarrow> retrieve_reply response \<times> 'a secret_state_scheme" where
  "retrieve_data E app rq resource_id q h client st =
     (case resolve_and_gate_domain E app client q st of
        Inl resp \<Rightarrow> (resp, st)
      | Inr (domain_id, _) \<Rightarrow>
        (case lookup_secret E app domain_id resource_id st of
           None \<Rightarrow>
             (ErrorReply 404 ''not_found'',
              audit E app rq 0 (Some (ac_id client)) ''read'' (Some resource_id) AuditNotFound None st)
         | Some r \<Rightarrow>
           (case dec_str E (metadata_enc_key app) (sr_name_enc r) of
              Inl e \<Rightarrow> (ActixError 500, st)
            | Inr res_name \<Rightarrow>
              (let decision = acl_check E app rq client domain_id res_name Read st
               in if \<not> is_allowed decision
                  then (ErrorReply 403 ''forbidden'',
                        audit E app rq 0 (Some (ac_id client)) ''read'' (Some res_name) AuditDenied None st)
                  else retrieve_allowed E app rq h client domain_id decision res_name r st))))"

section \<open>Deleting and listing\<close>

definition delete_data ::
    "ext \<Rightarrow> app \<Rightarrow> request \<Rightarrow> string \<Rightarrow> bool \<Rightarrow> string option \<Rightarrow> authenticated_client
      \<Rightarrow> 'a secret_state_scheme \<Rightarrow> string response \<times> 'a secret_state_scheme" where
  "delete_data E app rq resource_id confirm q client st =
     (if \<not> confirm then (ErrorReply 400 ''confirmation_required'', st)
      else
        (case resolve_and_gate_domain E app client q st of
           Inl resp \<Rightarrow> (resp, st)
         | Inr (domain_id, _) \<Rightarrow>
           (case lookup_secret E app domain_id resource_id st of
              None \<Rightarrow>
                (ErrorReply 404 ''not_found'',
                 audit E app rq 0 (Some (ac_id client)) ''delete'' (Some resource_id) AuditNotFound None st)
            | Some r \<Rightarrow>
              (case dec_str E (metadata_enc_key app) (sr_name_enc r) of
                 Inl e \<Rightarrow> (ActixError 500, st)
               | Inr name \<Rightarrow>
                 (let decision = acl_check E app rq client domain_id name Delete st;
                      log = (\<lambda>status. audit E app rq 0 (Some (ac_id client)) ''delete'' (Some name) status None)
                  in if \<not> is_allowed decision then (ErrorReply 403 ''forbidden'', log AuditDenied st)
                     else (Reply 200 resource_id,
                           log AuditOk (acl_record_use rq decision
                             (st\<lparr>secrets := delete_where (\<lambda>q. sr_id q = sr_id r) (secrets st)\<rparr>))))))))"

definition policy_threshold :: "access_policy option \<Rightarrow> int option \<times> nat option" where
  "policy_threshold policy = (case policy of
      None \<Rightarrow> (None, None)
    | Some p \<Rightarrow> (Some (threshold_k p), Some (length (signatories p))))"

record secret_summary =
  ss_id :: string
  ss_name :: string
  ss_created :: int
  ss_updated :: int
  ss_exhausted :: "int option"
  ss_external :: bool
  ss_reads :: int
  ss_flags :: resource_flags
  ss_threshold :: "int option \<times> nat option"

definition list_entry ::
    "ext \<Rightarrow> app \<Rightarrow> request \<Rightarrow> authenticated_client \<Rightarrow> string \<Rightarrow> 'a secret_state_scheme
      \<Rightarrow> secret_row \<Rightarrow> secret_summary option" where
  "list_entry E app rq client domain_id st r =
     (case dec_str E (metadata_enc_key app) (sr_name_enc r) of
        Inl e \<Rightarrow> None
      | Inr name \<Rightarrow>
          if \<not> is_admin client \<and> \<not> is_allowed (acl_check E app rq client domain_id name Read st) then None
          else Some \<lparr>ss_id = sr_id r, ss_name = name, ss_created = sr_created r, ss_updated = sr_updated r,
                 ss_exhausted = sr_exhausted r, ss_external = sr_external r, ss_reads = sr_reads r,
                 ss_flags = sr_flags r, ss_threshold = policy_threshold (sr_policy r)\<rparr>)"

definition list_resources ::
    "ext \<Rightarrow> app \<Rightarrow> request \<Rightarrow> string option \<Rightarrow> authenticated_client \<Rightarrow> 'a secret_state_scheme
      \<Rightarrow> secret_summary list response \<times> 'a secret_state_scheme" where
  "list_resources E app rq q client st =
     (case resolve_and_gate_domain E app client q st of
        Inl resp \<Rightarrow> (resp, st)
      | Inr (domain_id, _) \<Rightarrow>
          (Reply 200 (List.map_filter (list_entry E app rq client domain_id st)
             (take 500 (rev (sort_key sr_created (filter (\<lambda>r. sr_domain r = domain_id) (secrets st)))))),
           audit E app rq 0 (Some (ac_id client)) ''list'' None AuditOk None st))"

section \<open>What the gates leave alone\<close>

lemma audit_secrets [simp]: "secrets (audit E app rq k c a r s m st) = secrets st"
  by (simp add: audit_def Let_def split: sum.splits)

lemma record_use_secrets [simp]:
  "secrets (acl_record_use rq d st) = secrets st" "domains (acl_record_use rq d st) = domains st"
  "members (acl_record_use rq d st) = members st" "clients (acl_record_use rq d st) = clients st"
  by (simp_all add: acl_record_use_def split: acl_decision.splits)

lemma consume_keeps [simp]:
  "secrets (consume_grant_uses is st) = secrets st" "clients (consume_grant_uses is st) = clients st"
  by (induction "is" st rule: consume_grant_uses.induct) simp_all

lemma mark_keeps [simp]:
  "secrets (mark_consumed rq i st) = secrets st" "clients (mark_consumed rq i st) = clients st"
  by (simp_all add: mark_consumed_def)

lemma create_request_keeps:
  "create_access_request E app rq c kind d name pol st = (s, st') \<Longrightarrow>
    secrets st' = secrets st \<and> clients st' = clients st"
  by (auto simp: create_access_request_def Let_def split: option.splits sum.splits if_splits)

lemma threshold_gate_keeps:
  "secrets (snd (threshold_gate E app rq c kind d name pol i st)) = secrets st \<and>
   clients (snd (threshold_gate E app rq c kind d name pol i st)) = clients st"
proof -
  obtain s st1 where cr: "create_access_request E app rq c kind d name pol st = (s, st1)" by fastforce
  show ?thesis
    using create_request_keeps [OF cr] cr
    by (cases i) (simp_all add: threshold_gate_def gate_with_request_def gate_without_request_def Let_def
        split: option.split)
qed

lemma policy_gate_keeps:
  assumes "policy_gate E app rq c d name pol i st = (g, st')"
  shows "secrets st' = secrets st" and "clients st' = clients st"
  using assms threshold_gate_keeps [of E app rq c "''secret''" d name "the pol" i st]
  by (cases pol; simp add: policy_gate_def)+

lemma verify_totp_frame:
  "clients st' = clients st \<Longrightarrow> fst (verify_totp E rq kek i code st') = fst (verify_totp E rq kek i code st)"
  by (simp add: verify_totp_def split: option.split sum.split)

lemma verify_totp_secrets: "verify_totp E rq kek i code st = (r, st') \<Longrightarrow> secrets st' = secrets st"
  by (auto simp: verify_totp_def split: option.splits sum.splits if_splits)

text \<open>A valid second factor of a client.\<close>

definition totp_ok :: "ext \<Rightarrow> app \<Rightarrow> request \<Rightarrow> string \<Rightarrow> string option \<Rightarrow> 'a acct_state_scheme \<Rightarrow> bool" where
  "totp_ok E app rq client code st \<longleftrightarrow> (\<exists>c kek. code = Some c \<and> handle E (mfa_secret_kek (bb_keys app)) = Inr kek
     \<and> fst (verify_totp E rq kek client c st) = Inr True)"

lemma mfa_gate_None:
  assumes "mfa_gate E app rq c name code required st = (None, st')"
  shows "required \<longrightarrow> totp_ok E app rq (ac_id c) code st" and "secrets st' = secrets st"
proof -
  have "(required \<longrightarrow> totp_ok E app rq (ac_id c) code st) \<and> secrets st' = secrets st"
  proof (cases required)
    case True
    then obtain x kek where x: "code = Some x" "handle E (mfa_secret_kek (bb_keys app)) = Inr kek"
      using assms by (auto simp: mfa_gate_def Let_def split: option.splits sum.splits)
    obtain r st1 where v: "verify_totp E rq kek (ac_id c) x st = (r, st1)" by fastforce
    with assms True x have "r = Inr True" "st' = st1"
      by (auto simp: mfa_gate_def split: sum.splits if_splits)
    with v x verify_totp_secrets [OF v] show ?thesis by (auto simp: totp_ok_def)
  qed (use assms in \<open>auto simp: mfa_gate_def\<close>)
  then show "required \<longrightarrow> totp_ok E app rq (ac_id c) code st" "secrets st' = secrets st" by auto
qed

section \<open>A successful read\<close>

lemma serve_read_Retrieved:
  assumes "serve_read E app rq c dec name r st = (Reply 200 (Retrieved x), st')"
  obtains n rows where "claim_for r (secrets st) = (Some n, rows)"
    "serve_payload E app r = Inr (rt_data x, rt_envelope x)" "secrets st' = snd (post_read rq r n rows)"
    "rt_id x = sr_id r" "rt_name x = name"
  using assms
  by (auto simp: serve_read_def Let_def split: prod.splits option.splits sum.splits)

lemma gate_reply_not_Retrieved [simp]: "gate_reply g \<noteq> Reply n (Retrieved x)"
  by (cases g) auto

lemma retrieve_allowed_Retrieved:
  assumes "retrieve_allowed E app rq h c d dec name r st = (Reply 200 (Retrieved x), st')"
  obtains n rows where "sr_exhausted r = None" "\<forall>m. max_reads (sr_flags r) = Some m \<longrightarrow> sr_reads r < m"
    "fst (policy_gate E app rq c d name (sr_policy r) (h_request_id h) st) = Proceed"
    "mfa_required (sr_flags r) \<longrightarrow> totp_ok E app rq (ac_id c) (h_mfa h) st"
    "claim_for r (secrets st) = (Some n, rows)" "serve_payload E app r = Inr (rt_data x, rt_envelope x)"
    "secrets st' = snd (post_read rq r n rows)" "rt_id x = sr_id r" "rt_name x = name"
proof -
  obtain g st1 where g: "policy_gate E app rq c d name (sr_policy r) (h_request_id h) st = (g, st1)" by fastforce
  note keep = policy_gate_keeps [OF g]
  have ex: "sr_exhausted r = None" "\<forall>m. max_reads (sr_flags r) = Some m \<longrightarrow> sr_reads r < m" "g = Proceed"
    using assms g by (auto simp: retrieve_allowed_def Let_def split: if_splits option.splits gate.splits)
  obtain m st2 where m: "mfa_gate E app rq c name (h_mfa h) (mfa_required (sr_flags r)) st1
      = (m :: retrieve_reply response option, st2)" by fastforce
  have m0: "m = None" "serve_read E app rq c dec name r st2 = (Reply 200 (Retrieved x), st') \<or> m \<noteq> None"
    using assms g m ex
    by (auto simp: retrieve_allowed_def Let_def split: if_splits option.splits
        simp: mfa_gate_def split: sum.splits prod.splits)
  note mf = mfa_gate_None [OF m [unfolded m0(1)]]
  have "totp_ok E app rq (ac_id c) (h_mfa h) st1 = totp_ok E app rq (ac_id c) (h_mfa h) st"
    using verify_totp_frame [OF keep(2)] by (simp add: totp_ok_def)
  with mf m0 keep ex g show thesis
    by (auto elim!: serve_read_Retrieved intro: that)
qed

section \<open>Interleaved requests\<close>

text \<open>
  The statements that requests send to the table of secrets, each atomic in the database:
  the claim of a read and its teardown, both with the row the request has read before, an
  overwrite, an insert with its primary key check, and a deletion.
\<close>

datatype sec_event =
    Claim secret_row
  | Teardown request secret_row "int option"
  | Overwrite request string payload
  | Insert secret_row
  | Remove string

fun apply_event :: "sec_event \<Rightarrow> secret_row list \<Rightarrow> secret_row list" where
  "apply_event (Claim r) rows = snd (claim_for r rows)"
| "apply_event (Teardown rq r n) rows = snd (post_read rq r n rows)"
| "apply_event (Overwrite rq i p) rows = update_where (\<lambda>q. sr_id q = i) (write_payload rq p) rows"
| "apply_event (Insert r) rows = (if list_ex (\<lambda>q. sr_id q = sr_id r) rows then rows else rows @ [r])"
| "apply_event (Remove i) rows = delete_where (\<lambda>q. sr_id q = i) rows"

fun claimed :: "string \<Rightarrow> sec_event \<Rightarrow> secret_row list \<Rightarrow> bool" where
  "claimed i (Claim r) rows = (sr_id r = i \<and> fst (claim_for r rows) \<noteq> None)"
| "claimed i _ rows = False"

text \<open>The reads of secret \<open>i\<close> that are served in a run of statements.\<close>

fun served :: "string \<Rightarrow> sec_event list \<Rightarrow> secret_row list \<Rightarrow> nat" where
  "served i [] rows = 0"
| "served i (e # es) rows = (if claimed i e rows then 1 else 0) + served i es (apply_event e rows)"

text \<open>A run concerns the secret \<open>r\<close>: requests have read its flags, and no other row gets its id.\<close>

fun about_row :: "secret_row \<Rightarrow> sec_event \<Rightarrow> bool" where
  "about_row r (Claim q) = (sr_id q = sr_id r \<longrightarrow> sr_flags q = sr_flags r)"
| "about_row r (Insert q) = (sr_id q \<noteq> sr_id r)"
| "about_row r _ = True"

definition reads_left :: "string \<Rightarrow> int \<Rightarrow> secret_row list \<Rightarrow> int" where
  "reads_left i cap rows = (case List.find (\<lambda>q. sr_id q = i) rows of
      None \<Rightarrow> 0
    | Some r \<Rightarrow> max 0 (cap - sr_reads r))"

lemma row_updates [simp]:
  "sr_id (write_payload rq p q) = sr_id q" "sr_reads (write_payload rq p q) = sr_reads q"
  "sr_flags (write_payload rq p q) = sr_flags q" "sr_exhausted (write_payload rq p q) = sr_exhausted q"
  "sr_domain (write_payload rq p q) = sr_domain q" "sr_name_id (write_payload rq p q) = sr_name_id q"
  "sr_name_enc (write_payload rq p q) = sr_name_enc q" "sr_policy (write_payload rq p q) = sr_policy q"
  "sr_id (tombstone rq q) = sr_id q" "sr_reads (tombstone rq q) = sr_reads q"
  "sr_id (bump_reads q) = sr_id q"
  by (simp_all add: write_payload_def tombstone_def bump_reads_def split: prod.split)

lemma bump_reads_ge: "sr_reads q \<le> sr_reads (bump_reads q)"
  by (simp add: bump_reads_def)

lemma reads_left_update:
  assumes "\<And>q. sr_id (f q) = sr_id q" and "\<And>q. sr_reads q \<le> sr_reads (f q)"
  shows "reads_left i cap (update_where P f rows) \<le> reads_left i cap rows"
proof (induction rows)
  case (Cons q rows)
  have "sr_id (if P q then f q else q) = sr_id q" "sr_reads q \<le> sr_reads (if P q then f q else q)"
    using assms by auto
  with Cons show ?case by (auto simp: reads_left_def)
qed (simp add: reads_left_def)

lemma reads_left_delete:
  assumes "distinct (map sr_id rows)"
  shows "reads_left i cap (delete_where (\<lambda>q. sr_id q = j) rows) \<le> reads_left i cap rows"
  using assms
proof (induction rows)
  case (Cons q rows)
  show ?case
  proof (cases "sr_id q = i \<and> sr_id q = j")
    case True
    then have "List.find (\<lambda>p. sr_id p = i) (delete_where (\<lambda>p. sr_id p = j) (q # rows)) = None"
      by (auto simp: find_None_iff)
    with True show ?thesis by (simp add: reads_left_def)
  next
    case False
    with Cons show ?thesis by (auto simp: reads_left_def delete_where_def)
  qed
qed (simp add: reads_left_def delete_where_def)

lemma reads_left_nonneg: "0 \<le> reads_left i cap rows"
  by (simp add: reads_left_def split: option.split)

lemma update_only:
  assumes "distinct (map f rows)" and "r \<in> set rows" and "P r" and "\<And>q. f (g q) = f q"
  shows "List.find (\<lambda>q. f q = f r) (update_where P g rows) = Some (g r)"
proof -
  have "distinct (map f (update_where P g rows))" using assms(1) map_update_where [of f g, OF assms(4)] by simp
  moreover have "g r \<in> set (update_where P g rows)" using assms(2,3) by (auto simp: set_update_where)
  ultimately show ?thesis using find_by_id [of f "update_where P g rows" "g r"] assms(4) by simp
qed

lemma claim_read_left:
  assumes "distinct (map sr_id rows)" and "claim_read i cap rows = (Some c, rows')"
  shows "reads_left i cap rows' + 1 = reads_left i cap rows"
proof -
  obtain r where r: "r \<in> set rows" "claimable i cap r"
      "rows' = update_where (claimable i cap) (\<lambda>r. r\<lparr>sr_reads := sr_reads r + 1\<rparr>) rows"
    using assms(2) by (auto simp: claim_read_def split: option.splits dest: find_SomeD)
  have i: "sr_id r = i" "sr_reads r < cap" using r(2) by (simp_all add: claimable_def)
  have "List.find (\<lambda>q. sr_id q = i) rows = Some r"
    using find_by_id [OF assms(1) r(1)] i(1) by simp
  moreover have "List.find (\<lambda>q. sr_id q = i) rows' = Some (r\<lparr>sr_reads := sr_reads r + 1\<rparr>)"
    using update_only [of sr_id rows r "claimable i cap" "\<lambda>r. r\<lparr>sr_reads := sr_reads r + 1\<rparr>"] assms(1) r(1,2) i(1)
    unfolding r(3) by simp
  ultimately show ?thesis using i(2) by (simp add: reads_left_def)
qed

lemma claim_read_None: "claim_read i cap rows = (None, rows') \<Longrightarrow> rows' = rows"
  by (simp add: claim_read_def split: option.splits)

lemma claim_read_le: "reads_left i cap (snd (claim_read j cap' rows)) \<le> reads_left i cap rows"
  by (auto simp: claim_read_def intro: reads_left_update split: option.split)

lemma claim_for_le: "reads_left i cap (snd (claim_for q rows)) \<le> reads_left i cap rows"
  using claim_read_le [of i cap "sr_id q" "the (read_cap (sr_flags q))" rows]
  by (auto simp: claim_for_def bump_reads_ge intro: reads_left_update split: option.split prod.splits)

lemma apply_event_left:
  assumes "distinct (map sr_id rows)" and "about_row r e" and "read_cap (sr_flags r) = Some cap"
  shows "reads_left (sr_id r) cap (apply_event e rows) + (if claimed (sr_id r) e rows then 1 else 0)
    \<le> reads_left (sr_id r) cap rows"
proof (cases e)
  case (Claim q)
  show ?thesis
  proof (cases "claimed (sr_id r) e rows")
    case True
    then have q: "sr_id q = sr_id r" "read_cap (sr_flags q) = Some cap"
      using Claim assms(2,3) by auto
    with True Claim obtain c rows' where "claim_read (sr_id r) cap rows = (Some c, rows')"
      by (auto simp: claim_for_def split: option.splits prod.splits)
    with q True Claim claim_read_left [OF assms(1) this] show ?thesis by (simp add: claim_for_def)
  next
    case False
    then show ?thesis
      using Claim claim_for_le [of "sr_id r" cap q rows] by (simp only: apply_event.simps if_False add_0_right)
  qed
next
  case (Teardown rq q n)
  then show ?thesis
    using reads_left_delete [OF assms(1)] by (simp add: post_read_def reads_left_update)
next
  case (Insert q)
  then have "sr_id q \<noteq> sr_id r" using assms(2) by simp
  then show ?thesis using Insert by (simp add: reads_left_def find_append split: option.split)
qed (use reads_left_delete [OF assms(1)] in \<open>simp_all add: reads_left_update\<close>)

lemma map_ids_update: "(\<And>q. sr_id (f q) = sr_id q) \<Longrightarrow> map sr_id (update_where P f rows) = map sr_id rows"
  by (rule map_update_where)

lemma apply_event_distinct:
  assumes "distinct (map sr_id rows)"
  shows "distinct (map sr_id (apply_event e rows))"
proof (cases e)
  case (Claim q)
  have "map sr_id (snd (claim_read i cap rows)) = map sr_id rows" for i cap
    by (simp add: claim_read_def map_ids_update split: option.split)
  then have "map sr_id (snd (claim_for q rows)) = map sr_id rows"
    by (simp add: claim_for_def map_ids_update split: option.split prod.split) (metis snd_conv)
  with Claim assms show ?thesis by simp
qed (use assms in \<open>auto simp: post_read_def map_ids_update distinct_map_delete_where list_ex_iff\<close>)

lemma served_left:
  assumes "distinct (map sr_id rows)" and "\<forall>e \<in> set es. about_row r e" and "read_cap (sr_flags r) = Some cap"
  shows "int (served (sr_id r) es rows) \<le> reads_left (sr_id r) cap rows"
  using assms
proof (induction es arbitrary: rows)
  case (Cons e es)
  have "int (served (sr_id r) es (apply_event e rows)) \<le> reads_left (sr_id r) cap (apply_event e rows)"
    using Cons apply_event_distinct by simp
  with apply_event_left [OF Cons.prems(1), of r e cap] Cons.prems show ?case by auto
qed (simp add: reads_left_nonneg)

text \<open>The handlers send no other statements to the table.\<close>

lemma serve_read_events:
  "\<exists>es. secrets (snd (serve_read E app rq c dec name r st)) = fold apply_event es (secrets st)
    \<and> es \<in> {[Claim r]} \<union> range (\<lambda>n. [Claim r, Teardown rq r n])"
proof -
  obtain n rows where cl: "claim_for r (secrets st) = (n, rows)" by fastforce
  show ?thesis
  proof (cases n)
    case None
    with cl show ?thesis by (intro exI [of _ "[Claim r]"]) (simp add: serve_read_def)
  next
    case (Some k)
    show ?thesis
    proof (cases "serve_payload E app r")
      case (Inl e)
      with cl Some show ?thesis by (intro exI [of _ "[Claim r]"]) (simp add: serve_read_def)
    next
      case (Inr p)
      with cl Some show ?thesis
        by (intro exI [of _ "[Claim r, Teardown rq r k]"])
          (simp add: serve_read_def split: prod.split)
    qed
  qed
qed

lemma mfa_gate_secrets: "secrets (snd (mfa_gate E app rq c name code required st)) = secrets st"
proof (cases "required \<and> code \<noteq> None")
  case True
  then show ?thesis
    by (auto simp: mfa_gate_def Let_def split: sum.split prod.split dest: verify_totp_secrets)
qed (auto simp: mfa_gate_def Let_def)

lemma retrieve_events:
  "\<exists>es. secrets (snd (retrieve_data E app rq i q h c st)) = fold apply_event es (secrets st)
    \<and> (\<forall>e \<in> set es. \<exists>r n. r \<in> set (secrets st) \<and> (e = Claim r \<or> e = Teardown rq r n))"
proof (cases "\<exists>d n r name. resolve_and_gate_domain E app c q st = (Inr (d, n) :: retrieve_reply response + string \<times> string)
    \<and> lookup_secret E app d i st = Some r \<and> dec_str E (metadata_enc_key app) (sr_name_enc r) = Inr name
    \<and> is_allowed (acl_check E app rq c d name Read st)")
  case True
  then obtain d n r name where
    res: "resolve_and_gate_domain E app c q st = (Inr (d, n) :: retrieve_reply response + string \<times> string)"
    and r: "lookup_secret E app d i st = Some r" "dec_str E (metadata_enc_key app) (sr_name_enc r) = Inr name"
      "is_allowed (acl_check E app rq c d name Read st)" by blast
  have mem: "r \<in> set (secrets st)" using r(1) by (auto simp: lookup_secret_def dest: find_SomeD)
  have eq: "retrieve_data E app rq i q h c st
      = retrieve_allowed E app rq h c d (acl_check E app rq c d name Read st) name r st"
    using res r by (simp add: retrieve_data_def Let_def)
  obtain g st1 where g: "policy_gate E app rq c d name (sr_policy r) (h_request_id h) st = (g, st1)" by fastforce
  obtain m st2 where m: "mfa_gate E app rq c name (h_mfa h) (mfa_required (sr_flags r)) st1
      = (m :: retrieve_reply response option, st2)" by fastforce
  have st2: "secrets st2 = secrets st"
    using m mfa_gate_secrets policy_gate_keeps(1) [OF g] by (metis snd_conv)
  obtain es where es: "secrets (snd (serve_read E app rq c (acl_check E app rq c d name Read st) name r st2))
      = fold apply_event es (secrets st)" "es \<in> {[Claim r]} \<union> range (\<lambda>n. [Claim r, Teardown rq r n])"
    using serve_read_events st2 by metis
  consider "secrets (snd (retrieve_data E app rq i q h c st)) = secrets st"
    | "retrieve_data E app rq i q h c st = serve_read E app rq c (acl_check E app rq c d name Read st) name r st2"
    using eq g m st2 policy_gate_keeps(1) [OF g]
    by (cases g; cases m) (auto simp: retrieve_allowed_def Let_def split: if_splits)
  then show ?thesis
  proof cases
    case 1
    then show ?thesis by (intro exI [of _ "[]"]) simp
  next
    case 2
    then show ?thesis using es mem by (intro exI [of _ es]) auto
  qed
next
  case False
  have "secrets (snd (retrieve_data E app rq i q h c st)) = secrets st"
    using False by (auto simp: retrieve_data_def Let_def split: sum.split option.split prod.split)
  then show ?thesis by (intro exI [of _ "[]"]) simp
qed

section \<open>Storing\<close>

lemma store_data_cases:
  assumes "store_data E K app rq req q c st = (resp, st')"
  obtains (refused) "secrets st' = secrets st" "\<And>x. resp \<noteq> Reply 201 x"
  | (overwritten) d n blob e p where
      "resolve_and_gate_domain E app c q st = (Inr (d, n) :: store_reply response + string \<times> string)"
      "List.find (\<lambda>r. sr_domain r = d \<and> sr_name_id r = name_id_hex E (name_index_key app) d (sq_name req)) (secrets st) = Some e"
      "\<not> no_overwrite (sr_flags e)" "external_blob E req = (Inr blob :: store_reply response + bytes option)"
      "store_payload E K app rq (sq_data req) blob = Inr p"
      "secrets st' = update_where (\<lambda>q. sr_id q = sr_id e) (write_payload rq p) (secrets st)"
      "resp = Reply 201 (Updated (sr_id e))"
  | (inserted) d n blob p i st1 where
      "resolve_and_gate_domain E app c q st = (Inr (d, n) :: store_reply response + string \<times> string)"
      "List.find (\<lambda>r. sr_domain r = d \<and> sr_name_id r = name_id_hex E (name_index_key app) d (sq_name req)) (secrets st) = None"
      "external_blob E req = (Inr blob :: store_reply response + bytes option)"
      "store_payload E K app rq (sq_data req) blob = Inr p"
      "insert_secret E app rq req d (name_id_hex E (name_index_key app) d (sq_name req)) p st = (Reply 201 (Stored i), st1)"
      "secrets st' = secrets st1" "resp = Reply 201 (Stored i)"
proof (cases "\<exists>d n blob. sq_name req \<noteq> [] \<and> external_blob E req = (Inr blob :: store_reply response + bytes option)
    \<and> \<not> (blob = None \<and> sq_data req = [])
    \<and> resolve_and_gate_domain E app c q st = (Inr (d, n) :: store_reply response + string \<times> string)")
  case False
  then have "secrets st' = secrets st \<and> (\<forall>x. resp \<noteq> Reply 201 x)"
    using assms
    by (auto simp: store_data_def Let_def external_blob_def resolve_and_gate_domain_def
        split: option.splits sum.splits if_splits)
  then show thesis by (intro refused) auto
next
  case True
  then obtain d n blob where b: "sq_name req \<noteq> []" "external_blob E req = (Inr blob :: store_reply response + bytes option)"
      "\<not> (blob = None \<and> sq_data req = [])"
      "resolve_and_gate_domain E app c q st = (Inr (d, n) :: store_reply response + string \<times> string)" by blast
  let ?n = "name_id_hex E (name_index_key app) d (sq_name req)"
  show thesis
  proof (cases "List.find (\<lambda>r. sr_domain r = d \<and> sr_name_id r = ?n) (secrets st)")
    case (Some e)
    show thesis
    proof (cases "no_overwrite (sr_flags e) \<or> \<not> sq_overwrite req")
      case True
      with assms b Some have "secrets st' = secrets st \<and> (\<forall>x. resp \<noteq> Reply 201 x)"
        by (auto simp: store_data_def Let_def split: if_splits)
      then show thesis by (intro refused) auto
    next
      case False
      then have ck: "store_checked E K app rq req blob d ?n (Some e) c st = (resp, st')"
        using assms b Some by (auto simp: store_data_def Let_def)
      show thesis
      proof (cases "store_payload E K app rq (sq_data req) blob")
        case (Inl err)
        with ck have "secrets st' = secrets st \<and> (\<forall>x. resp \<noteq> Reply 201 x)"
          by (auto simp: store_checked_def Let_def split: if_splits)
        then show thesis by (intro refused) auto
      next
        case (Inr p)
        with ck False Some b show thesis
          by (cases "is_allowed (acl_check E app rq c d (sq_name req) Update st)")
            (auto simp: store_checked_def Let_def overwrite_secret_def intro: refused overwritten)
      qed
    qed
  next
    case None
    then have ck: "store_checked E K app rq req blob d ?n None c st = (resp, st')"
      using assms b by (auto simp: store_data_def Let_def)
    show thesis
    proof (cases "store_payload E K app rq (sq_data req) blob")
      case (Inl err)
      with ck have "secrets st' = secrets st \<and> (\<forall>x. resp \<noteq> Reply 201 x)"
        by (auto simp: store_checked_def Let_def split: if_splits)
      then show thesis by (intro refused) auto
    next
      case (Inr p)
      obtain ir st1 where ir: "insert_secret E app rq req d ?n p st = (ir, st1)" by fastforce
      then consider i where "ir = Reply 201 (Stored i)" | "secrets st1 = secrets st" "\<And>a b. ir \<noteq> Reply a b"
        by (auto simp: insert_secret_def policy_value_def Let_def split: option.splits sum.splits if_splits prod.splits)
      then show thesis
      proof cases
        case (1 i)
        with ck ir Inr None b show thesis
          by (cases "is_allowed (acl_check E app rq c d (sq_name req) Create st)")
            (auto simp: store_checked_def Let_def intro: refused inserted)
      next
        case 2
        with ck ir Inr show thesis
          by (cases "is_allowed (acl_check E app rq c d (sq_name req) Create st)"; cases ir)
            (auto simp: store_checked_def Let_def intro: refused)
      qed
    qed
  qed
qed

lemma policy_value_no_reply: "policy_value E app st p \<noteq> Inl (Reply a b)"
  by (simp add: policy_value_def split: option.split)

lemma insert_secret_row:
  assumes "insert_secret E app rq req d n (l1, l2, w, env) st = (Reply 201 (Stored i), st')"
  obtains r where "secrets st' = secrets st @ [r]" "sr_id r = i" "sr_domain r = d" "sr_name_id r = n"
    "enc_str E (rand rq 5 12) (metadata_enc_key app) (sq_name req) = Inr (sr_name_enc r)"
    "sr_layer2 r = l2" "sr_external r = (env \<noteq> None)" "sr_envelope r = env"
    "sr_flags r = (case sq_flags req of None \<Rightarrow> default_flags | Some f \<Rightarrow> f)" "sr_reads r = 0"
    "policy_value E app st (sq_policy req) = (Inr (sr_policy r) :: store_reply response + access_policy option)"
    "sr_exhausted r = None" "\<not> list_ex (\<lambda>q. sr_id q = i) (secrets st)"
proof -
  have nid: "\<not> list_ex (\<lambda>q. sr_id q = i) (secrets st)" "i = hex_encode E (rand rq 4 32)"
    using assms
    by (auto simp: insert_secret_def Let_def list_ex_iff policy_value_no_reply split: sum.splits if_splits)
  obtain pol name_enc where s: "policy_value E app st (sq_policy req) = (Inr pol :: store_reply response + access_policy option)"
      "enc_str E (rand rq 5 12) (metadata_enc_key app) (sq_name req) = Inr name_enc"
    using assms by (auto simp: insert_secret_def Let_def policy_value_no_reply split: sum.splits if_splits)
  show thesis
    using assms s nid by (intro that) (auto simp: insert_secret_def Let_def split: if_splits)
qed

lemma serve_stored:
  assumes "gcm_law E" and "utf8_str data" and "store_payload E K app rq data blob = Inr (l1, l2, w, env)"
    and "sr_layer2 r = l2" and "sr_external r = (env \<noteq> None)" and "sr_envelope r = env"
  shows "serve_payload E app r = Inr (case blob of None \<Rightarrow> (data, None) | Some b \<Rightarrow> ([], Some (b64_encode E b)))"
proof (cases blob)
  case (Some b)
  then obtain ct where c: "aead_seal E (rand rq 3 12) b (metadata_enc_key app) = Inr ct" "env = Some ct"
    using assms(3) by (auto simp: store_payload_def enc_field_def elim!: and_then_InrE)
  have "aead_open E ct (metadata_enc_key app) = Inr b"
    using box.unseal_seal [OF assms(1) _ c(1)] by simp
  with Some c assms(4-6) show ?thesis by (simp add: serve_payload_def dec_field_def)
next
  case None
  then have p: "seal_layers E K app rq data = Inr (l1, l2, w)" "env = None"
    using assms(3) by (auto simp: store_payload_def elim!: and_then_InrE)
  then obtain k1 k2 where k: "handle E (secret_layer1 (bb_keys app)) = Inr k1" "handle E (secret_layer2 (bb_keys app)) = Inr k2"
      "encrypt_aes_gcm E (secs_of rq) (rand rq 0 32) (as_bytes data) k1 = Inr l1"
      "encrypt_aes_gcm E (secs_of rq) (rand rq 1 32) l1 k2 = Inr l2"
    by (auto simp: seal_layers_def elim!: and_then_InrE)
  have "decrypt_aes_gcm E l2 k2 = Inr l1"
    using stretched_box.unseal_seal [OF assms(1), of "(secs_of rq, rand rq 1 32)" k2 l1 l2] k(4) by simp
  moreover have "decrypt_aes_gcm E l1 k1 = Inr (as_bytes data)"
    using stretched_box.unseal_seal [OF assms(1), of "(secs_of rq, rand rq 0 32)" k1 "as_bytes data" l1] k(3) by simp
  ultimately show ?thesis using None k(1,2) p(2) assms(2,4-6) by (simp add: serve_payload_def)
qed

lemma serve_read_ok:
  assumes "claim_for r (secrets st) = (Some k, rows)" and "serve_payload E app r = Inr (a, b)"
  shows "\<exists>x st'. serve_read E app rq c dec name r st = (Reply 200 (Retrieved x), st')
    \<and> (rt_data x, rt_envelope x) = (a, b) \<and> rt_external x = sr_external r"
  using assms by (cases "post_read rq r k rows") (simp add: serve_read_def)

lemma retrieve_Retrieved:
  assumes "retrieve_data E app rq i q h c st = (Reply 200 (Retrieved x), st')"
  shows "\<exists>d r name. resolve_and_gate_domain E app c q st
        = (Inr (d, domain_query q) :: retrieve_reply response + string \<times> string)
    \<and> domain_member c d st \<and> lookup_secret E app d i st = Some r
    \<and> dec_str E (metadata_enc_key app) (sr_name_enc r) = Inr name \<and> is_allowed (acl_check E app rq c d name Read st)
    \<and> retrieve_allowed E app rq h c d (acl_check E app rq c d name Read st) name r st = (Reply 200 (Retrieved x), st')"
proof -
  obtain d n where d: "resolve_and_gate_domain E app c q st = (Inr (d, n) :: retrieve_reply response + string \<times> string)"
    using assms by (cases "resolve_and_gate_domain E app c q st :: retrieve_reply response + string \<times> string")
      (auto simp: retrieve_data_def resolve_and_gate_domain_def Let_def split: option.splits if_splits)
  have "n = domain_query q" "domain_member c d st"
    using d by (auto simp: resolve_and_gate_domain_def Let_def split: option.splits if_splits)
  then show ?thesis
    using assms d by (auto simp: retrieve_data_def Let_def split: option.splits sum.splits if_splits)
qed

section \<open>Reads and the counters of a rule\<close>

lemma consume_acls [simp]: "acls (consume_grant_uses is st) = acls st"
  by (induction "is" st rule: consume_grant_uses.induct) simp_all

lemma mark_acls [simp]: "acls (mark_consumed rq i st) = acls st"
  by (simp add: mark_consumed_def)

lemma audit_acls [simp]: "acls (audit E app rq k c a r s m st) = acls st"
  by (simp add: audit_def Let_def split: sum.splits)

lemma create_request_acls: "create_access_request E app rq c kind d name pol st = (s, st') \<Longrightarrow> acls st' = acls st"
  by (auto simp: create_access_request_def Let_def split: option.splits sum.splits if_splits)

lemma threshold_gate_acls: "acls (snd (threshold_gate E app rq c kind d name pol i st)) = acls st"
proof -
  obtain s st1 where cr: "create_access_request E app rq c kind d name pol st = (s, st1)" by fastforce
  show ?thesis
    using create_request_acls [OF cr] cr
    by (cases i) (simp_all add: threshold_gate_def gate_with_request_def gate_without_request_def Let_def
        split: option.split)
qed

lemma policy_gate_acls: "acls (snd (policy_gate E app rq c d name pol i st)) = acls st"
  by (cases pol) (simp_all add: policy_gate_def threshold_gate_acls)

lemma verify_totp_acls: "verify_totp E rq kek i code st = (r, st') \<Longrightarrow> acls st' = acls st"
  by (auto simp: verify_totp_def split: option.splits sum.splits if_splits)

lemma mfa_gate_acls: "mfa_gate E app rq c name code required st = (m, st') \<Longrightarrow> acls st' = acls st"
  by (auto simp: mfa_gate_def Let_def dest: verify_totp_acls split: option.splits sum.splits prod.splits if_splits)

text \<open>A read that returns a value is recorded with its rule, and no other read is.\<close>

fun handed_out :: "retrieve_reply response \<Rightarrow> bool" where
  "handed_out (Reply n (Retrieved x)) = True"
| "handed_out _ = False"

lemma serve_read_acls:
  "serve_read E app rq c dec name r st = (resp, st') \<Longrightarrow>
    acls st' = (if handed_out resp then acls (acl_record_use rq dec st) else acls st)"
  by (auto simp: serve_read_def Let_def acl_record_use_def split: prod.splits option.splits sum.splits acl_decision.splits)

lemma gate_reply_handed [simp]: "\<not> handed_out (gate_reply g)"
  by (cases g) auto

lemma mfa_gate_handed: "mfa_gate E app rq c name code required st = (Some resp, st') \<Longrightarrow> \<not> handed_out resp"
  by (auto simp: mfa_gate_def Let_def split: if_splits option.splits sum.splits prod.splits)

lemma acls_record: "acls st = acls st2 \<Longrightarrow> acls (acl_record_use rq dec st) = acls (acl_record_use rq dec st2)"
  by (simp add: acl_record_use_def split: acl_decision.splits)

lemma retrieve_allowed_acls:
  assumes "retrieve_allowed E app rq h c d dec name r st = (resp, st')"
  shows "acls st' = (if handed_out resp then acls (acl_record_use rq dec st) else acls st)"
proof -
  obtain g st1 where g: "policy_gate E app rq c d name (sr_policy r) (h_request_id h) st = (g, st1)" by fastforce
  obtain m st2 where m: "mfa_gate E app rq c name (h_mfa h) (mfa_required (sr_flags r)) st1
      = (m :: retrieve_reply response option, st2)" by fastforce
  have k: "acls st1 = acls st" "acls st2 = acls st"
    using policy_gate_acls [of E app rq c d name "sr_policy r" "h_request_id h" st] g
      mfa_gate_acls [OF m] by simp_all
  show ?thesis
    using assms g m k mfa_gate_handed [of E app rq c name _ _ st1] serve_read_acls [of E app rq c dec name r st2 resp st']
      acls_record [OF k(2), of rq dec]
    by (auto simp: retrieve_allowed_def Let_def split: if_splits gate.splits option.splits)
qed

text \<open>The decision a read asks for, when it gets that far, and reads served one after the other.\<close>

record read_call =
  rc_rq :: request
  rc_id :: string
  rc_domain :: "string option"
  rc_headers :: read_headers
  rc_client :: authenticated_client

definition read_decision :: "ext \<Rightarrow> app \<Rightarrow> read_call \<Rightarrow> 'a secret_state_scheme \<Rightarrow> acl_decision" where
  "read_decision E app x st =
     (case (resolve_and_gate_domain E app (rc_client x) (rc_domain x) st :: retrieve_reply response + string \<times> string) of
        Inl e \<Rightarrow> Denied
      | Inr (d, _) \<Rightarrow>
        (case lookup_secret E app d (rc_id x) st of
           None \<Rightarrow> Denied
         | Some r \<Rightarrow>
           (case dec_str E (metadata_enc_key app) (sr_name_enc r) of
              Inl e \<Rightarrow> Denied
            | Inr name \<Rightarrow> acl_check E app (rc_rq x) (rc_client x) d name Read st)))"

definition call_read :: "ext \<Rightarrow> app \<Rightarrow> read_call \<Rightarrow> 'a secret_state_scheme \<Rightarrow> retrieve_reply response \<times> 'a secret_state_scheme" where
  "call_read E app x = retrieve_data E app (rc_rq x) (rc_id x) (rc_domain x) (rc_headers x) (rc_client x)"

text \<open>The times of the reads that return a value by the admission of rule \<open>i\<close>.\<close>

fun reads_by_rule :: "ext \<Rightarrow> app \<Rightarrow> string \<Rightarrow> 'a secret_state_scheme \<Rightarrow> read_call list \<Rightarrow> int list" where
  "reads_by_rule E app i st [] = []"
| "reads_by_rule E app i st (x # xs) = (case call_read E app x st of
      (resp, st') \<Rightarrow> (if handed_out resp \<and> read_decision E app x st = Allowed i then [now (rc_rq x)] else [])
        @ reads_by_rule E app i st' xs)"

lemma call_read_acls:
  assumes "call_read E app x st = (resp, st')"
  shows "acls st' = (if handed_out resp then acls (acl_record_use (rc_rq x) (read_decision E app x st) st) else acls st)"
proof -
  obtain q where q: "(resolve_and_gate_domain E app (rc_client x) (rc_domain x) st
      :: retrieve_reply response + string \<times> string) = q" by simp
  have g: "\<not> handed_out e" if "q = Inl e" for e
    using q that by (auto simp: resolve_and_gate_domain_def Let_def split: option.splits if_splits)
  show ?thesis
    using assms q g
    by (auto simp: call_read_def retrieve_data_def read_decision_def Let_def
        split: sum.splits option.splits if_splits prod.splits dest: retrieve_allowed_acls)
qed

lemma reads_row:
  assumes "distinct (map acl_id (acls st))" and "a \<in> set (acls st)"
  shows "row_admits a (reads_by_rule E app (acl_id a) st xs)"
  using assms
proof (induction xs arbitrary: st a)
  case (Cons x xs)
  obtain resp st' where r: "call_read E app x st = (resp, st')" by fastforce
  let ?d = "read_decision E app x st"
  note acl = call_read_acls [OF r]
  have ids: "distinct (map acl_id (acls st'))" using acl Cons.prems(1) by simp
  show ?case
  proof (cases "handed_out resp \<and> ?d = Allowed (acl_id a)")
    case True
    then obtain c d name where "acl_check E app (rc_rq x) c d name Read st = Allowed (acl_id a)"
      by (auto simp: read_decision_def split: sum.splits option.splits prod.splits)
    note row = admitted_row [OF Cons.prems this]
    have "acl_bump (now (rc_rq x)) a \<in> set (acls st')"
      using record_row [OF Cons.prems(2), of ?d "rc_rq x"] True acl by simp
    from Cons.IH [OF ids this] show ?thesis using r True row by simp
  next
    case False
    then have "a \<in> set (acls st')"
      using record_row [OF Cons.prems(2), of ?d "rc_rq x"] Cons.prems(2) acl by (auto split: if_splits)
    from Cons.IH [OF ids this] show ?thesis using r False by auto
  qed
qed simp

lemma length_reads: "length (reads_by_rule E app i st xs) \<le> length xs"
  by (induction xs arbitrary: st) (auto split: prod.split intro: le_SucI)

lemma reads_times: "set (reads_by_rule E app i st xs) \<subseteq> (\<lambda>x. now (rc_rq x)) ` set xs"
  by (induction xs arbitrary: st) (force split: prod.splits if_splits)+

lemma reads_sorted: "sorted (map (\<lambda>x. now (rc_rq x)) xs) \<Longrightarrow> sorted (reads_by_rule E app i st xs)"
proof (induction xs arbitrary: st)
  case (Cons x xs)
  have "\<forall>t \<in> set (reads_by_rule E app i st' xs). now (rc_rq x) \<le> t" for st' :: "'a secret_state_scheme"
    using reads_times [of E app i st' xs] Cons.prems by fastforce
  with Cons show ?case by (auto split: prod.split)
qed simp

section \<open>Properties\<close>

text \<open>
  C1. A secret is handed out only through every guard: when a read returns a value, the client is
  a member of the domain, the access rules allow the read, the secret is not exhausted and below
  its read limit, its approval gate has let the read proceed, a required second factor was valid,
  and the value is what the stored row decrypts to.
\<close>

theorem read_guarded:
  assumes "retrieve_data E app rq i q h c st = (Reply 200 (Retrieved x), st')"
  shows "\<exists>d r. resolve_and_gate_domain E app c q st = (Inr (d, domain_query q) :: retrieve_reply response + string \<times> string)
    \<and> domain_member c d st
    \<and> lookup_secret E app d i st = Some r
    \<and> dec_str E (metadata_enc_key app) (sr_name_enc r) = Inr (rt_name x)
    \<and> is_allowed (acl_check E app rq c d (rt_name x) Read st)
    \<and> sr_exhausted r = None
    \<and> (\<forall>m. max_reads (sr_flags r) = Some m \<longrightarrow> sr_reads r < m)
    \<and> (\<forall>p. sr_policy r = Some p \<longrightarrow>
         fst (threshold_gate E app rq c ''secret'' d (rt_name x) p (h_request_id h) st) = Proceed)
    \<and> (mfa_required (sr_flags r) \<longrightarrow> totp_ok E app rq (ac_id c) (h_mfa h) st)
    \<and> serve_payload E app r = Inr (rt_data x, rt_envelope x)"
proof -
  obtain d r name where d: "resolve_and_gate_domain E app c q st
        = (Inr (d, domain_query q) :: retrieve_reply response + string \<times> string)" "domain_member c d st"
      and r: "lookup_secret E app d i st = Some r" "dec_str E (metadata_enc_key app) (sr_name_enc r) = Inr name"
      "is_allowed (acl_check E app rq c d name Read st)"
      "retrieve_allowed E app rq h c d (acl_check E app rq c d name Read st) name r st = (Reply 200 (Retrieved x), st')"
    using retrieve_Retrieved [OF assms] by blast
  from r(4) show ?thesis
  proof (cases rule: retrieve_allowed_Retrieved)
    case (1 k rows)
    then show ?thesis
      using d r(1-3) by (intro exI [of _ d] exI [of _ r]) (auto simp: policy_gate_def)
  qed
qed

text \<open>A new secret is returned as it was stored.\<close>

lemma stored_readable:
  assumes "gcm_law E" and "b64_law E" and "utf8_str (sq_data req)" and "utf8_str (sq_name req)"
    and "store_data E K app rq req q c st = (Reply 201 (Stored i), st1)"
    and "resolve_and_gate_domain E app c q st = (Inr (d, n) :: store_reply response + string \<times> string)"
    and "resolve_and_gate_domain E app c' q' st1 = (Inr (d, n') :: retrieve_reply response + string \<times> string)"
    and "sq_policy req = None"
    and "\<not> mfa_required (case sq_flags req of None \<Rightarrow> default_flags | Some f \<Rightarrow> f)"
    and "case max_reads (case sq_flags req of None \<Rightarrow> default_flags | Some f \<Rightarrow> f) of None \<Rightarrow> True | Some m \<Rightarrow> 0 < m"
    and "\<not> list_ex (\<lambda>s. sr_id s = sq_name req) (secrets st)"
    and "is_allowed (acl_check E app rq' c' d (sq_name req) Read st1)"
  shows "\<exists>x st2. retrieve_data E app rq' (sq_name req) q' h c' st1 = (Reply 200 (Retrieved x), st2)
    \<and> (case sq_external req of None \<Rightarrow> rt_data x = sq_data req
       | Some e \<Rightarrow> map_option (b64_decode E) (rt_envelope x) = Some (b64_decode E e))
    \<and> rt_external x = (sq_external req \<noteq> None)"
  using assms(5)
proof (cases rule: store_data_cases)
  case (inserted d' n'' blob p i' st0)
  have [simp]: "d' = d" using inserted(1) assms(6) by simp
  obtain l1 l2 w env where p: "p = (l1, l2, w, env)" by (cases p) auto
  from inserted(5) [unfolded p] obtain r where r: "secrets st0 = secrets st @ [r]" "sr_id r = i'" "sr_domain r = d'"
      "sr_name_id r = name_id_hex E (name_index_key app) d' (sq_name req)"
      "enc_str E (rand rq 5 12) (metadata_enc_key app) (sq_name req) = Inr (sr_name_enc r)"
      "sr_layer2 r = l2" "sr_external r = (env \<noteq> None)" "sr_envelope r = env"
      "sr_flags r = (case sq_flags req of None \<Rightarrow> default_flags | Some f \<Rightarrow> f)" "sr_reads r = 0"
      "policy_value E app st (sq_policy req) = (Inr (sr_policy r) :: store_reply response + access_policy option)"
      "sr_exhausted r = None" "\<not> list_ex (\<lambda>q. sr_id q = i') (secrets st)"
    by (rule insert_secret_row)
  note serve = serve_stored [OF assms(1,3) inserted(4) [unfolded p] r(6-8)]
  have pol: "sr_policy r = None" using r(11) assms(8) by (simp add: policy_value_def)
  have look: "lookup_secret E app d (sq_name req) st1 = Some r"
    using inserted(2,6) r(1,3,4) assms(11)
    by (auto simp: lookup_secret_def Let_def find_append find_None_iff list_ex_iff split: option.split dest!: find_SomeD)
  have name: "dec_str E (metadata_enc_key app) (sr_name_enc r) = Inr (sq_name req)"
    using dec_enc_str [OF assms(1) _ r(5) assms(4)] by simp
  have "claimable (sr_id r) cap r" if "read_cap (sr_flags r) = Some cap" for cap
    using that assms(10) r(9,10,12) by (auto simp: claimable_def read_cap_def split: option.splits bool.splits prod.splits)
  then have "List.find (claimable (sr_id r) cap) (secrets st1) \<noteq> None" if "read_cap (sr_flags r) = Some cap" for cap
    using that inserted(6) r(1) by (auto simp: find_None_iff)
  then obtain k rows where cl: "claim_for r (secrets st1) = (Some k, rows)"
    by (cases "read_cap (sr_flags r)") (auto simp: claim_for_def claim_read_def split: option.splits)
  obtain a b where ab: "(case blob of None \<Rightarrow> (sq_data req, None) | Some b \<Rightarrow> ([], Some (b64_encode E b))) = (a, b)"
    by fastforce
  obtain x st2 where x: "serve_read E app rq' c' (acl_check E app rq' c' d (sq_name req) Read st1) (sq_name req) r st1
      = (Reply 200 (Retrieved x), st2)" "(rt_data x, rt_envelope x) = (a, b)" "rt_external x = sr_external r"
    using serve_read_ok [OF cl serve [unfolded ab]] by blast
  have "retrieve_data E app rq' (sq_name req) q' h c' st1 = (Reply 200 (Retrieved x), st2)"
    using assms(7,9,10,12) look name pol x(1) r(9,10,12)
    by (auto simp: retrieve_data_def retrieve_allowed_def policy_gate_def mfa_gate_def Let_def split: option.splits)
  moreover have "case sq_external req of None \<Rightarrow> rt_data x = sq_data req
       | Some e \<Rightarrow> map_option (b64_decode E) (rt_envelope x) = Some (b64_decode E e)"
    using inserted(3) x(2) [folded ab] b64_lawD [OF assms(2)]
    by (auto simp: external_blob_def split: option.splits if_splits)
  moreover have "rt_external x = (sq_external req \<noteq> None)"
    using inserted(3,4) x(3) r(7) p
    by (auto simp: external_blob_def store_payload_def elim!: and_then_InrE split: option.splits if_splits)
  ultimately show ?thesis by blast
qed auto

text \<open>
  C4. The read limit holds under every interleaving of requests: whatever the statements of
  concurrent reads, teardowns, overwrites, inserts and deletions do to the table, in any order, the
  reads of a secret that are served are at most what its limit (the smaller of \<open>max_reads\<close> and one
  for \<open>delete_on_read\<close>) had left.
\<close>

theorem read_limit_any_order:
  assumes "distinct (map sr_id rows)" and "r \<in> set rows" and "read_cap (sr_flags r) = Some cap"
    and "\<forall>e \<in> set es. about_row r e"
  shows "int (served (sr_id r) es rows) \<le> max 0 (cap - sr_reads r)"
  using served_left [OF assms(1,4,3)] find_by_id [OF assms(1,2)] by (simp add: reads_left_def)

text \<open>
  An immutable secret stays as it is: no store request, by whomever, with or without
  \<open>overwrite\<close>, changes or removes a secret whose \<open>no_overwrite\<close> flag is set.
\<close>

theorem immutable_kept:
  assumes "distinct (map sr_id (secrets st))" and "r \<in> set (secrets st)" and "no_overwrite (sr_flags r)"
    and "store_data E K app rq req q c st = (resp, st')"
  shows "r \<in> set (secrets st')"
  using assms(4)
proof (cases rule: store_data_cases)
  case (overwritten d n blob e p)
  have "e \<in> set (secrets st)" using overwritten(2) by (auto dest: find_SomeD)
  then have "sr_id r \<noteq> sr_id e"
    using unique_row [OF assms(1,2)] overwritten(3) assms(3) by metis
  then show ?thesis using overwritten(6) assms(2) by (force simp: set_update_where)
next
  case (inserted d n blob p i st1)
  obtain l1 l2 w env where "p = (l1, l2, w, env)" by (cases p) auto
  with inserted(5,6) assms(2) show ?thesis by (auto elim!: insert_secret_row)
qed (use assms(2) in simp)

text \<open>
  C16. The last read leaves nothing to recover: when a read returns a secret whose \<open>max_reads\<close> it
  uses up, the row that remains, if any, is marked exhausted and has no ciphertext, no sealed key
  bundle and no envelope.
\<close>

theorem last_read_scrubs:
  assumes "distinct (map sr_id (secrets st))"
    and "retrieve_data E app rq i q h c st = (Reply 200 (Retrieved x), st')"
    and "r \<in> set (secrets st)" and "sr_id r = rt_id x" and "max_reads (sr_flags r) = Some m" and "m \<le> sr_reads r + 1"
    and "s \<in> set (secrets st')" and "sr_id s = rt_id x"
  shows "sr_exhausted s = Some (now rq) \<and> sr_layer1 s = [] \<and> sr_layer2 s = [] \<and> sr_wrapped s = [] \<and> sr_envelope s = None"
proof -
  obtain d r' name where r': "lookup_secret E app d i st = Some r'"
      "retrieve_allowed E app rq h c d (acl_check E app rq c d name Read st) name r' st = (Reply 200 (Retrieved x), st')"
    using retrieve_Retrieved [OF assms(2)] by blast
  have mem: "r' \<in> set (secrets st)" using r'(1) by (auto simp: lookup_secret_def dest: find_SomeD)
  from r'(2) show ?thesis
  proof (cases rule: retrieve_allowed_Retrieved)
    case (1 k rows)
    have "r' = r" using unique_row [OF assms(1) mem assms(3)] 1(8) assms(4) by simp
    show ?thesis
    proof (cases "delete_on_read (sr_flags r)")
      case True
      then show ?thesis using 1(7,8) assms(7,8) \<open>r' = r\<close> by (simp add: post_read_def)
    next
      case False
      then have cap: "read_cap (sr_flags r) = Some m" using assms(5) by (simp add: read_cap_def)
      obtain a where a: "claim_read (sr_id r) m (secrets st) = (Some a, rows)" "k = Some a"
        using 1(5) cap \<open>r' = r\<close> by (auto simp: claim_for_def split: prod.splits option.splits)
      have "a = sr_reads r + 1"
      proof -
        obtain y where y: "List.find (claimable (sr_id r) m) (secrets st) = Some y" "a = sr_reads y + 1"
          using a(1) by (auto simp: claim_read_def split: option.splits)
        then have "y \<in> set (secrets st)" "sr_id y = sr_id r" by (auto simp: claimable_def dest: find_SomeD)
        then have "y = r" using unique_row [OF assms(1,3)] by metis
        with y(2) show ?thesis by simp
      qed
      then have "reached_max (sr_flags r) k" using a(2) assms(5,6) by (simp add: reached_max_def)
      then have "secrets st' = update_where (\<lambda>q. sr_id q = sr_id r) (tombstone rq) rows"
        using 1(7) False \<open>r' = r\<close> by (simp add: post_read_def)
      then show ?thesis using assms(4,7,8) by (auto simp: set_update_where tombstone_def)
    qed
  qed
qed

text \<open>
  C14. Reading returns what was stored: a new secret without policy and second factor, and with no
  read limit or a positive one, stored under either the server's layers or a client envelope, is
  returned to every client the rules allow to read it, with its text or its envelope unchanged.
\<close>

theorem store_then_read:
  assumes "gcm_law E" and "b64_law E" and "utf8_str (sq_data req)" and "utf8_str (sq_name req)"
    and "store_data E K app rq req q c st = (Reply 201 (Stored i), st1)"
    and "resolve_and_gate_domain E app c q st = (Inr (d, n) :: store_reply response + string \<times> string)"
    and "resolve_and_gate_domain E app c' q' st1 = (Inr (d, n') :: retrieve_reply response + string \<times> string)"
    and "sq_policy req = None"
    and "\<not> mfa_required (case sq_flags req of None \<Rightarrow> default_flags | Some f \<Rightarrow> f)"
    and "case max_reads (case sq_flags req of None \<Rightarrow> default_flags | Some f \<Rightarrow> f) of None \<Rightarrow> True | Some m \<Rightarrow> 0 < m"
    and "\<not> list_ex (\<lambda>s. sr_id s = sq_name req) (secrets st)"
    and "is_allowed (acl_check E app rq' c' d (sq_name req) Read st1)"
  shows "\<exists>x st2. retrieve_data E app rq' (sq_name req) q' h c' st1 = (Reply 200 (Retrieved x), st2)
    \<and> (case sq_external req of None \<Rightarrow> rt_data x = sq_data req
       | Some e \<Rightarrow> map_option (b64_decode E) (rt_envelope x) = Some (b64_decode E e))"
  using stored_readable [OF assms] by blast

text \<open>
  Overwriting an exhausted secret succeeds and loses the new value: the store request is
  answered with success, but the row stays marked exhausted, so no read ever returns it.
\<close>

theorem overwrite_exhausted_lost:
  assumes "distinct (map sr_id (secrets st))" and "r \<in> set (secrets st)" and "sr_exhausted r \<noteq> None"
    and "store_data E K app rq req q c st = (Reply 201 (Updated (sr_id r)), st1)"
  shows "\<nexists>x st2. retrieve_data E app rq' i q' h c' st1 = (Reply 200 (Retrieved x), st2) \<and> rt_id x = sr_id r"
proof (rule notI, elim exE conjE)
  fix x st2
  assume read: "retrieve_data E app rq' i q' h c' st1 = (Reply 200 (Retrieved x), st2)" and x: "rt_id x = sr_id r"
  from assms(4) show False
  proof (cases rule: store_data_cases)
    case (overwritten d n blob e p)
    have e: "e \<in> set (secrets st)" using overwritten(2) by (auto dest: find_SomeD)
    obtain d' r' name where r': "lookup_secret E app d' i st1 = Some r'"
        "retrieve_allowed E app rq' h c' d' (acl_check E app rq' c' d' name Read st1) name r' st1
          = (Reply 200 (Retrieved x), st2)"
      using retrieve_Retrieved [OF read] by blast
    have "r' \<in> set (secrets st1)" using r'(1) by (auto simp: lookup_secret_def dest: find_SomeD)
    then obtain y where y: "y \<in> set (secrets st)" "sr_id r' = sr_id y" "sr_exhausted r' = sr_exhausted y"
      using overwritten(6) by (auto simp: set_update_where split: if_splits)
    from r'(2) show ?thesis
    proof (cases rule: retrieve_allowed_Retrieved)
      case (1 k rows)
      have "sr_id r = sr_id y" using x 1(8) y(2) by (simp only:)
      then have "r = y" using unique_row [OF assms(1,2) y(1)] by metis
      then show ?thesis using y(3) 1(1) assms(3) by simp
    qed
  next
    case refused
    from refused(2) [of "Updated (sr_id r)"] show ?thesis by simp
  qed simp
qed

text \<open>
  C34. The limits of a rule hold for reads: along any sequence of reads of secrets served one after
  the other, by any clients for any secrets, the reads that return a value because a rule with
  \<open>max_uses\<close> admits them number at most the uses the rule has left, as long as its rate counter
  stays in the range of its column; and when the reads come in the order of their times, a rule
  with a limit of \<open>m\<close> uses in \<open>p\<close> seconds whose window has not started lets at most \<open>2 * m - 1\<close> reads
  return a value in any span of \<open>p\<close> seconds, wherever it starts, as long as its use counter stays in
  range (the window is fixed when it starts, so \<open>m\<close> itself is no bound for every span). Reads that
  fail are not recorded and not counted.
\<close>

theorem rule_read_limits:
  assumes "distinct (map acl_id (acls st))" and "a \<in> set (acls st)"
  shows "(\<forall>m. acl_max_uses a = Some m \<longrightarrow> acl_use_count a \<le> m \<longrightarrow> m \<le> i32_max \<longrightarrow>
        0 \<le> acl_rate_count a \<longrightarrow> acl_rate_count a + int (length xs) \<le> i32_max \<longrightarrow>
        int (length (reads_by_rule E app (acl_id a) st xs)) \<le> m - acl_use_count a)
    \<and> (\<forall>m p w. acl_rate_max a = Some m \<longrightarrow> acl_rate_period a = Some p \<longrightarrow> 0 < m \<longrightarrow> m \<le> i32_max \<longrightarrow> 0 < p \<longrightarrow>
        acl_rate_start a = None \<longrightarrow> acl_use_count a + int (length xs) \<le> i32_max \<longrightarrow>
        sorted (map (\<lambda>x. now (rc_rq x)) xs) \<longrightarrow>
        int (in_span w (p * 1000000) (reads_by_rule E app (acl_id a) st xs)) \<le> 2 * m - 1)"
proof (intro conjI allI impI)
  let ?ts = "reads_by_rule E app (acl_id a) st xs"
  note row = reads_row [OF assms, of E app xs] and len = length_reads [of E app "acl_id a" st xs]
  show "int (length ?ts) \<le> m - acl_use_count a"
    if "acl_max_uses a = Some m" "acl_use_count a \<le> m" "m \<le> i32_max" "0 \<le> acl_rate_count a"
      "acl_rate_count a + int (length xs) \<le> i32_max" for m
    using row_admits_budget [OF row that(1-4)] len that(5) by simp
  show "int (in_span w (p * 1000000) ?ts) \<le> 2 * m - 1"
    if "acl_rate_max a = Some m" "acl_rate_period a = Some p" "0 < m" "m \<le> i32_max" "0 < p" "acl_rate_start a = None"
      "acl_use_count a + int (length xs) \<le> i32_max" "sorted (map (\<lambda>x. now (rc_rq x)) xs)" for m p w
    by (rule row_admits_rate [OF row reads_sorted [OF that(8)] _ that(6)]) (use that len in \<open>simp add: limited_def\<close>)
qed

section \<open>Instances\<close>

definition demo_key_codec :: key_codec where
  "demo_key_codec = \<lparr>key_to_json = (\<lambda>ks. Some []), key_of_json = (\<lambda>j. None)\<rparr>"

definition demo_default :: domain_row where
  "demo_default = \<lparr>dm_id = ''dom'', dm_name_enc = [],
     dm_name_id = domain_name_id_hex demo_ext (name_index_key demo_app) ''default'',
     dm_desc_enc = None, dm_created = 0, dm_archived = None\<rparr>"

definition demo_secret :: "resource_flags \<Rightarrow> secret_row" where
  "demo_secret f = \<lparr>sr_id = ''s1'', sr_name_enc = zeros 12 @ as_bytes ''db/x'' @ zeros 16,
     sr_name_id = name_id_hex demo_ext (name_index_key demo_app) ''dom'' ''db/x'', sr_domain = ''dom'',
     sr_layer1 = zeros 37 @ as_bytes ''pw'' @ zeros 16, sr_layer2 = zeros 74 @ as_bytes ''pw'' @ zeros 32,
     sr_wrapped = ''w'', sr_external = False, sr_envelope = None, sr_flags = f, sr_reads = 0,
     sr_policy = None, sr_exhausted = None, sr_created = 0, sr_updated = 0, sr_method = enc_method False\<rparr>"

definition demo_once :: resource_flags where
  "demo_once = default_flags\<lparr>max_reads := Some 1\<rparr>"

definition demo_vault :: "secret_row list \<Rightarrow> secret_state" where
  "demo_vault rows = \<lparr>audit_log = [], audit_next = 1, anchors = [], archive_files = [], clients = [],
     domains = [demo_default], members = [], acls = [], requests = [], grants = [], secrets = rows\<rparr>"

definition demo_store :: "string option \<Rightarrow> store_request" where
  "demo_store e = \<lparr>sq_name = ''db/x'', sq_data = ''pw'', sq_flags = Some demo_once, sq_policy = None,
     sq_overwrite = True, sq_external = e\<rparr>"

definition demo_headers :: read_headers where
  "demo_headers = \<lparr>h_mfa = None, h_request_id = None\<rparr>"

lemma demo_gate:
  "domains st = [demo_default] \<Longrightarrow>
    resolve_and_gate_domain demo_ext demo_app demo_admin None st = Inr (''dom'', ''default'')"
  by (simp add: resolve_and_gate_domain_def domain_query_def resolve_domain_def domain_by_name_def demo_default_def
      domain_member_def is_admin_def demo_admin_def)

lemma demo_allowed: "acl_check E app rq demo_admin d n x st = AllowedAdmin"
  by (simp add: acl_check_def is_admin_def demo_admin_def)

lemma demo_vault_fields [simp]: "domains (demo_vault rows) = [demo_default]" "secrets (demo_vault rows) = rows"
  by (simp_all add: demo_vault_def)

lemma demo_payload:
  "\<exists>p. store_payload demo_ext demo_key_codec demo_app (demo_rq 5) ''pw'' None = Inr p"
proof -
  have "\<not> isl (store_payload demo_ext demo_key_codec demo_app (demo_rq 5) ''pw'' None)" by code_simp
  then show ?thesis by (metis isl_def sum.collapse(2))
qed

lemma demo_name_sealed: "enc_str demo_ext n (metadata_enc_key demo_app) s = Inr (n @ as_bytes s @ zeros 16)"
proof -
  have "metadata_enc_key demo_app = zeros 32" by (simp add: demo_app_def)
  then show ?thesis by (simp add: enc_str_def enc_field_def demo_seal_Inr)
qed

lemma demo_stores:
  "\<exists>st1. store_data demo_ext demo_key_codec demo_app (demo_rq 5) (demo_store None) None demo_admin (demo_vault [])
      = (Reply 201 (Stored (hex_encode demo_ext (zeros 32))), st1) \<and> domains st1 = [demo_default]"
proof -
  obtain p where p: "store_payload demo_ext demo_key_codec demo_app (demo_rq 5) ''pw'' None = Inr p"
    using demo_payload by blast
  then show ?thesis
    by (cases p) (simp add: store_data_def Let_def demo_store_def external_blob_def demo_gate store_checked_def demo_allowed
        is_allowed_def insert_secret_def policy_value_def demo_name_sealed demo_draw)
qed

lemma demo_overwrites:
  "\<exists>st1. store_data demo_ext demo_key_codec demo_app (demo_rq 5) (demo_store None) None demo_admin
        (demo_vault [(demo_secret default_flags)\<lparr>sr_exhausted := Some 1\<rparr>])
      = (Reply 201 (Updated ''s1''), st1)"
proof -
  obtain p where p: "store_payload demo_ext demo_key_codec demo_app (demo_rq 5) ''pw'' None = Inr p"
    using demo_payload by blast
  then show ?thesis
    by (simp add: store_data_def Let_def demo_store_def external_blob_def demo_gate store_checked_def demo_allowed
        is_allowed_def demo_secret_def default_flags_def)
qed

lemma demo_served: "serve_payload demo_ext demo_app (demo_secret f) = Inr (''pw'', None)"
proof -
  have "serve_payload demo_ext demo_app (demo_secret default_flags) = Inr (''pw'', None)" by code_simp
  then show ?thesis by (simp add: serve_payload_def demo_secret_def)
qed

lemma demo_named: "dec_str demo_ext (metadata_enc_key demo_app) (sr_name_enc (demo_secret f)) = Inr ''db/x''"
proof -
  have "dec_str demo_ext (metadata_enc_key demo_app) (zeros 12 @ as_bytes ''db/x'' @ zeros 16) = Inr ''db/x''" by code_simp
  then show ?thesis by (simp add: demo_secret_def)
qed

lemma demo_reads:
  "\<exists>x st'. retrieve_data demo_ext demo_app (demo_rq 5) ''db/x'' None demo_headers demo_admin (demo_vault [demo_secret demo_once])
    = (Reply 200 (Retrieved x), st') \<and> rt_data x = ''pw'' \<and> rt_id x = ''s1'' \<and> secrets st' = [tombstone (demo_rq 5) ((demo_secret demo_once)\<lparr>sr_reads := 1\<rparr>)]"
proof -
  let ?r = "demo_secret demo_once"
  have r: "sr_domain ?r = ''dom''" "sr_name_id ?r = name_id_hex demo_ext (name_index_key demo_app) ''dom'' ''db/x''"
    "sr_exhausted ?r = None" "sr_policy ?r = None" "sr_flags ?r = demo_once" "sr_reads ?r = 0" "sr_id ?r = ''s1''"
    by (simp_all add: demo_secret_def)
  have f: "max_reads demo_once = Some 1" "\<not> mfa_required demo_once" "\<not> delete_on_read demo_once"
    by (simp_all add: demo_once_def default_flags_def)
  show ?thesis
    by (simp add: retrieve_data_def demo_gate lookup_secret_def r f demo_named Let_def demo_allowed is_allowed_def
        retrieve_allowed_def policy_gate_def mfa_gate_def serve_read_def claim_for_def read_cap_def claim_read_def
        claimable_def demo_served post_read_def reached_max_def)
qed

theorem read_guarded_witness:
  "\<exists>x st' d r. retrieve_data demo_ext demo_app (demo_rq 5) ''db/x'' None demo_headers demo_admin (demo_vault [demo_secret demo_once])
      = (Reply 200 (Retrieved x), st')
    \<and> lookup_secret demo_ext demo_app d ''db/x'' (demo_vault [demo_secret demo_once]) = Some r
    \<and> serve_payload demo_ext demo_app r = Inr (''pw'', rt_envelope x)"
proof -
  obtain x st' where x: "retrieve_data demo_ext demo_app (demo_rq 5) ''db/x'' None demo_headers demo_admin
      (demo_vault [demo_secret demo_once]) = (Reply 200 (Retrieved x), st')" "rt_data x = ''pw''"
    using demo_reads by blast
  from read_guarded [OF x(1)] x show ?thesis by metis
qed

theorem store_then_read_witness:
  "\<exists>st1 x st2. store_data demo_ext demo_key_codec demo_app (demo_rq 5) (demo_store None) None demo_admin (demo_vault [])
      = (Reply 201 (Stored (hex_encode demo_ext (zeros 32))), st1)
    \<and> retrieve_data demo_ext demo_app (demo_rq 6) ''db/x'' None demo_headers demo_admin st1 = (Reply 200 (Retrieved x), st2)
    \<and> rt_data x = ''pw''"
proof -
  obtain st1 where st1: "store_data demo_ext demo_key_codec demo_app (demo_rq 5) (demo_store None) None demo_admin (demo_vault [])
      = (Reply 201 (Stored (hex_encode demo_ext (zeros 32))), st1)" "domains st1 = [demo_default]"
    using demo_stores by blast
  have "utf8_str (sq_data (demo_store None))" "utf8_str (sq_name (demo_store None))"
    by (simp_all add: demo_store_def ascii_utf8)
  from store_then_read [OF demo_laws(3,2) this st1(1) demo_gate demo_gate [OF st1(2)], of "demo_rq 6" demo_headers]
  have "\<exists>x st2. retrieve_data demo_ext demo_app (demo_rq 6) ''db/x'' None demo_headers demo_admin st1
      = (Reply 200 (Retrieved x), st2) \<and> rt_data x = ''pw''"
    by (simp add: demo_store_def demo_once_def default_flags_def demo_allowed is_allowed_def)
  with st1 show ?thesis by blast
qed

theorem read_limit_any_order_witness:
  "served ''s1'' [Claim (demo_secret demo_once), Claim (demo_secret demo_once), Overwrite (demo_rq 1) ''s1'' ([], [], [], None),
      Claim (demo_secret demo_once)] [demo_secret demo_once] \<le> 1"
  using read_limit_any_order [of "[demo_secret demo_once]" "demo_secret demo_once" 1 "[Claim (demo_secret demo_once),
      Claim (demo_secret demo_once), Overwrite (demo_rq 1) ''s1'' ([], [], [], None), Claim (demo_secret demo_once)]"]
  by (simp add: demo_secret_def read_cap_def demo_once_def default_flags_def)

theorem immutable_kept_witness:
  "demo_secret (demo_once\<lparr>no_overwrite := True\<rparr>) \<in> set (secrets (snd (store_data demo_ext demo_key_codec demo_app (demo_rq 5)
    (demo_store None) None demo_admin (demo_vault [demo_secret (demo_once\<lparr>no_overwrite := True\<rparr>)]))))"
  by (rule immutable_kept [OF _ _ _ prod.collapse [symmetric]]) (simp_all add: demo_secret_def)

theorem last_read_scrubs_witness:
  "\<exists>x st'. retrieve_data demo_ext demo_app (demo_rq 5) ''db/x'' None demo_headers demo_admin (demo_vault [demo_secret demo_once])
      = (Reply 200 (Retrieved x), st')
    \<and> (\<exists>s. secrets st' = [s] \<and> sr_exhausted s = Some 5 \<and> sr_layer2 s = [])"
proof -
  let ?r = "demo_secret demo_once"
  obtain x st' where x: "retrieve_data demo_ext demo_app (demo_rq 5) ''db/x'' None demo_headers demo_admin
      (demo_vault [?r]) = (Reply 200 (Retrieved x), st')" "rt_id x = ''s1''"
      "secrets st' = [tombstone (demo_rq 5) (?r\<lparr>sr_reads := 1\<rparr>)]"
    using demo_reads by blast
  have "sr_exhausted (tombstone (demo_rq 5) (?r\<lparr>sr_reads := 1\<rparr>)) = Some (now (demo_rq 5))
      \<and> sr_layer1 (tombstone (demo_rq 5) (?r\<lparr>sr_reads := 1\<rparr>)) = [] \<and> sr_layer2 (tombstone (demo_rq 5) (?r\<lparr>sr_reads := 1\<rparr>)) = []
      \<and> sr_wrapped (tombstone (demo_rq 5) (?r\<lparr>sr_reads := 1\<rparr>)) = [] \<and> sr_envelope (tombstone (demo_rq 5) (?r\<lparr>sr_reads := 1\<rparr>)) = None"
    by (rule last_read_scrubs [OF _ x(1), of ?r 1])
      (simp_all add: x demo_secret_def demo_once_def default_flags_def)
  with x show ?thesis by (simp add: demo_rq_def)
qed

theorem overwrite_exhausted_lost_witness:
  "\<exists>st1. store_data demo_ext demo_key_codec demo_app (demo_rq 5) (demo_store None) None demo_admin
        (demo_vault [(demo_secret default_flags)\<lparr>sr_exhausted := Some 1\<rparr>]) = (Reply 201 (Updated ''s1''), st1)
    \<and> \<not> (\<exists>x st2. retrieve_data demo_ext demo_app (demo_rq 6) ''db/x'' None demo_headers demo_admin st1
          = (Reply 200 (Retrieved x), st2) \<and> rt_id x = ''s1'')"
proof -
  let ?r = "(demo_secret default_flags)\<lparr>sr_exhausted := Some 1\<rparr>"
  obtain st1 where st1: "store_data demo_ext demo_key_codec demo_app (demo_rq 5) (demo_store None) None demo_admin
      (demo_vault [?r]) = (Reply 201 (Updated ''s1''), st1)"
    using demo_overwrites by blast
  have r: "sr_id ?r = ''s1''" "distinct (map sr_id (secrets (demo_vault [?r])))" "?r \<in> set (secrets (demo_vault [?r]))"
    "sr_exhausted ?r \<noteq> None"
    by (simp_all add: demo_secret_def)
  from overwrite_exhausted_lost [OF r(2-4), unfolded r(1), OF st1] st1 show ?thesis by blast
qed

text \<open>Bob reads through the rule \<open>r1\<close>, which has three uses left.\<close>

definition demo_shared :: secret_state where
  "demo_shared = (demo_vault [demo_secret default_flags])\<lparr>acls := [demo_rule],
     members := [\<lparr>mb_domain = ''dom'', mb_client = ''bob'', mb_role = ''user'', mb_added = 0\<rparr>]\<rparr>"

definition demo_call :: "int \<Rightarrow> read_call" where
  "demo_call t = \<lparr>rc_rq = demo_rq t, rc_id = ''db/x'', rc_domain = None, rc_headers = demo_headers, rc_client = demo_user\<rparr>"

lemma demo_shared_row: "distinct (map acl_id (acls demo_shared))" "demo_rule \<in> set (acls demo_shared)"
  by (simp_all add: demo_shared_def)

lemma demo_call_reads:
  "read_decision demo_ext demo_app (demo_call 5) demo_shared = Allowed ''r1''
    \<and> handed_out (fst (call_read demo_ext demo_app (demo_call 5) demo_shared))"
proof -
  let ?r = "demo_secret default_flags"
  have u: "\<not> is_admin demo_user" "ac_id demo_user = ''bob''" by (simp_all add: is_admin_def demo_user_def)
  have g: "resolve_and_gate_domain demo_ext demo_app demo_user None demo_shared
      = (Inr (''dom'', ''default'') :: retrieve_reply response + string \<times> string)"
    using u by (simp add: resolve_and_gate_domain_def domain_query_def resolve_domain_def domain_by_name_def demo_default_def
        domain_member_def demo_shared_def is_member_def)
  have r: "sr_domain ?r = ''dom''" "sr_name_id ?r = name_id_hex demo_ext (name_index_key demo_app) ''dom'' ''db/x''"
    "sr_exhausted ?r = None" "sr_policy ?r = None" "sr_flags ?r = default_flags" "sr_reads ?r = 0" "sr_id ?r = ''s1''"
    by (simp_all add: demo_secret_def)
  have f: "max_reads default_flags = None" "\<not> mfa_required default_flags" "\<not> delete_on_read default_flags"
    by (simp_all add: default_flags_def)
  have l: "lookup_secret demo_ext demo_app ''dom'' ''db/x'' demo_shared = Some ?r"
    by (simp add: lookup_secret_def demo_shared_def r)
  have m: "acl_matches demo_ext demo_app (demo_rq 5) ''db/x'' demo_rule" by code_simp
  have "acl_candidate (demo_rq 5) demo_user ''dom'' Read demo_shared demo_rule"
    by (simp add: acl_candidate_def demo_rule_def u)
  then have c: "acl_check demo_ext demo_app (demo_rq 5) demo_user ''dom'' ''db/x'' Read demo_shared = Allowed ''r1''"
    using m u by (simp add: acl_check_def demo_shared_def Let_def) (simp add: demo_rule_def)
  have s: "secrets demo_shared = [?r]" by (simp add: demo_shared_def)
  show ?thesis
    by (simp add: read_decision_def call_read_def demo_call_def g l demo_named c retrieve_data_def Let_def is_allowed_def
        retrieve_allowed_def r f policy_gate_def mfa_gate_def serve_read_def claim_for_def read_cap_def demo_headers_def
        demo_served post_read_def reached_max_def s)
qed

theorem rule_read_limits_witness:
  "int (length (reads_by_rule demo_ext demo_app ''r1'' demo_shared (map demo_call [5, 9, 10000005, 20000005, 30000005]))) \<le> 3
    \<and> int (in_span 5 (10 * 1000000) (reads_by_rule demo_ext demo_app ''r1'' demo_shared
        (map demo_call [5, 9, 10000005, 20000005, 30000005]))) \<le> 3
    \<and> read_decision demo_ext demo_app (demo_call 5) demo_shared = Allowed ''r1''
    \<and> handed_out (fst (call_read demo_ext demo_app (demo_call 5) demo_shared))"
  using rule_read_limits [OF demo_shared_row, of "map demo_call [5, 9, 10000005, 20000005, 30000005]" demo_ext demo_app]
    demo_call_reads
  by (auto simp: demo_rule_def i32_max_def demo_call_def demo_rq_def)

end
