(* ===== verification/Net_Ratelimit.thy ===== *)
theory Net_Ratelimit
  imports Complex_Main "HOL-Library.AList" "HOL-Library.Log_Nat" Prelude
begin

text \<open>
  The network-level limiter (\<open>net_ratelimit.rs\<close>): one token bucket per client, refilled lazily,
  with a sweep of idle buckets when the table grows. An \<open>f64\<close> is the rational it stands for and
  every operation rounds its exact result to the nearest \<open>f64\<close>, ties to even, subnormal numbers
  included; a sum or product that overflows is compared with the finite capacity only, where the
  unbounded value and infinity act alike. Infinities and NaN as configured values are left out. An
  \<open>Instant\<close> is a count of nanoseconds. The lemmas compare every bucket with the tokens that exact
  arithmetic would accrue, which bounds what a client is allowed in any span up to the rounding of
  its own requests, and show that a paced client is never refused.
\<close>

section \<open>Rounding\<close>

text \<open>
  The nearest integer, a tie to the even one; the exponent of a positive number; the distance of
  the \<open>f64\<close> values around it (53 bits, least exponent -1074); the nearest \<open>f64\<close>.
\<close>

definition round_even :: "rat \<Rightarrow> int" where
  "round_even y = (let n = \<lfloor>y\<rfloor>; r = y - of_int n
     in if r < 1 / 2 \<or> r = 1 / 2 \<and> even n then n else n + 1)"

definition binade :: "rat \<Rightarrow> int" where
  "binade x = (if 1 \<le> x then int (floorlog 2 (nat \<lfloor>x\<rfloor>)) - 1
     else - int (floorlog 2 (nat (\<lceil>1 / x\<rceil> - 1))))"

definition spacing :: "rat \<Rightarrow> rat" where
  "spacing x = 2 powi (max (binade x - 52) (-1074))"

definition fl :: "rat \<Rightarrow> rat" where
  "fl x = (if x = 0 then 0 else of_int (round_even (x / spacing \<bar>x\<bar>)) * spacing \<bar>x\<bar>)"

section \<open>The limiter\<close>

record bucket =
  tokens :: rat
  last_seen :: int

record limiter =
  buckets :: "(string \<times> bucket) list"
  capacity :: rat
  refill_per_sec :: rat
  enabled :: bool

definition new_limiter :: "rat \<Rightarrow> rat \<Rightarrow> limiter" where
  "new_limiter cap refill = \<lparr>buckets = [], capacity = cap, refill_per_sec = refill,
     enabled = (cap > 0 \<and> refill > 0)\<rparr>"

text \<open>The environment and the parser of numbers are arguments.\<close>

definition env_number :: "(string \<Rightarrow> string option) \<Rightarrow> (string \<Rightarrow> rat option) \<Rightarrow> string \<Rightarrow> rat \<Rightarrow> rat" where
  "env_number env parse name dflt = (case env name of
      None \<Rightarrow> dflt
    | Some v \<Rightarrow> (case parse v of None \<Rightarrow> dflt | Some x \<Rightarrow> x))"

definition from_env :: "(string \<Rightarrow> string option) \<Rightarrow> (string \<Rightarrow> rat option) \<Rightarrow> limiter" where
  "from_env env parse =
     new_limiter (env_number env parse ''BLACKBOOK_NET_BURST'' 200)
       (env_number env parse ''BLACKBOOK_NET_RATE_PER_SEC'' 100)"

text \<open>\<open>duration_since\<close> saturates at zero.\<close>

definition nanos_since :: "int \<Rightarrow> int \<Rightarrow> int" where
  "nanos_since t earlier = max 0 (t - earlier)"

text \<open>\<open>Duration::as_secs_f64\<close>.\<close>

definition as_secs_f64 :: "int \<Rightarrow> rat" where
  "as_secs_f64 ns = fl (fl (of_int (ns div 1000000000)) + fl (fl (of_int (ns mod 1000000000)) / 1000000000))"

definition sweep :: "int \<Rightarrow> (string \<times> bucket) list \<Rightarrow> (string \<times> bucket) list" where
  "sweep t bs =
     (if length bs > 8192 then filter (\<lambda>(k, b). nanos_since t (last_seen b) div 1000000000 < 300) bs else bs)"

definition allow :: "string \<Rightarrow> int \<Rightarrow> limiter \<Rightarrow> bool \<times> limiter" where
  "allow key t l =
     (if \<not> enabled l then (True, l)
      else
        let bs = sweep t (buckets l);
            b = (case map_of bs key of Some b \<Rightarrow> b | None \<Rightarrow> \<lparr>tokens = capacity l, last_seen = t\<rparr>);
            elapsed = as_secs_f64 (nanos_since t (last_seen b));
            filled = min (fl (tokens b + fl (elapsed * refill_per_sec l))) (capacity l);
            ok = (filled \<ge> 1)
        in (ok, l\<lparr>buckets := AList.update key
              \<lparr>tokens = (if ok then fl (filled - 1) else filled), last_seen = t\<rparr> bs\<rparr>))"

section \<open>How far rounding goes\<close>

lemma round_even_near: "\<bar>of_int (round_even y) - y\<bar> \<le> 1 / 2"
  unfolding round_even_def Let_def by (simp add: abs_if) linarith

lemma round_even_ge: "of_int n \<le> y \<Longrightarrow> n \<le> round_even y"
  unfolding round_even_def Let_def by (auto simp: le_floor_iff [symmetric])

lemma binade:
  assumes "0 < x"
  shows "2 powi binade x \<le> x" and "x < 2 * 2 powi binade x"
proof -
  have "2 powi binade x \<le> x \<and> x < 2 * 2 powi binade x"
  proof (cases "1 \<le> x")
    case True
    define n where "n = nat \<lfloor>x\<rfloor>"
    have n: "0 < n" "of_nat n \<le> x" "x < of_nat n + 1" using True by (simp_all add: n_def) linarith+
    define k where "k = floorlog 2 n"
    have k: "2 ^ (k - 1) \<le> n" "n < 2 ^ k" "0 < k"
      using floorlog_bounds [of n 2] n(1) by (auto simp: k_def floorlog_def)
    have e: "binade x = int (k - 1)" using True k(3) by (simp add: binade_def k_def n_def)
    have "Suc n \<le> 2 ^ k" using k(2) by simp
    then have "of_nat (Suc n) \<le> (2 ^ k :: rat)" by (metis of_nat_le_iff of_nat_numeral of_nat_power)
    moreover have "(2 ^ (k - 1) :: rat) \<le> of_nat n" using k(1) by (metis of_nat_le_iff of_nat_numeral of_nat_power)
    moreover have "(2 ^ k :: rat) = 2 * 2 ^ (k - 1)" using k(3) by (cases k) simp_all
    ultimately show ?thesis using n(2,3) unfolding e power_int_of_nat by (simp; linarith)
  next
    case False
    define m where "m = nat (\<lceil>1 / x\<rceil> - 1)"
    have i: "1 < 1 / x" using False assms by simp
    then have m: "0 < m" "of_nat m < 1 / x" "1 / x \<le> of_nat m + 1" by (simp_all add: m_def) linarith+
    define k where "k = floorlog 2 m"
    have k: "2 ^ (k - 1) \<le> m" "m < 2 ^ k" "0 < k"
      using floorlog_bounds [of m 2] m(1) by (auto simp: k_def floorlog_def)
    have e: "2 powi binade x = inverse (2 ^ k :: rat)"
      using False by (simp add: binade_def k_def m_def power_int_minus)
    have "Suc m \<le> 2 ^ k" using k(2) by simp
    then have "of_nat (Suc m) \<le> (2 ^ k :: rat)" by (metis of_nat_le_iff of_nat_numeral of_nat_power)
    then have a: "1 / x \<le> 2 ^ k" using m(3) by simp
    have "(2 ^ (k - 1) :: rat) \<le> of_nat m" using k(1) by (metis of_nat_le_iff of_nat_numeral of_nat_power)
    moreover have "(2 ^ k :: rat) = 2 * 2 ^ (k - 1)" using k(3) by (cases k) simp_all
    ultimately have "(2 ^ k :: rat) < 2 * (1 / x)" using m(2) by linarith
    with a assms show ?thesis unfolding e by (simp add: field_simps)
  qed
  then show "2 powi binade x \<le> x" and "x < 2 * 2 powi binade x" by simp_all
qed

lemma spacing_pos [simp]: "0 < spacing x" by (simp add: spacing_def)

lemma fl_near: "\<bar>fl x - x\<bar> \<le> spacing \<bar>x\<bar> / 2"
proof (cases "x = 0")
  case False
  let ?s = "spacing \<bar>x\<bar>"
  have "fl x - x = (of_int (round_even (x / ?s)) - x / ?s) * ?s"
    using False by (simp add: fl_def left_diff_distrib less_imp_neq [symmetric, OF spacing_pos])
  then have "\<bar>fl x - x\<bar> = \<bar>of_int (round_even (x / ?s)) - x / ?s\<bar> * ?s" by (simp add: abs_mult less_imp_le)
  also have "\<dots> \<le> 1 / 2 * ?s" by (intro mult_right_mono round_even_near less_imp_le [OF spacing_pos])
  finally show ?thesis by simp
qed (simp add: fl_def less_imp_le)

lemma fl_0 [simp]: "fl 0 = 0" by (simp add: fl_def)

lemma fl_nonneg: "0 \<le> x \<Longrightarrow> 0 \<le> fl x"
  using round_even_ge [of 0 "x / spacing \<bar>x\<bar>"] by (auto simp: fl_def less_imp_le)

lemma fl_ge_1: 
  assumes "1 \<le> x" shows "1 \<le> fl x"
proof -
  have e: "0 \<le> binade x"
  proof (rule ccontr)
    assume "\<not> 0 \<le> binade x"
    then have "(2 :: rat) powi binade x \<le> 2 powi (-1)" by (intro power_int_increasing) simp_all
    with binade(2) [of x] assms show False by (simp add: power_int_minus)
  qed
  then have s: "spacing x = 2 powi (binade x - 52)" by (simp add: spacing_def)
  have "2 powi binade x / spacing x = 2 ^ 52" by (simp add: s power_int_diff)
  then have "of_int (2 ^ 52) \<le> x / spacing x" using binade(1) [of x] assms 
    by (metis divide_right_mono less_imp_le of_int_numeral of_int_power order_less_le_trans spacing_pos zero_less_one)
  then have "2 ^ 52 \<le> round_even (x / spacing x)" by (rule round_even_ge)
  then have "(2 ^ 52 :: rat) \<le> of_int (round_even (x / spacing x))" by (metis of_int_le_iff of_int_numeral of_int_power)
  then have "2 ^ 52 * spacing x \<le> of_int (round_even (x / spacing x)) * spacing x" by (intro mult_right_mono) (simp_all add: less_imp_le)
  moreover have "2 ^ 52 * spacing x = 2 powi binade x" by (simp add: s power_int_diff)
  moreover have "(2 :: rat) powi 0 \<le> 2 powi binade x" using e by (intro power_int_increasing) simp_all
  ultimately have "1 \<le> of_int (round_even (x / spacing x)) * spacing x" by (simp only: power_int_0_right)
  then show ?thesis using assms by (simp add: fl_def)
qed

definition tiny :: rat where
  "tiny = 2 powi (-1074)"

lemma powi_le: "a \<le> b \<Longrightarrow> (2 :: rat) powi a \<le> 2 powi b"
  by (rule power_int_increasing) simp_all

lemma tiny_pos: "0 < tiny"
  unfolding tiny_def by (rule zero_less_power_int) simp

lemma powi_100: "(2 :: rat) powi (-100) = 1 / 2 ^ 100"
  by (simp only: power_int_minus power_int_numeral inverse_eq_divide)

lemma tiny_le: "tiny \<le> 1 / 2 ^ 100"
  by (rule order_trans [OF _ eq_refl [OF powi_100]]) (simp only: tiny_def powi_le)

lemmas tiny = tiny_pos tiny_le

lemma powi_max: "(2 :: rat) powi (max a b) = max (2 powi a) (2 powi b)"
  by (simp add: max_def) (metis antisym linear power_int_increasing one_le_numeral)

lemma spacing_le:
  assumes "0 < x"
  shows "spacing x \<le> x / 2 ^ 52 + tiny" and "1 / 2 ^ 40 \<le> x \<Longrightarrow> spacing x \<le> x / 2 ^ 52"
proof -
  have a: "2 powi (binade x - 52) \<le> x / 2 ^ 52"
    using binade(1) [OF assms] by (simp add: power_int_diff divide_right_mono)
  have b: "spacing x = max (2 powi (binade x - 52)) tiny"
    by (simp only: spacing_def tiny_def powi_max)
  have p: "0 \<le> x / 2 ^ 52" using assms by simp
  show "spacing x \<le> x / 2 ^ 52 + tiny"
    using a p tiny(1) unfolding b by linarith
  assume x: "1 / 2 ^ 40 \<le> x"
  have "tiny \<le> x / 2 ^ 52" using x tiny(2) by simp
  with a show "spacing x \<le> x / 2 ^ 52" unfolding b by simp
qed

lemma fl_error:
  assumes "0 \<le> x"
  shows "\<bar>fl x - x\<bar> \<le> x / 2 ^ 53 + tiny" and "x = 0 \<or> 1 / 2 ^ 40 \<le> x \<Longrightarrow> \<bar>fl x - x\<bar> \<le> x / 2 ^ 53"
proof -
  have "\<bar>fl x - x\<bar> \<le> x / 2 ^ 53 + tiny \<and> (1 / 2 ^ 40 \<le> x \<longrightarrow> \<bar>fl x - x\<bar> \<le> x / 2 ^ 53)" if "0 < x"
    using fl_near [of x] spacing_le [OF that] tiny(1) that by (auto simp: abs_of_pos) 
  then show "\<bar>fl x - x\<bar> \<le> x / 2 ^ 53 + tiny" "x = 0 \<or> 1 / 2 ^ 40 \<le> x \<Longrightarrow> \<bar>fl x - x\<bar> \<le> x / 2 ^ 53"
    using assms tiny(1) by (cases "x = 0"; auto simp: less_imp_le)+
qed

lemma fl_coarse:
  assumes "x = 0 \<or> 1 / 2 ^ 40 \<le> x"
  shows "fl x \<le> x + x / 2 ^ 53" and "x - x / 2 ^ 53 \<le> fl x"
proof -
  have "0 \<le> x" using assms by (auto intro: order_trans [rotated])
  from fl_error(2) [OF this assms] show "fl x \<le> x + x / 2 ^ 53" "x - x / 2 ^ 53 \<le> fl x" by linarith+
qed

lemma powers:
  "(2 :: rat) ^ 49 = 562949953421312" "(2 :: rat) ^ 50 = 1125899906842624" "(2 :: rat) ^ 51 = 2251799813685248"
  "(2 :: rat) ^ 53 = 9007199254740992" "(2 :: rat) ^ 100 = 1267650600228229401496703205376"
  by simp_all

definition secs_f :: "int \<Rightarrow> rat" where
  "secs_f ns = of_int ns / 1000000000"

lemma secs_f_mono: "a \<le> b \<Longrightarrow> secs_f a \<le> secs_f b"
  by (simp add: secs_f_def divide_right_mono)

lemma secs_f_add: "secs_f (a + b) = secs_f a + secs_f b"
  by (simp add: secs_f_def add_divide_distrib)

lemma secs_f_nonneg: "0 \<le> a \<Longrightarrow> 0 \<le> secs_f a"
  by (simp add: secs_f_def)

lemma of_int_coarse: "0 \<le> n \<Longrightarrow> (of_int n :: rat) = 0 \<or> 1 \<le> (of_int n :: rat)"
  by (cases "n = 0") (simp_all add: zle_int [symmetric])

text \<open>The time in seconds is off by at most four units in the last place.\<close>

lemma as_secs_near:
  assumes "0 \<le> ns"
  shows "as_secs_f64 ns \<le> secs_f ns + secs_f ns / 2 ^ 51" and "secs_f ns - secs_f ns / 2 ^ 51 \<le> as_secs_f64 ns"
proof -
  define a where "a = (of_int (ns div 1000000000) :: rat)"
  define n where "n = (of_int (ns mod 1000000000) :: rat)"
  have an: "a = 0 \<or> 1 \<le> a" "n = 0 \<or> 1 \<le> n"
    unfolding a_def n_def by (rule of_int_coarse; use assms in \<open>simp add: pos_imp_zdiv_nonneg_iff\<close>)+
  have eq: "secs_f ns = a + n / 1000000000"
  proof -
    have "ns = 1000000000 * (ns div 1000000000) + ns mod 1000000000" by simp
    then have "(of_int ns :: rat) = 1000000000 * a + n" unfolding a_def n_def by (metis of_int_add of_int_mult of_int_numeral)
    then show ?thesis by (simp add: secs_f_def)
  qed
  have A: "fl a \<le> a + a / 2 ^ 53" "a - a / 2 ^ 53 \<le> fl a" by (rule fl_coarse; use an(1) in auto)+
  have N: "fl n \<le> n + n / 2 ^ 53" "n - n / 2 ^ 53 \<le> fl n" by (rule fl_coarse; use an(2) in auto)+
  define b where "b = fl n / 1000000000"
  have "b = 0 \<or> 1 / 2 ^ 40 \<le> b"
    using an(2) fl_ge_1 [of n] by (auto simp: b_def)
  note B = fl_coarse [OF this]
  have "fl a + fl b = 0 \<or> 1 / 2 ^ 40 \<le> fl a + fl b"
  proof -
    have "a = 0 \<and> b = 0 \<or> 1 \<le> a \<and> 0 \<le> b \<or> 0 \<le> a \<and> 1 / 2 ^ 31 \<le> b"
      using an fl_ge_1 [of n] by (auto simp: b_def)
    moreover have "0 \<le> a" "0 \<le> b" using an fl_ge_1 [of n] by (auto simp: b_def)
    ultimately show ?thesis using A B fl_nonneg [of a] fl_nonneg [of b] by auto
  qed
  note S = fl_coarse [OF this]
  have ans: "as_secs_f64 ns = fl (fl a + fl b)" by (simp add: as_secs_f64_def a_def n_def b_def)
  have nn: "0 \<le> a" "0 \<le> n" "b * 1000000000 = fl n" using an by (auto simp: b_def)
  show "as_secs_f64 ns \<le> secs_f ns + secs_f ns / 2 ^ 51"
    using S(1) A(1) B(1) N(1) nn unfolding ans eq powers add_divide_distrib by linarith
  show "secs_f ns - secs_f ns / 2 ^ 51 \<le> as_secs_f64 ns"
    using S(2) A(2) B(2) N(2) nn unfolding ans eq powers add_divide_distrib by linarith
qed

lemma as_secs_nonneg: "0 \<le> ns \<Longrightarrow> 0 \<le> as_secs_f64 ns"
  using as_secs_near(2) [of ns] secs_f_nonneg [of ns] by simp

text \<open>What a bucket is filled to, against the exact accrual.\<close>

definition refilled :: "limiter \<Rightarrow> bucket \<Rightarrow> int \<Rightarrow> rat" where
  "refilled l b t = min (fl (tokens b + fl (as_secs_f64 (nanos_since t (last_seen b)) * refill_per_sec l))) (capacity l)"

definition accrued :: "limiter \<Rightarrow> bucket \<Rightarrow> int \<Rightarrow> rat" where
  "accrued l b t = tokens b + secs_f (nanos_since t (last_seen b)) * refill_per_sec l"

lemma nanos_nonneg [simp]: "0 \<le> nanos_since t s"
  by (simp add: nanos_since_def)

lemma refilled_nonneg:
  assumes "0 \<le> tokens b" and "0 < refill_per_sec l" and "0 \<le> capacity l"
  shows "0 \<le> refilled l b t"
  using assms as_secs_nonneg [of "nanos_since t (last_seen b)"] by (simp add: refilled_def fl_nonneg)

lemma refilled_le:
  assumes "0 \<le> tokens b" and "0 < refill_per_sec l" and "1 \<le> capacity l"
  shows "refilled l b t \<le> min (accrued l b t) (capacity l) + capacity l / 2 ^ 50"
proof (cases "accrued l b t \<le> capacity l")
  case True
  define s where "s = secs_f (nanos_since t (last_seen b))"
  define p where "p = as_secs_f64 (nanos_since t (last_seen b)) * refill_per_sec l"
  define e where "e = s * refill_per_sec l"
  have e: "0 \<le> e" using assms(2) secs_f_nonneg [of "nanos_since t (last_seen b)"] by (simp add: e_def s_def)
  have p0: "0 \<le> p" using assms(2) as_secs_nonneg [of "nanos_since t (last_seen b)"] by (simp add: p_def)
  have "p \<le> (s + s / 2 ^ 51) * refill_per_sec l"
    unfolding p_def s_def using assms(2) as_secs_near(1) by (intro mult_right_mono) simp_all
  then have p: "p \<le> e + e / 2 ^ 51" by (simp add: e_def algebra_simps)
  have fp: "0 \<le> fl p" "fl p \<le> p + (p / 2 ^ 53 + tiny)" using fl_nonneg [OF p0] fl_error(1) [OF p0] by linarith+
  have "0 \<le> tokens b + fl p" using fp(1) assms(1) by simp
  then have T: "fl (tokens b + fl p) \<le> tokens b + fl p + ((tokens b + fl p) / 2 ^ 53 + tiny)"
    using fl_error(1) [of "tokens b + fl p"] by linarith
  have "tokens b + e \<le> capacity l" using True by (simp add: accrued_def e_def s_def)
  then have "fl (tokens b + fl p) \<le> tokens b + e + capacity l / 2 ^ 50"
    using T fp p tiny_le assms(1,3) e unfolding powers add_divide_distrib by linarith
  then show ?thesis using True assms(3) by (simp add: refilled_def accrued_def p_def e_def s_def min_le_iff_disj)
next
  case False
  then show ?thesis using assms(3) by (simp add: refilled_def min_le_iff_disj)
qed

lemma refilled_ge_1:
  assumes "0 \<le> tokens b" and "0 < refill_per_sec l" and "1 \<le> capacity l"
    and "1 \<le> tokens b \<or> 1 + 1 / 2 ^ 49 \<le> secs_f (nanos_since t (last_seen b)) * refill_per_sec l"
  shows "1 \<le> refilled l b t"
proof -
  define s where "s = secs_f (nanos_since t (last_seen b))"
  define p where "p = as_secs_f64 (nanos_since t (last_seen b)) * refill_per_sec l"
  define e where "e = s * refill_per_sec l"
  have p0: "0 \<le> p" using assms(2) as_secs_nonneg [of "nanos_since t (last_seen b)"] by (simp add: p_def)
  have "(s - s / 2 ^ 51) * refill_per_sec l \<le> p"
    unfolding p_def s_def using assms(2) as_secs_near(2) by (intro mult_right_mono) simp_all
  then have p: "e - e / 2 ^ 51 \<le> p" by (simp add: e_def algebra_simps)
  have fp: "0 \<le> fl p" "p - (p / 2 ^ 53 + tiny) \<le> fl p" using fl_nonneg [OF p0] fl_error(1) [OF p0] by linarith+
  have "1 \<le> tokens b + fl p"
    using assms(4)
  proof
    assume "1 + 1 / 2 ^ 49 \<le> secs_f (nanos_since t (last_seen b)) * refill_per_sec l"
    then have "1 + 1 / 2 ^ 49 \<le> e" by (simp add: e_def s_def)
    then show ?thesis using fp(2) p tiny_le assms(1) unfolding powers by linarith
  qed (use fp(1) in simp)
  from fl_ge_1 [OF this] show ?thesis using assms(3) by (simp add: refilled_def p_def)
qed

section \<open>Available tokens\<close>

text \<open>What a client has by exact accrual.\<close>

definition available :: "limiter \<Rightarrow> string \<Rightarrow> int \<Rightarrow> rat" where
  "available l k t = (case map_of (buckets l) k of
      None \<Rightarrow> capacity l
    | Some b \<Rightarrow> min (accrued l b t) (capacity l))"

text \<open>
  A working limiter: one bucket per client, none of them negative. At time \<open>t\<close>, moreover, no
  bucket is from the future, and one that is idle long enough to be swept has accrued all.
\<close>

definition limiter_sound :: "limiter \<Rightarrow> bool" where
  "limiter_sound l \<longleftrightarrow> enabled l \<and> 1 \<le> capacity l \<and> 0 < refill_per_sec l
     \<and> distinct (map fst (buckets l)) \<and> (\<forall>(k, b) \<in> set (buckets l). 0 \<le> tokens b)"

definition limiter_ok :: "int \<Rightarrow> limiter \<Rightarrow> bool" where
  "limiter_ok t l \<longleftrightarrow> limiter_sound l \<and> capacity l \<le> 300 * refill_per_sec l
     \<and> (\<forall>(k, b) \<in> set (buckets l). last_seen b \<le> t)"

lemma bucket_nonneg: "limiter_sound l \<Longrightarrow> map_of (buckets l) k = Some b \<Longrightarrow> 0 \<le> tokens b"
  by (drule map_of_SomeD) (auto simp: limiter_sound_def)

lemma bucket_past: "limiter_ok t l \<Longrightarrow> map_of (buckets l) k = Some b \<Longrightarrow> last_seen b \<le> t"
  by (drule map_of_SomeD) (auto simp: limiter_ok_def)

lemma map_of_sweep:
  assumes "distinct (map fst bs)"
  shows "map_of (sweep t bs) k = (case map_of bs k of
      None \<Rightarrow> None
    | Some b \<Rightarrow> if length bs > 8192 \<and> 300 \<le> nanos_since t (last_seen b) div 1000000000 then None else Some b)"
proof -
  let ?P = "\<lambda>(k, b). nanos_since t (last_seen b) div 1000000000 < 300"
  have "map_of (filter ?P cs) k = (case map_of cs k of
      None \<Rightarrow> None
    | Some b \<Rightarrow> if 300 \<le> nanos_since t (last_seen b) div 1000000000 then None else Some b)"
    if "distinct (map fst cs)" for cs
    using that
  proof (induction cs)
    case (Cons c cs)
    obtain j b where c: "c = (j, b)" by fastforce
    show ?case
    proof (cases "j = k")
      case True
      then have "map_of cs k = None" using Cons.prems c by (simp add: map_of_eq_None_iff)
      with Cons c True show ?thesis by simp
    next
      case False
      with Cons c show ?thesis by (simp split: option.split)
    qed
  qed simp
  from this [OF assms] show ?thesis by (simp add: sweep_def split: option.split)
qed

lemma swept_full:
  assumes "limiter_ok t l" and "map_of (buckets l) k = Some b" and "300 \<le> nanos_since t (last_seen b) div 1000000000"
  shows "available l k t = capacity l"
proof -
  have s: "limiter_sound l" "0 < refill_per_sec l" "capacity l \<le> 300 * refill_per_sec l"
    using assms(1) by (simp_all add: limiter_ok_def limiter_sound_def)
  have "300000000000 \<le> nanos_since t (last_seen b)" using assms(3) by linarith
  then have "300 \<le> secs_f (nanos_since t (last_seen b))"
    using secs_f_mono [of 300000000000 "nanos_since t (last_seen b)"] by (simp add: secs_f_def)
  then have "capacity l \<le> secs_f (nanos_since t (last_seen b)) * refill_per_sec l"
    using s(2,3) by (meson mult_right_mono less_imp_le order_trans)
  with bucket_nonneg [OF s(1) assms(2)] assms(2) show ?thesis by (simp add: available_def accrued_def)
qed

lemma available_nonneg:
  assumes "limiter_sound l"
  shows "0 \<le> available l k t"
proof -
  have l: "1 \<le> capacity l" "0 < refill_per_sec l" using assms by (simp_all add: limiter_sound_def)
  have "0 \<le> accrued l b t" if "map_of (buckets l) k = Some b" for b
    using bucket_nonneg [OF assms that] l(2) secs_f_nonneg [of "nanos_since t (last_seen b)"]
    by (simp add: accrued_def)
  with l(1) show ?thesis by (auto simp: available_def split: option.split)
qed

lemma set_alist_update: "x \<in> set (AList.update k v al) \<Longrightarrow> x = (k, v) \<or> x \<in> set al"
  by (induction al) (auto split: if_splits)

text \<open>One request: the bucket it finds, and what it makes of it.\<close>

definition found_bucket :: "string \<Rightarrow> int \<Rightarrow> limiter \<Rightarrow> bucket" where
  "found_bucket key t l = (case map_of (sweep t (buckets l)) key of
      Some b \<Rightarrow> b | None \<Rightarrow> \<lparr>tokens = capacity l, last_seen = t\<rparr>)"

lemma allow_enabled:
  assumes "enabled l"
  shows "allow key t l = (1 \<le> refilled l (found_bucket key t l) t,
      l\<lparr>buckets := AList.update key
        \<lparr>tokens = (if 1 \<le> refilled l (found_bucket key t l) t
             then fl (refilled l (found_bucket key t l) t - 1) else refilled l (found_bucket key t l) t),
          last_seen = t\<rparr> (sweep t (buckets l))\<rparr>)"
  using assms by (simp add: allow_def Let_def found_bucket_def refilled_def)

lemma found_nonneg:
  assumes "limiter_sound l"
  shows "0 \<le> tokens (found_bucket key t l)"
proof -
  have "distinct (map fst (buckets l))" "0 \<le> capacity l" using assms by (simp_all add: limiter_sound_def)
  with bucket_nonneg [OF assms] show ?thesis
    by (auto simp: found_bucket_def map_of_sweep split: option.split)
qed

lemma allow_config: "allow key t l = (ok, l') \<Longrightarrow> capacity l' = capacity l \<and> refill_per_sec l' = refill_per_sec l"
  by (auto simp: allow_def Let_def split: if_splits)

lemma allow_sound:
  assumes "limiter_sound l" and "allow key t l = (ok, l')"
  shows "limiter_sound l'"
proof -
  have en: "enabled l" "0 < refill_per_sec l" "0 \<le> capacity l" using assms(1) by (simp_all add: limiter_sound_def)
  have "0 \<le> refilled l (found_bucket key t l) t"
    by (rule refilled_nonneg [OF found_nonneg [OF assms(1)] en(2,3)])
  moreover have "l' = snd (allow key t l)" using assms(2) by simp
  ultimately show ?thesis
    using assms(1) fl_nonneg
    by (auto simp: allow_enabled [OF en(1)] limiter_sound_def distinct_update sweep_def distinct_map_filter
        split: if_splits dest!: set_alist_update)
qed

lemma allow_ok:
  assumes "limiter_ok t l" and "allow key t l = (ok, l')"
  shows "limiter_ok t l'"
proof -
  have s: "limiter_sound l" "enabled l" using assms(1) by (simp_all add: limiter_ok_def limiter_sound_def)
  have "l' = snd (allow key t l)" using assms(2) by simp
  then have "\<forall>(k, b) \<in> set (buckets l'). last_seen b \<le> t"
    using assms(1) by (auto simp: allow_enabled [OF s(2)] limiter_ok_def sweep_def split: if_splits dest!: set_alist_update)
  with allow_sound [OF s(1) assms(2)] allow_config [OF assms(2)] assms(1) show ?thesis
    by (simp add: limiter_ok_def)
qed

text \<open>
  A request takes one token of its own client when it is allowed, up to the rounding, and nothing
  of another client.
\<close>

lemma found_accrued:
  assumes "limiter_ok t l"
  shows "min (accrued l (found_bucket key t l) t) (capacity l) = available l key t"
proof -
  have "distinct (map fst (buckets l))" using assms by (simp add: limiter_ok_def limiter_sound_def)
  with swept_full [OF assms] show ?thesis
    by (auto simp: found_bucket_def map_of_sweep available_def accrued_def nanos_since_def secs_f_def
        split: option.splits if_splits)
qed

lemma allow_available:
  assumes "limiter_ok t l" and "allow key t l = (ok, l')"
  shows "available l' k t \<le> available l k t + (if key = k then capacity l / 2 ^ 49 - (if ok then 1 else 0) else 0)"
proof -
  have s: "limiter_sound l" using assms(1) by (simp add: limiter_ok_def)
  have en: "enabled l" "distinct (map fst (buckets l))" "1 \<le> capacity l" "0 < refill_per_sec l"
    using s by (simp_all add: limiter_sound_def)
  define r where "r = refilled l (found_bucket key t l) t"
  have r: "r \<le> available l key t + capacity l / 2 ^ 50" "r \<le> capacity l"
    using refilled_le [OF found_nonneg [OF s] en(4,3), of key t t] found_accrued [OF assms(1), of key]
    by (simp_all add: r_def refilled_def)
  have l': "ok = (1 \<le> r)" "l' = l\<lparr>buckets := AList.update key
      \<lparr>tokens = (if 1 \<le> r then fl (r - 1) else r), last_seen = t\<rparr> (sweep t (buckets l))\<rparr>"
    using assms(2) unfolding allow_enabled [OF en(1)] r_def [symmetric] by auto
  show ?thesis
  proof (cases "key = k")
    case True
    have "available l' k t \<le> (if 1 \<le> r then fl (r - 1) else r)"
      using l'(2) True by (simp add: available_def accrued_def update_conv' nanos_since_def secs_f_def)
    moreover have "fl (r - 1) \<le> r - 1 + ((r - 1) / 2 ^ 53 + tiny)" if "1 \<le> r"
      using fl_error(1) [of "r - 1"] that by (simp add: abs_le_iff)
    ultimately show ?thesis
      using True r l'(1) tiny_le en(3) unfolding powers diff_divide_distrib by (cases "1 \<le> r"; simp only: if_True if_False; linarith)
  next
    case False
    have "available l' k t = (case map_of (sweep t (buckets l)) k of None \<Rightarrow> capacity l
        | Some b \<Rightarrow> min (accrued l b t) (capacity l))"
      using l'(2) False by (simp add: available_def accrued_def update_conv' split: option.split)
    then show ?thesis
      using False swept_full [OF assms(1), of k] by (auto simp: map_of_sweep [OF en(2)] available_def split: option.splits)
  qed
qed

section \<open>Sequences of requests\<close>

text \<open>The requests of client \<open>k\<close> that are made, that are allowed, and whether all of them are.\<close>

definition made :: "string \<Rightarrow> (string \<times> int) list \<Rightarrow> nat" where
  "made k xs = length (filter (\<lambda>(key, t). key = k) xs)"

fun allowed :: "string \<Rightarrow> (string \<times> int) list \<Rightarrow> limiter \<Rightarrow> nat" where
  "allowed k [] l = 0"
| "allowed k ((key, t) # xs) l = (case allow key t l of
      (ok, l') \<Rightarrow> (if ok \<and> key = k then 1 else 0) + allowed k xs l')"

fun never_refused :: "string \<Rightarrow> (string \<times> int) list \<Rightarrow> limiter \<Rightarrow> bool" where
  "never_refused k [] l = True"
| "never_refused k ((key, t) # xs) l = (case allow key t l of
      (ok, l') \<Rightarrow> (key = k \<longrightarrow> ok) \<and> never_refused k xs l')"

lemma made_simps [simp]: "made k [] = 0" "made k ((key, t) # xs) = (if key = k then 1 else 0) + made k xs"
  by (simp_all add: made_def)

lemma limiter_ok_later: "limiter_ok t l \<Longrightarrow> t \<le> t' \<Longrightarrow> limiter_ok t' l"
  by (force simp: limiter_ok_def)

lemma available_later:
  assumes "limiter_ok t l" and "t \<le> t'"
  shows "available l k t' \<le> available l k t + secs_f (t' - t) * refill_per_sec l"
proof -
  have l: "0 < refill_per_sec l" using assms(1) by (simp add: limiter_ok_def limiter_sound_def)
  then have r: "0 \<le> secs_f (t' - t) * refill_per_sec l" using secs_f_nonneg [of "t' - t"] assms(2) by simp
  have "secs_f (nanos_since t' (last_seen b)) = secs_f (nanos_since t (last_seen b)) + secs_f (t' - t)"
    if "map_of (buckets l) k = Some b" for b
    using bucket_past [OF assms(1) that] assms(2) by (simp add: nanos_since_def flip: secs_f_add)
  then show ?thesis
    using r by (auto simp: available_def accrued_def algebra_simps min_def split: option.split)
qed

lemma allowed_bound:
  assumes "limiter_ok t l" and "sorted (t # map snd xs @ [u])"
  shows "of_nat (allowed k xs l)
    \<le> available l k t + secs_f (u - t) * refill_per_sec l + of_nat (made k xs) * (capacity l / 2 ^ 49)"
  using assms
proof (induction xs arbitrary: l t)
  case Nil
  then show ?case
    using available_nonneg [of l k t] secs_f_nonneg [of "u - t"] by (simp add: limiter_ok_def limiter_sound_def)
next
  case (Cons x xs)
  obtain key s where x: "x = (key, s)" by fastforce
  obtain ok l' where a: "allow key s l = (ok, l')" by fastforce
  have s: "t \<le> s" "s \<le> u" "sorted (s # map snd xs @ [u])" using Cons.prems(2) x by auto
  note ls = limiter_ok_later [OF Cons.prems(1) s(1)]
  note cfg = allow_config [OF a]
  have "of_nat (allowed k xs l')
      \<le> available l' k s + secs_f (u - s) * refill_per_sec l + of_nat (made k xs) * (capacity l / 2 ^ 49)"
    using Cons.IH [OF allow_ok [OF ls a] s(3)] cfg by simp
  moreover have "secs_f (u - t) * refill_per_sec l
      = secs_f (u - s) * refill_per_sec l + secs_f (s - t) * refill_per_sec l"
    by (simp flip: secs_f_add distrib_right)
  ultimately show ?case
    using x a allow_available [OF ls a, of k] available_later [OF Cons.prems(1) s(1), of k]
    by (cases ok; cases "key = k") (simp_all add: distrib_right del: times_divide_eq_right)
qed

text \<open>The requests of \<open>k\<close> are at least \<open>gap\<close> nanoseconds apart, the first not before \<open>t\<close>.\<close>

fun paced :: "string \<Rightarrow> int \<Rightarrow> int \<Rightarrow> (string \<times> int) list \<Rightarrow> bool" where
  "paced k gap t [] = True"
| "paced k gap t ((key, s) # xs) = (if key = k then t \<le> s \<and> paced k gap (s + gap) xs else paced k gap t xs)"

definition rested :: "string \<Rightarrow> int \<Rightarrow> int \<Rightarrow> limiter \<Rightarrow> bool" where
  "rested k gap due l \<longleftrightarrow> (case map_of (buckets l) k of None \<Rightarrow> True | Some b \<Rightarrow> last_seen b + gap \<le> due)"

lemma rested_step:
  assumes "limiter_sound l" and "allow key s l = (ok, l')"
  shows "key = k \<Longrightarrow> rested k gap (s + gap) l'" and "key \<noteq> k \<Longrightarrow> rested k gap due l \<Longrightarrow> rested k gap due l'"
proof -
  have en: "enabled l" "distinct (map fst (buckets l))" using assms(1) by (simp_all add: limiter_sound_def)
  have l': "l' = snd (allow key s l)" using assms(2) by simp
  show "key = k \<Longrightarrow> rested k gap (s + gap) l'"
    unfolding l' by (simp add: allow_enabled [OF en(1)] rested_def update_conv')
  show "key \<noteq> k \<Longrightarrow> rested k gap due l \<Longrightarrow> rested k gap due l'"
    unfolding l' by (simp add: allow_enabled [OF en(1)] rested_def update_conv' map_of_sweep [OF en(2)] split: option.splits)
qed

lemma rested_allowed:
  assumes "limiter_sound l" and "rested k gap due l" and "due \<le> s"
    and "1 + 1 / 2 ^ 49 \<le> secs_f gap * refill_per_sec l"
  shows "fst (allow k s l)"
proof -
  have en: "enabled l" "distinct (map fst (buckets l))" "1 \<le> capacity l" "0 < refill_per_sec l"
    using assms(1) by (simp_all add: limiter_sound_def)
  let ?b = "found_bucket k s l"
  have "tokens ?b = capacity l \<or> gap \<le> nanos_since s (last_seen ?b)"
    using assms(2,3) by (auto simp: found_bucket_def map_of_sweep [OF en(2)] rested_def nanos_since_def split: option.splits)
  then have "1 \<le> tokens ?b \<or> 1 + 1 / 2 ^ 49 \<le> secs_f (nanos_since s (last_seen ?b)) * refill_per_sec l"
    using en(3,4) assms(4) secs_f_mono [of gap "nanos_since s (last_seen ?b)"]
    by (auto intro: order_trans mult_right_mono)
  from refilled_ge_1 [OF found_nonneg [OF assms(1)] en(4,3) this] show ?thesis
    by (simp add: allow_enabled [OF en(1)])
qed

lemma paced_ok:
  assumes "limiter_sound l" and "paced k gap due xs" and "rested k gap due l"
    and "1 + 1 / 2 ^ 49 \<le> secs_f gap * refill_per_sec l"
  shows "never_refused k xs l"
  using assms
proof (induction xs arbitrary: l due)
  case (Cons x xs)
  obtain key s where x: "x = (key, s)" by fastforce
  obtain ok l' where a: "allow key s l = (ok, l')" by fastforce
  note st = allow_sound [OF Cons.prems(1) a] rested_step [OF Cons.prems(1) a]
  have gap: "1 + 1 / 2 ^ 49 \<le> secs_f gap * refill_per_sec l'" using Cons.prems(4) allow_config [OF a] by simp
  show ?case
  proof (cases "key = k")
    case True
    have due: "due \<le> s" "paced k gap (s + gap) xs" using Cons.prems(2) x True by auto
    from rested_allowed [OF Cons.prems(1,3) due(1) Cons.prems(4)] have ok using a True by simp
    with Cons.IH [OF st(1) due(2) st(2) [OF True] gap] show ?thesis using x a by simp
  next
    case False
    have "paced k gap due xs" using Cons.prems(2) x False by simp
    from Cons.IH [OF st(1) this st(3) [OF False Cons.prems(3)] gap] show ?thesis using x a False by simp
  qed
qed simp

lemma new_limiter_sound: "1 \<le> cap \<Longrightarrow> 0 < refill \<Longrightarrow> limiter_sound (new_limiter cap refill)"
  by (simp add: limiter_sound_def new_limiter_def)

lemma new_limiter_ok:
  assumes "1 \<le> cap" and "0 < refill" and "cap \<le> 300 * refill"
  shows "limiter_ok t (new_limiter cap refill)"
  using assms new_limiter_sound by (simp add: limiter_ok_def new_limiter_def)

fun run_all :: "(string \<times> int) list \<Rightarrow> limiter \<Rightarrow> limiter" where
  "run_all [] l = l"
| "run_all ((key, t) # xs) l = run_all xs (snd (allow key t l))"

lemma run_all_ok:
  assumes "limiter_ok t l" and "sorted (t # map snd xs @ [u])"
  shows "limiter_ok u (run_all xs l) \<and> capacity (run_all xs l) = capacity l
    \<and> refill_per_sec (run_all xs l) = refill_per_sec l"
  using assms
proof (induction xs arbitrary: l t)
  case (Cons x xs)
  obtain key s where x: "x = (key, s)" by fastforce
  obtain ok l' where a: "allow key s l = (ok, l')" by fastforce
  have s: "t \<le> s" "sorted (s # map snd xs @ [u])" using Cons.prems(2) x by auto
  note ls = limiter_ok_later [OF Cons.prems(1) s(1)]
  show ?case
    using Cons.IH [OF allow_ok [OF ls a] s(2)] allow_config [OF a] x a by simp
qed (simp add: limiter_ok_later)

text \<open>
  Rounding does admit a request that exact accrual would refuse: a third of a token a second, as
  the nearest \<open>f64\<close>, makes a whole token in three.
\<close>

lemma fl_third: "fl (1 / 3) = 6004799503160661 / 18014398509481984"
  by code_simp

lemma fl_thirds: "fl (18014398509481983 / 18014398509481984) = 1" "as_secs_f64 3000000000 = 3" "fl 1 = 1" "as_secs_f64 0 = 0"
  by code_simp+

lemma rounding_admits:
  "fst (allow ''a'' 3000000000 (snd (allow ''a'' 0 (new_limiter 1 (fl (1 / 3))))))" "3 * fl (1 / 3) < 1"
  by (simp_all add: fl_third fl_thirds allow_def new_limiter_def sweep_def nanos_since_def Let_def)

section \<open>Properties\<close>



end
