(* ===== verification/Tunnel_Crypto.thy ===== *)
theory Tunnel_Crypto
  imports "HOL-Library.Sublist" Blackbook_Core
begin

text \<open>
  The end-to-end encrypted channel between two clients (\<open>src/tunnel_crypto.rs\<close>): the signed
  handshake over ephemeral keys, the directional session keys, and the sealing and opening of
  frames with counter nonces. The relay that carries the messages is the adversary here; the
  lemmas show what it cannot do. Transcript and signed payload are interpretations of \<open>framing\<close>.
\<close>

section \<open>Third-party code\<close>

text \<open>
  \<^item> \<open>x_public\<close>, \<open>x_shared secret public\<close>: X25519 of crate x25519-dalek.
  \<^item> \<open>hkdf_sha256 salt ikm info len\<close>: extract and expand of crate hkdf.
  \<^item> \<open>p256_sign key_pem msg\<close>: \<open>PKey::private_key_from_pem\<close> and \<open>Signer\<close> of crate openssl;
    \<open>p256_public cert_pem\<close>: \<open>X509::from_pem\<close>, \<open>public_key\<close> and \<open>Verifier::new\<close>;
    \<open>p256_verify public msg sig\<close>: \<open>Verifier::verify\<close>. No value where the crate returns an error.
\<close>

record tun_ext =
  x_public :: "bytes \<Rightarrow> bytes"
  x_shared :: "bytes \<Rightarrow> bytes \<Rightarrow> bytes"
  hkdf_sha256 :: "bytes \<Rightarrow> bytes \<Rightarrow> bytes \<Rightarrow> nat \<Rightarrow> bytes option"
  p256_sign :: "string \<Rightarrow> bytes \<Rightarrow> bytes option"
  p256_public :: "string \<Rightarrow> bytes option"
  p256_verify :: "bytes \<Rightarrow> bytes \<Rightarrow> bytes \<Rightarrow> bool option"

text \<open>Diffie-Hellman commutes, and public keys have 32 bytes.\<close>

definition dh_law :: "tun_ext \<Rightarrow> bool" where
  "dh_law T \<longleftrightarrow> (\<forall>a b. x_shared T a (x_public T b) = x_shared T b (x_public T a)) \<and> (\<forall>a. length (x_public T a) = 32)"

text \<open>RFC 5869: outputs of up to 8160 bytes can be expanded.\<close>

definition hkdf_law :: "tun_ext \<Rightarrow> bool" where
  "hkdf_law T \<longleftrightarrow> (\<forall>s k i n. n \<le> 8160 \<longrightarrow> (\<exists>out. hkdf_sha256 T s k i n = Some out \<and> length out = n))"

lemma hkdf_32: "hkdf_law T \<Longrightarrow> \<exists>out. hkdf_sha256 T s k i 32 = Some out"
  unfolding hkdf_law_def by (drule spec [of _ s], drule spec [of _ k], drule spec [of _ i], drule spec [of _ 32]) auto

text \<open>The key signs every message so that it verifies under the certificate.\<close>

definition cert_key :: "tun_ext \<Rightarrow> string \<Rightarrow> string \<Rightarrow> bool" where
  "cert_key T cert key \<longleftrightarrow> (\<exists>pk. p256_public T cert = Some pk
     \<and> (\<forall>m. \<exists>s. p256_sign T key m = Some s \<and> p256_verify T pk m s = Some True))"

section \<open>Handshake\<close>

record handshake =
  hs_from :: string
  hs_eph_pub :: string
  hs_cert_pem :: string
  hs_signature :: string

datatype tun_role = Initiator | Responder

record session =
  send_key :: bytes
  recv_key :: bytes
  send_ctr :: "64 word"
  recv_ctr :: "64 word"
  peer_name :: string
  peer_fingerprint :: string

definition TUNNEL_PROTO :: bytes where
  "TUNNEL_PROTO = as_bytes ''blackbook/tunnel/v1''"

definition base_frame :: "string \<times> bytes \<times> bytes \<Rightarrow> bytes" where
  "base_frame m = (case m of (tunnel_id, init_eph, resp_eph) \<Rightarrow>
     lp TUNNEL_PROTO @ lp (as_bytes tunnel_id) @ lp init_eph @ lp resp_eph)"

definition session_base :: "ext \<Rightarrow> string \<Rightarrow> bytes \<Rightarrow> bytes \<Rightarrow> bytes" where
  "session_base E tunnel_id init_eph resp_eph = sha3_256 E (base_frame (tunnel_id, init_eph, resp_eph))"

definition signing_payload :: "bytes \<Rightarrow> string \<Rightarrow> string \<Rightarrow> bytes" where
  "signing_payload sbase signer_name signer_fp = lp sbase @ lp (as_bytes signer_name) @ lp (as_bytes signer_fp)"

text \<open>The loop of \<open>pem_to_der\<close> over the lines; the flag is \<open>in_block\<close>.\<close>

fun pem_body :: "bool \<Rightarrow> string list \<Rightarrow> string" where
  "pem_body in_block [] = []"
| "pem_body in_block (l # ls) =
     (let line = trim l
      in if starts_with ''-----BEGIN'' line then pem_body True ls
         else if starts_with ''-----END'' line then []
         else (if in_block then line else []) @ pem_body in_block ls)"

definition pem_to_der :: "ext \<Rightarrow> string \<Rightarrow> bytes crypto_result" where
  "pem_to_der E pem =
     (let b64 = pem_body False (split_on (CHR 0x0A) pem)
      in if b64 = [] then Inl InvalidKeyFormat else ok_or InvalidKeyFormat (b64_decode E b64))"

definition cert_fingerprint :: "ext \<Rightarrow> string \<Rightarrow> string crypto_result" where
  "cert_fingerprint E cert_pem = and_then (pem_to_der E cert_pem) (\<lambda>der. Inr (hex_encode E (sha3_256 E der)))"

definition ecdsa_sign :: "tun_ext \<Rightarrow> string \<Rightarrow> bytes \<Rightarrow> bytes crypto_result" where
  "ecdsa_sign T key_pem msg = ok_or Encryption (p256_sign T key_pem msg)"

definition ecdsa_verify :: "tun_ext \<Rightarrow> string \<Rightarrow> bytes \<Rightarrow> bytes \<Rightarrow> bool crypto_result" where
  "ecdsa_verify T cert_pem msg sig =
     and_then (ok_or Decryption (p256_public T cert_pem)) (\<lambda>pkey.
       Inr (case p256_verify T pkey msg sig of Some b \<Rightarrow> b | None \<Rightarrow> False))"

record pending =
  pd_role :: tun_role
  pd_tunnel :: string
  my_name :: string
  my_cert_pem :: string
  my_key_pem :: string
  eph_secret :: bytes
  eph_pub :: bytes

definition tunnel_begin ::
    "tun_ext \<Rightarrow> bytes \<Rightarrow> tun_role \<Rightarrow> string \<Rightarrow> string \<Rightarrow> string \<Rightarrow> string \<Rightarrow> pending" where
  "tunnel_begin T rnd role tunnel_id name cert_pem key_pem =
     \<lparr>pd_role = role, pd_tunnel = tunnel_id, my_name = name, my_cert_pem = cert_pem, my_key_pem = key_pem,
      eph_secret = rnd, eph_pub = x_public T rnd\<rparr>"

text \<open>Both ephemeral keys in role order.\<close>

fun eph_order :: "tun_role \<Rightarrow> bytes \<Rightarrow> bytes \<Rightarrow> bytes \<times> bytes" where
  "eph_order Initiator mine peer = (mine, peer)"
| "eph_order Responder mine peer = (peer, mine)"

definition tunnel_sign :: "ext \<Rightarrow> tun_ext \<Rightarrow> pending \<Rightarrow> bytes \<Rightarrow> handshake crypto_result" where
  "tunnel_sign E T p peer_eph_pub =
     and_then (cert_fingerprint E (my_cert_pem p)) (\<lambda>my_fp.
       case eph_order (pd_role p) (eph_pub p) peer_eph_pub of (init_eph, resp_eph) \<Rightarrow>
         let sbase = session_base E (pd_tunnel p) init_eph resp_eph;
             payload = signing_payload sbase (my_name p) my_fp
         in and_then (ecdsa_sign T (my_key_pem p) payload) (\<lambda>sig.
              Inr \<lparr>hs_from = my_name p, hs_eph_pub = b64_encode E (eph_pub p),
                   hs_cert_pem = my_cert_pem p, hs_signature = b64_encode E sig\<rparr>))"

definition derive_keys :: "tun_ext \<Rightarrow> bytes \<Rightarrow> bytes \<Rightarrow> (bytes \<times> bytes) crypto_result" where
  "derive_keys T shared transcript =
     and_then (ok_or KeyDerivation (hkdf_sha256 T transcript shared (as_bytes ''blackbook/tunnel/v1 i2r'') 32)) (\<lambda>k_i2r.
     and_then (ok_or KeyDerivation (hkdf_sha256 T transcript shared (as_bytes ''blackbook/tunnel/v1 r2i'') 32)) (\<lambda>k_r2i.
       Inr (k_i2r, k_r2i)))"

definition tunnel_complete ::
    "ext \<Rightarrow> tun_ext \<Rightarrow> pending \<Rightarrow> handshake \<Rightarrow> string \<Rightarrow> string \<Rightarrow> session crypto_result" where
  "tunnel_complete E T p peer expected_peer_name expected_peer_fp =
     and_then (cert_fingerprint E (hs_cert_pem peer)) (\<lambda>peer_fp.
       if peer_fp \<noteq> expected_peer_fp then Inl Decryption
       else if hs_from peer \<noteq> expected_peer_name then Inl Decryption
       else
         and_then (ok_or Decryption (b64_decode E (hs_eph_pub peer))) (\<lambda>peer_eph.
           if length peer_eph \<noteq> 32 then Inl Decryption
           else
             case eph_order (pd_role p) (eph_pub p) peer_eph of (init_eph, resp_eph) \<Rightarrow>
               let sbase = session_base E (pd_tunnel p) init_eph resp_eph;
                   peer_payload = signing_payload sbase (hs_from peer) peer_fp
               in and_then (ok_or Decryption (b64_decode E (hs_signature peer))) (\<lambda>sig.
                  and_then (ecdsa_verify T (hs_cert_pem peer) peer_payload sig) (\<lambda>ok.
                    if \<not> ok then Inl Decryption
                    else
                      and_then (derive_keys T (x_shared T (eph_secret p) peer_eph) sbase) (\<lambda>(k_i2r, k_r2i).
                        let (sk, rk) = (case pd_role p of Initiator \<Rightarrow> (k_i2r, k_r2i) | Responder \<Rightarrow> (k_r2i, k_i2r))
                        in Inr \<lparr>send_key = sk, recv_key = rk, send_ctr = 0, recv_ctr = 0,
                                peer_name = expected_peer_name, peer_fingerprint = expected_peer_fp\<rparr>)))))"

section \<open>Frames\<close>

text \<open>Four zero bytes and the counter, big-endian.\<close>

definition ctr_nonce :: "64 word \<Rightarrow> bytes" where
  "ctr_nonce ctr = zeros 4 @ be_bytes 8 (unat ctr)"

definition session_seal :: "ext \<Rightarrow> session \<Rightarrow> bytes \<Rightarrow> bytes crypto_result \<times> session" where
  "session_seal E s plaintext =
     (let nonce = ctr_nonce (send_ctr s)
      in if send_ctr s = - 1 then (Inl Encryption, s)
         else (aead_seal_nonce E plaintext (send_key s) nonce, s\<lparr>send_ctr := send_ctr s + 1\<rparr>))"

definition session_open :: "ext \<Rightarrow> session \<Rightarrow> bytes \<Rightarrow> bytes crypto_result \<times> session" where
  "session_open E s frame =
     (let nonce = ctr_nonce (recv_ctr s)
      in case aead_open_nonce E frame (recv_key s) nonce of
           Inl e \<Rightarrow> (Inl e, s)
         | Inr pt \<Rightarrow>
             if recv_ctr s = - 1 then (Inl Decryption, s)
             else (Inr pt, s\<lparr>recv_ctr := recv_ctr s + 1\<rparr>))"

text \<open>A run of either side: the results of sealing, and the plaintexts accepted.\<close>

fun send_all :: "ext \<Rightarrow> session \<Rightarrow> bytes list \<Rightarrow> bytes crypto_result list" where
  "send_all E s [] = []"
| "send_all E s (m # ms) = (case session_seal E s m of (r, s') \<Rightarrow> r # send_all E s' ms)"

fun recv_all :: "ext \<Rightarrow> session \<Rightarrow> bytes list \<Rightarrow> bytes list" where
  "recv_all E s [] = []"
| "recv_all E s (f # fs) = (case session_open E s f of
      (Inl e, s') \<Rightarrow> recv_all E s' fs
    | (Inr m, s') \<Rightarrow> m # recv_all E s' fs)"

section \<open>What signatures and keys are bound to\<close>

definition wf_base :: "string \<times> bytes \<times> bytes \<Rightarrow> bool" where
  "wf_base m = (case m of (t, a, b) \<Rightarrow> length t < 2 ^ 32 \<and> length a < 2 ^ 32 \<and> length b < 2 ^ 32)"

interpretation tun_base: framing wf_base base_frame
proof
  fix m m' :: "string \<times> bytes \<times> bytes"
  assume "wf_base m" "wf_base m'" "base_frame m = base_frame m'"
  then show "m = m'"
    by (cases m, cases m')
      (auto simp: wf_base_def base_frame_def dest!: lp_append_inject [rotated 2]
        lp_append_inject [where x = "[]" and y = "[]", simplified, rotated 2])
qed

text \<open>The fields of a signed payload: the digest of the session, the name and the fingerprint.\<close>

definition payload_frame :: "bytes \<times> string \<times> string \<Rightarrow> bytes" where
  "payload_frame m = (case m of (b, n, f) \<Rightarrow> signing_payload b n f)"

definition wf_payload :: "bytes \<times> string \<times> string \<Rightarrow> bool" where
  "wf_payload m = (case m of (b, n, f) \<Rightarrow> length b < 2 ^ 32 \<and> length n < 2 ^ 32 \<and> length f < 2 ^ 32)"

interpretation tun_payload: framing wf_payload payload_frame
proof
  fix m m' :: "bytes \<times> string \<times> string"
  assume "wf_payload m" "wf_payload m'" "payload_frame m = payload_frame m'"
  then show "m = m'"
    by (cases m, cases m')
      (auto simp: wf_payload_def payload_frame_def signing_payload_def dest!: lp_append_inject [rotated 2]
        lp_append_inject [where x = "[]" and y = "[]", simplified, rotated 2])
qed

text \<open>What a party signs in a run of the handshake with the ephemeral key \<open>peer_eph\<close>.\<close>

definition run_transcript :: "pending \<Rightarrow> bytes \<Rightarrow> string \<times> bytes \<times> bytes" where
  "run_transcript p peer_eph = (pd_tunnel p, eph_order (pd_role p) (eph_pub p) peer_eph)"

definition run_payload :: "ext \<Rightarrow> pending \<Rightarrow> bytes \<Rightarrow> string \<Rightarrow> bytes" where
  "run_payload E p peer_eph fp = payload_frame (sha3_256 E (base_frame (run_transcript p peer_eph)), my_name p, fp)"

lemma sign_signs:
  assumes "tunnel_sign E T p peer_eph = Inr h"
  obtains fp sig where "cert_fingerprint E (my_cert_pem p) = Inr fp"
    "p256_sign T (my_key_pem p) (run_payload E p peer_eph fp) = Some sig" "hs_signature h = b64_encode E sig"
    "hs_from h = my_name p" "hs_eph_pub h = b64_encode E (eph_pub p)" "hs_cert_pem h = my_cert_pem p"
  using assms
  by (auto simp: tunnel_sign_def ecdsa_sign_def run_payload_def run_transcript_def payload_frame_def session_base_def
      Let_def elim!: and_then_InrE split: prod.splits)

lemma complete_checks:
  assumes "tunnel_complete E T p h name fp = Inr s"
  obtains eph sig pk ks where "cert_fingerprint E (hs_cert_pem h) = Inr fp" "hs_from h = name"
    "b64_decode E (hs_eph_pub h) = Some eph" "length eph = 32" "b64_decode E (hs_signature h) = Some sig"
    "p256_public T (hs_cert_pem h) = Some pk"
    "p256_verify T pk (payload_frame (sha3_256 E (base_frame (run_transcript p eph)), name, fp)) sig = Some True"
    "derive_keys T (x_shared T (eph_secret p) eph) (sha3_256 E (base_frame (run_transcript p eph))) = Inr ks"
    "send_key s = (case pd_role p of Initiator \<Rightarrow> fst ks | Responder \<Rightarrow> snd ks)"
    "recv_key s = (case pd_role p of Initiator \<Rightarrow> snd ks | Responder \<Rightarrow> fst ks)"
    "send_ctr s = 0" "recv_ctr s = 0" "peer_name s = name" "peer_fingerprint s = fp"
  using assms
  by (cases "pd_role p")
    (auto simp: tunnel_complete_def ecdsa_verify_def run_transcript_def payload_frame_def session_base_def
      Let_def elim!: and_then_InrE split: if_splits option.splits prod.splits)

text \<open>
  Signatures cannot be forged: whatever verifies under a certificate with the fingerprint \<open>fp\<close> was
  signed by its owner, in one of the owner's \<open>runs\<close> of the handshake (own state, peer's key).
\<close>

definition unforged_runs :: "ext \<Rightarrow> tun_ext \<Rightarrow> string \<Rightarrow> (pending \<times> bytes) list \<Rightarrow> bool" where
  "unforged_runs E T fp runs \<longleftrightarrow> (\<forall>cert pk m sig.
     cert_fingerprint E cert = Inr fp \<longrightarrow> p256_public T cert = Some pk \<longrightarrow> p256_verify T pk m sig = Some True \<longrightarrow>
     (\<exists>(q, eph) \<in> set runs. m = run_payload E q eph fp))"

definition short_run :: "pending \<Rightarrow> bytes \<Rightarrow> bool" where
  "short_run p eph \<longleftrightarrow> wf_base (run_transcript p eph) \<and> length (my_name p) < 2 ^ 32"

section \<open>Counters\<close>

lemma length_ctr_nonce [simp]: "length (ctr_nonce c) = 12"
  by (simp add: ctr_nonce_def zeros_def)

lemma ctr_nonce_inject [simp]: "ctr_nonce c = ctr_nonce d \<longleftrightarrow> c = d"
proof
  assume "ctr_nonce c = ctr_nonce d"
  then have "be_bytes 8 (unat c) = be_bytes 8 (unat d)" by (simp add: ctr_nonce_def)
  moreover have "unat c < 256 ^ 8" "unat d < 256 ^ 8"
    using unsigned_less [of c] unsigned_less [of d] by simp_all
  ultimately show "c = d" using be_bytes_inject unsigned_word_eqI by blast
qed simp

lemma open_sealed:
  assumes "gcm_law E" and "aead_seal_nonce E m k n = Inr f" and "length n = 12"
  shows "aead_open_nonce E f k n = Inr m"
  using assms by (auto simp: aead_seal_nonce_def aead_open_nonce_def elim!: and_then_InrE dest!: gcm_encryptD
      split: if_splits)

lemma aead_open_InrD:
  assumes "aead_open_nonce E f k n = Inr m"
  shows "take 12 f = n \<and> gcm_decrypt E k n [] (drop 12 f) = Some m"
  using assms by (auto simp: aead_open_nonce_def split: if_splits)

lemma counter_suc:
  assumes "Suc j < 2 ^ 64"
  shows "word_of_nat j + 1 = (word_of_nat (Suc j) :: 64 word)" "word_of_nat j \<noteq> (- 1 :: 64 word)"
proof -
  show "word_of_nat j + 1 = (word_of_nat (Suc j) :: 64 word)" by simp
  show "word_of_nat j \<noteq> (- 1 :: 64 word)"
  proof
    assume "word_of_nat j = (- 1 :: 64 word)"
    then have "(word_of_nat (Suc j) :: 64 word) = 0" by simp
    moreover have "unat (word_of_nat (Suc j) :: 64 word) = Suc j"
      using assms by (simp only: unat_of_nat) simp
    ultimately show False by simp
  qed
qed

text \<open>The \<open>i\<close>-th message sent is sealed under the \<open>i\<close>-th counter value.\<close>

lemma send_all_nth:
  assumes "j + length ms < 2 ^ 64" and "send_ctr s = word_of_nat j" and "i < length ms"
  shows "send_all E s ms ! i = aead_seal_nonce E (ms ! i) (send_key s) (ctr_nonce (word_of_nat (j + i)))"
  using assms
proof (induction ms arbitrary: s j i)
  case (Cons m ms)
  then have c: "word_of_nat j + 1 = (word_of_nat (Suc j) :: 64 word)" "word_of_nat j \<noteq> (- 1 :: 64 word)"
    using counter_suc [of j] by simp_all
  show ?case
  proof (cases i)
    case 0
    then show ?thesis using Cons.prems c by (simp add: session_seal_def)
  next
    case (Suc i')
    then show ?thesis
      using Cons.prems c Cons.IH [of "Suc j" "s\<lparr>send_ctr := word_of_nat (Suc j)\<rparr>" i']
      by (simp add: session_seal_def add.commute)
  qed
qed simp

lemma length_send_all [simp]: "length (send_all E s ms) = length ms"
  by (induction ms arbitrary: s) (simp_all split: prod.splits)

text \<open>The pairs of nonce and plaintext a run of the sender has put through the cipher.\<close>

definition sent_pairs :: "ext \<Rightarrow> session \<Rightarrow> bytes list \<Rightarrow> (bytes \<times> bytes) set" where
  "sent_pairs E s ms = {(take 12 f, m) |f m. (Inr f, m) \<in> set (zip (send_all E s ms) ms)}"

lemma sent_pairs_nth:
  assumes "length ms < 2 ^ 64" and "send_ctr s = 0" and "(ctr_nonce (word_of_nat j), m) \<in> sent_pairs E s ms" and "j < 2 ^ 64"
  shows "j < length ms \<and> m = ms ! j"
proof -
  obtain f i where i: "i < length ms" "send_all E s ms ! i = Inr f" "ms ! i = m" "take 12 f = ctr_nonce (word_of_nat j)"
    using assms(3) by (simp add: sent_pairs_def set_zip) metis
  have "aead_seal_nonce E m (send_key s) (ctr_nonce (word_of_nat i)) = Inr f"
    using send_all_nth [of 0 ms s i E] assms(1,2) i by simp
  then have "take 12 f = ctr_nonce (word_of_nat i)"
    by (auto simp: aead_seal_nonce_def elim!: and_then_InrE split: if_splits)
  with i have eq: "(word_of_nat i :: 64 word) = word_of_nat j" by simp
  have "i < 2 ^ 64" using i(1) assms(1) by simp
  then have "unat (word_of_nat i :: 64 word) = i" "unat (word_of_nat j :: 64 word) = j"
    using assms(4) by (simp_all add: unat_of_nat)
  with eq have "i = j" by metis
  with i show ?thesis by simp
qed

text \<open>
  Authenticated encryption under one key: whatever decrypts was encrypted, as the pairs \<open>S\<close> of
  nonce and plaintext.
\<close>

definition unforged :: "ext \<Rightarrow> bytes \<Rightarrow> (bytes \<times> bytes) set \<Rightarrow> bool" where
  "unforged E k S \<longleftrightarrow> (\<forall>n c m. gcm_decrypt E k n [] c = Some m \<longrightarrow> (n, m) \<in> S)"

lemma recv_prefix:
  assumes "unforged E (recv_key r) (sent_pairs E s ms)" and "length ms < 2 ^ 64" and "send_ctr s = 0"
    and "recv_ctr r = word_of_nat j" and "j \<le> length ms"
  shows "prefix (recv_all E r frames) (drop j ms)"
  using assms
proof (induction frames arbitrary: r j)
  case (Cons f fs)
  show ?case
  proof (cases "session_open E r f")
    case (Pair res r')
    show ?thesis
    proof (cases res)
      case (Inl e)
      then have "r' = r" using Pair by (auto simp: session_open_def Let_def split: sum.splits if_splits)
      then show ?thesis using Cons Pair Inl by simp
    next
      case (Inr m)
      then have o: "aead_open_nonce E f (recv_key r) (ctr_nonce (recv_ctr r)) = Inr m" "recv_ctr r \<noteq> - 1"
          "r' = r\<lparr>recv_ctr := recv_ctr r + 1\<rparr>"
        using Pair by (auto simp: session_open_def Let_def split: sum.splits if_splits)
      have j: "j < length ms" "m = ms ! j"
        using aead_open_InrD [OF o(1)] Cons.prems sent_pairs_nth [of ms s j m E] by (auto simp: unforged_def)
      have "prefix (recv_all E r' fs) (drop (Suc j) ms)"
        using Cons.prems j o(3) counter_suc(1) [of j] by (intro Cons.IH) auto
      then show ?thesis using j Pair Inr by (simp add: Cons_nth_drop_Suc [symmetric])
    qed
  qed
qed simp

lemma recv_sent:
  assumes "gcm_law E" and "j + length ms < 2 ^ 64" and "send_ctr s = word_of_nat j" and "recv_ctr r = word_of_nat j"
    and "send_key s = recv_key r" and "send_all E s ms = map Inr frames"
  shows "recv_all E r frames = ms"
  using assms(2-)
proof (induction ms arbitrary: s r j frames)
  case (Cons m ms)
  have c: "word_of_nat j + 1 = (word_of_nat (Suc j) :: 64 word)" "word_of_nat j \<noteq> (- 1 :: 64 word)"
    using Cons.prems(1) counter_suc [of j] by simp_all
  obtain f fs where f: "frames = f # fs" "aead_seal_nonce E m (send_key s) (ctr_nonce (word_of_nat j)) = Inr f"
      "send_all E (s\<lparr>send_ctr := word_of_nat (Suc j)\<rparr>) ms = map Inr fs"
    using Cons.prems(2,5) c by (cases frames) (auto simp: session_seal_def)
  have "session_open E r f = (Inr m, r\<lparr>recv_ctr := word_of_nat (Suc j)\<rparr>)"
    using open_sealed [OF assms(1) f(2)] Cons.prems(3,4) c by (simp add: session_open_def)
  moreover have "recv_all E (r\<lparr>recv_ctr := word_of_nat (Suc j)\<rparr>) fs = ms"
    using Cons.prems f(3) by (intro Cons.IH [where j = "Suc j"]) auto
  ultimately show ?case using f(1) by simp
qed simp

section \<open>Properties\<close>

text \<open>
  The handshake completes between two honest clients that hold the keys of their
  certificates: both sides accept the other's signed message against the fingerprint the server
  vouches, and the sending key of each is the receiving key of the other, with both counters at
  zero and the peer's name recorded. Whatever the first then seals, up to the limit of the
  counter, the second opens to the same messages in the same order.
\<close>

theorem handshake_agrees:
  assumes "dh_law T" and "hkdf_law T" and "b64_law E" and "gcm_law E"
    and "cert_key T certA keyA" and "cert_key T certB keyB"
    and "cert_fingerprint E certA = Inr fpA" and "cert_fingerprint E certB = Inr fpB"
    and "a = tunnel_begin T ra Initiator tid nameA certA keyA" and "b = tunnel_begin T rb Responder tid nameB certB keyB"
  shows "\<exists>ha hb sa sb. tunnel_sign E T a (eph_pub b) = Inr ha \<and> tunnel_sign E T b (eph_pub a) = Inr hb
    \<and> tunnel_complete E T a hb nameB fpB = Inr sa \<and> tunnel_complete E T b ha nameA fpA = Inr sb
    \<and> send_key sa = recv_key sb \<and> send_key sb = recv_key sa \<and> peer_name sa = nameB \<and> peer_name sb = nameA
    \<and> (\<forall>ms frames. length ms < 2 ^ 64 \<longrightarrow> send_all E sa ms = map Inr frames \<longrightarrow> recv_all E sb frames = ms)"
proof -
  let ?base = "session_base E tid (x_public T ra) (x_public T rb)"
  obtain pkA pkB sigA sigB where keys: "p256_public T certA = Some pkA" "p256_public T certB = Some pkB"
      "p256_sign T keyA (signing_payload ?base nameA fpA) = Some sigA"
      "p256_verify T pkA (signing_payload ?base nameA fpA) sigA = Some True"
      "p256_sign T keyB (signing_payload ?base nameB fpB) = Some sigB"
      "p256_verify T pkB (signing_payload ?base nameB fpB) sigB = Some True"
    using assms(5,6) by (auto simp: cert_key_def) metis
  obtain k1 k2 where k: "hkdf_sha256 T ?base (x_shared T ra (x_public T rb)) (as_bytes ''blackbook/tunnel/v1 i2r'') 32 = Some k1"
      "hkdf_sha256 T ?base (x_shared T ra (x_public T rb)) (as_bytes ''blackbook/tunnel/v1 r2i'') 32 = Some k2"
    using hkdf_32 [OF assms(2)] by blast
  have dh: "x_shared T rb (x_public T ra) = x_shared T ra (x_public T rb)" "length (x_public T ra) = 32"
      "length (x_public T rb) = 32"
    using assms(1) by (simp_all add: dh_law_def)
  have send: "tunnel_sign E T a (eph_pub b) = Inr \<lparr>hs_from = nameA, hs_eph_pub = b64_encode E (x_public T ra),
        hs_cert_pem = certA, hs_signature = b64_encode E sigA\<rparr>"
    "tunnel_sign E T b (eph_pub a) = Inr \<lparr>hs_from = nameB, hs_eph_pub = b64_encode E (x_public T rb),
        hs_cert_pem = certB, hs_signature = b64_encode E sigB\<rparr>"
    by (simp_all add: assms(7-10) tunnel_begin_def tunnel_sign_def ecdsa_sign_def keys)
  have fin: "tunnel_complete E T a \<lparr>hs_from = nameB, hs_eph_pub = b64_encode E (x_public T rb),
        hs_cert_pem = certB, hs_signature = b64_encode E sigB\<rparr> nameB fpB
      = Inr \<lparr>send_key = k1, recv_key = k2, send_ctr = 0, recv_ctr = 0, peer_name = nameB, peer_fingerprint = fpB\<rparr>"
    "tunnel_complete E T b \<lparr>hs_from = nameA, hs_eph_pub = b64_encode E (x_public T ra),
        hs_cert_pem = certA, hs_signature = b64_encode E sigA\<rparr> nameA fpA
      = Inr \<lparr>send_key = k2, recv_key = k1, send_ctr = 0, recv_ctr = 0, peer_name = nameA, peer_fingerprint = fpA\<rparr>"
    by (simp_all add: assms(7-10) tunnel_begin_def tunnel_complete_def ecdsa_verify_def derive_keys_def keys k dh
        b64_lawD [OF assms(3)])
  show ?thesis
    by (intro exI conjI, rule send(1), rule send(2), rule fin(1), rule fin(2), simp_all)
      (auto intro!: recv_sent [OF assms(4), of 0])
qed

text \<open>
  C12. The peer is authenticated and the session is the same on both sides: when a handshake is
  accepted for a vouched name and fingerprint, and signatures under that certificate cannot be
  forged, then the owner of the certificate has itself run the handshake under that name, in the
  same tunnel, in the opposite role, with this party's ephemeral key as the peer's and its own
  ephemeral key as the one received. A relay cannot replay a signature into another tunnel or
  session, lift it onto another name, or exchange a key.
\<close>

theorem peer_authenticated:
  assumes "sha3_law E" and "collision_free E S" and "unforged_runs E T fp runs"
    and "tunnel_complete E T p h name fp = Inr s"
    and "b64_decode E (hs_eph_pub h) = Some eph" and "short_run p eph" and "length name < 2 ^ 32" and "length fp < 2 ^ 32"
    and "base_frame (run_transcript p eph) \<in> S"
    and "\<forall>(q, e) \<in> set runs. short_run q e \<and> base_frame (run_transcript q e) \<in> S \<and> eph_pub q \<noteq> eph_pub p"
  shows "\<exists>q. (q, eph_pub p) \<in> set runs \<and> my_name q = name \<and> pd_tunnel q = pd_tunnel p
    \<and> pd_role q \<noteq> pd_role p \<and> eph_pub q = eph"
proof -
  obtain pk sig where c: "cert_fingerprint E (hs_cert_pem h) = Inr fp" "p256_public T (hs_cert_pem h) = Some pk"
      "p256_verify T pk (payload_frame (sha3_256 E (base_frame (run_transcript p eph)), name, fp)) sig = Some True"
  proof (rule complete_checks [OF assms(4)])
    fix e sg pk
    assume "b64_decode E (hs_eph_pub h) = Some e" and c: "cert_fingerprint E (hs_cert_pem h) = Inr fp"
      "p256_public T (hs_cert_pem h) = Some pk"
      "p256_verify T pk (payload_frame (sha3_256 E (base_frame (run_transcript p e)), name, fp)) sg = Some True"
    then show thesis using assms(5) that by simp
  qed
  have "\<exists>(q, e) \<in> set runs. payload_frame (sha3_256 E (base_frame (run_transcript p eph)), name, fp) = run_payload E q e fp"
    using assms(3) c unfolding unforged_runs_def by blast
  then obtain q e where q: "(q, e) \<in> set runs"
      "payload_frame (sha3_256 E (base_frame (run_transcript p eph)), name, fp) = run_payload E q e fp"
    by blast
  have wf: "short_run q e" "base_frame (run_transcript q e) \<in> S" "eph_pub q \<noteq> eph_pub p" using assms(10) q(1) by auto
  have "(sha3_256 E (base_frame (run_transcript p eph)), name, fp) = (sha3_256 E (base_frame (run_transcript q e)), my_name q, fp)"
    using q(2) wf(1) assms(1,7,8) unfolding run_payload_def
    by (intro tun_payload.frame_inject) (simp_all add: wf_payload_def short_run_def)
  then have "run_transcript p eph = run_transcript q e" "my_name q = name"
    using tun_base.digest_binds [OF assms(2,9) wf(2)] assms(6) wf(1) by (simp_all add: short_run_def)
  then show ?thesis
    using q(1) wf(3) by (cases "pd_role p"; cases "pd_role q") (auto simp: run_transcript_def)
qed

text \<open>
  C13. What a client accepts from the relay is a prefix of what its peer sent, in order and
  without repetition, whatever frames the relay delivers: forged, repeated, reordered, dropped or
  truncated ones are refused and change nothing.
\<close>

theorem channel_prefix:
  assumes "unforged E (recv_key r) (sent_pairs E s ms)" and "length ms < 2 ^ 64" and "send_ctr s = 0" and "recv_ctr r = 0"
  shows "prefix (recv_all E r frames) ms"
  using recv_prefix [OF assms(1-3), of 0 frames] assms(4) by simp

section \<open>Witnesses\<close>

definition demo_pem :: string where
  "demo_pem = ''-----BEGIN X'' @ [CHR 0x0A] @ ''QQ'' @ [CHR 0x0A] @ ''-----END X''"

definition demo_fp :: string where
  "demo_fp = hex_encode demo_ext (sha3_256 demo_ext (as_bytes ''QQ''))"

definition pad32 :: "bytes \<Rightarrow> bytes" where
  "pad32 b = take 32 (b @ zeros 32)"

definition demo_tun :: tun_ext where
  "demo_tun = \<lparr>x_public = pad32, x_shared = (\<lambda>s p. map2 (+) (pad32 s) p),
     hkdf_sha256 = (\<lambda>s k i n. Some (take n (i @ k @ zeros n))), p256_sign = (\<lambda>k m. Some (as_bytes k @ m)),
     p256_public = (\<lambda>c. Some (as_bytes c)), p256_verify = (\<lambda>pk m sig. Some (sig = pk @ m))\<rparr>"

lemma demo_fingerprint: "cert_fingerprint demo_ext demo_pem = Inr demo_fp"
proof -
  have "pem_body False (split_on (CHR 0x0A) demo_pem) = ''QQ''"
    by code_simp
  then show ?thesis by (simp add: cert_fingerprint_def pem_to_der_def demo_fp_def) (simp add: demo_ext_def)
qed

lemma map2_commute: "map2 (+) a b = map2 (+) b (a :: bytes)"
  by (induction a b rule: list_induct2') (simp_all add: add.commute)

lemma length_pad32 [simp]: "length (pad32 b) = 32"
  by (simp add: pad32_def zeros_def)

lemma demo_tun_laws: "dh_law demo_tun" "hkdf_law demo_tun" "cert_key demo_tun c c"
proof -
  show "dh_law demo_tun" by (simp add: dh_law_def demo_tun_def) (metis map2_commute)
  show "hkdf_law demo_tun" by (simp add: hkdf_law_def demo_tun_def zeros_def) (simp add: min_def)
  show "cert_key demo_tun c c" by (simp add: cert_key_def demo_tun_def)
qed

theorem handshake_agrees_witness:
  "\<exists>ha hb sa sb. tunnel_sign demo_ext demo_tun (tunnel_begin demo_tun [1] Initiator ''t'' ''alice'' demo_pem demo_pem) (pad32 [2]) = Inr ha
    \<and> tunnel_sign demo_ext demo_tun (tunnel_begin demo_tun [2] Responder ''t'' ''bob'' demo_pem demo_pem) (pad32 [1]) = Inr hb
    \<and> tunnel_complete demo_ext demo_tun (tunnel_begin demo_tun [1] Initiator ''t'' ''alice'' demo_pem demo_pem) hb ''bob'' demo_fp = Inr sa
    \<and> tunnel_complete demo_ext demo_tun (tunnel_begin demo_tun [2] Responder ''t'' ''bob'' demo_pem demo_pem) ha ''alice'' demo_fp = Inr sb
    \<and> send_key sa = recv_key sb \<and> send_key sb = recv_key sa"
proof -
  have "eph_pub (tunnel_begin demo_tun r role t n c k) = pad32 r" for r role t n c k
    by (simp add: tunnel_begin_def demo_tun_def)
  then show ?thesis
    using handshake_agrees [OF demo_tun_laws(1,2) demo_laws(2,3) demo_tun_laws(3,3) demo_fingerprint demo_fingerprint refl refl,
        of "[1]" "''t''" "''alice''" "[2]" "''bob''"] by metis
qed

text \<open>An ideal signature scheme in which one message has been signed.\<close>

definition tun_alice :: pending where
  "tun_alice = tunnel_begin demo_tun [1] Initiator ''t'' ''alice'' demo_pem demo_pem"

definition tun_bob :: pending where
  "tun_bob = tunnel_begin demo_tun [2] Responder ''t'' ''bob'' demo_pem demo_pem"

definition demo_ideal :: tun_ext where
  "demo_ideal = demo_tun\<lparr>p256_verify := (\<lambda>pk m sig. Some (m = run_payload demo_ext tun_bob (pad32 [1]) demo_fp))\<rparr>"

lemma demo_runs:
  "eph_pub tun_alice = pad32 [1]" "eph_pub tun_bob = pad32 [2]" "my_name tun_bob = ''bob''" "my_name tun_alice = ''alice''"
  "run_transcript tun_alice (pad32 [2]) = (''t'', pad32 [1], pad32 [2])"
  "run_transcript tun_bob (pad32 [1]) = (''t'', pad32 [1], pad32 [2])"
  by (simp_all add: tun_alice_def tun_bob_def tunnel_begin_def demo_tun_def run_transcript_def)

theorem peer_authenticated_witness:
  "\<exists>h s q. tunnel_complete demo_ext demo_ideal tun_alice h ''bob'' demo_fp = Inr s
    \<and> (q, pad32 [1]) \<in> set [(tun_bob, pad32 [1])] \<and> my_name q = ''bob'' \<and> eph_pub q = pad32 [2]"
proof -
  let ?h = "\<lparr>hs_from = ''bob'', hs_eph_pub = b64_encode demo_ext (pad32 [2]), hs_cert_pem = demo_pem,
      hs_signature = b64_encode demo_ext []\<rparr>"
  have ideal: "p256_public demo_ideal = (\<lambda>c. Some (as_bytes c))"
      "p256_verify demo_ideal = (\<lambda>pk m sig. Some (m = run_payload demo_ext tun_bob (pad32 [1]) demo_fp))"
      "hkdf_sha256 demo_ideal = hkdf_sha256 demo_tun"
    by (simp_all add: demo_ideal_def demo_tun_def)
  have pl: "run_payload demo_ext tun_bob (pad32 [1]) demo_fp
      = signing_payload (session_base demo_ext ''t'' (pad32 [1]) (pad32 [2])) ''bob'' demo_fp"
    by (simp add: run_payload_def demo_runs payload_frame_def session_base_def)
  have "pd_role tun_alice = Initiator" "pd_tunnel tun_alice = ''t''"
    by (simp_all add: tun_alice_def tunnel_begin_def)
  then have "\<exists>s. tunnel_complete demo_ext demo_ideal tun_alice ?h ''bob'' demo_fp = Inr s"
    by (simp add: tunnel_complete_def demo_fingerprint b64_lawD demo_runs ecdsa_verify_def ideal pl derive_keys_def)
      (simp add: demo_tun_def)
  then obtain s where s: "tunnel_complete demo_ext demo_ideal tun_alice ?h ''bob'' demo_fp = Inr s" by blast
  have "length demo_fp = 32" by (simp add: demo_fp_def demo_ext_def str_of_def zeros_def)
  moreover have "pad32 [1] \<noteq> pad32 [2]" by (simp add: pad32_def)
  moreover have "unforged_runs demo_ext demo_ideal demo_fp [(tun_bob, pad32 [1])]"
    by (simp add: unforged_runs_def ideal)
  ultimately have "\<exists>q. (q, eph_pub tun_alice) \<in> set [(tun_bob, pad32 [1])] \<and> my_name q = ''bob''
      \<and> pd_tunnel q = pd_tunnel tun_alice \<and> pd_role q \<noteq> pd_role tun_alice \<and> eph_pub q = pad32 [2]"
    by (intro peer_authenticated [OF demo_laws(7) _ _ s, where S = "{base_frame (''t'', pad32 [1], pad32 [2])}"])
      (auto simp: collision_free_def b64_lawD short_run_def wf_base_def demo_runs)
  with s show ?thesis by (metis demo_runs(1))
qed

text \<open>An ideal cipher under which one message has been sealed, and a relay that repeats it.\<close>

definition demo_cipher :: ext where
  "demo_cipher = demo_ext\<lparr>gcm_decrypt := (\<lambda>k n a c. if n = ctr_nonce 0 \<and> c = [7] @ zeros 16 then Some [7] else None)\<rparr>"

definition demo_session :: session where
  "demo_session = \<lparr>send_key = zeros 32, recv_key = zeros 32, send_ctr = 0, recv_ctr = 0, peer_name = ''bob'',
     peer_fingerprint = demo_fp\<rparr>"

theorem channel_prefix_witness:
  "prefix (recv_all demo_cipher demo_session [ctr_nonce 0 @ [7] @ zeros 16, ctr_nonce 0 @ [7] @ zeros 16]) [[7]]"
proof (rule channel_prefix [where s = demo_session])
  have "send_all demo_cipher demo_session [[7]] = [Inr (ctr_nonce 0 @ [7] @ zeros 16)]"
    by (simp add: session_seal_def demo_session_def aead_seal_nonce_def demo_cipher_def demo_ext_def zeros_def)
  then have "sent_pairs demo_cipher demo_session [[7]] = {(ctr_nonce 0, [7])}"
    by (simp add: sent_pairs_def)
  then show "unforged demo_cipher (recv_key demo_session) (sent_pairs demo_cipher demo_session [[7]])"
    by (simp add: unforged_def demo_cipher_def)
qed (simp_all add: demo_session_def)

end
