(* ===== verification/Tunnel_Relay.thy ===== *)
theory Tunnel_Relay
  imports "HOL-Library.AList" Accounts
begin

text \<open>
  The relay of the tunnel (\<open>src/tunnel_relay.rs\<close> and the tunnel handlers of \<open>src/server.rs\<close>):
  offers, the pairing of two WebSocket connections, the introduction of each peer to the other
  and the forwarding of frames. Handlers and pump tasks of different connections interleave: the
  steps of \<open>relay_step\<close> are the critical sections of the code, in any order; \<open>tunnel_attach\<close> also has in
  its one step the lookup of the fingerprints before the registration and the sending of the
  introductions after it, which the code does outside the lock. A connection's
  queue is the unbounded channel into its outbound pump, and a sender is the number of the
  connection it leads to.
\<close>

section \<open>Data\<close>

record tunnel =
  offerer_name :: string
  offerer_fp :: string
  target_name :: string
  answerer_name :: "string option"
  answerer_fp :: "string option"
  to_offerer :: "nat option"
  to_answerer :: "nat option"
  tn_created :: int

record vouch =
  you_are_initiator :: bool
  vc_tunnel :: string
  vc_name :: string
  vc_fingerprint :: string

datatype relay_msg = Vouch vouch | Frame bytes | PeerGone

text \<open>
  One call of \<open>tunnel_ws\<close> after its role check: the captured variables of its two tasks, the
  channel (\<open>cn_queue\<close>, and whether its receiver still exists), what the outbound pump has written
  to the socket, and the frames the inbound pump has read from it.
\<close>

record conn =
  cn_name :: string
  cn_fp :: string
  cn_tunnel :: string
  cn_init :: bool
  cn_peer :: "nat option"
  cn_queue :: "relay_msg list"
  cn_open :: bool
  cn_live :: bool
  cn_out :: "relay_msg list"
  cn_in :: "bytes list"

record relay_state = acct_state +
  hub :: "(string \<times> tunnel) list"
  conns :: "conn list"

record tunnel_info =
  ti_id :: string
  ti_offerer :: string
  ti_target :: string
  ti_state :: string

section \<open>Offers\<close>

text \<open>120 seconds, in microseconds.\<close>

definition OFFER_TTL :: int where
  "OFFER_TTL = 120 * 10 ^ 6"

definition hub_offer ::
    "ext \<Rightarrow> request \<Rightarrow> string \<Rightarrow> string \<Rightarrow> string \<Rightarrow> 'a relay_state_scheme \<Rightarrow> string \<times> 'a relay_state_scheme" where
  "hub_offer E rq name fp target st =
     (let tid = hex_encode E (rand rq 0 16);
          kept = filter (\<lambda>(_, t). answerer_name t \<noteq> None \<or> now rq - tn_created t < OFFER_TTL) (hub st)
      in (tid, st\<lparr>hub := AList.update tid
            \<lparr>offerer_name = name, offerer_fp = fp, target_name = target, answerer_name = None, answerer_fp = None,
             to_offerer = None, to_answerer = None, tn_created = now rq\<rparr> kept\<rparr>))"

definition list_for :: "string \<Rightarrow> 'a relay_state_scheme \<Rightarrow> tunnel_info list" where
  "list_for name st =
     map (\<lambda>(tid, t). \<lparr>ti_id = tid, ti_offerer = offerer_name t, ti_target = target_name t,
            ti_state = (if to_offerer t \<noteq> None \<and> to_answerer t \<noteq> None then ''connected''
                        else if answerer_name t \<noteq> None then ''joining'' else ''offered'')\<rparr>)
       (filter (\<lambda>(_, t). offerer_name t = name \<or> target_name t = name) (hub st))"

definition client_fingerprint :: "ext \<Rightarrow> app \<Rightarrow> string \<Rightarrow> 'a acct_state_scheme \<Rightarrow> string option" where
  "client_fingerprint E app name st = Option.bind (active_client E app name st) cl_fingerprint"

definition offer_tunnel ::
    "ext \<Rightarrow> app \<Rightarrow> request \<Rightarrow> string \<Rightarrow> authenticated_client \<Rightarrow> 'a relay_state_scheme
      \<Rightarrow> (string \<times> string) response \<times> 'a relay_state_scheme" where
  "offer_tunnel E app rq target client st =
     (if trim target = [] then (ErrorReply 400 ''validation_error'', st)
      else if target = ac_name client then (ErrorReply 400 ''validation_error'', st)
      else if client_fingerprint E app target st = None then (ErrorReply 404 ''not_found'', st)
      else
        (case client_fingerprint E app (ac_name client) st of
           None \<Rightarrow> (ErrorReply 500 ''internal'', st)
         | Some my_fp \<Rightarrow>
             (case hub_offer E rq (ac_name client) my_fp target st of
                (tid, st) \<Rightarrow>
                  (Reply 201 (tid, target),
                   audit E app rq 0 (Some (ac_id client)) ''tunnel.offer'' (Some target) AuditOk None st))))"

definition list_tunnels :: "authenticated_client \<Rightarrow> 'a relay_state_scheme \<Rightarrow> tunnel_info list response" where
  "list_tunnels client st = Reply 200 (list_for (ac_name client) st)"

section \<open>Connections\<close>

text \<open>The role of a caller: no tunnel, not a party, or a party and whether it is the initiator.\<close>

definition tunnel_role :: "string \<Rightarrow> string \<Rightarrow> 'a relay_state_scheme \<Rightarrow> bool option option" where
  "tunnel_role name tid st = (case map_of (hub st) tid of
      None \<Rightarrow> None
    | Some t \<Rightarrow> Some (if offerer_name t = name then Some True
                 else if target_name t = name then Some False else None))"

text \<open>\<open>UnboundedSender::send\<close>: whether the receiver exists, and the queues afterwards.\<close>

definition chan_send :: "nat \<Rightarrow> relay_msg \<Rightarrow> conn list \<Rightarrow> bool \<times> conn list" where
  "chan_send i m cs =
     (if i < length cs \<and> cn_open (cs ! i)
      then (True, cs[i := (cs ! i)\<lparr>cn_queue := cn_queue (cs ! i) @ [m]\<rparr>]) else (False, cs))"

text \<open>The tunnel after one side has registered its sender \<open>me\<close>.\<close>

definition register_side :: "bool \<Rightarrow> string \<Rightarrow> string \<Rightarrow> nat \<Rightarrow> tunnel \<Rightarrow> tunnel" where
  "register_side is_initiator name fp me t =
     (if is_initiator then t\<lparr>offerer_name := name, offerer_fp := fp, to_offerer := Some me\<rparr>
      else t\<lparr>answerer_name := Some name, answerer_fp := Some fp, to_answerer := Some me\<rparr>)"

definition opt_str :: "string option \<Rightarrow> string" where
  "opt_str x = (case x of None \<Rightarrow> [] | Some s \<Rightarrow> s)"

text \<open>The vouch for one side, describing the other.\<close>

definition vouch_for :: "bool \<Rightarrow> string \<Rightarrow> tunnel \<Rightarrow> vouch" where
  "vouch_for initiator tid t =
     (if initiator
      then \<lparr>you_are_initiator = True, vc_tunnel = tid, vc_name = opt_str (answerer_name t),
            vc_fingerprint = opt_str (answerer_fp t)\<rparr>
      else \<lparr>you_are_initiator = False, vc_tunnel = tid, vc_name = offerer_name t, vc_fingerprint = offerer_fp t\<rparr>)"

definition peer_of :: "bool \<Rightarrow> tunnel \<Rightarrow> nat option" where
  "peer_of is_initiator t = (if is_initiator then to_answerer t else to_offerer t)"

text \<open>
  The part of \<open>tunnel_ws\<close> after the role check: a new channel, the wiring under the lock, and
  the delivery of both vouches when both sides are present.
\<close>

definition tunnel_attach ::
    "ext \<Rightarrow> app \<Rightarrow> string \<Rightarrow> string \<Rightarrow> bool \<Rightarrow> 'a relay_state_scheme \<Rightarrow> 'a relay_state_scheme" where
  "tunnel_attach E app name tid is_initiator st =
     (let me = length (conns st);
          fp = opt_str (client_fingerprint E app name st);
          conn = (\<lambda>peer. \<lparr>cn_name = name, cn_fp = fp, cn_tunnel = tid, cn_init = is_initiator, cn_peer = peer,
                    cn_queue = [], cn_open = True, cn_live = True, cn_out = [], cn_in = []\<rparr>)
      in case map_of (hub st) tid of
           None \<Rightarrow> st\<lparr>conns := conns st @ [conn None]\<rparr>
         | Some t0 \<Rightarrow>
             (let t = register_side is_initiator name fp me t0;
                  st = st\<lparr>hub := AList.update tid t (hub st)\<rparr>
              in case (to_offerer t, to_answerer t, peer_of is_initiator t) of
                   (Some _, Some _, Some peer) \<Rightarrow>
                     st\<lparr>conns := snd (chan_send peer (Vouch (vouch_for (\<not> is_initiator) tid t))
                                  (snd (chan_send me (Vouch (vouch_for is_initiator tid t))
                                    (conns st @ [conn (Some peer)]))))\<rparr>
                 | _ \<Rightarrow> st\<lparr>conns := conns st @ [conn None]\<rparr>))"

text \<open>\<open>upgrade\<close> is whether \<open>actix_ws::handle\<close> accepts the request as a WebSocket upgrade.\<close>

definition tunnel_ws ::
    "ext \<Rightarrow> app \<Rightarrow> bool \<Rightarrow> string \<Rightarrow> authenticated_client \<Rightarrow> 'a relay_state_scheme \<Rightarrow> unit response \<times> 'a relay_state_scheme" where
  "tunnel_ws E app upgrade tid client st = (case tunnel_role (ac_name client) tid st of
      None \<Rightarrow> (ErrorReply 404 ''not_found'', st)
    | Some None \<Rightarrow> (ErrorReply 403 ''forbidden'', st)
    | Some (Some is_initiator) \<Rightarrow>
        if upgrade then (Reply 101 (), tunnel_attach E app (ac_name client) tid is_initiator st)
        else (ActixError 500, st))"

section \<open>The pumps\<close>

text \<open>One message through the outbound pump; \<open>ok\<close> is whether the socket accepts it.\<close>

definition pump_out :: "nat \<Rightarrow> bool \<Rightarrow> 'a relay_state_scheme \<Rightarrow> 'a relay_state_scheme" where
  "pump_out i ok st =
     (let c = conns st ! i
      in if i < length (conns st) \<and> cn_open c
         then (case cn_queue c of
             [] \<Rightarrow> st
           | PeerGone # q \<Rightarrow> st\<lparr>conns := (conns st)[i := c\<lparr>cn_queue := q, cn_open := False\<rparr>]\<rparr>
           | m # q \<Rightarrow>
               if ok then st\<lparr>conns := (conns st)[i := c\<lparr>cn_queue := q, cn_out := cn_out c @ [m]\<rparr>]\<rparr>
               else st\<lparr>conns := (conns st)[i := c\<lparr>cn_queue := q, cn_open := False\<rparr>]\<rparr>)
         else st)"

definition hub_peer :: "conn \<Rightarrow> 'a relay_state_scheme \<Rightarrow> nat option" where
  "hub_peer c st = Option.bind (map_of (hub st) (cn_tunnel c)) (peer_of (cn_init c))"

text \<open>The end of the inbound pump: the tunnel is dropped and the peer is told.\<close>

definition teardown :: "nat \<Rightarrow> 'a relay_state_scheme \<Rightarrow> 'a relay_state_scheme" where
  "teardown i st =
     (let c = conns st ! i;
          peer = hub_peer c st;
          cs = (conns st)[i := c\<lparr>cn_live := False\<rparr>]
      in st\<lparr>hub := AList.delete (cn_tunnel c) (hub st),
            conns := (case peer of None \<Rightarrow> cs | Some p \<Rightarrow> snd (chan_send p PeerGone cs))\<rparr>)"

datatype ws_message = Binary bytes | Ping | Close | OtherMessage

definition pump_in :: "nat \<Rightarrow> ws_message \<Rightarrow> 'a relay_state_scheme \<Rightarrow> 'a relay_state_scheme" where
  "pump_in i msg st =
     (let c = conns st ! i
      in if i < length (conns st) \<and> cn_live c
         then (case msg of
             Binary b \<Rightarrow>
               (let peer = (case cn_peer c of Some p \<Rightarrow> Some p | None \<Rightarrow> hub_peer c st);
                    cs = (conns st)[i := c\<lparr>cn_peer := peer, cn_in := cn_in c @ [b]\<rparr>]
                in case peer of
                     None \<Rightarrow> st\<lparr>conns := cs\<rparr>
                   | Some p \<Rightarrow>
                       (case chan_send p (Frame b) cs of
                          (True, cs) \<Rightarrow> st\<lparr>conns := cs\<rparr>
                        | (False, cs) \<Rightarrow> teardown i (st\<lparr>conns := cs\<rparr>)))
           | Ping \<Rightarrow> st
           | Close \<Rightarrow> teardown i st
           | OtherMessage \<Rightarrow> st)
         else st)"

text \<open>The end of the stream, or an error in it.\<close>

definition stream_end :: "nat \<Rightarrow> 'a relay_state_scheme \<Rightarrow> 'a relay_state_scheme" where
  "stream_end i st = (if i < length (conns st) \<and> cn_live (conns st ! i) then teardown i st else st)"

section \<open>Interleaved execution\<close>

text \<open>
  The steps of the relay. \<open>issued\<close> records every offer made, \<open>entering\<close> the calls of
  \<open>tunnel_ws\<close> between their role check and their wiring. The premise of the first rule is that
  the 128-bit identifiers drawn by different offers differ. Any other request may change the
  accounts in between.
\<close>

record relay_world =
  srv :: relay_state
  issued :: "(string \<times> string \<times> string) list"
  entering :: "(string \<times> string \<times> bool) list"

inductive relay_step :: "ext \<Rightarrow> app \<Rightarrow> relay_world \<Rightarrow> relay_world \<Rightarrow> bool" for E app where
  Offer: "offer_tunnel E app rq target c (srv w) = (Reply 201 (tid, target), st) \<Longrightarrow>
    tid \<notin> fst ` set (issued w) \<Longrightarrow>
    relay_step E app w (w\<lparr>srv := st, issued := (tid, ac_name c, target) # issued w\<rparr>)"
| Enter: "tunnel_role name tid (srv w) = Some (Some b) \<Longrightarrow>
    relay_step E app w (w\<lparr>entering := (name, tid, b) # entering w\<rparr>)"
| Attach: "(name, tid, b) \<in> set (entering w) \<Longrightarrow>
    relay_step E app w (w\<lparr>srv := tunnel_attach E app name tid b (srv w)\<rparr>)"
| Out: "relay_step E app w (w\<lparr>srv := pump_out i ok (srv w)\<rparr>)"
| In: "relay_step E app w (w\<lparr>srv := pump_in i msg (srv w)\<rparr>)"
| End: "relay_step E app w (w\<lparr>srv := stream_end i (srv w)\<rparr>)"
| Other: "hub st = hub (srv w) \<Longrightarrow> conns st = conns (srv w) \<Longrightarrow> relay_step E app w (w\<lparr>srv := st\<rparr>)"

definition relay_start :: "relay_world \<Rightarrow> bool" where
  "relay_start w \<longleftrightarrow> hub (srv w) = [] \<and> conns (srv w) = [] \<and> issued w = [] \<and> entering w = []"

text \<open>The party of an offer that plays a role.\<close>

definition is_party :: "(string \<times> string \<times> string) list \<Rightarrow> string \<Rightarrow> bool \<Rightarrow> string \<Rightarrow> bool" where
  "is_party offers tid b name \<longleftrightarrow> (\<exists>off target. (tid, off, target) \<in> set offers \<and> off \<noteq> target
     \<and> name = (if b then off else target))"

text \<open>Two connections are the two ends of a tunnel.\<close>

definition opposite :: "conn \<Rightarrow> conn \<Rightarrow> bool" where
  "opposite c d \<longleftrightarrow> cn_tunnel d = cn_tunnel c \<and> cn_init d \<noteq> cn_init c"

text \<open>A message is in order at a connection, given all connections.\<close>

fun msg_ok :: "conn list \<Rightarrow> conn \<Rightarrow> relay_msg \<Rightarrow> bool" where
  "msg_ok cs c (Vouch v) \<longleftrightarrow> you_are_initiator v = cn_init c \<and> vc_tunnel v = cn_tunnel c
     \<and> (\<exists>d \<in> set cs. opposite c d \<and> vc_name v = cn_name d \<and> vc_fingerprint v = cn_fp d)"
| "msg_ok cs c (Frame b) \<longleftrightarrow> (\<exists>d \<in> set cs. opposite c d \<and> b \<in> set (cn_in d))"
| "msg_ok cs c PeerGone \<longleftrightarrow> True"

definition conn_ok :: "(string \<times> string \<times> string) list \<Rightarrow> conn list \<Rightarrow> conn \<Rightarrow> bool" where
  "conn_ok offers cs c \<longleftrightarrow> is_party offers (cn_tunnel c) (cn_init c) (cn_name c)
     \<and> (\<forall>m \<in> set (cn_queue c @ cn_out c). msg_ok cs c m)
     \<and> (\<forall>p. cn_peer c = Some p \<longrightarrow> p < length cs \<and> opposite c (cs ! p))"

definition side_ok :: "conn list \<Rightarrow> string \<Rightarrow> bool \<Rightarrow> string option \<Rightarrow> string option \<Rightarrow> nat option \<Rightarrow> bool" where
  "side_ok cs tid b name fp i \<longleftrightarrow> (\<forall>p. i = Some p \<longrightarrow> p < length cs \<and> cn_tunnel (cs ! p) = tid \<and> cn_init (cs ! p) = b
     \<and> name = Some (cn_name (cs ! p)) \<and> fp = Some (cn_fp (cs ! p)))"

definition tunnel_ok :: "(string \<times> string \<times> string) list \<Rightarrow> conn list \<Rightarrow> string \<Rightarrow> tunnel \<Rightarrow> bool" where
  "tunnel_ok offers cs tid t \<longleftrightarrow> (tid, offerer_name t, target_name t) \<in> set offers
     \<and> side_ok cs tid True (Some (offerer_name t)) (Some (offerer_fp t)) (to_offerer t)
     \<and> side_ok cs tid False (answerer_name t) (answerer_fp t) (to_answerer t)"

section \<open>The invariant\<close>

text \<open>Connections keep their identity, and what they have read only grows.\<close>

definition same_end :: "conn \<Rightarrow> conn \<Rightarrow> bool" where
  "same_end c d \<longleftrightarrow> cn_tunnel d = cn_tunnel c \<and> cn_init d = cn_init c \<and> cn_name d = cn_name c \<and> cn_fp d = cn_fp c
     \<and> set (cn_in c) \<subseteq> set (cn_in d)"

definition grows :: "conn list \<Rightarrow> conn list \<Rightarrow> bool" where
  "grows cs ds \<longleftrightarrow> length cs \<le> length ds \<and> (\<forall>i < length cs. same_end (cs ! i) (ds ! i))"

definition conns_ok :: "(string \<times> string \<times> string) list \<Rightarrow> conn list \<Rightarrow> bool" where
  "conns_ok offers cs \<longleftrightarrow> (\<forall>c \<in> set cs. conn_ok offers cs c)"

lemma grows_refl [simp]: "grows cs cs"
  by (simp add: grows_def same_end_def)

lemma same_end_trans: "same_end a b \<Longrightarrow> same_end b c \<Longrightarrow> same_end a c"
  by (auto simp: same_end_def)

lemma grows_trans:
  assumes "grows a b" and "grows b c"
  shows "grows a c"
  unfolding grows_def
proof (intro conjI allI impI)
  fix i
  assume "i < length a"
  then have "same_end (a ! i) (b ! i)" "same_end (b ! i) (c ! i)" using assms by (auto simp: grows_def)
  then show "same_end (a ! i) (c ! i)" by (rule same_end_trans)
qed (use assms in \<open>auto simp: grows_def\<close>)

lemma grows_update: "i < length cs \<Longrightarrow> same_end (cs ! i) d \<Longrightarrow> grows cs (cs[i := d])"
  by (auto simp: grows_def same_end_def nth_list_update)

lemma grows_append [simp]: "grows cs (cs @ ds)"
  by (simp add: grows_def same_end_def nth_append)

lemma grows_mem:
  assumes "grows cs ds" and "d \<in> set cs"
  shows "\<exists>e \<in> set ds. same_end d e"
  using assms unfolding grows_def by (metis in_set_conv_nth order_less_le_trans)

lemma msg_ok_mono:
  assumes "grows cs ds" and "same_end c d" and "msg_ok cs c m"
  shows "msg_ok ds d m"
proof (cases m)
  case (Vouch v)
  with assms(3) obtain e where "e \<in> set cs" "opposite c e" "vc_name v = cn_name e" "vc_fingerprint v = cn_fp e" by auto
  then show ?thesis
    using Vouch assms grows_mem [OF assms(1), of e] by (fastforce simp: same_end_def opposite_def)
next
  case (Frame b)
  with assms(3) obtain e where "e \<in> set cs" "opposite c e" "b \<in> set (cn_in e)" by auto
  then show ?thesis
    using Frame assms grows_mem [OF assms(1), of e] by (fastforce simp: same_end_def opposite_def)
qed simp

lemma conn_ok_mono:
  assumes "grows cs ds" and "conn_ok offers cs c" and "set offers \<subseteq> set offers'"
  shows "conn_ok offers' ds c"
proof -
  have "\<forall>m \<in> set (cn_queue c @ cn_out c). msg_ok ds c m"
    using assms(2) msg_ok_mono [OF assms(1), of c c] by (auto simp: conn_ok_def same_end_def)
  moreover have "p < length ds \<and> opposite c (ds ! p)" if "cn_peer c = Some p" for p
    using assms(1,2) that by (auto simp: conn_ok_def grows_def same_end_def opposite_def)
  moreover have "is_party offers' (cn_tunnel c) (cn_init c) (cn_name c)"
    using assms(2,3) unfolding conn_ok_def is_party_def by blast
  ultimately show ?thesis by (simp add: conn_ok_def)
qed

lemma side_ok_mono: "grows cs ds \<Longrightarrow> side_ok cs tid b n f i \<Longrightarrow> side_ok ds tid b n f i"
  by (auto simp: side_ok_def grows_def same_end_def)

lemma tunnel_ok_mono:
  "grows cs ds \<Longrightarrow> set offers \<subseteq> set offers' \<Longrightarrow> tunnel_ok offers cs tid t \<Longrightarrow> tunnel_ok offers' ds tid t"
  by (auto simp: tunnel_ok_def intro: side_ok_mono)

text \<open>One connection changes.\<close>

lemma conns_ok_update:
  assumes "conns_ok offers cs" and "i < length cs" and "same_end (cs ! i) d"
    and "set (cn_queue d @ cn_out d) \<subseteq> set (cn_queue (cs ! i) @ cn_out (cs ! i)) \<union> M"
    and "\<And>m. m \<in> M \<Longrightarrow> msg_ok cs (cs ! i) m"
    and "cn_peer d = cn_peer (cs ! i) \<or> (\<exists>p < length cs. cn_peer d = Some p \<and> opposite (cs ! i) (cs ! p))"
  shows "conns_ok offers (cs[i := d]) \<and> grows cs (cs[i := d])"
proof
  show g: "grows cs (cs[i := d])" by (rule grows_update [OF assms(2,3)])
  have c: "conn_ok offers cs (cs ! i)" using assms(1,2) by (simp add: conns_ok_def)
  then have cm: "\<And>m. m \<in> set (cn_queue (cs ! i) @ cn_out (cs ! i)) \<Longrightarrow> msg_ok cs (cs ! i) m"
    and cp: "\<And>p. cn_peer (cs ! i) = Some p \<Longrightarrow> p < length cs \<and> opposite (cs ! i) (cs ! p)"
    and party: "is_party offers (cn_tunnel (cs ! i)) (cn_init (cs ! i)) (cn_name (cs ! i))"
    by (simp_all add: conn_ok_def)
  have m: "msg_ok (cs[i := d]) d m" if "m \<in> set (cn_queue d @ cn_out d)" for m
  proof (rule msg_ok_mono [OF g assms(3)])
    have "m \<in> set (cn_queue (cs ! i) @ cn_out (cs ! i)) \<union> M" by (rule subsetD [OF assms(4) that])
    then show "msg_ok cs (cs ! i) m" using cm assms(5) by (elim UnE)
  qed
  have p: "p < length (cs[i := d]) \<and> opposite d ((cs[i := d]) ! p)" if "cn_peer d = Some p" for p
  proof -
    have "p < length cs \<and> opposite (cs ! i) (cs ! p)"
      using that assms(6) cp by (elim disjE exE conjE) simp_all
    then show ?thesis using assms(2,3) by (cases "p = i") (simp_all add: opposite_def same_end_def)
  qed
  have "is_party offers (cn_tunnel d) (cn_init d) (cn_name d)"
    using party assms(3) by (simp add: same_end_def)
  then have "conn_ok offers (cs[i := d]) d"
    unfolding conn_ok_def by (intro conjI ballI allI impI m p)
  moreover have "conn_ok offers (cs[i := d]) e" if "e \<in> set cs" for e
    using assms(1) that by (intro conn_ok_mono [OF g, of offers]) (simp_all add: conns_ok_def)
  ultimately show "conns_ok offers (cs[i := d])"
    unfolding conns_ok_def by (intro ballI) (metis insertE set_update_subset_insert subsetD)
qed

lemma chan_send_ok:
  assumes "conns_ok offers cs" and "i < length cs \<Longrightarrow> msg_ok cs (cs ! i) m"
  shows "conns_ok offers (snd (chan_send i m cs)) \<and> grows cs (snd (chan_send i m cs))"
proof (cases "i < length cs \<and> cn_open (cs ! i)")
  case True
  with assms(2) have "msg_ok cs (cs ! i) m" by simp
  with True assms(1) have "conns_ok offers (cs[i := (cs ! i)\<lparr>cn_queue := cn_queue (cs ! i) @ [m]\<rparr>])
      \<and> grows cs (cs[i := (cs ! i)\<lparr>cn_queue := cn_queue (cs ! i) @ [m]\<rparr>])"
    by (intro conns_ok_update [where M = "{m}"]) (auto simp: same_end_def)
  with True show ?thesis by (simp add: chan_send_def)
qed (use assms in \<open>auto simp: chan_send_def\<close>)

definition hub_ok :: "(string \<times> string \<times> string) list \<Rightarrow> conn list \<Rightarrow> (string \<times> tunnel) list \<Rightarrow> bool" where
  "hub_ok offers cs h \<longleftrightarrow> (\<forall>(tid, t) \<in> set h. tunnel_ok offers cs tid t)"

lemma hub_ok_mono:
  "grows cs ds \<Longrightarrow> set offers \<subseteq> set offers' \<Longrightarrow> hub_ok offers cs h \<Longrightarrow> hub_ok offers' ds h"
  unfolding hub_ok_def by (auto intro: tunnel_ok_mono)

lemma hub_ok_subset: "hub_ok offers cs h \<Longrightarrow> set h' \<subseteq> set h \<Longrightarrow> hub_ok offers cs h'"
  by (auto simp: hub_ok_def)

lemma set_alist_update_subset: "set (AList.update k v h) \<subseteq> insert (k, v) (set h)"
  by (induction h) auto

lemma hub_peer_ok:
  assumes "hub_ok offers (conns st) (hub st)" and "hub_peer c st = Some p"
  shows "p < length (conns st) \<and> opposite c (conns st ! p)"
proof -
  obtain t where t: "map_of (hub st) (cn_tunnel c) = Some t" "peer_of (cn_init c) t = Some p"
    using assms(2) by (auto simp: hub_peer_def bind_eq_Some_conv)
  then have "tunnel_ok offers (conns st) (cn_tunnel c) t"
    using assms(1) map_of_SomeD by (fastforce simp: hub_ok_def)
  with t(2) show ?thesis
    by (auto simp: tunnel_ok_def side_ok_def peer_of_def opposite_def split: if_splits)
qed

text \<open>What every change of the connections has to keep.\<close>

definition net_ok :: "(string \<times> string \<times> string) list \<Rightarrow> 'a relay_state_scheme \<Rightarrow> bool" where
  "net_ok offers st \<longleftrightarrow> hub_ok offers (conns st) (hub st) \<and> conns_ok offers (conns st)"

lemma net_ok_update:
  assumes "net_ok offers st" and "conns_ok offers cs \<and> grows (conns st) cs" and "set h \<subseteq> set (hub st)"
  shows "net_ok offers (st\<lparr>hub := h, conns := cs\<rparr>)" "h = hub st \<Longrightarrow> net_ok offers (st\<lparr>conns := cs\<rparr>)"
proof -
  have "hub_ok offers cs h"
    using assms by (intro hub_ok_subset [OF hub_ok_mono [of "conns st" cs offers offers]]) (simp_all add: net_ok_def)
  with assms(2) show "net_ok offers (st\<lparr>hub := h, conns := cs\<rparr>)" "h = hub st \<Longrightarrow> net_ok offers (st\<lparr>conns := cs\<rparr>)"
    by (simp_all add: net_ok_def)
qed

lemma pump_out_ok:
  assumes "net_ok offers st"
  shows "net_ok offers (pump_out i ok st)"
proof (cases "i < length (conns st) \<and> cn_open (conns st ! i)")
  case True
  let ?c = "conns st ! i"
  have upd: "conns_ok offers ((conns st)[i := d]) \<and> grows (conns st) ((conns st)[i := d])"
    if "same_end ?c d" "set (cn_queue d @ cn_out d) \<subseteq> set (cn_queue ?c @ cn_out ?c)" "cn_peer d = cn_peer ?c" for d
    using assms True that by (intro conns_ok_update [where M = "{}"]) (simp_all add: net_ok_def)
  show ?thesis
  proof (cases "cn_queue ?c")
    case Nil
    then show ?thesis using assms True by (simp add: pump_out_def)
  next
    case (Cons m q)
    have "net_ok offers (st\<lparr>conns := (conns st)[i := ?c\<lparr>cn_queue := q, cn_open := False\<rparr>]\<rparr>)"
      "net_ok offers (st\<lparr>conns := (conns st)[i := ?c\<lparr>cn_queue := q, cn_out := cn_out ?c @ [m]\<rparr>]\<rparr>)"
      using Cons by (intro net_ok_update(2) [OF assms upd subset_refl refl]; auto simp: same_end_def)+
    then show ?thesis using True Cons by (cases m) (simp_all add: pump_out_def Let_def)
  qed
qed (use assms in \<open>auto simp: pump_out_def Let_def\<close>)

lemma set_alist_delete: "set (AList.delete k h) \<subseteq> set h"
  by (auto simp: AList.delete_eq)

lemma teardown_ok:
  assumes "net_ok offers st" and "i < length (conns st)"
  shows "net_ok offers (teardown i st)"
proof -
  let ?c = "conns st ! i"
  let ?cs = "(conns st)[i := ?c\<lparr>cn_live := False\<rparr>]"
  have u: "conns_ok offers ?cs \<and> grows (conns st) ?cs"
    using assms by (intro conns_ok_update [where M = "{}"]) (auto simp: same_end_def net_ok_def)
  have p: "conns_ok offers (snd (chan_send p PeerGone ?cs)) \<and> grows (conns st) (snd (chan_send p PeerGone ?cs))" for p
    using chan_send_ok [of offers ?cs p PeerGone] u grows_trans by fastforce
  show ?thesis
    unfolding teardown_def Let_def
    by (rule net_ok_update(1) [OF assms(1) _ set_alist_delete]) (simp add: u p split: option.splits)
qed

lemma pump_in_ok:
  assumes "net_ok offers st"
  shows "net_ok offers (pump_in i msg st)"
proof (cases "i < length (conns st) \<and> cn_live (conns st ! i)")
  case True
  let ?c = "conns st ! i"
  show ?thesis
  proof (cases msg)
    case (Binary b)
    define peer where "peer = (case cn_peer ?c of Some p \<Rightarrow> Some p | None \<Rightarrow> hub_peer ?c st)"
    define cs where "cs = (conns st)[i := ?c\<lparr>cn_peer := peer, cn_in := cn_in ?c @ [b]\<rparr>]"
    have c: "conn_ok offers (conns st) ?c" using assms True by (simp add: net_ok_def conns_ok_def)
    have peer: "p < length (conns st) \<and> opposite ?c (conns st ! p)" if "peer = Some p" for p
      using that c hub_peer_ok assms by (auto simp: peer_def conn_ok_def net_ok_def split: option.splits)
    have cs: "conns_ok offers cs \<and> grows (conns st) cs"
      unfolding cs_def using assms True peer
      by (intro conns_ok_update [where M = "{}"]) (cases peer; auto simp: same_end_def net_ok_def peer_def split: option.splits)+
    have "i < length cs" "b \<in> set (cn_in (cs ! i))" using True by (simp_all add: cs_def)
    moreover have "opposite (cs ! p) (cs ! i)" if "peer = Some p" for p
      using peer [OF that] True by (cases "p = i") (auto simp: cs_def opposite_def)
    ultimately have fr: "conns_ok offers (snd (chan_send p (Frame b) cs)) \<and> grows cs (snd (chan_send p (Frame b) cs))"
      if "peer = Some p" for p
      using cs that by (intro chan_send_ok) (auto intro!: bexI [of _ "cs ! i"])
    have ok: "net_ok offers (st\<lparr>conns := cs\<rparr>)" by (rule net_ok_update(2) [OF assms cs subset_refl refl])
    have ok': "net_ok offers (st\<lparr>conns := snd (chan_send p (Frame b) cs)\<rparr>)" if "peer = Some p" for p
      using net_ok_update(2) [OF assms _ subset_refl refl] fr [OF that] cs grows_trans by blast
    have len: "length (snd (chan_send p m ds)) = length ds" for p m ds by (simp add: chan_send_def)
    have eq: "pump_in i msg st = (case peer of None \<Rightarrow> st\<lparr>conns := cs\<rparr>
        | Some p \<Rightarrow> (case chan_send p (Frame b) cs of (True, cs) \<Rightarrow> st\<lparr>conns := cs\<rparr>
            | (False, cs) \<Rightarrow> teardown i (st\<lparr>conns := cs\<rparr>)))"
      unfolding pump_in_def Let_def cs_def peer_def Binary using True by simp
    show ?thesis
    proof (cases peer)
      case (Some p)
      obtain r ds where r: "chan_send p (Frame b) cs = (r, ds)" by fastforce
      have "net_ok offers (teardown i (st\<lparr>conns := ds\<rparr>))"
        using ok' [OF Some] r len [of p "Frame b" cs] \<open>i < length cs\<close> by (intro teardown_ok) auto
      then show ?thesis using eq Some r ok' [OF Some] by (cases r) simp_all
    qed (simp add: eq ok)
  qed (use assms True teardown_ok in \<open>auto simp: pump_in_def\<close>)
qed (use assms in \<open>auto simp: pump_in_def Let_def\<close>)

lemma vouch_ok:
  assumes "tunnel_ok offers cs tid t" and "peer_of (\<not> b) t = Some i" and "peer_of b t = Some j"
  shows "msg_ok cs (cs ! i) (Vouch (vouch_for b tid t))"
proof -
  have "i < length cs" "j < length cs" "opposite (cs ! i) (cs ! j)" "cn_tunnel (cs ! i) = tid" "cn_init (cs ! i) = b"
    "vc_name (vouch_for b tid t) = cn_name (cs ! j)" "vc_fingerprint (vouch_for b tid t) = cn_fp (cs ! j)"
    using assms
    by (cases b; simp add: tunnel_ok_def side_ok_def peer_of_def opposite_def vouch_for_def opt_str_def)+
  then show ?thesis by (auto simp: vouch_for_def intro!: bexI [of _ "cs ! j"])
qed

lemma party_unique:
  assumes "distinct (map fst offers)" and "is_party offers tid b name" and "(tid, off, target) \<in> set offers"
  shows "name = (if b then off else target)"
  using assms by (metis eq_key_imp_eq_value is_party_def prod.inject)

lemma register_ok:
  assumes "tunnel_ok offers cs tid t" and "distinct (map fst offers)" and "is_party offers tid (cn_init c) (cn_name c)"
    and "cn_tunnel c = tid"
  shows "tunnel_ok offers (cs @ [c]) tid (register_side (cn_init c) (cn_name c) (cn_fp c) (length cs) t)"
proof -
  have "tunnel_ok offers (cs @ [c]) tid t" by (rule tunnel_ok_mono [OF grows_append subset_refl assms(1)])
  moreover have "cn_name c = (if cn_init c then offerer_name t else target_name t)"
    using assms(1) by (intro party_unique [OF assms(2,3)]) (simp add: tunnel_ok_def)
  ultimately show ?thesis using assms(4)
    by (cases "cn_init c") (simp_all add: tunnel_ok_def register_side_def side_ok_def)
qed

lemma conns_ok_snoc:
  assumes "conns_ok offers cs" and "is_party offers (cn_tunnel c) (cn_init c) (cn_name c)" and "cn_queue c = []"
    and "cn_out c = []" and "\<And>p. cn_peer c = Some p \<Longrightarrow> p < length cs \<and> opposite c (cs ! p)"
  shows "conns_ok offers (cs @ [c])"
proof -
  have "conn_ok offers (cs @ [c]) d" if "d \<in> set cs" for d
    using assms(1) that by (intro conn_ok_mono [OF grows_append, of offers]) (simp_all add: conns_ok_def)
  moreover have "conn_ok offers (cs @ [c]) c"
    using assms(2-5) by (fastforce simp: conn_ok_def nth_append)
  ultimately show ?thesis by (auto simp: conns_ok_def)
qed

text \<open>Registering a connection \<open>c\<close> in the tunnel, with and without the peer present.\<close>

lemma hub_registered:
  assumes "hub_ok offers cs h" and "tunnel_ok offers (cs @ [c]) tid t" and "grows (cs @ [c]) ds"
  shows "hub_ok offers ds (AList.update tid t h)"
proof -
  have "hub_ok offers ds h"
    using assms(1) grows_trans [OF grows_append assms(3)] hub_ok_mono subset_refl by blast
  moreover have "tunnel_ok offers ds tid t" by (rule tunnel_ok_mono [OF assms(3) subset_refl assms(2)])
  ultimately show ?thesis using set_alist_update_subset [of tid t h] by (auto simp: hub_ok_def)
qed

lemma vouches_ok:
  assumes "conns_ok offers cs" and "tunnel_ok offers cs tid t" and "peer_of (\<not> b) t = Some me" and "peer_of b t = Some peer"
  shows "conns_ok offers (snd (chan_send peer (Vouch (vouch_for (\<not> b) tid t)) (snd (chan_send me (Vouch (vouch_for b tid t)) cs))))
    \<and> grows cs (snd (chan_send peer (Vouch (vouch_for (\<not> b) tid t)) (snd (chan_send me (Vouch (vouch_for b tid t)) cs))))"
    (is "conns_ok offers ?cs3 \<and> _")
proof -
  let ?cs2 = "snd (chan_send me (Vouch (vouch_for b tid t)) cs)"
  have c2: "conns_ok offers ?cs2 \<and> grows cs ?cs2"
    by (rule chan_send_ok [OF assms(1) vouch_ok [OF assms(2-4)]])
  then have "tunnel_ok offers ?cs2 tid t" using tunnel_ok_mono assms(2) subset_refl by blast
  then have "conns_ok offers ?cs3 \<and> grows ?cs2 ?cs3"
    using c2 assms(3,4) by (intro chan_send_ok vouch_ok) auto
  with c2 show ?thesis using grows_trans by blast
qed

lemma attach_ok:
  assumes "net_ok offers st" and "is_party offers tid b name" and "distinct (map fst offers)"
  shows "net_ok offers (tunnel_attach E app name tid b st)"
proof -
  let ?cs = "conns st" and ?me = "length (conns st)"
  define fp where "fp = opt_str (client_fingerprint E app name st)"
  define cn where "cn = (\<lambda>peer. \<lparr>cn_name = name, cn_fp = fp, cn_tunnel = tid, cn_init = b, cn_peer = peer,
                    cn_queue = [], cn_open = True, cn_live = True, cn_out = [], cn_in = []\<rparr>)"
  have cn: "cn_tunnel (cn x) = tid" "cn_init (cn x) = b" "cn_name (cn x) = name" "cn_fp (cn x) = fp" "cn_queue (cn x) = []"
    "cn_out (cn x) = []" "cn_peer (cn x) = x" for x
    by (simp_all add: cn_def)
  have n: "hub_ok offers ?cs (hub st)" "conns_ok offers ?cs" using assms(1) by (simp_all add: net_ok_def)
  have alone: "conns_ok offers (?cs @ [cn None])" using n(2) assms(2) by (intro conns_ok_snoc) (simp_all add: cn)
  note attach = tunnel_attach_def [of E app name tid b st, unfolded Let_def, folded fp_def]
  show ?thesis
  proof (cases "map_of (hub st) tid")
    case None
    have "net_ok offers (st\<lparr>conns := ?cs @ [cn None]\<rparr>)"
      using alone by (intro net_ok_update(2) [OF assms(1) _ subset_refl refl]) simp
    with None show ?thesis by (simp add: attach cn_def)
  next
    case (Some t0)
    define t where "t = register_side b name fp ?me t0"
    have t0: "tunnel_ok offers ?cs tid t0" using n(1) map_of_SomeD [OF Some] by (auto simp: hub_ok_def)
    have t: "tunnel_ok offers (?cs @ [cn x]) tid t" for x
      using register_ok [OF t0 assms(3), of "cn x"] assms(2) by (simp add: cn t_def)
    show ?thesis
    proof (cases "to_offerer t \<noteq> None \<and> to_answerer t \<noteq> None")
      case True
      then obtain peer where p: "peer_of b t = Some peer" by (cases b) (auto simp: peer_of_def)
      have p0: "peer_of b t0 = Some peer" "peer_of (\<not> b) t = Some ?me"
        using p by (auto simp: t_def register_side_def peer_of_def split: if_splits)
      then have "peer < ?me \<and> cn_tunnel (?cs ! peer) = tid \<and> cn_init (?cs ! peer) \<noteq> b"
        using t0 by (auto simp: tunnel_ok_def side_ok_def peer_of_def split: if_splits)
      then have "conns_ok offers (?cs @ [cn (Some peer)])"
        using n(2) assms(2) by (intro conns_ok_snoc) (auto simp: cn opposite_def)
      note v = vouches_ok [OF this t p0(2) p]
      show ?thesis
        using Some True p v hub_registered [OF n(1) t conjunct2 [OF v]]
        by (auto simp: attach cn_def net_ok_def t_def [symmetric])
    next
      case False
      then show ?thesis
        using Some alone hub_registered [OF n(1) t grows_refl]
        by (auto simp: attach cn_def net_ok_def t_def [symmetric] split: option.splits)
    qed
  qed
qed

definition relay_inv :: "relay_world \<Rightarrow> bool" where
  "relay_inv w \<longleftrightarrow> distinct (map fst (issued w)) \<and> (\<forall>(tid, off, target) \<in> set (issued w). off \<noteq> target)
     \<and> (\<forall>(name, tid, b) \<in> set (entering w). is_party (issued w) tid b name)
     \<and> net_ok (issued w) (srv w)"

lemma audit_relay [simp]:
  "hub (audit E app rq k c a r s m st) = hub st" "conns (audit E app rq k c a r s m st) = conns st"
  by (simp_all add: audit_def Let_def split: sum.splits)

lemma offer_ok:
  assumes "net_ok offers (st :: 'a relay_state_scheme)" and "offer_tunnel E app rq target c st = (Reply 201 (tid, target), st')"
  shows "net_ok ((tid, ac_name c, target) # offers) st' \<and> ac_name c \<noteq> target"
proof -
  let ?offers = "(tid, ac_name c, target) # offers"
  define kept where "kept = filter (\<lambda>(_, t). answerer_name t \<noteq> None \<or> now rq - tn_created t < OFFER_TTL) (hub st)"
  obtain fp where st': "ac_name c \<noteq> target" "conns st' = conns st"
      "hub st' = AList.update tid \<lparr>offerer_name = ac_name c, offerer_fp = fp, target_name = target, answerer_name = None,
        answerer_fp = None, to_offerer = None, to_answerer = None, tn_created = now rq\<rparr> kept"
    using assms(2) by (auto simp: offer_tunnel_def hub_offer_def Let_def kept_def split: if_splits option.splits)
  have kept: "set kept \<subseteq> set (hub st)" by (auto simp: kept_def)
  have "hub_ok ?offers (conns st) kept"
    using hub_ok_mono [OF grows_refl, of offers ?offers] hub_ok_subset [OF _ kept] assms(1) by (auto simp: net_ok_def)
  moreover have "conns_ok ?offers (conns st)"
    using assms(1) conn_ok_mono [OF grows_refl, of offers _ _ ?offers] by (auto simp: net_ok_def conns_ok_def)
  ultimately show ?thesis
    using st' set_alist_update_subset by (fastforce simp: net_ok_def hub_ok_def tunnel_ok_def side_ok_def)
qed

lemma role_party:
  assumes "tunnel_role name tid st = Some (Some b)" and "net_ok offers st"
    and "\<forall>(tid, off, target) \<in> set offers. off \<noteq> target"
  shows "is_party offers tid b name"
proof -
  obtain t where t: "map_of (hub st) tid = Some t" "name = (if b then offerer_name t else target_name t)"
    using assms(1) by (auto simp: tunnel_role_def split: option.splits if_splits)
  then have "(tid, offerer_name t, target_name t) \<in> set offers"
    using assms(2) map_of_SomeD [OF t(1)] by (auto simp: net_ok_def hub_ok_def tunnel_ok_def)
  with t(2) assms(3) show ?thesis unfolding is_party_def by fast
qed

lemma relay_step_inv:
  assumes "relay_step E app w w'" and "relay_inv w"
  shows "relay_inv w'"
  using assms
proof (cases rule: relay_step.cases)
  case (Offer rq target c tid st)
  then have "is_party ((tid, ac_name c, target) # issued w) t b n" if "is_party (issued w) t b n" for t b n
    using that unfolding is_party_def set_simps by blast
  then show ?thesis
    using Offer assms(2) offer_ok [of "issued w" "srv w" E app rq target c tid st] by (auto simp: relay_inv_def)
next
  case (Enter name tid b)
  then show ?thesis using assms(2) role_party [of name tid "srv w" b "issued w"] by (auto simp: relay_inv_def)
next
  case (Attach name tid b)
  then show ?thesis using assms(2) attach_ok [of "issued w" "srv w" tid b name] by (auto simp: relay_inv_def)
next
  case (Out i ok)
  then show ?thesis using assms(2) pump_out_ok [of "issued w" "srv w"] by (simp add: relay_inv_def)
next
  case (In i msg)
  then show ?thesis using assms(2) pump_in_ok [of "issued w" "srv w"] by (simp add: relay_inv_def)
next
  case (End i)
  then show ?thesis using assms(2) teardown_ok [of "issued w" "srv w"] by (auto simp: relay_inv_def stream_end_def)
next
  case (Other st)
  then show ?thesis using assms(2) by (simp add: relay_inv_def net_ok_def)
qed

interpretation relay: step_invariant "relay_step E app" relay_inv for E app
  by unfold_locales (rule relay_step_inv)

text \<open>The connections and the tunnel after both parties of a fresh offer have attached.\<close>

definition new_conn :: "string \<Rightarrow> string \<Rightarrow> string \<Rightarrow> bool \<Rightarrow> nat option \<Rightarrow> relay_msg list \<Rightarrow> conn" where
  "new_conn name fp tid b peer q = \<lparr>cn_name = name, cn_fp = fp, cn_tunnel = tid, cn_init = b, cn_peer = peer, cn_queue = q,
      cn_open = True, cn_live = True, cn_out = [], cn_in = []\<rparr>"

lemma first_attached:
  assumes "map_of (hub st) tid = Some t" and "to_offerer t = None" and "to_answerer t = None"
    and "client_fingerprint E app na st = Some fpa"
  shows "tunnel_attach E app na tid True st = st\<lparr>hub := AList.update tid
      (t\<lparr>offerer_name := na, offerer_fp := fpa, to_offerer := Some (length (conns st))\<rparr>) (hub st),
      conns := conns st @ [new_conn na fpa tid True None []]\<rparr>"
  using assms by (simp add: tunnel_attach_def Let_def register_side_def opt_str_def peer_of_def new_conn_def)

lemma pair_attached:
  assumes "map_of (hub st) tid = Some t" and "to_offerer t = None" and "to_answerer t = None"
    and "client_fingerprint E app na st = Some fpa" and "client_fingerprint E app nb st = Some fpb"
  defines "st2 \<equiv> tunnel_attach E app nb tid False (tunnel_attach E app na tid True st)"
  shows "map_of (hub st2) tid = Some (t\<lparr>offerer_name := na, offerer_fp := fpa, to_offerer := Some (length (conns st)),
      answerer_name := Some nb, answerer_fp := Some fpb, to_answerer := Some (Suc (length (conns st)))\<rparr>)"
    and "conns st2 = conns st
      @ [new_conn na fpa tid True None
          [Vouch \<lparr>you_are_initiator = True, vc_tunnel = tid, vc_name = nb, vc_fingerprint = fpb\<rparr>],
         new_conn nb fpb tid False (Some (length (conns st)))
          [Vouch \<lparr>you_are_initiator = False, vc_tunnel = tid, vc_name = na, vc_fingerprint = fpa\<rparr>]]"
proof -
  note st1 = first_attached [OF assms(1-4)]
  have fpb: "client_fingerprint E app nb (st\<lparr>hub := h, conns := cs\<rparr>) = Some fpb" for h cs
    using assms(5) by (simp add: client_fingerprint_def active_client_def)
  show "map_of (hub st2) tid = Some (t\<lparr>offerer_name := na, offerer_fp := fpa, to_offerer := Some (length (conns st)),
      answerer_name := Some nb, answerer_fp := Some fpb, to_answerer := Some (Suc (length (conns st)))\<rparr>)"
    unfolding st2_def st1 by (simp add: tunnel_attach_def Let_def register_side_def opt_str_def peer_of_def fpb update_conv)
  show "conns st2 = conns st
      @ [new_conn na fpa tid True None
          [Vouch \<lparr>you_are_initiator = True, vc_tunnel = tid, vc_name = nb, vc_fingerprint = fpb\<rparr>],
         new_conn nb fpb tid False (Some (length (conns st)))
          [Vouch \<lparr>you_are_initiator = False, vc_tunnel = tid, vc_name = na, vc_fingerprint = fpa\<rparr>]]"
    unfolding st2_def st1 by (simp add: tunnel_attach_def Let_def register_side_def opt_str_def peer_of_def chan_send_def
        vouch_for_def new_conn_def update_conv nth_append list_update_append fpb)
qed

section \<open>Properties\<close>

text \<open>
  C15. The relay introduces and connects the two parties of an offer and nobody else, in every
  interleaving of handlers and pump tasks: a message that waits for or has reached a connection
  belongs to a tunnel that some client offered to another, the connection is one of these two
  clients, a vouch carries the name and the recorded fingerprint of a connection of the other
  one, with the right role, and a frame is one that a connection of the other one has sent.
\<close>

theorem relay_introduces:
  assumes "relay_start w0" and "rtranclp (relay_step E app) w0 w"
    and "c \<in> set (conns (srv w))" and "m \<in> set (cn_queue c @ cn_out c)"
  shows "\<exists>off target. (cn_tunnel c, off, target) \<in> set (issued w) \<and> off \<noteq> target
    \<and> cn_name c = (if cn_init c then off else target)
    \<and> (case m of
         Vouch v \<Rightarrow> you_are_initiator v = cn_init c \<and> vc_tunnel v = cn_tunnel c
           \<and> vc_name v = (if cn_init c then target else off)
           \<and> (\<exists>d \<in> set (conns (srv w)). opposite c d \<and> cn_name d = vc_name v \<and> cn_fp d = vc_fingerprint v)
       | Frame b \<Rightarrow> \<exists>d \<in> set (conns (srv w)). opposite c d \<and> cn_name d = (if cn_init c then target else off)
           \<and> b \<in> set (cn_in d)
       | PeerGone \<Rightarrow> True)"
proof -
  have "relay_inv w0" using assms(1) by (simp add: relay_start_def relay_inv_def net_ok_def hub_ok_def conns_ok_def)
  then have inv: "relay_inv w" by (rule relay.steps_keep [OF assms(2)])
  then have ok: "conn_ok (issued w) (conns (srv w)) d" if "d \<in> set (conns (srv w))" for d
    using that by (simp add: relay_inv_def net_ok_def conns_ok_def)
  obtain off target where o: "(cn_tunnel c, off, target) \<in> set (issued w)" "off \<noteq> target"
      "cn_name c = (if cn_init c then off else target)"
    using ok [OF assms(3)] by (auto simp: conn_ok_def is_party_def)
  have d: "cn_name d = (if cn_init c then target else off)" if "d \<in> set (conns (srv w))" "opposite c d" for d
    using party_unique [of "issued w" "cn_tunnel d" "cn_init d" "cn_name d" off target] ok [OF that(1)] that(2) o inv
    by (auto simp: conn_ok_def opposite_def relay_inv_def)
  have "msg_ok (conns (srv w)) c m" using ok [OF assms(3)] assms(4) by (simp add: conn_ok_def)
  with o d show ?thesis by (cases m) (fastforce)+
qed

text \<open>
  Pairing: when the two parties of a fresh offer connect one after the other, each finds in
  its queue one vouch with the other's name and current fingerprint, the offerer as the
  initiator, and from then on a frame sent by either side is queued for the other.
\<close>

theorem relay_pairs:
  assumes "map_of (hub st) tid = Some t" and "to_offerer t = None" and "to_answerer t = None"
    and "offerer_name t = ac_name a" and "target_name t = ac_name b" and "ac_name a \<noteq> ac_name b"
    and "tunnel_ws E app True tid a st = (r1, st1)" and "tunnel_ws E app True tid b st1 = (r2, st2)"
    and "client_fingerprint E app (ac_name a) st = Some fpa" and "client_fingerprint E app (ac_name b) st = Some fpb"
    and "i = length (conns st)"
    and "va = Vouch \<lparr>you_are_initiator = True, vc_tunnel = tid, vc_name = ac_name b, vc_fingerprint = fpb\<rparr>"
    and "vb = Vouch \<lparr>you_are_initiator = False, vc_tunnel = tid, vc_name = ac_name a, vc_fingerprint = fpa\<rparr>"
  shows "r1 = Reply 101 () \<and> r2 = Reply 101 ()
    \<and> cn_queue (conns st2 ! i) = [va] \<and> cn_queue (conns st2 ! Suc i) = [vb]
    \<and> cn_queue (conns (pump_in i (Binary f) st2) ! Suc i) = [vb, Frame f]
    \<and> cn_queue (conns (pump_in (Suc i) (Binary f) st2) ! i) = [va, Frame f]"
proof -
  have st1: "r1 = Reply 101 ()" "st1 = tunnel_attach E app (ac_name a) tid True st"
    using assms(1,4,7) by (auto simp: tunnel_ws_def tunnel_role_def)
  have "tunnel_role (ac_name b) tid st1 = Some (Some False)"
    using assms(5,6) by (simp add: st1(2) first_attached [OF assms(1-3,9)] tunnel_role_def update_conv)
  then have st2: "r2 = Reply 101 ()" "st2 = tunnel_attach E app (ac_name b) tid False st1"
    using assms(8) by (auto simp: tunnel_ws_def)
  show ?thesis
    using assms(11) st1(1) st2(1) pair_attached [OF assms(1-3,9,10), folded st1(2), folded st2(2)]
    by (simp add: pump_in_def Let_def hub_peer_def peer_of_def chan_send_def new_conn_def nth_append list_update_append assms(12,13))
qed

section \<open>Witnesses\<close>

definition demo_party :: "string \<Rightarrow> string \<Rightarrow> client_row" where
  "demo_party name fp = \<lparr>cl_id = name, cl_name_enc = [], cl_name_id = client_name_id_hex demo_ext (name_index_key demo_app) name,
     cl_token_hash = name, cl_role = ''user'', cl_created = 0, cl_revoked = None, cl_expires = None,
     cl_fingerprint = Some fp, cl_totp_enc = None, cl_totp_enrolled = False\<rparr>"

definition relay_demo :: relay_state where
  "relay_demo = \<lparr>audit_log = [], audit_next = 1, anchors = [], archive_files = [], clients = [demo_party ''alice'' ''fa'',
     demo_party ''bob'' ''fb''], domains = [], members = [], hub = [], conns = []\<rparr>"

definition relay_alice :: authenticated_client where
  "relay_alice = \<lparr>ac_id = ''alice'', ac_name = ''alice'', ac_role = ''user'', ac_method = MutualTlsAndToken\<rparr>"

definition relay_bob :: authenticated_client where
  "relay_bob = \<lparr>ac_id = ''bob'', ac_name = ''bob'', ac_role = ''user'', ac_method = MutualTlsAndToken\<rparr>"

lemma demo_fingerprints:
  assumes "clients st = [demo_party ''alice'' ''fa'', demo_party ''bob'' ''fb'']"
  shows "client_fingerprint demo_ext demo_app ''alice'' st = Some ''fa''"
    "client_fingerprint demo_ext demo_app ''bob'' st = Some ''fb''"
proof -
  have "client_name_id_hex demo_ext (name_index_key demo_app) ''alice'' \<noteq> client_name_id_hex demo_ext (name_index_key demo_app) ''bob''"
    by code_simp
  then show "client_fingerprint demo_ext demo_app ''alice'' st = Some ''fa''"
    "client_fingerprint demo_ext demo_app ''bob'' st = Some ''fb''"
    by (simp_all add: client_fingerprint_def active_client_def assms demo_party_def)
qed

lemma demo_offer:
  "\<exists>st t. offer_tunnel demo_ext demo_app (demo_rq 5) ''bob'' relay_alice relay_demo = (Reply 201 (str_of (zeros 16), ''bob''), st)
    \<and> map_of (hub st) (str_of (zeros 16)) = Some t \<and> offerer_name t = ''alice'' \<and> target_name t = ''bob''
    \<and> to_offerer t = None \<and> to_answerer t = None \<and> conns st = [] \<and> clients st = clients relay_demo"
proof -
  have "hex_encode demo_ext (rand (demo_rq 5) 0 16) = str_of (zeros 16)"
    by (simp add: demo_ext_def rand_def demo_rq_def zeros_def)
  moreover have "trim ''bob'' \<noteq> []" by code_simp
  ultimately show ?thesis
    using demo_fingerprints [of relay_demo]
    by (simp add: offer_tunnel_def relay_alice_def hub_offer_def Let_def relay_demo_def)
qed

theorem relay_pairs_witness:
  "\<exists>(st :: relay_state) st1 st2. tunnel_ws demo_ext demo_app True (str_of (zeros 16)) relay_alice st = (Reply 101 (), st1)
    \<and> tunnel_ws demo_ext demo_app True (str_of (zeros 16)) relay_bob st1 = (Reply 101 (), st2)
    \<and> cn_queue (conns st2 ! 0) = [Vouch \<lparr>you_are_initiator = True, vc_tunnel = str_of (zeros 16), vc_name = ''bob'', vc_fingerprint = ''fb''\<rparr>]"
proof -
  let ?t = "str_of (zeros 16)"
  obtain t and st :: relay_state where st: "map_of (hub st) ?t = Some t" "offerer_name t = ''alice''" "target_name t = ''bob''"
      "to_offerer t = None" "to_answerer t = None" "conns st = []" "clients st = clients relay_demo"
    using demo_offer by blast
  obtain r1 st1 where st1: "tunnel_ws demo_ext demo_app True ?t relay_alice st = (r1, st1)" by fastforce
  obtain r2 st2 where st2: "tunnel_ws demo_ext demo_app True ?t relay_bob st1 = (r2, st2)" by fastforce
  note f = demo_fingerprints [OF st(7) [unfolded relay_demo_def, simplified]]
  have "ac_name relay_alice = ''alice''" "ac_name relay_bob = ''bob''" by (simp_all add: relay_alice_def relay_bob_def)
  with relay_pairs [OF st(1,4,5) _ _ _ st1 st2 _ _ refl refl refl, of "''fa''" "''fb''" "[]"] st(2,3,6) f
  have "r1 = Reply 101 () \<and> r2 = Reply 101 () \<and> cn_queue (conns st2 ! 0) = [Vouch \<lparr>you_are_initiator = True,
      vc_tunnel = ?t, vc_name = ''bob'', vc_fingerprint = ''fb''\<rparr>]"
    by simp
  with st1 st2 show ?thesis by blast
qed

theorem relay_introduces_witness:
  "\<exists>w v off target. rtranclp (relay_step demo_ext demo_app) \<lparr>srv = relay_demo, issued = [], entering = []\<rparr> w
    \<and> length (conns (srv w)) = 2 \<and> Vouch v \<in> set (cn_queue (conns (srv w) ! 0))
    \<and> (cn_tunnel (conns (srv w) ! 0), off, target) \<in> set (issued w) \<and> off \<noteq> target \<and> vc_name v = target"
proof -
  let ?t = "str_of (zeros 16)"
  let ?w0 = "\<lparr>srv = relay_demo, issued = [], entering = []\<rparr>"
  let ?step = "relay_step demo_ext demo_app"
  obtain st t where st: "offer_tunnel demo_ext demo_app (demo_rq 5) ''bob'' relay_alice relay_demo = (Reply 201 (?t, ''bob''), st)"
      "map_of (hub st) ?t = Some t" "offerer_name t = ''alice''" "target_name t = ''bob''"
      "to_offerer t = None" "to_answerer t = None" "conns st = []" "clients st = clients relay_demo"
    using demo_offer by blast
  let ?st2 = "tunnel_attach demo_ext demo_app ''bob'' ?t False (tunnel_attach demo_ext demo_app ''alice'' ?t True st)"
  let ?en = "[(''bob'', ?t, False), (''alice'', ?t, True)]"
  let ?is = "[(?t, ''alice'', ''bob'')]"
  have s1: "?step ?w0 \<lparr>srv = st, issued = ?is, entering = []\<rparr>"
    using Offer [of demo_ext demo_app "demo_rq 5" "''bob''" relay_alice ?w0 ?t st] st(1) by (simp add: relay_alice_def)
  have s2: "?step \<lparr>srv = st, issued = ?is, entering = []\<rparr> \<lparr>srv = st, issued = ?is, entering = [(''alice'', ?t, True)]\<rparr>"
    using Enter [of "''alice''" ?t "\<lparr>srv = st, issued = ?is, entering = []\<rparr>" True demo_ext demo_app] st
    by (simp add: tunnel_role_def)
  have s3: "?step \<lparr>srv = st, issued = ?is, entering = [(''alice'', ?t, True)]\<rparr> \<lparr>srv = st, issued = ?is, entering = ?en\<rparr>"
    using Enter [of "''bob''" ?t "\<lparr>srv = st, issued = ?is, entering = [(''alice'', ?t, True)]\<rparr>" False demo_ext demo_app] st
    by (simp add: tunnel_role_def)
  have s4: "?step \<lparr>srv = st, issued = ?is, entering = ?en\<rparr>
      \<lparr>srv = tunnel_attach demo_ext demo_app ''alice'' ?t True st, issued = ?is, entering = ?en\<rparr>"
    using Attach [of "''alice''" ?t True "\<lparr>srv = st, issued = ?is, entering = ?en\<rparr>" demo_ext demo_app] by simp
  have s5: "?step \<lparr>srv = tunnel_attach demo_ext demo_app ''alice'' ?t True st, issued = ?is, entering = ?en\<rparr>
      \<lparr>srv = ?st2, issued = ?is, entering = ?en\<rparr>"
    using Attach [of "''bob''" ?t False "\<lparr>srv = tunnel_attach demo_ext demo_app ''alice'' ?t True st, issued = ?is, entering = ?en\<rparr>"
        demo_ext demo_app] by simp
  have run: "rtranclp ?step ?w0 \<lparr>srv = ?st2, issued = ?is, entering = ?en\<rparr>"
    using s1 s2 s3 s4 s5 by (meson converse_rtranclp_into_rtranclp rtranclp.rtrancl_refl)
  have c: "conns ?st2 ! 0 \<in> set (conns ?st2)" "length (conns ?st2) = 2"
    "Vouch \<lparr>you_are_initiator = True, vc_tunnel = ?t, vc_name = ''bob'', vc_fingerprint = ''fb''\<rparr>
      \<in> set (cn_queue (conns ?st2 ! 0) @ cn_out (conns ?st2 ! 0))"
    "cn_out (conns ?st2 ! 0) = []" "cn_init (conns ?st2 ! 0)"
    using pair_attached(2) [OF st(2,5,6), of demo_ext demo_app "''alice''" "''fa''" "''bob''" "''fb''"] demo_fingerprints [of st] st(7,8)
    by (simp_all add: relay_demo_def new_conn_def)
  have "relay_start ?w0" by (simp add: relay_start_def relay_demo_def)
  from relay_introduces [OF this run, of "conns ?st2 ! 0", OF _ c(3)] c(1,5)
  have "\<exists>off target. (cn_tunnel (conns ?st2 ! 0), off, target) \<in> set ?is \<and> off \<noteq> target \<and> ''bob'' = target"
    by (simp only: relay_world.simps relay_msg.case vouch.simps if_True) metis
  with run c show ?thesis
    by (intro exI [of _ "\<lparr>srv = ?st2, issued = ?is, entering = ?en\<rparr>"] exI
        [of _ "\<lparr>you_are_initiator = True, vc_tunnel = ?t, vc_name = ''bob'', vc_fingerprint = ''fb''\<rparr>"]) simp
qed

end
