(* ===== verification/Crypto_Ops.thy ===== *)
theory Crypto_Ops
  imports "HOL-Library.AList" Blackbook_Core
begin

text \<open>
  The cryptographic operations offered to users (\<open>src/crypto_ops.rs\<close>): key types and hash
  algorithms by name, the versioned text of managed-key output, the local envelopes, signed
  tokens, and the text formats of local keys. The lemmas show that every format reads back what
  was written, and what an accepted token guarantees. Messages of errors are dropped, their
  causes are the constructors of \<open>ops_error\<close>.
\<close>

section \<open>Third-party code\<close>

text \<open>
  JSON values, an object as its members; \<open>Number\<close> is a number with an \<open>i64\<close> value, \<open>OtherNumber\<close>
  any other number.
\<close>

datatype json = JNull | JBool bool | Number int | OtherNumber string | JString string
  | JArray "json list" | JObject "(string \<times> json) list"

type_synonym claims = "(string \<times> json) list"

datatype hash_alg = Sha3_256 | Sha3_512 | Sha256 | Sha512

text \<open>
  \<^item> \<open>hash_of\<close>: crates sha2 and sha3; \<open>hmac_of alg key data\<close>: crate hmac.
  \<^item> \<open>b64url_decode\<close>: crate base64, URL-safe without padding.
  \<^item> \<open>json_print\<close>, \<open>json_pretty\<close>, \<open>json_parse\<close>: \<open>to_vec\<close>, \<open>to_string_pretty\<close> and \<open>from_slice\<close> of crate
    serde_json on values.
  \<^item> \<open>argon2id m t p pass salt\<close>: 32 bytes of crate argon2; \<open>hkdf_unsalted ikm info len\<close>: crate hkdf.
\<close>

record ops_ext =
  hash_of :: "hash_alg \<Rightarrow> bytes \<Rightarrow> bytes"
  hmac_of :: "hash_alg \<Rightarrow> bytes \<Rightarrow> bytes \<Rightarrow> bytes"
  b64url_decode :: "string \<Rightarrow> bytes option"
  json_print :: "json \<Rightarrow> bytes"
  json_pretty :: "json \<Rightarrow> string"
  json_parse :: "bytes \<Rightarrow> json option"
  argon2id :: "nat \<Rightarrow> nat \<Rightarrow> nat \<Rightarrow> bytes \<Rightarrow> bytes \<Rightarrow> bytes option"
  hkdf_unsalted :: "bytes \<Rightarrow> bytes \<Rightarrow> nat \<Rightarrow> bytes"
  ed_verify_strict :: "bytes \<Rightarrow> bytes \<Rightarrow> bytes \<Rightarrow> bool"

section \<open>Key types\<close>

datatype ops_error = UnknownKeyType | UnknownAlgorithm | UnknownEncoding | BadMaterial | BadSeed | NotVersioned
  | NotEnvelope | EnvelopeBase64 | BadEnvelope | OpenFailed | SealFailed | KdfFailed | WrappedTooLong
  | BadTtl | NegativeNotBefore | MalformedToken | AlgorithmMismatch | BadSignature | MalformedClaim | TokenExpired
  | TokenNotYet | AudienceMismatch | BadKeyFile | BadPem | BadTag | BadKid

type_synonym 'a ops_result = "ops_error + 'a"

definition KEY_LEN :: nat where
  "KEY_LEN = 32"

datatype key_type = Aes256Gcm | Ed25519 | Hmac

definition parse_key_type :: "string \<Rightarrow> key_type ops_result" where
  "parse_key_type s =
     (let l = to_ascii_lowercase s
      in if l \<in> set [''aes256-gcm'', ''aes-256-gcm'', ''aes256'', ''aes''] then Inr Aes256Gcm
         else if l = ''ed25519'' then Inr Ed25519
         else if l = ''hmac'' then Inr Hmac
         else Inl UnknownKeyType)"

fun key_type_str :: "key_type \<Rightarrow> string" where
  "key_type_str Aes256Gcm = ''aes256-gcm''"
| "key_type_str Ed25519 = ''ed25519''"
| "key_type_str Hmac = ''hmac''"

definition check_material :: "key_type \<Rightarrow> bytes \<Rightarrow> unit ops_result" where
  "check_material t material = (if length material \<noteq> KEY_LEN then Inl BadMaterial else Inr ())"

definition ed25519_public :: "ext \<Rightarrow> bytes \<Rightarrow> bytes ops_result" where
  "ed25519_public E sd = (if length sd \<noteq> 32 then Inl BadSeed else Inr (ed_public E sd))"

definition ed25519_sign :: "ext \<Rightarrow> bytes \<Rightarrow> bytes \<Rightarrow> bytes ops_result" where
  "ed25519_sign E sd msg = (if length sd \<noteq> 32 then Inl BadSeed else Inr (ed_sign E sd msg))"

definition ed25519_verify :: "ext \<Rightarrow> ops_ext \<Rightarrow> bytes \<Rightarrow> bytes \<Rightarrow> bytes \<Rightarrow> bool" where
  "ed25519_verify E K public msg sig =
     (ed_point E public \<and> length sig = 64 \<and> ed_verify_strict K public msg sig)"

definition public_key :: "ext \<Rightarrow> key_type \<Rightarrow> bytes \<Rightarrow> bytes option" where
  "public_key E t material = (case t of
      Ed25519 \<Rightarrow> (case ed25519_public E material of Inr p \<Rightarrow> Some p | Inl e \<Rightarrow> None)
    | _ \<Rightarrow> None)"

section \<open>Hashes\<close>

definition parse_hash_alg :: "string \<Rightarrow> hash_alg ops_result" where
  "parse_hash_alg s =
     (let l = to_ascii_lowercase s
      in if l \<in> set [''sha3-256'', ''sha3_256'', ''sha3''] then Inr Sha3_256
         else if l \<in> set [''sha3-512'', ''sha3_512''] then Inr Sha3_512
         else if l \<in> set [''sha256'', ''sha-256'', ''sha2-256''] then Inr Sha256
         else if l \<in> set [''sha512'', ''sha-512'', ''sha2-512''] then Inr Sha512
         else Inl UnknownAlgorithm)"

fun hash_alg_str :: "hash_alg \<Rightarrow> string" where
  "hash_alg_str Sha3_256 = ''sha3-256''"
| "hash_alg_str Sha3_512 = ''sha3-512''"
| "hash_alg_str Sha256 = ''sha256''"
| "hash_alg_str Sha512 = ''sha512''"

definition digest :: "ops_ext \<Rightarrow> hash_alg \<Rightarrow> bytes \<Rightarrow> bytes" where
  "digest K alg data = hash_of K alg data"

definition hmac :: "ops_ext \<Rightarrow> hash_alg \<Rightarrow> bytes \<Rightarrow> bytes \<Rightarrow> bytes" where
  "hmac K alg key data = hmac_of K alg key data"

text \<open>\<open>verify_slice\<close> compares the whole tag.\<close>

definition hmac_verify :: "ops_ext \<Rightarrow> hash_alg \<Rightarrow> bytes \<Rightarrow> bytes \<Rightarrow> bytes \<Rightarrow> bool" where
  "hmac_verify K alg key data tag = (tag = hmac_of K alg key data)"

section \<open>Managed-key output\<close>

definition MANAGED_PREFIX :: string where
  "MANAGED_PREFIX = ''bbk:v''"

text \<open>\<open>str::parse::<i32>\<close>: an optional sign and at least one digit, in range.\<close>

definition parse_i32 :: "string \<Rightarrow> int option" where
  "parse_i32 s =
     (let (neg, d) = (case s of
            c # r \<Rightarrow> if c = CHR ''-'' then (True, r) else if c = CHR ''+'' then (False, r) else (False, s)
          | [] \<Rightarrow> (False, []));
          v = (if neg then - int (digits_val d) else int (digits_val d))
      in if d \<noteq> [] \<and> list_all is_digit d \<and> in_i32 v then Some v else None)"

definition versioned :: "ext \<Rightarrow> int \<Rightarrow> bytes \<Rightarrow> string" where
  "versioned E version b = MANAGED_PREFIX @ show_int version @ '':'' @ b64_encode E b"

definition parse_versioned :: "ext \<Rightarrow> string \<Rightarrow> (int \<times> bytes) ops_result" where
  "parse_versioned E s =
     and_then (ok_or NotVersioned (strip_prefix MANAGED_PREFIX (trim s))) (\<lambda>rest.
     and_then (ok_or NotVersioned (split_once CHR '':'' rest)) (\<lambda>(ver, body).
     and_then (ok_or NotVersioned (parse_i32 ver)) (\<lambda>ver.
       if ver < 1 then Inl NotVersioned
       else and_then (ok_or NotVersioned (b64_decode E body)) (\<lambda>b. Inr (ver, b)))))"

section \<open>Local envelopes\<close>

definition DATAKEY_PREFIX :: string where "DATAKEY_PREFIX = ''bbkd1:''"
definition PASSPHRASE_PREFIX :: string where "PASSPHRASE_PREFIX = ''bbkx1:''"
definition CMK_PREFIX :: string where "CMK_PREFIX = ''bbkc1:''"
definition RAWKEY_PREFIX :: string where "RAWKEY_PREFIX = ''bbkk1:''"
definition DATAKEY_MAGIC :: bytes where "DATAKEY_MAGIC = as_bytes ''BBKD1''"
definition PASSPHRASE_MAGIC :: bytes where "PASSPHRASE_MAGIC = as_bytes ''BBKX1''"
definition PASSPHRASE_SALT_LEN :: nat where "PASSPHRASE_SALT_LEN = 16"

datatype envelope_kind = ManagedKind | DataKeyKind | PassphraseKind | CmkKind | RawKeyKind

definition trim_start :: "string \<Rightarrow> string" where
  "trim_start s = concat (dropWhile is_whitespace (chars s))"

definition detect :: "string \<Rightarrow> envelope_kind option" where
  "detect text_s =
     (let s = trim_start text_s
      in if starts_with MANAGED_PREFIX s then Some ManagedKind
         else if starts_with DATAKEY_PREFIX s then Some DataKeyKind
         else if starts_with PASSPHRASE_PREFIX s then Some PassphraseKind
         else if starts_with CMK_PREFIX s then Some CmkKind
         else if starts_with RAWKEY_PREFIX s then Some RawKeyKind
         else None)"

definition strip_b64 :: "ext \<Rightarrow> string \<Rightarrow> string \<Rightarrow> bytes ops_result" where
  "strip_b64 E s pre =
     and_then (ok_or NotEnvelope (strip_prefix pre (trim s))) (\<lambda>body. ok_or EnvelopeBase64 (b64_decode E body))"

text \<open>\<open>map_err\<close>.\<close>

definition map_err :: "'e \<Rightarrow> 'd + 'a \<Rightarrow> 'e + 'a" where
  "map_err e r = (case r of Inl _ \<Rightarrow> Inl e | Inr x \<Rightarrow> Inr x)"

definition argon2_key :: "ops_ext \<Rightarrow> string \<Rightarrow> bytes \<Rightarrow> bytes ops_result" where
  "argon2_key K passphrase salt = ok_or KdfFailed (argon2id K (64 * 1024) 3 1 (as_bytes passphrase) salt)"

definition passphrase_seal ::
    "ext \<Rightarrow> ops_ext \<Rightarrow> bytes \<Rightarrow> bytes \<Rightarrow> bytes \<Rightarrow> string \<Rightarrow> bytes \<Rightarrow> string ops_result" where
  "passphrase_seal E K salt nonce plaintext passphrase aad =
     and_then (argon2_key K passphrase salt) (\<lambda>key.
     and_then (map_err SealFailed (aead_seal_aad E nonce plaintext key aad)) (\<lambda>sealed.
       Inr (PASSPHRASE_PREFIX @ b64_encode E (PASSPHRASE_MAGIC @ salt @ sealed))))"

definition passphrase_open :: "ext \<Rightarrow> ops_ext \<Rightarrow> string \<Rightarrow> string \<Rightarrow> bytes \<Rightarrow> bytes ops_result" where
  "passphrase_open E K envelope passphrase aad =
     and_then (strip_b64 E envelope PASSPHRASE_PREFIX) (\<lambda>buf.
       let mlen = length PASSPHRASE_MAGIC; mn = mlen + PASSPHRASE_SALT_LEN
       in if length buf \<le> mn \<or> take mlen buf \<noteq> PASSPHRASE_MAGIC then Inl BadEnvelope
          else
            and_then (argon2_key K passphrase (take PASSPHRASE_SALT_LEN (drop mlen buf))) (\<lambda>key.
              map_err OpenFailed (aead_open_aad E (drop mn buf) key aad)))"

definition cmk_subkey :: "ops_ext \<Rightarrow> bytes \<Rightarrow> string \<Rightarrow> bytes" where
  "cmk_subkey K cmk purpose = hkdf_unsalted K cmk (as_bytes (''blackbook/crypto/cmk/'' @ purpose @ ''/v1'')) 32"

definition cmk_seal :: "ext \<Rightarrow> ops_ext \<Rightarrow> bytes \<Rightarrow> bytes \<Rightarrow> bytes \<Rightarrow> bytes \<Rightarrow> string ops_result" where
  "cmk_seal E K nonce plaintext cmk aad =
     and_then (map_err SealFailed (aead_seal_aad E nonce plaintext (cmk_subkey K cmk ''encrypt'') aad)) (\<lambda>sealed.
       Inr (CMK_PREFIX @ b64_encode E sealed))"

definition cmk_open :: "ext \<Rightarrow> ops_ext \<Rightarrow> string \<Rightarrow> bytes \<Rightarrow> bytes \<Rightarrow> bytes ops_result" where
  "cmk_open E K envelope cmk aad =
     and_then (strip_b64 E envelope CMK_PREFIX) (\<lambda>buf.
       map_err OpenFailed (aead_open_aad E buf (cmk_subkey K cmk ''encrypt'') aad))"

definition rawkey_seal :: "ext \<Rightarrow> bytes \<Rightarrow> bytes \<Rightarrow> bytes \<Rightarrow> bytes \<Rightarrow> string ops_result" where
  "rawkey_seal E nonce plaintext key aad =
     and_then (map_err SealFailed (aead_seal_aad E nonce plaintext key aad)) (\<lambda>sealed.
       Inr (RAWKEY_PREFIX @ b64_encode E sealed))"

definition rawkey_open :: "ext \<Rightarrow> string \<Rightarrow> bytes \<Rightarrow> bytes \<Rightarrow> bytes ops_result" where
  "rawkey_open E envelope key aad =
     and_then (strip_b64 E envelope RAWKEY_PREFIX) (\<lambda>buf. map_err OpenFailed (aead_open_aad E buf key aad))"

definition datakey_seal :: "ext \<Rightarrow> bytes \<Rightarrow> bytes \<Rightarrow> bytes \<Rightarrow> string \<Rightarrow> bytes \<Rightarrow> string ops_result" where
  "datakey_seal E nonce plaintext dek wrapped_s aad =
     (let w = as_bytes wrapped_s
      in if length w \<ge> 2 ^ 16 then Inl WrappedTooLong
         else and_then (map_err SealFailed (aead_seal_aad E nonce plaintext dek aad)) (\<lambda>sealed.
           Inr (DATAKEY_PREFIX @ b64_encode E (DATAKEY_MAGIC @ be_bytes 2 (length w) @ w @ sealed))))"

definition datakey_parse :: "ext \<Rightarrow> string \<Rightarrow> (string \<times> bytes) ops_result" where
  "datakey_parse E envelope =
     and_then (strip_b64 E envelope DATAKEY_PREFIX) (\<lambda>buf.
       let m = length DATAKEY_MAGIC; start = m + 2
       in if length buf < m + 2 \<or> take m buf \<noteq> DATAKEY_MAGIC then Inl BadEnvelope
          else let len = of_be (take 2 (drop m buf))
            in if length buf < start + len then Inl BadEnvelope
               else and_then (ok_or BadEnvelope (from_utf8 (take len (drop start buf)))) (\<lambda>wrapped_s.
                 Inr (wrapped_s, drop (start + len) buf)))"

definition datakey_open :: "ext \<Rightarrow> bytes \<Rightarrow> bytes \<Rightarrow> bytes \<Rightarrow> bytes ops_result" where
  "datakey_open E sealed dek aad = map_err OpenFailed (aead_open_aad E sealed dek aad)"

section \<open>Tokens\<close>

definition TOKEN_MAX_TTL_SECS :: int where "TOKEN_MAX_TTL_SECS = 10 * 365 * 24 * 3600"
definition TOKEN_LEEWAY_SECS :: int where "TOKEN_LEEWAY_SECS = 60"

datatype token_signer = SignEd25519 bytes | SignHmac bytes

datatype token_verifier = VerifyEd25519 bytes | VerifyHmac bytes

fun verifier_alg :: "token_verifier \<Rightarrow> string" where
  "verifier_alg (VerifyEd25519 _) = ''EdDSA''"
| "verifier_alg (VerifyHmac _) = ''HS256''"

record token_request =
  tr_claims :: claims
  tr_subject :: "string option"
  tr_audience :: "string option"
  tr_issuer :: "string option"
  tr_ttl :: int
  tr_not_before :: "int option"

text \<open>\<open>i64\<close> addition, which wraps around in a release build.\<close>

definition add_i64 :: "int \<Rightarrow> int \<Rightarrow> int" where
  "add_i64 a b = (a + b + 2 ^ 63) mod 2 ^ 64 - 2 ^ 63"

definition insert_opt :: "string \<Rightarrow> string option \<Rightarrow> claims \<Rightarrow> claims" where
  "insert_opt k v c = (case v of None \<Rightarrow> c | Some s \<Rightarrow> AList.update k (JString s) c)"

definition token_claims :: "ext \<Rightarrow> bytes \<Rightarrow> token_request \<Rightarrow> int \<Rightarrow> claims ops_result" where
  "token_claims E jti req t =
     (if tr_ttl req < 1 \<or> tr_ttl req > TOKEN_MAX_TTL_SECS then Inl BadTtl
      else
        let c = insert_opt ''iss'' (tr_issuer req) (insert_opt ''aud'' (tr_audience req)
                  (insert_opt ''sub'' (tr_subject req) (tr_claims req)));
            c = AList.update ''exp'' (Number (add_i64 t (tr_ttl req))) (AList.update ''iat'' (Number t) c)
        in and_then
             (case tr_not_before req of
                Some n \<Rightarrow> if n < 0 then Inl NegativeNotBefore else Inr (AList.update ''nbf'' (Number (add_i64 t n)) c)
              | None \<Rightarrow> Inr (AList.delete ''nbf'' c))
             (\<lambda>c. Inr (AList.update ''jti'' (JString (b64url_encode E jti)) c)))"

fun signer_alg :: "token_signer \<Rightarrow> string" where
  "signer_alg (SignEd25519 _) = ''EdDSA''"
| "signer_alg (SignHmac _) = ''HS256''"

definition token_header_for :: "string \<Rightarrow> string option \<Rightarrow> claims" where
  "token_header_for alg kid = [(''alg'', JString alg), (''typ'', JString ''JWT'')]
     @ (case kid of None \<Rightarrow> [] | Some k \<Rightarrow> [(''kid'', JString k)])"

definition signing_input :: "ext \<Rightarrow> ops_ext \<Rightarrow> claims \<Rightarrow> claims \<Rightarrow> string" where
  "signing_input E K header c =
     b64url_encode E (json_print K (JObject header)) @ ''.'' @ b64url_encode E (json_print K (JObject c))"

definition token_issue ::
    "ext \<Rightarrow> ops_ext \<Rightarrow> token_signer \<Rightarrow> string option \<Rightarrow> claims \<Rightarrow> string ops_result" where
  "token_issue E K signer kid c =
     (let inp = signing_input E K (token_header_for (signer_alg signer) kid) c
      in and_then
           (case signer of
              SignEd25519 sd \<Rightarrow> ed25519_sign E sd (as_bytes inp)
            | SignHmac key \<Rightarrow> Inr (hmac K Sha256 key (as_bytes inp)))
           (\<lambda>sig. Inr (inp @ ''.'' @ b64url_encode E sig)))"

definition token_parts :: "string \<Rightarrow> (string \<times> string \<times> string) ops_result" where
  "token_parts token = (case split_on CHR ''.'' (trim token) of
      [h, p, s] \<Rightarrow> if h \<noteq> [] \<and> p \<noteq> [] then Inr (h, p, s) else Inl MalformedToken
    | _ \<Rightarrow> Inl MalformedToken)"

definition token_json :: "ops_ext \<Rightarrow> string \<Rightarrow> claims ops_result" where
  "token_json K part = and_then (ok_or MalformedToken (b64url_decode K part)) (\<lambda>b.
     case json_parse K b of Some (JObject m) \<Rightarrow> Inr m | _ \<Rightarrow> Inl MalformedToken)"

definition token_header :: "ops_ext \<Rightarrow> string \<Rightarrow> claims ops_result" where
  "token_header K token = and_then (token_parts token) (\<lambda>(h, _, _). token_json K h)"

definition as_str :: "json option \<Rightarrow> string option" where
  "as_str v = (case v of Some (JString s) \<Rightarrow> Some s | _ \<Rightarrow> None)"

definition as_i64 :: "json \<Rightarrow> int option" where
  "as_i64 v = (case v of Number n \<Rightarrow> Some n | _ \<Rightarrow> None)"

definition check_exp :: "int \<Rightarrow> claims \<Rightarrow> unit ops_result" where
  "check_exp t c = (case map_of c ''exp'' of
      None \<Rightarrow> Inr ()
    | Some v \<Rightarrow> and_then (ok_or MalformedClaim (as_i64 v)) (\<lambda>x.
        if t > add_i64 x TOKEN_LEEWAY_SECS then Inl TokenExpired else Inr ()))"

definition check_nbf :: "int \<Rightarrow> claims \<Rightarrow> unit ops_result" where
  "check_nbf t c = (case map_of c ''nbf'' of
      None \<Rightarrow> Inr ()
    | Some v \<Rightarrow> and_then (ok_or MalformedClaim (as_i64 v)) (\<lambda>x.
        if add_i64 t TOKEN_LEEWAY_SECS < x then Inl TokenNotYet else Inr ()))"

definition audience_ok :: "string \<Rightarrow> claims \<Rightarrow> bool" where
  "audience_ok want c = (case map_of c ''aud'' of
      Some (JString a) \<Rightarrow> a = want
    | Some (JArray v) \<Rightarrow> list_ex (\<lambda>a. as_str (Some a) = Some want) v
    | _ \<Rightarrow> False)"

definition token_verify ::
    "ext \<Rightarrow> ops_ext \<Rightarrow> string \<Rightarrow> token_verifier \<Rightarrow> int \<Rightarrow> string option \<Rightarrow> claims ops_result" where
  "token_verify E K token verifier t audience =
     and_then (token_parts token) (\<lambda>(h, p, s).
     and_then (token_json K h) (\<lambda>header.
       if (case as_str (map_of header ''alg'') of Some a \<Rightarrow> a | None \<Rightarrow> []) \<noteq> verifier_alg verifier then Inl AlgorithmMismatch
       else
         and_then (ok_or MalformedToken (b64url_decode K s)) (\<lambda>sig.
           let inp = as_bytes (take (length h + 1 + length p) (trim token));
               ok = (case verifier of
                       VerifyEd25519 pk \<Rightarrow> ed25519_verify E K pk inp sig
                     | VerifyHmac key \<Rightarrow> hmac_verify K Sha256 key inp sig)
           in if \<not> ok then Inl BadSignature
              else
                and_then (token_json K p) (\<lambda>c.
                and_then (check_exp t c) (\<lambda>_.
                and_then (check_nbf t c) (\<lambda>_.
                  case audience of
                    None \<Rightarrow> Inr c
                  | Some want \<Rightarrow> if audience_ok want c then Inr c else Inl AudienceMismatch))))))"

section \<open>Local keys\<close>

definition ED25519_SPKI_PREFIX :: bytes where
  "ED25519_SPKI_PREFIX = [0x30, 0x2a, 0x30, 0x05, 0x06, 0x03, 0x2b, 0x65, 0x70, 0x03, 0x21, 0x00]"

definition ED25519_PKCS8_PREFIX :: bytes where
  "ED25519_PKCS8_PREFIX = [0x30, 0x2e, 0x02, 0x01, 0x00, 0x30, 0x05, 0x06, 0x03, 0x2b, 0x65, 0x70, 0x04, 0x22, 0x04, 0x20]"

text \<open>\<open>slice::chunks(64)\<close>, each chunk as a line.\<close>

function pem_lines :: "string \<Rightarrow> string" where
  "pem_lines s = (if s = [] then [] else take 64 s @ [CHR 0x0A] @ pem_lines (drop 64 s))"
  by pat_completeness auto
termination by (relation "measure length") auto

declare pem_lines.simps [simp del]

definition pem_begin :: "string \<Rightarrow> string" where
  "pem_begin label = ''-----BEGIN '' @ label @ ''-----''"

definition pem_end :: "string \<Rightarrow> string" where
  "pem_end label = ''-----END '' @ label @ ''-----''"

definition pem_wrap :: "ext \<Rightarrow> string \<Rightarrow> bytes \<Rightarrow> string" where
  "pem_wrap E label der =
     pem_begin label @ [CHR 0x0A] @ pem_lines (b64_encode E der) @ pem_end label @ [CHR 0x0A]"

text \<open>\<open>str::find\<close>.\<close>

fun find_str :: "string \<Rightarrow> string \<Rightarrow> nat option" where
  "find_str sub [] = (if sub = [] then Some 0 else None)"
| "find_str sub (c # s) = (if starts_with sub (c # s) then Some 0 else map_option Suc (find_str sub s))"

definition pem_payload :: "ext \<Rightarrow> string \<Rightarrow> string \<Rightarrow> bytes option" where
  "pem_payload E text_s label =
     Option.bind (find_str (pem_begin label) text_s) (\<lambda>i.
       let rest = drop (i + length (pem_begin label)) text_s
       in Option.bind (find_str (pem_end label) rest) (\<lambda>j.
            b64_decode E (concat (filter (\<lambda>c. \<not> is_whitespace c) (chars (take j rest))))))"

definition ed25519_public_pem :: "ext \<Rightarrow> bytes \<Rightarrow> string" where
  "ed25519_public_pem E public = pem_wrap E ''PUBLIC KEY'' (ED25519_SPKI_PREFIX @ public)"

definition ed25519_private_pem :: "ext \<Rightarrow> bytes \<Rightarrow> string" where
  "ed25519_private_pem E sd = pem_wrap E ''PRIVATE KEY'' (ED25519_PKCS8_PREFIX @ sd)"

definition ed25519_jwk :: "ext \<Rightarrow> bytes \<Rightarrow> string \<Rightarrow> json" where
  "ed25519_jwk E public kid = JObject [(''kty'', JString ''OKP''), (''crv'', JString ''Ed25519''),
     (''x'', JString (b64url_encode E public)), (''kid'', JString kid), (''alg'', JString ''EdDSA''), (''use'', JString ''sig'')]"

definition key_fingerprint :: "ext \<Rightarrow> ops_ext \<Rightarrow> bytes \<Rightarrow> string" where
  "key_fingerprint E K b = take 16 (hex_encode E (digest K Sha3_256 b))"

record local_key =
  lk_type :: key_type
  lk_secret :: bytes

definition local_key_json :: "ext \<Rightarrow> ops_ext \<Rightarrow> key_type \<Rightarrow> bytes \<Rightarrow> string" where
  "local_key_json E K t secret =
     json_pretty K (JObject ([(''blackbook_key'', Number 1), (''type'', JString (key_type_str t)),
       (''secret'', JString (b64_encode E secret))]
       @ (case public_key E t secret of None \<Rightarrow> [] | Some pk \<Rightarrow> [(''public'', JString (b64_encode E pk))])))
     @ [CHR 0x0A]"

definition trim_end_eq :: "string \<Rightarrow> string" where
  "trim_end_eq s = rev (dropWhile (\<lambda>c. c = CHR ''='') (rev s))"

definition text_key_bytes :: "ext \<Rightarrow> ops_ext \<Rightarrow> string \<Rightarrow> bytes option" where
  "text_key_bytes E K text_s =
     (let t = trim text_s;
          b = (case b64_decode E t of Some b \<Rightarrow> Some b | None \<Rightarrow> b64url_decode K (trim_end_eq t));
          r = (case b of Some x \<Rightarrow> if length x = KEY_LEN then Some x else None | None \<Rightarrow> None)
      in if length t = 64 then (case hex_decode E t of Some b \<Rightarrow> Some b | None \<Rightarrow> r) else r)"

definition hinted :: "key_type option \<Rightarrow> bytes \<Rightarrow> local_key" where
  "hinted hint b = \<lparr>lk_type = (case hint of Some t \<Rightarrow> t | None \<Rightarrow> Aes256Gcm), lk_secret = b\<rparr>"

definition json_local_key :: "ext \<Rightarrow> claims \<Rightarrow> local_key ops_result" where
  "json_local_key E m =
     and_then (parse_key_type (case as_str (map_of m ''type'') of Some s \<Rightarrow> s | None \<Rightarrow> [])) (\<lambda>t.
     and_then (ok_or BadKeyFile (as_str (map_of m ''secret''))) (\<lambda>s.
     and_then (ok_or BadKeyFile (b64_decode E s)) (\<lambda>secret.
     and_then (check_material t secret) (\<lambda>_. Inr \<lparr>lk_type = t, lk_secret = secret\<rparr>))))"

definition parse_local_key :: "ext \<Rightarrow> ops_ext \<Rightarrow> bytes \<Rightarrow> key_type option \<Rightarrow> local_key ops_result" where
  "parse_local_key E K b hint =
     (let raw = (if length b = KEY_LEN then Inr (hinted hint b) else Inl BadKeyFile)
      in case from_utf8 b of
           None \<Rightarrow> raw
         | Some text_s \<Rightarrow>
           (case json_parse K b of
              Some (JObject m) \<Rightarrow> json_local_key E m
            | _ \<Rightarrow>
              (case pem_payload E text_s ''PRIVATE KEY'' of
                 Some der \<Rightarrow>
                   if length der = length ED25519_PKCS8_PREFIX + KEY_LEN
                      \<and> take (length ED25519_PKCS8_PREFIX) der = ED25519_PKCS8_PREFIX
                   then Inr \<lparr>lk_type = Ed25519, lk_secret = drop (length ED25519_PKCS8_PREFIX) der\<rparr>
                   else Inl BadPem
               | None \<Rightarrow>
                   (case text_key_bytes E K text_s of Some x \<Rightarrow> Inr (hinted hint x) | None \<Rightarrow> raw))))"

definition bytes32 :: "bytes option \<Rightarrow> bytes option" where
  "bytes32 b = (case b of Some x \<Rightarrow> if length x = 32 then Some x else None | None \<Rightarrow> None)"

definition parse_public_text :: "ext \<Rightarrow> ops_ext \<Rightarrow> string \<Rightarrow> bytes ops_result" where
  "parse_public_text E K text_s =
     (case pem_payload E text_s ''PUBLIC KEY'' of
        Some der \<Rightarrow>
          if length der = length ED25519_SPKI_PREFIX + 32 \<and> take (length ED25519_SPKI_PREFIX) der = ED25519_SPKI_PREFIX
          then Inr (drop (length ED25519_SPKI_PREFIX) der) else Inl BadPem
      | None \<Rightarrow>
          if pem_payload E text_s ''PRIVATE KEY'' \<noteq> None
          then and_then (parse_local_key E K (as_bytes text_s) None) (\<lambda>k. ed25519_public E (lk_secret k))
          else ok_or BadKeyFile (bytes32 (text_key_bytes E K text_s)))"

definition parse_public_key :: "ext \<Rightarrow> ops_ext \<Rightarrow> string \<Rightarrow> bytes ops_result" where
  "parse_public_key E K text_s = (case json_parse K (as_bytes text_s) of
      Some (JObject m) \<Rightarrow>
        (case as_str (map_of m ''public'') of
           Some p \<Rightarrow> ok_or BadKeyFile (bytes32 (b64_decode E p))
         | None \<Rightarrow>
           (case as_str (map_of m ''x'') of
              Some x \<Rightarrow> ok_or BadKeyFile (bytes32 (b64url_decode K x))
            | None \<Rightarrow> parse_public_text E K text_s))
    | _ \<Rightarrow> parse_public_text E K text_s)"

definition is_hexdigit :: "char \<Rightarrow> bool" where
  "is_hexdigit c \<longleftrightarrow> is_digit c \<or> (97 \<le> (of_char c :: nat) \<and> of_char c \<le> (102 :: nat)) \<or> (65 \<le> (of_char c :: nat) \<and> of_char c \<le> (70 :: nat))"

definition parse_tag :: "ext \<Rightarrow> ops_ext \<Rightarrow> string \<Rightarrow> bytes ops_result" where
  "parse_tag E K s =
     (let t = trim s;
          b64 = (case b64_decode E t of Some b \<Rightarrow> Inr b | None \<Rightarrow> ok_or BadTag (b64url_decode K (trim_end_eq t)))
      in if starts_with MANAGED_PREFIX t then and_then (parse_versioned E t) (\<lambda>(_, b). Inr b)
         else if even (length t) \<and> list_all is_hexdigit t
         then (case hex_decode E t of Some b \<Rightarrow> Inr b | None \<Rightarrow> b64)
         else b64)"

section \<open>Derivation and encodings\<close>

datatype kdf_alg = Argon2id | Scrypt | Pbkdf2

definition parse_kdf_alg :: "string \<Rightarrow> kdf_alg ops_result" where
  "parse_kdf_alg s =
     (let l = to_ascii_lowercase s
      in if l \<in> set [''argon2id'', ''argon2''] then Inr Argon2id
         else if l = ''scrypt'' then Inr Scrypt
         else if l \<in> set [''pbkdf2'', ''pbkdf2-sha3-512''] then Inr Pbkdf2
         else Inl UnknownAlgorithm)"

fun kdf_alg_str :: "kdf_alg \<Rightarrow> string" where
  "kdf_alg_str Argon2id = ''argon2id''"
| "kdf_alg_str Scrypt = ''scrypt''"
| "kdf_alg_str Pbkdf2 = ''pbkdf2-sha3-512''"

definition derive_key :: "ext \<Rightarrow> ops_ext \<Rightarrow> kdf_alg \<Rightarrow> string \<Rightarrow> bytes \<Rightarrow> bytes ops_result" where
  "derive_key E K alg passphrase salt = (case alg of
      Argon2id \<Rightarrow> argon2_key K passphrase salt
    | Scrypt \<Rightarrow> map_err KdfFailed (derive_message_key E (as_bytes passphrase) salt)
    | Pbkdf2 \<Rightarrow> Inr (pbkdf2_sha3_512 E (as_bytes passphrase) salt 200000 KEY_LEN))"

definition encode_bytes :: "ext \<Rightarrow> bytes \<Rightarrow> string \<Rightarrow> string ops_result" where
  "encode_bytes E b enc =
     (if enc = ''hex'' then Inr (hex_encode E b)
      else if enc = ''base64'' then Inr (b64_encode E b)
      else if enc = ''base64url'' \<or> enc = ''token'' then Inr (b64url_encode E b)
      else Inl UnknownEncoding)"

section \<open>Formats\<close>

lemma parse_i32_show:
  assumes "0 \<le> v" and "v \<le> i32_max"
  shows "parse_i32 (show_int v) = Some v"
proof -
  obtain c r where s: "show_nat (nat v) = c # r" using show_nat_not_Nil by (cases "show_nat (nat v)") auto
  have "is_digit c" using show_nat_digits [of c "nat v"] s by simp
  then have "c \<noteq> CHR ''-''" "c \<noteq> CHR ''+''" by (auto simp: is_digit_def)
  moreover have "list_all is_digit (c # r)" using show_nat_digits [of _ "nat v"] s by (auto simp: list_all_iff)
  moreover have "digits_val (c # r) = nat v" using digits_val_show s by metis
  moreover have "in_i32 v" using assms by (simp add: in_i32_def i32_max_def)
  ultimately show ?thesis using assms(1) by (simp add: show_int_def s parse_i32_def Let_def)
qed

text \<open>The Base64 alphabets are printable, the URL-safe one without the full stop.\<close>

definition b64_text_law :: "ext \<Rightarrow> bool" where
  "b64_text_law E \<longleftrightarrow> (\<forall>b. list_all visible (b64_encode E b))"

definition url_law :: "ext \<Rightarrow> ops_ext \<Rightarrow> bool" where
  "url_law E K \<longleftrightarrow> (\<forall>b. b64url_decode K (b64url_encode E b) = Some b)
     \<and> (\<forall>b. list_all (\<lambda>c. visible c \<and> c \<noteq> CHR ''.'') (b64url_encode E b)) \<and> (\<forall>b. b \<noteq> [] \<longrightarrow> b64url_encode E b \<noteq> [])"

text \<open>A printed object of the set is read back with the same members, in some order.\<close>

definition json_law :: "ops_ext \<Rightarrow> claims set \<Rightarrow> bool" where
  "json_law K ms \<longleftrightarrow> (\<forall>m \<in> ms. distinct (map fst m) \<longrightarrow> json_print K (JObject m) \<noteq> []
     \<and> (\<exists>m'. json_parse K (json_print K (JObject m)) = Some (JObject m') \<and> map_of m' = map_of m))"

text \<open>Signatures verify strictly under the public key of their seed.\<close>

definition strict_law :: "ext \<Rightarrow> ops_ext \<Rightarrow> bool" where
  "strict_law E K \<longleftrightarrow> (\<forall>sd m. length sd = 32 \<longrightarrow> ed_point E (ed_public E sd) \<and> length (ed_sign E sd m) = 64
     \<and> ed_verify_strict K (ed_public E sd) m (ed_sign E sd m))"

lemma map_err_InrD [dest!]: "map_err e r = Inr x \<Longrightarrow> r = Inr x"
  by (cases r) (simp_all add: map_err_def)

lemma map_err_Inr [simp]: "map_err e (Inr x) = Inr x"
  by (simp add: map_err_def)

lemma strip_b64_prefix:
  assumes "b64_law E" and "b64_text_law E" and "list_all visible pre"
  shows "strip_b64 E (pre @ b64_encode E b) pre = Inr b"
  using assms by (simp add: strip_b64_def trim_visible b64_text_law_def b64_lawD)

lemma versioned_round_trip:
  assumes "b64_law E" and "b64_text_law E" and "1 \<le> v" and "v \<le> i32_max"
  shows "parse_versioned E (versioned E v b) = Inr (v, b)"
proof -
  have dig: "is_digit c" if "c \<in> set (show_int v)" for c
    using that assms(3) show_nat_digits by (simp add: show_int_def)
  have "list_all visible (versioned E v b)"
    using assms(2) dig visible_digit
    by (auto simp: versioned_def b64_text_law_def list_all_iff MANAGED_PREFIX_def visible_def)
  moreover have "CHR '':'' \<notin> set (show_int v)" using dig by (fastforce simp: is_digit_def)
  ultimately show ?thesis
    using assms parse_i32_show [of v] split_once_first [of "CHR '':''" "show_int v" "b64_encode E b"]
    by (simp add: parse_versioned_def trim_visible) (simp add: versioned_def b64_lawD)
qed

lemma aead_aad_open:
  assumes "gcm_law E" and "aead_seal_aad E n m k aad = Inr c" and "length n = 12"
  shows "aead_open_aad E c k aad = Inr m" "length c = length m + 28"
  using bound_box.unseal_seal [OF assms(1,3), of "(k, aad)" m c] bound_box.seal_length [OF assms(1,3), of "(k, aad)" m c] assms(2)
  by simp_all

lemma trim_start_visible: "list_all visible s \<Longrightarrow> trim_start s = s"
  unfolding trim_start_def by (subst chars_visible) (cases s; simp add: visible_not_space)+

lemma detect_prefix:
  assumes "b64_text_law E"
  shows "detect (PASSPHRASE_PREFIX @ b64_encode E b) = Some PassphraseKind"
    "detect (CMK_PREFIX @ b64_encode E b) = Some CmkKind"
    "detect (RAWKEY_PREFIX @ b64_encode E b) = Some RawKeyKind"
    "detect (DATAKEY_PREFIX @ b64_encode E b) = Some DataKeyKind"
    "detect (versioned E v b) = Some ManagedKind"
proof -
  have "trim_start (PASSPHRASE_PREFIX @ b64_encode E b) = PASSPHRASE_PREFIX @ b64_encode E b"
    "trim_start (CMK_PREFIX @ b64_encode E b) = CMK_PREFIX @ b64_encode E b"
    "trim_start (RAWKEY_PREFIX @ b64_encode E b) = RAWKEY_PREFIX @ b64_encode E b"
    "trim_start (DATAKEY_PREFIX @ b64_encode E b) = DATAKEY_PREFIX @ b64_encode E b"
    using assms
    by (simp_all add: trim_start_visible b64_text_law_def PASSPHRASE_PREFIX_def CMK_PREFIX_def RAWKEY_PREFIX_def
        DATAKEY_PREFIX_def visible_def)
  then show "detect (PASSPHRASE_PREFIX @ b64_encode E b) = Some PassphraseKind"
    "detect (CMK_PREFIX @ b64_encode E b) = Some CmkKind"
    "detect (RAWKEY_PREFIX @ b64_encode E b) = Some RawKeyKind"
    "detect (DATAKEY_PREFIX @ b64_encode E b) = Some DataKeyKind"
    by (simp_all add: detect_def starts_with_def MANAGED_PREFIX_def PASSPHRASE_PREFIX_def CMK_PREFIX_def
        RAWKEY_PREFIX_def DATAKEY_PREFIX_def)
  have "visible c" if "c \<in> set (show_int v)" for c
    using that show_nat_digits visible_digit by (auto simp: show_int_def visible_def split: if_splits)
  then have "trim_start (versioned E v b) = versioned E v b"
    using assms by (intro trim_start_visible)
      (auto simp: versioned_def b64_text_law_def list_all_iff MANAGED_PREFIX_def visible_def)
  then show "detect (versioned E v b) = Some ManagedKind"
    by (simp add: detect_def starts_with_def versioned_def)
qed

lemma of_be_two: "n < 2 ^ 16 \<Longrightarrow> of_be (be_bytes 2 n) = n"
  by (simp add: of_be_be_bytes)

lemma datakey_round_trip:
  assumes "gcm_law E" and "b64_law E" and "b64_text_law E" and "length nonce = 12" and "utf8_str w"
    and "datakey_seal E nonce m dek w aad = Inr e"
  shows "\<exists>sealed. datakey_parse E e = Inr (w, sealed) \<and> datakey_open E sealed dek aad = Inr m \<and> detect e = Some DataKeyKind"
proof -
  obtain sealed where len: "length w < 2 ^ 16" and s: "aead_seal_aad E nonce m dek aad = Inr sealed"
    and e: "e = DATAKEY_PREFIX @ b64_encode E (DATAKEY_MAGIC @ be_bytes 2 (length w) @ as_bytes w @ sealed)"
    using assms(6) by (auto simp: datakey_seal_def Let_def elim!: and_then_InrE split: if_splits)
  have "list_all visible DATAKEY_PREFIX" by (simp add: DATAKEY_PREFIX_def visible_def)
  then have "strip_b64 E e DATAKEY_PREFIX = Inr (DATAKEY_MAGIC @ be_bytes 2 (length w) @ as_bytes w @ sealed)"
    unfolding e by (rule strip_b64_prefix [OF assms(2,3)])
  then have "datakey_parse E e = Inr (w, sealed)"
    using len assms(5) by (simp add: datakey_parse_def Let_def of_be_two)
  then show ?thesis
    using aead_aad_open(1) [OF assms(1) s assms(4)] detect_prefix(4) [OF assms(3)] e by (simp add: datakey_open_def)
qed

lemma passphrase_round_trip:
  assumes "gcm_law E" and "b64_law E" and "b64_text_law E" and "length nonce = 12" and "length salt = 16"
    and "passphrase_seal E K salt nonce m pass aad = Inr e"
  shows "passphrase_open E K e pass aad = Inr m \<and> detect e = Some PassphraseKind"
proof -
  obtain key sealed where k: "argon2_key K pass salt = Inr key" and s: "aead_seal_aad E nonce m key aad = Inr sealed"
    and e: "e = PASSPHRASE_PREFIX @ b64_encode E (PASSPHRASE_MAGIC @ salt @ sealed)"
    using assms(6) by (auto simp: passphrase_seal_def elim!: and_then_InrE)
  have "list_all visible PASSPHRASE_PREFIX" by (simp add: PASSPHRASE_PREFIX_def visible_def)
  then have "strip_b64 E e PASSPHRASE_PREFIX = Inr (PASSPHRASE_MAGIC @ salt @ sealed)"
    unfolding e by (rule strip_b64_prefix [OF assms(2,3)])
  then have "passphrase_open E K e pass aad = Inr m"
    using aead_aad_open [OF assms(1) s assms(4)] k assms(5)
    by (simp add: passphrase_open_def Let_def PASSPHRASE_SALT_LEN_def)
  with detect_prefix(1) [OF assms(3)] e show ?thesis by simp
qed

lemma keyed_round_trip:
  assumes "gcm_law E" and "b64_law E" and "b64_text_law E" and "length nonce = 12"
  shows "cmk_seal E K nonce m k aad = Inr e \<Longrightarrow> cmk_open E K e k aad = Inr m \<and> detect e = Some CmkKind"
    "rawkey_seal E nonce m k aad = Inr e \<Longrightarrow> rawkey_open E e k aad = Inr m \<and> detect e = Some RawKeyKind"
  using detect_prefix [OF assms(3)] aead_aad_open(1) [OF assms(1) _ assms(4)]
    strip_b64_prefix [OF assms(2,3), of CMK_PREFIX] strip_b64_prefix [OF assms(2,3), of RAWKEY_PREFIX]
  by (auto simp: cmk_seal_def cmk_open_def rawkey_seal_def rawkey_open_def CMK_PREFIX_def RAWKEY_PREFIX_def visible_def
      elim!: and_then_InrE)

lemma visible_versioned: "b64_text_law E \<Longrightarrow> list_all visible (versioned E v b)"
  using show_nat_digits visible_digit
  by (auto simp: versioned_def b64_text_law_def list_all_iff MANAGED_PREFIX_def visible_def show_int_def split: if_splits)

lemma visible_envelopes:
  assumes "b64_text_law E"
  shows "datakey_seal E nonce m dek w aad = Inr e \<Longrightarrow> list_all visible e"
    "passphrase_seal E K salt nonce m pass aad = Inr e \<Longrightarrow> list_all visible e"
    "cmk_seal E K nonce m k aad = Inr e \<Longrightarrow> list_all visible e"
    "rawkey_seal E nonce m k aad = Inr e \<Longrightarrow> list_all visible e"
  using assms
  by (auto simp: datakey_seal_def passphrase_seal_def cmk_seal_def rawkey_seal_def Let_def b64_text_law_def visible_def
      DATAKEY_PREFIX_def PASSPHRASE_PREFIX_def CMK_PREFIX_def RAWKEY_PREFIX_def elim!: and_then_InrE split: if_splits)

subsection \<open>PEM\<close>

lemma find_str_after:
  assumes "sub = x # sub'" and "x \<notin> set u"
  shows "find_str sub (u @ sub @ v) = Some (length u)"
  using assms(2)
proof (induction u)
  case Nil
  then show ?case using assms(1) by (simp add: starts_with_def)
next
  case (Cons c u)
  then have "\<not> starts_with sub (c # u @ sub @ v)" using assms(1) by (auto simp: starts_with_def)
  with Cons show ?case by simp
qed

lemma set_pem_lines: "set (pem_lines s) \<subseteq> insert (CHR 0x0A) (set s)"
proof (induction s rule: pem_lines.induct)
  case (1 s)
  then show ?case by (subst pem_lines.simps) (auto dest: in_set_takeD in_set_dropD)
qed

lemma pem_lines_text:
  assumes "list_all visible s"
  shows "filter (\<lambda>c. \<not> is_whitespace [c]) (pem_lines s) = s"
  using assms
proof (induction s rule: pem_lines.induct)
  case (1 s)
  have w: "is_whitespace [CHR 0x0A]" by (simp add: is_whitespace_def whitespace_codes_def)
  have f: "filter (\<lambda>c. \<not> is_whitespace [c]) (take 64 s) = take 64 s"
    using 1(2) by (auto simp: filter_id_conv list_all_iff visible_not_space dest: in_set_takeD)
  show ?case
  proof (cases "s = []")
    case True
    then show ?thesis by (subst pem_lines.simps) simp
  next
    case False
    have "list_all visible (drop 64 s)" using 1(2) by (auto simp: list_all_iff dest: in_set_dropD)
    with False 1(1) f w show ?thesis by (subst pem_lines.simps) simp
  qed
qed

text \<open>The Base64 alphabet has no hyphen.\<close>

definition b64_hyphen_law :: "ext \<Rightarrow> bool" where
  "b64_hyphen_law E \<longleftrightarrow> (\<forall>b. CHR ''-'' \<notin> set (b64_encode E b))"

lemma ascii_pem: "list_all visible s \<Longrightarrow> ascii (pem_lines s)"
  using set_pem_lines [of s] visible_ascii [of s] by (fastforce simp: ascii_def list_all_iff)

lemma pem_round_trip:
  assumes "b64_law E" and "b64_text_law E" and "b64_hyphen_law E"
  shows "pem_payload E (pem_wrap E label der) label = Some der"
proof -
  let ?l = "pem_lines (b64_encode E der)" and ?nl = "[CHR 0x0A]"
  have v: "list_all visible (b64_encode E der)" using assms(2) by (simp add: b64_text_law_def)
  have "find_str (pem_begin label) ([] @ pem_begin label @ ?nl @ ?l @ pem_end label @ ?nl) = Some (length ([] :: string))"
    by (rule find_str_after) (simp_all add: pem_begin_def)
  then have b: "find_str (pem_begin label) (pem_wrap E label der) = Some 0" by (simp add: pem_wrap_def)
  have "CHR ''-'' \<notin> set (?nl @ ?l)"
    using set_pem_lines [of "b64_encode E der"] assms(3) by (auto simp: b64_hyphen_law_def)
  then have "find_str (pem_end label) ((?nl @ ?l) @ pem_end label @ ?nl) = Some (length (?nl @ ?l))"
    by (rule find_str_after [rotated]) (simp add: pem_end_def)
  then have e: "find_str (pem_end label) (CHR 0x0A # ?l @ pem_end label @ ?nl) = Some (Suc (length ?l))" by simp
  have "ascii (CHR 0x0A # ?l)" using ascii_pem [OF v] by (simp add: ascii_def)
  then have "concat (filter (\<lambda>c. \<not> is_whitespace c) (chars (CHR 0x0A # ?l))) = filter (\<lambda>c. \<not> is_whitespace [c]) (CHR 0x0A # ?l)"
    by (subst chars_ascii) (simp_all add: filter_map comp_def)
  also have "\<dots> = b64_encode E der"
    using pem_lines_text [OF v] by (simp add: is_whitespace_def whitespace_codes_def)
  finally show ?thesis
    using b e assms(1) unfolding pem_payload_def Let_def by (simp add: pem_wrap_def b64_lawD)
qed

section \<open>Tokens\<close>

lemma map_of_alist_update [simp]: "map_of (AList.update k v m) = (map_of m)(k \<mapsto> v)"
  by (simp add: update_conv')

lemma map_of_alist_delete [simp]: "map_of (AList.delete k m) = (map_of m)(k := None)"
  by (simp add: delete_conv')

lemma add_i64_small: "- (2 ^ 62) \<le> a \<Longrightarrow> a < 2 ^ 62 \<Longrightarrow> - (2 ^ 62) \<le> b \<Longrightarrow> b < 2 ^ 62 \<Longrightarrow> add_i64 a b = a + b"
  by (simp add: add_i64_def)

definition matching :: "ext \<Rightarrow> token_signer \<Rightarrow> token_verifier \<Rightarrow> bool" where
  "matching E signer verifier = (case (signer, verifier) of
      (SignEd25519 sd, VerifyEd25519 pk) \<Rightarrow> length sd = 32 \<and> pk = ed_public E sd
    | (SignHmac k, VerifyHmac k') \<Rightarrow> k = k'
    | _ \<Rightarrow> False)"

text \<open>A token is split at its two full stops.\<close>

lemma token_split:
  assumes "url_law E K" and "json_law K {header, c}" and "distinct (map fst header)" and "distinct (map fst c)"
  shows "token_parts (signing_input E K header c @ ''.'' @ b64url_encode E sig)
      = Inr (b64url_encode E (json_print K (JObject header)), b64url_encode E (json_print K (JObject c)), b64url_encode E sig)"
    "trim (signing_input E K header c @ ''.'' @ b64url_encode E sig) = signing_input E K header c @ ''.'' @ b64url_encode E sig"
proof -
  have v: "list_all visible (b64url_encode E b)" "CHR ''.'' \<notin> set (b64url_encode E b)" for b
    using assms(1) by (auto simp: url_law_def list_all_iff)
  have ne: "b64url_encode E (json_print K (JObject m)) \<noteq> []" if "m \<in> {header, c}" "distinct (map fst m)" for m
    using assms(1,2) that by (auto simp: url_law_def json_law_def)
  show t: "trim (signing_input E K header c @ ''.'' @ b64url_encode E sig) = signing_input E K header c @ ''.'' @ b64url_encode E sig"
    by (rule trim_visible) (simp add: signing_input_def v visible_def)
  have "split_on CHR ''.'' (signing_input E K header c @ ''.'' @ b64url_encode E sig)
      = [b64url_encode E (json_print K (JObject header)), b64url_encode E (json_print K (JObject c)), b64url_encode E sig]"
    using split_on_first [OF v(2)] split_on_none [OF v(2)] by (simp add: signing_input_def)
  then show "token_parts (signing_input E K header c @ ''.'' @ b64url_encode E sig)
      = Inr (b64url_encode E (json_print K (JObject header)), b64url_encode E (json_print K (JObject c)), b64url_encode E sig)"
    using ne [OF _ assms(3)] ne [OF _ assms(4)] unfolding token_parts_def t by simp
qed

lemma token_json_print:
  assumes "url_law E K" and "json_law K ms" and "m \<in> ms" and "distinct (map fst m)"
  shows "\<exists>m'. token_json K (b64url_encode E (json_print K (JObject m))) = Inr m' \<and> map_of m' = map_of m"
  using assms by (fastforce simp: token_json_def url_law_def json_law_def)

text \<open>Whether a verifier accepts a signature of the signing input.\<close>

definition sig_ok :: "ext \<Rightarrow> ops_ext \<Rightarrow> token_verifier \<Rightarrow> string \<Rightarrow> bytes \<Rightarrow> bool" where
  "sig_ok E K verifier inp sig = (case verifier of
      VerifyEd25519 pk \<Rightarrow> ed25519_verify E K pk (as_bytes inp) sig
    | VerifyHmac key \<Rightarrow> hmac_verify K Sha256 key (as_bytes inp) sig)"

text \<open>The checks of the claims, in the order of the code.\<close>

definition claims_checked :: "int \<Rightarrow> string option \<Rightarrow> claims \<Rightarrow> unit ops_result" where
  "claims_checked t audience c =
     and_then (check_exp t c) (\<lambda>_. and_then (check_nbf t c) (\<lambda>_.
       case audience of None \<Rightarrow> Inr () | Some want \<Rightarrow> if audience_ok want c then Inr () else Inl AudienceMismatch))"

lemma claims_checked_cong:
  assumes "map_of c = map_of c'"
  shows "claims_checked t a c = claims_checked t a c'"
proof -
  have "check_exp t c = check_exp t c'" "check_nbf t c = check_nbf t c'" "audience_ok w c = audience_ok w c'" for w
    using assms by (simp_all add: check_exp_def check_nbf_def audience_ok_def)
  then show ?thesis by (simp only: claims_checked_def)
qed

lemma token_verify_signed:
  assumes "url_law E K" and "json_law K {header, c}" and "distinct (map fst header)" and "distinct (map fst c)"
    and "as_str (map_of header ''alg'') = Some (verifier_alg verifier)" and "sig_ok E K verifier (signing_input E K header c) sig"
  shows "\<exists>c'. map_of c' = map_of c
    \<and> token_verify E K (signing_input E K header c @ ''.'' @ b64url_encode E sig) verifier t audience
      = and_then (claims_checked t audience c) (\<lambda>_. Inr c')"
proof -
  let ?tok = "signing_input E K header c @ ''.'' @ b64url_encode E sig"
  obtain h' c' where h: "token_json K (b64url_encode E (json_print K (JObject header))) = Inr h'" "map_of h' = map_of header"
    and c: "token_json K (b64url_encode E (json_print K (JObject c))) = Inr c'" "map_of c' = map_of c"
    using token_json_print [OF assms(1,2) _ assms(3)] token_json_print [OF assms(1,2) _ assms(4)] by blast
  have inp: "take (length (b64url_encode E (json_print K (JObject header))) + 1 + length (b64url_encode E (json_print K (JObject c)))) ?tok
      = signing_input E K header c"
    by (simp add: signing_input_def)
  have sig: "b64url_decode K (b64url_encode E sig) = Some sig" using assms(1) by (simp add: url_law_def)
  have "token_verify E K ?tok verifier t audience = and_then (claims_checked t audience c') (\<lambda>_. Inr c')"
    using assms(5,6) h(2)
    unfolding token_verify_def token_split [OF assms(1-4)] and_then_simps prod.case h(1) Let_def inp sig ok_or_simps
    by (cases verifier)
      (auto simp: sig_ok_def c(1) claims_checked_def and_then_def split: sum.splits option.splits)
  moreover have "claims_checked t audience c' = claims_checked t audience c" by (rule claims_checked_cong [OF c(2)])
  ultimately show ?thesis using c(2) by auto
qed

lemma issued_signature:
  assumes "strict_law E K" and "matching E signer verifier" and "token_issue E K signer kid c = Inr tok"
  obtains sig where "tok = signing_input E K (token_header_for (signer_alg signer) kid) c @ ''.'' @ b64url_encode E sig"
    "sig_ok E K verifier (signing_input E K (token_header_for (signer_alg signer) kid) c) sig"
    "signer_alg signer = verifier_alg verifier"
  using assms
  by (cases signer; cases verifier)
    (auto simp: matching_def token_issue_def Let_def sig_ok_def ed25519_sign_def ed25519_verify_def hmac_def hmac_verify_def
      strict_law_def elim!: and_then_InrE split: if_splits)

lemma token_claims_InrD:
  assumes "token_claims E jti req t = Inr c" and "distinct (map fst (tr_claims req))"
  shows "1 \<le> tr_ttl req" "tr_ttl req \<le> TOKEN_MAX_TTL_SECS" "distinct (map fst c)"
    "map_of c ''exp'' = Some (Number (add_i64 t (tr_ttl req)))"
    "map_of c ''nbf'' = map_option (\<lambda>n. Number (add_i64 t n)) (tr_not_before req)"
    "\<forall>n. tr_not_before req = Some n \<longrightarrow> 0 \<le> n"
  using assms
  by (auto simp: token_claims_def Let_def insert_opt_def distinct_update distinct_delete
      elim!: and_then_InrE split: if_splits option.splits)

section \<open>Properties\<close>

text \<open>
  C17. A token lives exactly as long as was asked for: a token issued at \<open>t0\<close> and checked at \<open>t\<close>
  with the key that belongs to the signer is rejected as expired more than a minute after \<open>t0\<close>
  plus its lifetime, rejected as not yet valid more than a minute before its not-before time,
  rejected for another audience, and otherwise accepted with exactly the claims it was issued
  with. Claims for the reserved members given by the caller do not change this.
\<close>

theorem token_lifetime:
  assumes "url_law E K" and "json_law K {token_header_for (signer_alg signer) kid, c}" and "strict_law E K" and "distinct (map fst (tr_claims req))"
    and "0 \<le> t0" and "t0 < 2 ^ 61" and "0 \<le> t" and "t < 2 ^ 61" and "\<forall>n. tr_not_before req = Some n \<longrightarrow> n < 2 ^ 61"
    and "token_claims E jti req t0 = Inr c" and "token_issue E K signer kid c = Inr tok" and "matching E signer verifier"
  shows "\<exists>c'. map_of c' = map_of c \<and> token_verify E K tok verifier t audience =
    (if t > t0 + tr_ttl req + 60 then Inl TokenExpired
     else if (case tr_not_before req of None \<Rightarrow> False | Some n \<Rightarrow> t + 60 < t0 + n) then Inl TokenNotYet
     else if (case audience of None \<Rightarrow> True | Some a \<Rightarrow> audience_ok a c) then Inr c' else Inl AudienceMismatch)"
proof -
  note c = token_claims_InrD [OF assms(10,4)]
  obtain sig where sig: "tok = signing_input E K (token_header_for (signer_alg signer) kid) c @ ''.'' @ b64url_encode E sig"
    "sig_ok E K verifier (signing_input E K (token_header_for (signer_alg signer) kid) c) sig"
    "signer_alg signer = verifier_alg verifier"
    using issued_signature [OF assms(3,12,11)] .
  have hd: "distinct (map fst (token_header_for alg kid))" "as_str (map_of (token_header_for alg kid) ''alg'') = Some alg" for alg
    by (auto simp: token_header_for_def as_str_def split: option.splits)
  obtain c' where c': "map_of c' = map_of c" "token_verify E K tok verifier t audience = and_then (claims_checked t audience c) (\<lambda>_. Inr c')"
    using token_verify_signed [OF assms(1) assms(2) hd(1) c(3) _ sig(2), of t audience] hd(2) sig(1,3) by auto
  have "tr_ttl req < 2 ^ 61" using c(2) by (simp add: TOKEN_MAX_TTL_SECS_def)
  then have e: "add_i64 (add_i64 t0 (tr_ttl req)) 60 = t0 + tr_ttl req + 60" "add_i64 t 60 = t + 60"
    using assms(5-8) c(1) by (simp_all add: add_i64_small)
  have n: "add_i64 t0 n = t0 + n" if "tr_not_before req = Some n" for n
    using assms(5,6,9) c(6) that by (simp add: add_i64_small)
  have "claims_checked t audience c = (if t > t0 + tr_ttl req + 60 then Inl TokenExpired
     else if (case tr_not_before req of None \<Rightarrow> False | Some n \<Rightarrow> t + 60 < t0 + n) then Inl TokenNotYet
     else if (case audience of None \<Rightarrow> True | Some a \<Rightarrow> audience_ok a c) then Inr () else Inl AudienceMismatch)"
    using e n c(4,5)
    by (auto simp: claims_checked_def check_exp_def check_nbf_def as_i64_def TOKEN_LEEWAY_SECS_def split: option.splits)
  with c' show ?thesis by (intro exI [of _ c']) (simp split: option.splits)
qed

text \<open>
  Every local envelope opens: what \<open>passphrase_seal\<close>, \<open>cmk_seal\<close>, \<open>rawkey_seal\<close> and
  \<open>datakey_seal\<close> return is recognised by its prefix and opens, under the same passphrase or key
  and the same associated data, to the plaintext; a data-key envelope also yields the wrapped
  data key it carries.
\<close>

theorem envelopes_open:
  assumes "gcm_law E" and "b64_law E" and "b64_text_law E" and "length nonce = 12" and "length salt = 16" and "utf8_str w"
  shows "(passphrase_seal E K salt nonce m pass aad = Inr e \<longrightarrow>
        passphrase_open E K e pass aad = Inr m \<and> detect e = Some PassphraseKind)
    \<and> (cmk_seal E K nonce m k aad = Inr e \<longrightarrow> cmk_open E K e k aad = Inr m \<and> detect e = Some CmkKind)
    \<and> (rawkey_seal E nonce m k aad = Inr e \<longrightarrow> rawkey_open E e k aad = Inr m \<and> detect e = Some RawKeyKind)
    \<and> (datakey_seal E nonce m k w aad = Inr e \<longrightarrow>
        (\<exists>sealed. datakey_parse E e = Inr (w, sealed) \<and> datakey_open E sealed k aad = Inr m) \<and> detect e = Some DataKeyKind)"
  using passphrase_round_trip [OF assms(1-5)] keyed_round_trip [OF assms(1-4)] datakey_round_trip [OF assms(1-4,6)] by blast

section \<open>Witnesses\<close>

text \<open>Base64 stands for two letters per byte, JSON for a printer that its reader inverts on two values.\<close>

definition demo_text :: "bytes \<Rightarrow> string" where
  "demo_text b = concat (map (\<lambda>x. [char_of (65 + unat x div 16), char_of (65 + unat x mod 16)]) b)"

fun demo_untext :: "string \<Rightarrow> bytes" where
  "demo_untext (c # d # s) = word_of_nat ((of_char c - 65) * 16 + (of_char d - 65)) # demo_untext s"
| "demo_untext _ = []"

definition ops_demo_ext :: ext where
  "ops_demo_ext = demo_ext\<lparr>b64_encode := demo_text, b64_decode := (\<lambda>s. Some (demo_untext s)), b64url_encode := demo_text\<rparr>"

lemma demo_text_letters: "c \<in> set (demo_text b) \<Longrightarrow> 65 \<le> (of_char c :: nat) \<and> (of_char c :: nat) < 81"
proof (induction b)
  case (Cons x b)
  have "unat x div 16 < 16" "unat x mod 16 < 16" using unat_u8_less [of x] by (simp_all add: less_mult_imp_div_less)
  with Cons show ?case by (auto simp: demo_text_def of_char_of)
qed (simp add: demo_text_def)

lemma demo_untext_text: "demo_untext (demo_text b) = b"
proof (induction b)
  case (Cons x b)
  have "unat x div 16 < 16" "unat x mod 16 < 16" using unat_u8_less [of x] by (simp_all add: less_mult_imp_div_less)
  then have "word_of_nat ((of_char (char_of (65 + unat x div 16) :: char) - 65) * 16 + (of_char (char_of (65 + unat x mod 16) :: char) - 65)) = x"
    by (simp add: of_char_of)
  with Cons show ?case by (simp add: demo_text_def)
qed (simp add: demo_text_def)

definition demo_token_request :: token_request where
  "demo_token_request = \<lparr>tr_claims = [(''exp'', Number 99999)], tr_subject = Some ''svc'', tr_audience = None, tr_issuer = None,
     tr_ttl = 600, tr_not_before = None\<rparr>"

text \<open>The claims of a token for the request above, and a printer and reader for them and their header.\<close>

definition demo_claims :: claims where
  "demo_claims = [(''exp'', Number 1600), (''sub'', JString ''svc''), (''iat'', Number 1000), (''jti'', JString [])]"

definition demo_print :: "json \<Rightarrow> bytes" where
  "demo_print j = (if j = JObject demo_claims then [1] else [2])"

definition demo_ops :: ops_ext where
  "demo_ops = \<lparr>hash_of = (\<lambda>a m. zeros 32), hmac_of = (\<lambda>a k m. k @ m), b64url_decode = (\<lambda>s. Some (demo_untext s)),
     json_print = demo_print, json_pretty = (\<lambda>j. str_of (demo_print j)),
     json_parse = (\<lambda>b. if b = [1] then Some (JObject demo_claims)
       else if b = [2] then Some (JObject (token_header_for ''HS256'' None)) else None),
     argon2id = (\<lambda>m t p pass salt. Some (take 32 (pass @ zeros 32))), hkdf_unsalted = (\<lambda>k i n. take n (k @ zeros n)),
     ed_verify_strict = (\<lambda>pk m sig. take 32 sig = pk)\<rparr>"

lemma demo_ops_laws:
  "gcm_law ops_demo_ext" "b64_law ops_demo_ext" "b64_text_law ops_demo_ext" "url_law ops_demo_ext demo_ops"
  "strict_law ops_demo_ext demo_ops"
proof -
  show "gcm_law ops_demo_ext" using demo_laws(3) by (simp add: gcm_law_def ops_demo_ext_def)
  show "b64_law ops_demo_ext" by (simp add: b64_law_def ops_demo_ext_def demo_untext_text)
  have v: "visible c \<and> c \<noteq> CHR ''.''" if "c \<in> set (demo_text b)" for b c
    using demo_text_letters [OF that] by (auto simp: visible_def)
  then show "b64_text_law ops_demo_ext" by (simp add: b64_text_law_def ops_demo_ext_def list_all_iff)
  have "demo_text b \<noteq> []" if "b \<noteq> []" for b using demo_untext_text [of b] that by (metis demo_untext.simps(2))
  with v show "url_law ops_demo_ext demo_ops"
    by (simp add: url_law_def ops_demo_ext_def demo_ops_def demo_untext_text list_all_iff)
  show "strict_law ops_demo_ext demo_ops"
    by (simp add: strict_law_def ops_demo_ext_def demo_ops_def demo_ext_def zeros_def)
qed

lemma demo_json_law: "json_law demo_ops {token_header_for ''HS256'' None, demo_claims}"
proof -
  have "token_header_for ''HS256'' None \<noteq> demo_claims" by (simp add: token_header_for_def demo_claims_def)
  then show ?thesis by (simp add: json_law_def demo_ops_def demo_print_def)
qed

lemma demo_token_claims: "token_claims ops_demo_ext [] demo_token_request 1000 = Inr demo_claims"
  by code_simp

theorem token_lifetime_witness:
  "\<exists>tok c'. token_issue ops_demo_ext demo_ops (SignHmac [7]) None demo_claims = Inr tok
    \<and> map_of c' = map_of demo_claims
    \<and> token_verify ops_demo_ext demo_ops tok (VerifyHmac [7]) 1660 None = Inr c'
    \<and> token_verify ops_demo_ext demo_ops tok (VerifyHmac [7]) 1661 None = Inl TokenExpired"
proof -
  obtain tok where tok: "token_issue ops_demo_ext demo_ops (SignHmac [7]) None demo_claims = Inr tok"
    by (simp add: token_issue_def Let_def)
  have "\<exists>c'. map_of c' = map_of demo_claims \<and> token_verify ops_demo_ext demo_ops tok (VerifyHmac [7]) t None =
    (if t > 1000 + tr_ttl demo_token_request + 60 then Inl TokenExpired
     else if (case tr_not_before demo_token_request of None \<Rightarrow> False | Some n \<Rightarrow> t + 60 < 1000 + n) then Inl TokenNotYet
     else if (case None of None \<Rightarrow> True | Some a \<Rightarrow> audience_ok a demo_claims) then Inr c' else Inl AudienceMismatch)"
    if "0 \<le> t" "t < 2 ^ 61" for t
    using that demo_json_law tok
    by (intro token_lifetime [OF demo_ops_laws(4) _ demo_ops_laws(5) _ _ _ that _ demo_token_claims tok])
      (simp_all add: demo_token_request_def matching_def)
  from this [of 1660] this [of 1661] tok show ?thesis by (auto simp: demo_token_request_def)
qed

theorem envelopes_open_witness:
  "\<exists>e. rawkey_seal ops_demo_ext (zeros 12) [1, 2, 3] (zeros 32) [9] = Inr e
    \<and> rawkey_open ops_demo_ext e (zeros 32) [9] = Inr [1, 2, 3] \<and> detect e = Some RawKeyKind"
proof -
  have "length (zeros 32) = 32" by (simp add: zeros_def)
  then obtain e where e: "rawkey_seal ops_demo_ext (zeros 12) [1, 2, 3] (zeros 32) [9] = Inr e"
    by (simp add: rawkey_seal_def aead_seal_aad_def ops_demo_ext_def demo_ext_def)
  have "length (zeros 12) = 12" "length (zeros 16) = 16" "utf8_str ''w''" by (simp_all add: zeros_def ascii_utf8)
  from envelopes_open [OF demo_ops_laws(1-3) this, of demo_ops "[1, 2, 3]" "''p''" "[9]" e "zeros 32"] e show ?thesis by blast
qed

end
