(* ===== verification/Keys_Api.thy ===== *)
theory Keys_Api
  imports Acl Crypto_Ops
begin

text \<open>
  Managed keys (\<open>src/keys_api.rs\<close>): named, versioned keys whose material stays on the server.
  Creation, import, rotation and deletion, and the operations that use a key: encryption,
  decryption, data keys, signatures, MACs and tokens, each behind the domain gate, the access
  rules, the key's type and its second factor. The lemmas show that no rotation strands a
  ciphertext, that every version of every key can be used, and what guards the material.
\<close>

section \<open>Tables\<close>

record key_row =
  kr_id :: string
  kr_name_enc :: bytes
  kr_name_id :: string
  kr_domain :: string
  kr_type :: string
  kr_latest :: int
  kr_mfa :: bool
  kr_created :: int
  kr_updated :: int

record version_row =
  kv_key :: string
  kv_version :: int
  kv_material :: bytes
  kv_public :: "bytes option"
  kv_created :: int

record keys_state = acl_state +
  keys :: "key_row list"
  key_versions :: "version_row list"

section \<open>Helpers\<close>

text \<open>The row of a key as the handlers see it.\<close>

record key_view =
  ky_id :: string
  ky_name :: string
  ky_type :: key_type
  ky_latest :: int
  ky_mfa :: bool
  ky_created :: int
  ky_updated :: int

definition key_name_id :: "ext \<Rightarrow> app \<Rightarrow> string \<Rightarrow> string \<Rightarrow> string" where
  "key_name_id E app domain_id name =
     hmac_id E (name_index_key app) (as_bytes ''blackbook-key-name-id/v1'') [as_bytes domain_id, as_bytes name]"

definition is_control :: "string \<Rightarrow> bool" where
  "is_control c = (case c of
      [x] \<Rightarrow> (of_char x :: nat) < 32 \<or> (of_char x :: nat) = 127
    | [x, y] \<Rightarrow> (of_char x :: nat) = 194 \<and> 128 \<le> (of_char y :: nat) \<and> (of_char y :: nat) < 160
    | _ \<Rightarrow> False)"

definition valid_key_name :: "string \<Rightarrow> bool" where
  "valid_key_name name \<longleftrightarrow> name \<noteq> [] \<and> length name \<le> 200 \<and> \<not> contains_str ''..'' name
     \<and> list_all (\<lambda>c. \<not> is_control c \<and> c \<noteq> ''/'') (chars name)"

definition b64_field :: "ext \<Rightarrow> string \<Rightarrow> 'b response + bytes" where
  "b64_field E v = ok_or (ErrorReply 400 ''validation_error'') (b64_decode E (trim v))"

definition aad_field :: "ext \<Rightarrow> string option \<Rightarrow> 'b response + bytes" where
  "aad_field E aad = (case aad of None \<Rightarrow> Inr [] | Some a \<Rightarrow> b64_field E a)"

definition material_aad :: "string \<Rightarrow> int \<Rightarrow> bytes" where
  "material_aad key_id version =
     as_bytes ''blackbook/managed-key/v1'' @ [0] @ as_bytes key_id @ [0] @ i32_be version"

definition seal_material :: "ext \<Rightarrow> app \<Rightarrow> bytes \<Rightarrow> string \<Rightarrow> int \<Rightarrow> bytes \<Rightarrow> 'b response + bytes" where
  "seal_material E app nonce key_id version material =
     map_err (ErrorReply 500 ''internal'')
       (aead_seal_aad E nonce material (managed_key_kek app) (material_aad key_id version))"

definition audit_key ::
    "ext \<Rightarrow> app \<Rightarrow> request \<Rightarrow> authenticated_client \<Rightarrow> string \<Rightarrow> string \<Rightarrow> audit_status \<Rightarrow> string option
      \<Rightarrow> 'a audit_state_scheme \<Rightarrow> 'a audit_state_scheme" where
  "audit_key E app rq client action name status message =
     audit E app rq 0 (Some (ac_id client)) action (Some name) status message"

definition view_key :: "string \<Rightarrow> key_row \<Rightarrow> 'b response + key_view" where
  "view_key name r =
     and_then (map_err (ErrorReply 500 ''internal'') (parse_key_type (kr_type r))) (\<lambda>t.
       Inr \<lparr>ky_id = kr_id r, ky_name = name, ky_type = t, ky_latest = kr_latest r, ky_mfa = kr_mfa r,
            ky_created = kr_created r, ky_updated = kr_updated r\<rparr>)"

definition find_key_row :: "ext \<Rightarrow> app \<Rightarrow> string \<Rightarrow> string \<Rightarrow> 'a keys_state_scheme \<Rightarrow> key_row option" where
  "find_key_row E app domain_id name st =
     List.find (\<lambda>r. kr_domain r = domain_id \<and> kr_name_id r = key_name_id E app domain_id name) (keys st)"

definition find_key ::
    "ext \<Rightarrow> app \<Rightarrow> string \<Rightarrow> string \<Rightarrow> 'a keys_state_scheme \<Rightarrow> 'b response + key_view option" where
  "find_key E app domain_id name st = (case find_key_row E app domain_id name st of
      None \<Rightarrow> Inr None
    | Some r \<Rightarrow> and_then (view_key name r) (\<lambda>k. Inr (Some k)))"

definition key_gate ::
    "ext \<Rightarrow> app \<Rightarrow> request \<Rightarrow> authenticated_client \<Rightarrow> string option \<Rightarrow> string \<Rightarrow> acl_action \<Rightarrow> string
      \<Rightarrow> 'a keys_state_scheme \<Rightarrow> ('b response + key_view \<times> acl_decision) \<times> 'a keys_state_scheme" where
  "key_gate E app rq client q name action audit_action st =
     (case resolve_and_gate_domain E app client q st of
        Inl resp \<Rightarrow> (Inl resp, st)
      | Inr (domain_id, _) \<Rightarrow>
        (case find_key E app domain_id name st of
           Inl resp \<Rightarrow> (Inl resp, st)
         | Inr None \<Rightarrow>
             (Inl (ErrorReply 404 ''not_found''), audit_key E app rq client audit_action name AuditNotFound None st)
         | Inr (Some key) \<Rightarrow>
             (let decision = acl_check E app rq client domain_id name action st
              in if \<not> is_allowed decision
                 then (Inl (ErrorReply 403 ''forbidden''), audit_key E app rq client audit_action name AuditDenied None st)
                 else (Inr (key, decision), st))))"

definition require_type :: "key_view \<Rightarrow> key_type list \<Rightarrow> 'b response + unit" where
  "require_type key allowed = (if ky_type key \<in> set allowed then Inr () else Inl (ErrorReply 400 ''wrong_key_type''))"

definition key_mfa_gate ::
    "ext \<Rightarrow> app \<Rightarrow> request \<Rightarrow> authenticated_client \<Rightarrow> string option \<Rightarrow> key_view \<Rightarrow> string
      \<Rightarrow> 'a keys_state_scheme \<Rightarrow> ('b response + unit) \<times> 'a keys_state_scheme" where
  "key_mfa_gate E app rq client code key audit_action st =
     (let denied = (\<lambda>m. audit_key E app rq client audit_action (ky_name key) AuditDenied (Some m))
      in if \<not> ky_mfa key then (Inr (), st)
         else
           (case code of
              None \<Rightarrow> (Inl (ErrorReply 401 ''mfa_required''), denied ''missing MFA'' st)
            | Some code \<Rightarrow>
              (case handle E (mfa_secret_kek (bb_keys app)) of
                 Inl e \<Rightarrow> (Inl (ErrorReply 500 ''internal''), st)
               | Inr kek \<Rightarrow>
                 (case verify_totp E rq kek (ac_id client) code st of
                    (Inl e, st) \<Rightarrow> (Inl (ErrorReply 500 ''internal''), st)
                  | (Inr ok, st) \<Rightarrow>
                      if ok then (Inr (), st)
                      else (Inl (ErrorReply 401 ''mfa_failed''), denied ''MFA verification failed'' st)))))"

definition check_version :: "key_view \<Rightarrow> int \<Rightarrow> 'b response + unit" where
  "check_version key version =
     (if version < 1 \<or> version > ky_latest key then Inl (ErrorReply 400 ''unknown_version'') else Inr ())"

definition version_of :: "string \<Rightarrow> int \<Rightarrow> 'a keys_state_scheme \<Rightarrow> version_row option" where
  "version_of key_id version st = List.find (\<lambda>r. kv_key r = key_id \<and> kv_version r = version) (key_versions st)"

definition load_material :: "ext \<Rightarrow> app \<Rightarrow> key_view \<Rightarrow> int \<Rightarrow> 'a keys_state_scheme \<Rightarrow> 'b response + bytes" where
  "load_material E app key version st =
     and_then (check_version key version) (\<lambda>_.
     and_then (ok_or (ErrorReply 500 ''internal'') (version_of (ky_id key) version st)) (\<lambda>r.
       map_err (ErrorReply 500 ''internal'')
         (aead_open_aad E (kv_material r) (managed_key_kek app) (material_aad (ky_id key) version))))"

definition load_public :: "key_view \<Rightarrow> int \<Rightarrow> 'a keys_state_scheme \<Rightarrow> 'b response + bytes" where
  "load_public key version st =
     and_then (check_version key version) (\<lambda>_.
       ok_or (ErrorReply 500 ''internal'') (bytes32 (Option.bind (version_of (ky_id key) version st) kv_public)))"

section \<open>Replies\<close>

record key_item =
  ki_name :: string
  ki_type :: string
  ki_latest :: int
  ki_mfa :: bool
  ki_created :: int
  ki_updated :: int

record key_summary =
  ks_item :: key_item
  ks_versions :: "(int \<times> int \<times> string option) list"
  ks_public :: "string option"
  ks_pem :: "string option"

datatype key_reply =
    Summary key_summary
  | KeyList "key_item list"
  | Jwks "json list"
  | KeyDeleted string int
  | Ciphertext string int
  | Plaintext string int
  | DataKey string string int
  | Signed string int string
  | Mac string string int
  | Validity bool int
  | IssuedToken string string string claims
  | TokenValid string claims
  | TokenInvalid

definition list_item :: "key_view \<Rightarrow> key_item" where
  "list_item key = \<lparr>ki_name = ky_name key, ki_type = key_type_str (ky_type key), ki_latest = ky_latest key,
     ki_mfa = ky_mfa key, ki_created = ky_created key, ki_updated = ky_updated key\<rparr>"

definition summary :: "ext \<Rightarrow> key_view \<Rightarrow> 'a keys_state_scheme \<Rightarrow> key_summary" where
  "summary E key st =
     (let rows = sort_key kv_version (filter (\<lambda>r. kv_key r = ky_id key) (key_versions st));
          latest_pk = foldl (\<lambda>acc r. if kv_version r = ky_latest key then bytes32 (kv_public r) else acc) None rows
      in \<lparr>ks_item = list_item key,
          ks_versions = map (\<lambda>r. (kv_version r, kv_created r, map_option (b64_encode E) (bytes32 (kv_public r)))) rows,
          ks_public = map_option (b64_encode E) latest_pk,
          ks_pem = map_option (ed25519_public_pem E) latest_pk\<rparr>)"

text \<open>\<open>rsplit_once\<close>: split at the last occurrence.\<close>

definition rsplit_once :: "string \<Rightarrow> string \<Rightarrow> (string \<times> string) option" where
  "rsplit_once pat s = (case filter (\<lambda>i. starts_with pat (drop i s)) [0..<length s] of
      [] \<Rightarrow> None
    | is \<Rightarrow> Some (take (last is) s, drop (last is + length pat) s))"

definition token_version :: "ops_ext \<Rightarrow> string \<Rightarrow> key_view \<Rightarrow> int ops_result" where
  "token_version K token key =
     and_then (token_header K token) (\<lambda>header.
       case as_str (map_of header ''kid'') of
         None \<Rightarrow> Inr (ky_latest key)
       | Some kid \<Rightarrow>
         and_then (ok_or BadKid (rsplit_once '':v'' kid)) (\<lambda>(name, ver).
           if name \<noteq> ky_name key then Inl BadKid else ok_or BadKid (parse_i32 ver)))"

section \<open>Lifecycle\<close>

record create_key_request =
  ck_name :: string
  ck_type :: "string option"
  ck_mfa :: bool
  ck_import :: "string option"

text \<open>The material of a new key, imported or drawn.\<close>

definition new_material :: "ext \<Rightarrow> request \<Rightarrow> key_type \<Rightarrow> string option \<Rightarrow> 'b response + bytes" where
  "new_material E rq t imported = (case imported of
      None \<Rightarrow> Inr (rand rq 0 KEY_LEN)
    | Some b64 \<Rightarrow>
        and_then (b64_field E b64) (\<lambda>m.
        and_then (map_err (ErrorReply 400 ''validation_error'') (check_material t m)) (\<lambda>_. Inr m)))"

text \<open>The two rows that \<open>create_key\<close> inserts.\<close>

definition put_key ::
    "ext \<Rightarrow> app \<Rightarrow> request \<Rightarrow> create_key_request \<Rightarrow> string \<Rightarrow> key_type \<Rightarrow> bytes \<Rightarrow> bytes \<Rightarrow> bytes
      \<Rightarrow> 'a keys_state_scheme \<Rightarrow> 'a keys_state_scheme" where
  "put_key E app rq req domain_id t material name_enc sealed st =
     st\<lparr>keys := keys st @ [\<lparr>kr_id = hex_encode E (rand rq 1 32), kr_name_enc = name_enc,
          kr_name_id = key_name_id E app domain_id (ck_name req), kr_domain = domain_id, kr_type = key_type_str t, kr_latest = 1,
          kr_mfa = ck_mfa req, kr_created = now rq, kr_updated = now rq\<rparr>],
        key_versions := key_versions st @ [\<lparr>kv_key = hex_encode E (rand rq 1 32), kv_version = 1, kv_material = sealed,
          kv_public = public_key E t material, kv_created = now rq\<rparr>]\<rparr>"

text \<open>The transaction of \<open>create_key\<close> and what follows it.\<close>

definition insert_key ::
    "ext \<Rightarrow> app \<Rightarrow> request \<Rightarrow> create_key_request \<Rightarrow> authenticated_client \<Rightarrow> string \<Rightarrow> key_type \<Rightarrow> bytes \<Rightarrow> acl_decision
      \<Rightarrow> 'a keys_state_scheme \<Rightarrow> key_reply response \<times> 'a keys_state_scheme" where
  "insert_key E app rq req client domain_id t material decision st =
     (let new_id = hex_encode E (rand rq 1 32);
          name_id = key_name_id E app domain_id (ck_name req)
      in case enc_str E (rand rq 2 12) (metadata_enc_key app) (ck_name req) of
           Inl e \<Rightarrow> (ActixError 500, st)
         | Inr name_enc \<Rightarrow>
           (case seal_material E app (rand rq 3 12) new_id 1 material of
              Inl resp \<Rightarrow> (resp, st)
            | Inr sealed \<Rightarrow>
              if list_ex (\<lambda>r. kr_id r = new_id \<or> kr_domain r = domain_id \<and> kr_name_id r = name_id) (keys st)
              then (ErrorReply 409 ''already_exists'', st)
              else if list_ex (\<lambda>r. kv_key r = new_id \<and> kv_version r = 1) (key_versions st) then (ActixError 500, st)
              else
                (let st = audit_key E app rq client ''key.create'' (ck_name req) AuditOk
                            (Some (if ck_import req \<noteq> None then ''imported'' else ''generated''))
                            (acl_record_use rq decision (put_key E app rq req domain_id t material name_enc sealed st))
                 in (case find_key E app domain_id (ck_name req) st of
                       Inl resp \<Rightarrow> resp
                     | Inr None \<Rightarrow> ErrorReply 500 ''internal''
                     | Inr (Some key) \<Rightarrow> Reply 201 (Summary (summary E key st)),
                     st))))"

definition create_key ::
    "ext \<Rightarrow> app \<Rightarrow> request \<Rightarrow> create_key_request \<Rightarrow> string option \<Rightarrow> authenticated_client
      \<Rightarrow> 'a keys_state_scheme \<Rightarrow> key_reply response \<times> 'a keys_state_scheme" where
  "create_key E app rq req q client st =
     (if \<not> valid_key_name (ck_name req) then (ErrorReply 400 ''validation_error'', st)
      else
        (case parse_key_type (case ck_type req of Some s \<Rightarrow> s | None \<Rightarrow> ''aes256-gcm'') of
           Inl e \<Rightarrow> (ErrorReply 400 ''validation_error'', st)
         | Inr t \<Rightarrow>
           (case new_material E rq t (ck_import req) of
              Inl resp \<Rightarrow> (resp, st)
            | Inr material \<Rightarrow>
              (case resolve_and_gate_domain E app client q st of
                 Inl resp \<Rightarrow> (resp, st)
               | Inr (domain_id, _) \<Rightarrow>
                 (case find_key E app domain_id (ck_name req) st of
                    Inl resp \<Rightarrow> (resp, st)
                  | Inr (Some k) \<Rightarrow>
                      (ErrorReply 409 ''already_exists'',
                       audit_key E app rq client ''key.create'' (ck_name req) AuditDenied (Some ''already exists'') st)
                  | Inr None \<Rightarrow>
                      (let decision = acl_check E app rq client domain_id (ck_name req) Create st
                       in if \<not> is_allowed decision
                          then (ErrorReply 403 ''forbidden'',
                                audit_key E app rq client ''key.create'' (ck_name req) AuditDenied None st)
                          else insert_key E app rq req client domain_id t material decision st))))))"

definition list_keys_entry ::
    "ext \<Rightarrow> app \<Rightarrow> request \<Rightarrow> authenticated_client \<Rightarrow> string \<Rightarrow> 'a keys_state_scheme \<Rightarrow> key_row \<Rightarrow> key_item option" where
  "list_keys_entry E app rq client domain_id st r =
     (case dec_str E (metadata_enc_key app) (kr_name_enc r) of
        Inl e \<Rightarrow> None
      | Inr name \<Rightarrow>
          if \<not> is_admin client \<and> \<not> is_allowed (acl_check E app rq client domain_id name Read st) then None
          else (case view_key name r :: unit response + key_view of Inl e \<Rightarrow> None | Inr k \<Rightarrow> Some (list_item k)))"

definition list_keys ::
    "ext \<Rightarrow> app \<Rightarrow> request \<Rightarrow> string option \<Rightarrow> authenticated_client
      \<Rightarrow> 'a keys_state_scheme \<Rightarrow> key_reply response \<times> 'a keys_state_scheme" where
  "list_keys E app rq q client st =
     (case resolve_and_gate_domain E app client q st of
        Inl resp \<Rightarrow> (resp, st)
      | Inr (domain_id, _) \<Rightarrow>
          (Reply 200 (KeyList (List.map_filter (list_keys_entry E app rq client domain_id st)
             (take 500 (rev (sort_key kr_created (filter (\<lambda>r. kr_domain r = domain_id) (keys st))))))),
           audit E app rq 0 (Some (ac_id client)) ''key.list'' None AuditOk None st))"

definition show_key ::
    "ext \<Rightarrow> app \<Rightarrow> request \<Rightarrow> string \<Rightarrow> string option \<Rightarrow> authenticated_client
      \<Rightarrow> 'a keys_state_scheme \<Rightarrow> key_reply response \<times> 'a keys_state_scheme" where
  "show_key E app rq name q client st =
     (case key_gate E app rq client q name Read ''key.read'' st of
        (Inl resp, st) \<Rightarrow> (resp, st)
      | (Inr (key, decision), st) \<Rightarrow>
          (Reply 200 (Summary (summary E key st)),
           audit_key E app rq client ''key.read'' name AuditOk None (acl_record_use rq decision st)))"

definition key_jwks ::
    "ext \<Rightarrow> app \<Rightarrow> request \<Rightarrow> string \<Rightarrow> string option \<Rightarrow> authenticated_client
      \<Rightarrow> 'a keys_state_scheme \<Rightarrow> key_reply response \<times> 'a keys_state_scheme" where
  "key_jwks E app rq name q client st =
     (case key_gate E app rq client q name Read ''key.read'' st of
        (Inl resp, st) \<Rightarrow> (resp, st)
      | (Inr (key, decision), st) \<Rightarrow>
          if ky_type key \<noteq> Ed25519 then (ErrorReply 400 ''wrong_key_type'', st)
          else
            (Reply 200 (Jwks (List.map_filter (\<lambda>r. map_option (\<lambda>pk. ed25519_jwk E pk (name @ '':v'' @ show_int (kv_version r)))
                 (bytes32 (kv_public r)))
               (rev (sort_key kv_version (filter (\<lambda>r. kv_key r = ky_id key) (key_versions st)))))),
             audit_key E app rq client ''key.read'' name AuditOk (Some ''jwks'') (acl_record_use rq decision st)))"

text \<open>The transaction of \<open>rotate_key\<close>: \<open>Inr\<close> the new version and the state, or the reply with which it is given up.\<close>

definition add_version ::
    "ext \<Rightarrow> app \<Rightarrow> request \<Rightarrow> key_view \<Rightarrow> 'a keys_state_scheme \<Rightarrow> key_reply response + int \<times> 'a keys_state_scheme" where
  "add_version E app rq key st =
     (let material = rand rq 0 KEY_LEN
      in case List.find (\<lambda>r. kr_id r = ky_id key) (keys st) of
           None \<Rightarrow> Inl (ActixError 500)
         | Some r \<Rightarrow>
           (let version = kr_latest r + 1
            in if version > i32_max then Inl (ActixError 500)
               else
                 and_then (seal_material E app (rand rq 1 12) (ky_id key) version material) (\<lambda>sealed.
                   if list_ex (\<lambda>q. kv_key q = ky_id key \<and> kv_version q = version) (key_versions st) then Inl (ActixError 500)
                   else Inr (version,
                     st\<lparr>keys := update_where (\<lambda>q. kr_id q = ky_id key) (\<lambda>q. q\<lparr>kr_latest := version, kr_updated := now rq\<rparr>) (keys st),
                        key_versions := key_versions st @ [\<lparr>kv_key = ky_id key, kv_version = version, kv_material = sealed,
                          kv_public = public_key E (ky_type key) material, kv_created = now rq\<rparr>]\<rparr>))))"

definition rotate_key ::
    "ext \<Rightarrow> app \<Rightarrow> request \<Rightarrow> string \<Rightarrow> string option \<Rightarrow> authenticated_client
      \<Rightarrow> 'a keys_state_scheme \<Rightarrow> key_reply response \<times> 'a keys_state_scheme" where
  "rotate_key E app rq name q client st =
     (case key_gate E app rq client q name Update ''key.rotate'' st of
        (Inl resp, st) \<Rightarrow> (resp, st)
      | (Inr (key, decision), st) \<Rightarrow>
        (case add_version E app rq key st of
           Inl resp \<Rightarrow> (resp, st)
         | Inr (version, st) \<Rightarrow>
             (let st = audit_key E app rq client ''key.rotate'' name AuditOk (Some (''now v'' @ show_int version))
                         (acl_record_use rq decision st)
              in (Reply 200 (Summary (summary E (key\<lparr>ky_latest := version\<rparr>) st)), st))))"

text \<open>The version rows go with the key (\<open>ON DELETE CASCADE\<close>).\<close>

definition delete_key ::
    "ext \<Rightarrow> app \<Rightarrow> request \<Rightarrow> string \<Rightarrow> string option \<Rightarrow> authenticated_client
      \<Rightarrow> 'a keys_state_scheme \<Rightarrow> key_reply response \<times> 'a keys_state_scheme" where
  "delete_key E app rq name q client st =
     (case key_gate E app rq client q name Delete ''key.delete'' st of
        (Inl resp, st) \<Rightarrow> (resp, st)
      | (Inr (key, decision), st) \<Rightarrow>
          (Reply 200 (KeyDeleted name (ky_latest key)),
           audit_key E app rq client ''key.delete'' name AuditOk
             (Some (''destroyed '' @ show_int (ky_latest key) @ '' version(s)''))
             (acl_record_use rq decision
               (st\<lparr>keys := delete_where (\<lambda>r. kr_id r = ky_id key) (keys st),
                   key_versions := delete_where (\<lambda>r. kv_key r = ky_id key) (key_versions st)\<rparr>))))"

section \<open>Operations\<close>

definition begin_op ::
    "ext \<Rightarrow> app \<Rightarrow> request \<Rightarrow> authenticated_client \<Rightarrow> string option \<Rightarrow> string option \<Rightarrow> string \<Rightarrow> string \<Rightarrow> key_type list
      \<Rightarrow> (key_type \<Rightarrow> bool) \<Rightarrow> 'a keys_state_scheme \<Rightarrow> ('b response + key_view \<times> acl_decision) \<times> 'a keys_state_scheme" where
  "begin_op E app rq client code q name op allowed uses_secret st =
     (case key_gate E app rq client q name Read (''key.'' @ op) st of
        (Inl resp, st) \<Rightarrow> (Inl resp, st)
      | (Inr (key, decision), st) \<Rightarrow>
        (case require_type key allowed of
           Inl resp \<Rightarrow> (Inl resp, st)
         | Inr _ \<Rightarrow>
             if uses_secret (ky_type key)
             then (case key_mfa_gate E app rq client code key (''key.'' @ op) st of
                 (Inl resp, st) \<Rightarrow> (Inl resp, st)
               | (Inr _, st) \<Rightarrow> (Inr (key, decision), st))
             else (Inr (key, decision), st)))"

definition finish_op ::
    "ext \<Rightarrow> app \<Rightarrow> request \<Rightarrow> authenticated_client \<Rightarrow> acl_decision \<Rightarrow> key_view \<Rightarrow> string \<Rightarrow> string option \<Rightarrow> key_reply
      \<Rightarrow> 'a keys_state_scheme \<Rightarrow> key_reply response \<times> 'a keys_state_scheme" where
  "finish_op E app rq client decision key op message body st =
     (Reply 200 body, audit_key E app rq client (''key.'' @ op) (ky_name key) AuditOk message (acl_record_use rq decision st))"

definition key_encrypt ::
    "ext \<Rightarrow> app \<Rightarrow> request \<Rightarrow> string \<Rightarrow> string \<Rightarrow> string option \<Rightarrow> string option \<Rightarrow> string option \<Rightarrow> authenticated_client
      \<Rightarrow> 'a keys_state_scheme \<Rightarrow> key_reply response \<times> 'a keys_state_scheme" where
  "key_encrypt E app rq name plaintext aad q code client st =
     (case (b64_field E plaintext, aad_field E aad) of
        (Inl r, _) \<Rightarrow> (r, st)
      | (_, Inl r) \<Rightarrow> (r, st)
      | (Inr plain, Inr aad) \<Rightarrow>
        (case begin_op E app rq client code q name ''encrypt'' [Aes256Gcm] (\<lambda>_. True) st of
           (Inl r, st) \<Rightarrow> (r, st)
         | (Inr (key, decision), st) \<Rightarrow>
           (case load_material E app key (ky_latest key) st of
              Inl r \<Rightarrow> (r, st)
            | Inr material \<Rightarrow>
              (case aead_seal_aad E (rand rq 0 12) plain material aad of
                 Inl e \<Rightarrow> (ActixError 500, st)
               | Inr ct \<Rightarrow>
                   finish_op E app rq client decision key ''encrypt'' None
                     (Ciphertext (versioned E (ky_latest key) ct) (ky_latest key)) st))))"

definition key_decrypt ::
    "ext \<Rightarrow> app \<Rightarrow> request \<Rightarrow> string \<Rightarrow> string \<Rightarrow> string option \<Rightarrow> string option \<Rightarrow> string option \<Rightarrow> authenticated_client
      \<Rightarrow> 'a keys_state_scheme \<Rightarrow> key_reply response \<times> 'a keys_state_scheme" where
  "key_decrypt E app rq name ciphertext aad q code client st =
     (case parse_versioned E ciphertext of
        Inl e \<Rightarrow> (ErrorReply 400 ''validation_error'', st)
      | Inr (version, ct) \<Rightarrow>
        (case aad_field E aad of
           Inl r \<Rightarrow> (r, st)
         | Inr aad \<Rightarrow>
           (case begin_op E app rq client code q name ''decrypt'' [Aes256Gcm] (\<lambda>_. True) st of
              (Inl r, st) \<Rightarrow> (r, st)
            | (Inr (key, decision), st) \<Rightarrow>
              (case load_material E app key version st of
                 Inl r \<Rightarrow> (r, st)
               | Inr material \<Rightarrow>
                 (case aead_open_aad E ct material aad of
                    Inl e \<Rightarrow>
                      (ErrorReply 400 ''decrypt_failed'',
                       audit_key E app rq client ''key.decrypt'' name AuditError (Some ''authentication failed'') st)
                  | Inr plain \<Rightarrow>
                      finish_op E app rq client decision key ''decrypt'' None
                        (Plaintext (b64_encode E plain) version) st)))))"

definition key_datakey ::
    "ext \<Rightarrow> app \<Rightarrow> request \<Rightarrow> string \<Rightarrow> string option \<Rightarrow> string option \<Rightarrow> authenticated_client
      \<Rightarrow> 'a keys_state_scheme \<Rightarrow> key_reply response \<times> 'a keys_state_scheme" where
  "key_datakey E app rq name q code client st =
     (case begin_op E app rq client code q name ''datakey'' [Aes256Gcm] (\<lambda>_. True) st of
        (Inl r, st) \<Rightarrow> (r, st)
      | (Inr (key, decision), st) \<Rightarrow>
        (case load_material E app key (ky_latest key) st of
           Inl r \<Rightarrow> (r, st)
         | Inr material \<Rightarrow>
           (let dek = rand rq 0 32
            in case aead_seal_aad E (rand rq 1 12) dek material [] of
                 Inl e \<Rightarrow> (ActixError 500, st)
               | Inr w \<Rightarrow>
                   finish_op E app rq client decision key ''datakey'' None
                     (DataKey (b64_encode E dek) (versioned E (ky_latest key) w) (ky_latest key)) st)))"

definition key_sign ::
    "ext \<Rightarrow> app \<Rightarrow> request \<Rightarrow> string \<Rightarrow> string \<Rightarrow> string option \<Rightarrow> string option \<Rightarrow> authenticated_client
      \<Rightarrow> 'a keys_state_scheme \<Rightarrow> key_reply response \<times> 'a keys_state_scheme" where
  "key_sign E app rq name inp q code client st =
     (case b64_field E inp of
        Inl r \<Rightarrow> (r, st)
      | Inr msg \<Rightarrow>
        (case begin_op E app rq client code q name ''sign'' [Ed25519] (\<lambda>_. True) st of
           (Inl r, st) \<Rightarrow> (r, st)
         | (Inr (key, decision), st) \<Rightarrow>
           (case load_material E app key (ky_latest key) st of
              Inl r \<Rightarrow> (r, st)
            | Inr material \<Rightarrow>
              (case (ed25519_sign E material msg, ed25519_public E material) of
                 (Inr sig, Inr pk) \<Rightarrow>
                   finish_op E app rq client decision key ''sign'' None
                     (Signed (versioned E (ky_latest key) sig) (ky_latest key) (b64_encode E pk)) st
               | _ \<Rightarrow> (ActixError 500, st)))))"

definition alg_field :: "string option \<Rightarrow> 'b response + hash_alg" where
  "alg_field a = map_err (ErrorReply 400 ''validation_error'') (parse_hash_alg (case a of Some s \<Rightarrow> s | None \<Rightarrow> ''sha3-256''))"

definition key_hmac ::
    "ext \<Rightarrow> ops_ext \<Rightarrow> app \<Rightarrow> request \<Rightarrow> string \<Rightarrow> string \<Rightarrow> string option \<Rightarrow> string option \<Rightarrow> string option \<Rightarrow> authenticated_client
      \<Rightarrow> 'a keys_state_scheme \<Rightarrow> key_reply response \<times> 'a keys_state_scheme" where
  "key_hmac E K app rq name inp algorithm q code client st =
     (case b64_field E inp of
        Inl r \<Rightarrow> (r, st)
      | Inr msg \<Rightarrow>
        (case alg_field algorithm of
           Inl r \<Rightarrow> (r, st)
         | Inr alg \<Rightarrow>
           (case begin_op E app rq client code q name ''hmac'' [Hmac] (\<lambda>_. True) st of
              (Inl r, st) \<Rightarrow> (r, st)
            | (Inr (key, decision), st) \<Rightarrow>
              (case load_material E app key (ky_latest key) st of
                 Inl r \<Rightarrow> (r, st)
               | Inr material \<Rightarrow>
                   finish_op E app rq client decision key ''hmac'' None
                     (Mac (versioned E (ky_latest key) (hmac K alg material msg)) (hash_alg_str alg) (ky_latest key)) st))))"

definition key_verify ::
    "ext \<Rightarrow> ops_ext \<Rightarrow> app \<Rightarrow> request \<Rightarrow> string \<Rightarrow> string \<Rightarrow> string \<Rightarrow> string option \<Rightarrow> string option \<Rightarrow> string option
      \<Rightarrow> authenticated_client \<Rightarrow> 'a keys_state_scheme \<Rightarrow> key_reply response \<times> 'a keys_state_scheme" where
  "key_verify E K app rq name inp signature algorithm q code client st =
     (case b64_field E inp of
        Inl r \<Rightarrow> (r, st)
      | Inr msg \<Rightarrow>
        (case parse_versioned E signature of
           Inl e \<Rightarrow> (ErrorReply 400 ''validation_error'', st)
         | Inr (version, tag) \<Rightarrow>
           (case alg_field algorithm of
              Inl r \<Rightarrow> (r, st)
            | Inr alg \<Rightarrow>
              (case begin_op E app rq client code q name ''verify'' [Ed25519, Hmac] (\<lambda>t. t = Hmac) st of
                 (Inl r, st) \<Rightarrow> (r, st)
               | (Inr (key, decision), st) \<Rightarrow>
                 (case (if ky_type key = Ed25519
                        then and_then (load_public key version st) (\<lambda>pk. Inr (ed25519_verify E K pk msg tag))
                        else and_then (load_material E app key version st) (\<lambda>m. Inr (hmac_verify K alg m msg tag))) of
                    Inl r \<Rightarrow> (r, st)
                  | Inr valid \<Rightarrow>
                      finish_op E app rq client decision key ''verify'' (Some (if valid then ''valid'' else ''invalid''))
                        (Validity valid version) st)))))"

definition DEFAULT_TOKEN_TTL_SECS :: int where "DEFAULT_TOKEN_TTL_SECS = 3600"

record issue_token_request =
  it_claims :: "claims option"
  it_subject :: "string option"
  it_audience :: "string option"
  it_issuer :: "string option"
  it_ttl :: "int option"
  it_not_before :: "int option"

definition now_unix :: "request \<Rightarrow> int" where
  "now_unix rq = now rq div 10 ^ 6"

definition token_request_of :: "issue_token_request \<Rightarrow> token_request" where
  "token_request_of r = \<lparr>tr_claims = (case it_claims r of Some c \<Rightarrow> c | None \<Rightarrow> []), tr_subject = it_subject r,
     tr_audience = it_audience r, tr_issuer = it_issuer r,
     tr_ttl = (case it_ttl r of Some t \<Rightarrow> t | None \<Rightarrow> DEFAULT_TOKEN_TTL_SECS), tr_not_before = it_not_before r\<rparr>"

definition issue_token ::
    "ext \<Rightarrow> ops_ext \<Rightarrow> app \<Rightarrow> request \<Rightarrow> string \<Rightarrow> issue_token_request \<Rightarrow> string option \<Rightarrow> string option
      \<Rightarrow> authenticated_client \<Rightarrow> 'a keys_state_scheme \<Rightarrow> key_reply response \<times> 'a keys_state_scheme" where
  "issue_token E K app rq name req q code client st =
     (case begin_op E app rq client code q name ''token'' [Ed25519, Hmac] (\<lambda>_. True) st of
        (Inl r, st) \<Rightarrow> (r, st)
      | (Inr (key, decision), st) \<Rightarrow>
        (case token_claims E (rand rq 0 16) (token_request_of req) (now_unix rq) of
           Inl e \<Rightarrow> (ErrorReply 400 ''validation_error'', st)
         | Inr c \<Rightarrow>
           (case load_material E app key (ky_latest key) st of
              Inl r \<Rightarrow> (r, st)
            | Inr material \<Rightarrow>
              (let signer = (if ky_type key = Ed25519 then SignEd25519 material else SignHmac material);
                   kid = name @ '':v'' @ show_int (ky_latest key)
               in case token_issue E K signer (Some kid) c of
                    Inl e \<Rightarrow> (ActixError 500, st)
                  | Inr token \<Rightarrow>
                    (let x = (case Option.bind (map_of c ''exp'') as_i64 of Some n \<Rightarrow> n | None \<Rightarrow> 0);
                         note = map_option (\<lambda>s. ''sub='' @ s) (as_str (map_of c ''sub''))
                     in finish_op E app rq client decision key ''token'' note
                          (IssuedToken token kid (to_rfc3339 E (x * 10 ^ 6)) c) st)))))"

definition verify_token ::
    "ext \<Rightarrow> ops_ext \<Rightarrow> app \<Rightarrow> request \<Rightarrow> string \<Rightarrow> string \<Rightarrow> string option \<Rightarrow> string option \<Rightarrow> string option
      \<Rightarrow> authenticated_client \<Rightarrow> 'a keys_state_scheme \<Rightarrow> key_reply response \<times> 'a keys_state_scheme" where
  "verify_token E K app rq name token audience q code client st =
     (case begin_op E app rq client code q name ''token.verify'' [Ed25519, Hmac] (\<lambda>t. t = Hmac) st of
        (Inl r, st) \<Rightarrow> (r, st)
      | (Inr (key, decision), st) \<Rightarrow>
        (let invalid = finish_op E app rq client decision key ''token.verify'' (Some ''invalid'') TokenInvalid st
         in case token_version K token key of
              Inl e \<Rightarrow> invalid
            | Inr version \<Rightarrow>
                if version < 1 \<or> version > ky_latest key then invalid
                else
                  (case (if ky_type key = Ed25519
                         then and_then (load_public key version st) (\<lambda>pk. Inr (VerifyEd25519 pk))
                         else and_then (load_material E app key version st) (\<lambda>m. Inr (VerifyHmac m))) of
                     Inl r \<Rightarrow> (r, st)
                   | Inr verifier \<Rightarrow>
                     (case token_verify E K token verifier (now_unix rq) audience of
                        Inl e \<Rightarrow> invalid
                      | Inr c \<Rightarrow>
                          finish_op E app rq client decision key ''token.verify'' (Some ''valid'')
                            (TokenValid (name @ '':v'' @ show_int version) c) st))))"

section \<open>What leaves the tables alone\<close>

lemma audit_keys [simp]:
  "keys (audit E app rq k c a r s m st) = keys st" "key_versions (audit E app rq k c a r s m st) = key_versions st"
  "keys (audit_key E app rq cl a n s m st) = keys st" "key_versions (audit_key E app rq cl a n s m st) = key_versions st"
  by (simp_all add: audit_key_def audit_def Let_def split: sum.splits)

lemma record_use_keys [simp]:
  "keys (acl_record_use rq d st) = keys st" "key_versions (acl_record_use rq d st) = key_versions st"
  by (simp_all add: acl_record_use_def split: acl_decision.splits)

lemma verify_totp_keys:
  "verify_totp E rq kek i code st = (r, st') \<Longrightarrow> keys st' = keys st \<and> key_versions st' = key_versions st"
  by (auto simp: verify_totp_def split: option.splits sum.splits if_splits)

lemma key_gate_tables:
  assumes "key_gate E app rq c q name a aa st = (r, st')"
  shows "keys st' = keys st \<and> key_versions st' = key_versions st" "\<And>x. r = Inr x \<Longrightarrow> st' = st"
  using assms by (auto simp: key_gate_def Let_def split: sum.splits option.splits if_splits)

lemma key_mfa_gate_tables:
  assumes "key_mfa_gate E app rq c code key aa st = (r, st')"
  shows "keys st' = keys st \<and> key_versions st' = key_versions st"
  using assms
  by (auto simp: key_mfa_gate_def Let_def split: sum.splits option.splits if_splits prod.splits dest: verify_totp_keys)

lemma begin_op_tables:
  assumes "begin_op E app rq c code q name op ts us st = (r, st')"
  shows "keys st' = keys st \<and> key_versions st' = key_versions st"
  using assms
  by (auto simp: begin_op_def split: prod.splits sum.splits if_splits dest!: key_gate_tables(1) key_mfa_gate_tables)

lemma finish_op_tables [simp]:
  "keys (snd (finish_op E app rq c d key op m b st)) = keys st"
  "key_versions (snd (finish_op E app rq c d key op m b st)) = key_versions st"
  by (simp_all add: finish_op_def)

text \<open>The tables of keys, which only the lifecycle changes.\<close>

definition key_tables :: "'a keys_state_scheme \<Rightarrow> key_row list \<times> version_row list" where
  "key_tables st = (keys st, key_versions st)"

lemma key_tables_simps [simp]:
  "key_tables (audit_key E app rq cl a n s m st) = key_tables st"
  "key_tables (acl_record_use rq d st) = key_tables st"
  "key_tables (snd (finish_op E app rq c d key op m b st)) = key_tables st"
  by (simp_all add: key_tables_def)

lemma begin_op_key_tables: "begin_op E app rq c code q name op ts us st = (r, st') \<Longrightarrow> key_tables st' = key_tables st"
  using begin_op_tables by (fastforce simp: key_tables_def)

lemma operations_keep_tables:
  "key_tables (snd (key_encrypt E app rq name p a q code c st)) = key_tables st"
  "key_tables (snd (key_decrypt E app rq name p a q code c st)) = key_tables st"
  "key_tables (snd (key_datakey E app rq name q code c st)) = key_tables st"
  "key_tables (snd (key_sign E app rq name p q code c st)) = key_tables st"
  "key_tables (snd (key_hmac E K app rq name p a q code c st)) = key_tables st"
  "key_tables (snd (key_verify E K app rq name p sg a q code c st)) = key_tables st"
  "key_tables (snd (issue_token E K app rq name req q code c st)) = key_tables st"
  "key_tables (snd (verify_token E K app rq name tok a q code c st)) = key_tables st"
  by (auto simp: key_encrypt_def key_decrypt_def key_datakey_def key_sign_def key_hmac_def key_verify_def issue_token_def
      verify_token_def Let_def split: prod.splits sum.splits dest: begin_op_key_tables)

section \<open>The invariant\<close>

text \<open>A version row belongs to a key: its number is one of the key's, and its material can be unsealed.\<close>

definition version_ok :: "ext \<Rightarrow> app \<Rightarrow> key_row \<Rightarrow> version_row \<Rightarrow> bool" where
  "version_ok E app r w \<longleftrightarrow> kv_key w = kr_id r \<and> 1 \<le> kv_version w \<and> kv_version w \<le> kr_latest r
     \<and> (\<exists>t m. parse_key_type (kr_type r) = Inr t \<and> length m = KEY_LEN \<and> kv_public w = public_key E t m
          \<and> aead_open_aad E (kv_material w) (managed_key_kek app) (material_aad (kv_key w) (kv_version w)) = Inr m)"

definition key_rows_ok :: "ext \<Rightarrow> app \<Rightarrow> key_row list \<Rightarrow> version_row list \<Rightarrow> bool" where
  "key_rows_ok E app ks vs \<longleftrightarrow> distinct (map kr_id ks) \<and> distinct (map (\<lambda>r. (kr_domain r, kr_name_id r)) ks)
     \<and> distinct (map (\<lambda>w. (kv_key w, kv_version w)) vs)
     \<and> (\<forall>r \<in> set ks. 1 \<le> kr_latest r \<and> kr_latest r \<le> i32_max
          \<and> (\<forall>v. 1 \<le> v \<and> v \<le> kr_latest r \<longrightarrow> (\<exists>w \<in> set vs. kv_key w = kr_id r \<and> kv_version w = v)))
     \<and> (\<forall>w \<in> set vs. \<exists>r \<in> set ks. version_ok E app r w)"

definition keys_inv :: "ext \<Rightarrow> app \<Rightarrow> 'a keys_state_scheme \<Rightarrow> bool" where
  "keys_inv E app st \<longleftrightarrow> key_rows_ok E app (keys st) (key_versions st)"

lemma keys_inv_tables: "key_tables st' = key_tables st \<Longrightarrow> keys_inv E app st' = keys_inv E app st"
  by (simp add: keys_inv_def key_tables_def)

lemma parse_key_type_str: "parse_key_type (key_type_str t) = Inr t"
  by (cases t) (simp_all add: parse_key_type_def to_ascii_lowercase_def Let_def)

lemma new_material_length: "new_material E rq t i = Inr m \<Longrightarrow> length m = KEY_LEN"
  by (auto simp: new_material_def check_material_def elim!: and_then_InrE split: option.splits if_splits)

lemma seal_material_opens:
  assumes "gcm_law E" and "length n = 12" and "seal_material E app n i v m = Inr s"
  shows "aead_open_aad E s (managed_key_kek app) (material_aad i v) = Inr m"
  using assms aead_aad_open(1) [OF assms(1) _ assms(2)] by (auto simp: seal_material_def)

lemma insert_key_rows:
  assumes "key_rows_ok E app ks vs" and "kr_id r \<notin> kr_id ` set ks" and "(kr_domain r, kr_name_id r) \<notin> (\<lambda>q. (kr_domain q, kr_name_id q)) ` set ks"
    and "kr_latest r = 1" and "version_ok E app r w" and "kv_version w = 1"
  shows "key_rows_ok E app (ks @ [r]) (vs @ [w])"
proof -
  have other: "kv_key v \<noteq> kr_id r" if "v \<in> set vs" for v
  proof -
    obtain q where "q \<in> set ks" "version_ok E app q v" using assms(1) \<open>v \<in> set vs\<close> by (auto simp: key_rows_ok_def)
    then show ?thesis using assms(2) unfolding version_ok_def by (metis imageI)
  qed
  have w: "kv_key w = kr_id r" using assms(5) by (simp add: version_ok_def)
  have "(kv_key w, kv_version w) \<notin> set (map (\<lambda>w. (kv_key w, kv_version w)) vs)"
    using other unfolding w by fastforce
  then have "distinct (map (\<lambda>w. (kv_key w, kv_version w)) (vs @ [w]))"
    using assms(1) by (simp add: key_rows_ok_def)
  moreover have "\<exists>w' \<in> set (vs @ [w]). kv_key w' = kr_id q \<and> kv_version w' = v"
    if "q \<in> set (ks @ [r])" "1 \<le> v" "v \<le> kr_latest q" for q v
  proof (cases "q = r")
    case True
    then show ?thesis using that assms(4,6) w by auto
  next
    case False
    then show ?thesis using that assms(1) by (auto simp: key_rows_ok_def)
  qed
  ultimately show ?thesis
    using assms by (simp add: key_rows_ok_def i32_max_def)
qed

lemma rotate_key_rows:
  assumes "key_rows_ok E app ks vs" and "r \<in> set ks" and "kv_key w = kr_id r" and "kv_version w = kr_latest r + 1"
    and "kr_latest r + 1 \<le> i32_max" and "version_ok E app (r\<lparr>kr_latest := kr_latest r + 1, kr_updated := t\<rparr>) w"
  shows "key_rows_ok E app (update_where (\<lambda>q. kr_id q = kr_id r) (\<lambda>q. q\<lparr>kr_latest := kr_latest r + 1, kr_updated := t\<rparr>) ks) (vs @ [w])"
proof -
  define up where "up = (\<lambda>q :: key_row. if kr_id q = kr_id r then q\<lparr>kr_latest := kr_latest r + 1, kr_updated := t\<rparr> else q)"
  have ks': "update_where (\<lambda>q. kr_id q = kr_id r) (\<lambda>q. q\<lparr>kr_latest := kr_latest r + 1, kr_updated := t\<rparr>) ks = map up ks"
    by (simp add: update_where_def up_def)
  have uniq: "q = r" if "q \<in> set ks" "kr_id q = kr_id r" for q
    using assms(1,2) that by (auto simp: key_rows_ok_def distinct_map inj_on_def)
  have up: "kr_id (up q) = kr_id q" "kr_domain (up q) = kr_domain q" "kr_name_id (up q) = kr_name_id q" "kr_type (up q) = kr_type q" for q
    by (simp_all add: up_def)
  have dist: "distinct (map kr_id (map up ks))" "distinct (map (\<lambda>r. (kr_domain r, kr_name_id r)) (map up ks))"
    using assms(1) by (simp_all add: key_rows_ok_def comp_def up)
  have fresh: "(kv_key v, kv_version v) \<noteq> (kv_key w, kv_version w)" if v: "v \<in> set vs" for v
  proof -
    obtain q where "q \<in> set ks" "version_ok E app q v" using assms(1) v by (auto simp: key_rows_ok_def)
    then show ?thesis using uniq [of q] assms(3,4) by (auto simp: version_ok_def)
  qed
  then have vdist: "distinct (map (\<lambda>w. (kv_key w, kv_version w)) (vs @ [w]))"
    using assms(1) by (force simp: key_rows_ok_def)
  have full: "1 \<le> kr_latest (up q) \<and> kr_latest (up q) \<le> i32_max
      \<and> (\<forall>v. 1 \<le> v \<and> v \<le> kr_latest (up q) \<longrightarrow> (\<exists>x \<in> set (vs @ [w]). kv_key x = kr_id (up q) \<and> kv_version x = v))"
    if q: "q \<in> set ks" for q
  proof -
    have old: "1 \<le> kr_latest q" "kr_latest q \<le> i32_max"
        "\<And>v. 1 \<le> v \<Longrightarrow> v \<le> kr_latest q \<Longrightarrow> \<exists>x \<in> set (vs @ [w]). kv_key x = kr_id q \<and> kv_version x = v"
      using assms(1) q by (auto simp: key_rows_ok_def)
    show ?thesis
    proof (cases "kr_id q = kr_id r")
      case True
      then have qr: "q = r" using uniq q by blast
      have "\<exists>x \<in> set (vs @ [w]). kv_key x = kr_id r \<and> kv_version x = v" if "1 \<le> v" "v \<le> kr_latest r + 1" for v
        using old(3) [of v] that assms(3,4) qr by (cases "v = kr_latest r + 1") auto
      then show ?thesis using qr old(1) assms(5) by (simp add: up_def)
    next
      case False
      then have "up q = q" by (simp add: up_def)
      with old show ?thesis by metis
    qed
  qed
  have old_ok: "\<exists>q' \<in> set (map up ks). version_ok E app q' x" if x: "x \<in> set vs" for x
  proof -
    obtain q where q: "q \<in> set ks" "version_ok E app q x" using x assms(1) by (auto simp: key_rows_ok_def)
    then have "version_ok E app (up q) x" using uniq [of q] by (auto simp: version_ok_def up_def)
    with q(1) show ?thesis by auto
  qed
  have "up r = r\<lparr>kr_latest := kr_latest r + 1, kr_updated := t\<rparr>" by (simp add: up_def)
  with assms(2,6) have "\<exists>q' \<in> set (map up ks). version_ok E app q' w" by (metis image_eqI list.set_map)
  with old_ok have "\<forall>x \<in> set (vs @ [w]). \<exists>q' \<in> set (map up ks). version_ok E app q' x" by simp
  with dist vdist full show ?thesis unfolding ks' key_rows_ok_def by simp
qed

lemma delete_key_rows:
  assumes "key_rows_ok E app ks vs"
  shows "key_rows_ok E app (delete_where (\<lambda>r. kr_id r = i) ks) (delete_where (\<lambda>w. kv_key w = i) vs)"
proof -
  have "\<exists>r \<in> set (delete_where (\<lambda>r. kr_id r = i) ks). version_ok E app r w" if "w \<in> set (delete_where (\<lambda>w. kv_key w = i) vs)" for w
    using assms that by (fastforce simp: key_rows_ok_def delete_where_def version_ok_def)
  moreover have "\<exists>w \<in> set (delete_where (\<lambda>w. kv_key w = i) vs). kv_key w = kr_id r \<and> kv_version w = v"
    if "r \<in> set (delete_where (\<lambda>r. kr_id r = i) ks)" "1 \<le> v" "v \<le> kr_latest r" for r v
    using assms that by (fastforce simp: key_rows_ok_def delete_where_def)
  ultimately show ?thesis
    using assms by (simp add: key_rows_ok_def distinct_map_delete_where)
qed

section \<open>Steps\<close>

definition has_key :: "string \<Rightarrow> 'a keys_state_scheme \<Rightarrow> bool" where
  "has_key i st \<longleftrightarrow> i \<in> kr_id ` set (keys st)"

text \<open>A request to the server: the lifecycle of keys, or anything else, which leaves the tables alone.\<close>

inductive key_step :: "ext \<Rightarrow> app \<Rightarrow> keys_state \<Rightarrow> keys_state \<Rightarrow> bool" for E app where
  CreateKey: "key_step E app st (snd (create_key E app rq req q c st))"
| RotateKey: "key_step E app st (snd (rotate_key E app rq name q c st))"
| DeleteKey: "key_step E app st (snd (delete_key E app rq name q c st))"
| Other: "key_tables st' = key_tables st \<Longrightarrow> key_step E app st st'"

text \<open>What every step keeps: the invariant, and the versions of the keys that remain.\<close>

definition versions_kept :: "'a keys_state_scheme \<Rightarrow> 'a keys_state_scheme \<Rightarrow> bool" where
  "versions_kept st st' \<longleftrightarrow> (\<forall>w \<in> set (key_versions st). has_key (kv_key w) st' \<longrightarrow> w \<in> set (key_versions st'))"

lemma versions_kept_tables: "key_tables st' = key_tables st \<Longrightarrow> versions_kept st st'"
  by (simp add: versions_kept_def key_tables_def)

lemma insert_key_step:
  assumes "gcm_law E" and "keys_inv E app st" and "length material = KEY_LEN"
    and "insert_key E app rq req c d t material dec st = (r, st')"
  shows "keys_inv E app st' \<and> versions_kept st st'"
proof -
  let ?id = "hex_encode E (rand rq 1 32)" and ?nid = "key_name_id E app d (ck_name req)"
  consider "key_tables st' = key_tables st"
    | enc sealed where "(seal_material E app (rand rq 3 12) ?id 1 material :: key_reply response + bytes) = Inr sealed"
        "\<forall>r \<in> set (keys st). kr_id r \<noteq> ?id \<and> \<not> (kr_domain r = d \<and> kr_name_id r = ?nid)"
        "key_tables st' = key_tables (put_key E app rq req d t material enc sealed st)"
    using assms(4)
    by (auto simp: insert_key_def Let_def list_ex_iff split: sum.splits if_splits)
  then show ?thesis
  proof cases
    case 1
    then show ?thesis using assms(2) keys_inv_tables versions_kept_tables by blast
  next
    case (2 enc sealed)
    have "key_rows_ok E app (keys (put_key E app rq req d t material enc sealed st))
        (key_versions (put_key E app rq req d t material enc sealed st))"
      using seal_material_opens [OF assms(1) length_rand 2(1)] assms(2,3) parse_key_type_str 2(2)
      unfolding put_key_def keys_inv_def by (simp, intro insert_key_rows) (auto simp: version_ok_def)
    then show ?thesis using 2(3) by (simp add: keys_inv_def versions_kept_def key_tables_def put_key_def)
  qed
qed

lemma create_key_step:
  assumes "gcm_law E" and "keys_inv E app st"
  shows "keys_inv E app (snd (create_key E app rq req q c st)) \<and> versions_kept st (snd (create_key E app rq req q c st))"
proof -
  obtain r st' where r: "create_key E app rq req q c st = (r, st')" by fastforce
  then consider "key_tables st' = key_tables st"
    | d t material dec where "(new_material E rq t (ck_import req) :: key_reply response + bytes) = Inr material"
        "insert_key E app rq req c d t material dec st = (r, st')"
    by (auto simp: create_key_def Let_def split: if_splits sum.splits option.splits)
  then have "keys_inv E app st' \<and> versions_kept st st'"
  proof cases
    case 1
    then show ?thesis using assms(2) keys_inv_tables versions_kept_tables by blast
  next
    case (2 d t material dec)
    then show ?thesis using insert_key_step [OF assms new_material_length] by blast
  qed
  with r show ?thesis by simp
qed

lemma add_version_step:
  assumes "gcm_law E" and "keys_inv E app st" and "add_version E app rq key st = Inr (v, st')"
    and "r \<in> set (keys st)" and "kr_id r = ky_id key" and "parse_key_type (kr_type r) = Inr (ky_type key)"
  shows "keys_inv E app st' \<and> versions_kept st st'"
proof -
  let ?m = "rand rq 0 KEY_LEN"
  have "List.find (\<lambda>q. kr_id q = ky_id key) (keys st) = Some r"
    using assms(2,4,5) find_by_id [of kr_id "keys st" r] by (simp add: keys_inv_def key_rows_ok_def)
  then obtain sealed where a: "(seal_material E app (rand rq 1 12) (kr_id r) (kr_latest r + 1) ?m :: key_reply response + bytes) = Inr sealed"
      "kr_latest r + 1 \<le> i32_max"
      "keys st' = update_where (\<lambda>q. kr_id q = kr_id r) (\<lambda>q. q\<lparr>kr_latest := kr_latest r + 1, kr_updated := now rq\<rparr>) (keys st)"
      "key_versions st' = key_versions st @ [\<lparr>kv_key = kr_id r, kv_version = kr_latest r + 1, kv_material = sealed,
         kv_public = public_key E (ky_type key) ?m, kv_created = now rq\<rparr>]"
    using assms(3,5) by (auto simp: add_version_def Let_def elim!: and_then_InrE split: if_splits)
  let ?w = "\<lparr>kv_key = kr_id r, kv_version = kr_latest r + 1, kv_material = sealed,
         kv_public = public_key E (ky_type key) ?m, kv_created = now rq\<rparr>"
  have "1 \<le> kr_latest r" using assms(2,4) by (simp add: keys_inv_def key_rows_ok_def)
  then have "version_ok E app (r\<lparr>kr_latest := kr_latest r + 1, kr_updated := now rq\<rparr>) ?w"
    using seal_material_opens [OF assms(1) length_rand a(1)] assms(6) by (simp add: version_ok_def)
  then have "key_rows_ok E app (keys st') (key_versions st')"
    using assms(2,4) a(2) unfolding a(3,4) by (intro rotate_key_rows) (simp_all add: keys_inv_def)
  then show ?thesis using a(4) by (simp add: keys_inv_def versions_kept_def)
qed

lemma key_gate_row:
  assumes "key_gate E app rq c q name a aa st = (Inr (key, dec), st')"
  obtains r where "r \<in> set (keys st)" "kr_id r = ky_id key" "parse_key_type (kr_type r) = Inr (ky_type key)"
    "ky_latest key = kr_latest r" "ky_mfa key = kr_mfa r" "ky_name key = name"
  using assms
  by (auto simp: key_gate_def find_key_def find_key_row_def view_key_def Let_def dest!: find_SomeD elim!: and_then_InrE
      split: sum.splits option.splits if_splits)

lemma rotate_key_step:
  assumes "gcm_law E" and "keys_inv E app st"
  shows "keys_inv E app (snd (rotate_key E app rq name q c st)) \<and> versions_kept st (snd (rotate_key E app rq name q c st))"
proof -
  obtain g st1 where g: "key_gate E app rq c q name Update ''key.rotate'' st = (g :: key_reply response + _, st1)" by fastforce
  have same: "key_tables st' = key_tables st \<Longrightarrow> keys_inv E app st' \<and> versions_kept st st'" for st'
    using assms(2) keys_inv_tables versions_kept_tables by blast
  show ?thesis
  proof (cases g)
    case (Inl r)
    then show ?thesis using g key_gate_tables(1) [OF g] same by (simp add: rotate_key_def key_tables_def)
  next
    case (Inr kd)
    obtain key dec where kd: "kd = (key, dec)" by fastforce
    have st1: "st1 = st" using key_gate_tables(2) [OF g Inr] .
    show ?thesis
    proof (cases "add_version E app rq key st")
      case (Inl r)
      then show ?thesis using g \<open>g = Inr kd\<close> kd st1 same by (simp add: rotate_key_def)
    next
      case (Inr vs)
      obtain v st2 where vs: "vs = (v, st2)" by fastforce
      obtain r where "r \<in> set (keys st)" "kr_id r = ky_id key" "parse_key_type (kr_type r) = Inr (ky_type key)"
        using key_gate_row [OF g [unfolded \<open>g = Inr kd\<close> kd]] by blast
      from add_version_step [OF assms _ this, of rq v st2] have "keys_inv E app st2 \<and> versions_kept st st2"
        using Inr vs by simp
      then show ?thesis
        using g \<open>g = Inr kd\<close> kd st1 Inr vs
        by (simp add: rotate_key_def Let_def keys_inv_def versions_kept_def has_key_def)
    qed
  qed
qed

lemma delete_key_step:
  assumes "keys_inv E app st"
  shows "keys_inv E app (snd (delete_key E app rq name q c st)) \<and> versions_kept st (snd (delete_key E app rq name q c st))"
proof -
  obtain g st1 where g: "key_gate E app rq c q name Delete ''key.delete'' st = (g :: key_reply response + _, st1)" by fastforce
  show ?thesis
  proof (cases g)
    case (Inl r)
    then show ?thesis using g key_gate_tables(1) [OF g] assms by (simp add: delete_key_def keys_inv_def versions_kept_def)
  next
    case (Inr kd)
    obtain key dec where kd: "kd = (key, dec)" by fastforce
    have "st1 = st" using key_gate_tables(2) [OF g Inr] .
    with g Inr kd assms show ?thesis
      using delete_key_rows [of E app "keys st" "key_versions st" "ky_id key"]
      by (auto simp: delete_key_def keys_inv_def versions_kept_def has_key_def delete_where_def)
  qed
qed

lemma key_step_keeps:
  assumes "gcm_law E" and "key_step E app st st'" and "keys_inv E app st"
  shows "keys_inv E app st' \<and> versions_kept st st'"
  using assms(2)
proof cases
  case (CreateKey rq req q c)
  then show ?thesis using create_key_step [OF assms(1,3)] by simp
next
  case (RotateKey rq name q c)
  then show ?thesis using rotate_key_step [OF assms(1,3)] by simp
next
  case (DeleteKey rq name q c)
  then show ?thesis using delete_key_step [OF assms(3)] by simp
next
  case Other
  then show ?thesis using assms(3) keys_inv_tables versions_kept_tables by blast
qed

interpretation kept: step_invariant "\<lambda>a b. key_step E app a b \<and> has_key (kv_key w) b"
  "\<lambda>s. gcm_law E \<and> keys_inv E app s \<and> w \<in> set (key_versions s)" for E app w
  by unfold_locales (use key_step_keeps in \<open>auto simp: versions_kept_def\<close>)

interpretation mkeys: step_invariant "key_step E app" "\<lambda>s. gcm_law E \<and> keys_inv E app s" for E app
  by unfold_locales (use key_step_keeps in auto)

section \<open>Using a key\<close>

text \<open>
  The guards of an operation on the material: the row the caller is let through to, whose type is
  one of \<open>ts\<close>; for the types in \<open>us\<close> the operation uses the secret, and a second factor that the
  key requires was valid.
\<close>

definition guarded ::
    "ext \<Rightarrow> app \<Rightarrow> request \<Rightarrow> authenticated_client \<Rightarrow> string option \<Rightarrow> string option \<Rightarrow> string \<Rightarrow> key_type list
      \<Rightarrow> key_type list \<Rightarrow> 'a keys_state_scheme \<Rightarrow> bool" where
  "guarded E app rq c code q name ts us st \<longleftrightarrow> (\<exists>d r t.
     resolve_and_gate_domain E app c q st = (Inr (d, domain_query q) :: key_reply response + string \<times> string)
     \<and> domain_member c d st \<and> find_key_row E app d name st = Some r
     \<and> is_allowed (acl_check E app rq c d name Read st)
     \<and> parse_key_type (kr_type r) = Inr t \<and> t \<in> set ts
     \<and> (t \<in> set us \<and> kr_mfa r \<longrightarrow> (\<exists>x kek. code = Some x \<and> handle E (mfa_secret_kek (bb_keys app)) = Inr kek
          \<and> fst (verify_totp E rq kek (ac_id c) x st) = Inr True)))"

lemma resolve_member:
  assumes "resolve_and_gate_domain E app c q st = Inr (d, n)"
  shows "n = domain_query q \<and> domain_member c d st"
  using assms by (auto simp: resolve_and_gate_domain_def Let_def split: option.splits if_splits)

lemma key_gate_Inr:
  assumes "key_gate E app rq c q name a aa st = (Inr (key, dec) :: key_reply response + _, st')"
  obtains d r where "resolve_and_gate_domain E app c q st = (Inr (d, domain_query q) :: key_reply response + string \<times> string)"
    "domain_member c d st" "find_key_row E app d name st = Some r" "is_allowed (acl_check E app rq c d name a st)"
    "parse_key_type (kr_type r) = Inr (ky_type key)" "kr_mfa r = ky_mfa key" "kr_id r = ky_id key" "st' = st"
proof -
  obtain d n where d: "resolve_and_gate_domain E app c q st = (Inr (d, n) :: key_reply response + string \<times> string)"
    using assms by (auto simp: key_gate_def split: sum.splits)
  note m = resolve_member [OF d]
  from assms d m show thesis
    by (cases "find_key_row E app d name st")
      (auto simp: key_gate_def find_key_def view_key_def Let_def elim!: and_then_InrE
        split: sum.splits option.splits if_splits intro: that)
qed

lemma key_mfa_gate_Inr:
  assumes "key_mfa_gate E app rq c code key aa st = (Inr u, st')" and "ky_mfa key"
  shows "\<exists>x kek. code = Some x \<and> handle E (mfa_secret_kek (bb_keys app)) = Inr kek
    \<and> fst (verify_totp E rq kek (ac_id c) x st) = Inr True"
  using assms
  by (auto simp: key_mfa_gate_def Let_def split: option.splits sum.splits prod.splits if_splits)

lemma begin_op_guarded:
  assumes "begin_op E app rq c code q name op ts uses st = (Inr (key, dec) :: key_reply response + _, st')"
    and "\<And>t. t \<in> set us \<Longrightarrow> uses t"
  shows "guarded E app rq c code q name ts us st"
proof -
  obtain key' dec' st1 where g: "key_gate E app rq c q name Read (''key.'' @ op) st
      = (Inr (key', dec') :: key_reply response + _, st1)" and t: "ky_type key' \<in> set ts"
    and m: "uses (ky_type key') \<longrightarrow> (\<exists>u. key_mfa_gate E app rq c code key' (''key.'' @ op) st1 = (Inr u :: key_reply response + unit, st'))"
    using assms(1) by (auto simp: begin_op_def require_type_def split: prod.splits sum.splits if_splits)
  show ?thesis
    using t m key_mfa_gate_Inr [of E app rq c code key' "''key.'' @ op"] assms(2)
    by (rule_tac key_gate_Inr [OF g]) (fastforce simp: guarded_def)
qed

lemma begin_op_row:
  assumes "begin_op E app rq c code q name op ts us st = (Inr (key, dec) :: key_reply response + _, st')"
  obtains r where "r \<in> set (keys st)" "kr_id r = ky_id key" "parse_key_type (kr_type r) = Inr (ky_type key)"
    "ky_latest key = kr_latest r"
proof -
  obtain st1 where g: "key_gate E app rq c q name Read (''key.'' @ op) st = (Inr (key, dec) :: key_reply response + _, st1)"
    using assms by (auto simp: begin_op_def split: prod.splits sum.splits if_splits)
  show thesis using key_gate_row [OF g] that by metis
qed

text \<open>With the invariant, the material of every version of a key can be loaded.\<close>

lemma load_version:
  assumes "keys_inv E app st" and "r \<in> set (keys st)" and "kr_id r = ky_id key" and "ky_latest key = kr_latest r"
    and "parse_key_type (kr_type r) = Inr (ky_type key)" and "w \<in> set (key_versions st)" and "kv_key w = ky_id key"
  shows "version_of (ky_id key) (kv_version w) st = Some w"
    "check_version key (kv_version w) = Inr ()"
    "\<exists>m. load_material E app key (kv_version w) st = Inr m \<and> length m = KEY_LEN \<and> kv_public w = public_key E (ky_type key) m"
proof -
  have inv: "distinct (map kr_id (keys st))" "distinct (map (\<lambda>w. (kv_key w, kv_version w)) (key_versions st))"
      "\<forall>w \<in> set (key_versions st). \<exists>r \<in> set (keys st). version_ok E app r w"
    using assms(1) by (simp_all add: keys_inv_def key_rows_ok_def)
  obtain q where q: "q \<in> set (keys st)" "version_ok E app q w" using inv(3) assms(6) by blast
  have "kr_id q = kr_id r" using q(2) assms(3,7) by (simp add: version_ok_def)
  then have "q = r" by (rule unique_row [OF inv(1) assms(2) q(1)])
  with q have w: "version_ok E app r w" by simp
  show v: "version_of (ky_id key) (kv_version w) st = Some w"
    using find_by_id [OF inv(2) assms(6)] assms(7) by (simp add: version_of_def)
  have le: "1 \<le> kv_version w" "kv_version w \<le> ky_latest key" using w assms(4) by (simp_all add: version_ok_def)
  then show "check_version key (kv_version w) = Inr ()" by (simp add: check_version_def)
  show "\<exists>m. load_material E app key (kv_version w) st = Inr m \<and> length m = KEY_LEN \<and> kv_public w = public_key E (ky_type key) m"
  proof -
    obtain t m where m: "parse_key_type (kr_type r) = Inr t" "length m = KEY_LEN" "kv_public w = public_key E t m"
        "aead_open_aad E (kv_material w) (managed_key_kek app) (material_aad (kv_key w) (kv_version w)) = Inr m"
      using w unfolding version_ok_def by blast
    then have "load_material E app key (kv_version w) st = Inr m"
      using v le assms(7) by (simp add: load_material_def check_version_def)
    with m assms(5) show ?thesis by (intro exI [of _ m]) simp
  qed
qed

text \<open>An early return is never a success.\<close>

lemma no_reply [simp]:
  "b64_field E x \<noteq> Inl (Reply n y)" "aad_field E a \<noteq> Inl (Reply n y)" "alg_field al \<noteq> Inl (Reply n y)"
  "load_material E app key v st \<noteq> Inl (Reply n y)" "load_public key v st \<noteq> Inl (Reply n y)"
  "resolve_and_gate_domain E app c q st \<noteq> Inl (Reply n y)" "find_key E app d name st \<noteq> Inl (Reply n y)"
  by (auto simp: b64_field_def aad_field_def alg_field_def load_material_def load_public_def check_version_def find_key_def
      view_key_def resolve_and_gate_domain_def map_err_def ok_or_def and_then_def Let_def
      split: option.splits sum.splits if_splits)

lemma gate_no_reply [simp]: "key_gate E app rq c q name a aa st \<noteq> (Inl (Reply n y), st')"
  by (auto simp: key_gate_def Let_def split: sum.splits option.splits)

lemma begin_op_no_reply [simp]: "begin_op E app rq c code q name op ts us st \<noteq> (Inl (Reply n y), st')"
  by (auto simp: begin_op_def require_type_def key_mfa_gate_def Let_def
      split: prod.splits sum.splits if_splits option.splits)

lemma b64_field_Inr: "b64_field E p = Inr x \<longleftrightarrow> b64_decode E (trim p) = Some x"
  by (cases "b64_decode E (trim p)") (simp_all add: b64_field_def)

lemma encrypt_Ciphertext:
  assumes "key_encrypt E app rq name p aad q code c st = (Reply 200 (Ciphertext ct v), st1)"
  obtains plain a key dec st0 m x where "b64_decode E (trim p) = Some plain" "aad_field E aad = (Inr a :: key_reply response + bytes)"
    "begin_op E app rq c code q name ''encrypt'' [Aes256Gcm] (\<lambda>_. True) st = (Inr (key, dec) :: key_reply response + _, st0)"
    "load_material E app key (ky_latest key) st0 = (Inr m :: key_reply response + bytes)"
    "aead_seal_aad E (rand rq 0 12) plain m a = Inr x" "ct = versioned E (ky_latest key) x" "v = ky_latest key"
    "key_tables st1 = key_tables st0"
  using assms
  by (auto simp: key_encrypt_def b64_field_Inr finish_op_def split: sum.splits prod.splits)

lemma load_material_Inr:
  assumes "load_material E app key v st = Inr m"
  obtains w where "w \<in> set (key_versions st)" "kv_key w = ky_id key" "kv_version w = v" "version_of (ky_id key) v st = Some w"
  using assms by (auto simp: load_material_def version_of_def elim!: and_then_InrE dest!: find_SomeD)

lemma load_material_version:
  assumes "version_of i v st = version_of i v st'" and "ky_id key = i" and "ky_id key' = i"
    and "load_material E app key v st = Inr m" and "check_version key' v = Inr ()"
  shows "load_material E app key' v st' = Inr m"
  using assms by (auto simp: load_material_def check_version_def elim!: and_then_InrE split: if_splits)

text \<open>A success has gone through \<open>begin_op\<close>.\<close>

lemma encrypt_guarded:
  assumes "fst (key_encrypt E app rq name p aad q code c st) = Reply 200 b"
  shows "guarded E app rq c code q name [Aes256Gcm] [Aes256Gcm] st"
proof -
  obtain key dec st0 where "begin_op E app rq c code q name ''encrypt'' [Aes256Gcm] (\<lambda>_. True) st
      = (Inr (key, dec) :: key_reply response + _, st0)"
    using assms by (auto simp: key_encrypt_def split: sum.splits prod.splits)
  then show ?thesis by (rule begin_op_guarded) simp
qed

lemma decrypt_guarded:
  assumes "fst (key_decrypt E app rq name p aad q code c st) = Reply 200 b"
  shows "guarded E app rq c code q name [Aes256Gcm] [Aes256Gcm] st"
proof -
  obtain key dec st0 where "begin_op E app rq c code q name ''decrypt'' [Aes256Gcm] (\<lambda>_. True) st
      = (Inr (key, dec) :: key_reply response + _, st0)"
    using assms by (auto simp: key_decrypt_def split: sum.splits prod.splits)
  then show ?thesis by (rule begin_op_guarded) simp
qed

lemma datakey_guarded:
  assumes "fst (key_datakey E app rq name q code c st) = Reply 200 b"
  shows "guarded E app rq c code q name [Aes256Gcm] [Aes256Gcm] st"
proof -
  obtain key dec st0 where "begin_op E app rq c code q name ''datakey'' [Aes256Gcm] (\<lambda>_. True) st
      = (Inr (key, dec) :: key_reply response + _, st0)"
    using assms by (auto simp: key_datakey_def split: sum.splits prod.splits)
  then show ?thesis by (rule begin_op_guarded) simp
qed

lemma sign_guarded:
  assumes "fst (key_sign E app rq name p q code c st) = Reply 200 b"
  shows "guarded E app rq c code q name [Ed25519] [Ed25519] st"
proof -
  obtain key dec st0 where "begin_op E app rq c code q name ''sign'' [Ed25519] (\<lambda>_. True) st
      = (Inr (key, dec) :: key_reply response + _, st0)"
    using assms by (auto simp: key_sign_def split: sum.splits prod.splits)
  then show ?thesis by (rule begin_op_guarded) simp
qed

lemma hmac_guarded:
  assumes "fst (key_hmac E K app rq name p alg q code c st) = Reply 200 b"
  shows "guarded E app rq c code q name [Hmac] [Hmac] st"
proof -
  obtain key dec st0 where "begin_op E app rq c code q name ''hmac'' [Hmac] (\<lambda>_. True) st
      = (Inr (key, dec) :: key_reply response + _, st0)"
    using assms by (auto simp: key_hmac_def split: sum.splits prod.splits)
  then show ?thesis by (rule begin_op_guarded) simp
qed

lemma issue_guarded:
  assumes "fst (issue_token E K app rq name req q code c st) = Reply 200 b"
  shows "guarded E app rq c code q name [Ed25519, Hmac] [Ed25519, Hmac] st"
proof -
  obtain key dec st0 where "begin_op E app rq c code q name ''token'' [Ed25519, Hmac] (\<lambda>_. True) st
      = (Inr (key, dec) :: key_reply response + _, st0)"
    using assms by (auto simp: issue_token_def split: sum.splits prod.splits)
  then show ?thesis by (rule begin_op_guarded) simp
qed

lemma verify_guarded:
  assumes "fst (key_verify E K app rq name p sig alg q code c st) = Reply 200 b"
  shows "guarded E app rq c code q name [Ed25519, Hmac] [Hmac] st"
proof -
  obtain key dec st1 where "begin_op E app rq c code q name ''verify'' [Ed25519, Hmac] (\<lambda>t. t = Hmac) st
      = (Inr (key, dec) :: key_reply response + _, st1)"
    using assms by (auto simp: key_verify_def b64_field_def ok_or_def alg_field_def map_err_def
        split: option.splits sum.splits prod.splits)
  then show ?thesis by (rule begin_op_guarded) simp
qed

lemma token_verify_guarded:
  assumes "fst (verify_token E K app rq name token aud q code c st) = Reply 200 b"
  shows "guarded E app rq c code q name [Ed25519, Hmac] [Hmac] st"
proof -
  obtain key dec st1 where "begin_op E app rq c code q name ''token.verify'' [Ed25519, Hmac] (\<lambda>t. t = Hmac) st
      = (Inr (key, dec) :: key_reply response + _, st1)"
    using assms by (auto simp: verify_token_def split: sum.splits prod.splits)
  then show ?thesis by (rule begin_op_guarded) simp
qed

text \<open>What is sealed under the latest version of a key is opened by \<open>decrypt\<close> as long as the key exists.\<close>

lemma sealed_version_opens:
  assumes "gcm_law E" and "b64_law E" and "b64_text_law E" and "keys_inv E app st"
    and "begin_op E app rq c code q name op [Aes256Gcm] (\<lambda>_. True) st = (Inr (key0, dec0) :: key_reply response + _, st0)"
    and "load_material E app key0 (ky_latest key0) st0 = (Inr m :: key_reply response + bytes)"
    and "aead_seal_aad E nonce plain m a = Inr x" and "length nonce = 12" and "key_tables st1 = key_tables st0"
    and "resolve_and_gate_domain E app c q st = (Inr (d, n) :: key_reply response + string \<times> string)"
    and "find_key_row E app d name st = Some r"
    and "rtranclp (\<lambda>a b. key_step E app a b \<and> has_key (kr_id r) b) st1 st2"
    and "begin_op E app rq' c' code' q' name' ''decrypt'' [Aes256Gcm] (\<lambda>_. True) st2 = (Inr (key, dec) :: key_reply response + _, st3)"
    and "ky_id key = kr_id r" and "aad_field E aad = (Inr a :: key_reply response + bytes)"
  shows "key_decrypt E app rq' name' (versioned E (ky_latest key0) x) aad q' code' c' st2
    = finish_op E app rq' c' dec key ''decrypt'' None (Plaintext (b64_encode E plain) (ky_latest key0)) st3"
proof -
  let ?v = "ky_latest key0"
  have tab: "key_tables st0 = key_tables st" "key_tables st3 = key_tables st2"
    using begin_op_key_tables [OF assms(5)] begin_op_key_tables [OF assms(13)] by simp_all
  obtain g where "key_gate E app rq c q name Read (''key.'' @ op) st = (Inr (key0, dec0) :: key_reply response + _, g)"
    using assms(5) by (auto simp: begin_op_def split: prod.splits sum.splits if_splits)
  then have id: "ky_id key0 = kr_id r"
    by (rule key_gate_Inr) (use assms(10,11) in auto)
  obtain w where w: "w \<in> set (key_versions st0)" "kv_key w = kr_id r" "kv_version w = ?v" "version_of (kr_id r) ?v st0 = Some w"
    using load_material_Inr [OF assms(6)] id by metis
  have "gcm_law E \<and> keys_inv E app st1 \<and> w \<in> set (key_versions st1)"
    using assms(1,4,9) w(1) tab(1) keys_inv_tables [of st1 st E app] by (simp add: key_tables_def)
  from kept.steps_keep [OF assms(12) [folded w(2)] this]
  have inv: "keys_inv E app st3" "w \<in> set (key_versions st3)"
    using tab(2) keys_inv_tables [of st3 st2 E app] by (simp_all add: key_tables_def)
  obtain r2 where r2: "r2 \<in> set (keys st3)" "kr_id r2 = ky_id key" "parse_key_type (kr_type r2) = Inr (ky_type key)"
      "ky_latest key = kr_latest r2"
    using begin_op_row [OF assms(13)] tab(2) by (metis key_tables_def prod.inject)
  note l = load_version [OF inv(1) r2(1,2,4,3) inv(2)]
  have "load_material E app key ?v st3 = (Inr m :: key_reply response + bytes)"
    using l(1,2) w(2-4) assms(14,6) id by (intro load_material_version [of "kr_id r" ?v st0 st3 key0 key]) simp_all
  moreover have "1 \<le> ?v \<and> ?v \<le> i32_max"
    using l(2) w(2,3) assms(14) r2(1,4) inv(1) by (auto simp: check_version_def keys_inv_def key_rows_ok_def split: if_splits)
  then have "parse_versioned E (versioned E ?v x) = Inr (?v, x)" using versioned_round_trip [OF assms(2,3)] by simp
  ultimately show ?thesis
    using assms(13,15) aead_aad_open(1) [OF assms(1,7,8)] by (simp add: key_decrypt_def)
qed

section \<open>Properties\<close>

text \<open>
  C10. No rotation strands a ciphertext: what \<open>encrypt\<close> returns is decrypted to the plaintext after
  any sequence of requests that leaves the key in existence, however often it has been rotated,
  for every caller who is let through to that key, under the same associated data.
\<close>

theorem ciphertext_survives:
  assumes "gcm_law E" and "b64_law E" and "b64_text_law E" and "keys_inv E app st"
    and "key_encrypt E app rq name p aad q code c st = (Reply 200 (Ciphertext ct v), st1)"
    and "resolve_and_gate_domain E app c q st = (Inr (d, n) :: key_reply response + string \<times> string)"
    and "find_key_row E app d name st = Some r"
    and "rtranclp (\<lambda>a b. key_step E app a b \<and> has_key (kr_id r) b) st1 st2"
    and "begin_op E app rq' c' code' q' name' ''decrypt'' [Aes256Gcm] (\<lambda>_. True) st2 = (Inr (key, dec) :: key_reply response + _, st3)"
    and "ky_id key = kr_id r"
  shows "\<exists>plain st4. b64_decode E (trim p) = Some plain
    \<and> key_decrypt E app rq' name' ct aad q' code' c' st2 = (Reply 200 (Plaintext (b64_encode E plain) v), st4)"
proof -
  obtain plain a key0 dec0 st0 m x where e: "b64_decode E (trim p) = Some plain"
    "aad_field E aad = (Inr a :: key_reply response + bytes)"
    "begin_op E app rq c code q name ''encrypt'' [Aes256Gcm] (\<lambda>_. True) st = (Inr (key0, dec0) :: key_reply response + _, st0)"
    "load_material E app key0 (ky_latest key0) st0 = (Inr m :: key_reply response + bytes)"
    "aead_seal_aad E (rand rq 0 12) plain m a = Inr x" "ct = versioned E (ky_latest key0) x" "v = ky_latest key0"
    "key_tables st1 = key_tables st0"
    using encrypt_Ciphertext [OF assms(5)] by metis
  from sealed_version_opens [OF assms(1-4) e(3-5) length_rand e(8) assms(6-10) e(2)] e(1,6,7)
  show ?thesis by (simp add: finish_op_def)
qed

text \<open>
  Every version of every key can be used: in every state reached from empty tables by any
  sequence of requests, the material of each version from the first to the latest of a key that
  the gate returns is found, passes its integrity check and has 32 bytes, and the public key on
  record for an Ed25519 key is the one of that material.
\<close>

theorem keys_usable:
  assumes "gcm_law E" and "ed_law E" and "keys st0 = []" and "key_versions st0 = []" and "rtranclp (key_step E app) st0 st"
    and "key_gate E app rq c q name a aa st = (Inr (key, dec) :: key_reply response + _, st')" and "1 \<le> v" and "v \<le> ky_latest key"
  shows "\<exists>m. load_material E app key v st' = (Inr m :: key_reply response + bytes) \<and> length m = 32
    \<and> (ky_type key = Ed25519 \<longrightarrow> load_public key v st' = (Inr (ed_public E m) :: key_reply response + bytes))"
proof -
  have "keys_inv E app st0" using assms(3,4) by (simp add: keys_inv_def key_rows_ok_def)
  then have inv: "keys_inv E app st" using mkeys.steps_keep [OF assms(5)] assms(1) by blast
  have st': "st' = st" using key_gate_tables(2) [OF assms(6)] by simp
  obtain r where r: "r \<in> set (keys st)" "kr_id r = ky_id key" "parse_key_type (kr_type r) = Inr (ky_type key)" "ky_latest key = kr_latest r"
    using key_gate_row [OF assms(6)] by metis
  have "\<exists>w \<in> set (key_versions st). kv_key w = kr_id r \<and> kv_version w = v"
    using inv r(1,4) assms(7,8) by (simp add: keys_inv_def key_rows_ok_def)
  then obtain w where w: "w \<in> set (key_versions st)" "kv_key w = ky_id key" "kv_version w = v" using r(2) by auto
  note l = load_version [OF inv r(1,2,4,3) w(1,2)]
  obtain m where m: "load_material E app key v st = (Inr m :: key_reply response + bytes)" "length m = KEY_LEN"
      "kv_public w = public_key E (ky_type key) m"
    using l(3) w(3) by auto
  have "load_public key v st = (Inr (ed_public E m) :: key_reply response + bytes)" if "ky_type key = Ed25519"
    using l(1) w(3) m(2,3) that assms(2,7,8)
    by (simp add: load_public_def check_version_def public_key_def ed25519_public_def KEY_LEN_def bytes32_def ed_law_def)
  with m(1,2) st' show ?thesis by (auto simp: KEY_LEN_def)
qed

text \<open>
  C33. Material is used only through every guard: whenever one of the eight operations that load
  the secret of a key succeeds (verification of signatures and of tokens included, which load it
  for an HMAC key), the caller is a member of the domain, a rule allows it to read the key, the
  key has a type of the operation, and a second factor that the key requires was valid. Only the
  verification with an Ed25519 key, which uses the public key alone, asks for no second factor.
\<close>

theorem key_use_guarded:
  "(fst (key_encrypt E app rq name p aad q code c st) = Reply 200 b \<longrightarrow> guarded E app rq c code q name [Aes256Gcm] [Aes256Gcm] st)
  \<and> (fst (key_decrypt E app rq name p aad q code c st) = Reply 200 b \<longrightarrow> guarded E app rq c code q name [Aes256Gcm] [Aes256Gcm] st)
  \<and> (fst (key_datakey E app rq name q code c st) = Reply 200 b \<longrightarrow> guarded E app rq c code q name [Aes256Gcm] [Aes256Gcm] st)
  \<and> (fst (key_sign E app rq name p q code c st) = Reply 200 b \<longrightarrow> guarded E app rq c code q name [Ed25519] [Ed25519] st)
  \<and> (fst (key_hmac E K app rq name p alg q code c st) = Reply 200 b \<longrightarrow> guarded E app rq c code q name [Hmac] [Hmac] st)
  \<and> (fst (issue_token E K app rq name req q code c st) = Reply 200 b
       \<longrightarrow> guarded E app rq c code q name [Ed25519, Hmac] [Ed25519, Hmac] st)
  \<and> (fst (key_verify E K app rq name p sig alg q code c st) = Reply 200 b
       \<longrightarrow> guarded E app rq c code q name [Ed25519, Hmac] [Hmac] st)
  \<and> (fst (verify_token E K app rq name token aud q code c st) = Reply 200 b
       \<longrightarrow> guarded E app rq c code q name [Ed25519, Hmac] [Hmac] st)"
  by (intro conjI impI) (erule encrypt_guarded decrypt_guarded datakey_guarded sign_guarded hmac_guarded issue_guarded
      verify_guarded token_verify_guarded)+

text \<open>
  A caller who may use an HMAC key can mint tokens with any claims and any lifetime: the MAC
  that \<open>hmac\<close> returns for the signing input of an arbitrary set of claims is a signature that
  \<open>token/verify\<close> accepts, with exactly these claims, although \<open>token_claims\<close> bounds the lifetime
  and sets the reserved claims of the tokens issued by \<open>token\<close>.
\<close>

lemma hmac_mints_token:
  assumes "url_law E K" and "json_law K {token_header_for ''HS256'' None, cl}" and "distinct (map fst cl)" and "b64_law E"
    and "b64_text_law E" and "keys_inv E app st"
    and "key_hmac E K app rq name (b64_encode E (as_bytes (signing_input E K (token_header_for ''HS256'' None) cl)))
      (Some ''sha256'') q code c st = (Reply 200 (Mac mac alg v), st1)"
    and "begin_op E app rq c code q name ''hmac'' [Hmac] (\<lambda>_. True) st = (Inr (key, dec) :: key_reply response + _, st0)"
    and "begin_op E app rq' c' code' q' name' ''token.verify'' [Ed25519, Hmac] (\<lambda>t. t = Hmac) st1
      = (Inr (key, dec') :: key_reply response + _, st2)"
    and "claims_checked (now_unix rq') audience cl = Inr ()"
  shows "\<exists>tag cl'. parse_versioned E mac = Inr (v, tag) \<and> map_of cl' = map_of cl
    \<and> fst (verify_token E K app rq' name' (signing_input E K (token_header_for ''HS256'' None) cl @ ''.'' @ b64url_encode E tag)
         audience q' code' c' st1) = Reply 200 (TokenValid (name' @ '':v'' @ show_int v) cl')"
proof -
  let ?h = "token_header_for ''HS256'' None"
  let ?inp = "signing_input E K ?h cl"
  have "trim (b64_encode E x) = b64_encode E x" for x using assms(5) by (simp add: trim_visible b64_text_law_def)
  then have inp: "b64_field E (b64_encode E (as_bytes ?inp)) = (Inr (as_bytes ?inp) :: key_reply response + bytes)"
    using b64_lawD [OF assms(4)] by (simp add: b64_field_def)
  have alg: "alg_field (Some ''sha256'') = (Inr Sha256 :: key_reply response + hash_alg)"
    by (simp add: alg_field_def parse_hash_alg_def to_ascii_lowercase_def Let_def)
  obtain m where m: "load_material E app key (ky_latest key) st0 = (Inr m :: key_reply response + bytes)" "v = ky_latest key"
      "mac = versioned E v (hmac_of K Sha256 m (as_bytes ?inp))" "key_tables st1 = key_tables st0"
    using assms(7) inp alg assms(8) by (auto simp: key_hmac_def finish_op_def hmac_def split: sum.splits)
  have tab: "key_tables st2 = key_tables st0" "key_tables st0 = key_tables st"
    using begin_op_key_tables [OF assms(9)] begin_op_key_tables [OF assms(8)] m(4) by simp_all
  have load: "load_material E app key v st2 = (Inr m :: key_reply response + bytes)"
    using m(1,2) tab(1) by (simp add: load_material_def version_of_def key_tables_def)
  obtain r where "r \<in> set (keys st)" "ky_latest key = kr_latest r" using begin_op_row [OF assms(8)] by metis
  then have v: "1 \<le> v" "v \<le> i32_max" using m(2) assms(6) by (simp_all add: keys_inv_def key_rows_ok_def)
  have type: "ky_type key = Hmac"
    using assms(8) by (auto simp: begin_op_def require_type_def split: prod.splits sum.splits if_splits)
  let ?tag = "hmac_of K Sha256 m (as_bytes ?inp)"
  have hd: "distinct (map fst ?h)" "as_str (map_of ?h ''alg'') = Some ''HS256''" "as_str (map_of ?h ''kid'') = None"
    by (simp_all add: token_header_for_def as_str_def)
  obtain cl' where cl': "map_of cl' = map_of cl"
      "token_verify E K (?inp @ ''.'' @ b64url_encode E ?tag) (VerifyHmac m) (now_unix rq') audience = Inr cl'"
    using token_verify_signed [OF assms(1,2) hd(1) assms(3), of "VerifyHmac m" ?tag "now_unix rq'" audience] hd(2) assms(10)
    by (auto simp: sig_ok_def hmac_verify_def)
  obtain h' where "token_json K (b64url_encode E (json_print K (JObject ?h))) = Inr h'" "map_of h' = map_of ?h"
    using token_json_print [OF assms(1,2) _ hd(1)] by blast
  then have "token_version K (?inp @ ''.'' @ b64url_encode E ?tag) key = Inr v"
    using token_split(1) [OF assms(1,2) hd(1) assms(3)] hd(3) m(2) by (simp add: token_version_def token_header_def)
  then have "fst (verify_token E K app rq' name' (?inp @ ''.'' @ b64url_encode E ?tag) audience q' code' c' st1)
      = Reply 200 (TokenValid (name' @ '':v'' @ show_int v) cl')"
    using assms(9) v m(2) type load cl'(2) by (simp add: verify_token_def Let_def finish_op_def)
  with cl'(1) versioned_round_trip [OF assms(4,5) v] m(3) show ?thesis by blast
qed

section \<open>Witnesses\<close>

text \<open>A key ring with the default domain and no key, and what \<open>create_key\<close> makes of it.\<close>

definition demo_keys_domain :: domain_row where
  "demo_keys_domain = \<lparr>dm_id = ''dom'', dm_name_enc = [],
     dm_name_id = domain_name_id_hex ops_demo_ext (name_index_key demo_app) ''default'',
     dm_desc_enc = None, dm_created = 0, dm_archived = None\<rparr>"

definition demo_ring :: keys_state where
  "demo_ring = \<lparr>audit_log = [], audit_next = 1, anchors = [], archive_files = [], clients = [],
     domains = [demo_keys_domain], members = [], acls = [], keys = [], key_versions = []\<rparr>"

definition demo_create :: create_key_request where
  "demo_create = \<lparr>ck_name = ''k'', ck_type = None, ck_mfa = False, ck_import = None\<rparr>"

definition demo_created :: keys_state where
  "demo_created = snd (create_key ops_demo_ext demo_app (demo_rq 5) demo_create None demo_admin demo_ring)"

definition demo_key_row :: key_row where
  "demo_key_row = \<lparr>kr_id = str_of (zeros 32), kr_name_enc = zeros 12 @ as_bytes ''k'' @ zeros 16,
     kr_name_id = key_name_id ops_demo_ext demo_app ''dom'' ''k'', kr_domain = ''dom'', kr_type = ''aes256-gcm'', kr_latest = 1,
     kr_mfa = False, kr_created = 5, kr_updated = 5\<rparr>"

definition demo_version_row :: version_row where
  "demo_version_row = \<lparr>kv_key = str_of (zeros 32), kv_version = 1, kv_material = zeros 12 @ zeros 32 @ zeros 16,
     kv_public = None, kv_created = 5\<rparr>"

lemma demo_keys_gate:
  assumes "domains st = [demo_keys_domain]"
  shows "resolve_and_gate_domain ops_demo_ext demo_app demo_admin None st = Inr (''dom'', ''default'')"
  using assms by (simp add: resolve_and_gate_domain_def domain_query_def resolve_domain_def domain_by_name_def demo_keys_domain_def
      domain_member_def is_admin_def demo_admin_def)

lemma demo_keys_allowed: "acl_check E app rq demo_admin d n x st = AllowedAdmin"
  by (simp add: acl_check_def is_admin_def demo_admin_def)

lemma demo_keys_seal:
  "length k = 32 \<Longrightarrow> aead_seal_aad ops_demo_ext (zeros 12) m k a = Inr (zeros 12 @ m @ zeros 16)"
  by (simp add: aead_seal_aad_def ops_demo_ext_def demo_ext_def)

lemma demo_keys_app: "managed_key_kek demo_app = zeros 32" "metadata_enc_key demo_app = zeros 32" "length (zeros n) = n"
  by (simp_all add: demo_app_def zeros_def)

lemma demo_created_tables:
  "keys demo_created = [demo_key_row]" "domains demo_created = [demo_keys_domain]" "key_versions demo_created = [demo_version_row]"
proof -
  have v: "valid_key_name ''k''" by code_simp
  have e: "enc_str ops_demo_ext (zeros 12) (zeros 32) ''k'' = Inr (zeros 12 @ as_bytes ''k'' @ zeros 16)"
    by (simp add: enc_str_def enc_field_def aead_seal_def aead_seal_nonce_def ops_demo_ext_def demo_ext_def zeros_def)
  have t: "parse_key_type ''aes256-gcm'' = Inr Aes256Gcm" using parse_key_type_str [of Aes256Gcm] by simp
  have r: "domains demo_ring = [demo_keys_domain]" "keys demo_ring = []" "key_versions demo_ring = []" by (simp_all add: demo_ring_def)
  have x: "hex_encode ops_demo_ext = str_of" by (simp add: ops_demo_ext_def demo_ext_def)
  have "keys demo_created = [demo_key_row] \<and> domains demo_created = [demo_keys_domain] \<and> key_versions demo_created = [demo_version_row]"
    by (simp add: demo_created_def create_key_def demo_create_def v t new_material_def demo_keys_gate r find_key_def find_key_row_def
        demo_keys_allowed is_allowed_def insert_key_def Let_def demo_draw e demo_keys_app seal_material_def demo_keys_seal x
        put_key_def acl_record_use_def audit_key_def demo_key_row_def demo_version_row_def
        public_key_def KEY_LEN_def key_name_id_def)
      (simp add: demo_rq_def)
  then show "keys demo_created = [demo_key_row]" "domains demo_created = [demo_keys_domain]"
    "key_versions demo_created = [demo_version_row]" by simp_all
qed

lemma demo_created_step: "key_step ops_demo_ext demo_app demo_ring demo_created"
  unfolding demo_created_def by (rule CreateKey)

lemma demo_created_inv: "keys_inv ops_demo_ext demo_app demo_created"
proof -
  have "keys_inv ops_demo_ext demo_app demo_ring" by (simp add: demo_ring_def keys_inv_def key_rows_ok_def)
  then show ?thesis using key_step_keeps [OF demo_ops_laws(1) demo_created_step] by blast
qed

text \<open>The administrator is let through to a key without second factor.\<close>

definition demo_view :: "key_row \<Rightarrow> key_view" where
  "demo_view r = \<lparr>ky_id = kr_id r, ky_name = ''k'', ky_type = Aes256Gcm, ky_latest = kr_latest r, ky_mfa = False,
     ky_created = kr_created r, ky_updated = kr_updated r\<rparr>"

definition demo_key :: "key_row \<Rightarrow> bool" where
  "demo_key r \<longleftrightarrow> kr_domain r = ''dom'' \<and> kr_name_id r = key_name_id ops_demo_ext demo_app ''dom'' ''k''
     \<and> kr_type r = ''aes256-gcm'' \<and> \<not> kr_mfa r"

lemma demo_let_through:
  assumes "domains st = [demo_keys_domain]" and "keys st = [r]" and "demo_key r"
  shows "key_gate ops_demo_ext demo_app rq demo_admin None ''k'' a aa st = (Inr (demo_view r, AllowedAdmin) :: key_reply response + _, st)"
    "begin_op ops_demo_ext demo_app rq demo_admin code None ''k'' op [Aes256Gcm] us st
      = (Inr (demo_view r, AllowedAdmin) :: key_reply response + _, st)"
proof -
  have t: "parse_key_type ''aes256-gcm'' = Inr Aes256Gcm" using parse_key_type_str [of Aes256Gcm] by simp
  show g: "key_gate ops_demo_ext demo_app rq demo_admin None ''k'' a aa st = (Inr (demo_view r, AllowedAdmin) :: key_reply response + _, st)"
    for a aa
    using assms by (simp add: key_gate_def demo_keys_gate find_key_def find_key_row_def demo_key_def view_key_def t Let_def
        demo_keys_allowed is_allowed_def demo_view_def)
  show "begin_op ops_demo_ext demo_app rq demo_admin code None ''k'' op [Aes256Gcm] us st
      = (Inr (demo_view r, AllowedAdmin) :: key_reply response + _, st)"
    by (simp add: begin_op_def g require_type_def key_mfa_gate_def demo_view_def)
qed

lemma demo_key_row_ok: "demo_key demo_key_row" by (simp add: demo_key_def demo_key_row_def)

theorem keys_usable_witness:
  "\<exists>m. load_material ops_demo_ext demo_app (demo_view demo_key_row) 1 demo_created = (Inr m :: key_reply response + bytes) \<and> length m = 32"
proof -
  have ed: "ed_law ops_demo_ext" using demo_laws(6) by (simp add: ed_law_def ops_demo_ext_def)
  have "keys demo_ring = []" "key_versions demo_ring = []" by (simp_all add: demo_ring_def)
  from keys_usable [OF demo_ops_laws(1) ed this r_into_rtranclp [where r = "key_step ops_demo_ext demo_app", OF demo_created_step]
      demo_let_through(1) [OF demo_created_tables(2,1) demo_key_row_ok], of 1]
  show ?thesis by (auto simp: demo_view_def demo_key_row_def)
qed

text \<open>The key is used, rotated, and used again.\<close>

definition demo_rotated_ring :: "keys_state \<Rightarrow> keys_state" where
  "demo_rotated_ring st = snd (rotate_key ops_demo_ext demo_app (demo_rq 6) ''k'' None demo_admin st)"

lemma demo_material:
  "load_material ops_demo_ext demo_app (demo_view demo_key_row) 1 demo_created = (Inr (zeros 32) :: key_reply response + bytes)"
proof -
  have "aead_open_aad ops_demo_ext (zeros 12 @ zeros 32 @ zeros 16) (zeros 32) a = Inr (zeros 32)" for a
    using aead_aad_open(1) [OF demo_ops_laws(1) demo_keys_seal, of "zeros 32" "zeros 32" a] by (simp add: demo_keys_app)
  then show ?thesis
    by (simp add: load_material_def check_version_def demo_view_def demo_key_row_def version_of_def demo_created_tables
        demo_version_row_def demo_keys_app)
qed

lemma demo_encrypts:
  "\<exists>ct st1. key_encrypt ops_demo_ext demo_app (demo_rq 5) ''k'' ''AB'' None None None demo_admin demo_created
      = (Reply 200 (Ciphertext ct 1), st1)
    \<and> keys st1 = [demo_key_row] \<and> key_versions st1 = [demo_version_row] \<and> domains st1 = [demo_keys_domain]"
proof -
  have p: "b64_field ops_demo_ext ''AB'' = (Inr (demo_untext (trim ''AB'')) :: key_reply response + bytes)"
    by (simp add: b64_field_def ops_demo_ext_def)
  have l: "ky_latest (demo_view demo_key_row) = 1" by (simp add: demo_view_def demo_key_row_def)
  show ?thesis
    by (simp add: key_encrypt_def p aad_field_def demo_let_through(2) [OF demo_created_tables(2,1) demo_key_row_ok] l demo_material demo_draw
        demo_keys_seal demo_keys_app finish_op_def demo_created_tables acl_record_use_def audit_key_def)
qed

lemma demo_rotates:
  assumes "keys st = [demo_key_row]" and "key_versions st = [demo_version_row]" and "domains st = [demo_keys_domain]"
  shows "keys (demo_rotated_ring st) = [demo_key_row\<lparr>kr_latest := 2, kr_updated := 6\<rparr>]"
    "domains (demo_rotated_ring st) = [demo_keys_domain]"
proof -
  have "keys (demo_rotated_ring st) = [demo_key_row\<lparr>kr_latest := 2, kr_updated := 6\<rparr>] \<and> domains (demo_rotated_ring st) = [demo_keys_domain]"
    using assms
    by (simp add: demo_rotated_ring_def rotate_key_def demo_let_through(1) [OF assms(3,1) demo_key_row_ok] add_version_def Let_def
        demo_view_def demo_key_row_def demo_version_row_def i32_max_def seal_material_def demo_draw demo_keys_app demo_keys_seal
        acl_record_use_def audit_key_def update_where_def)
      (simp add: demo_rq_def)
  then show "keys (demo_rotated_ring st) = [demo_key_row\<lparr>kr_latest := 2, kr_updated := 6\<rparr>]"
    "domains (demo_rotated_ring st) = [demo_keys_domain]" by simp_all
qed

theorem ciphertext_survives_witness:
  "\<exists>ct plain st1 st4. key_encrypt ops_demo_ext demo_app (demo_rq 5) ''k'' ''AB'' None None None demo_admin demo_created
      = (Reply 200 (Ciphertext ct 1), st1)
    \<and> key_decrypt ops_demo_ext demo_app (demo_rq 7) ''k'' ct None None None demo_admin (demo_rotated_ring st1)
      = (Reply 200 (Plaintext (b64_encode ops_demo_ext plain) 1), st4)"
proof -
  obtain ct st1 where e: "key_encrypt ops_demo_ext demo_app (demo_rq 5) ''k'' ''AB'' None None None demo_admin demo_created
      = (Reply 200 (Ciphertext ct 1), st1)"
    and t: "keys st1 = [demo_key_row]" "key_versions st1 = [demo_version_row]" "domains st1 = [demo_keys_domain]"
    using demo_encrypts by blast
  note r = demo_rotates [OF t]
  have f: "find_key_row ops_demo_ext demo_app ''dom'' ''k'' demo_created = Some demo_key_row"
    by (simp add: find_key_row_def demo_created_tables demo_key_row_def)
  have "key_step ops_demo_ext demo_app st1 (demo_rotated_ring st1)" unfolding demo_rotated_ring_def by (rule RotateKey)
  then have s: "rtranclp (\<lambda>a b. key_step ops_demo_ext demo_app a b \<and> has_key (kr_id demo_key_row) b) st1 (demo_rotated_ring st1)"
    using r(1) by (intro r_into_rtranclp) (simp add: has_key_def)
  have k: "demo_key (demo_key_row\<lparr>kr_latest := 2, kr_updated := 6\<rparr>)" by (simp add: demo_key_def demo_key_row_def)
  from ciphertext_survives [OF demo_ops_laws(1-3) demo_created_inv e demo_keys_gate [OF demo_created_tables(2)] f s
      demo_let_through(2) [where rq = "demo_rq 7" and code = None, OF r(2,1) k]]
  obtain plain st4 where "key_decrypt ops_demo_ext demo_app (demo_rq 7) ''k'' ct None None None demo_admin (demo_rotated_ring st1)
      = (Reply 200 (Plaintext (b64_encode ops_demo_ext plain) 1), st4)"
    by (auto simp: demo_view_def)
  with e show ?thesis by blast
qed

theorem key_use_guarded_witness:
  "\<exists>b. fst (key_encrypt ops_demo_ext demo_app (demo_rq 5) ''k'' ''AB'' None None None demo_admin demo_created) = Reply 200 b
    \<and> guarded ops_demo_ext demo_app (demo_rq 5) demo_admin None None ''k'' [Aes256Gcm] [Aes256Gcm] demo_created"
proof -
  obtain b where b: "fst (key_encrypt ops_demo_ext demo_app (demo_rq 5) ''k'' ''AB'' None None None demo_admin demo_created) = Reply 200 b"
    using demo_encrypts by fastforce
  then have "guarded ops_demo_ext demo_app (demo_rq 5) demo_admin None None ''k'' [Aes256Gcm] [Aes256Gcm] demo_created"
    by (rule key_use_guarded [THEN conjunct1, THEN mp])
  with b show ?thesis by blast
qed

end
