(* ===== verification/Files_Intact.thy ===== *)
theory Files_Intact
  imports Files
begin

text \<open>
  What the handlers of \<open>Files\<close> keep: the tables of pages and contents stay consistent, every file
  that is not exhausted can be opened, and the contents of an immutable file never change. Each
  handler is a composition of a few changes of the tables, and each change keeps every page.
\<close>

section \<open>The invariant\<close>

text \<open>What a page opens to, with the blob under its content id.\<close>

definition opens :: "ext \<Rightarrow> app \<Rightarrow> page_row \<Rightarrow> bytes option \<Rightarrow> bytes \<Rightarrow> bool" where
  "opens E app p b x \<longleftrightarrow>
     (if pg_kind p = 2 then open_component E app p = Some x
      else (\<exists>s. b = Some s \<and> open_blob E app p s = Inr x))"

definition page_ok :: "ext \<Rightarrow> app \<Rightarrow> page_row \<Rightarrow> bytes option \<Rightarrow> bool" where
  "page_ok E app p b \<longleftrightarrow> page_size E app p \<noteq> None \<and> page_mime E app p \<noteq> None
     \<and> (pg_external p \<longrightarrow> pg_dek p = []) \<and> (pg_exhausted p = None \<longrightarrow> (\<exists>x. opens E app p b x))"

definition tables_ok :: "page_row list \<Rightarrow> content_row list \<Rightarrow> bool" where
  "tables_ok ps cs \<longleftrightarrow> distinct (map pg_id ps) \<and> distinct (map pg_content ps)
     \<and> distinct (map (\<lambda>p. (pg_domain p, pg_name_id p)) ps) \<and> distinct (map ct_id cs)
     \<and> (\<forall>c \<in> set cs. ct_path c = ct_id c) \<and> (\<forall>p \<in> set ps. pg_content p \<in> ct_id ` set cs)"

definition blob_of :: "page_row \<Rightarrow> 'a file_state_scheme \<Rightarrow> bytes option" where
  "blob_of p st = blobs st (pg_content p)"

definition files_inv :: "ext \<Rightarrow> app \<Rightarrow> 'a file_state_scheme \<Rightarrow> bool" where
  "files_inv E app st \<longleftrightarrow> tables_ok (pages st) (contents st)
     \<and> (\<forall>p \<in> set (pages st). page_ok E app p (blob_of p st))"

text \<open>
  What a change keeps of a page: its identity and flags, that it can be opened, and, if it is
  immutable, what it opens to as long as it is not exhausted.
\<close>

definition page_kept :: "ext \<Rightarrow> app \<Rightarrow> page_row \<Rightarrow> bytes option \<Rightarrow> page_row \<Rightarrow> bytes option \<Rightarrow> bool" where
  "page_kept E app p b p' b' \<longleftrightarrow> pg_id p' = pg_id p \<and> pg_flags p' = pg_flags p
     \<and> (pg_exhausted p \<noteq> None \<longrightarrow> pg_exhausted p' \<noteq> None)
     \<and> (page_ok E app p b \<longrightarrow> page_ok E app p' b')
     \<and> (no_overwrite (pg_flags p) \<longrightarrow> pg_kind p' = pg_kind p \<and>
          (\<forall>x. opens E app p b x \<longrightarrow> pg_exhausted p' = None \<longrightarrow> opens E app p' b' x))"

definition files_kept :: "ext \<Rightarrow> app \<Rightarrow> 'a file_state_scheme \<Rightarrow> 'a file_state_scheme \<Rightarrow> bool" where
  "files_kept E app st st' \<longleftrightarrow> tables_ok (pages st') (contents st')
     \<and> (\<forall>p' \<in> set (pages st'). \<exists>p \<in> set (pages st). page_kept E app p (blob_of p st) p' (blob_of p' st'))"

lemma page_kept_refl [simp]: "page_kept E app p b p b"
  by (simp add: page_kept_def)

lemma page_kept_trans:
  "page_kept E app p b p' b' \<Longrightarrow> page_kept E app p' b' p'' b'' \<Longrightarrow> page_kept E app p b p'' b''"
  unfolding page_kept_def by (cases "pg_exhausted p'") auto

lemma files_kept_trans:
  assumes "files_kept E app st st'" and "files_kept E app st' st''"
  shows "files_kept E app st st''"
  using assms page_kept_trans unfolding files_kept_def by meson

lemma files_kept_inv: "files_kept E app st st' \<Longrightarrow> files_inv E app st \<Longrightarrow> files_inv E app st'"
  by (fastforce simp: files_kept_def files_inv_def page_kept_def)

lemma files_inv_tables [simp]: "files_inv E app st \<Longrightarrow> tables_ok (pages st) (contents st)"
  by (simp add: files_inv_def)

section \<open>What leaves the tables alone\<close>

definition file_tables :: "'a file_state_scheme \<Rightarrow> page_row list \<times> content_row list \<times> (string \<rightharpoonup> bytes)" where
  "file_tables st = (pages st, contents st, blobs st)"

lemma files_kept_same:
  assumes "file_tables st' = file_tables st" and "tables_ok (pages st) (contents st)"
  shows "files_kept E app st st'"
  using assms by (auto simp: files_kept_def file_tables_def blob_of_def intro!: bexI page_kept_refl)

lemma file_tables_simps [simp]:
  "file_tables (audit E app rq k c a r s m st) = file_tables st"
  "file_tables (acl_record_use rq d st) = file_tables st"
  "file_tables (st\<lparr>secrets := x\<rparr>) = file_tables st"
  by (simp_all add: file_tables_def audit_def acl_record_use_def Let_def split: sum.splits acl_decision.splits)

lemma consume_file_tables [simp]: "file_tables (consume_grant_uses is st) = file_tables st"
  by (induction "is" st rule: consume_grant_uses.induct) (simp_all add: file_tables_def)

lemma gate_file_tables: "file_tables (snd (threshold_gate E app rq c kind d name pol i st)) = file_tables st"
proof -
  obtain s st1 where cr: "create_access_request E app rq c kind d name pol st = (s, st1)" by fastforce
  then have "file_tables st1 = file_tables st"
    by (auto simp: create_access_request_def Let_def file_tables_def split: option.splits sum.splits if_splits)
  moreover have "file_tables (mark_consumed rq i s) = file_tables s" for i and s :: "'a file_state_scheme"
    by (simp add: mark_consumed_def file_tables_def)
  ultimately show ?thesis
    using cr by (cases i) (simp_all add: threshold_gate_def gate_with_request_def gate_without_request_def Let_def
        split: option.split)
qed

lemma totp_file_tables: "verify_totp E rq kek i code st = (r, st') \<Longrightarrow> file_tables st' = file_tables st"
  by (auto simp: verify_totp_def file_tables_def split: option.splits sum.splits if_splits)

lemma mfa_file_tables: "file_mfa_gate E app rq c name code req st = (r, st') \<Longrightarrow> file_tables st' = file_tables st"
  by (auto simp: file_mfa_gate_def Let_def split: option.splits sum.splits if_splits prod.splits dest: totp_file_tables)

lemma gates_file_tables:
  assumes "file_gates E app rq h c d name p st = (r, st')"
  shows "file_tables st' = file_tables st"
proof -
  obtain g st1 where g: "(case pg_policy p of None \<Rightarrow> (Proceed, st)
      | Some policy \<Rightarrow> threshold_gate E app rq c ''file'' d name policy (h_request_id h) st) = (g, st1)" by fastforce
  have "file_tables st1 = file_tables st"
    using g gate_file_tables [of E app rq c "''file''" d name "the (pg_policy p)" "h_request_id h" st]
    by (cases "pg_policy p") auto
  with assms g show ?thesis
    by (auto simp: file_gates_def Let_def split: if_splits gate.splits dest: mfa_file_tables)
qed

section \<open>Changes of the tables\<close>

lemma kept_update:
  assumes "tables_ok (pages st) (contents st)" and "p \<in> set (pages st)"
    and "pages st' = update_where (\<lambda>q. pg_id q = pg_id p) f (pages st)" and "contents st' = contents st"
    and "\<And>i. i \<noteq> pg_content p \<Longrightarrow> blobs st' i = blobs st i"
    and "\<And>q. pg_id (f q) = pg_id q \<and> pg_content (f q) = pg_content q \<and> pg_domain (f q) = pg_domain q \<and> pg_name_id (f q) = pg_name_id q"
    and "page_kept E app p (blob_of p st) (f p) (blob_of p st')"
  shows "files_kept E app st st'"
proof -
  have t: "tables_ok (pages st') (contents st')"
    using assms(1,6) unfolding assms(3,4) tables_ok_def
    by (auto simp: map_update_where set_update_where)
  have d: "distinct (map pg_id (pages st))" "distinct (map pg_content (pages st))" using assms(1) by (simp_all add: tables_ok_def)
  have "\<exists>q \<in> set (pages st). page_kept E app q (blob_of q st) p' (blob_of p' st')" if m: "p' \<in> set (pages st')" for p'
  proof -
    obtain q where q: "q \<in> set (pages st)" "p' = (if pg_id q = pg_id p then f q else q)"
      using m unfolding assms(3) set_update_where by blast
    show ?thesis
    proof (cases "q = p")
      case True
      then show ?thesis using q assms(2,6,7) by (auto simp: blob_of_def)
    next
      case False
      then have "pg_id q \<noteq> pg_id p" "pg_content q \<noteq> pg_content p"
        using unique_row [OF d(1) assms(2) q(1)] unique_row [OF d(2) assms(2) q(1)] by auto
      then show ?thesis using q assms(5) by (auto simp: blob_of_def intro!: bexI [of _ q])
    qed
  qed
  with t show ?thesis by (auto simp: files_kept_def)
qed

lemma kept_delete:
  assumes "tables_ok (pages st) (contents st)" and "pages st' = filter P (pages st)" and "contents st' = filter Q (contents st)"
    and "\<And>p. p \<in> set (pages st) \<Longrightarrow> P p \<Longrightarrow> pg_content p \<in> ct_id ` {c \<in> set (contents st). Q c}
      \<and> blobs st' (pg_content p) = blobs st (pg_content p)"
  shows "files_kept E app st st'"
proof -
  have "tables_ok (pages st') (contents st')"
    using assms(1,4) unfolding assms(2,3) tables_ok_def by (auto simp: distinct_map_filter)
  moreover have "page_kept E app p (blob_of p st) p (blob_of p st')" if "p \<in> set (pages st')" for p
    using that assms(2,4) by (auto simp: blob_of_def)
  ultimately show ?thesis using assms(2) by (auto simp: files_kept_def)
qed

text \<open>Counting a read changes nothing else.\<close>

lemma reads_irrelevant [simp]:
  "opens E app (p\<lparr>pg_reads := n\<rparr>) b x = opens E app p b x" "page_ok E app (p\<lparr>pg_reads := n\<rparr>) b = page_ok E app p b"
proof -
  have a: "page_size E app (p\<lparr>pg_reads := n\<rparr>) = page_size E app p" "page_mime E app (p\<lparr>pg_reads := n\<rparr>) = page_mime E app p"
    "open_component E app (p\<lparr>pg_reads := n\<rparr>) = open_component E app p"
    by (simp_all add: page_size_def page_mime_def open_component_def)
  then have "open_blob E app (p\<lparr>pg_reads := n\<rparr>) s = open_blob E app p s" for s
    by (simp add: open_blob_def cong: sum.case_cong if_cong)
  with a show "opens E app (p\<lparr>pg_reads := n\<rparr>) b x = opens E app p b x" for b x by (simp add: opens_def)
  with a show "page_ok E app (p\<lparr>pg_reads := n\<rparr>) b = page_ok E app p b" by (simp add: page_ok_def)
qed

lemma kept_reads:
  assumes "tables_ok (pages st) (contents st)" and "\<And>q. g q = q \<or> (\<exists>n. g q = q\<lparr>pg_reads := n\<rparr>)"
  shows "files_kept E app st (st\<lparr>pages := update_where P g (pages st)\<rparr>)"
proof -
  have g: "pg_id (g q) = pg_id q" "pg_content (g q) = pg_content q" "pg_domain (g q) = pg_domain q" "pg_name_id (g q) = pg_name_id q"
    "page_kept E app q b (g q) b" for q b
    using assms(2) [of q] by (auto simp: page_kept_def)
  have "tables_ok (update_where P g (pages st)) (contents st)"
    using assms(1) by (auto simp: tables_ok_def map_update_where g set_update_where)
  moreover have "\<exists>q \<in> set (pages st). page_kept E app q (blobs st (pg_content q)) x (blobs st (pg_content x))"
    if m: "x \<in> set (update_where P g (pages st))" for x
  proof -
    obtain q where "q \<in> set (pages st)" "x = (if P q then g q else q)" using m unfolding set_update_where by blast
    then show ?thesis using g by (intro bexI [of _ q]) simp_all
  qed
  ultimately show ?thesis by (simp add: files_kept_def blob_of_def)
qed

text \<open>A blob under a fresh name, and a page bound to it.\<close>

lemma kept_write:
  assumes "tables_ok (pages st) (contents st)" and "cid \<notin> ct_id ` set (contents st)"
  shows "files_kept E app st (write_blob cid b st)"
  using assms by (auto simp: files_kept_def write_blob_def blob_of_def tables_ok_def intro!: bexI page_kept_refl)

lemma bind_other:
  assumes "tables_ok ps cs" and "cid \<notin> ct_id ` set cs" and "p \<in> set ps" and "q \<in> set ps" and "pg_id q \<noteq> pg_id p"
  shows "pg_content q \<noteq> pg_content p \<and> pg_content q \<noteq> cid"
proof -
  have "distinct (map pg_content ps)" using assms(1) by (simp add: tables_ok_def)
  from unique_row [OF this assms(3,4)] show ?thesis using assms by (auto simp: tables_ok_def)
qed

lemma bind_tables:
  assumes "tables_ok ps cs" and "cid \<notin> ct_id ` set cs" and "p \<in> set ps" and "ct_id c = cid" and "ct_path c = cid"
    and f: "\<And>q. pg_id (f q) = pg_id q \<and> pg_content (f q) = cid \<and> pg_domain (f q) = pg_domain q \<and> pg_name_id (f q) = pg_name_id q"
  shows "tables_ok (update_where (\<lambda>q. pg_id q = pg_id p) f ps) (delete_where (\<lambda>c. ct_id c = pg_content p) (cs @ [c]))"
    (is "tables_ok ?ps ?cs")
proof -
  have d: "distinct (map pg_id ps)" "distinct (map pg_content ps)" "distinct (map (\<lambda>p. (pg_domain p, pg_name_id p)) ps)"
    using assms(1) by (simp_all add: tables_ok_def)
  note other = bind_other [OF assms(1-3)]
  have cp: "pg_content p \<noteq> cid" using assms(1-3) by (auto simp: tables_ok_def)
  have row: "\<exists>q \<in> set ps. x = (if pg_id q = pg_id p then f q else q)" if "x \<in> set ?ps" for x
    using that by (simp only: set_update_where)
  have ids: "distinct (map pg_id ?ps)" using d(1) f by (simp add: map_update_where)
  moreover have "distinct (map pg_content ?ps)"
    unfolding distinct_map
  proof (intro conjI inj_onI)
    show "distinct ?ps" using ids by (simp add: distinct_map)
    fix x y assume "x \<in> set ?ps" "y \<in> set ?ps" and e: "pg_content x = pg_content y"
    then obtain q r where q: "q \<in> set ps" "x = (if pg_id q = pg_id p then f q else q)"
      and r: "r \<in> set ps" "y = (if pg_id r = pg_id p then f r else r)" using row by metis
    have "pg_id q = pg_id p \<longleftrightarrow> pg_id r = pg_id p"
      using e q r other [OF q(1)] other [OF r(1)] f by (auto split: if_splits)
    then show "x = y"
      using q r e unique_row [OF d(1) q(1) r(1)] unique_row [OF d(2) q(1) r(1)] by (auto split: if_splits)
  qed
  moreover have "\<forall>x \<in> set ?ps. pg_content x \<in> ct_id ` set ?cs"
  proof
    fix x assume "x \<in> set ?ps"
    then obtain q where q: "q \<in> set ps" "x = (if pg_id q = pg_id p then f q else q)" using row by blast
    show "pg_content x \<in> ct_id ` set ?cs"
    proof (cases "pg_id q = pg_id p")
      case True
      then have "pg_content x = ct_id c" "c \<in> set ?cs" using q f assms(4) cp by (simp_all add: delete_where_def)
      then show ?thesis by blast
    next
      case False
      have "pg_content q \<in> ct_id ` set cs" using assms(1) q(1) by (simp add: tables_ok_def)
      then show ?thesis using q False other [OF q(1) False] by (auto simp: delete_where_def)
    qed
  qed
  ultimately show ?thesis
    using assms(1,2,4,5) d(3) f by (auto simp: tables_ok_def map_update_where intro!: distinct_map_delete_where)
qed

lemma kept_bind:
  assumes "tables_ok (pages st) (contents st)" and "cid \<notin> ct_id ` set (contents st)" and "p \<in> set (pages st)"
    and "insert_content rq cid n (write_blob cid b st) = Some st'"
    and f: "\<And>q. pg_id (f q) = pg_id q \<and> pg_content (f q) = cid \<and> pg_domain (f q) = pg_domain q \<and> pg_name_id (f q) = pg_name_id q"
    and "page_kept E app p (blob_of p st) (f p) (Some b)"
  shows "files_kept E app st (remove_blob (pg_content p) (delete_content (pg_content p) (update_page (pg_id p) f st')))"
    (is "files_kept E app st ?st")
proof -
  note other = bind_other [OF assms(1-3)]
  have cp: "pg_content p \<noteq> cid" using assms(1-3) by (auto simp: tables_ok_def)
  let ?ps = "update_where (\<lambda>q. pg_id q = pg_id p) f (pages st)"
  have row: "\<exists>q \<in> set (pages st). x = (if pg_id q = pg_id p then f q else q)" if "x \<in> set ?ps" for x
    using that by (simp only: set_update_where)
  note unfold = remove_blob_def delete_content_def update_page_def insert_content_def write_blob_def
  have keep: "filter (\<lambda>q. pg_content q \<noteq> pg_content p) ?ps = ?ps"
  proof (intro filter_True ballI)
    fix x assume "x \<in> set ?ps"
    then obtain q where "q \<in> set (pages st)" "x = (if pg_id q = pg_id p then f q else q)" using row by blast
    then show "pg_content x \<noteq> pg_content p" using other [of q] cp f by simp
  qed
  then have pages: "pages ?st = ?ps" using assms(4) by (auto simp: unfold delete_where_def split: if_splits)
  have cts: "contents ?st = delete_where (\<lambda>c. ct_id c = pg_content p)
      (contents st @ [\<lparr>ct_id = cid, ct_path = cid, ct_size = n, ct_created = now rq\<rparr>])"
    and bl: "blobs ?st = (blobs st)(cid \<mapsto> b, pg_content p := None)"
    using assms(4) by (auto simp: unfold split: if_splits)
  have "tables_ok (pages ?st) (contents ?st)" unfolding pages cts by (rule bind_tables [OF assms(1-3) _ _ f]) simp_all
  moreover have "\<exists>q \<in> set (pages st). page_kept E app q (blob_of q st) x (blob_of x ?st)" if m: "x \<in> set (pages ?st)" for x
  proof -
    obtain q where q: "q \<in> set (pages st)" "x = (if pg_id q = pg_id p then f q else q)" using m row unfolding pages by blast
    have "distinct (map pg_id (pages st))" using assms(1) by (simp add: tables_ok_def)
    from unique_row [OF this assms(3) q(1)] have "pg_id q = pg_id p \<Longrightarrow> q = p" .
    then show ?thesis
      using q other [OF q(1)] assms(6) cp f by (intro bexI [of _ q]) (auto simp: blob_of_def bl)
  qed
  ultimately show ?thesis by (auto simp: files_kept_def)
qed

lemma kept_drop:
  assumes "tables_ok (pages st) (contents st)"
  shows "files_kept E app st (delete_content i st)" "files_kept E app st (remove_blob i (delete_content i st))"
    "files_kept E app st (delete_content i (remove_blob i st))"
  using assms
  by (auto simp: delete_content_def remove_blob_def delete_where_def tables_ok_def
      intro!: kept_delete [of st _ "\<lambda>p. pg_content p \<noteq> i" "\<lambda>c. ct_id c \<noteq> i"])

lemma kept_delete_page:
  assumes "tables_ok (pages st) (contents st)" and "p \<in> set (pages st)"
  shows "files_kept E app st (remove_blob (pg_content p) (st\<lparr>pages := delete_where (\<lambda>r. pg_id r = pg_id p) (pages st)\<rparr>))"
proof (rule kept_delete [of _ _ "\<lambda>q. pg_id q \<noteq> pg_id p" "\<lambda>c. True"])
  have "distinct (map pg_content (pages st))" using assms(1) by (simp add: tables_ok_def)
  from unique_row [OF this assms(2)]
  show "pg_content q \<in> ct_id ` {c \<in> set (contents st). True}
      \<and> blobs (remove_blob (pg_content p) (st\<lparr>pages := delete_where (\<lambda>r. pg_id r = pg_id p) (pages st)\<rparr>)) (pg_content q)
        = blobs st (pg_content q)" if "q \<in> set (pages st)" "pg_id q \<noteq> pg_id p" for q
    using that assms(1) by (auto simp: remove_blob_def tables_ok_def)
qed (use assms in \<open>auto simp: remove_blob_def delete_where_def\<close>)

section \<open>Sealing\<close>

lemma seal_under_opens:
  assumes "gcm_law E" and "seal_under E rq i plain kek = Inr (ct, w)"
  shows "decrypt_aes_gcm E w kek = Inr (rand rq i 32)" "aead_open E ct (rand rq i 32) = Inr plain"
  using assms box.unseal_seal [OF assms(1), of "rand rq (i + 1) 12" plain "rand rq i 32" ct]
    stretched_box.unseal_seal [OF assms(1), of "(secs_of rq, rand rq (i + 2) 32)" kek "rand rq i 32" w]
  by (auto simp: seal_under_def elim!: and_then_InrE)

text \<open>A page whose data key opens the blob.\<close>

lemma open_blob_sealed:
  assumes "\<not> pg_external p" and "handle E (file_dek_kek (bb_keys app)) = Inr kek"
    and "decrypt_aes_gcm E (pg_dek p) kek = Inr dek" and "aead_open E s dek = Inr plain"
    and "hash_id E app plain = pg_hash_id p" and "page_size E app p = Some (int (length plain))"
  shows "open_blob E app p s = Inr plain"
  using assms by (simp add: open_blob_def)

lemma open_blob_InrD:
  assumes "open_blob E app p s = Inr plain" and "\<not> pg_external p"
  obtains kek dek where "handle E (file_dek_kek (bb_keys app)) = Inr kek" "decrypt_aes_gcm E (pg_dek p) kek = Inr dek"
    "aead_open E s dek = Inr plain" "hash_id E app plain = pg_hash_id p" "page_size E app p = Some (int (length plain))"
  using assms by (auto simp: open_blob_def elim!: and_then_InrE split: sum.splits if_splits)

lemma page_columns [simp]:
  "page_size E app (p\<lparr>pg_content := c, pg_dek := w\<rparr>) = page_size E app p"
  "page_mime E app (p\<lparr>pg_content := c, pg_dek := w\<rparr>) = page_mime E app p"
  "open_component E app (p\<lparr>pg_content := c, pg_dek := w\<rparr>) = open_component E app p"
  "page_size E app (p\<lparr>pg_content := c, pg_dek := w, pg_updated := t\<rparr>) = page_size E app p"
  "page_mime E app (p\<lparr>pg_content := c, pg_dek := w, pg_updated := t\<rparr>) = page_mime E app p"
  "open_component E app (p\<lparr>pg_content := c, pg_dek := w, pg_updated := t\<rparr>) = open_component E app p"
  by (simp_all add: page_size_def page_mime_def open_component_def)

lemma kept_rebind:
  assumes "gcm_law E" and "tables_ok (pages st) (contents st)" and "p \<in> set (pages st)"
    and "hex_encode E (rand rq (i + 3) 32) \<notin> ct_id ` set (contents st)"
    and "blob_of p st = Some s" and "handle E (file_dek_kek (bb_keys app)) = Inr kek" and "\<not> pg_external p"
    and "decrypt_aes_gcm E (pg_dek p) kek = Inr dek" and "aead_open E s dek = Inr plain"
    and "hash_id E app plain = pg_hash_id p" and "page_size E app p = Some (int (length plain))"
    and "touch = (\<lambda>q. q) \<or> touch = (\<lambda>q. q\<lparr>pg_updated := t\<rparr>)"
    and "rebind E rq i (pg_id p) (pg_content p) (pg_content p) plain kek touch st = (ok, st')"
  shows "files_kept E app st st'"
proof -
  let ?cid = "hex_encode E (rand rq (i + 3) 32)"
  show ?thesis
  proof (cases "seal_under E rq i plain kek")
    case (Inl e)
    then show ?thesis using assms(2,13) by (auto simp: rebind_def intro: files_kept_same)
  next
    case (Inr cw)
    obtain ct w where cw: "cw = (ct, w)" by fastforce
    let ?f = "\<lambda>p. touch (p\<lparr>pg_content := ?cid, pg_dek := w\<rparr>)"
    show ?thesis
    proof (cases "insert_content rq ?cid (int (length ct)) (write_blob ?cid ct st)")
      case None
      then show ?thesis using assms(13) Inr cw kept_write [OF assms(2,4)] by (auto simp: rebind_def Let_def)
    next
      case (Some st1)
      note o = seal_under_opens [OF assms(1) Inr [unfolded cw]]
      have new: "open_blob E app (?f p) ct = Inr plain"
        using assms(6,7,10,11,12) o by (intro open_blob_sealed [of _ _ _ kek "rand rq i 32"]) auto
      have old: "open_blob E app p s = Inr plain" using assms(6-11) by (intro open_blob_sealed) auto
      have "page_kept E app p (blob_of p st) (?f p) (Some ct)"
        using assms(5,7,12) new old by (auto simp: page_kept_def page_ok_def opens_def)
      then have "files_kept E app st (remove_blob (pg_content p) (delete_content (pg_content p) (update_page (pg_id p) ?f st1)))"
        using assms(12) by (intro kept_bind [OF assms(2,4,3) Some]) auto
      with assms(13) Inr cw Some show ?thesis by (simp add: rebind_def Let_def)
    qed
  qed
qed

section \<open>Reading\<close>

lemma claim_page_kept:
  assumes "tables_ok (pages st) (contents st)" and "p \<in> set (pages st)" and "claim_page p (pages st) = (c, rows)"
  shows "files_kept E app st (st\<lparr>pages := rows\<rparr>)" "\<exists>n. p\<lparr>pg_reads := n\<rparr> \<in> set rows"
proof -
  have b: "bump_page q = q \<or> (\<exists>n. bump_page q = q\<lparr>pg_reads := n\<rparr>)" for q by (auto simp: bump_page_def)
  have "\<exists>P g. rows = update_where P g (pages st) \<and> (\<forall>q. g q = q \<or> (\<exists>n. g q = q\<lparr>pg_reads := n\<rparr>))"
  proof (cases "rows = pages st")
    case True
    then show ?thesis by (intro exI [of _ "\<lambda>q. False"] exI [of _ "\<lambda>q. q"]) (simp add: update_where_def)
  next
    case False
    then show ?thesis using assms(3) b by (auto simp: claim_page_def split: option.splits)
  qed
  then obtain P g where g: "rows = update_where P g (pages st)" "\<forall>q. g q = q \<or> (\<exists>n. g q = q\<lparr>pg_reads := n\<rparr>)" by blast
  show "files_kept E app st (st\<lparr>pages := rows\<rparr>)" unfolding g(1) by (rule kept_reads [OF assms(1)]) (use g(2) in blast)
  have "\<exists>n. (if P p then g p else p) = p\<lparr>pg_reads := n\<rparr>"
    using g(2) [rule_format, of p] by (auto intro: exI [of _ "pg_reads p"])
  then show "\<exists>n. p\<lparr>pg_reads := n\<rparr> \<in> set rows" using assms(2) unfolding g(1) set_update_where by metis
qed

text \<open>In consistent tables a page's content row is found, and its blob is under its content id.\<close>

lemma content_of_page:
  assumes "tables_ok (pages st) (contents st)" and "p \<in> set (pages st)"
  obtains c where "find_content (pg_content p) st = Some c" "ct_path c = pg_content p" "ct_id c = pg_content p"
proof -
  obtain c where c: "c \<in> set (contents st)" "ct_id c = pg_content p" using assms by (auto simp: tables_ok_def)
  have "distinct (map ct_id (contents st))" using assms(1) by (simp add: tables_ok_def)
  from find_by_id [OF this c(1)] c assms(1) show thesis by (intro that [of c]) (auto simp: find_content_def tables_ok_def)
qed

lemma fetch_blob_of:
  assumes "tables_ok (pages st) (contents st)" and "p\<lparr>pg_reads := n\<rparr> \<in> set (pages st)"
  shows "fetch_blob p st = map_option (\<lambda>b. (pg_content p, b)) (blob_of p st)"
  by (rule content_of_page [OF assms]) (simp add: fetch_blob_def blob_of_def)

text \<open>A tombstone keeps the page, its name and its metadata.\<close>

lemma tombstones_kept:
  "page_kept E app p b (p\<lparr>pg_dek := [], pg_exhausted := Some t\<rparr>) b'"
  "page_kept E app p b (p\<lparr>pg_component := None, pg_exhausted := Some t\<rparr>) b'"
proof -
  have "page_size E app (p\<lparr>pg_dek := [], pg_exhausted := Some t\<rparr>) = page_size E app p"
    "page_mime E app (p\<lparr>pg_dek := [], pg_exhausted := Some t\<rparr>) = page_mime E app p"
    "page_size E app (p\<lparr>pg_component := None, pg_exhausted := Some t\<rparr>) = page_size E app p"
    "page_mime E app (p\<lparr>pg_component := None, pg_exhausted := Some t\<rparr>) = page_mime E app p"
    by (simp_all add: page_size_def page_mime_def)
  then show "page_kept E app p b (p\<lparr>pg_dek := [], pg_exhausted := Some t\<rparr>) b'"
    "page_kept E app p b (p\<lparr>pg_component := None, pg_exhausted := Some t\<rparr>) b'"
    by (simp_all add: page_kept_def page_ok_def)
qed

lemma post_file_kept:
  assumes "gcm_law E" and "tables_ok (pages st) (contents st)" and "p\<lparr>pg_reads := n\<rparr> \<in> set (pages st)"
    and "hex_encode E (rand rq 13 32) \<notin> ct_id ` set (contents st)" and "blob_of p st = Some s" and "pg_kind p \<noteq> 2"
    and "open_blob E app p s = Inr plain"
  shows "files_kept E app st (snd (post_file E app rq p (pg_content p) plain c st))"
proof -
  let ?p = "p\<lparr>pg_reads := n\<rparr>"
  have tomb: "files_kept E app st (remove_blob (pg_content p)
      (update_page (pg_id p) (\<lambda>q. q\<lparr>pg_dek := [], pg_exhausted := Some (now rq)\<rparr>) st))"
    by (rule kept_update [OF assms(2,3), of _ "\<lambda>q. q\<lparr>pg_dek := [], pg_exhausted := Some (now rq)\<rparr>"])
      (simp_all add: remove_blob_def update_page_def tombstones_kept)
  have rot: "files_kept E app st (snd (rekey_file_dek E rq (pg_id p) (pg_content p) (pg_content p) plain kek st))"
    if x: "\<not> pg_external p" "handle E (file_dek_kek (bb_keys app)) = Inr kek" for kek
  proof -
    obtain kek' dek where dek: "handle E (file_dek_kek (bb_keys app)) = Inr kek'" "decrypt_aes_gcm E (pg_dek p) kek' = Inr dek"
      "aead_open E s dek = Inr plain" "hash_id E app plain = pg_hash_id p" "page_size E app p = Some (int (length plain))"
      using open_blob_InrD [OF assms(7) x(1)] by blast
    have "kek' = kek" using dek(1) x(2) by simp
    obtain ok st' where r: "rekey_file_dek E rq (pg_id p) (pg_content p) (pg_content p) plain kek st = (ok, st')" by fastforce
    have sz: "page_size E app ?p = Some (int (length plain))" using dek(5) by (simp add: page_size_def)
    have "files_kept E app st st'"
      by (rule kept_rebind [OF assms(1,2,3), of rq 10 s app kek dek plain "\<lambda>q. q" 0 ok])
        (use assms(4,5) x dek sz r \<open>kek' = kek\<close> in \<open>simp_all add: rekey_file_dek_def blob_of_def\<close>)
    with r show ?thesis by simp
  qed
  consider "delete_on_read (pg_flags p)" | "\<not> delete_on_read (pg_flags p)" "reached_max (pg_flags p) c"
    | "\<not> delete_on_read (pg_flags p)" "\<not> reached_max (pg_flags p) c" by blast
  then show ?thesis
  proof cases
    case 1
    then show ?thesis using kept_drop(2) [OF assms(2)] by (simp add: post_file_def)
  next
    case 2
    then show ?thesis using tomb by (simp add: post_file_def)
  next
    case 3
    then show ?thesis using rot files_kept_same [OF refl assms(2)] by (simp add: post_file_def split: sum.split)
  qed
qed

lemma files_kept_cong:
  assumes "file_tables a = file_tables st" and "file_tables b = file_tables st'"
  shows "files_kept E app a b = files_kept E app st st'"
  using assms by (simp add: files_kept_def file_tables_def blob_of_def)

lemma files_kept_log [simp]:
  "files_kept E app st (audit E' app' rq k c a r s m st') = files_kept E app st st'"
  "files_kept E app st (acl_record_use rq d st') = files_kept E app st st'"
  by (rule files_kept_cong; simp)+

lemma files_inv_cong: "file_tables a = file_tables st \<Longrightarrow> files_inv E app a = files_inv E app st"
  by (simp add: files_inv_def file_tables_def blob_of_def)

lemma serve_file_kept:
  assumes "gcm_law E" and "tables_ok (pages st) (contents st)" and "p\<lparr>pg_reads := n\<rparr> \<in> set (pages st)"
    and "hex_encode E (rand rq 13 32) \<notin> ct_id ` set (contents st)" and "pg_kind p \<noteq> 2"
  shows "files_kept E app st (snd (serve_file E app rq c dec name mime p cnt st))"
proof -
  note same = files_kept_same [OF _ assms(2)]
  show ?thesis
  proof (cases "blob_of p st")
    case None
    then show ?thesis using same by (simp add: serve_file_def fetch_blob_of [OF assms(2,3)])
  next
    case (Some s)
    show ?thesis
    proof (cases "open_blob E app p s")
      case (Inl e)
      then show ?thesis
        using Some same by (cases e) (simp_all add: serve_file_def fetch_blob_of [OF assms(2,3)])
    next
      case (Inr plain)
      obtain nt st1 where po: "post_file E app rq p (pg_content p) plain cnt st = (nt, st1)" by fastforce
      have "files_kept E app st st1" using post_file_kept [OF assms(1-4) Some assms(5) Inr, of cnt] po by simp
      then show ?thesis
        using Some Inr po
        by (simp add: serve_file_def fetch_blob_of [OF assms(2,3)])
    qed
  qed
qed

lemma post_resident_kept:
  assumes "tables_ok (pages st) (contents st)" and "p\<lparr>pg_reads := n\<rparr> \<in> set (pages st)"
  shows "files_kept E app st (snd (post_resident rq p cnt st))"
proof -
  obtain c where c: "find_content (pg_content p) st = Some c" "ct_path c = pg_content p"
    using content_of_page [OF assms] by auto
  have "files_kept E app st (update_page (pg_id p) (\<lambda>q. q\<lparr>pg_component := None, pg_exhausted := Some (now rq)\<rparr>) st)"
    by (rule kept_update [OF assms, of _ "\<lambda>q. q\<lparr>pg_component := None, pg_exhausted := Some (now rq)\<rparr>"])
      (simp_all add: update_page_def tombstones_kept)
  then show ?thesis
    using c kept_drop(1,3) [OF assms(1), where i = "pg_content p"] files_kept_same [OF refl assms(1)]
    by (simp add: post_resident_def drop_resident_def)
qed

lemma serve_resident_kept:
  assumes "tables_ok (pages st) (contents st)" and "p\<lparr>pg_reads := n\<rparr> \<in> set (pages st)"
  shows "files_kept E app st (snd (serve_resident E app rq c dec name p cnt st))"
proof -
  obtain nt st1 where po: "post_resident rq p cnt st = (nt, st1)" by fastforce
  have "files_kept E app st st1" using post_resident_kept [OF assms, of E app rq cnt] po by simp
  then show ?thesis
    using po files_kept_same [OF refl assms(1)]
    by (simp add: serve_resident_def split: option.split)
qed

lemma claim_and_serve_kept:
  assumes "gcm_law E" and "tables_ok (pages st) (contents st)" and "p \<in> set (pages st)"
    and "hex_encode E (rand rq 13 32) \<notin> ct_id ` set (contents st)"
  shows "files_kept E app st (snd (claim_and_serve E app rq c dec name mime p st))"
proof -
  obtain cl rows where cl: "claim_page p (pages st) = (cl, rows)" by fastforce
  note k = claim_page_kept [OF assms(2,3) cl]
  obtain n where n: "p\<lparr>pg_reads := n\<rparr> \<in> set rows" using k(2) by blast
  have t: "tables_ok (pages (st\<lparr>pages := rows\<rparr>)) (contents (st\<lparr>pages := rows\<rparr>))"
    using k(1) [of E app] unfolding files_kept_def by blast
  have "files_kept E app (st\<lparr>pages := rows\<rparr>) (snd (serve_file E app rq c dec name mime p cnt (st\<lparr>pages := rows\<rparr>)))"
    if "pg_kind p \<noteq> 2" for cnt
    using n assms(4) that by (intro serve_file_kept [OF assms(1) t, where n = n]) simp_all
  moreover have "files_kept E app (st\<lparr>pages := rows\<rparr>) (snd (serve_resident E app rq c dec name p cnt (st\<lparr>pages := rows\<rparr>)))" for cnt
    using n by (intro serve_resident_kept [OF t, where n = n]) simp
  ultimately show ?thesis
    using cl k(1) files_kept_trans [OF k(1)]
    by (simp add: claim_and_serve_def split: option.split)
qed

lemma find_page_in: "find_page d n st = Some p \<Longrightarrow> p \<in> set (pages st)"
  by (auto simp: find_page_def dest: find_SomeD)

lemma download_kept:
  assumes "gcm_law E" and "tables_ok (pages st) (contents st)"
    and "hex_encode E (rand rq 13 32) \<notin> ct_id ` set (contents st)"
  shows "files_kept E app st (snd (download_file E app rq name q h c st))"
proof -
  note same = files_kept_same [OF _ assms(2)]
  have "files_kept E app st (snd (claim_and_serve E app rq c dec name mime p st1))"
    if p: "p \<in> set (pages st)" and g: "file_gates E app rq h c d name p st = (None, st1)" for p d st1 dec mime
  proof -
    have "file_tables st1 = file_tables st" using gates_file_tables [OF g] .
    then have e: "pages st1 = pages st" "contents st1 = contents st" by (simp_all add: file_tables_def)
    have "files_kept E app st1 (snd (claim_and_serve E app rq c dec name mime p st1))"
      using assms(2,3) p by (intro claim_and_serve_kept [OF assms(1)]) (simp_all add: e)
    with files_kept_cong [OF \<open>file_tables st1 = file_tables st\<close> refl] show ?thesis by simp
  qed
  then show ?thesis
    using same
    by (auto simp: download_file_def Let_def split: sum.split option.split prod.split dest!: find_page_in dest: gates_file_tables)
qed

section \<open>Rotation, deletion and the purge\<close>

lemma page_content_in:
  assumes "tables_ok (pages st) (contents st)" and "page_content d n st = Some (p, c)"
  shows "p \<in> set (pages st)" "ct_path c = pg_content p"
  using assms by (auto simp: page_content_def find_content_def tables_ok_def dest!: find_page_in find_SomeD split: option.splits)

lemma delete_file_kept:
  assumes "tables_ok (pages st) (contents st)"
  shows "files_kept E app st (snd (delete_file E app rq name q c st))"
  using files_kept_same [OF _ assms] kept_delete_page [OF assms] page_content_in [OF assms]
  by (auto simp: delete_file_def Let_def split: sum.split option.split)

lemma rotate_blob_kept:
  assumes "gcm_law E" and "files_inv E app st" and "p \<in> set (pages st)" and "ct_path c = pg_content p"
    and "hex_encode E (rand rq 3 32) \<notin> ct_id ` set (contents st)" and "page_size E app p = Some sz"
  shows "files_kept E app st (snd (rotate_blob E app rq p c sz st))"
proof -
  have t: "tables_ok (pages st) (contents st)" using assms(2) by simp
  note same = files_kept_same [OF refl t]
  show ?thesis
  proof (cases "blobs st (ct_path c)")
    case (Some s)
    show ?thesis
    proof (cases "handle E (file_dek_kek (bb_keys app))")
      case (Inr kek)
      show ?thesis
      proof (cases "and_then (decrypt_aes_gcm E (pg_dek p) kek) (\<lambda>dek. aead_open E s dek)")
        case (Inr plain)
        then obtain dek where dek: "decrypt_aes_gcm E (pg_dek p) kek = Inr dek" "aead_open E s dek = Inr plain"
          by (auto elim: and_then_InrE)
        have "\<not> pg_external p"
          using dek(1) assms(2,3) by (auto simp: files_inv_def page_ok_def decrypt_aes_gcm_def)
        obtain ok st' where r: "rebind E rq 0 (pg_id p) (pg_content p) (pg_content p) plain kek (\<lambda>p. p\<lparr>pg_updated := now rq\<rparr>) st
            = (ok, st')" by fastforce
        have "files_kept E app st st'" if "hash_id E app plain = pg_hash_id p" "int (length plain) = sz"
          by (rule kept_rebind [OF assms(1) t assms(3), of rq 0 s app kek dek plain "\<lambda>p. p\<lparr>pg_updated := now rq\<rparr>" "now rq" ok])
            (use assms(4-6) Some dek r that \<open>\<not> pg_external p\<close> \<open>handle E (file_dek_kek (bb_keys app)) = Inr kek\<close> in \<open>simp_all add: blob_of_def\<close>)
        then show ?thesis
          using Some \<open>handle E _ = Inr kek\<close> Inr r assms(4) same by (auto simp: rotate_blob_def)
      qed (use Some Inr same in \<open>simp add: rotate_blob_def\<close>)
    qed (use Some same in \<open>simp add: rotate_blob_def\<close>)
  qed (use same in \<open>simp add: rotate_blob_def\<close>)
qed

lemma rotate_file_kept:
  assumes "gcm_law E" and "files_inv E app st" and "hex_encode E (rand rq 3 32) \<notin> ct_id ` set (contents st)"
  shows "files_kept E app st (snd (rotate_file E app rq name q c st))"
proof -
  have t: "tables_ok (pages st) (contents st)" using assms(2) by simp
  have "files_kept E app st st'" if pc: "page_content d n st = Some (p, ct)" and sz: "page_size E app p = Some sz"
    and r: "rotate_blob E app rq p ct sz st = (r, st')" for d n p ct sz r st'
    using rotate_blob_kept [OF assms(1,2) page_content_in [OF t pc] assms(3) sz] r by simp
  then show ?thesis
    using files_kept_same [OF _ t]
    by (auto simp: rotate_file_def Let_def split: sum.split option.split prod.split)
qed

lemma purge_secrets_tables [simp]: "file_tables (purge_secrets E app rq k c rs st) = file_tables st"
  by (induction E app rq k c rs st rule: purge_secrets.induct) simp_all

lemma purge_files_kept:
  assumes "tables_ok (pages st) (contents st)" and "\<forall>(p, ct) \<in> set fs. ct_path ct = pg_content p"
  shows "files_kept E app st (purge_files E app rq k c fs st)"
  using assms
proof (induction fs arbitrary: k st)
  case Nil
  then show ?case by (simp add: files_kept_same)
next
  case (Cons pc fs)
  obtain p ct where pc: "pc = (p, ct)" by fastforce
  let ?st = "audit E app rq k (Some (ac_id c)) ''cleanup'' (Some (purge_name E app (pg_id p) (pg_name_enc p))) AuditOk
         (Some ''tombstoned file purged'') (remove_blob (ct_path ct) (delete_content (pg_content p) st))"
  have k: "files_kept E app st ?st"
    using Cons.prems pc kept_drop(2) [OF Cons.prems(1), of E app "pg_content p"] by simp
  then have "tables_ok (pages ?st) (contents ?st)" by (simp only: files_kept_def)
  from Cons.IH [OF this] Cons.prems(2) have "files_kept E app ?st (purge_files E app rq (k + 1) c fs ?st)" by simp
  with files_kept_trans [OF k] show ?case by (simp add: pc)
qed

lemma cleanup_kept:
  assumes "tables_ok (pages st) (contents st)"
  shows "files_kept E app st (snd (cleanup_secrets E app rq q c st))"
proof -
  note same = files_kept_same [OF _ assms]
  have "files_kept E app st (purge_files E app rq k c
      (List.map_filter (\<lambda>p. map_option (\<lambda>c. (p, c)) (find_content (pg_content p) st)) ps) (purge_secrets E app rq 0 c rs st))"
    (is "files_kept E app st (purge_files E app rq k c ?fs ?st)") for k ps rs
  proof -
    have e: "file_tables ?st = file_tables st" by simp
    have "\<forall>(p, ct) \<in> set ?fs. ct_path ct = pg_content p"
      using assms by (fastforce simp: map_filter_def find_content_def tables_ok_def dest: find_SomeD)
    then have "files_kept E app ?st (purge_files E app rq k c ?fs ?st)"
      using e assms by (intro purge_files_kept) (simp_all add: file_tables_def)
    with files_kept_cong [OF e refl] show ?thesis by simp
  qed
  then show ?thesis
    using same
    by (auto simp: cleanup_secrets_def Let_def split: option.split sum.split)
qed

section \<open>Upload\<close>

lemma i64_round_trip: "0 \<le> n \<Longrightarrow> n < 2 ^ 63 \<Longrightarrow> i64_of_be (i64_be n) = n"
  by (simp add: i64_of_be_def i64_be_def of_be_be_bytes)

lemma enc_meta_page:
  assumes "gcm_law E" and "enc_meta E app rq mime n = Inr (me, se)" and "pg_mime_enc p = me" and "pg_size_enc p = se"
    and "0 \<le> n" and "n < 2 ^ 63" and "pred_option utf8_str mime"
  shows "page_size E app p = Some n" "page_mime E app p = Some mime"
proof -
  have "enc_field E (rand rq 7 12) (metadata_enc_key app) (i64_be n) = Inr se"
    using assms(2) by (auto simp: enc_meta_def elim!: and_then_InrE)
  from box.unseal_seal [OF assms(1) _ this [unfolded enc_field_def]] show "page_size E app p = Some n"
    using assms(4-6) by (simp add: page_size_def dec_field_def i64_round_trip)
  show "page_mime E app p = Some mime"
  proof (cases mime)
    case (Some m)
    then obtain xa where "enc_str E (rand rq 6 12) (metadata_enc_key app) m = Inr xa" "pg_mime_enc p = Some xa"
      using assms(2,3) by (auto simp: enc_meta_def elim!: and_then_InrE)
    with Some assms(7) dec_enc_str [OF assms(1) length_rand] show ?thesis by (simp add: page_mime_def)
  qed (use assms(2,3) in \<open>auto simp: enc_meta_def page_mime_def elim!: and_then_InrE\<close>)
qed

text \<open>What an upload writes can be opened, and an upload that is not resident opens to its body.\<close>

lemma upload_sealed_opens:
  assumes "gcm_law E" and "upload_sealed E app rq pol body = (Inr u :: 'b response + upload_parts)"
    and "pg_kind p = up_kind u" and "pg_external p = (up_kind u = 1)" and "pg_dek p = up_dek u" and "pg_component p = up_component u"
    and "pg_hash_id p = hash_id E app body" and "page_size E app p = Some (int (length body))"
  shows "\<exists>x. opens E app p (Some (up_stored u)) x \<and> (\<not> flagged (fp_resident pol) \<longrightarrow> x = body)"
    "pg_external p \<longrightarrow> pg_dek p = []" "up_kind u = 2 \<longleftrightarrow> flagged (fp_resident pol)"
proof -
  show "pg_external p \<longrightarrow> pg_dek p = []" "up_kind u = 2 \<longleftrightarrow> flagged (fp_resident pol)"
    using assms(2,4,5) by (auto simp: upload_sealed_def Let_def elim!: and_then_InrE split: if_splits)
  consider "flagged (fp_resident pol)" | "\<not> flagged (fp_resident pol)" "flagged (fp_external pol)"
    | "\<not> flagged (fp_resident pol)" "\<not> flagged (fp_external pol)" by blast
  then show "\<exists>x. opens E app p (Some (up_stored u)) x \<and> (\<not> flagged (fp_resident pol) \<longrightarrow> x = body)"
  proof cases
    case 1
    have "upload_component E app rq True pol = (Inr (up_component u) :: 'b response + bytes option)" "up_kind u = 2"
      using assms(2) 1 by (auto simp: upload_sealed_def Let_def elim!: and_then_InrE)
    then obtain kc kek w where w: "Some w = up_component u" "handle E (file_dek_kek (bb_keys app)) = Inr kek"
        "encrypt_aes_gcm E (secs_of rq) (rand rq 0 32) kc kek = Inr w"
      by (auto simp: upload_component_def elim!: and_then_InrE split: option.splits sum.splits if_splits)
    from stretched_box.unseal_seal [OF assms(1), of "(secs_of rq, rand rq 0 32)" kek kc w] w
    have "decrypt_aes_gcm E w kek = Inr kc" by simp
    with w(2) w(1) [symmetric] \<open>up_kind u = 2\<close> 1 assms(3,6) show ?thesis by (simp add: opens_def open_component_def)
  next
    case 2
    then have "up_stored u = body" "up_kind u = 1"
      using assms(2) by (auto simp: upload_sealed_def Let_def elim!: and_then_InrE)
    with assms(3,4,7) show ?thesis by (simp add: opens_def open_blob_def)
  next
    case 3
    then obtain kek where k: "handle E (file_dek_kek (bb_keys app)) = Inr kek" "seal_under E rq 1 body kek = Inr (up_stored u, up_dek u)"
        "up_kind u = 0"
      using assms(2) by (auto simp: upload_sealed_def seal_blob_def Let_def elim!: and_then_InrE split: sum.splits)
    have "open_blob E app p (up_stored u) = Inr body"
      using assms(4-8) k by (intro open_blob_sealed [OF _ k(1) _ seal_under_opens(2) [OF assms(1) k(2)]])
        (simp_all add: seal_under_opens(1) [OF assms(1) k(2)])
    with assms(3) k(3) show ?thesis by (simp add: opens_def)
  qed
qed

lemma kept_replace:
  assumes "gcm_law E" and "tables_ok (pages st) (contents st)" and "cid \<notin> ct_id ` set (contents st)" and "p \<in> set (pages st)"
    and "\<not> no_overwrite (pg_flags p)" and "upload_sealed E app rq pol body = (Inr u :: 'b response + upload_parts)"
    and "length body \<le> MAX_FILE_BYTES" and "pred_option utf8_str mime"
  shows "files_kept E app st (snd (replace_file E app rq c name mime body u cid p (write_blob cid (up_stored u) st)))"
proof (cases "insert_content rq cid (int (length (up_stored u))) (write_blob cid (up_stored u) st)")
  case None
  then show ?thesis using kept_write [OF assms(2,3)] by (simp add: replace_file_def)
next
  case (Some st1)
  show ?thesis
  proof (cases "enc_meta E app rq mime (int (length body))")
    case (Inl e)
    then show ?thesis using Some kept_write [OF assms(2,3)] by (simp add: replace_file_def)
  next
    case (Inr ms)
    obtain me se where ms: "ms = (me, se)" by fastforce
    let ?f = "write_page E app rq cid u body me se"
    note m = enc_meta_page [OF assms(1) Inr [unfolded ms], of "?f p"]
    have sz: "page_size E app (?f p) = Some (int (length body))" "page_mime E app (?f p) = Some mime"
      using m assms(7,8) by (simp_all add: write_page_def MAX_FILE_BYTES_def)
    have "page_kept E app p (blob_of p st) (?f p) (Some (up_stored u))"
      using upload_sealed_opens(1,2) [OF assms(1,6) _ _ _ _ _ sz(1)] sz assms(5)
      by (auto simp: page_kept_def page_ok_def write_page_def)
    then have "files_kept E app st (remove_blob (pg_content p) (delete_content (pg_content p) (update_page (pg_id p) ?f st1)))"
      by (intro kept_bind [OF assms(2,3,4) Some]) (simp_all add: write_page_def)
    with Some Inr ms show ?thesis by (simp add: replace_file_def)
  qed
qed

text \<open>A new file: its page is added, and nothing else changes.\<close>

definition file_added :: "ext \<Rightarrow> app \<Rightarrow> page_row \<Rightarrow> 'a file_state_scheme \<Rightarrow> 'a file_state_scheme \<Rightarrow> bool" where
  "file_added E app p st st' \<longleftrightarrow> tables_ok (pages st') (contents st') \<and> pages st' = pages st @ [p]
     \<and> pg_id p \<notin> pg_id ` set (pages st) \<and> page_ok E app p (blob_of p st')
     \<and> (\<forall>q \<in> set (pages st). blob_of q st' = blob_of q st)"

lemma insert_added:
  assumes "gcm_law E" and "tables_ok (pages st) (contents st)" and "cid \<notin> ct_id ` set (contents st)"
    and "upload_sealed E app rq pol body = (Inr u :: 'b response + upload_parts)"
    and "length body \<le> MAX_FILE_BYTES" and "pred_option utf8_str mime"
    and "insert_file E app rq c pol policy d nid name mime body u cid (write_blob cid (up_stored u) st) = (r, st')"
  shows "(\<forall>n x. r \<noteq> Reply n x) \<and> files_kept E app st st'
    \<or> (\<exists>p. file_added E app p st st' \<and> r = Reply 201 (uploaded_summary E rq c (pg_id p) name mime body)
        \<and> pg_flags p = file_flags pol \<and> (\<not> flagged (fp_resident pol) \<longrightarrow> pg_kind p \<noteq> 2 \<and> opens E app p (blob_of p st') body))"
proof (cases "\<exists>n x. r = Reply n x")
  case False
  then have "st' = write_blob cid (up_stored u) st"
    using assms(7) by (auto simp: insert_file_def Let_def split: option.splits sum.splits if_splits)
  with False kept_write [OF assms(2,3)] show ?thesis by auto
next
  case True
  let ?w = "write_blob cid (up_stored u) st"
  obtain st1 ne me se pv where i: "insert_content rq cid (int (length (up_stored u))) ?w = Some st1"
    "enc_meta E app rq mime (int (length body)) = Inr (me, se)"
    "let p = new_page E app rq c pol d nid u cid body ne me se pv
     in \<not> list_ex (\<lambda>q. pg_id q = pg_id p \<or> pg_domain q = d \<and> pg_name_id q = nid) (pages st)
       \<and> r = Reply 201 (uploaded_summary E rq c (pg_id p) name mime body) \<and> st' = st1\<lparr>pages := pages st1 @ [p]\<rparr>"
    using True assms(7)
    by (auto simp: insert_file_def Let_def write_blob_def file_policy_value_def elim!: and_then_InrE split: option.splits sum.splits if_splits)
  let ?p = "new_page E app rq c pol d nid u cid body ne me se pv"
  have c: "pg_content ?p = cid" "pg_flags ?p = file_flags pol" "pg_domain ?p = d" "pg_name_id ?p = nid" by (simp_all add: new_page_def)
  have new: "\<forall>q \<in> set (pages st). pg_id q \<noteq> pg_id ?p \<and> (pg_domain q, pg_name_id q) \<noteq> (d, nid)"
    using i(3) by (auto simp: Let_def list_ex_iff)
  have st': "pages st' = pages st @ [?p]" "blobs st' = (blobs st)(cid \<mapsto> up_stored u)"
    "contents st' = contents st @ [\<lparr>ct_id = cid, ct_path = cid, ct_size = int (length (up_stored u)), ct_created = now rq\<rparr>]"
    using i(1,3) by (auto simp: Let_def insert_content_def write_blob_def split: if_splits)
  have "tables_ok (pages st') (contents st')"
    using assms(2,3) new c unfolding st' tables_ok_def by (auto simp: image_iff)
  moreover have sz: "page_size E app ?p = Some (int (length body))" "page_mime E app ?p = Some mime"
    using enc_meta_page [OF assms(1) i(2), of ?p] assms(5,6) by (simp_all add: new_page_def MAX_FILE_BYTES_def)
  note o = upload_sealed_opens [OF assms(1,4) _ _ _ _ _ sz(1)]
  have b: "blob_of ?p st' = Some (up_stored u)" by (simp add: blob_of_def st' c)
  have "page_ok E app ?p (blob_of ?p st')" using o(1,2) sz unfolding b by (auto simp: page_ok_def new_page_def)
  moreover have "\<not> flagged (fp_resident pol) \<longrightarrow> pg_kind ?p \<noteq> 2 \<and> opens E app ?p (blob_of ?p st') body"
    using o(1,3) unfolding b by (auto simp: new_page_def)
  moreover have "\<forall>q \<in> set (pages st). blob_of q st' = blob_of q st"
    using assms(2,3) by (auto simp: blob_of_def st' tables_ok_def)
  ultimately show ?thesis
    using i(3) new st'(1) c(2) by (intro disjI2 exI [of _ ?p]) (auto simp: file_added_def Let_def)
qed

text \<open>The reply and the page of an upload that creates a file.\<close>

definition created ::
    "ext \<Rightarrow> app \<Rightarrow> request \<Rightarrow> authenticated_client \<Rightarrow> file_policy \<Rightarrow> string \<Rightarrow> string option \<Rightarrow> bytes
      \<Rightarrow> file_summary response \<Rightarrow> 'a file_state_scheme \<Rightarrow> 'a file_state_scheme \<Rightarrow> bool" where
  "created E app rq c pol name mime body r st st' \<longleftrightarrow> (\<exists>p. file_added E app p st st'
     \<and> r = Reply 201 (uploaded_summary E rq c (pg_id p) name mime body) \<and> pg_flags p = file_flags pol
     \<and> (\<not> flagged (fp_resident pol) \<longrightarrow> pg_kind p \<noteq> 2 \<and> opens E app p (blob_of p st') body))"

lemma and_then_InlE:
  assumes "and_then x f = Inl e"
  obtains "x = Inl e" | v where "x = Inr v" "f v = Inl e"
  using assms by (cases x) auto

lemma upload_sealed_no_reply [simp]: "upload_sealed E app rq pol body \<noteq> Inl (Reply n x)"
proof -
  have "upload_meta E e pol \<noteq> Inl (Reply n x)" for e
    by (auto simp: upload_meta_def split: if_splits option.splits)
  moreover have "upload_component E app rq e pol \<noteq> Inl (Reply n x)" for e
    by (auto simp: upload_component_def split: if_splits option.splits sum.splits)
  ultimately show ?thesis
    unfolding upload_sealed_def Let_def by (auto elim!: and_then_InlE split: sum.splits if_splits)
qed

lemma upload_allowed_cases:
  assumes "upload_allowed E app rq c pol d nid name mime body existing st = (r, st')"
  shows "st' = st \<and> (\<forall>n x. r \<noteq> Reply n x)
    \<or> (\<exists>policy u. upload_sealed E app rq pol body = (Inr u :: file_summary response + upload_parts)
        \<and> (case existing of
             Some p \<Rightarrow> replace_file E app rq c name mime body u (hex_encode E (rand rq 4 32)) p
               (write_blob (hex_encode E (rand rq 4 32)) (up_stored u) st)
           | None \<Rightarrow> insert_file E app rq c pol policy d nid name mime body u (hex_encode E (rand rq 4 32))
               (write_blob (hex_encode E (rand rq 4 32)) (up_stored u) st)) = (r, st'))"
proof (cases "upload_sealed E app rq pol body :: file_summary response + upload_parts")
  case (Inl e)
  then have "\<forall>n x. e \<noteq> Reply n x" by (metis upload_sealed_no_reply)
  then show ?thesis using assms Inl by (auto simp: upload_allowed_def split: sum.splits if_splits)
next
  case (Inr u)
  show ?thesis
  proof (cases "file_access_policy pol")
    case (Inl e)
    then show ?thesis using assms by (auto simp: upload_allowed_def)
  next
    case (Inr policy)
    then show ?thesis
      using assms \<open>upload_sealed E app rq pol body = Inr u\<close>
      by (cases "case policy of None \<Rightarrow> False | Some p \<Rightarrow> threshold_k p < 1 \<or> threshold_k p > int (length (signatories p))")
        (auto simp: upload_allowed_def Let_def)
  qed
qed

lemma upload_allowed_effect:
  assumes "gcm_law E" and "tables_ok (pages st) (contents st)" and "hex_encode E (rand rq 4 32) \<notin> ct_id ` set (contents st)"
    and "length body \<le> MAX_FILE_BYTES" and "pred_option utf8_str mime"
    and "\<And>p. existing = Some p \<Longrightarrow> p \<in> set (pages st) \<and> \<not> no_overwrite (pg_flags p)"
    and "upload_allowed E app rq c pol d nid name mime body existing st = (r, st')"
  shows "((\<forall>n x. r \<noteq> Reply n x) \<or> existing \<noteq> None) \<and> files_kept E app st st'
    \<or> existing = None \<and> created E app rq c pol name mime body r st st'"
  using upload_allowed_cases [OF assms(7)]
proof (elim disjE exE conjE)
  assume "st' = st" "\<forall>n x. r \<noteq> Reply n x"
  then show ?thesis using files_kept_same [OF refl assms(2)] by auto
next
  fix policy u
  assume u: "upload_sealed E app rq pol body = (Inr u :: file_summary response + upload_parts)"
    and w: "(case existing of
       Some p \<Rightarrow> replace_file E app rq c name mime body u (hex_encode E (rand rq 4 32)) p
         (write_blob (hex_encode E (rand rq 4 32)) (up_stored u) st)
     | None \<Rightarrow> insert_file E app rq c pol policy d nid name mime body u (hex_encode E (rand rq 4 32))
         (write_blob (hex_encode E (rand rq 4 32)) (up_stored u) st)) = (r, st')"
  show ?thesis
  proof (cases existing)
    case (Some p)
    then show ?thesis using kept_replace [OF assms(1-3) _ _ u assms(4,5), of p c name] assms(6) [OF Some] w by simp
  next
    case None
    from insert_added [OF assms(1-3) u assms(4,5)] w None show ?thesis by (fastforce simp: created_def)
  qed
qed

lemma upload_file_cases:
  assumes "upload_file E guess app rq name body ct q pol c st = (r, st')"
  shows "file_tables st' = file_tables st \<and> (\<forall>n x. r \<noteq> Reply n x)
    \<or> (\<exists>d n st1. resolve_and_gate_domain E app c q st = (Inr (d, n) :: file_summary response + _)
        \<and> length body \<le> MAX_FILE_BYTES
        \<and> (\<forall>p. find_page d (name_id_hex E (name_index_key app) d name) st = Some p \<longrightarrow> \<not> no_overwrite (pg_flags p))
        \<and> upload_allowed E app rq c pol d (name_id_hex E (name_index_key app) d name) name
            (case ct of Some m \<Rightarrow> Some m | None \<Rightarrow> guess name) body
            (find_page d (name_id_hex E (name_index_key app) d name) st) st = (r, st1)
        \<and> file_tables st' = file_tables st1)"
proof (cases "name = [] \<or> CHR ''/'' \<in> set name \<or> contains_str ''..'' name \<or> length body > MAX_FILE_BYTES \<or> body = []")
  case True
  then show ?thesis using assms by (auto simp: upload_file_def Let_def split: if_splits)
next
  case ok: False
  show ?thesis
  proof (cases "resolve_and_gate_domain E app c q st :: file_summary response + _")
    case (Inl e)
    then have "\<forall>n x. e \<noteq> Reply n x"
      by (auto simp: resolve_and_gate_domain_def Let_def split: option.splits if_splits)
    then show ?thesis using assms ok Inl by (auto simp: upload_file_def Let_def)
  next
    case (Inr dn)
    obtain d n where dn: "dn = (d, n)" by fastforce
    let ?x = "find_page d (name_id_hex E (name_index_key app) d name) st"
    obtain r1 st1 where up: "upload_allowed E app rq c pol d (name_id_hex E (name_index_key app) d name) name
        (case ct of Some m \<Rightarrow> Some m | None \<Rightarrow> guess name) body ?x st = (r1, st1)" by fastforce
    note step = assms [unfolded upload_file_def Let_def Inr dn sum.case prod.case up]
    show ?thesis
    proof (cases "(\<exists>p. ?x = Some p \<and> no_overwrite (pg_flags p)) \<or> ?x \<noteq> None \<and> \<not> flagged (fp_overwrite pol)
        \<or> \<not> is_allowed (acl_check E app rq c d name (if ?x \<noteq> None then Update else Create) st)")
      case True
      then show ?thesis using step ok by (auto split: if_splits option.splits)
    next
      case False
      then have "r = r1 \<and> file_tables st' = file_tables st1"
        using step ok by (cases r1) (auto split: option.splits)
      with False Inr dn up ok show ?thesis by auto
    qed
  qed
qed

lemma upload_effect:
  assumes "gcm_law E" and "tables_ok (pages st) (contents st)" and "hex_encode E (rand rq 4 32) \<notin> ct_id ` set (contents st)"
    and "pred_option utf8_str ct" and "\<And>n. pred_option utf8_str (guess n)"
    and "upload_file E guess app rq name body ct q pol c st = (r, st')"
  shows "((\<forall>n x. r \<noteq> Reply n x)
      \<or> (\<exists>d n. resolve_and_gate_domain E app c q st = (Inr (d, n) :: file_summary response + _)
          \<and> find_page d (name_id_hex E (name_index_key app) d name) st \<noteq> None)) \<and> files_kept E app st st'
    \<or> created E app rq c pol name (case ct of Some m \<Rightarrow> Some m | None \<Rightarrow> guess name) body r st st'"
  using upload_file_cases [OF assms(6)]
proof (elim disjE exE conjE)
  assume "file_tables st' = file_tables st" "\<forall>n x. r \<noteq> Reply n x"
  then show ?thesis using files_kept_same [OF _ assms(2)] by blast
next
  let ?mime = "case ct of Some m \<Rightarrow> Some m | None \<Rightarrow> guess name"
  fix d n st1
  let ?x = "find_page d (name_id_hex E (name_index_key app) d name) st"
  assume d: "resolve_and_gate_domain E app c q st = (Inr (d, n) :: file_summary response + _)"
    and len: "length body \<le> MAX_FILE_BYTES" and no: "\<forall>p. ?x = Some p \<longrightarrow> \<not> no_overwrite (pg_flags p)"
    and up: "upload_allowed E app rq c pol d (name_id_hex E (name_index_key app) d name) name ?mime body ?x st = (r, st1)"
    and st': "file_tables st' = file_tables st1"
  have mime: "pred_option utf8_str ?mime" using assms(4,5) by (cases ct) auto
  have "files_kept E app st st' = files_kept E app st st1" "created E app rq c pol name ?mime body r st st' = created E app rq c pol name ?mime body r st st1"
    using st' by (simp_all add: files_kept_def created_def file_added_def file_tables_def blob_of_def)
  moreover have "((\<forall>n x. r \<noteq> Reply n x) \<or> ?x \<noteq> None) \<and> files_kept E app st st1
      \<or> ?x = None \<and> created E app rq c pol name ?mime body r st st1"
    using find_page_in no by (intro upload_allowed_effect [OF assms(1-3) len mime _ up]) blast
  ultimately show ?thesis using d by blast
qed

section \<open>Reachable states\<close>

text \<open>
  The requests to the server. The id of a new content row is drawn from 32 random bytes; a step is
  one in which it is not the id of an existing row, since the blob on disk is written before the
  database could refuse the id.
\<close>

definition fresh_content :: "ext \<Rightarrow> request \<Rightarrow> nat \<Rightarrow> 'a file_state_scheme \<Rightarrow> bool" where
  "fresh_content E rq k st \<longleftrightarrow> hex_encode E (rand rq k 32) \<notin> ct_id ` set (contents st)"

inductive file_step :: "ext \<Rightarrow> (string \<Rightarrow> string option) \<Rightarrow> app \<Rightarrow> file_state \<Rightarrow> file_state \<Rightarrow> bool" for E guess app where
  Upload: "fresh_content E rq 4 st \<Longrightarrow> pred_option utf8_str ct
    \<Longrightarrow> file_step E guess app st (snd (upload_file E guess app rq name body ct q pol c st))"
| Download: "fresh_content E rq 13 st \<Longrightarrow> file_step E guess app st (snd (download_file E app rq name q h c st))"
| RotateFile: "fresh_content E rq 3 st \<Longrightarrow> file_step E guess app st (snd (rotate_file E app rq name q c st))"
| DeleteFile: "file_step E guess app st (snd (delete_file E app rq name q c st))"
| Cleanup: "file_step E guess app st (snd (cleanup_secrets E app rq q c st))"
| Other: "file_tables st' = file_tables st \<Longrightarrow> file_step E guess app st st'"

lemma file_step_effect:
  assumes "gcm_law E" and "\<forall>n. pred_option utf8_str (guess n)" and "files_inv E app st" and "file_step E guess app st st'"
  shows "files_kept E app st st' \<or> (\<exists>p. file_added E app p st st')"
  using assms(4)
proof cases
  case (Upload rq ct name body q pol c)
  obtain r st1 where u: "upload_file E guess app rq name body ct q pol c st = (r, st1)" by fastforce
  show ?thesis
    using upload_effect [OF assms(1) _ _ Upload(3) _ u] assms(2,3) Upload(1,2) u by (auto simp: fresh_content_def created_def)
next
  case (Download rq name q h c)
  then show ?thesis using assms(3) by (simp add: fresh_content_def download_kept [OF assms(1)])
next
  case (RotateFile rq name q c)
  then show ?thesis by (simp add: fresh_content_def rotate_file_kept [OF assms(1,3)])
next
  case (DeleteFile rq name q c)
  then show ?thesis using assms(3) by (simp add: delete_file_kept)
next
  case (Cleanup rq q c)
  then show ?thesis using assms(3) by (simp add: cleanup_kept)
next
  case Other
  then show ?thesis using assms(3) by (simp add: files_kept_same)
qed

lemma file_added_inv: "file_added E app p st st' \<Longrightarrow> files_inv E app st \<Longrightarrow> files_inv E app st'"
  by (auto simp: file_added_def files_inv_def)

definition has_page :: "string \<Rightarrow> 'a file_state_scheme \<Rightarrow> bool" where
  "has_page i st \<longleftrightarrow> i \<in> pg_id ` set (pages st)"

text \<open>An immutable file with these contents, readable unless it is exhausted.\<close>

definition holds :: "ext \<Rightarrow> app \<Rightarrow> string \<Rightarrow> bytes \<Rightarrow> 'a file_state_scheme \<Rightarrow> bool" where
  "holds E app i body st \<longleftrightarrow> (\<exists>p \<in> set (pages st). pg_id p = i \<and> no_overwrite (pg_flags p) \<and> pg_kind p \<noteq> 2
     \<and> (pg_exhausted p = None \<longrightarrow> opens E app p (blob_of p st) body))"

lemma files_kept_holds:
  assumes "files_kept E app st st'" and "files_inv E app st" and "holds E app i body st" and "has_page i st'"
  shows "holds E app i body st'"
proof -
  obtain p where p: "p \<in> set (pages st)" "pg_id p = i" "no_overwrite (pg_flags p)" "pg_kind p \<noteq> 2"
    "pg_exhausted p = None \<longrightarrow> opens E app p (blob_of p st) body" using assms(3) by (auto simp: holds_def)
  obtain p' where p': "p' \<in> set (pages st')" "pg_id p' = i" using assms(4) by (auto simp: has_page_def)
  obtain r where r: "r \<in> set (pages st)" "page_kept E app r (blob_of r st) p' (blob_of p' st')"
    using assms(1) p'(1) by (auto simp: files_kept_def)
  have "distinct (map pg_id (pages st))" using assms(2) by (simp add: files_inv_def tables_ok_def)
  from unique_row [OF this p(1) r(1)] have "r = p" using r(2) p(2) p'(2) by (simp add: page_kept_def)
  with r(2) p p' show ?thesis by (auto simp: holds_def page_kept_def intro!: bexI [of _ p'])
qed

interpretation filed: step_invariant "file_step E guess app"
  "\<lambda>s. gcm_law E \<and> (\<forall>n. pred_option utf8_str (guess n)) \<and> files_inv E app s" for E guess app
  by unfold_locales (use file_step_effect files_kept_inv file_added_inv in blast)

interpretation immutable: step_invariant "\<lambda>a b. file_step E guess app a b \<and> has_page i b"
  "\<lambda>s. gcm_law E \<and> (\<forall>n. pred_option utf8_str (guess n)) \<and> files_inv E app s \<and> holds E app i body s" for E guess app i body
proof unfold_locales
  fix s t
  assume st: "file_step E guess app s t \<and> has_page i t"
    and inv: "gcm_law E \<and> (\<forall>n. pred_option utf8_str (guess n)) \<and> files_inv E app s \<and> holds E app i body s"
  have "holds E app i body t" if "file_added E app p s t" for p
    using that inv by (auto simp: holds_def file_added_def)
  then show "gcm_law E \<and> (\<forall>n. pred_option utf8_str (guess n)) \<and> files_inv E app t \<and> holds E app i body t"
    using file_step_effect [of E guess app s t] files_kept_inv [of E app s t] file_added_inv [of E app _ s t]
      files_kept_holds [of E app s t i body] st inv by blast
qed

lemma download_serves:
  assumes "files_inv E app st" and "resolve_and_gate_domain E app c q st = (Inr (d, n) :: file_reply response + _)"
    and "find_page d (name_id_hex E (name_index_key app) d name) st = Some p"
    and "is_allowed (acl_check E app rq c d name Read st)" and "file_gates E app rq h c d name p st = (None, st1)"
    and "claim_page p (pages st1) = (Some cnt, rows)" and "opens E app p (blob_of p st) x"
  shows "\<exists>mime meta st'. download_file E app rq name q h c st
    = (Reply 200 (if pg_kind p = 2 then ResidentKey (b64_encode E x) (pg_copy p) else FileData x mime meta), st')"
proof -
  have p: "p \<in> set (pages st)" using find_page_in [OF assms(3)] .
  obtain sz mime where m: "page_size E app p = Some sz" "page_mime E app p = Some mime"
    using assms(1) p by (auto simp: files_inv_def page_ok_def)
  have down: "download_file E app rq name q h c st
      = claim_and_serve E app rq c (acl_check E app rq c d name Read st) name mime p st1"
    using assms(2-5) m by (simp add: download_file_def Let_def)
  have e: "pages st1 = pages st" "contents st1 = contents st" "blobs st1 = blobs st"
    using gates_file_tables [OF assms(5)] by (simp_all add: file_tables_def)
  have t1: "tables_ok (pages st1) (contents st1)" and p1: "p \<in> set (pages st1)" using assms(1) p e by simp_all
  note k = claim_page_kept [OF t1 p1 assms(6)]
  obtain n where n: "p\<lparr>pg_reads := n\<rparr> \<in> set rows" using k(2) by blast
  have t: "tables_ok (pages (st1\<lparr>pages := rows\<rparr>)) (contents (st1\<lparr>pages := rows\<rparr>))"
    using k(1) [of E app] unfolding files_kept_def by blast
  show ?thesis
  proof (cases "pg_kind p = 2")
    case True
    then have "open_component E app p = Some x" using assms(7) by (simp add: opens_def)
    then show ?thesis
      using down True assms(6) by (simp add: claim_and_serve_def serve_resident_def split: prod.split)
  next
    case False
    then obtain s where s: "blob_of p st = Some s" "open_blob E app p s = Inr x" using assms(7) by (auto simp: opens_def)
    have "fetch_blob p (st1\<lparr>pages := rows\<rparr>) = Some (pg_content p, s)"
      using fetch_blob_of [OF t, of n p] n s(1) e(3) by (simp add: blob_of_def)
    then show ?thesis
      using down False assms(6) s(2) by (simp add: claim_and_serve_def serve_file_def Let_def split: prod.split)
  qed
qed

lemma gates_passed: "file_gates E app rq h c d name p st = (None, st1) \<Longrightarrow> pg_exhausted p = None"
  by (auto simp: file_gates_def Let_def split: if_splits)

section \<open>What the purge removes\<close>

lemma purge_secrets_rows:
  "secrets (purge_secrets E app rq k c rs st) = filter (\<lambda>r. sr_id r \<notin> sr_id ` set rs) (secrets st)"
  by (induction E app rq k c rs st rule: purge_secrets.induct) (auto simp: delete_where_def intro: filter_cong)

lemma audit_files [simp]:
  "pages (audit E app rq k c a r s m st) = pages st" "contents (audit E app rq k c a r s m st) = contents st"
  "blobs (audit E app rq k c a r s m st) = blobs st"
  using file_tables_simps(1) [of E app rq k c a r s m st] by (simp_all add: file_tables_def)

lemma purge_files_rows:
  "secrets (purge_files E app rq k c fs st) = secrets st"
  "pages (purge_files E app rq k c fs st) = filter (\<lambda>p. pg_content p \<notin> (\<lambda>(p, ct). pg_content p) ` set fs) (pages st)"
  by (induction E app rq k c fs st rule: purge_files.induct)
    (auto simp: delete_content_def remove_blob_def delete_where_def intro: filter_cong)

lemma purge_files_blobs:
  "blobs (purge_files E app rq k c fs st) i = (if \<exists>(p, ct) \<in> set fs. ct_path ct = i then None else blobs st i)"
  by (induction E app rq k c fs st rule: purge_files.induct) (auto simp: delete_content_def remove_blob_def)

text \<open>The rows of a domain that the purge removes: tombstones without \<open>preserve_on_cleanup\<close>.\<close>

definition purgeable :: "string \<Rightarrow> string \<Rightarrow> int option \<Rightarrow> resource_flags \<Rightarrow> bool" where
  "purgeable d e exhausted fl \<longleftrightarrow> e = d \<and> exhausted \<noteq> None \<and> \<not> preserve_on_cleanup fl"

lemma filter_by_id:
  assumes "distinct (map f rows)"
  shows "filter (\<lambda>r. f r \<notin> f ` set (filter P rows)) rows = filter (\<lambda>r. \<not> P r) rows"
  using unique_row [OF assms] by (intro filter_cong refl) (fastforce simp: image_iff)

lemma joined_contents:
  assumes "tables_ok (pages st) (contents st)" and "set ps \<subseteq> set (pages st)"
  shows "List.map_filter (\<lambda>p. map_option (\<lambda>c. (p, c)) (find_content (pg_content p) st)) ps
    = map (\<lambda>p. (p, the (find_content (pg_content p) st))) ps"
proof -
  have "find_content (pg_content p) st \<noteq> None" if "p \<in> set ps" for p
    using content_of_page [OF assms(1), of p] that assms(2) by (metis option.distinct(1) subsetD)
  then show ?thesis by (induction ps) (auto simp: map_filter_simps split: option.split)
qed

lemma purge_result:
  fixes st :: "'a file_state_scheme" and P :: "page_row \<Rightarrow> bool" and S :: "secret_row \<Rightarrow> bool"
    and E :: ext and app :: app and rq :: request and k k' :: nat and c :: authenticated_client
  assumes "tables_ok (pages st) (contents st)" and "distinct (map sr_id (secrets st))"
  defines "fs \<equiv> map (\<lambda>p. (p, the (find_content (pg_content p) st))) (filter P (pages st))"
  defines "st' \<equiv> purge_files E app rq k c fs (purge_secrets E app rq k' c (filter S (secrets st)) st)"
  shows "secrets st' = filter (\<lambda>r. \<not> S r) (secrets st)" "pages st' = filter (\<lambda>p. \<not> P p) (pages st)"
    "\<forall>p \<in> set (pages st). blob_of p st' = (if P p then None else blob_of p st)"
proof -
  let ?rows = "filter S (secrets st)"
  have tab: "pages (purge_secrets E app rq k' c ?rows st) = pages st" "blobs (purge_secrets E app rq k' c ?rows st) = blobs st"
    using purge_secrets_tables [of E app rq k' c ?rows st] by (simp_all add: file_tables_def)
  show "secrets st' = filter (\<lambda>r. \<not> S r) (secrets st)"
    using filter_by_id [OF assms(2)] by (simp add: st'_def fs_def purge_files_rows purge_secrets_rows)
  have d: "distinct (map pg_content (pages st))" using assms(1) by (simp add: tables_ok_def)
  show "pages st' = filter (\<lambda>p. \<not> P p) (pages st)"
    using filter_by_id [OF d, of P] by (simp add: st'_def fs_def purge_files_rows tab image_image)
  have path: "ct_path (the (find_content (pg_content p) st)) = pg_content p" if "p \<in> set (pages st)" for p
    using content_of_page [OF assms(1) that] by (metis option.sel)
  show "\<forall>p \<in> set (pages st). blob_of p st' = (if P p then None else blob_of p st)"
  proof
    fix p assume p: "p \<in> set (pages st)"
    show "blob_of p st' = (if P p then None else blob_of p st)"
      using path unique_row [OF d p] p by (auto simp: st'_def fs_def blob_of_def purge_files_blobs tab)
  qed
qed

section \<open>Properties\<close>

text \<open>
  C9. Every file can be read: in every state reached from empty tables by any sequence of uploads,
  overwrites, downloads, rotations, deletions and purges, a download that the access rules, the
  gates and the read limit let through succeeds: the blob is there, opens under its data key and
  passes the integrity checks, and the key component of a resident file is unwrapped.
\<close>

theorem files_readable:
  assumes "gcm_law E" and "\<forall>n. pred_option utf8_str (guess n)" and "pages st0 = []" and "contents st0 = []"
    and "rtranclp (file_step E guess app) st0 st"
    and "resolve_and_gate_domain E app c q st = (Inr (d, n) :: file_reply response + _)"
    and "find_page d (name_id_hex E (name_index_key app) d name) st = Some p"
    and "is_allowed (acl_check E app rq c d name Read st)" and "file_gates E app rq h c d name p st = (None, st1)"
    and "claim_page p (pages st1) = (Some cnt, rows)"
  shows "\<exists>x mime meta st'. opens E app p (blob_of p st) x \<and> download_file E app rq name q h c st
    = (Reply 200 (if pg_kind p = 2 then ResidentKey (b64_encode E x) (pg_copy p) else FileData x mime meta), st')"
proof -
  have "files_inv E app st0" using assms(3,4) by (simp add: files_inv_def tables_ok_def)
  then have inv: "files_inv E app st" using filed.steps_keep [OF assms(5)] assms(1,2) by blast
  then obtain x where "opens E app p (blob_of p st) x"
    using find_page_in [OF assms(7)] gates_passed [OF assms(9)] by (auto simp: files_inv_def page_ok_def)
  with download_serves [OF inv assms(6-10) this] show ?thesis by blast
qed

text \<open>
  C11. An immutable file is returned unchanged: a file that was uploaded with \<open>no_overwrite\<close>, sealed
  by the server or by the client, is downloaded with exactly the uploaded bytes after any sequence
  of requests that leaves it in existence, however often it has been read and re-keyed, by every
  client that the access rules, the gates and the read limit let through.
\<close>

theorem immutable_file_intact:
  assumes "gcm_law E" and "\<forall>n. pred_option utf8_str (guess n)" and "files_inv E app st" and "fresh_content E rq 4 st"
    and "pred_option utf8_str ct" and "upload_file E guess app rq name body ct q pol c st = (Reply 201 s, st1)"
    and "resolve_and_gate_domain E app c q st = (Inr (d, n) :: file_summary response + _)"
    and "find_page d (name_id_hex E (name_index_key app) d name) st = None"
    and "fp_no_overwrite pol = Some True" and "\<not> flagged (fp_resident pol)"
    and "rtranclp (\<lambda>a b. file_step E guess app a b \<and> has_page (fs_id s) b) st1 st2"
    and "resolve_and_gate_domain E app c' q' st2 = (Inr (d', n') :: file_reply response + _)"
    and "find_page d' (name_id_hex E (name_index_key app) d' name') st2 = Some p" and "pg_id p = fs_id s"
    and "is_allowed (acl_check E app rq' c' d' name' Read st2)" and "file_gates E app rq' h c' d' name' p st2 = (None, st3)"
    and "claim_page p (pages st3) = (Some cnt, rows)"
  shows "\<exists>mime meta st4. download_file E app rq' name' q' h c' st2 = (Reply 200 (FileData body mime meta), st4)"
proof -
  have "tables_ok (pages st) (contents st)" using assms(3) by simp
  from upload_effect [OF assms(1) this assms(4) [unfolded fresh_content_def] assms(5) _ assms(6)] assms(2,7,8)
  have "created E app rq c pol name (case ct of Some m \<Rightarrow> Some m | None \<Rightarrow> guess name) body (Reply 201 s) st st1" by auto
  then obtain p0 where p0: "file_added E app p0 st st1" "fs_id s = pg_id p0" "pg_flags p0 = file_flags pol"
    "pg_kind p0 \<noteq> 2" "opens E app p0 (blob_of p0 st1) body"
    using assms(10) by (auto simp: created_def uploaded_summary_def)
  have "holds E app (fs_id s) body st1"
    using p0 assms(9) by (auto simp: holds_def file_added_def file_flags_def flagged_def intro!: bexI [of _ p0])
  then have "files_inv E app st2" "holds E app (fs_id s) body st2"
    using immutable.steps_keep [OF assms(11), of body] assms(1,2) file_added_inv [OF p0(1) assms(3)] by blast+
  then have inv: "files_inv E app st2" and h: "pg_kind p \<noteq> 2" "opens E app p (blob_of p st2) body"
  proof -
    obtain p' where p': "p' \<in> set (pages st2)" "pg_id p' = fs_id s" "pg_kind p' \<noteq> 2"
      "pg_exhausted p' = None \<longrightarrow> opens E app p' (blob_of p' st2) body"
      using \<open>holds E app (fs_id s) body st2\<close> by (auto simp: holds_def)
    have "distinct (map pg_id (pages st2))" using \<open>files_inv E app st2\<close> by (simp add: files_inv_def tables_ok_def)
    from unique_row [OF this find_page_in [OF assms(13)] p'(1)] have "p' = p" using assms(14) p'(2) by simp
    with p' gates_passed [OF assms(16)] show "pg_kind p \<noteq> 2" "opens E app p (blob_of p st2) body" by simp_all
  qed
  from download_serves [OF inv assms(12,13,15,16,17) h(2)] h(1) show ?thesis by simp
qed

text \<open>
  C18. The purge removes exactly the tombstones: a call by an administrator deletes the exhausted
  secrets and files of the domain that are not marked \<open>preserve_on_cleanup\<close>, together with what is
  left of their blobs, keeps every other secret and file, and reports how many of each kind it
  removed and how many tombstones it preserved.
\<close>

theorem cleanup_exact:
  assumes "files_inv E app st" and "distinct (map sr_id (secrets st))" and "is_admin c"
    and "resolve_and_gate_domain E app c q st = (Inr (d, n) :: cleanup_reply response + _)"
  shows "\<exists>y st'. cleanup_secrets E app rq q c st = (Reply 200 y, st')
    \<and> secrets st' = filter (\<lambda>r. \<not> purgeable d (sr_domain r) (sr_exhausted r) (sr_flags r)) (secrets st)
    \<and> pages st' = filter (\<lambda>p. \<not> purgeable d (pg_domain p) (pg_exhausted p) (pg_flags p)) (pages st)
    \<and> (\<forall>p \<in> set (pages st). blob_of p st' =
        (if purgeable d (pg_domain p) (pg_exhausted p) (pg_flags p) then None else blob_of p st))
    \<and> length (secrets st) = length (secrets st') + cu_secrets y \<and> length (pages st) = length (pages st') + cu_files y
    \<and> cu_preserved y = length (filter (\<lambda>r. sr_domain r = d \<and> sr_exhausted r \<noteq> None) (secrets st'))
        + length (filter (\<lambda>p. pg_domain p = d \<and> pg_exhausted p \<noteq> None) (pages st'))"
proof -
  let ?S = "\<lambda>r. purgeable d (sr_domain r) (sr_exhausted r) (sr_flags r)"
  let ?P = "\<lambda>p. purgeable d (pg_domain p) (pg_exhausted p) (pg_flags p)"
  let ?rows = "filter ?S (secrets st)" and ?ps = "filter ?P (pages st)"
  let ?fs = "map (\<lambda>p. (p, the (find_content (pg_content p) st))) ?ps"
  have t: "tables_ok (pages st) (contents st)" using assms(1) by simp
  have f: "filter (\<lambda>r. \<not> preserve_on_cleanup (sr_flags r)) (filter (\<lambda>r. sr_domain r = d \<and> sr_exhausted r \<noteq> None) (secrets st)) = ?rows"
    "filter (\<lambda>p. \<not> preserve_on_cleanup (pg_flags p)) (filter (\<lambda>p. pg_domain p = d \<and> pg_exhausted p \<noteq> None) (pages st)) = ?ps"
    by (auto simp: purgeable_def intro: filter_cong)
  let ?st = "purge_files E app rq (length ?rows) c ?fs (purge_secrets E app rq 0 c ?rows st)"
  note res = purge_result [OF t assms(2), where P = ?P and S = ?S and E = E and app = app and rq = rq and k = "length ?rows" and k' = 0 and c = c]
  have pres: "filter (\<lambda>r. preserve_on_cleanup (sr_flags r)) (filter (\<lambda>r. sr_domain r = d \<and> sr_exhausted r \<noteq> None) (secrets st))
      = filter (\<lambda>r. sr_domain r = d \<and> sr_exhausted r \<noteq> None) (secrets ?st)"
    "filter (\<lambda>p. preserve_on_cleanup (pg_flags p)) (filter (\<lambda>p. pg_domain p = d \<and> pg_exhausted p \<noteq> None) (pages st))
      = filter (\<lambda>p. pg_domain p = d \<and> pg_exhausted p \<noteq> None) (pages ?st)"
    unfolding res(1,2) by (auto simp: purgeable_def intro: filter_cong)
  have len: "length (secrets st) = length (secrets ?st) + length ?rows" "length (pages st) = length (pages ?st) + length ?ps"
    using sum_length_filter_compl [of ?S "secrets st"] sum_length_filter_compl [of ?P "pages st"] by (simp_all add: res(1,2))
  have j: "List.map_filter (\<lambda>p. map_option (\<lambda>c. (p, c)) (find_content (pg_content p) st)) ?ps = ?fs"
    by (rule joined_contents [OF t]) auto
  have "require_admin c = (None :: cleanup_reply response option)" using assms(3) by (simp add: require_admin_def)
  then have "\<exists>y st'. cleanup_secrets E app rq q c st = (Reply 200 y, st')
    \<and> cu_secrets y = length ?rows \<and> cu_files y = length ?fs
    \<and> cu_preserved y = length (filter (\<lambda>r. sr_domain r = d \<and> sr_exhausted r \<noteq> None) (secrets ?st))
      + length (filter (\<lambda>p. pg_domain p = d \<and> pg_exhausted p \<noteq> None) (pages ?st))
    \<and> secrets st' = secrets ?st \<and> pages st' = pages ?st \<and> blobs st' = blobs ?st"
    unfolding cleanup_secrets_def Let_def assms(4) by (simp only: option.case sum.case prod.case f pres j) (intro exI conjI, rule refl, simp_all)
  then obtain y st' where "cleanup_secrets E app rq q c st = (Reply 200 y, st')" "cu_secrets y = length ?rows" "cu_files y = length ?ps"
    "cu_preserved y = length (filter (\<lambda>r. sr_domain r = d \<and> sr_exhausted r \<noteq> None) (secrets ?st))
      + length (filter (\<lambda>p. pg_domain p = d \<and> pg_exhausted p \<noteq> None) (pages ?st))"
    "secrets st' = secrets ?st" "pages st' = pages ?st" "blobs st' = blobs ?st"
    unfolding length_map by blast
  then show ?thesis using res len by (intro exI [of _ y] exI [of _ st']) (simp add: blob_of_def)
qed

section \<open>Witnesses\<close>

definition demo_drive :: "secret_row list \<Rightarrow> file_state" where
  "demo_drive rows = \<lparr>audit_log = [], audit_next = 1, anchors = [], archive_files = [], clients = [],
     domains = [demo_default], members = [], acls = [], requests = [], grants = [], secrets = rows,
     contents = [], pages = [], blobs = Map.empty\<rparr>"

definition demo_file_policy :: file_policy where
  "demo_file_policy = \<lparr>fp_mfa = None, fp_delete_on_read = None, fp_max_reads = None, fp_rotate_on_read = Some True,
     fp_preserve = None, fp_no_overwrite = Some True, fp_overwrite = None, fp_quorum = None, fp_signatories = None,
     fp_external = None, fp_meta = None, fp_resident = None, fp_component = None, fp_server_copy = None\<rparr>"

definition demo_upload :: "file_summary response \<times> file_state" where
  "demo_upload = upload_file demo_ext (\<lambda>n. None) demo_app (demo_rq 5) ''f'' [1, 2, 3] None None demo_file_policy demo_admin (demo_drive [])"

lemma demo_drive_fields [simp]:
  "domains (demo_drive rows) = [demo_default]" "pages (demo_drive rows) = []" "contents (demo_drive rows) = []"
  "secrets (demo_drive rows) = rows"
  by (simp_all add: demo_drive_def)

lemma demo_drive_inv: "files_inv E app (demo_drive rows)"
  by (simp add: files_inv_def tables_ok_def)

lemma demo_sealed: "\<exists>u. upload_sealed demo_ext demo_app (demo_rq 5) demo_file_policy [1, 2, 3] = (Inr u :: file_summary response + upload_parts)"
proof -
  have "\<not> isl (seal_blob demo_ext demo_app (demo_rq 5) [1, 2, 3])" by code_simp
  then obtain x where "seal_blob demo_ext demo_app (demo_rq 5) [1, 2, 3] = Inr x"
    by (cases "seal_blob demo_ext demo_app (demo_rq 5) [1, 2, 3]") simp_all
  then show ?thesis
    by (cases x) (simp add: upload_sealed_def upload_meta_def upload_component_def demo_file_policy_def flagged_def Let_def)
qed

lemma demo_enc_field: "enc_field demo_ext n (metadata_enc_key demo_app) b = Inr (n @ b @ zeros 16)"
  using demo_seal_Inr by (simp add: enc_field_def demo_app_def)

lemma demo_uploads:
  "\<exists>s st1 p. demo_upload = (Reply 201 s, st1) \<and> pages st1 = [p] \<and> domains st1 = [demo_default] \<and> pg_id p = fs_id s
    \<and> pg_domain p = ''dom'' \<and> pg_name_id p = name_id_hex demo_ext (name_index_key demo_app) ''dom'' ''f''
    \<and> pg_flags p = file_flags demo_file_policy \<and> pg_policy p = None \<and> pg_exhausted p = None"
proof -
  obtain u where u: "upload_sealed demo_ext demo_app (demo_rq 5) demo_file_policy [1, 2, 3] = (Inr u :: file_summary response + upload_parts)"
    using demo_sealed by blast
  have p: "file_access_policy demo_file_policy = Inr None" by (simp add: file_access_policy_def demo_file_policy_def)
  show ?thesis
    by (simp add: demo_upload_def upload_file_def Let_def MAX_FILE_BYTES_def demo_gate find_page_def demo_allowed is_allowed_def
        upload_allowed_def p u starts_with_def write_blob_def insert_file_def insert_content_def demo_name_sealed enc_meta_def demo_enc_field
        file_policy_value_def uploaded_summary_def new_page_def acl_record_use_def flagged_def)
qed

lemma demo_downloadable:
  assumes "pages st = [p]" and "domains st = [demo_default]"
    and "pg_domain p = ''dom''" and "pg_name_id p = name_id_hex demo_ext (name_index_key demo_app) ''dom'' ''f''"
    and "pg_flags p = file_flags demo_file_policy" and "pg_policy p = None" and "pg_exhausted p = None"
  shows "resolve_and_gate_domain demo_ext demo_app demo_admin None st = (Inr (''dom'', ''default'') :: file_reply response + _)"
    "find_page ''dom'' (name_id_hex demo_ext (name_index_key demo_app) ''dom'' ''f'') st = Some p"
    "is_allowed (acl_check demo_ext demo_app rq demo_admin ''dom'' ''f'' Read st)"
    "file_gates demo_ext demo_app rq demo_headers demo_admin ''dom'' ''f'' p st = (None, st)"
    "\<exists>rows. claim_page p (pages st) = (Some None, rows)"
  using assms by (simp_all add: demo_gate find_page_def demo_allowed is_allowed_def file_gates_def file_flags_def
      demo_file_policy_def flagged_def file_mfa_gate_def claim_page_def read_cap_def)

lemma demo_fresh: "fresh_content demo_ext rq k (demo_drive rows)"
  by (simp add: fresh_content_def)

lemma demo_upload_step: "file_step demo_ext (\<lambda>n. None) demo_app (demo_drive []) (snd demo_upload)"
  unfolding demo_upload_def by (rule file_step.Upload) (simp_all add: demo_fresh)

theorem files_readable_witness:
  "\<exists>p x mime meta st'. opens demo_ext demo_app p (blob_of p (snd demo_upload)) x
    \<and> download_file demo_ext demo_app (demo_rq 6) ''f'' None demo_headers demo_admin (snd demo_upload)
      = (Reply 200 (if pg_kind p = 2 then ResidentKey (b64_encode demo_ext x) (pg_copy p) else FileData x mime meta), st')"
proof -
  obtain s st1 p where s: "demo_upload = (Reply 201 s, st1)" and p: "pages st1 = [p]" "domains st1 = [demo_default]"
    "pg_domain p = ''dom''" "pg_name_id p = name_id_hex demo_ext (name_index_key demo_app) ''dom'' ''f''"
    "pg_flags p = file_flags demo_file_policy" "pg_policy p = None" "pg_exhausted p = None"
    using demo_uploads by blast
  have st1: "snd demo_upload = st1" unfolding s by (rule snd_conv)
  obtain rows where rows: "claim_page p (pages st1) = (Some None, rows)" using demo_downloadable(5) [OF p] by blast
  from files_readable [OF demo_laws(3) _ _ _ r_into_rtranclp [of "file_step demo_ext (\<lambda>n. None) demo_app", OF demo_upload_step [unfolded st1]]
      demo_downloadable(1,2) [OF p] demo_downloadable(3,4) [OF p, where rq = "demo_rq 6"] rows]
  show ?thesis unfolding st1 by (intro exI [of _ p]) simp
qed

theorem immutable_file_intact_witness:
  "\<exists>mime meta st4. download_file demo_ext demo_app (demo_rq 6) ''f'' None demo_headers demo_admin (snd demo_upload)
     = (Reply 200 (FileData [1, 2, 3] mime meta), st4)"
proof -
  obtain s st1 p where s: "demo_upload = (Reply 201 s, st1)" and p: "pages st1 = [p]" "domains st1 = [demo_default]"
    "pg_domain p = ''dom''" "pg_name_id p = name_id_hex demo_ext (name_index_key demo_app) ''dom'' ''f''"
    "pg_flags p = file_flags demo_file_policy" "pg_policy p = None" "pg_exhausted p = None" and i: "pg_id p = fs_id s"
    using demo_uploads by blast
  obtain rows where rows: "claim_page p (pages st1) = (Some None, rows)" using demo_downloadable(5) [OF p] by blast
  have pol: "fp_no_overwrite demo_file_policy = Some True" "\<not> flagged (fp_resident demo_file_policy)"
    by (simp_all add: demo_file_policy_def flagged_def)
  have none: "find_page d n (demo_drive []) = None" for d n by (simp add: find_page_def)
  from immutable_file_intact [OF demo_laws(3) _ demo_drive_inv demo_fresh _ s [unfolded demo_upload_def]
      demo_gate [OF demo_drive_fields(1)] none pol rtranclp.rtrancl_refl demo_downloadable(1,2) [OF p] i
      demo_downloadable(3,4) [OF p, where rq = "demo_rq 6"] rows]
  show ?thesis unfolding s by simp
qed

theorem cleanup_exact_witness:
  "\<exists>y st'. cleanup_secrets demo_ext demo_app (demo_rq 6) None demo_admin
      (demo_drive [(demo_secret demo_once)\<lparr>sr_exhausted := Some 1\<rparr>]) = (Reply 200 y, st')
    \<and> secrets st' = [] \<and> cu_secrets y = 1 \<and> cu_preserved y = 0"
proof -
  let ?r = "(demo_secret demo_once)\<lparr>sr_exhausted := Some 1\<rparr>"
  have "is_admin demo_admin" by (simp add: is_admin_def demo_admin_def)
  from cleanup_exact [OF demo_drive_inv _ this demo_gate [OF demo_drive_fields(1)], of "[?r]" "demo_rq 6"] obtain y st' where
    "cleanup_secrets demo_ext demo_app (demo_rq 6) None demo_admin (demo_drive [?r]) = (Reply 200 y, st')"
    "secrets st' = filter (\<lambda>r. \<not> purgeable ''dom'' (sr_domain r) (sr_exhausted r) (sr_flags r)) [?r]" "pages st' = []"
    "1 = length (secrets st') + cu_secrets y"
    "cu_preserved y = length (filter (\<lambda>r. sr_domain r = ''dom'' \<and> sr_exhausted r \<noteq> None) (secrets st'))
        + length (filter (\<lambda>p. pg_domain p = ''dom'' \<and> pg_exhausted p \<noteq> None) (pages st'))"
    by auto
  moreover have "purgeable ''dom'' (sr_domain ?r) (sr_exhausted ?r) (sr_flags ?r)"
    by (simp add: purgeable_def demo_secret_def demo_once_def default_flags_def)
  ultimately show ?thesis by (intro exI [of _ y] exI [of _ st']) simp
qed

end
