(* ===== verification/Disk.thy ===== *)
theory Disk
  imports Prelude
begin

text \<open>
  Programs on the file system: a disk maps paths to files with their contents and permission
  bits, and a program reads the disk and yields its result with the list of the operations it has
  performed, in order. What is on the disk when a process is killed is what a prefix of that list
  leaves, together with a part of the next operation: \<open>fs::write\<close> truncates the file and then
  writes it, so that a kill in between leaves any prefix of the new contents, the empty one
  included. Renaming, removing and the change of a mode are atomic, and what a process has
  written survives it (a crash of the whole machine, which may lose more, is not modelled).
  Directories are implicit: every path can be written.
\<close>

record inode =
  contents_of :: bytes
  mode_of :: nat

type_synonym disk = "string \<rightharpoonup> inode"

text \<open>
  \<open>fs::write\<close> (with the mode a new file gets), \<open>set_permissions\<close>, the overwriting of a file in place,
  \<open>fs::rename\<close> and \<open>fs::remove_file\<close>.
\<close>

datatype fs_op =
    WriteFile string bytes nat
  | Chmod string nat
  | WriteOver string bytes
  | Rename string string
  | RemoveFile string

fun fs_apply :: "fs_op \<Rightarrow> disk \<Rightarrow> disk" where
  "fs_apply (WriteFile p b m) d =
     d(p \<mapsto> \<lparr>contents_of = b, mode_of = (case d p of None \<Rightarrow> m | Some f \<Rightarrow> mode_of f)\<rparr>)"
| "fs_apply (Chmod p m) d = d(p := map_option (\<lambda>f. f\<lparr>mode_of := m\<rparr>) (d p))"
| "fs_apply (WriteOver p b) d = d(p := map_option (\<lambda>f. f\<lparr>contents_of := b\<rparr>) (d p))"
| "fs_apply (Rename p q) d = (d(q := d p))(p := None)"
| "fs_apply (RemoveFile p) d = d(p := None)"

definition fs_run :: "fs_op list \<Rightarrow> disk \<Rightarrow> disk" where
  "fs_run ops d = fold fs_apply ops d"

text \<open>An operation cut off after \<open>j\<close> bytes, and a program cut off after \<open>k\<close> operations and, where \<open>j\<close> says so, in the middle of the next.\<close>

fun fs_torn :: "nat \<Rightarrow> fs_op \<Rightarrow> disk \<Rightarrow> disk" where
  "fs_torn j (WriteFile p b m) d = fs_apply (WriteFile p (take j b) m) d"
| "fs_torn j (WriteOver p b) d =
     d(p := map_option (\<lambda>f. f\<lparr>contents_of := take j b @ drop j (contents_of f)\<rparr>) (d p))"
| "fs_torn j op d = d"

definition fs_cut :: "nat \<Rightarrow> nat option \<Rightarrow> fs_op list \<Rightarrow> disk \<Rightarrow> disk" where
  "fs_cut k j ops d = (case (j, drop k ops) of
      (Some j, op # _) \<Rightarrow> fs_torn j op (fs_run (take k ops) d)
    | _ \<Rightarrow> fs_run (take k ops) d)"

text \<open>The cut is in the middle of a write that truncates the file \<open>p\<close> itself.\<close>

definition tears :: "string \<Rightarrow> nat \<Rightarrow> nat option \<Rightarrow> fs_op list \<Rightarrow> bool" where
  "tears p k j ops \<longleftrightarrow> j \<noteq> None \<and> (case drop k ops of WriteFile q b m # _ \<Rightarrow> q = p | _ \<Rightarrow> False)"

section \<open>Programs\<close>

type_synonym ('e, 'a) io = "disk \<Rightarrow> ('e + 'a) \<times> fs_op list"

definition io_lift :: "'e + 'a \<Rightarrow> ('e, 'a) io" where
  "io_lift r d = (r, [])"

definition io_return :: "'a \<Rightarrow> ('e, 'a) io" where
  "io_return x d = (Inr x, [])"

definition io_fail :: "'e \<Rightarrow> ('e, 'a) io" where
  "io_fail e d = (Inl e, [])"

text \<open>The operator \<open>?\<close>: an error ends the program, and what has been done stays done.\<close>

definition io_bind :: "('e, 'a) io \<Rightarrow> ('a \<Rightarrow> ('e, 'b) io) \<Rightarrow> ('e, 'b) io" where
  "io_bind c f d = (case c d of
      (Inl e, ops) \<Rightarrow> (Inl e, ops)
    | (Inr x, ops) \<Rightarrow> (case f x (fs_run ops d) of (r, ops') \<Rightarrow> (r, ops @ ops')))"

definition io_do :: "fs_op \<Rightarrow> ('e, unit) io" where
  "io_do op d = (Inr (), [op])"

text \<open>\<open>let _ =\<close>: the result is dropped.\<close>

definition io_ignore :: "('x, 'a) io \<Rightarrow> ('e, unit) io" where
  "io_ignore c d = (Inr (), snd (c d))"

text \<open>\<open>Path::exists\<close> and \<open>fs::read\<close>, whose failure is given as \<open>e\<close>.\<close>

definition io_exists :: "string \<Rightarrow> ('e, bool) io" where
  "io_exists p d = (Inr (d p \<noteq> None), [])"

definition io_read :: "'e \<Rightarrow> string \<Rightarrow> ('e, bytes) io" where
  "io_read e p d = (case d p of None \<Rightarrow> Inl e | Some f \<Rightarrow> Inr (contents_of f), [])"

text \<open>What a program leaves on the disk.\<close>

definition io_disk :: "('e, 'a) io \<Rightarrow> disk \<Rightarrow> disk" where
  "io_disk c d = fs_run (snd (c d)) d"

named_theorems io_simps "the programs of the file system, run on a disk"

lemma fs_run_Nil [simp]: "fs_run [] d = d"
  and fs_run_Cons [simp]: "fs_run (op # ops) d = fs_run ops (fs_apply op d)"
  and fs_run_append [simp]: "fs_run (ops @ ops') d = fs_run ops' (fs_run ops d)"
  by (simp_all add: fs_run_def)

lemma io_basic [io_simps]:
  "io_lift r d = (r, [])" "io_return x d = (Inr x, [])" "io_fail e d = (Inl e, [])" "io_do op d = (Inr (), [op])"
  "io_exists p d = (Inr (d p \<noteq> None), [])"
  by (simp_all add: io_lift_def io_return_def io_fail_def io_do_def io_exists_def)

lemma io_read_simps [io_simps]:
  "d p = Some f \<Longrightarrow> io_read e p d = (Inr (contents_of f), [])"
  "d p = None \<Longrightarrow> io_read e p d = (Inl e, [])"
  by (simp_all add: io_read_def)

lemma io_bind_simps [io_simps]:
  "c d = (Inr x, ops) \<Longrightarrow> io_bind c f d = (fst (f x (fs_run ops d)), ops @ snd (f x (fs_run ops d)))"
  "c d = (Inl e, ops) \<Longrightarrow> io_bind c f d = (Inl e, ops)"
  by (simp_all add: io_bind_def split: prod.splits)

lemma io_bind_InrE:
  assumes "io_bind c f d = (Inr y, ops)"
  obtains x ops1 ops2 where "c d = (Inr x, ops1)" "f x (fs_run ops1 d) = (Inr y, ops2)" "ops = ops1 @ ops2"
  using assms by (auto simp: io_bind_def split: prod.splits sum.splits)

text \<open>A program that performs no operation leaves the disk alone.\<close>

lemma io_disk_lift [simp]: "io_disk (io_lift r) d = d"
  by (simp add: io_disk_def io_simps)

section \<open>What a program leaves alone\<close>

fun op_paths :: "fs_op \<Rightarrow> string set" where
  "op_paths (WriteFile p b m) = {p}"
| "op_paths (Chmod p m) = {p}"
| "op_paths (WriteOver p b) = {p}"
| "op_paths (Rename p q) = {p, q}"
| "op_paths (RemoveFile p) = {p}"

definition spares :: "string \<Rightarrow> ('e, 'a) io \<Rightarrow> bool" where
  "spares p c \<longleftrightarrow> (\<forall>d. \<forall>op \<in> set (snd (c d)). p \<notin> op_paths op)"

lemma fs_run_spared: "\<forall>op \<in> set ops. p \<notin> op_paths op \<Longrightarrow> fs_run ops d p = d p"
proof (induction ops arbitrary: d)
  case (Cons op ops)
  then have "fs_apply op d p = d p" by (cases op) auto
  with Cons show ?case by simp
qed simp

lemma sparesD: "spares p c \<Longrightarrow> c d = (r, ops) \<Longrightarrow> op \<in> set ops \<Longrightarrow> p \<notin> op_paths op"
  unfolding spares_def by (metis snd_conv)

lemma sparesI: "(\<And>d r ops op. c d = (r, ops) \<Longrightarrow> op \<in> set ops \<Longrightarrow> p \<notin> op_paths op) \<Longrightarrow> spares p c"
  unfolding spares_def by (metis prod.collapse)

lemma spared:
  assumes "spares p c" and "c d = (r, ops)"
  shows "fs_run (take k ops) d p = d p" and "fs_run ops d p = d p"
  using sparesD [OF assms] by (auto intro!: fs_run_spared dest: in_set_takeD)

lemma fs_cut_simps [simp]:
  "fs_cut k None ops d = fs_run (take k ops) d"
  "fs_cut k j [] d = d"
  "fs_cut 0 (Some i) (op # ops) d = fs_torn i op d"
  "fs_cut (Suc k) j (op # ops) d = fs_cut k j ops (fs_apply op d)"
  by (auto simp: fs_cut_def split: option.split list.split)

lemma tears_simps [simp]:
  "\<not> tears p k None ops" "\<not> tears p k j []"
  "tears p 0 (Some i) (op # ops) \<longleftrightarrow> (\<exists>b m. op = WriteFile p b m)"
  "tears p (Suc k) j (op # ops) = tears p k j ops"
  by (auto simp: tears_def split: fs_op.splits)

lemma fs_cut_append:
  "fs_cut k j (ops @ ops') d = (if k < length ops then fs_cut k j ops d else fs_cut (k - length ops) j ops' (fs_run ops d))"
  by (auto simp: fs_cut_def split: option.split list.split)

lemma tears_append:
  "tears p k j (ops @ ops') = (if k < length ops then tears p k j ops else tears p (k - length ops) j ops')"
  by (auto simp: tears_def split: list.split)

lemma fs_cut_past: "length ops \<le> k \<Longrightarrow> fs_cut k j ops d = fs_run ops d"
  by (auto simp: fs_cut_def split: option.split)

lemma fs_torn_spared: "p \<notin> op_paths op \<Longrightarrow> fs_torn j op d p = d p"
  by (cases op) auto

lemma fs_cut_spared: "\<forall>op \<in> set ops. p \<notin> op_paths op \<Longrightarrow> fs_cut k j ops d p = d p"
proof (induction ops arbitrary: k d)
  case (Cons op ops)
  then have "fs_torn i op d p = d p" "fs_apply op d p = d p" for i
    using fs_torn_spared fs_run_spared [of "[op]" p d] by auto
  then show ?case using Cons by (cases k; cases j) simp_all
qed simp

lemma cut_spared: "spares p c \<Longrightarrow> c d = (r, ops) \<Longrightarrow> fs_cut k j ops d p = d p"
  by (rule fs_cut_spared) (auto dest: sparesD)

lemma spares_bind_result:
  assumes "spares p c" and "\<And>d x ops. c d = (Inr x, ops) \<Longrightarrow> spares p (f x)"
  shows "spares p (io_bind c f)"
  by (rule sparesI) (auto simp: io_bind_def split: prod.splits sum.splits dest: sparesD [OF assms(1)] sparesD [OF assms(2)])

lemma spares_bind: "spares p c \<Longrightarrow> (\<And>x. spares p (f x)) \<Longrightarrow> spares p (io_bind c f)"
  by (rule spares_bind_result)

lemma spares_basic:
  "spares p (io_lift r)" "spares p (io_return x)" "spares p (io_fail e)" "spares p (io_exists q)" "spares p (io_read e q)"
  by (simp_all add: spares_def io_simps io_read_def)

lemma spares_do: "p \<notin> op_paths op \<Longrightarrow> spares p (io_do op)"
  by (simp add: spares_def io_simps)

lemma spares_ignore: "spares p c \<Longrightarrow> spares p (io_ignore c)"
  by (simp add: spares_def io_ignore_def)

lemmas spares_intros = spares_bind spares_basic spares_do spares_ignore

text \<open>
  What holds of the disk at every point at which a program can be cut off, except in the middle of
  a write that truncates the file \<open>p\<close>, and of its result.
\<close>

definition cut_safe :: "string \<Rightarrow> (disk \<Rightarrow> bool) \<Rightarrow> ('e, 'a) io \<Rightarrow> disk \<Rightarrow> ('a \<Rightarrow> disk \<Rightarrow> bool) \<Rightarrow> bool" where
  "cut_safe p Q c d R \<longleftrightarrow> (\<forall>k j. \<not> tears p k j (snd (c d)) \<longrightarrow> Q (fs_cut k j (snd (c d)) d))
     \<and> (\<forall>x. fst (c d) = Inr x \<longrightarrow> R x (fs_run (snd (c d)) d))"

lemma cut_safe_bind:
  assumes "cut_safe p Q c d R" and "\<And>x d'. R x d' \<Longrightarrow> cut_safe p Q (f x) d' S"
  shows "cut_safe p Q (io_bind c f) d S"
proof (cases "c d")
  case (Pair r ops)
  show ?thesis
  proof (cases r)
    case (Inl e)
    then show ?thesis using assms(1) Pair by (simp add: cut_safe_def io_bind_def)
  next
    case (Inr x)
    then have f: "cut_safe p Q (f x) (fs_run ops d) S" using assms Pair by (simp add: cut_safe_def)
    obtain r' ops' where f': "f x (fs_run ops d) = (r', ops')" by force
    show ?thesis
      using assms(1) f Inr Pair f'
      by (auto simp: cut_safe_def io_bind_def fs_cut_append tears_append split: if_splits)
  qed
qed

section \<open>Paths\<close>

text \<open>\<open>Path::join\<close> with a relative name, and \<open>Path::with_extension\<close>.\<close>

definition path_join :: "string \<Rightarrow> string \<Rightarrow> string" where
  "path_join dir name =
     (if dir = [] then name else if last dir = CHR ''/'' then dir @ name else dir @ ''/'' @ name)"

definition with_extension :: "string \<Rightarrow> string \<Rightarrow> string" where
  "with_extension p e =
     (let f = takeWhile (\<lambda>c. c \<noteq> CHR ''/'') (rev p);
          s = drop 1 (dropWhile (\<lambda>c. c \<noteq> CHR ''.'') f);
          stem = (if s = [] then f else s)
      in rev (drop (length f) (rev p)) @ rev stem @ ''.'' @ e)"

lemma last_path_join [simp]: "name \<noteq> [] \<Longrightarrow> last (path_join dir name) = last name"
  by (simp add: path_join_def)

lemma path_join_inject [simp]: "path_join d a = path_join d b \<longleftrightarrow> a = b"
  by (simp add: path_join_def)

section \<open>An encoding of records\<close>

text \<open>Records as lists of numbers, and these as bytes: stands for JSON in the concrete instances.\<close>

definition unary :: "nat list \<Rightarrow> bytes" where
  "unary ns = concat (map (\<lambda>n. replicate n 1 @ [0]) ns)"

fun ununary :: "nat \<Rightarrow> bytes \<Rightarrow> nat list" where
  "ununary k [] = []"
| "ununary k (b # bs) = (if b = 0 then k # ununary 0 bs else ununary (k + 1) bs)"

definition put_str :: "string \<Rightarrow> nat list" where
  "put_str s = length s # map of_char s"

fun get_str :: "nat list \<Rightarrow> string \<times> nat list" where
  "get_str [] = ([], [])"
| "get_str (n # ns) = (map char_of (take n ns), drop n ns)"

fun put_opt :: "('a \<Rightarrow> nat list) \<Rightarrow> 'a option \<Rightarrow> nat list" where
  "put_opt f None = [0]"
| "put_opt f (Some x) = 1 # f x"

fun get_opt :: "(nat list \<Rightarrow> 'a \<times> nat list) \<Rightarrow> nat list \<Rightarrow> 'a option \<times> nat list" where
  "get_opt f (Suc n # ns) = (case f ns of (x, ns) \<Rightarrow> (Some x, ns))"
| "get_opt f ns = (None, drop 1 ns)"

fun get_nat :: "nat list \<Rightarrow> nat \<times> nat list" where
  "get_nat [] = (0, [])"
| "get_nat (n # ns) = (n, ns)"

lemma ununary_replicate: "ununary k (replicate n 1 @ 0 # bs) = (k + n) # ununary 0 bs"
  by (induction n arbitrary: k) auto

lemma ununary_unary: "ununary 0 (unary ns) = ns"
  by (induction ns) (simp_all add: unary_def ununary_replicate)

lemma get_put [simp]:
  "get_str (put_str s @ ns) = (s, ns)" "get_str (put_str s) = (s, [])" "get_opt get_str (put_opt put_str o1 @ ns) = (o1, ns)"
  "get_opt get_nat (put_opt (\<lambda>n. [n]) o2 @ ns) = (o2, ns)" "get_opt get_str (put_opt put_str o1) = (o1, [])"
proof -
  show s: "get_str (put_str s @ ns) = (s, ns)" for s ns by (simp add: put_str_def comp_def)
  then show "get_str (put_str s) = (s, [])" for s using s [of s "[]"] by simp
  then show "get_opt get_str (put_opt put_str o1 @ ns) = (o1, ns)" "get_opt get_str (put_opt put_str o1) = (o1, [])"
    using s by (cases o1, simp_all)+
  show "get_opt get_nat (put_opt (\<lambda>n. [n]) o2 @ ns) = (o2, ns)" by (cases o2) simp_all
qed

end
