(* ===== verification/Credstore.thy ===== *)
theory Credstore
  imports Disk Server_Base Crypto_Ops
begin

text \<open>
  The credential store of the command-line client (\<open>credstore.rs\<close>): profiles sealed under a
  passphrase, the agent that caches the derived key for a limited time, the sources a passphrase is
  taken from, and the deletion of files that held secrets.
\<close>

datatype cred_error = CredIo | CredJson | CredB64 | CredKdf | CredDecrypt | CredNoPassphrase

record encrypted_profile =
  ep_v :: nat
  ep_enc :: string
  ep_salt :: string
  ep_m_cost :: nat
  ep_t_cost :: nat
  ep_p_cost :: nat
  ep_ct :: string

record agent_entry =
  ag_kek :: string
  ag_expires :: nat

text \<open>
  What surrounds a command: environment variables, the home directory, the answers at the
  terminal in the order in which they are asked for (\<open>None\<close> without a terminal), and the mode the
  system gives to a new file.
\<close>

record shell =
  sh_env :: "string \<rightharpoonup> string"
  sh_home :: "string option"
  sh_typed :: "nat \<Rightarrow> string option"
  sh_new_mode :: nat

text \<open>The JSON forms (crate serde_json) of a sealed profile and of an agent entry.\<close>

record cred_codec =
  profile_print :: "encrypted_profile \<Rightarrow> bytes"
  profile_parse :: "bytes \<Rightarrow> encrypted_profile option"
  agent_print :: "agent_entry \<Rightarrow> bytes"
  agent_parse :: "bytes \<Rightarrow> agent_entry option"

definition cred_codec_law :: "cred_codec \<Rightarrow> bool" where
  "cred_codec_law J \<longleftrightarrow> (\<forall>p. profile_parse J (profile_print J p) = Some p) \<and> (\<forall>a. agent_parse J (agent_print J a) = Some a)"

definition DEFAULT_AGENT_TTL_SECS :: nat where
  "DEFAULT_AGENT_TTL_SECS = 900"

definition owner_only :: nat where
  "owner_only = 0x180"

section \<open>Sealed profiles\<close>

definition derive_kek :: "ops_ext \<Rightarrow> string \<Rightarrow> bytes \<Rightarrow> nat \<Rightarrow> nat \<Rightarrow> nat \<Rightarrow> cred_error + bytes" where
  "derive_kek K passphrase salt m t p = ok_or CredKdf (argon2id K m t p (as_bytes passphrase) salt)"

definition argon2_key_with :: "ops_ext \<Rightarrow> string \<Rightarrow> bytes \<Rightarrow> nat \<Rightarrow> nat \<Rightarrow> nat \<Rightarrow> cred_error + bytes" where
  "argon2_key_with K passphrase salt m t p = derive_kek K passphrase salt m t p"

definition seal_profile :: "ext \<Rightarrow> ops_ext \<Rightarrow> bytes \<Rightarrow> bytes \<Rightarrow> string \<Rightarrow> bytes \<Rightarrow> cred_error + encrypted_profile" where
  "seal_profile E K salt nonce passphrase inner =
     and_then (derive_kek K passphrase salt (64 * 1024) 3 1) (\<lambda>kek.
     and_then (map_err CredKdf (aead_seal E nonce inner kek)) (\<lambda>ct.
       Inr \<lparr>ep_v = 2, ep_enc = ''argon2id-aes256gcm'', ep_salt = b64_encode E salt, ep_m_cost = 64 * 1024,
            ep_t_cost = 3, ep_p_cost = 1, ep_ct = b64_encode E ct\<rparr>))"

definition profile_kek :: "ext \<Rightarrow> ops_ext \<Rightarrow> encrypted_profile \<Rightarrow> string \<Rightarrow> cred_error + bytes" where
  "profile_kek E K ep passphrase =
     and_then (ok_or CredB64 (b64_decode E (ep_salt ep))) (\<lambda>salt.
       derive_kek K passphrase salt (ep_m_cost ep) (ep_t_cost ep) (ep_p_cost ep))"

definition open_with_kek :: "ext \<Rightarrow> encrypted_profile \<Rightarrow> bytes \<Rightarrow> cred_error + bytes" where
  "open_with_kek E ep kek =
     and_then (ok_or CredB64 (b64_decode E (ep_ct ep))) (\<lambda>ct. map_err CredDecrypt (aead_open E ct kek))"

definition open_with_passphrase :: "ext \<Rightarrow> ops_ext \<Rightarrow> encrypted_profile \<Rightarrow> string \<Rightarrow> cred_error + bytes" where
  "open_with_passphrase E K ep passphrase = and_then (profile_kek E K ep passphrase) (open_with_kek E ep)"

section \<open>Sources of a passphrase\<close>

definition nonempty :: "string option \<Rightarrow> string option" where
  "nonempty s = (case s of None \<Rightarrow> None | Some x \<Rightarrow> if x = [] then None else Some x)"

definition prompts_suppressed :: "shell \<Rightarrow> bool" where
  "prompts_suppressed sh \<longleftrightarrow> nonempty (sh_env sh ''BLACKBOOK_NO_PROMPT'') \<noteq> None"

text \<open>The prompts are the \<open>i\<close>-th and, to confirm, the next of the command.\<close>

definition resolve_passphrase :: "shell \<Rightarrow> nat \<Rightarrow> string option \<Rightarrow> bool \<Rightarrow> cred_error + string" where
  "resolve_passphrase sh i explicit confirm = (case nonempty explicit of
      Some p \<Rightarrow> Inr p
    | None \<Rightarrow>
      (case nonempty (sh_env sh ''BLACKBOOK_PASSPHRASE'') of
         Some p \<Rightarrow> Inr p
       | None \<Rightarrow>
           if prompts_suppressed sh then Inl CredNoPassphrase
           else
             (case sh_typed sh i of
                None \<Rightarrow> Inl CredNoPassphrase
              | Some p1 \<Rightarrow>
                  if p1 = [] then Inl CredNoPassphrase
                  else if \<not> confirm then Inr p1
                  else
                    (case sh_typed sh (i + 1) of
                       None \<Rightarrow> Inl CredNoPassphrase
                     | Some p2 \<Rightarrow> if p1 \<noteq> p2 then Inl CredKdf else Inr p1))))"

section \<open>Deletion\<close>

text \<open>Random bytes over the length of a file, in blocks of 4096.\<close>

function noise :: "request \<Rightarrow> nat \<Rightarrow> nat \<Rightarrow> bytes" where
  "noise rq i n = (if n = 0 then [] else take (min n 4096) (rand rq i 4096) @ noise rq (i + 1) (n - min n 4096))"
  by pat_completeness auto
termination by (relation "measure (\<lambda>(rq, i, n). n)") auto

declare noise.simps [simp del]

definition secure_delete :: "'e \<Rightarrow> request \<Rightarrow> nat \<Rightarrow> string \<Rightarrow> ('e, unit) io" where
  "secure_delete e rq i p d = (case d p of
      None \<Rightarrow> (Inl e, [])
    | Some f \<Rightarrow>
        (Inr (), (if contents_of f = [] then [] else [WriteOver p (noise rq i (length (contents_of f)))]) @ [RemoveFile p]))"

definition harden_perms :: "string \<Rightarrow> ('e, unit) io" where
  "harden_perms p = io_bind (io_exists p) (\<lambda>b. if b then io_do (Chmod p owner_only) else io_return ())"

section \<open>The unlock agent\<close>

definition agent_dir :: "shell \<Rightarrow> cred_error + string" where
  "agent_dir sh = (case sh_home sh of
      None \<Rightarrow> Inl CredIo
    | Some h \<Rightarrow> Inr (path_join (path_join h ''.bbk'') ''agent''))"

definition agent_path :: "shell \<Rightarrow> string \<Rightarrow> cred_error + string" where
  "agent_path sh profile = and_then (agent_dir sh) (\<lambda>dir. Inr (path_join dir profile))"

definition now_secs :: "request \<Rightarrow> nat" where
  "now_secs rq = nat (now rq div 1000000)"

text \<open>The time at which an entry ends is a \<open>u64\<close>, whose addition wraps around in a release build.\<close>

definition agent_store ::
    "ext \<Rightarrow> cred_codec \<Rightarrow> shell \<Rightarrow> request \<Rightarrow> string \<Rightarrow> bytes \<Rightarrow> nat \<Rightarrow> (cred_error, unit) io" where
  "agent_store E J sh rq profile kek ttl =
     io_bind (io_lift (agent_path sh profile)) (\<lambda>path.
     io_bind (io_do (WriteFile path
         (agent_print J \<lparr>ag_kek = b64_encode E kek, ag_expires = (now_secs rq + ttl) mod 2 ^ 64\<rparr>) (sh_new_mode sh)))
       (\<lambda>_. harden_perms path))"

definition agent_key :: "ext \<Rightarrow> agent_entry \<Rightarrow> bytes option" where
  "agent_key E a = (case b64_decode E (ag_kek a) of
      None \<Rightarrow> None
    | Some k \<Rightarrow> if length k = 32 then Some k else None)"

definition agent_entry_of :: "cred_codec \<Rightarrow> shell \<Rightarrow> string \<Rightarrow> disk \<Rightarrow> (string \<times> agent_entry) option" where
  "agent_entry_of J sh profile d = (case agent_path sh profile of
      Inl e \<Rightarrow> None
    | Inr path \<Rightarrow>
      (case d path of
         None \<Rightarrow> None
       | Some f \<Rightarrow> map_option (\<lambda>a. (path, a)) (agent_parse J (contents_of f))))"

definition agent_get ::
    "ext \<Rightarrow> cred_codec \<Rightarrow> shell \<Rightarrow> request \<Rightarrow> string \<Rightarrow> ('e, bytes option) io" where
  "agent_get E J sh rq profile d = (case agent_entry_of J sh profile d of
      None \<Rightarrow> (Inr None, [])
    | Some (path, a) \<Rightarrow>
        if ag_expires a \<le> now_secs rq then (Inr None, snd (secure_delete () rq 50 path d))
        else (Inr (agent_key E a), []))"

definition agent_clear :: "shell \<Rightarrow> request \<Rightarrow> string \<Rightarrow> ('e, bool) io" where
  "agent_clear sh rq profile d = (case agent_path sh profile of
      Inl e \<Rightarrow> (Inr False, [])
    | Inr path \<Rightarrow>
        if d path = None then (Inr False, [])
        else (case secure_delete () rq 50 path d of (r, ops) \<Rightarrow> (Inr (\<not> isl r), ops)))"

section \<open>Lemmas\<close>

lemma nonempty_simps [simp]: "nonempty None = None" "nonempty (Some []) = None" "s \<noteq> [] \<Longrightarrow> nonempty (Some s) = Some s"
  by (simp_all add: nonempty_def)

lemma length_noise [simp]: "length (noise rq i n) = n"
  by (induction rq i n rule: noise.induct) (subst noise.simps, auto)

lemma secure_delete_removes:
  assumes "secure_delete e rq i p d = (r, ops)"
  shows "fs_run ops d = d(p := None)"
  using assms by (cases "d p") (auto simp: secure_delete_def fun_upd_idem)

text \<open>A sealed profile opens with the key of its passphrase.\<close>

lemma seal_profile_opens:
  assumes "gcm_law E" and "b64_law E" and "length nonce = 12" and "seal_profile E K salt nonce pass inner = Inr ep"
  obtains kek where "profile_kek E K ep pass = Inr kek" "open_with_kek E ep kek = Inr inner"
    "derive_kek K pass salt (64 * 1024) 3 1 = Inr kek" "length kek = 32"
proof -
  obtain kek ct where k: "derive_kek K pass salt (64 * 1024) 3 1 = Inr kek" "aead_seal E nonce inner kek = Inr ct"
    and ep: "ep = \<lparr>ep_v = 2, ep_enc = ''argon2id-aes256gcm'', ep_salt = b64_encode E salt, ep_m_cost = 64 * 1024,
            ep_t_cost = 3, ep_p_cost = 1, ep_ct = b64_encode E ct\<rparr>"
    using assms(4) by (auto simp: seal_profile_def elim!: and_then_InrE)
  have "aead_open E ct kek = Inr inner" by (rule box.unseal_seal [OF assms(1,3) k(2)])
  moreover have "length kek = 32" using k(2) by (auto simp: aead_seal_def aead_seal_nonce_def split: if_splits)
  ultimately show thesis using that k(1) assms(2) unfolding ep
    by (simp add: profile_kek_def open_with_kek_def b64_law_def)
qed

text \<open>The agent gives back the cached key until its time has come, and then deletes it.\<close>

lemma agent_stored:
  assumes "b64_law E" and "cred_codec_law J" and "agent_path sh profile = Inr path" and "length kek = 32"
    and "agent_store E J sh rq profile kek ttl d = (r, ops)" and "now_secs rq + ttl < 2 ^ 64"
    and "d' path = fs_run ops d path"
  shows "agent_get E J sh rq' profile d' =
    (if now_secs rq' < now_secs rq + ttl then (Inr (Some kek), []) else (Inr None, snd (secure_delete () rq' 50 path d')))"
proof -
  have "agent_entry_of J sh profile d' = Some (path, \<lparr>ag_kek = b64_encode E kek, ag_expires = now_secs rq + ttl\<rparr>)"
    using assms by (auto simp: agent_store_def io_bind_def io_simps harden_perms_def agent_entry_of_def cred_codec_law_def)
  then show ?thesis using assms(1,4) by (simp add: agent_get_def agent_key_def b64_law_def)
qed

lemma agent_get_ok: "\<exists>cached ops. agent_get E J sh rq profile d = (Inr cached, ops)"
  by (simp add: agent_get_def split: option.split prod.split)

section \<open>The agent writes its own file only\<close>

lemma spares_harden: "p \<noteq> q \<Longrightarrow> spares p (harden_perms q)"
  unfolding harden_perms_def by (intro spares_intros) (auto intro!: spares_intros)

lemma spares_delete: "p \<noteq> q \<Longrightarrow> spares p (secure_delete e rq i q)"
  by (auto simp: spares_def secure_delete_def split: option.splits)

lemma spares_agent:
  assumes "agent_path sh profile \<noteq> Inr p"
  shows "spares p (agent_store E J sh rq profile kek ttl)" "spares p (agent_get E J sh rq profile)" "spares p (agent_clear sh rq profile)"
proof -
  show "spares p (agent_store E J sh rq profile kek ttl)"
    using assms unfolding agent_store_def
    by (cases "agent_path sh profile")
      (auto simp: spares_def io_bind_def io_simps harden_perms_def split: prod.splits sum.splits)
  have del: "p \<notin> op_paths op" if "p \<noteq> q" "op \<in> set (snd (secure_delete () rq 50 q d))" for q op d
    using that spares_delete [of p q "()" rq 50] unfolding spares_def by blast
  show "spares p (agent_get E J sh rq profile)"
  proof (cases "agent_path sh profile")
    case (Inr q)
    with assms have "p \<noteq> q" by auto
    from del [OF this] show ?thesis using Inr
      by (auto simp: spares_def agent_get_def agent_entry_of_def split: option.splits)
  qed (simp add: spares_def agent_get_def agent_entry_of_def)
  show "spares p (agent_clear sh rq profile)"
  proof (cases "agent_path sh profile")
    case (Inr q)
    with assms have "p \<noteq> q" by auto
    from del [OF this] show ?thesis using Inr by (simp add: spares_def agent_clear_def case_prod_unfold)
  qed (simp add: spares_def agent_clear_def)
qed

section \<open>A concrete cipher\<close>

text \<open>Its tag is the beginning of the key.\<close>

definition demo_vault_ext :: ext where
  "demo_vault_ext = demo_ext\<lparr>gcm_encrypt := (\<lambda>k n a m. Some (m @ take 16 (k @ zeros 16))),
     gcm_decrypt := (\<lambda>k n a c. if drop (length c - 16) c = take 16 (k @ zeros 16) then Some (take (length c - 16) c) else None)\<rparr>"

lemma demo_aead: "length k = 32 \<Longrightarrow> aead_seal demo_vault_ext n m k = Inr (n @ m @ take 16 k)"
  by (simp add: aead_seal_def aead_seal_nonce_def demo_vault_ext_def)

end
