(* ===== verification/Persistence.thy ===== *)
theory Persistence
  imports Credstore Secrets
begin

text \<open>
  The data volume (\<open>persistence.rs\<close>): the key that encrypts the master key bundle is derived from a
  passphrase or unwrapped with a keyfile at every start, and only what recovers it is stored. First
  start, restart, rotation of that key, migration of volumes of the old layout, and the files of
  the certificate authority. The lemmas follow the volume through every sequence of starts and
  rotations, complete or cut off at any operation: the master key survives all of them but one,
  and that one is exactly located.
\<close>

section \<open>Data\<close>

datatype persist_error =
    PersistIo | PersistCrypto crypto_error | PersistTls | PersistJson | NoProvider
  | ProviderMismatch string string | KeyfileError string | PassphraseTooShort | Migration | Corrupt string

record data_paths =
  dp_dek_meta :: string
  dp_dek :: string
  dp_mode :: string
  dp_master :: string
  dp_admin_token :: string
  dp_admin_cert :: string
  dp_admin_key :: string
  dp_admin_bundle :: string
  dp_ca_cert :: string
  dp_ca_key :: string
  dp_server_cert :: string
  dp_server_key :: string

definition data_paths_under :: "string \<Rightarrow> data_paths" where
  "data_paths_under dir =
     \<lparr>dp_dek_meta = path_join dir ''dek.meta'', dp_dek = path_join dir ''dek'', dp_mode = path_join dir ''dek.mode'',
      dp_master = path_join dir ''master.bbkey'', dp_admin_token = path_join dir ''admin-token'',
      dp_admin_cert = path_join dir ''admin-cert.pem'', dp_admin_key = path_join dir ''admin-key.pem'',
      dp_admin_bundle = path_join dir ''admin-bundle.json'', dp_ca_cert = path_join dir ''ca.crt'',
      dp_ca_key = path_join dir ''ca.key'', dp_server_cert = path_join dir ''server.crt'',
      dp_server_key = path_join dir ''server.key''\<rparr>"

datatype dek_provider = Passphrase string | Keyfile string

fun provider_kind :: "dek_provider \<Rightarrow> string" where
  "provider_kind (Passphrase p) = ''passphrase''"
| "provider_kind (Keyfile p) = ''keyfile''"

record dek_meta =
  dm_v :: nat
  dm_provider :: string
  dm_salt :: "string option"
  dm_m_cost :: "nat option"
  dm_t_cost :: "nat option"
  dm_p_cost :: "nat option"
  dm_wrapped :: "string option"

text \<open>
  Third-party code: the JSON form of \<open>dek.meta\<close> and of the key bundle (crate serde_json), the
  generation of the authority's key and certificate, the parser of its key, and the issue of the
  server certificate (crate rcgen); \<open>new_mode\<close> is the mode the system gives to a new file.
\<close>

record volume_ext =
  meta_print :: "dek_meta \<Rightarrow> bytes"
  meta_parse :: "bytes \<Rightarrow> dek_meta option"
  bundle_codec :: key_codec
  ca_generate :: "bytes \<Rightarrow> (string \<times> string) option"
  ca_key_pair :: "string \<Rightarrow> bool"
  server_issue :: "string \<Rightarrow> string list \<Rightarrow> bytes \<Rightarrow> (string \<times> string) option"
  new_mode :: nat

definition meta_law :: "volume_ext \<Rightarrow> bool" where
  "meta_law V \<longleftrightarrow> (\<forall>m. meta_parse V (meta_print V m) = Some m) \<and> key_codec_law (bundle_codec V)"

definition DEK_LEN :: nat where
  "DEK_LEN = 32"

definition MIN_PASSPHRASE_LEN :: nat where
  "MIN_PASSPHRASE_LEN = 16"

section \<open>Configuration\<close>

definition trim_newlines :: "string \<Rightarrow> string" where
  "trim_newlines s = rev (dropWhile (\<lambda>c. c = CHR 0x0A \<or> c = CHR 0x0D) (rev s))"

definition passphrase_from_env :: "(string \<rightharpoonup> string) \<Rightarrow> disk \<Rightarrow> string option" where
  "passphrase_from_env env d = (case nonempty (env ''BLACKBOOK_MASTER_PASSPHRASE'') of
      Some p \<Rightarrow> Some p
    | None \<Rightarrow>
      (case env ''BLACKBOOK_MASTER_PASSPHRASE_FILE'' of
         None \<Rightarrow> None
       | Some path \<Rightarrow>
         (case d path of
            None \<Rightarrow> None
          | Some f \<Rightarrow> nonempty (map_option trim_newlines (from_utf8 (contents_of f))))))"

definition provider_from_env :: "(string \<rightharpoonup> string) \<Rightarrow> disk \<Rightarrow> persist_error + dek_provider" where
  "provider_from_env env d = (case passphrase_from_env env d of
      Some p \<Rightarrow> if length p < MIN_PASSPHRASE_LEN then Inl PassphraseTooShort else Inr (Passphrase p)
    | None \<Rightarrow>
      (case nonempty (env ''BLACKBOOK_MASTER_KEYFILE'') of
         Some kf \<Rightarrow> Inr (Keyfile kf)
       | None \<Rightarrow> Inl NoProvider))"

section \<open>The data encryption key\<close>

definition write_secret :: "volume_ext \<Rightarrow> string \<Rightarrow> bytes \<Rightarrow> ('e, unit) io" where
  "write_secret V p b = io_bind (io_do (WriteFile p b (new_mode V))) (\<lambda>_. io_do (Chmod p owner_only))"

definition keyfile_kek :: "ext \<Rightarrow> string \<Rightarrow> (persist_error, bytes) io" where
  "keyfile_kek E path = io_bind (io_read (KeyfileError path) path) (\<lambda>b.
     if b = [] then io_fail (KeyfileError path)
     else io_return (sha3_256 E (as_bytes ''blackbook-dek-keyfile/v1'' @ [0] @ b)))"

text \<open>A fresh key and what recovers it; draws from \<open>i\<close> on.\<close>

definition init_dek ::
    "ext \<Rightarrow> ops_ext \<Rightarrow> request \<Rightarrow> nat \<Rightarrow> dek_provider \<Rightarrow> (persist_error, bytes \<times> dek_meta) io" where
  "init_dek E K rq i provider = (case provider of
      Passphrase pass \<Rightarrow>
        (let salt = rand rq i 16
         in io_bind (io_lift (map_err Migration (argon2_key K pass salt))) (\<lambda>dek.
              io_return (dek, \<lparr>dm_v = 1, dm_provider = ''passphrase'', dm_salt = Some (b64_encode E salt),
                dm_m_cost = Some (64 * 1024), dm_t_cost = Some 3, dm_p_cost = Some 1, dm_wrapped = None\<rparr>)))
    | Keyfile path \<Rightarrow>
        io_bind (keyfile_kek E path) (\<lambda>kek.
          (let dek = rand rq i DEK_LEN
           in case aead_seal E (rand rq (i + 1) 12) dek kek of
                Inl e \<Rightarrow> io_fail (PersistCrypto e)
              | Inr w \<Rightarrow>
                  io_return (dek, \<lparr>dm_v = 1, dm_provider = ''keyfile'', dm_salt = None, dm_m_cost = None,
                    dm_t_cost = None, dm_p_cost = None, dm_wrapped = Some (b64_encode E w)\<rparr>))))"

definition cost_or :: "nat option \<Rightarrow> nat" where
  "cost_or c = (case c of None \<Rightarrow> 0 | Some n \<Rightarrow> n)"

definition meta_field :: "ext \<Rightarrow> string option \<Rightarrow> persist_error + bytes" where
  "meta_field E f = (case f of
      None \<Rightarrow> Inl (Corrupt ''dek.meta'')
    | Some s \<Rightarrow> ok_or (Corrupt ''dek.meta'') (b64_decode E s))"

definition reconstruct_dek ::
    "ext \<Rightarrow> ops_ext \<Rightarrow> dek_provider \<Rightarrow> dek_meta \<Rightarrow> (persist_error, bytes) io" where
  "reconstruct_dek E K provider meta =
     (if dm_provider meta \<noteq> provider_kind provider
      then io_fail (ProviderMismatch (dm_provider meta) (provider_kind provider))
      else
        (case provider of
           Passphrase pass \<Rightarrow>
             io_bind (io_lift (meta_field E (dm_salt meta))) (\<lambda>salt.
               io_lift (map_err Migration (argon2_key_with K pass salt (cost_or (dm_m_cost meta))
                 (cost_or (dm_t_cost meta)) (cost_or (dm_p_cost meta)))))
         | Keyfile path \<Rightarrow>
             io_bind (keyfile_kek E path) (\<lambda>kek.
             io_bind (io_lift (meta_field E (dm_wrapped meta))) (\<lambda>w.
               (case aead_open E w kek of
                  Inl e \<Rightarrow> io_fail (KeyfileError path)
                | Inr dek \<Rightarrow> if length dek \<noteq> DEK_LEN then io_fail (Corrupt ''wrapped_dek'') else io_return dek)))))"

section \<open>The master key\<close>

text \<open>The key of a volume of the old layout: raw, or derived from the passphrase with scrypt.\<close>

definition legacy_dek :: "ext \<Rightarrow> dek_provider \<Rightarrow> nat \<Rightarrow> bytes \<Rightarrow> persist_error + bytes" where
  "legacy_dek E provider mode material =
     (if mode = 0 then (if length material \<noteq> DEK_LEN then Inl Migration else Inr material)
      else if mode = 1
      then (case provider of
              Passphrase pass \<Rightarrow> map_err Migration (derive_message_key E (as_bytes pass) material)
            | Keyfile path \<Rightarrow> Inl Migration)
      else Inl Migration)"

definition legacy_mode :: "data_paths \<Rightarrow> disk \<Rightarrow> nat" where
  "legacy_mode P d = (case d (dp_mode P) of
      None \<Rightarrow> 0
    | Some f \<Rightarrow> (case contents_of f of [] \<Rightarrow> 0 | b # bs \<Rightarrow> unat b))"

text \<open>\<open>master.bbkey\<close> decrypted with one key and replaced by its encryption under another.\<close>

definition reseal_master ::
    "ext \<Rightarrow> volume_ext \<Rightarrow> request \<Rightarrow> nat \<Rightarrow> data_paths \<Rightarrow> string \<Rightarrow> bytes \<Rightarrow> bytes \<Rightarrow> (persist_error, unit) io" where
  "reseal_master E V rq i P suffix plain new_dek =
     (let tmp = with_extension (dp_master P) suffix
      in case encrypt_aes_gcm E (secs_of rq) (rand rq i 32) plain new_dek of
           Inl e \<Rightarrow> io_fail (PersistCrypto e)
         | Inr env \<Rightarrow> io_bind (write_secret V tmp env) (\<lambda>_. io_do (Rename tmp (dp_master P))))"

definition open_master :: "ext \<Rightarrow> data_paths \<Rightarrow> bytes \<Rightarrow> (persist_error, bytes) io" where
  "open_master E P dek = io_bind (io_read PersistIo (dp_master P)) (\<lambda>env.
     io_lift (map_err Migration (decrypt_aes_gcm E env dek)))"

definition migrate_legacy_dek ::
    "ext \<Rightarrow> ops_ext \<Rightarrow> volume_ext \<Rightarrow> request \<Rightarrow> data_paths \<Rightarrow> dek_provider \<Rightarrow> (persist_error, unit) io" where
  "migrate_legacy_dek E K V rq P provider d =
     io_bind (io_read Migration (dp_dek P)) (\<lambda>material.
     io_bind (io_lift (legacy_dek E provider (legacy_mode P d) material)) (\<lambda>old_dek.
     io_bind (init_dek E K rq 10 provider) (\<lambda>(new_dek, meta).
     io_bind (io_exists (dp_master P)) (\<lambda>present.
     io_bind (if present
              then io_bind (open_master E P old_dek) (\<lambda>plain.
                     reseal_master E V rq 12 P ''bbkey.migrating'' plain new_dek)
              else io_return ()) (\<lambda>_.
     io_bind (write_secret V (dp_dek_meta P) (meta_print V meta)) (\<lambda>_.
     io_bind (io_ignore (secure_delete () rq 100 (dp_dek P))) (\<lambda>_.
       io_ignore (secure_delete () rq 200 (dp_mode P))))))))) d"

definition resolve_present ::
    "ext \<Rightarrow> ops_ext \<Rightarrow> volume_ext \<Rightarrow> request \<Rightarrow> data_paths \<Rightarrow> dek_provider \<Rightarrow> (persist_error, bytes) io" where
  "resolve_present E K V rq P provider = io_bind (io_exists (dp_dek_meta P)) (\<lambda>present.
     if present
     then io_bind (io_read PersistIo (dp_dek_meta P)) (\<lambda>b.
          io_bind (io_lift (ok_or PersistJson (meta_parse V b))) (\<lambda>meta. reconstruct_dek E K provider meta))
     else io_bind (init_dek E K rq 0 provider) (\<lambda>(dek, meta).
          io_bind (write_secret V (dp_dek_meta P) (meta_print V meta)) (\<lambda>_. io_return dek)))"

definition resolve_dek ::
    "ext \<Rightarrow> ops_ext \<Rightarrow> volume_ext \<Rightarrow> request \<Rightarrow> data_paths \<Rightarrow> dek_provider \<Rightarrow> (persist_error, bytes) io" where
  "resolve_dek E K V rq P provider d =
     io_bind (if d (dp_dek_meta P) = None \<and> (d (dp_dek P) \<noteq> None \<or> d (dp_mode P) \<noteq> None)
              then migrate_legacy_dek E K V rq P provider else io_return ())
       (\<lambda>_. resolve_present E K V rq P provider) d"

definition rekey_master_dek ::
    "ext \<Rightarrow> ops_ext \<Rightarrow> volume_ext \<Rightarrow> request \<Rightarrow> data_paths \<Rightarrow> dek_provider \<Rightarrow> (persist_error, unit) io" where
  "rekey_master_dek E K V rq P provider = io_bind (io_exists (dp_master P)) (\<lambda>present.
     if \<not> present then io_fail (Corrupt ''master.bbkey'')
     else
       io_bind (resolve_dek E K V rq P provider) (\<lambda>old_dek.
       io_bind (open_master E P old_dek) (\<lambda>plain.
       io_bind (init_dek E K rq 20 provider) (\<lambda>(new_dek, meta).
       io_bind (reseal_master E V rq 22 P ''bbkey.rekey'' plain new_dek) (\<lambda>_.
         write_secret V (dp_dek_meta P) (meta_print V meta))))))"

definition load_or_init_master ::
    "ext \<Rightarrow> volume_ext \<Rightarrow> key_draws \<Rightarrow> request \<Rightarrow> data_paths \<Rightarrow> bytes \<Rightarrow> (persist_error, blackbook_key \<times> bool) io" where
  "load_or_init_master E V kd rq P dek = io_bind (io_exists (dp_master P)) (\<lambda>present.
     if present
     then io_bind (io_read PersistIo (dp_master P)) (\<lambda>env.
          (case decrypt_aes_gcm E env dek of
             Inl e \<Rightarrow> io_fail (PersistCrypto e)
           | Inr plain \<Rightarrow>
             (case key_of_json (bundle_codec V) plain of
                None \<Rightarrow> io_fail PersistJson
              | Some ks \<Rightarrow> io_return (ks, False))))
     else
       (case generate E kd of
          Inl e \<Rightarrow> io_fail (PersistCrypto e)
        | Inr ks \<Rightarrow>
          (case key_to_json (bundle_codec V) ks of
             None \<Rightarrow> io_fail PersistJson
           | Some plain \<Rightarrow>
             (case encrypt_aes_gcm E (secs_of rq) (rand rq 30 32) plain dek of
                Inl e \<Rightarrow> io_fail (PersistCrypto e)
              | Inr env \<Rightarrow> io_bind (write_secret V (dp_master P) env) (\<lambda>_. io_return (ks, True))))))"

section \<open>Certificates and the first administrator\<close>

record authority =
  ca_cert_pem :: string
  ca_key_pem :: string

definition io_read_str :: "string \<Rightarrow> (persist_error, string) io" where
  "io_read_str p = io_bind (io_read PersistIo p) (\<lambda>b. io_lift (ok_or PersistIo (from_utf8 b)))"

definition load_or_init_ca ::
    "volume_ext \<Rightarrow> request \<Rightarrow> data_paths \<Rightarrow> (persist_error, authority \<times> bool) io" where
  "load_or_init_ca V rq P =
     io_bind (io_exists (dp_ca_cert P)) (\<lambda>has_cert.
     io_bind (io_exists (dp_ca_key P)) (\<lambda>has_key.
       if has_cert \<and> has_key
       then io_bind (io_read_str (dp_ca_cert P)) (\<lambda>cert.
            io_bind (io_read_str (dp_ca_key P)) (\<lambda>key.
              if ca_key_pair V key then io_return (\<lparr>ca_cert_pem = cert, ca_key_pem = key\<rparr>, False)
              else io_fail PersistTls))
       else
         (case ca_generate V (rand rq 40 32) of
            None \<Rightarrow> io_fail PersistTls
          | Some (cert, key) \<Rightarrow>
              io_bind (write_secret V (dp_ca_key P) (as_bytes key)) (\<lambda>_.
              io_bind (io_do (WriteFile (dp_ca_cert P) (as_bytes cert) (new_mode V))) (\<lambda>_.
                io_return (\<lparr>ca_cert_pem = cert, ca_key_pem = key\<rparr>, True))))))"

definition load_or_init_server_cert ::
    "volume_ext \<Rightarrow> request \<Rightarrow> data_paths \<Rightarrow> authority \<Rightarrow> string list \<Rightarrow> (persist_error, bool) io" where
  "load_or_init_server_cert V rq P ca sans =
     io_bind (io_exists (dp_server_cert P)) (\<lambda>has_cert.
     io_bind (io_exists (dp_server_key P)) (\<lambda>has_key.
       if has_cert \<and> has_key then io_return False
       else
         (case server_issue V (ca_key_pem ca) sans (rand rq 41 32) of
            None \<Rightarrow> io_fail PersistTls
          | Some (cert, key) \<Rightarrow>
              io_bind (io_do (WriteFile (dp_server_cert P) (as_bytes cert) (new_mode V))) (\<lambda>_.
              io_bind (write_secret V (dp_server_key P) (as_bytes key)) (\<lambda>_. io_return True)))))"

definition write_admin_bundle ::
    "ops_ext \<Rightarrow> volume_ext \<Rightarrow> data_paths \<Rightarrow> string \<Rightarrow> string \<Rightarrow> string \<Rightarrow> string \<Rightarrow> string \<Rightarrow> (persist_error, unit) io" where
  "write_admin_bundle K V P token cert key ca_pem server_url =
     io_bind (write_secret V (dp_admin_token P) (as_bytes token)) (\<lambda>_.
     io_bind (io_do (WriteFile (dp_admin_cert P) (as_bytes cert) (new_mode V))) (\<lambda>_.
     io_bind (write_secret V (dp_admin_key P) (as_bytes key)) (\<lambda>_.
       write_secret V (dp_admin_bundle P) (as_bytes (json_pretty K (JObject
         [(''server'', JString server_url), (''token'', JString token), (''cert_pem'', JString cert),
          (''key_pem'', JString key), (''ca_pem'', JString ca_pem), (''name'', JString ''admin''),
          (''role'', JString ''admin'')]))))))"

text \<open>The start of the server (\<open>main.rs\<close>): the key of the volume, then the master key.\<close>

definition boot_keys ::
    "ext \<Rightarrow> ops_ext \<Rightarrow> volume_ext \<Rightarrow> key_draws \<Rightarrow> request \<Rightarrow> data_paths \<Rightarrow> dek_provider
      \<Rightarrow> (persist_error, blackbook_key \<times> bool) io" where
  "boot_keys E K V kd rq P provider = io_bind (resolve_dek E K V rq P provider) (\<lambda>dek.
     load_or_init_master E V kd rq P dek)"

section \<open>What a volume holds\<close>

definition unlocks ::
    "ext \<Rightarrow> ops_ext \<Rightarrow> volume_ext \<Rightarrow> data_paths \<Rightarrow> dek_provider \<Rightarrow> bytes \<Rightarrow> disk \<Rightarrow> bool" where
  "unlocks E K V P provider dek d \<longleftrightarrow>
     (\<exists>f meta. d (dp_dek_meta P) = Some f \<and> meta_parse V (contents_of f) = Some meta
        \<and> reconstruct_dek E K provider meta d = (Inr dek, []))"

definition sealed_with :: "ext \<Rightarrow> volume_ext \<Rightarrow> data_paths \<Rightarrow> bytes \<Rightarrow> blackbook_key \<Rightarrow> disk \<Rightarrow> bool" where
  "sealed_with E V P dek key d \<longleftrightarrow>
     (\<exists>f plain. d (dp_master P) = Some f \<and> decrypt_aes_gcm E (contents_of f) dek = Inr plain
        \<and> key_of_json (bundle_codec V) plain = Some key)"

definition volume_holds ::
    "ext \<Rightarrow> ops_ext \<Rightarrow> volume_ext \<Rightarrow> data_paths \<Rightarrow> dek_provider \<Rightarrow> blackbook_key \<Rightarrow> disk \<Rightarrow> bool" where
  "volume_holds E K V P provider key d \<longleftrightarrow> (\<exists>dek. unlocks E K V P provider dek d \<and> sealed_with E V P dek key d)"

text \<open>The keyfile lies outside the data directory.\<close>

definition keyfile_same :: "dek_provider \<Rightarrow> disk \<Rightarrow> disk \<Rightarrow> bool" where
  "keyfile_same provider d d' \<longleftrightarrow> (case provider of Passphrase p \<Rightarrow> True | Keyfile p \<Rightarrow> d' p = d p)"

definition keyfile_outside :: "string \<Rightarrow> dek_provider \<Rightarrow> bool" where
  "keyfile_outside dir provider \<longleftrightarrow> (case provider of Passphrase p \<Rightarrow> True | Keyfile p \<Rightarrow> \<forall>name. p \<noteq> path_join dir name)"

lemma under_simps [simp]:
  "dp_dek_meta (data_paths_under dir) = path_join dir ''dek.meta''"
  "dp_dek (data_paths_under dir) = path_join dir ''dek''" "dp_mode (data_paths_under dir) = path_join dir ''dek.mode''"
  "dp_master (data_paths_under dir) = path_join dir ''master.bbkey''"
  by (simp_all add: data_paths_under_def)

lemma master_tmp [simp]: "with_extension (path_join dir ''master.bbkey'') e = path_join dir (''master.'' @ e)"
  by (cases dir rule: rev_cases) (auto simp: with_extension_def path_join_def Let_def takeWhile_append)

lemma keyfile_kek_same:
  "keyfile_same (Keyfile p) d d' \<Longrightarrow> keyfile_kek E p d' = keyfile_kek E p d"
  by (simp add: keyfile_same_def keyfile_kek_def io_bind_def io_read_def io_simps split: option.splits)

lemma keyfile_kek_pure: "keyfile_kek E p d = (r, ops) \<Longrightarrow> ops = []"
  by (auto simp: keyfile_kek_def io_bind_def io_read_def io_simps split: option.splits if_splits)

lemma reconstruct_same:
  assumes "keyfile_same provider d d'" and "reconstruct_dek E K provider meta d = r"
  shows "reconstruct_dek E K provider meta d' = r"
proof (cases provider)
  case (Passphrase p)
  then show ?thesis using assms by (simp add: reconstruct_dek_def io_bind_def io_simps split: if_splits sum.splits)
next
  case (Keyfile p)
  then have "keyfile_kek E p d' = keyfile_kek E p d" using assms(1) keyfile_kek_same by simp
  then show ?thesis using assms(2) Keyfile
    by (auto dest: keyfile_kek_pure simp: reconstruct_dek_def io_bind_def io_simps split: if_splits sum.splits prod.splits)
qed

text \<open>What \<open>init_dek\<close> writes down recovers the key it made.\<close>

lemma init_dek_recovers:
  assumes "gcm_law E" and "b64_law E" and "init_dek E K rq i provider d = (Inr (dek, meta), ops)"
  shows "ops = []" and "reconstruct_dek E K provider meta d = (Inr dek, [])"
proof -
  have "ops = [] \<and> reconstruct_dek E K provider meta d = (Inr dek, [])"
  proof (cases provider)
    case (Passphrase p)
    then show ?thesis using assms(2,3)
      by (auto simp: init_dek_def reconstruct_dek_def Let_def io_simps io_bind_def meta_field_def cost_or_def argon2_key_with_def
          argon2_key_def derive_kek_def b64_law_def map_err_def ok_or_def split: option.splits sum.splits)
  next
    case (Keyfile p)
    obtain kek where kek: "keyfile_kek E p d = (Inr kek, [])"
      using assms(3) Keyfile
      by (auto dest: keyfile_kek_pure simp: init_dek_def io_bind_def split: prod.splits sum.splits)
    then obtain w where w: "aead_seal E (rand rq (i + 1) 12) (rand rq i DEK_LEN) kek = Inr w"
      "dek = rand rq i DEK_LEN" "dm_wrapped meta = Some (b64_encode E w)" "dm_provider meta = ''keyfile''" "ops = []"
      using assms(3) Keyfile by (auto simp: init_dek_def io_bind_def io_simps Let_def split: sum.splits)
    have "aead_open E w kek = Inr dek" using box.unseal_seal [OF assms(1) _ w(1)] w(2) by simp
    then show ?thesis using w kek Keyfile assms(2)
      by (simp add: reconstruct_dek_def io_bind_def io_simps meta_field_def b64_law_def)
  qed
  then show "ops = []" and "reconstruct_dek E K provider meta d = (Inr dek, [])" by simp_all
qed

lemma init_dek_pure: "init_dek E K rq i provider d = (r, ops) \<Longrightarrow> ops = []"
  by (cases provider) (auto simp: init_dek_def Let_def io_bind_def io_simps dest: keyfile_kek_pure split: prod.splits sum.splits)

lemma reconstruct_pure: "reconstruct_dek E K provider meta d = (r, ops) \<Longrightarrow> ops = []"
  by (cases provider) (auto simp: reconstruct_dek_def io_bind_def io_simps dest: keyfile_kek_pure
      split: prod.splits sum.splits if_splits)

section \<open>Starts and rotations of a volume\<close>

lemma resolve_unlocked:
  assumes "unlocks E K V P provider dek d"
  shows "resolve_dek E K V rq P provider d = (Inr dek, [])"
proof -
  obtain f meta where d: "d (dp_dek_meta P) = Some f" "meta_parse V (contents_of f) = Some meta"
    "reconstruct_dek E K provider meta d = (Inr dek, [])" using assms by (auto simp: unlocks_def)
  then show ?thesis by (simp add: resolve_dek_def resolve_present_def io_bind_def io_simps io_read_def)
qed

lemma boot_holds:
  assumes "volume_holds E K V P provider key d"
  shows "boot_keys E K V kd rq P provider d = (Inr (key, False), [])"
proof -
  obtain dek f plain where dek: "unlocks E K V P provider dek d" "d (dp_master P) = Some f"
    "decrypt_aes_gcm E (contents_of f) dek = Inr plain" "key_of_json (bundle_codec V) plain = Some key"
    using assms by (auto simp: volume_holds_def sealed_with_def)
  then show ?thesis
    by (simp add: boot_keys_def io_bind_def resolve_unlocked load_or_init_master_def io_simps io_read_def)
qed

text \<open>The five operations of a rotation, and what the new files hold.\<close>

lemma rekey_ops:
  assumes "gcm_law E" and "b64_law E" and "meta_law V"
    and "unlocks E K V (data_paths_under dir) provider dek d" and "sealed_with E V (data_paths_under dir) dek key d"
    and "rekey_master_dek E K V rq (data_paths_under dir) provider d = (r, ops)"
  shows "ops = [] \<or> (\<exists>env new_dek meta plain. r = Inr () \<and>
      ops = [WriteFile (path_join dir ''master.bbkey.rekey'') env (new_mode V), Chmod (path_join dir ''master.bbkey.rekey'') owner_only,
        Rename (path_join dir ''master.bbkey.rekey'') (path_join dir ''master.bbkey''),
        WriteFile (path_join dir ''dek.meta'') (meta_print V meta) (new_mode V), Chmod (path_join dir ''dek.meta'') owner_only]
      \<and> reconstruct_dek E K provider meta d = (Inr new_dek, []) \<and> decrypt_aes_gcm E env new_dek = Inr plain
      \<and> key_of_json (bundle_codec V) plain = Some key)"
proof -
  obtain f plain where d: "d (path_join dir ''master.bbkey'') = Some f" "decrypt_aes_gcm E (contents_of f) dek = Inr plain"
    "key_of_json (bundle_codec V) plain = Some key" using assms(5) by (auto simp: sealed_with_def)
  have o: "open_master E (data_paths_under dir) dek d = (Inr plain, [])" using d by (simp add: open_master_def io_bind_def io_simps io_read_def)
  show ?thesis
  proof (cases "init_dek E K rq 20 provider d")
    case (Pair ri opsi)
    then have i: "init_dek E K rq 20 provider d = (ri, [])" using init_dek_pure by blast
    show ?thesis
    proof (cases ri)
      case (Inl e)
      then show ?thesis using assms(6) d o i
        by (simp add: rekey_master_dek_def io_bind_def io_simps resolve_unlocked [OF assms(4)])
    next
      case (Inr x)
      obtain new_dek meta where x: "x = (new_dek, meta)" by (cases x)
      have rec: "reconstruct_dek E K provider meta d = (Inr new_dek, [])"
        using init_dek_recovers(2) [OF assms(1,2)] i Inr x by blast
      show ?thesis
      proof (cases "encrypt_aes_gcm E (secs_of rq) (rand rq 22 32) plain new_dek")
        case (Inl e)
        then show ?thesis using assms(6) d o i Inr x \<open>ri = Inr x\<close>
          by (simp add: rekey_master_dek_def io_bind_def io_simps resolve_unlocked [OF assms(4)] reseal_master_def Let_def)
      next
        case (Inr env)
        have "decrypt_aes_gcm E env new_dek = Inr plain"
          using stretched_box.unseal_seal [OF assms(1), of "(secs_of rq, rand rq 22 32)"] Inr by simp
        then show ?thesis using assms(6) d o i Inr x \<open>ri = Inr x\<close> rec
          by (auto simp: rekey_master_dek_def io_bind_def io_simps resolve_unlocked [OF assms(4)] reseal_master_def Let_def
              write_secret_def)
      qed
    qed
  qed
qed

text \<open>
  The disk after the first \<open>k\<close> operations of a rotation. Up to the renaming the old files are in
  place; after the new \<open>dek.meta\<close> has been written the new ones are. In between, \<open>master.bbkey\<close> is
  encrypted under a key that nothing on the disk recovers.
\<close>

lemma rekey_prefix:
  assumes "gcm_law E" and "b64_law E" and "meta_law V" and "keyfile_outside dir provider"
    and "unlocks E K V (data_paths_under dir) provider dek d" and "sealed_with E V (data_paths_under dir) dek key d"
    and "rekey_master_dek E K V rq (data_paths_under dir) provider d = (r, ops)"
  shows "k \<noteq> 3 \<Longrightarrow> volume_holds E K V (data_paths_under dir) provider key (fs_run (take k ops) d)"
    and "unlocks E K V (data_paths_under dir) provider dek (fs_run (take 3 ops) d)"
    and "r = Inr () \<Longrightarrow> map_option contents_of (fs_run (take 3 ops) d (path_join dir ''master.bbkey''))
      = map_option contents_of (fs_run ops d (path_join dir ''master.bbkey''))"
proof -
  let ?P = "data_paths_under dir" and ?ks = "\<lambda>d'. volume_holds E K V (data_paths_under dir) provider key d'"
  obtain f meta where old: "d (path_join dir ''dek.meta'') = Some f" "meta_parse V (contents_of f) = Some meta"
    "reconstruct_dek E K provider meta d = (Inr dek, [])" using assms(5) by (auto simp: unlocks_def)
  have same: "keyfile_same provider d (fs_run (take k ops) d)" for k
    using rekey_ops [OF assms(1-3,5-7)] assms(4)
    by (auto simp: keyfile_same_def keyfile_outside_def numeral_eq_Suc take_Cons' split: dek_provider.splits)
  have apart: "path_join dir a \<noteq> path_join dir b" if "a \<noteq> b" for a b using that by simp
  consider "ops = []" | env new_dek meta' plain where "r = Inr ()"
    "ops = [WriteFile (path_join dir ''master.bbkey.rekey'') env (new_mode V), Chmod (path_join dir ''master.bbkey.rekey'') owner_only,
        Rename (path_join dir ''master.bbkey.rekey'') (path_join dir ''master.bbkey''),
        WriteFile (path_join dir ''dek.meta'') (meta_print V meta') (new_mode V), Chmod (path_join dir ''dek.meta'') owner_only]"
    "reconstruct_dek E K provider meta' d = (Inr new_dek, [])" "decrypt_aes_gcm E env new_dek = Inr plain"
    "key_of_json (bundle_codec V) plain = Some key"
    using rekey_ops [OF assms(1-3,5-7)] by blast
  then have all: "(k \<noteq> 3 \<longrightarrow> ?ks (fs_run (take k ops) d)) \<and> unlocks E K V ?P provider dek (fs_run (take 3 ops) d)
    \<and> (r = Inr () \<longrightarrow> map_option contents_of (fs_run (take 3 ops) d (path_join dir ''master.bbkey''))
      = map_option contents_of (fs_run ops d (path_join dir ''master.bbkey'')))" for k
  proof cases
    case 1
    then show ?thesis using assms(5,6) by (auto simp: volume_holds_def)
  next
    case 2
    note rec = reconstruct_same [OF same [of k]] 
    have "unlocks E K V ?P provider dek (fs_run (take k ops) d)" if "k \<le> 3"
      using that old rec [OF old(3)] 2(2) unfolding unlocks_def
      by (intro exI [of _ f] exI [of _ meta]) (auto simp: numeral_eq_Suc take_Cons' le_Suc_eq)
    moreover have "sealed_with E V ?P dek key (fs_run (take k ops) d)" if "k < 3"
      using that assms(6) 2(2) by (auto simp: sealed_with_def numeral_eq_Suc take_Cons' less_Suc_eq)
    moreover have "volume_holds E K V ?P provider key (fs_run (take k ops) d)" if "3 < k"
    proof -
      have "unlocks E K V ?P provider new_dek (fs_run (take k ops) d)" 
        using that rec [OF 2(3)] 2(2) assms(3) by (auto simp: unlocks_def meta_law_def numeral_eq_Suc take_Cons' split: if_splits)
      moreover have "sealed_with E V ?P new_dek key (fs_run (take k ops) d)"
        using that 2 by (auto simp: sealed_with_def numeral_eq_Suc take_Cons' split: if_splits)
      ultimately show ?thesis by (auto simp: volume_holds_def)
    qed
    moreover have "unlocks E K V ?P provider dek (fs_run (take 3 ops) d)"
      using old reconstruct_same [OF same [of 3] old(3)] 2(2) by (auto simp: unlocks_def numeral_eq_Suc)
    moreover have "map_option contents_of (fs_run (take 3 ops) d (path_join dir ''master.bbkey''))
        = map_option contents_of (fs_run ops d (path_join dir ''master.bbkey''))"
      using 2(2) by (simp add: numeral_eq_Suc)
    ultimately show ?thesis by (cases k "3 :: nat" rule: linorder_cases) (auto simp: volume_holds_def)
  qed
  then show "k \<noteq> 3 \<Longrightarrow> ?ks (fs_run (take k ops) d)" and "unlocks E K V ?P provider dek (fs_run (take 3 ops) d)"
    and "r = Inr () \<Longrightarrow> map_option contents_of (fs_run (take 3 ops) d (path_join dir ''master.bbkey''))
      = map_option contents_of (fs_run ops d (path_join dir ''master.bbkey''))" by blast+
qed

text \<open>
  Starts and rotations of the server on one volume, each cut off after any number of operations,
  and whatever else changes other files. A rotation is not cut off between its third and its
  fourth operation.
\<close>

inductive volume_step ::
    "ext \<Rightarrow> ops_ext \<Rightarrow> volume_ext \<Rightarrow> string \<Rightarrow> dek_provider \<Rightarrow> disk \<Rightarrow> disk \<Rightarrow> bool" for E K V dir provider where
  Start: "boot_keys E K V kd rq (data_paths_under dir) provider d = (r, ops) \<Longrightarrow>
    volume_step E K V dir provider d (fs_run (take k ops) d)"
| Rotate: "rekey_master_dek E K V rq (data_paths_under dir) provider d = (r, ops) \<Longrightarrow> k \<noteq> 3 \<Longrightarrow>
    volume_step E K V dir provider d (fs_run (take k ops) d)"
| Elsewhere: "d' (path_join dir ''dek.meta'') = d (path_join dir ''dek.meta'') \<Longrightarrow>
    d' (path_join dir ''master.bbkey'') = d (path_join dir ''master.bbkey'') \<Longrightarrow> keyfile_same provider d d' \<Longrightarrow>
    volume_step E K V dir provider d d'"

lemma volume_step_holds:
  assumes "gcm_law E" and "b64_law E" and "meta_law V" and "keyfile_outside dir provider"
    and "volume_holds E K V (data_paths_under dir) provider key d" and "volume_step E K V dir provider d d'"
  shows "volume_holds E K V (data_paths_under dir) provider key d'"
  using assms(6)
proof cases
  case (Start kd rq r ops k)
  then show ?thesis using boot_holds [OF assms(5), of kd rq] assms(5) by simp
next
  case (Rotate rq r ops k)
  obtain dek where "unlocks E K V (data_paths_under dir) provider dek d" "sealed_with E V (data_paths_under dir) dek key d"
    using assms(5) by (auto simp: volume_holds_def)
  from rekey_prefix(1) [OF assms(1-4) this Rotate(2)] Rotate show ?thesis by simp
next
  case Elsewhere
  then show ?thesis using assms(5)
    by (auto simp: volume_holds_def unlocks_def sealed_with_def dest!: reconstruct_same [OF Elsewhere(3)])
qed

interpretation volume: step_invariant "volume_step E K V dir provider"
  "\<lambda>d. gcm_law E \<and> b64_law E \<and> meta_law V \<and> keyfile_outside dir provider
     \<and> volume_holds E K V (data_paths_under dir) provider key d" for E K V dir provider key
  by unfold_locales (use volume_step_holds in blast)

text \<open>A first start.\<close>

definition fresh_volume :: "string \<Rightarrow> disk \<Rightarrow> bool" where
  "fresh_volume dir d \<longleftrightarrow> d (path_join dir ''dek.meta'') = None \<and> d (path_join dir ''dek'') = None
     \<and> d (path_join dir ''dek.mode'') = None \<and> d (path_join dir ''master.bbkey'') = None"

lemma first_start:
  assumes "gcm_law E" and "b64_law E" and "meta_law V" and "keyfile_outside dir provider" and "fresh_volume dir d"
    and "boot_keys E K V kd rq (data_paths_under dir) provider d = (Inr (key, b), ops)"
  shows "b" and "volume_holds E K V (data_paths_under dir) provider key (fs_run ops d)"
proof -
  let ?P = "data_paths_under dir"
  obtain dek meta where i: "init_dek E K rq 0 provider d = (Inr (dek, meta), [])"
    using assms(5,6) init_dek_pure [of E K rq 0 provider d]
    by (auto simp: boot_keys_def resolve_dek_def resolve_present_def fresh_volume_def io_simps io_bind_def
        split: prod.splits sum.splits)
  let ?ops = "[WriteFile (path_join dir ''dek.meta'') (meta_print V meta) (new_mode V), Chmod (path_join dir ''dek.meta'') owner_only]"
  have "resolve_dek E K V rq ?P provider d = (Inr dek, ?ops)"
    using assms(5) i by (simp add: resolve_dek_def resolve_present_def fresh_volume_def io_simps io_bind_def write_secret_def)
  then obtain plain env where k: "generate E kd = Inr key" "key_to_json (bundle_codec V) key = Some plain"
    "encrypt_aes_gcm E (secs_of rq) (rand rq 30 32) plain dek = Inr env" "b"
    "ops = ?ops @ [WriteFile (path_join dir ''master.bbkey'') env (new_mode V), Chmod (path_join dir ''master.bbkey'') owner_only]"
    using assms(5,6)
    by (auto simp: boot_keys_def load_or_init_master_def fresh_volume_def io_simps io_bind_def write_secret_def
        split: sum.splits option.splits)
  have same: "keyfile_same provider d (fs_run ops d)"
    using assms(4) k(5) by (auto simp: keyfile_same_def keyfile_outside_def split: dek_provider.splits)
  have "unlocks E K V ?P provider dek (fs_run ops d)"
    using reconstruct_same [OF same init_dek_recovers(2) [OF assms(1,2) i]] k(5) assms(3)
    by (auto simp: unlocks_def meta_law_def)
  moreover have "decrypt_aes_gcm E env dek = Inr plain"
    using stretched_box.unseal_seal [OF assms(1), of "(secs_of rq, rand rq 30 32)"] k(3) by simp
  then have "sealed_with E V ?P dek key (fs_run ops d)"
    using k(2,5) assms(3) by (auto simp: sealed_with_def meta_law_def key_codec_law_def)
  ultimately show "volume_holds E K V ?P provider key (fs_run ops d)" by (auto simp: volume_holds_def)
  show "b" by (rule k(4))
qed

text \<open>A rotation opens the volume with the keyfile it is given: a new keyfile is refused.\<close>

lemma rekey_wrong_keyfile:
  assumes "d (path_join dir ''dek.meta'') = Some f" and "meta_parse V (contents_of f) = Some meta"
    and "dm_provider meta = ''keyfile''" and "d (path_join dir ''master.bbkey'') = Some g"
    and "keyfile_kek E path d = (Inr kek, [])" and "meta_field E (dm_wrapped meta) = Inr w" and "aead_open E w kek = Inl e"
  shows "rekey_master_dek E K V rq (data_paths_under dir) (Keyfile path) d = (Inl (KeyfileError path), [])"
  using assms
  by (simp add: rekey_master_dek_def resolve_dek_def resolve_present_def reconstruct_dek_def io_bind_def io_simps io_read_def)

section \<open>Volumes of the old layout\<close>

text \<open>The disk after a migration.\<close>

definition migrated :: "string \<Rightarrow> volume_ext \<Rightarrow> bytes \<Rightarrow> dek_meta \<Rightarrow> disk \<Rightarrow> disk \<Rightarrow> bool" where
  "migrated dir V env meta d d' \<longleftrightarrow>
     (\<exists>f. d' (path_join dir ''master.bbkey'') = Some f \<and> contents_of f = env)
     \<and> (\<exists>f. d' (path_join dir ''dek.meta'') = Some f \<and> contents_of f = meta_print V meta)
     \<and> d' (path_join dir ''dek'') = None \<and> d' (path_join dir ''dek.mode'') = None
     \<and> (\<forall>p. (\<forall>name. p \<noteq> path_join dir name) \<longrightarrow> d' p = d p)"

lemma migrate_ops:
  assumes "gcm_law E" and "b64_law E" and "d (path_join dir ''dek'') = Some f"
    and "legacy_dek E provider (legacy_mode (data_paths_under dir) d) (contents_of f) = Inr rk"
    and "sealed_with E V (data_paths_under dir) rk key d"
    and "migrate_legacy_dek E K V rq (data_paths_under dir) provider d = (Inr (), ops)"
  obtains env dek meta plain ops1 ops2 where
    "ops = [WriteFile (path_join dir ''master.bbkey.migrating'') env (new_mode V),
        Chmod (path_join dir ''master.bbkey.migrating'') owner_only,
        Rename (path_join dir ''master.bbkey.migrating'') (path_join dir ''master.bbkey''),
        WriteFile (path_join dir ''dek.meta'') (meta_print V meta) (new_mode V), Chmod (path_join dir ''dek.meta'') owner_only]
      @ ops1 @ ops2"
    "migrated dir V env meta d (fs_run ops d)"
    "reconstruct_dek E K provider meta d = (Inr dek, [])" "decrypt_aes_gcm E env dek = Inr plain"
    "key_of_json (bundle_codec V) plain = Some key"
proof -
  let ?P = "data_paths_under dir"
  obtain g plain where g: "d (path_join dir ''master.bbkey'') = Some g" "decrypt_aes_gcm E (contents_of g) rk = Inr plain"
    "key_of_json (bundle_codec V) plain = Some key" using assms(5) by (auto simp: sealed_with_def)
  have o: "open_master E ?P rk d = (Inr plain, [])" using g by (simp add: open_master_def io_bind_def io_simps io_read_def)
  obtain dek meta where i: "init_dek E K rq 10 provider d = (Inr (dek, meta), [])"
    using assms(3,4,6) init_dek_pure [of E K rq 10 provider d]
    by (auto simp: migrate_legacy_dek_def io_bind_def io_simps io_read_def split: prod.splits sum.splits)
  obtain env where env: "encrypt_aes_gcm E (secs_of rq) (rand rq 12 32) plain dek = Inr env"
    using assms(3,4,6) g(1) o i
    by (auto simp: migrate_legacy_dek_def io_bind_def io_simps io_read_def reseal_master_def Let_def split: prod.splits sum.splits)
  let ?ops = "[WriteFile (path_join dir ''master.bbkey.migrating'') env (new_mode V),
        Chmod (path_join dir ''master.bbkey.migrating'') owner_only,
        Rename (path_join dir ''master.bbkey.migrating'') (path_join dir ''master.bbkey''),
        WriteFile (path_join dir ''dek.meta'') (meta_print V meta) (new_mode V), Chmod (path_join dir ''dek.meta'') owner_only]"
  obtain r1 ops1 where d1: "secure_delete () rq 100 (path_join dir ''dek'') (fs_run ?ops d) = (r1, ops1)" by force
  obtain r2 ops2 where d2: "secure_delete () rq 200 (path_join dir ''dek.mode'') (fs_run ops1 (fs_run ?ops d)) = (r2, ops2)" by force
  have "ops = ?ops @ ops1 @ ops2"
    using assms(3,4,6) g(1) o i env d1 d2
    by (simp add: migrate_legacy_dek_def io_bind_def io_simps io_read_def reseal_master_def Let_def write_secret_def io_ignore_def)
  moreover from this have "fs_run ops d = (fs_run ?ops d)(path_join dir ''dek'' := None, path_join dir ''dek.mode'' := None)"
    using secure_delete_removes [OF d1] secure_delete_removes [OF d2] by (metis fs_run_append)
  then have "migrated dir V env meta d (fs_run ops d)" by (simp add: migrated_def)
  moreover have "decrypt_aes_gcm E env dek = Inr plain"
    using stretched_box.unseal_seal [OF assms(1), of "(secs_of rq, rand rq 12 32)"] env by simp
  ultimately show thesis using that init_dek_recovers(2) [OF assms(1,2) i] g(3) by blast
qed

section \<open>Properties\<close>

text \<open>
  C19. The master key survives: after a first start, whatever sequence of further starts and of
  rotations of the data encryption key follows, each complete or cut off at any point but one,
  the next start with the same passphrase or keyfile loads the same master key and writes nothing.
\<close>

theorem master_key_survives:
  assumes "gcm_law E" and "b64_law E" and "meta_law V" and "keyfile_outside dir provider" and "fresh_volume dir d0"
    and "boot_keys E K V kd rq (data_paths_under dir) provider d0 = (Inr (key, b), ops)"
    and "rtranclp (volume_step E K V dir provider) (fs_run ops d0) d"
  shows "boot_keys E K V kd' rq' (data_paths_under dir) provider d = (Inr (key, False), [])"
  using volume.steps_keep [OF assms(7)] first_start(2) [OF assms(1-6)] assms(1-4) boot_holds by blast

text \<open>
  C20. A rotation is safe at every point but one: whatever number of its operations has been
  performed when it is cut off, the server starts with the same master key, except when it is cut
  off after the replaced \<open>master.bbkey\<close> is in place and before the new \<open>dek.meta\<close> is written. Then no
  start succeeds any more, since the key that the volume recovers is not the one that
  \<open>master.bbkey\<close> is encrypted under.
\<close>

theorem rekey_window:
  assumes "gcm_law E" and "b64_law E" and "meta_law V" and "keyfile_outside dir provider"
    and "volume_holds E K V (data_paths_under dir) provider key d"
    and "rekey_master_dek E K V rq (data_paths_under dir) provider d = (Inr (), ops)"
    and "resolve_dek E K V rq (data_paths_under dir) provider d = (Inr old_dek, [])"
    and "fs_run ops d (path_join dir ''master.bbkey'') = Some new_master"
    and "decrypt_aes_gcm E (contents_of new_master) old_dek = Inl e"
  shows "boot_keys E K V kd rq' (data_paths_under dir) provider (fs_run (take k ops) d)
    = (if k = 3 then Inl (PersistCrypto e) else Inr (key, False), [])"
proof -
  obtain dek where dek: "unlocks E K V (data_paths_under dir) provider dek d" "sealed_with E V (data_paths_under dir) dek key d"
    using assms(5) by (auto simp: volume_holds_def)
  note prefix = rekey_prefix [OF assms(1-4) dek assms(6)]
  have "dek = old_dek" using resolve_unlocked [OF dek(1), of rq] assms(7) by simp
  then have u: "resolve_dek E K V rq' (data_paths_under dir) provider (fs_run (take 3 ops) d) = (Inr old_dek, [])"
    using resolve_unlocked [OF prefix(2)] by simp
  obtain f where f: "fs_run (take 3 ops) d (path_join dir ''master.bbkey'') = Some f" "contents_of f = contents_of new_master"
    using prefix(3) assms(8) by auto
  have "boot_keys E K V kd rq' (data_paths_under dir) provider (fs_run (take 3 ops) d) = (Inl (PersistCrypto e), [])"
    using f assms(9) by (simp add: boot_keys_def io_bind_def u load_or_init_master_def io_simps io_read_def)
  then show ?thesis using boot_holds [OF prefix(1), of k kd rq'] by auto
qed

text \<open>
  A start migrates a volume of the old layout without losing the master key: when it succeeds,
  the rk key and its mode file are gone, \<open>dek.meta\<close> recovers the new key, and \<open>master.bbkey\<close>, now
  encrypted under it, holds the same master key.
\<close>

theorem migration_keeps_key:
  assumes "gcm_law E" and "b64_law E" and "meta_law V" and "keyfile_outside dir provider"
    and "d (path_join dir ''dek.meta'') = None" and "d (path_join dir ''dek'') = Some f"
    and "legacy_dek E provider (legacy_mode (data_paths_under dir) d) (contents_of f) = Inr rk"
    and "sealed_with E V (data_paths_under dir) rk key d"
    and "resolve_dek E K V rq (data_paths_under dir) provider d = (Inr dek, ops)"
  shows "fs_run ops d (path_join dir ''dek'') = None \<and> fs_run ops d (path_join dir ''dek.mode'') = None
    \<and> (\<forall>kd rq'. boot_keys E K V kd rq' (data_paths_under dir) provider (fs_run ops d) = (Inr (key, False), []))"
proof -
  let ?P = "data_paths_under dir"
  obtain ops' where m: "migrate_legacy_dek E K V rq ?P provider d = (Inr (), ops')"
    using assms(5,6,9) by (auto simp: resolve_dek_def io_bind_def split: prod.splits sum.splits)
  obtain env new_dek meta plain where d': "migrated dir V env meta d (fs_run ops' d)"
    and k: "reconstruct_dek E K provider meta d = (Inr new_dek, [])" "decrypt_aes_gcm E env new_dek = Inr plain"
    "key_of_json (bundle_codec V) plain = Some key"
    using migrate_ops [OF assms(1,2,6,7,8) m] by metis
  have same: "keyfile_same provider d (fs_run ops' d)"
    using assms(4) d' by (auto simp: keyfile_same_def keyfile_outside_def migrated_def split: dek_provider.splits)
  have u: "unlocks E K V ?P provider new_dek (fs_run ops' d)"
    using reconstruct_same [OF same k(1)] d' assms(3) by (auto simp: unlocks_def meta_law_def migrated_def)
  have "sealed_with E V ?P new_dek key (fs_run ops' d)"
    using k(2,3) d' by (auto simp: sealed_with_def migrated_def)
  with u have "volume_holds E K V ?P provider key (fs_run ops' d)" by (auto simp: volume_holds_def)
  moreover have "resolve_present E K V rq ?P provider (fs_run ops' d) = (Inr new_dek, [])"
    using u by (auto simp: resolve_present_def io_bind_def io_simps io_read_def unlocks_def)
  then have "ops = ops'" using assms(5,6,9) m by (simp add: resolve_dek_def io_bind_def)
  ultimately show ?thesis using boot_holds d' by (simp add: migrated_def)
qed

text \<open>The window of a rotation is open in a migration too, and the next start cannot repair it.\<close>

lemma migration_window:
  assumes "gcm_law E" and "b64_law E" and "d (path_join dir ''dek.meta'') = None" and "d (path_join dir ''dek'') = Some f"
    and "legacy_dek E provider (legacy_mode (data_paths_under dir) d) (contents_of f) = Inr rk"
    and "sealed_with E V (data_paths_under dir) rk key d"
    and "migrate_legacy_dek E K V rq (data_paths_under dir) provider d = (Inr (), ops)"
    and "\<forall>g. fs_run ops d (path_join dir ''master.bbkey'') = Some g \<longrightarrow> isl (decrypt_aes_gcm E (contents_of g) rk)"
    and "\<exists>x. init_dek E K rq' 10 provider (fs_run (take 3 ops) d) = (Inr x, [])"
  shows "boot_keys E K V kd rq' (data_paths_under dir) provider (fs_run (take 3 ops) d) = (Inl Migration, [])"
proof -
  let ?P = "data_paths_under dir" and ?d = "fs_run (take 3 ops) d"
  obtain env meta ops1 ops2 where o: "ops = [WriteFile (path_join dir ''master.bbkey.migrating'') env (new_mode V),
        Chmod (path_join dir ''master.bbkey.migrating'') owner_only,
        Rename (path_join dir ''master.bbkey.migrating'') (path_join dir ''master.bbkey''),
        WriteFile (path_join dir ''dek.meta'') (meta_print V meta) (new_mode V), Chmod (path_join dir ''dek.meta'') owner_only]
      @ ops1 @ ops2" and m: "migrated dir V env meta d (fs_run ops d)"
    using migrate_ops [OF assms(1,2,4,5,6,7)] by metis
  have "take 3 ops = [WriteFile (path_join dir ''master.bbkey.migrating'') env (new_mode V),
        Chmod (path_join dir ''master.bbkey.migrating'') owner_only,
        Rename (path_join dir ''master.bbkey.migrating'') (path_join dir ''master.bbkey'')]"
    using o by (simp add: eval_nat_numeral)
  then have d: "?d (path_join dir ''dek.meta'') = None" "?d (path_join dir ''dek'') = Some f"
    "legacy_mode ?P ?d = legacy_mode ?P d" "\<exists>g. ?d (path_join dir ''master.bbkey'') = Some g \<and> contents_of g = env"
    using assms(3,4) by (simp_all add: legacy_mode_def)
  have "isl (decrypt_aes_gcm E env rk)" using m assms(8) by (auto simp: migrated_def)
  then obtain e where e: "decrypt_aes_gcm E env rk = Inl e" by (auto simp: isl_def)
  obtain g where g: "?d (path_join dir ''master.bbkey'') = Some g" "contents_of g = env" using d(4) by blast
  obtain x y where x: "init_dek E K rq' 10 provider ?d = (Inr (x, y), [])" using assms(9) by auto
  have "migrate_legacy_dek E K V rq' ?P provider ?d = (Inl Migration, [])"
    using d(1-3) g e x assms(5)
    by (simp add: migrate_legacy_dek_def io_bind_def io_simps io_read_def open_master_def map_err_def)
  then show ?thesis using d(1,2) by (simp add: boot_keys_def resolve_dek_def io_bind_def)
qed

section \<open>Witnesses\<close>

text \<open>A form of \<open>dek.meta\<close> in unary numbers.\<close>

definition demo_meta_print :: "dek_meta \<Rightarrow> bytes" where
  "demo_meta_print m = unary (dm_v m # put_str (dm_provider m) @ put_opt put_str (dm_salt m)
     @ put_opt (\<lambda>n. [n]) (dm_m_cost m) @ put_opt (\<lambda>n. [n]) (dm_t_cost m) @ put_opt (\<lambda>n. [n]) (dm_p_cost m)
     @ put_opt put_str (dm_wrapped m))"

definition demo_meta_parse :: "bytes \<Rightarrow> dek_meta option" where
  "demo_meta_parse b =
     (case get_nat (ununary 0 b) of (v, ns) \<Rightarrow> case get_str ns of (provider, ns) \<Rightarrow>
      case get_opt get_str ns of (salt, ns) \<Rightarrow> case get_opt get_nat ns of (m, ns) \<Rightarrow>
      case get_opt get_nat ns of (t, ns) \<Rightarrow> case get_opt get_nat ns of (p, ns) \<Rightarrow>
      case get_opt get_str ns of (w, ns) \<Rightarrow>
        Some \<lparr>dm_v = v, dm_provider = provider, dm_salt = salt, dm_m_cost = m, dm_t_cost = t, dm_p_cost = p, dm_wrapped = w\<rparr>)"

lemma demo_meta_law: "demo_meta_parse (demo_meta_print m) = Some m"
  by (simp add: demo_meta_parse_def demo_meta_print_def ununary_unary)

definition demo_bundle :: blackbook_key where
  "demo_bundle = projr (generate demo_vault_ext demo_draws)"

definition demo_volume :: volume_ext where
  "demo_volume = \<lparr>meta_print = demo_meta_print, meta_parse = demo_meta_parse,
     bundle_codec = \<lparr>key_to_json = (\<lambda>ks. if ks = demo_bundle then Some [1] else None), key_of_json = (\<lambda>j. Some demo_bundle)\<rparr>,
     ca_generate = (\<lambda>r. Some (''cert'', ''key'')), ca_key_pair = (\<lambda>k. True),
     server_issue = (\<lambda>k sans r. Some (''cert'', ''key'')), new_mode = 0x1A4\<rparr>"

definition demo_disk :: disk where
  "demo_disk = [''/run/kf'' \<mapsto> \<lparr>contents_of = [7, 8, 9], mode_of = 0x100\<rparr>]"

definition demo_start :: request where
  "demo_start = \<lparr>now = 0, entropy = (\<lambda>i. replicate 32 (of_nat i + 1))\<rparr>"

abbreviation demo_provider :: dek_provider where
  "demo_provider \<equiv> Keyfile ''/run/kf''"

lemma demo_volume_laws: "gcm_law demo_vault_ext" "b64_law demo_vault_ext" "meta_law demo_volume"
  by (auto simp: gcm_law_def b64_law_def meta_law_def key_codec_law_def demo_vault_ext_def demo_volume_def demo_meta_law
      demo_ext_def zeros_def split: if_splits)


lemma demo_stretched: "length k = 32 \<Longrightarrow> encrypt_aes_gcm demo_vault_ext t salt m k = Inr (timestamp_bytes t @ salt @ m @ take 16 k)"
  by (simp add: encrypt_aes_gcm_def Let_def derive_message_key_def demo_vault_ext_def demo_ext_def)

lemma demo_kek: "\<exists>kek. keyfile_kek demo_vault_ext ''/run/kf'' demo_disk = (Inr kek, []) \<and> length kek = 32"
  by (simp add: keyfile_kek_def io_bind_def io_read_def io_simps demo_disk_def demo_vault_ext_def demo_ext_def zeros_def)

lemma demo_init:
  assumes "keyfile_same demo_provider demo_disk d"
  shows "\<exists>meta. init_dek demo_vault_ext demo_ops rq i demo_provider d = (Inr (rand rq i 32, meta), [])"
proof -
  obtain kek where "keyfile_kek demo_vault_ext ''/run/kf'' d = (Inr kek, [])" "length kek = 32"
    using demo_kek keyfile_kek_same [OF assms] by auto
  then show ?thesis by (simp add: init_dek_def io_bind_def io_simps Let_def demo_aead DEK_LEN_def)
qed

lemma demo_generates: "generate demo_vault_ext demo_draws = Inr demo_bundle"
proof -
  have "kw_law demo_vault_ext" "scrypt_law demo_vault_ext"
    using demo_laws by (auto simp: kw_law_def scrypt_law_def demo_vault_ext_def)
  from generate_ok [OF this, of demo_draws] show ?thesis by (auto simp: demo_bundle_def demo_draws_def)
qed

lemma demo_fresh_volume: "fresh_volume ''/data'' demo_disk" "keyfile_outside ''/data'' demo_provider"
  "keyfile_same demo_provider demo_disk demo_disk"
  by (simp_all add: fresh_volume_def keyfile_outside_def keyfile_same_def demo_disk_def path_join_def)

lemma demo_bundle_json: "key_to_json (bundle_codec demo_volume) demo_bundle = Some [1]"
  by (simp add: demo_volume_def)

lemma demo_boots:
  "\<exists>ops. boot_keys demo_vault_ext demo_ops demo_volume demo_draws demo_start (data_paths_under ''/data'') demo_provider demo_disk
    = (Inr (demo_bundle, True), ops)"
proof -
  obtain meta where "init_dek demo_vault_ext demo_ops demo_start 0 demo_provider demo_disk = (Inr (rand demo_start 0 32, meta), [])"
    using demo_init [OF demo_fresh_volume(3)] by blast
  then show ?thesis using demo_fresh_volume(1)
    by (simp add: boot_keys_def resolve_dek_def resolve_present_def fresh_volume_def io_bind_def io_simps write_secret_def
        load_or_init_master_def demo_generates demo_stretched demo_bundle_json)
qed

text \<open>The volume after the first start: what it holds, and the key it recovers.\<close>

definition demo_after :: disk where
  "demo_after = fs_run (snd (boot_keys demo_vault_ext demo_ops demo_volume demo_draws demo_start
     (data_paths_under ''/data'') demo_provider demo_disk)) demo_disk"

lemma demo_after_holds: "volume_holds demo_vault_ext demo_ops demo_volume (data_paths_under ''/data'') demo_provider demo_bundle demo_after"
proof -
  obtain ops where "boot_keys demo_vault_ext demo_ops demo_volume demo_draws demo_start (data_paths_under ''/data'') demo_provider demo_disk
    = (Inr (demo_bundle, True), ops)" using demo_boots by blast
  from first_start(2) [OF demo_volume_laws demo_fresh_volume(2,1) this] this show ?thesis by (simp add: demo_after_def)
qed

theorem master_key_survives_witness:
  "\<exists>d. volume_step demo_vault_ext demo_ops demo_volume ''/data'' demo_provider demo_after d
    \<and> boot_keys demo_vault_ext demo_ops demo_volume demo_draws demo_start (data_paths_under ''/data'') demo_provider d
      = (Inr (demo_bundle, False), [])"
proof -
  obtain ops where b: "boot_keys demo_vault_ext demo_ops demo_volume demo_draws demo_start (data_paths_under ''/data'') demo_provider demo_disk
    = (Inr (demo_bundle, True), ops)" using demo_boots by blast
  let ?step = "volume_step demo_vault_ext demo_ops demo_volume ''/data'' demo_provider"
  obtain r ops' where r: "rekey_master_dek demo_vault_ext demo_ops demo_volume demo_start (data_paths_under ''/data'') demo_provider
      demo_after = (r, ops')" by force
  have s: "?step demo_after (fs_run (take 5 ops') demo_after)" by (rule volume_step.Rotate [OF r]) simp
  then have "rtranclp ?step (fs_run ops demo_disk) (fs_run (take 5 ops') demo_after)" using b by (simp add: demo_after_def)
  from master_key_survives [OF demo_volume_laws demo_fresh_volume(2,1) b this] s show ?thesis by blast
qed

lemma demo_after_same: "keyfile_same demo_provider demo_disk demo_after"
proof -
  obtain ops where b: "boot_keys demo_vault_ext demo_ops demo_volume demo_draws demo_start (data_paths_under ''/data'') demo_provider demo_disk
    = (Inr (demo_bundle, True), ops)" using demo_boots by blast
  obtain meta where "init_dek demo_vault_ext demo_ops demo_start 0 demo_provider demo_disk = (Inr (rand demo_start 0 32, meta), [])"
    using demo_init [OF demo_fresh_volume(3)] by blast
  then show ?thesis using demo_fresh_volume(1)
    by (simp add: demo_after_def keyfile_same_def boot_keys_def resolve_dek_def resolve_present_def fresh_volume_def io_bind_def io_simps
        write_secret_def load_or_init_master_def demo_generates demo_stretched demo_bundle_json) (simp add: path_join_def)
qed


definition demo_later :: request where
  "demo_later = \<lparr>now = 0, entropy = (\<lambda>i. replicate 32 9)\<rparr>"

lemma demo_rekeys:
  "\<exists>dek ops f e. rekey_master_dek demo_vault_ext demo_ops demo_volume demo_later (data_paths_under ''/data'') demo_provider demo_after
      = (Inr (), ops)
    \<and> resolve_dek demo_vault_ext demo_ops demo_volume demo_later (data_paths_under ''/data'') demo_provider demo_after = (Inr dek, [])
    \<and> fs_run ops demo_after (path_join ''/data'' ''master.bbkey'') = Some f \<and> decrypt_aes_gcm demo_vault_ext (contents_of f) dek = Inl e"
proof -
  obtain meta where i: "init_dek demo_vault_ext demo_ops demo_start 0 demo_provider demo_disk = (Inr (rand demo_start 0 32, meta), [])"
    using demo_init [OF demo_fresh_volume(3)] by blast
  obtain meta' where i': "init_dek demo_vault_ext demo_ops demo_later 20 demo_provider demo_after = (Inr (rand demo_later 20 32, meta'), [])"
    using demo_init [OF demo_after_same] by blast
  let ?k = "rand demo_start 0 32" and ?k' = "rand demo_later 20 32"
  obtain f where f: "demo_after (path_join ''/data'' ''master.bbkey'') = Some f"
      "contents_of f = timestamp_bytes (secs_of demo_start) @ rand demo_start 30 32 @ [1] @ take 16 ?k"
    and g: "demo_after (path_join ''/data'' ''dek.meta'') = Some \<lparr>contents_of = demo_meta_print meta, mode_of = owner_only\<rparr>"
    using demo_fresh_volume(1) i
    by (simp add: demo_after_def boot_keys_def resolve_dek_def resolve_present_def fresh_volume_def io_bind_def io_simps
        write_secret_def load_or_init_master_def demo_generates demo_stretched demo_bundle_json) (simp add: demo_volume_def)
  have r: "reconstruct_dek demo_vault_ext demo_ops demo_provider meta demo_after = (Inr ?k, [])"
    using reconstruct_same [OF demo_after_same init_dek_recovers(2) [OF demo_volume_laws(1,2) i]] .
  have d: "resolve_dek demo_vault_ext demo_ops demo_volume rq (data_paths_under ''/data'') demo_provider demo_after = (Inr ?k, [])" for rq
    using r by (intro resolve_unlocked) (simp add: unlocks_def g, simp add: demo_volume_def demo_meta_law)
  have dk: "decrypt_aes_gcm demo_vault_ext (timestamp_bytes t @ rand rq j 32 @ [1] @ take 16 ?k) ?k = Inr [1]" for t rq j
    using demo_stretched [of ?k] stretched_box.unseal_seal [OF demo_volume_laws(1), of "(t, rand rq j 32)" ?k "[1]"] by simp
  have ne: "take 16 ?k' \<noteq> take 16 ?k" by code_simp
  have no: "decrypt_aes_gcm demo_vault_ext (timestamp_bytes t @ rand rq j 32 @ [1] @ take 16 ?k') ?k = Inl Decryption" for t rq j
    using ne by (simp add: decrypt_aes_gcm_def Let_def derive_message_key_def demo_vault_ext_def demo_ext_def)
  show ?thesis
    using f d dk i' no
    by (simp add: rekey_master_dek_def io_bind_def io_simps io_read_def open_master_def reseal_master_def Let_def write_secret_def
        demo_stretched)
qed

theorem rekey_window_witness:
  "\<exists>ops e. rekey_master_dek demo_vault_ext demo_ops demo_volume demo_later (data_paths_under ''/data'') demo_provider demo_after
      = (Inr (), ops)
    \<and> boot_keys demo_vault_ext demo_ops demo_volume demo_draws demo_start (data_paths_under ''/data'') demo_provider
        (fs_run (take 3 ops) demo_after) = (Inl (PersistCrypto e), [])"
proof -
  obtain dek ops f e where r: "rekey_master_dek demo_vault_ext demo_ops demo_volume demo_later (data_paths_under ''/data'') demo_provider
      demo_after = (Inr (), ops)"
    "resolve_dek demo_vault_ext demo_ops demo_volume demo_later (data_paths_under ''/data'') demo_provider demo_after = (Inr dek, [])"
    "fs_run ops demo_after (path_join ''/data'' ''master.bbkey'') = Some f" "decrypt_aes_gcm demo_vault_ext (contents_of f) dek = Inl e"
    using demo_rekeys by blast
  from rekey_window [OF demo_volume_laws demo_fresh_volume(2) demo_after_holds r, of demo_draws demo_start 3] r(1)
  show ?thesis by auto
qed

text \<open>A volume of the old layout, with a raw key.\<close>

definition demo_legacy :: disk where
  "demo_legacy = [''/run/kf'' \<mapsto> \<lparr>contents_of = [7, 8, 9], mode_of = 0x100\<rparr>,
     ''/data/dek'' \<mapsto> \<lparr>contents_of = replicate 32 5, mode_of = 0x180\<rparr>,
     ''/data/master.bbkey'' \<mapsto> \<lparr>contents_of = timestamp_bytes 0 @ zeros 32 @ [1] @ replicate 16 5, mode_of = 0x180\<rparr>]"

lemma demo_legacy_paths:
  "path_join ''/data'' ''dek.meta'' = ''/data/dek.meta''" "path_join ''/data'' ''dek'' = ''/data/dek''"
  "path_join ''/data'' ''dek.mode'' = ''/data/dek.mode''" "path_join ''/data'' ''master.bbkey'' = ''/data/master.bbkey''"
  "path_join ''/data'' ''master.bbkey.migrating'' = ''/data/master.bbkey.migrating''"
  by (simp_all add: path_join_def)

lemma demo_legacy_ok:
  "sealed_with demo_vault_ext demo_volume (data_paths_under ''/data'') (replicate 32 5) demo_bundle demo_legacy"
  "legacy_dek demo_vault_ext demo_provider (legacy_mode (data_paths_under ''/data'') demo_legacy) (replicate 32 5) = Inr (replicate 32 5)"
  "keyfile_same demo_provider demo_disk demo_legacy"
proof -
  have "decrypt_aes_gcm demo_vault_ext (timestamp_bytes 0 @ zeros 32 @ [1] @ replicate 16 5) (replicate 32 5) = Inr [1]" by code_simp
  then show "sealed_with demo_vault_ext demo_volume (data_paths_under ''/data'') (replicate 32 5) demo_bundle demo_legacy"
    by (simp add: sealed_with_def demo_legacy_def demo_legacy_paths demo_volume_def)
  show "legacy_dek demo_vault_ext demo_provider (legacy_mode (data_paths_under ''/data'') demo_legacy) (replicate 32 5) = Inr (replicate 32 5)"
    by (simp add: legacy_dek_def legacy_mode_def demo_legacy_def demo_legacy_paths DEK_LEN_def)
  show "keyfile_same demo_provider demo_disk demo_legacy" by (simp add: keyfile_same_def demo_disk_def demo_legacy_def)
qed


theorem migration_keeps_key_witness:
  "\<exists>dek ops. resolve_dek demo_vault_ext demo_ops demo_volume demo_later (data_paths_under ''/data'') demo_provider demo_legacy = (Inr dek, ops)
    \<and> fs_run ops demo_legacy ''/data/dek'' = None
    \<and> boot_keys demo_vault_ext demo_ops demo_volume demo_draws demo_start (data_paths_under ''/data'') demo_provider (fs_run ops demo_legacy)
      = (Inr (demo_bundle, False), [])"
proof -
  let ?P = "data_paths_under ''/data''"
  have d: "demo_legacy (path_join ''/data'' ''dek.meta'') = None"
    "demo_legacy (path_join ''/data'' ''dek'') = Some \<lparr>contents_of = replicate 32 5, mode_of = 0x180\<rparr>"
    by (simp_all add: demo_legacy_def demo_legacy_paths)
  obtain meta where i: "init_dek demo_vault_ext demo_ops demo_later 10 demo_provider demo_legacy = (Inr (rand demo_later 10 32, meta), [])"
    using demo_init [OF demo_legacy_ok(3)] by blast
  obtain f plain where m: "demo_legacy (path_join ''/data'' ''master.bbkey'') = Some f"
    "decrypt_aes_gcm demo_vault_ext (contents_of f) (replicate 32 5) = Inr plain"
    using demo_legacy_ok(1) by (auto simp: sealed_with_def)
  have "\<exists>ops. migrate_legacy_dek demo_vault_ext demo_ops demo_volume demo_later ?P demo_provider demo_legacy = (Inr (), ops)"
    using d i m demo_legacy_ok(2)
    by (simp add: migrate_legacy_dek_def io_bind_def io_simps io_read_def open_master_def reseal_master_def Let_def write_secret_def
        demo_stretched io_ignore_def)
  then obtain ops where o: "migrate_legacy_dek demo_vault_ext demo_ops demo_volume demo_later ?P demo_provider demo_legacy = (Inr (), ops)" ..
  from migrate_ops [OF demo_volume_laws(1,2) d(2) _ demo_legacy_ok(1) o] demo_legacy_ok(2)
  obtain env dek meta' where g: "migrated ''/data'' demo_volume env meta' demo_legacy (fs_run ops demo_legacy)"
    "reconstruct_dek demo_vault_ext demo_ops demo_provider meta' demo_legacy = (Inr dek, [])" by (metis inode.select_convs(1))
  have "keyfile_same demo_provider demo_legacy (fs_run ops demo_legacy)"
    using g(1) demo_fresh_volume(2) by (simp add: migrated_def keyfile_same_def keyfile_outside_def)
  from reconstruct_same [OF this g(2)] g(1)
  have "resolve_present demo_vault_ext demo_ops demo_volume demo_later ?P demo_provider (fs_run ops demo_legacy) = (Inr dek, [])"
    by (auto simp: resolve_present_def io_bind_def io_simps io_read_def migrated_def demo_volume_def demo_meta_law)
  then have "resolve_dek demo_vault_ext demo_ops demo_volume demo_later ?P demo_provider demo_legacy = (Inr dek, ops)"
    using d o by (simp add: resolve_dek_def io_bind_def)
  from migration_keeps_key [OF demo_volume_laws demo_fresh_volume(2) d _ demo_legacy_ok(1) this] this demo_legacy_ok(2)
  show ?thesis by (simp add: demo_legacy_paths)
qed

end
