(* ===== verification/Profiles.thy ===== *)
theory Profiles
  imports Credstore
begin

text \<open>
  Profiles of the command-line client (\<open>client.rs\<close>, \<open>Session\<close>; \<open>main.rs\<close>, \<open>cmd_login\<close>, \<open>cmd_unlock\<close>,
  \<open>cmd_lock\<close>, \<open>cmd_logout\<close>, \<open>cmd_passphrase\<close>, \<open>cmd_profile\<close>): the credentials with the client master
  key, sealed under a passphrase in a file, and the agent that keeps the profile open for a while.
  The lemmas follow the client master key, on which the client's own ciphertexts depend, through
  every sequence of commands, complete or cut off in the middle of a write, and locate what loses
  it: a login over a profile that does not open, and one that is killed while it writes the file.
\<close>

section \<open>Data\<close>

record client_session =
  se_server :: string
  se_token :: "string option"
  se_cert :: "string option"
  se_key :: "string option"
  se_ca :: "string option"
  se_cmk :: "string option"

record login_bundle =
  lb_server :: "string option"
  lb_token :: "string option"
  lb_cert :: "string option"
  lb_key :: "string option"
  lb_ca :: "string option"

datatype client_error = NoSession | SessionIo | ClientIo | ClientJson | ClientCred cred_error | ClientConfig | ClientHttp

text \<open>The JSON form of a session (crate serde_json); the others are in \<open>cred_codec\<close>.\<close>

record session_codec = cred_codec +
  session_print :: "client_session \<Rightarrow> bytes"
  session_parse :: "bytes \<Rightarrow> client_session option"

definition session_codec_law :: "session_codec \<Rightarrow> bool" where
  "session_codec_law J \<longleftrightarrow> cred_codec_law (cred_codec.truncate J) \<and> (\<forall>s. session_parse J (session_print J s) = Some s)"

abbreviation cred_of :: "session_codec \<Rightarrow> cred_codec" where
  "cred_of J \<equiv> cred_codec.truncate J"

lemma session_codec_laws:
  assumes "session_codec_law J"
  shows "profile_parse J (profile_print J ep) = Some ep" "session_parse J (session_print J s) = Some s" "cred_codec_law (cred_of J)"
  using assms by (simp_all add: session_codec_law_def cred_codec_law_def cred_codec.defs)

section \<open>Paths and pointers\<close>

definition bbk_dir :: "shell \<Rightarrow> client_error + string" where
  "bbk_dir sh = (case sh_home sh of None \<Rightarrow> Inl SessionIo | Some h \<Rightarrow> Inr (path_join h ''.bbk''))"

definition path_for :: "shell \<Rightarrow> string \<Rightarrow> client_error + string" where
  "path_for sh profile = and_then (bbk_dir sh) (\<lambda>dir. Inr (path_join (path_join dir ''profiles'') (profile @ ''.json'')))"

definition legacy_path :: "shell \<Rightarrow> client_error + string" where
  "legacy_path sh = and_then (bbk_dir sh) (\<lambda>dir. Inr (path_join dir ''session.json''))"

definition active_pointer_path :: "shell \<Rightarrow> client_error + string" where
  "active_pointer_path sh = and_then (bbk_dir sh) (\<lambda>dir. Inr (path_join dir ''active''))"

definition domain_pointer_path :: "shell \<Rightarrow> string \<Rightarrow> client_error + string" where
  "domain_pointer_path sh profile = and_then (bbk_dir sh) (\<lambda>dir. Inr (path_join (path_join dir ''domains'') profile))"

definition read_pointer :: "disk \<Rightarrow> string \<Rightarrow> string option" where
  "read_pointer d path = (case d path of
      None \<Rightarrow> None
    | Some f \<Rightarrow> nonempty (map_option trim (from_utf8 (contents_of f))))"

definition read_active_pointer :: "shell \<Rightarrow> (client_error, string option) io" where
  "read_active_pointer sh = io_bind (io_lift (active_pointer_path sh)) (\<lambda>path.
     io_bind (io_exists path) (\<lambda>there.
       if \<not> there then io_return None
       else io_bind (io_read ClientIo path) (\<lambda>b.
            io_bind (io_lift (ok_or ClientIo (from_utf8 b))) (\<lambda>s. io_return (nonempty (Some (trim s)))))))"

definition write_active_pointer :: "shell \<Rightarrow> string \<Rightarrow> (client_error, unit) io" where
  "write_active_pointer sh name = io_bind (io_lift (active_pointer_path sh)) (\<lambda>path.
     io_do (WriteFile path (as_bytes name) (sh_new_mode sh)))"

definition read_domain_pref :: "shell \<Rightarrow> string \<Rightarrow> disk \<Rightarrow> string option" where
  "read_domain_pref sh profile d = (case domain_pointer_path sh profile of
      Inl e \<Rightarrow> None
    | Inr path \<Rightarrow> read_pointer d path)"

definition write_domain_pref :: "shell \<Rightarrow> string \<Rightarrow> string \<Rightarrow> (client_error, unit) io" where
  "write_domain_pref sh profile domain_name = io_bind (io_lift (domain_pointer_path sh profile)) (\<lambda>path.
     io_do (WriteFile path (as_bytes domain_name) (sh_new_mode sh)))"

definition clear_domain_pref :: "shell \<Rightarrow> string \<Rightarrow> (client_error, bool) io" where
  "clear_domain_pref sh profile = io_bind (io_lift (domain_pointer_path sh profile)) (\<lambda>path.
     io_bind (io_exists path) (\<lambda>there.
       if there then io_bind (io_do (RemoveFile path)) (\<lambda>_. io_return True) else io_return False))"

text \<open>The profile of an invocation (\<open>main\<close>): the flag, the pointer, or \<open>default\<close>.\<close>

definition resolved_profile :: "shell \<Rightarrow> string option \<Rightarrow> disk \<Rightarrow> string" where
  "resolved_profile sh flag d = (case flag of
      Some p \<Rightarrow> p
    | None \<Rightarrow> (case fst (read_active_pointer sh d) of Inr (Some p) \<Rightarrow> p | _ \<Rightarrow> ''default''))"

section \<open>Loading and saving\<close>

definition parse_session :: "session_codec \<Rightarrow> bytes \<Rightarrow> client_error + client_session" where
  "parse_session J b = ok_or ClientJson (session_parse J b)"

text \<open>The session of a sealed profile, without the agent: with the passphrase of prompt \<open>i\<close>.\<close>

definition open_with_prompt ::
    "ext \<Rightarrow> ops_ext \<Rightarrow> session_codec \<Rightarrow> shell \<Rightarrow> request \<Rightarrow> nat \<Rightarrow> string \<Rightarrow> encrypted_profile \<Rightarrow> (client_error, client_session) io" where
  "open_with_prompt E K J sh rq i profile ep =
     (case resolve_passphrase sh i None False of
        Inl e \<Rightarrow> io_fail (ClientCred e)
      | Inr pass \<Rightarrow>
        (case profile_kek E K ep pass of
           Inl e \<Rightarrow> io_fail (ClientCred e)
         | Inr kek \<Rightarrow>
           (case open_with_kek E ep kek of
              Inl e \<Rightarrow> io_fail (ClientCred e)
            | Inr inner \<Rightarrow>
                io_bind (io_ignore (agent_store E (cred_of J) sh rq profile kek DEFAULT_AGENT_TTL_SECS)) (\<lambda>_.
                  io_lift (parse_session J inner)))))"

definition from_profile_bytes ::
    "ext \<Rightarrow> ops_ext \<Rightarrow> session_codec \<Rightarrow> shell \<Rightarrow> request \<Rightarrow> nat \<Rightarrow> string \<Rightarrow> bytes \<Rightarrow> (client_error, client_session) io" where
  "from_profile_bytes E K J sh rq i profile b = (case profile_parse J b of
      None \<Rightarrow> io_lift (parse_session J b)
    | Some ep \<Rightarrow>
        if ep_v ep < 2 then io_lift (parse_session J b)
        else
          io_bind (agent_get E (cred_of J) sh rq profile) (\<lambda>cached.
            (case cached of
               None \<Rightarrow> open_with_prompt E K J sh rq i profile ep
             | Some kek \<Rightarrow>
               (case open_with_kek E ep kek of
                  Inl e \<Rightarrow> open_with_prompt E K J sh rq i profile ep
                | Inr inner \<Rightarrow> io_lift (parse_session J inner)))))"

definition load_named ::
    "ext \<Rightarrow> ops_ext \<Rightarrow> session_codec \<Rightarrow> shell \<Rightarrow> request \<Rightarrow> nat \<Rightarrow> string \<Rightarrow> (client_error, client_session) io" where
  "load_named E K J sh rq i profile =
     io_bind (io_lift (path_for sh profile)) (\<lambda>path.
     io_bind (io_exists path) (\<lambda>there.
       if there
       then io_bind (io_read SessionIo path) (from_profile_bytes E K J sh rq i profile)
       else if profile = ''default''
       then
         io_bind (io_lift (legacy_path sh)) (\<lambda>legacy.
         io_bind (io_exists legacy) (\<lambda>there.
           if there then io_bind (io_read SessionIo legacy) (from_profile_bytes E K J sh rq i profile)
           else io_fail NoSession))
       else io_fail NoSession))"

definition ensure_cmk :: "ext \<Rightarrow> request \<Rightarrow> client_session \<Rightarrow> client_session" where
  "ensure_cmk E rq s = (case se_cmk s of
      Some c \<Rightarrow> s
    | None \<Rightarrow> s\<lparr>se_cmk := Some (b64_encode E (rand rq 70 32))\<rparr>)"

definition cmk_bytes :: "ext \<Rightarrow> client_session \<Rightarrow> bytes option" where
  "cmk_bytes E s = (case se_cmk s of
      None \<Rightarrow> None
    | Some c \<Rightarrow> (case b64_decode E c of None \<Rightarrow> None | Some b \<Rightarrow> if length b = 32 then Some b else None))"

definition save_encrypted ::
    "ext \<Rightarrow> ops_ext \<Rightarrow> session_codec \<Rightarrow> shell \<Rightarrow> request \<Rightarrow> string \<Rightarrow> string \<Rightarrow> client_session \<Rightarrow> (client_error, unit) io" where
  "save_encrypted E K J sh rq profile passphrase s =
     (case seal_profile E K (rand rq 60 16) (rand rq 61 12) passphrase (session_print J s) of
        Inl e \<Rightarrow> io_fail (ClientCred e)
      | Inr ep \<Rightarrow>
        (case profile_kek E K ep passphrase of
           Inl e \<Rightarrow> io_fail (ClientCred e)
         | Inr kek \<Rightarrow>
             io_bind (io_lift (path_for sh profile)) (\<lambda>path.
             io_bind (io_do (WriteFile path (profile_print J ep) (sh_new_mode sh))) (\<lambda>_.
             io_bind (io_do (Chmod path owner_only)) (\<lambda>_.
             io_bind (io_ignore (agent_store E (cred_of J) sh rq profile kek DEFAULT_AGENT_TTL_SECS)) (\<lambda>_.
               write_active_pointer sh profile))))))"

definition clear_named :: "shell \<Rightarrow> string \<Rightarrow> (client_error, bool) io" where
  "clear_named sh profile =
     io_bind (io_lift (path_for sh profile)) (\<lambda>path.
     io_bind (io_exists path) (\<lambda>there.
     io_bind (if there then io_do (RemoveFile path) else io_return ()) (\<lambda>_.
       if profile \<noteq> ''default'' then io_return there
       else
         io_bind (io_lift (legacy_path sh)) (\<lambda>legacy.
         io_bind (io_exists legacy) (\<lambda>old.
         io_bind (if old then io_do (RemoveFile legacy) else io_return ()) (\<lambda>_. io_return (there \<or> old)))))))"

section \<open>Commands\<close>

definition io_ok :: "('x, 'a) io \<Rightarrow> ('e, 'a option) io" where
  "io_ok c d = (case c d of (Inl e, ops) \<Rightarrow> (Inr None, ops) | (Inr x, ops) \<Rightarrow> (Inr (Some x), ops))"

definition bundle_session :: "login_bundle \<Rightarrow> string option \<Rightarrow> client_session" where
  "bundle_session b server_override =
     \<lparr>se_server = (case server_override of Some s \<Rightarrow> s | None \<Rightarrow> (case lb_server b of None \<Rightarrow> [] | Some s \<Rightarrow> s)),
      se_token = lb_token b, se_cert = lb_cert b, se_key = lb_key b, se_ca = lb_ca b, se_cmk = None\<rparr>"

definition complete_bundle :: "client_session \<Rightarrow> bool" where
  "complete_bundle s \<longleftrightarrow> se_server s \<noteq> [] \<and> se_token s \<noteq> None \<and> se_cert s \<noteq> None \<and> se_key s \<noteq> None \<and> se_ca s \<noteq> None"

text \<open>
  Login: \<open>whoami\<close> is the answer of the server to the session, the name and the private domain of
  the client. The prompt of \<open>load_named\<close> is the first of the command.
\<close>

definition cmd_login ::
    "ext \<Rightarrow> ops_ext \<Rightarrow> session_codec \<Rightarrow> (client_session \<Rightarrow> (string \<times> string option) option) \<Rightarrow> shell \<Rightarrow> request
      \<Rightarrow> login_bundle \<Rightarrow> string option \<Rightarrow> string option \<Rightarrow> (client_error, unit) io" where
  "cmd_login E K J whoami sh rq b server_override profile_override =
     (let s = bundle_session b server_override
      in if \<not> complete_bundle s then io_fail ClientConfig
         else
           (case whoami s of
              None \<Rightarrow> io_fail ClientHttp
            | Some (name, user_domain) \<Rightarrow>
              (let profile = (case profile_override of Some p \<Rightarrow> p | None \<Rightarrow> name)
               in io_bind (io_ok (load_named E K J sh rq 0 profile)) (\<lambda>existing.
                    (let carried = (case existing of None \<Rightarrow> None | Some x \<Rightarrow> se_cmk x)
                     in case resolve_passphrase sh 1 None (carried = None) of
                          Inl e \<Rightarrow> io_fail ClientConfig
                        | Inr pass \<Rightarrow>
                            io_bind (save_encrypted E K J sh rq profile pass (ensure_cmk E rq (s\<lparr>se_cmk := carried\<rparr>))) (\<lambda>_.
                            \<lambda>d. (case user_domain of
                                  None \<Rightarrow> io_return () d
                                | Some ud \<Rightarrow>
                                    if read_domain_pref sh profile d = None then write_domain_pref sh profile ud d
                                    else io_return () d)))))))"

text \<open>The sealed profile of the active profile.\<close>

definition read_sealed :: "session_codec \<Rightarrow> shell \<Rightarrow> string \<Rightarrow> (client_error, string \<times> encrypted_profile) io" where
  "read_sealed J sh profile =
     io_bind (io_lift (map_err ClientConfig (path_for sh profile))) (\<lambda>path.
     io_bind (io_read ClientConfig path) (\<lambda>b.
     io_bind (io_lift (ok_or ClientConfig (profile_parse J b))) (\<lambda>ep. io_return (path, ep))))"

definition cmd_unlock ::
    "ext \<Rightarrow> ops_ext \<Rightarrow> session_codec \<Rightarrow> shell \<Rightarrow> request \<Rightarrow> string \<Rightarrow> nat \<Rightarrow> (client_error, unit) io" where
  "cmd_unlock E K J sh rq profile ttl_minutes = io_bind (read_sealed J sh profile) (\<lambda>(path, ep).
     (case resolve_passphrase sh 0 None False of
        Inl e \<Rightarrow> io_fail (ClientCred e)
      | Inr pass \<Rightarrow>
        (case profile_kek E K ep pass of
           Inl e \<Rightarrow> io_fail ClientConfig
         | Inr kek \<Rightarrow>
           (case open_with_kek E ep kek of
              Inl e \<Rightarrow> io_fail ClientConfig
            | Inr inner \<Rightarrow>
                \<lambda>d. (case agent_store E (cred_of J) sh rq profile kek (min (ttl_minutes * 60) (2 ^ 64 - 1)) d of
                       (Inl e, ops) \<Rightarrow> (Inl ClientConfig, ops)
                     | (Inr u, ops) \<Rightarrow> (Inr (), ops))))))"

definition cmd_lock :: "shell \<Rightarrow> request \<Rightarrow> string \<Rightarrow> (client_error, bool) io" where
  "cmd_lock sh rq profile = agent_clear sh rq profile"

definition cmd_logout :: "shell \<Rightarrow> request \<Rightarrow> string \<Rightarrow> (client_error, bool) io" where
  "cmd_logout sh rq profile = io_bind (agent_clear sh rq profile) (\<lambda>_. clear_named sh profile)"

definition flag_or_env :: "shell \<Rightarrow> string option \<Rightarrow> string \<Rightarrow> string option" where
  "flag_or_env sh flag var = (case nonempty flag of Some p \<Rightarrow> Some p | None \<Rightarrow> nonempty (sh_env sh var))"

definition passphrase_or ::
    "shell \<Rightarrow> nat \<Rightarrow> string option \<Rightarrow> string \<Rightarrow> bool \<Rightarrow> client_error + string" where
  "passphrase_or sh i flag var confirm = (case flag_or_env sh flag var of
      Some p \<Rightarrow> Inr p
    | None \<Rightarrow> (case resolve_passphrase sh i None confirm of Inl e \<Rightarrow> Inl (ClientCred e) | Inr p \<Rightarrow> Inr p))"

definition cmd_passphrase ::
    "ext \<Rightarrow> ops_ext \<Rightarrow> session_codec \<Rightarrow> shell \<Rightarrow> request \<Rightarrow> string \<Rightarrow> string option \<Rightarrow> string option \<Rightarrow> (client_error, unit) io" where
  "cmd_passphrase E K J sh rq profile old new = io_bind (read_sealed J sh profile) (\<lambda>(path, ep).
     io_bind (io_lift (passphrase_or sh 0 old ''BLACKBOOK_OLD_PASSPHRASE'' False)) (\<lambda>old_pp.
     io_bind (io_lift (map_err ClientConfig (open_with_passphrase E K ep old_pp))) (\<lambda>inner.
     io_bind (io_lift (passphrase_or sh 1 new ''BLACKBOOK_NEW_PASSPHRASE'' True)) (\<lambda>new_pp.
       if new_pp = old_pp then io_fail ClientConfig
       else
         io_bind (io_lift (map_err ClientConfig (seal_profile E K (rand rq 60 16) (rand rq 61 12) new_pp inner))) (\<lambda>sealed.
           (let tmp = with_extension path ''json.tmp''
            in io_bind (io_do (WriteFile tmp (profile_print J sealed) (sh_new_mode sh))) (\<lambda>_.
               io_bind (io_do (Rename tmp path)) (\<lambda>_.
                 (case profile_kek E K sealed new_pp of
                    Inl e \<Rightarrow> io_return ()
                  | Inr kek \<Rightarrow> io_ignore (agent_store E (cred_of J) sh rq profile kek DEFAULT_AGENT_TTL_SECS))))))))))"

definition cmd_profile_use ::
    "ext \<Rightarrow> ops_ext \<Rightarrow> session_codec \<Rightarrow> shell \<Rightarrow> request \<Rightarrow> string \<Rightarrow> (client_error, unit) io" where
  "cmd_profile_use E K J sh rq name = io_bind (io_ok (load_named E K J sh rq 0 name)) (\<lambda>s.
     (case s of None \<Rightarrow> io_fail ClientConfig | Some x \<Rightarrow> write_active_pointer sh name))"

definition cmd_profile_rm :: "shell \<Rightarrow> string \<Rightarrow> bool \<Rightarrow> (client_error, bool) io" where
  "cmd_profile_rm sh name confirmed = (if confirmed then clear_named sh name else io_return False)"

section \<open>What a profile carries\<close>

text \<open>Authenticated encryption: a ciphertext opens to nothing but what was sealed, whatever the key.\<close>

definition gcm_bound :: "ext \<Rightarrow> bool" where
  "gcm_bound E \<longleftrightarrow> (\<forall>k k' n a m c m'. gcm_encrypt E k n a m = Some c \<longrightarrow> gcm_decrypt E k' n a c = Some m' \<longrightarrow> m' = m)"

lemma aead_bound:
  assumes "gcm_bound E" and "length n = 12" and "aead_seal E n m k = Inr c" and "aead_open E c k' = Inr m'"
  shows "m' = m"
proof -
  obtain x where "gcm_encrypt E k n [] m = Some x" "c = n @ x"
    using assms(3) by (auto simp: aead_seal_def aead_seal_nonce_def elim!: and_then_InrE split: if_splits)
  then show ?thesis using assms(1,2,4) unfolding gcm_bound_def
    by (auto simp: aead_open_def split: if_splits)
qed

definition profile_carries :: "ext \<Rightarrow> ops_ext \<Rightarrow> session_codec \<Rightarrow> string \<Rightarrow> string \<Rightarrow> disk \<Rightarrow> bool" where
  "profile_carries E K J path cmk d \<longleftrightarrow>
     (\<exists>f ep salt nonce pass inner s. d path = Some f \<and> profile_parse J (contents_of f) = Some ep \<and> length nonce = 12 \<and> pass \<noteq> []
        \<and> seal_profile E K salt nonce pass inner = Inr ep \<and> session_parse J inner = Some s \<and> se_cmk s = Some cmk)"

lemma sealed_bound:
  assumes "gcm_bound E" and "b64_law E" and "length nonce = 12" and "seal_profile E K salt nonce pass inner = Inr ep"
    and "open_with_kek E ep kek = Inr inner'"
  shows "inner' = inner"
  using assms aead_bound [OF assms(1,3)]
  by (fastforce simp: seal_profile_def open_with_kek_def b64_law_def elim!: and_then_InrE)

definition profile_file :: "string \<Rightarrow> string \<Rightarrow> string" where
  "profile_file h p = path_join (path_join (path_join h ''.bbk'') ''profiles'') (p @ ''.json'')"

lemma profile_file_inject [simp]: "profile_file h p = profile_file h q \<longleftrightarrow> p = q"
  by (simp add: profile_file_def)

lemma profile_paths:
  assumes "sh_home sh = Some h"
  shows "path_for sh p = Inr (profile_file h p)"
    and "agent_path sh q \<noteq> Inr (profile_file h p)"
    and "active_pointer_path sh \<noteq> Inr (profile_file h p)"
    and "domain_pointer_path sh q \<noteq> Inr (profile_file h p)"
    and "legacy_path sh \<noteq> Inr (profile_file h p)"
  using assms
  by (auto simp: profile_file_def path_for_def bbk_dir_def agent_path_def agent_dir_def active_pointer_path_def domain_pointer_path_def
      legacy_path_def path_join_def
      split: if_splits)

lemma spares_lift_bind: "(\<And>x. r = Inr x \<Longrightarrow> spares p (f x)) \<Longrightarrow> spares p (io_bind (io_lift r) f)"
  by (rule sparesI) (auto simp: io_bind_def io_simps split: sum.splits prod.splits dest: sparesD)

lemma spares_prompt:
  assumes "sh_home sh = Some h"
  shows "spares (profile_file h p) (open_with_prompt E K J sh rq i q ep)"
  unfolding open_with_prompt_def
  by (auto intro!: spares_intros spares_agent [OF profile_paths(2) [OF assms]] split: sum.splits)

lemma spares_load:
  assumes "sh_home sh = Some h"
  shows "spares (profile_file h p) (load_named E K J sh rq i q)"
proof -
  have "spares (profile_file h p) (from_profile_bytes E K J sh rq i q b)" for b
    unfolding from_profile_bytes_def
    by (auto intro!: spares_intros spares_prompt [OF assms] spares_agent [OF profile_paths(2) [OF assms]] split: option.splits sum.splits)
  then show ?thesis unfolding load_named_def by (auto intro!: spares_intros)
qed

lemma spares_pointer:
  assumes "sh_home sh = Some h"
  shows "spares (profile_file h p) (write_active_pointer sh name)" "spares (profile_file h p) (write_domain_pref sh q dn)"
  unfolding write_active_pointer_def write_domain_pref_def
  using profile_paths(3) [OF assms, of p] profile_paths(4) [OF assms, of q p] by (auto intro!: spares_lift_bind spares_do)

lemma spares_ok: "spares p c \<Longrightarrow> spares p (io_ok c)"
  by (rule sparesI) (auto simp: io_ok_def split: prod.splits sum.splits dest: sparesD)

lemma spares_unlock:
  assumes "sh_home sh = Some h"
  shows "spares (profile_file h p) (cmd_unlock E K J sh rq q ttl)"
proof -
  have "spares (profile_file h p) (\<lambda>d. case agent_store E (cred_of J) sh rq q kek n d of
      (Inl e, ops) \<Rightarrow> (Inl ClientConfig, ops) | (Inr u, ops) \<Rightarrow> (Inr (), ops))" for kek n
    by (rule sparesI) (auto split: prod.splits sum.splits dest: sparesD [OF spares_agent(1) [OF profile_paths(2) [OF assms]]])
  then show ?thesis unfolding cmd_unlock_def read_sealed_def by (auto intro!: spares_intros split: prod.splits sum.splits)
qed

text \<open>A load finds the client master key that the profile carries, and the right passphrase always loads.\<close>

lemma load_found:
  assumes "sh_home sh = Some h" and "d (profile_file h p) = Some f"
  shows "load_named E K J sh rq i p d = from_profile_bytes E K J sh rq i p (contents_of f) d"
  using assms by (simp add: load_named_def profile_paths(1) io_bind_def io_simps io_read_def split: prod.splits)

lemma load_carries:
  assumes "gcm_bound E" and "b64_law E" and "sh_home sh = Some h" and "profile_carries E K J (profile_file h p) cmk d"
    and "load_named E K J sh rq i p d = (Inr s, ops)"
  shows "se_cmk s = Some cmk"
proof -
  obtain f ep salt nonce pass inner s0 where c: "d (profile_file h p) = Some f" "profile_parse J (contents_of f) = Some ep"
    "length nonce = 12" "seal_profile E K salt nonce pass inner = Inr ep" "session_parse J inner = Some s0" "se_cmk s0 = Some cmk"
    using assms(4) by (auto simp: profile_carries_def)
  note b = sealed_bound [OF assms(1,2) c(3,4)]
  have "ep_v ep = 2" using c(4) by (auto simp: seal_profile_def elim!: and_then_InrE)
  have p: "s = s0" if "open_with_prompt E K J sh rq i p ep d' = (Inr s, ops')" for d' ops'
    using that b c(5) by (auto simp: open_with_prompt_def io_bind_def io_simps io_ignore_def parse_session_def split: sum.splits prod.splits)
  have "from_profile_bytes E K J sh rq i p (contents_of f) d = (Inr s, ops)"
    using assms(5) load_found [OF assms(3), of d p f] c(1) by simp
  then have "s = s0" using p b c(2,5) \<open>ep_v ep = 2\<close>
    by (auto simp: from_profile_bytes_def io_bind_def io_simps parse_session_def split: sum.splits prod.splits option.splits)
  with c(6) show ?thesis by simp
qed

lemma load_with_passphrase:
  assumes "gcm_law E" and "gcm_bound E" and "b64_law E" and "profile_carries E K J (profile_file h p) cmk d"
  shows "\<exists>pass. pass \<noteq> [] \<and> (\<forall>sh rq i. sh_home sh = Some h \<longrightarrow> sh_env sh ''BLACKBOOK_PASSPHRASE'' = Some pass \<longrightarrow>
    (\<exists>s ops. load_named E K J sh rq i p d = (Inr s, ops) \<and> se_cmk s = Some cmk))"
proof -
  obtain f ep salt nonce pass inner s0 where c: "d (profile_file h p) = Some f" "profile_parse J (contents_of f) = Some ep"
    "length nonce = 12" "seal_profile E K salt nonce pass inner = Inr ep" "session_parse J inner = Some s0" "se_cmk s0 = Some cmk" "pass \<noteq> []"
    using assms(4) by (auto simp: profile_carries_def)
  obtain kek where k: "profile_kek E K ep pass = Inr kek" "open_with_kek E ep kek = Inr inner"
    by (rule seal_profile_opens [OF assms(1,3) c(3,4)])
  have v: "ep_v ep = 2" using c(4) by (auto simp: seal_profile_def elim!: and_then_InrE)
  have "\<exists>ops. load_named E K J sh rq i p d = (Inr s0, ops)"
    if sh: "sh_home sh = Some h" "sh_env sh ''BLACKBOOK_PASSPHRASE'' = Some pass" for sh rq i
  proof -
    have pr: "\<exists>ops. open_with_prompt E K J sh rq i p ep d' = (Inr s0, ops)" for d'
      using sh(2) c(5,7) k
      by (simp add: open_with_prompt_def resolve_passphrase_def io_bind_def io_simps io_ignore_def parse_session_def)
    obtain cached ops where a: "agent_get E (cred_of J) sh rq p d = (Inr cached :: client_error + bytes option, ops)"
      by (meson agent_get_ok)
    obtain ops' where o: "open_with_prompt E K J sh rq i p ep (fs_run ops d) = (Inr s0, ops')" using pr by blast
    have l: "load_named E K J sh rq i p d = from_profile_bytes E K J sh rq i p (contents_of f) d"
      using load_found [OF sh(1), of d p f] c(1) by simp
    show ?thesis
    proof (cases cached)
      case None
      then show ?thesis using a c(2) v o by (simp add: l from_profile_bytes_def io_bind_def)
    next
      case (Some kek')
      show ?thesis
      proof (cases "open_with_kek E ep kek'")
        case (Inl e)
        then show ?thesis using Some a c(2) v o by (simp add: l from_profile_bytes_def io_bind_def)
      next
        case (Inr x)
        then have "x = inner" using sealed_bound [OF assms(2,3) c(3,4)] by simp
        then show ?thesis using Inr Some a c(2,5) v by (simp add: l from_profile_bytes_def io_bind_def io_simps parse_session_def)
      qed
    qed
  qed
  note loads = this
  have "\<exists>s ops. load_named E K J sh rq i p d = (Inr s, ops) \<and> se_cmk s = Some cmk"
    if "sh_home sh = Some h" "sh_env sh ''BLACKBOOK_PASSPHRASE'' = Some pass" for sh rq i
    using loads [OF that, of rq i] c(6) by auto
  then show ?thesis using c(7) by (intro exI [of _ pass]) simp
qed

section \<open>Commands on a profile\<close>

lemma carries_cong: "d' path = d path \<Longrightarrow> profile_carries E K J path cmk d \<Longrightarrow> profile_carries E K J path cmk d'"
  by (simp add: profile_carries_def)

lemma resolve_nonempty: "resolve_passphrase sh i x c = Inr pass \<Longrightarrow> pass \<noteq> []"
  by (auto simp: resolve_passphrase_def nonempty_def split: option.splits if_splits)

lemma passphrase_or_nonempty: "passphrase_or sh i x v c = Inr pass \<Longrightarrow> pass \<noteq> []"
  by (auto simp: passphrase_or_def flag_or_env_def nonempty_def dest: resolve_nonempty split: option.splits if_splits sum.splits)

lemma carriesI:
  assumes "session_codec_law J" and "map_option contents_of (d path) = Some (profile_print J ep)" and "length nonce = 12"
    and "pass \<noteq> []" and "seal_profile E K salt nonce pass inner = Inr ep" and "session_parse J inner = Some s" and "se_cmk s = Some cmk"
  shows "profile_carries E K J path cmk d"
proof -
  obtain f where "d path = Some f" "contents_of f = profile_print J ep" using assms(2) by auto
  then show ?thesis using assms(3-7) session_codec_laws(1) [OF assms(1)]
    unfolding profile_carries_def
    by (intro exI [of _ f] exI [of _ ep] exI [of _ salt] exI [of _ nonce] exI [of _ pass] exI [of _ inner] exI [of _ s]) simp
qed

text \<open>
  Saving: whatever part of it has been done, the file is the old one or the new one, unless the
  cut is in the middle of the write of the file itself.
\<close>

lemma save_prefix:
  assumes "session_codec_law J" and "sh_home sh = Some h" and "pass \<noteq> []" and "se_cmk s = Some cmk"
    and "save_encrypted E K J sh rq p pass s d = (r, ops)"
  shows "\<not> tears (profile_file h p) k j ops \<Longrightarrow> fs_cut k j ops d (profile_file h p) = d (profile_file h p)
    \<or> profile_carries E K J (profile_file h p) cmk (fs_cut k j ops d)"
    and "r = Inr () \<Longrightarrow> profile_carries E K J (profile_file h p) cmk (fs_run ops d)"
proof -
  have "(\<not> tears (profile_file h p) k j ops \<longrightarrow> fs_cut k j ops d (profile_file h p) = d (profile_file h p)
      \<or> profile_carries E K J (profile_file h p) cmk (fs_cut k j ops d))
    \<and> (r = Inr () \<longrightarrow> profile_carries E K J (profile_file h p) cmk (fs_run ops d))"
  proof (cases "seal_profile E K (rand rq 60 16) (rand rq 61 12) pass (session_print J s)")
    case (Inl e)
    then show ?thesis using assms(5) by (auto simp: save_encrypted_def io_simps)
  next
    case (Inr ep)
    let ?path = "profile_file h p"
    let ?rest = "\<lambda>kek. io_bind (io_ignore (agent_store E (cred_of J) sh rq p kek DEFAULT_AGENT_TTL_SECS)) (\<lambda>_. write_active_pointer sh p)"
    show ?thesis
    proof (cases "profile_kek E K ep pass")
      case (Inl e)
      then show ?thesis using assms(5) Inr by (auto simp: save_encrypted_def io_simps)
    next
      case (Inr kek)
      let ?w = "WriteFile ?path (profile_print J ep) (sh_new_mode sh)"
      define d1 where "d1 = fs_apply (Chmod ?path owner_only) (fs_apply ?w d)"
      obtain r' ops' where rest: "?rest kek d1 = (r', ops')" by force
      have ops: "ops = ?w # Chmod ?path owner_only # ops'"
        using assms(5) \<open>seal_profile _ _ _ _ _ _ = Inr ep\<close> Inr rest profile_paths(1) [OF assms(2)]
        by (simp add: save_encrypted_def io_bind_def io_simps d1_def split: prod.splits sum.splits)
      have sp: "spares ?path (?rest kek)"
        by (intro spares_intros spares_pointer [OF assms(2)] spares_agent [OF profile_paths(2) [OF assms(2)]])
      have new: "profile_carries E K J ?path cmk d'" if n: "map_option contents_of (d' ?path) = Some (profile_print J ep)" for d'
        using assms(3,4) \<open>seal_profile _ _ _ _ _ _ = Inr ep\<close> session_codec_laws(2) [OF assms(1)]
        by (intro carriesI [OF assms(1), of d' ?path ep "rand rq 61 12" pass _ _ "rand rq 60 16" "session_print J s" s] n) simp_all
      have d1: "profile_carries E K J ?path cmk (fs_cut i j ops' d1)" "profile_carries E K J ?path cmk (fs_run ops' d1)" for i
      proof -
        have at: "map_option contents_of (d1 ?path) = Some (profile_print J ep)" by (simp add: d1_def)
        show "profile_carries E K J ?path cmk (fs_cut i j ops' d1)" using at cut_spared [OF sp rest, of i j] by (intro new) simp
        show "profile_carries E K J ?path cmk (fs_run ops' d1)" using at spared(2) [OF sp rest] by (intro new) simp
      qed
      have one: "profile_carries E K J ?path cmk (fs_apply ?w d)" by (rule new) simp
      have "fs_cut k j ops d ?path = d ?path \<or> profile_carries E K J ?path cmk (fs_cut k j ops d)" if nt: "\<not> tears ?path k j ops"
      proof -
        consider "k = 0" "j = None" | "k = 1" | i where "k = Suc (Suc i)"
          using nt unfolding ops by (cases k; cases j; cases "k - 1") auto
        then show ?thesis
        proof cases
          case 2
          then show ?thesis using one by (cases j) (simp_all add: ops)
        next
          case (3 i)
          then have "fs_cut k j ops d = fs_cut i j ops' d1" by (simp add: ops d1_def)
          then show ?thesis using d1(1) by simp
        qed simp
      qed
      then show ?thesis using d1(2) by (simp add: ops d1_def)
    qed
  qed
  then show "\<not> tears (profile_file h p) k j ops \<Longrightarrow> fs_cut k j ops d (profile_file h p) = d (profile_file h p)
    \<or> profile_carries E K J (profile_file h p) cmk (fs_cut k j ops d)"
    and "r = Inr () \<Longrightarrow> profile_carries E K J (profile_file h p) cmk (fs_run ops d)" by blast+
qed

text \<open>A new passphrase, at every point of its work.\<close>

lemma tmp_apart: "with_extension (profile_file h p) ''json.tmp'' \<noteq> profile_file h q"
proof
  assume "with_extension (profile_file h p) ''json.tmp'' = profile_file h q"
  then have "last (with_extension (profile_file h p) ''json.tmp'') = last (profile_file h q)" by simp
  then show False by (simp add: with_extension_def profile_file_def Let_def)
qed

lemma spares_passphrase:
  assumes "sh_home sh = Some h" and "q \<noteq> p"
  shows "spares (profile_file h q) (cmd_passphrase E K J sh rq p old new)"
proof -
  have path: "path = profile_file h p" if "read_sealed J sh p d = (Inr (path, ep), ops)" for path ep d ops
    using that profile_paths(1) [OF assms(1)]
    by (auto simp: read_sealed_def io_bind_def io_simps map_err_def split: sum.splits prod.splits)
  show ?thesis
    unfolding cmd_passphrase_def Let_def
  proof (rule spares_bind_result)
    show "spares (profile_file h q) (read_sealed J sh p)" unfolding read_sealed_def by (intro spares_intros)
  next
    fix d x ops
    assume "read_sealed J sh p d = (Inr x, ops)"
    then have "fst x = profile_file h p" using path by (cases x) auto
    then show "spares (profile_file h q) (case x of (path, ep) \<Rightarrow>
     io_bind (io_lift (passphrase_or sh 0 old ''BLACKBOOK_OLD_PASSPHRASE'' False)) (\<lambda>old_pp.
     io_bind (io_lift (map_err ClientConfig (open_with_passphrase E K ep old_pp))) (\<lambda>inner.
     io_bind (io_lift (passphrase_or sh 1 new ''BLACKBOOK_NEW_PASSPHRASE'' True)) (\<lambda>new_pp.
       if new_pp = old_pp then io_fail ClientConfig
       else
         io_bind (io_lift (map_err ClientConfig (seal_profile E K (rand rq 60 16) (rand rq 61 12) new_pp inner))) (\<lambda>sealed.
           io_bind (io_do (WriteFile (with_extension path ''json.tmp'') (profile_print J sealed) (sh_new_mode sh))) (\<lambda>_.
           io_bind (io_do (Rename (with_extension path ''json.tmp'') path)) (\<lambda>_.
             (case profile_kek E K sealed new_pp of
                Inl e \<Rightarrow> io_return ()
              | Inr kek \<Rightarrow> io_ignore (agent_store E (cred_of J) sh rq p kek DEFAULT_AGENT_TTL_SECS)))))))))"
      using assms(2) tmp_apart [of h p q]
      by (cases x) (auto intro!: spares_intros spares_agent [OF profile_paths(2) [OF assms(1)]] split: sum.splits)
  qed
qed

lemma passphrase_ops:
  assumes "sh_home sh = Some h" and "d (profile_file h p) = Some f" and "profile_parse J (contents_of f) = Some ep"
    and "cmd_passphrase E K J sh rq p old new d = (r, ops)"
  obtains "ops = []" | old_pp x new_pp sealed ops' r' where "open_with_passphrase E K ep old_pp = Inr x"
    "passphrase_or sh 1 new ''BLACKBOOK_NEW_PASSPHRASE'' True = Inr new_pp"
    "seal_profile E K (rand rq 60 16) (rand rq 61 12) new_pp x = Inr sealed"
    "ops = [WriteFile (with_extension (profile_file h p) ''json.tmp'') (profile_print J sealed) (sh_new_mode sh),
      Rename (with_extension (profile_file h p) ''json.tmp'') (profile_file h p)] @ ops'"
    "(case profile_kek E K sealed new_pp of Inl e \<Rightarrow> io_return ()
       | Inr kek \<Rightarrow> io_ignore (agent_store E (cred_of J) sh rq p kek DEFAULT_AGENT_TTL_SECS))
      (fs_run [WriteFile (with_extension (profile_file h p) ''json.tmp'') (profile_print J sealed) (sh_new_mode sh),
        Rename (with_extension (profile_file h p) ''json.tmp'') (profile_file h p)] d) = (r' :: client_error + unit, ops')"
proof -
  have rd: "read_sealed J sh p d = (Inr (profile_file h p, ep), [])"
    using assms(2,3) profile_paths(1) [OF assms(1)] by (simp add: read_sealed_def io_bind_def io_simps io_read_def)
  note run = assms(4) [unfolded cmd_passphrase_def io_bind_def [of "read_sealed J sh p"] rd]
  show thesis
  proof (cases "passphrase_or sh 0 old ''BLACKBOOK_OLD_PASSPHRASE'' False")
    case (Inl e)
    then show thesis using run that(1) by (simp add: io_bind_def io_simps)
  next
    case A: (Inr old_pp)
    show thesis
    proof (cases "open_with_passphrase E K ep old_pp")
      case (Inl e)
      then show thesis using run A that(1) by (simp add: io_bind_def io_simps map_err_def)
    next
      case B: (Inr x)
      show thesis
      proof (cases "passphrase_or sh 1 new ''BLACKBOOK_NEW_PASSPHRASE'' True")
        case (Inl e)
        then show thesis using run A B that(1) by (simp add: io_bind_def io_simps map_err_def)
      next
        case C: (Inr new_pp)
        show thesis
        proof (cases "new_pp = old_pp")
          case True
          then show thesis using run A B C that(1) by (simp add: io_bind_def io_simps map_err_def)
        next
          case False
          show thesis
          proof (cases "seal_profile E K (rand rq 60 16) (rand rq 61 12) new_pp x")
            case (Inl e)
            then show thesis using run A B C False that(1) by (simp add: io_bind_def io_simps map_err_def)
          next
            case D: (Inr sealed)
            show thesis using run A B C D False by (intro that(2) [OF B C D _ surjective_pairing])
              (simp add: io_bind_def io_simps map_err_def Let_def prod_eq_iff split: prod.splits)
          qed
        qed
      qed
    qed
  qed
qed

lemma passphrase_prefix:
  assumes "gcm_law E" and "gcm_bound E" and "b64_law E" and "session_codec_law J" and "sh_home sh = Some h"
    and "cmd_passphrase E K J sh rq p old new d = (r, ops)" and "profile_carries E K J (profile_file h q) cmk d"
  shows "profile_carries E K J (profile_file h q) cmk (fs_cut k j ops d)"
proof (cases "q = p")
  case False
  from cut_spared [OF spares_passphrase [OF assms(5) False] assms(6)] assms(7) show ?thesis
    by (rule carries_cong [of "fs_cut k j ops d" "profile_file h q" d])
next
  case True
  let ?path = "profile_file h p" and ?tmp = "with_extension (profile_file h p) ''json.tmp''"
  obtain f ep salt nonce pass inner s where c: "d ?path = Some f" "profile_parse J (contents_of f) = Some ep"
    "length nonce = 12" "seal_profile E K salt nonce pass inner = Inr ep" "session_parse J inner = Some s" "se_cmk s = Some cmk" "pass \<noteq> []"
    using assms(7) True by (auto simp: profile_carries_def)
  show ?thesis
  proof (rule passphrase_ops [OF assms(5) c(1,2) assms(6)])
    assume "ops = []"
    then show ?thesis using assms(7) by simp
  next
    fix old_pp x new_pp sealed ops' and r' :: "client_error + unit"
    assume 2: "open_with_passphrase E K ep old_pp = Inr x"
      "passphrase_or sh 1 new ''BLACKBOOK_NEW_PASSPHRASE'' True = Inr new_pp"
      "seal_profile E K (rand rq 60 16) (rand rq 61 12) new_pp x = Inr sealed"
      "ops = [WriteFile ?tmp (profile_print J sealed) (sh_new_mode sh), Rename ?tmp ?path] @ ops'"
      "(case profile_kek E K sealed new_pp of Inl e \<Rightarrow> io_return ()
         | Inr kek \<Rightarrow> io_ignore (agent_store E (cred_of J) sh rq p kek DEFAULT_AGENT_TTL_SECS))
        (fs_run [WriteFile ?tmp (profile_print J sealed) (sh_new_mode sh), Rename ?tmp ?path] d) = (r', ops')"
    have "x = inner" using 2(1) sealed_bound [OF assms(2,3) c(3,4)] by (auto simp: open_with_passphrase_def elim!: and_then_InrE)
    define d1 where "d1 = fs_run [WriteFile ?tmp (profile_print J sealed) (sh_new_mode sh), Rename ?tmp ?path] d"
    have sp: "spares ?path ((case profile_kek E K sealed new_pp of Inl e \<Rightarrow> io_return ()
       | Inr kek \<Rightarrow> io_ignore (agent_store E (cred_of J) sh rq p kek DEFAULT_AGENT_TTL_SECS)) :: (client_error, unit) io)"
      by (auto intro!: spares_intros spares_agent [OF profile_paths(2) [OF assms(5)]] split: sum.splits)
    have "fs_cut i j ops' d1 ?path = d1 ?path" for i by (rule cut_spared [OF sp 2(5) [folded d1_def]])
    moreover have "map_option contents_of (d1 ?path) = Some (profile_print J sealed)"
      using not_sym [OF tmp_apart [of h p p]] by (simp add: d1_def)
    ultimately have n: "profile_carries E K J ?path cmk (fs_cut i j ops' d1)" for i
      using passphrase_or_nonempty [OF 2(2)] 2(3) \<open>x = inner\<close> c(5,6)
      by (intro carriesI [OF assms(4), of _ _ sealed "rand rq 61 12" new_pp _ _ "rand rq 60 16" inner s]) simp_all
    let ?w = "WriteFile ?tmp (profile_print J sealed) (sh_new_mode sh)"
    have ops: "ops = ?w # Rename ?tmp ?path # ops'" using 2(4) by simp
    have old: "profile_carries E K J ?path cmk d'" if "d' ?path = d ?path" for d'
      using that assms(7) True by (auto intro: carries_cong [of d' ?path d])
    have tmp: "?path \<noteq> ?tmp" using tmp_apart [of h p p] by simp
    consider "k = 0" | "k = 1" | i where "k = Suc (Suc i)" by (cases k; cases "k - 1") auto
    then show ?thesis
    proof cases
      case 1
      have "fs_cut k j ops d ?path = d ?path" using tmp 1 by (cases j) (simp_all add: ops)
      then show ?thesis using old True by simp
    next
      case 2
      have "fs_cut k j ops d ?path = d ?path" using tmp 2 by (cases j) (simp_all add: ops)
      then show ?thesis using old True by simp
    next
      case 3
      then show ?thesis using n [of i] True by (simp add: ops d1_def)
    qed
  qed
qed

lemma spares_save:
  assumes "sh_home sh = Some h" and "q \<noteq> p"
  shows "spares (profile_file h q) (save_encrypted E K J sh rq p pass s)"
  unfolding save_encrypted_def using assms(2)
  by (auto intro!: spares_intros spares_lift_bind spares_pointer [OF assms(1)] spares_agent [OF profile_paths(2) [OF assms(1)]]
      simp: profile_paths(1) [OF assms(1)] split: sum.splits)

lemma spares_pref:
  assumes "sh_home sh = Some h"
  shows "spares (profile_file h q) (\<lambda>d. case user_domain of None \<Rightarrow> io_return () d
    | Some ud \<Rightarrow> if read_domain_pref sh p d = None then write_domain_pref sh p ud d else io_return () d)"
  by (rule sparesI) (auto simp: io_simps dest: sparesD [OF spares_pointer(2) [OF assms]] split: option.splits if_splits)

text \<open>The name of the profile that a login saves.\<close>

definition login_profile ::
    "(client_session \<Rightarrow> (string \<times> string option) option) \<Rightarrow> login_bundle \<Rightarrow> string option \<Rightarrow> string option \<Rightarrow> string option" where
  "login_profile whoami b server_override profile_override =
     (case whoami (bundle_session b server_override) of
        None \<Rightarrow> None
      | Some (name, ud) \<Rightarrow> Some (case profile_override of Some p \<Rightarrow> p | None \<Rightarrow> name))"

lemma login_spares:
  assumes "sh_home sh = Some h" and "login_profile whoami b so po \<noteq> Some q"
  shows "spares (profile_file h q) (cmd_login E K J whoami sh rq b so po)"
proof (cases "whoami (bundle_session b so)")
  case None
  then show ?thesis by (auto simp: cmd_login_def Let_def spares_basic)
next
  case (Some x)
  obtain name ud where x: "x = (name, ud)" by (cases x)
  let ?p = "case po of Some p \<Rightarrow> p | None \<Rightarrow> name"
  have "q \<noteq> ?p" using assms(2) Some x by (simp add: login_profile_def)
  then show ?thesis unfolding cmd_login_def Let_def Some x
    by (auto intro!: spares_intros spares_ok spares_load [OF assms(1)] spares_save [OF assms(1)] spares_pref [OF assms(1)]
        split: sum.splits)
qed

text \<open>The part of a login after the old profile has been looked at.\<close>

lemma login_rest:
  assumes "session_codec_law J" and "sh_home sh = Some h" and "se_cmk s = Some cmk" and "pass \<noteq> []"
  shows "cut_safe (profile_file h p) (\<lambda>x. profile_carries E K J (profile_file h p) cmk x \<or> x (profile_file h p) = d (profile_file h p))
    (io_bind (save_encrypted E K J sh rq p pass s) (\<lambda>_. \<lambda>d. case user_domain of None \<Rightarrow> io_return () d
      | Some ud \<Rightarrow> if read_domain_pref sh p d = None then write_domain_pref sh p ud d else io_return () d))
    d (\<lambda>_. profile_carries E K J (profile_file h p) cmk)"
proof (rule cut_safe_bind)
  obtain r ops where sv: "save_encrypted E K J sh rq p pass s d = (r, ops)" by force
  note save = save_prefix [OF assms(1,2,4,3) sv]
  show "cut_safe (profile_file h p) (\<lambda>x. profile_carries E K J (profile_file h p) cmk x \<or> x (profile_file h p) = d (profile_file h p))
    (save_encrypted E K J sh rq p pass s) d (\<lambda>_. profile_carries E K J (profile_file h p) cmk)"
    using save(1,2) sv by (auto simp: cut_safe_def)
next
  fix x d'
  assume c: "profile_carries E K J (profile_file h p) cmk d'"
  have "profile_carries E K J (profile_file h p) cmk d''" if "d'' (profile_file h p) = d' (profile_file h p)" for d''
    using that c by (rule carries_cong [of d'' "profile_file h p" d'])
  then show "cut_safe (profile_file h p) (\<lambda>x. profile_carries E K J (profile_file h p) cmk x \<or> x (profile_file h p) = d (profile_file h p))
    (\<lambda>d. case user_domain of None \<Rightarrow> io_return () d
      | Some ud \<Rightarrow> if read_domain_pref sh p d = None then write_domain_pref sh p ud d else io_return () d)
    d' (\<lambda>_. profile_carries E K J (profile_file h p) cmk)"
    using spared(2) [OF spares_pref [OF assms(2)] prod.collapse [symmetric], where d = d']
      cut_spared [OF spares_pref [OF assms(2)] prod.collapse [symmetric], where d = d'] by (simp add: cut_safe_def)
qed

text \<open>A login over a profile that could be opened, and one over a profile that could not.\<close>

lemma login_run:
  assumes "login_profile whoami b so po = Some p" and "load_named E K J sh rq 0 p d = (x, ops0)"
    and "carried = (case x of Inl e \<Rightarrow> None | Inr s \<Rightarrow> se_cmk s)"
    and "cmd_login E K J whoami sh rq b so po d = (r, ops)"
  obtains "ops = ops0 \<or> ops = []" "isl r" | pass ud ops1 where "resolve_passphrase sh 1 None (carried = None) = Inr pass"
    "io_bind (save_encrypted E K J sh rq p pass (ensure_cmk E rq ((bundle_session b so)\<lparr>se_cmk := carried\<rparr>)))
       (\<lambda>_. \<lambda>d. case ud of None \<Rightarrow> io_return () d
         | Some u \<Rightarrow> if read_domain_pref sh p d = None then write_domain_pref sh p u d else io_return () d)
       (fs_run ops0 d) = (r, ops1)" "ops = ops0 @ ops1"
proof -
  obtain name ud where w: "whoami (bundle_session b so) = Some (name, ud)" "(case po of Some p \<Rightarrow> p | None \<Rightarrow> name) = p"
    using assms(1) by (auto simp: login_profile_def split: option.splits)
  have ok: "io_ok (load_named E K J sh rq 0 p) d
    = ((Inr (case x of Inl e \<Rightarrow> None | Inr s \<Rightarrow> Some s) :: client_error + client_session option), ops0)"
    using assms(2) by (simp add: io_ok_def split: sum.splits)
  have c: "(case (case x of Inl e \<Rightarrow> None | Inr s \<Rightarrow> Some s) of None \<Rightarrow> None | Some s \<Rightarrow> se_cmk s) = carried"
    using assms(3) by (simp split: sum.splits)
  show thesis
  proof (cases "complete_bundle (bundle_session b so)")
    case False
    then show thesis using assms(4) that(1) by (auto simp: cmd_login_def Let_def io_simps)
  next
    case True
    note run = assms(4) [unfolded cmd_login_def Let_def w(1) option.case prod.case w(2) io_bind_def [of "io_ok (load_named E K J sh rq 0 p)"] ok sum.case c]
    show thesis
    proof (cases "resolve_passphrase sh 1 None (carried = None)")
      case (Inl e)
      then show thesis using run True that(1) by (auto simp: io_simps ok c)
    next
      case (Inr pass)
      obtain r1 ops1 where rest: "io_bind (save_encrypted E K J sh rq p pass (ensure_cmk E rq ((bundle_session b so)\<lparr>se_cmk := carried\<rparr>)))
       (\<lambda>_. \<lambda>d. case ud of None \<Rightarrow> io_return () d
         | Some u \<Rightarrow> if read_domain_pref sh p d = None then write_domain_pref sh p u d else io_return () d)
       (fs_run ops0 d) = (r1, ops1)" by force
      have "r = r1" "ops = ops0 @ ops1" using run True rest Inr by (auto simp: ok c)
      then show thesis using that(2) [OF Inr] rest by simp
    qed
  qed
qed

text \<open>
  A login over a profile keeps its client master key, at every point of its work, when the old
  profile could be opened; the very first login creates one.
\<close>

lemma login_prefix:
  assumes "gcm_bound E" and "b64_law E" and "session_codec_law J" and "sh_home sh = Some h"
    and "profile_carries E K J (profile_file h q) cmk d" and "cmd_login E K J whoami sh rq b so po d = (r, ops)"
    and "login_profile whoami b so po = Some q \<Longrightarrow> \<not> isl (fst (load_named E K J sh rq 0 q d))"
    and "\<not> tears (profile_file h q) k j ops"
  shows "profile_carries E K J (profile_file h q) cmk (fs_cut k j ops d)"
proof (cases "login_profile whoami b so po = Some q")
  case False
  from cut_spared [OF login_spares [OF assms(4) False] assms(6)] assms(5) show ?thesis
    by (rule carries_cong [of "fs_cut k j ops d" "profile_file h q" d])
next
  case True
  obtain s ops0 where l: "load_named E K J sh rq 0 q d = (Inr s, ops0)"
    using assms(7) [OF True] by (cases "load_named E K J sh rq 0 q d"; cases "fst (load_named E K J sh rq 0 q d)") auto
  have s: "se_cmk s = Some cmk" by (rule load_carries [OF assms(1,2,4,5) l])
  let ?path = "profile_file h q"
  have l0: "fs_cut i j ops0 d ?path = d ?path" "fs_run ops0 d ?path = d ?path" for i
    by (rule cut_spared [OF spares_load [OF assms(4)] l] spared(2) [OF spares_load [OF assms(4)] l])+
  have keep: "profile_carries E K J ?path cmk d'" if "d' ?path = d ?path" for d'
    using that assms(5) by (rule carries_cong [of d' ?path d])
  show ?thesis
  proof (rule login_run [OF True l _ assms(6), of "Some cmk"])
    show "Some cmk = (case Inr s of Inl e \<Rightarrow> None | Inr s \<Rightarrow> se_cmk s)" using s by simp
  next
    assume "ops = ops0 \<or> ops = []"
    then show ?thesis using keep l0 assms(5) by auto
  next
    fix pass ud ops1
    let ?rest = "io_bind (save_encrypted E K J sh rq q pass (ensure_cmk E rq ((bundle_session b so)\<lparr>se_cmk := Some cmk\<rparr>)))
       (\<lambda>_. \<lambda>d. case ud of None \<Rightarrow> io_return () d
         | Some u \<Rightarrow> if read_domain_pref sh q d = None then write_domain_pref sh q u d else io_return () d)"
    assume 2: "resolve_passphrase sh 1 None (Some cmk = None) = Inr pass" "?rest (fs_run ops0 d) = (r, ops1)" "ops = ops0 @ ops1"
    have "se_cmk (ensure_cmk E rq ((bundle_session b so)\<lparr>se_cmk := Some cmk\<rparr>)) = Some cmk" by (simp add: ensure_cmk_def)
    from login_rest [OF assms(3,4) this resolve_nonempty [OF 2(1)], where E = E and K = K and p = q and rq = rq and user_domain = ud and d = "fs_run ops0 d"] 2(2)
    have n: "profile_carries E K J ?path cmk (fs_cut i j ops1 (fs_run ops0 d))
      \<or> fs_cut i j ops1 (fs_run ops0 d) ?path = fs_run ops0 d ?path" if "\<not> tears ?path i j ops1" for i
      using that by (simp add: cut_safe_def)
    show ?thesis
    proof (cases "k < length ops0")
      case True
      then show ?thesis using keep l0 2(3) by (simp add: fs_cut_append)
    next
      case False
      then have "\<not> tears ?path (k - length ops0) j ops1" using assms(8) by (simp add: 2(3) tears_append)
      from n [OF this] show ?thesis
        using False keep [of "fs_cut (k - length ops0) j ops1 (fs_run ops0 d)"] l0(2) by (auto simp: 2(3) fs_cut_append)
    qed
  qed
qed

lemma first_login:
  assumes "session_codec_law J" and "sh_home sh = Some h" and "login_profile whoami b so po = Some p"
    and "load_named E K J sh rq 0 p d = (Inl e, ops0)" and "cmd_login E K J whoami sh rq b so po d = (Inr u, ops)"
  shows "profile_carries E K J (profile_file h p) (b64_encode E (rand rq 70 32)) (fs_run ops d)"
proof (rule login_run [OF assms(3,4) _ assms(5), of None])
  show "None = (case Inl e of Inl e \<Rightarrow> None | Inr s \<Rightarrow> se_cmk s)" by simp
next
  assume "isl (Inr u :: client_error + unit)"
  then show ?thesis by simp
next
  fix pass ud ops1
  assume 2: "resolve_passphrase sh 1 None (None = (None :: string option)) = Inr pass"
    "io_bind (save_encrypted E K J sh rq p pass (ensure_cmk E rq ((bundle_session b so)\<lparr>se_cmk := None\<rparr>)))
       (\<lambda>_. \<lambda>d. case ud of None \<Rightarrow> io_return () d
         | Some u \<Rightarrow> if read_domain_pref sh p d = None then write_domain_pref sh p u d else io_return () d) (fs_run ops0 d) = (Inr u, ops1)"
    "ops = ops0 @ ops1"
  have "se_cmk (ensure_cmk E rq ((bundle_session b so)\<lparr>se_cmk := None\<rparr>)) = Some (b64_encode E (rand rq 70 32))"
    by (simp add: ensure_cmk_def)
  from login_rest [OF assms(1,2) this resolve_nonempty [OF 2(1)], where E = E and K = K and p = p and rq = rq and user_domain = ud and d = "fs_run ops0 d"] 2(2) 2(3)
  show ?thesis by (simp add: cut_safe_def)
qed

lemma save_succeeds:
  assumes "gcm_law E" and "b64_law E" and "sh_home sh = Some h"
    and "seal_profile E K (rand rq 60 16) (rand rq 61 12) pass (session_print J s) = Inr ep"
  shows "\<exists>ops. save_encrypted E K J sh rq p pass s d = (Inr (), ops)"
proof -
  obtain kek where "profile_kek E K ep pass = Inr kek"
    using seal_profile_opens [OF assms(1,2) length_rand assms(4)] by blast
  then show ?thesis
    using assms(4) by (simp add: save_encrypted_def io_bind_def io_simps profile_paths(1) [OF assms(3)] io_ignore_def
        write_active_pointer_def active_pointer_path_def bbk_dir_def assms(3) split: prod.splits)
qed

lemma save_writes:
  assumes "sh_home sh = Some h" and "save_encrypted E K J sh rq p pass s d = (Inr u, ops)"
  obtains b m ops' where "ops = WriteFile (profile_file h p) b m # ops'"
proof -
  have "\<exists>b m ops'. ops = WriteFile (profile_file h p) b m # ops'"
    using assms(2) by (auto simp: save_encrypted_def io_bind_def io_simps profile_paths(1) [OF assms(1)] split: sum.splits prod.splits)
  then show thesis using that by blast
qed

text \<open>When a login goes through.\<close>

lemma login_succeeds:
  assumes "gcm_law E" and "b64_law E" and "sh_home sh = Some h" and "complete_bundle (bundle_session b so)"
    and "login_profile whoami b so po = Some p" and "load_named E K J sh rq 0 p d = (Inl e, ops0)"
    and "resolve_passphrase sh 1 None True = Inr pass"
    and "\<forall>inner. \<exists>ep. seal_profile E K (rand rq 60 16) (rand rq 61 12) pass inner = Inr ep"
  shows "\<exists>ops. cmd_login E K J whoami sh rq b so po d = (Inr (), ops)"
proof -
  obtain name ud where w: "whoami (bundle_session b so) = Some (name, ud)" "(case po of Some p \<Rightarrow> p | None \<Rightarrow> name) = p"
    using assms(5) by (auto simp: login_profile_def split: option.splits)
  have ok: "io_ok (load_named E K J sh rq 0 p) d = ((Inr None :: client_error + client_session option), ops0)"
    using assms(6) by (simp add: io_ok_def)
  let ?s = "ensure_cmk E rq ((bundle_session b so)\<lparr>se_cmk := None\<rparr>)"
  obtain ops1 where sv: "save_encrypted E K J sh rq p pass ?s (fs_run ops0 d) = (Inr (), ops1)"
    using assms(8) save_succeeds [OF assms(1-3)] by metis
  have pref: "\<exists>ops. write_domain_pref sh p dn d' = (Inr (), ops)" for dn d'
    by (simp add: write_domain_pref_def domain_pointer_path_def bbk_dir_def assms(3) io_bind_def io_simps)
  have "\<exists>ops. (case ud of None \<Rightarrow> io_return () d'
      | Some u \<Rightarrow> if read_domain_pref sh p d' = None then write_domain_pref sh p u d' else io_return () d')
      = ((Inr () :: client_error + unit), ops)" for d'
    using pref by (simp add: io_simps split: option.split)
  then obtain ops2 where "(case ud of None \<Rightarrow> io_return () (fs_run ops1 (fs_run ops0 d))
      | Some u \<Rightarrow> if read_domain_pref sh p (fs_run ops1 (fs_run ops0 d)) = None
          then write_domain_pref sh p u (fs_run ops1 (fs_run ops0 d)) else io_return () (fs_run ops1 (fs_run ops0 d)))
      = ((Inr () :: client_error + unit), ops2)" by blast
  with sv show ?thesis
    unfolding cmd_login_def Let_def w(1) option.case prod.case w(2) io_bind_def [of "io_ok (load_named E K J sh rq 0 p)"] ok sum.case
    using assms(4,7) by (simp add: ok io_bind_def)
qed

lemma login_writes:
  assumes "sh_home sh = Some h" and "login_profile whoami b so po = Some p"
    and "cmd_login E K J whoami sh rq b so po d = (Inr u, ops)"
  obtains k where "tears (profile_file h p) k (Some 0) ops"
proof -
  obtain x ops0 where l: "load_named E K J sh rq 0 p d = (x, ops0)" by force
  show thesis
  proof (rule login_run [OF assms(2) l refl assms(3)])
    assume "isl (Inr u :: client_error + unit)"
    then show thesis by simp
  next
    fix pass ud ops1
    let ?s = "ensure_cmk E rq ((bundle_session b so)\<lparr>se_cmk := (case x of Inl e \<Rightarrow> None | Inr s \<Rightarrow> se_cmk s)\<rparr>)"
    assume r: "io_bind (save_encrypted E K J sh rq p pass ?s)
        (\<lambda>_. \<lambda>d. case ud of None \<Rightarrow> io_return () d
          | Some u \<Rightarrow> if read_domain_pref sh p d = None then write_domain_pref sh p u d else io_return () d)
        (fs_run ops0 d) = (Inr u, ops1)" "ops = ops0 @ ops1"
    from r(1) obtain y ops2 ops3 where y: "save_encrypted E K J sh rq p pass ?s (fs_run ops0 d) = (Inr y, ops2)" "ops1 = ops2 @ ops3"
      by (rule io_bind_InrE)
    from y(1) obtain c m ops4 where "ops2 = WriteFile (profile_file h p) c m # ops4" by (rule save_writes [OF assms(1)])
    then have "tears (profile_file h p) (length ops0) (Some 0) ops" using r(2) y(2) by (simp add: tears_def)
    then show thesis by (rule that)
  qed
qed

lemma cut_truncated:
  assumes "tears p k (Some 0) ops"
  obtains m where "fs_cut k (Some 0) ops d p = Some \<lparr>contents_of = [], mode_of = m\<rparr>"
proof -
  obtain b m' ops' where "drop k ops = WriteFile p b m' # ops'"
    using assms by (auto simp: tears_def split: list.splits fs_op.splits)
  then show thesis using that by (simp add: fs_cut_def)
qed

section \<open>Sequences of commands\<close>

lemma spares_clear:
  assumes "sh_home sh = Some h" and "q \<noteq> p"
  shows "spares (profile_file h q) (clear_named sh p)"
  unfolding clear_named_def using assms(2) profile_paths(5) [OF assms(1), of q]
  by (auto intro!: spares_lift_bind spares_intros simp: profile_paths(1) [OF assms(1)])

lemma spares_commands:
  assumes "sh_home sh = Some h"
  shows "spares (profile_file h q) (cmd_lock sh rq p)"
    and "spares (profile_file h q) (cmd_profile_use E K J sh rq p)"
    and "q \<noteq> p \<Longrightarrow> spares (profile_file h q) (cmd_logout sh rq p)"
    and "q \<noteq> p \<Longrightarrow> spares (profile_file h q) (cmd_profile_rm sh p c)"
proof -
  show "spares (profile_file h q) (cmd_lock sh rq p)"
    unfolding cmd_lock_def by (rule spares_agent(3) [OF profile_paths(2) [OF assms]])
  show "spares (profile_file h q) (cmd_profile_use E K J sh rq p)"
    unfolding cmd_profile_use_def
    by (auto intro!: spares_intros spares_ok spares_load [OF assms] spares_pointer [OF assms] split: option.splits)
  assume "q \<noteq> p"
  then show "spares (profile_file h q) (cmd_logout sh rq p)" "spares (profile_file h q) (cmd_profile_rm sh p c)"
    unfolding cmd_logout_def cmd_profile_rm_def
    by (auto intro!: spares_intros spares_clear [OF assms] spares_agent(3) [OF profile_paths(2) [OF assms]])
qed

text \<open>
  What happens to the home directory \<open>h\<close> while the profile \<open>q\<close> is in use: commands, complete or cut
  off at any point, in the middle of a write too, and changes to other files. A login to \<open>q\<close> is one
  over a profile that can be opened, and is not cut off in the middle of its write of \<open>q\<close>, which
  \<open>save_encrypted\<close> does in place; \<open>q\<close> is not logged out or removed.
\<close>

inductive profile_step :: "ext \<Rightarrow> ops_ext \<Rightarrow> session_codec \<Rightarrow> string \<Rightarrow> string \<Rightarrow> disk \<Rightarrow> disk \<Rightarrow> bool"
  for E K J h q where
  Load: "sh_home sh = Some h \<Longrightarrow> profile_step E K J h q d (fs_cut k j (snd (load_named E K J sh rq i p d)) d)"
| Unlock: "sh_home sh = Some h \<Longrightarrow> profile_step E K J h q d (fs_cut k j (snd (cmd_unlock E K J sh rq p ttl d)) d)"
| Lock: "sh_home sh = Some h \<Longrightarrow> profile_step E K J h q d (fs_cut k j (snd (cmd_lock sh rq p d)) d)"
| Use: "sh_home sh = Some h \<Longrightarrow> profile_step E K J h q d (fs_cut k j (snd (cmd_profile_use E K J sh rq p d)) d)"
| Passphrase: "sh_home sh = Some h \<Longrightarrow>
    profile_step E K J h q d (fs_cut k j (snd (cmd_passphrase E K J sh rq p old new d)) d)"
| Login: "sh_home sh = Some h \<Longrightarrow>
    login_profile whoami b so po = Some q \<longrightarrow> \<not> isl (fst (load_named E K J sh rq 0 q d)) \<Longrightarrow>
    \<not> tears (profile_file h q) k j (snd (cmd_login E K J whoami sh rq b so po d)) \<Longrightarrow>
    profile_step E K J h q d (fs_cut k j (snd (cmd_login E K J whoami sh rq b so po d)) d)"
| Logout: "sh_home sh = Some h \<Longrightarrow> q \<noteq> p \<Longrightarrow> profile_step E K J h q d (fs_cut k j (snd (cmd_logout sh rq p d)) d)"
| Remove: "sh_home sh = Some h \<Longrightarrow> q \<noteq> p \<Longrightarrow> profile_step E K J h q d (fs_cut k j (snd (cmd_profile_rm sh p c d)) d)"
| Elsewhere: "d' (profile_file h q) = d (profile_file h q) \<Longrightarrow> profile_step E K J h q d d'"

lemma carries_spared:
  assumes "spares path c" and "profile_carries E K J path cmk d"
  shows "profile_carries E K J path cmk (fs_cut k j (snd (c d)) d)"
  using cut_spared [OF assms(1) prod.collapse [symmetric]] assms(2) by (rule carries_cong [of "fs_cut k j (snd (c d)) d" path d])

lemma profile_step_carries:
  assumes "profile_step E K J h q d d'" and "gcm_law E" and "gcm_bound E" and "b64_law E" and "session_codec_law J"
    and "profile_carries E K J (profile_file h q) cmk d"
  shows "profile_carries E K J (profile_file h q) cmk d'"
  using assms(1)
proof cases
  case (Load sh k j rq i p)
  then show ?thesis using carries_spared [OF spares_load assms(6)] by simp
next
  case (Unlock sh k j rq p ttl)
  then show ?thesis using carries_spared [OF spares_unlock assms(6)] by simp
next
  case (Lock sh k j rq p)
  then show ?thesis using carries_spared [OF spares_commands(1) assms(6)] by simp
next
  case (Use sh k j rq p)
  then show ?thesis using carries_spared [OF spares_commands(2) assms(6)] by simp
next
  case (Passphrase sh k j rq p old new)
  from passphrase_prefix [OF assms(2-5) Passphrase(2) prod.collapse [symmetric] assms(6)] Passphrase(1) show ?thesis by simp
next
  case (Login sh whoami b so po k j rq)
  from login_prefix [OF assms(3-5) Login(2) assms(6) prod.collapse [symmetric] _ Login(4)] Login(1,3) show ?thesis by simp
next
  case (Logout sh p k j rq)
  then show ?thesis using carries_spared [OF spares_commands(3) assms(6)] by simp
next
  case (Remove sh p k j c)
  then show ?thesis using carries_spared [OF spares_commands(4) assms(6)] by simp
next
  case Elsewhere
  then show ?thesis using assms(6) by (rule carries_cong [of d' "profile_file h q" d])
qed

interpretation cmk_kept: step_invariant "profile_step E K J h q"
  "\<lambda>d. gcm_law E \<and> gcm_bound E \<and> b64_law E \<and> session_codec_law J \<and> profile_carries E K J (profile_file h q) cmk d"
  for E K J h q cmk
  by unfold_locales (use profile_step_carries in blast)

lemma cmk_bytes_encoded: "b64_law E \<Longrightarrow> length b = 32 \<Longrightarrow> se_cmk s = Some (b64_encode E b) \<Longrightarrow> cmk_bytes E s = Some b"
  by (simp add: cmk_bytes_def b64_law_def)

section \<open>Properties\<close>

text \<open>
  C21. The client master key survives: after the first login to a profile, whatever sequence of
  commands follows, complete or killed at any point, in the middle of a write of a file included,
  which does not remove the profile, logs in again only over a profile that opens and is not
  killed in the middle of such a login's write of the profile itself (which is done in place),
  there is a passphrase with which the profile can be loaded, and every load that succeeds yields
  the client master key of the first login.
\<close>

theorem cmk_survives:
  assumes "gcm_law E" and "gcm_bound E" and "b64_law E" and "session_codec_law J" and "sh_home sh = Some h"
    and "login_profile whoami b so po = Some p" and "load_named E K J sh rq 0 p d0 = (Inl NoSession, ops0)"
    and "cmd_login E K J whoami sh rq b so po d0 = (Inr u, ops)"
    and "rtranclp (profile_step E K J h p) (fs_run ops d0) d"
  shows "(\<exists>pass. pass \<noteq> [] \<and> (\<forall>sh' rq' i. sh_home sh' = Some h \<longrightarrow> sh_env sh' ''BLACKBOOK_PASSPHRASE'' = Some pass \<longrightarrow>
        \<not> isl (fst (load_named E K J sh' rq' i p d))))
    \<and> (\<forall>sh' rq' i s ops'. sh_home sh' = Some h \<longrightarrow> load_named E K J sh' rq' i p d = (Inr s, ops') \<longrightarrow>
        cmk_bytes E s = Some (rand rq 70 32))"
proof -
  have c: "profile_carries E K J (profile_file h p) (b64_encode E (rand rq 70 32)) d"
    using cmk_kept.steps_keep [OF assms(9)] first_login [OF assms(4-8)] assms(1-4) by blast
  from load_with_passphrase [OF assms(1-3) c] obtain pass where pass: "pass \<noteq> []"
    "\<forall>sh' rq' i. sh_home sh' = Some h \<longrightarrow> sh_env sh' ''BLACKBOOK_PASSPHRASE'' = Some pass \<longrightarrow>
      (\<exists>s ops. load_named E K J sh' rq' i p d = (Inr s, ops) \<and> se_cmk s = Some (b64_encode E (rand rq 70 32)))"
    by blast
  show ?thesis
  proof (intro conjI exI [of _ pass] allI impI)
    show "pass \<noteq> []" by (rule pass(1))
    show "\<not> isl (fst (load_named E K J sh' rq' i p d))"
      if "sh_home sh' = Some h" "sh_env sh' ''BLACKBOOK_PASSPHRASE'' = Some pass" for sh' rq' i
      using pass(2) [rule_format, OF that, of rq' i] by auto
    show "cmk_bytes E s = Some (rand rq 70 32)"
      if "sh_home sh' = Some h" "load_named E K J sh' rq' i p d = (Inr s, ops')" for sh' rq' i s ops'
      by (rule cmk_bytes_encoded [OF assms(3) length_rand load_carries [OF assms(2,3) that(1) c that(2)]])
  qed
qed

text \<open>
  C26. A login over a profile that does not open replaces its client master key: whatever the reason
  for which the profile could not be loaded (a mistyped passphrase, say), a login with a complete
  bundle that the server accepts, with a passphrase at hand for the new profile and sealing under
  it possible, goes through without an error; afterwards some passphrase loads the profile, and
  every load that succeeds yields the key drawn by this login, whatever key the old profile had.
\<close>

theorem relogin_replaces_cmk:
  assumes "gcm_law E" and "gcm_bound E" and "b64_law E" and "session_codec_law J" and "sh_home sh = Some h"
    and "complete_bundle (bundle_session b so)" and "login_profile whoami b so po = Some p"
    and "load_named E K J sh rq 0 p d = (Inl e, ops0)" and "resolve_passphrase sh 1 None True = Inr pass"
    and "\<forall>inner. \<exists>ep. seal_profile E K (rand rq 60 16) (rand rq 61 12) pass inner = Inr ep"
  shows "\<exists>ops. cmd_login E K J whoami sh rq b so po d = (Inr (), ops)
    \<and> (\<exists>pass'. \<forall>sh' rq' i. sh_home sh' = Some h \<longrightarrow> sh_env sh' ''BLACKBOOK_PASSPHRASE'' = Some pass' \<longrightarrow>
         \<not> isl (fst (load_named E K J sh' rq' i p (fs_run ops d))))
    \<and> (\<forall>sh' rq' i s ops'. sh_home sh' = Some h \<longrightarrow> load_named E K J sh' rq' i p (fs_run ops d) = (Inr s, ops') \<longrightarrow>
         cmk_bytes E s = Some (rand rq 70 32))"
proof -
  obtain ops where l: "cmd_login E K J whoami sh rq b so po d = (Inr (), ops)"
    using login_succeeds [OF assms(1,3,5-10)] by blast
  note c = first_login [OF assms(4,5,7,8) l]
  obtain pass' where "\<forall>sh' rq' i. sh_home sh' = Some h \<longrightarrow> sh_env sh' ''BLACKBOOK_PASSPHRASE'' = Some pass' \<longrightarrow>
      (\<exists>s ops'. load_named E K J sh' rq' i p (fs_run ops d) = (Inr s, ops') \<and> se_cmk s = Some (b64_encode E (rand rq 70 32)))"
    using load_with_passphrase [OF assms(1-3) c] by blast
  then have "\<forall>sh' rq' i. sh_home sh' = Some h \<longrightarrow> sh_env sh' ''BLACKBOOK_PASSPHRASE'' = Some pass' \<longrightarrow>
      \<not> isl (fst (load_named E K J sh' rq' i p (fs_run ops d)))" by (metis fst_conv sum.disc(2))
  moreover have "cmk_bytes E s = Some (rand rq 70 32)"
    if "sh_home sh' = Some h" "load_named E K J sh' rq' i p (fs_run ops d) = (Inr s, ops')" for sh' rq' i s ops'
    by (rule cmk_bytes_encoded [OF assms(3) length_rand load_carries [OF assms(2,3) that(1) c that(2)]])
  ultimately show ?thesis using l by blast
qed

text \<open>
  C39. A login that is killed while it writes the profile loses the client master key: every login
  that goes through has a point, within its write of the profile, at which the file has been
  truncated and not yet written; when the process is killed there, the profile cannot be loaded
  any more with any passphrase, since neither form of a profile is an empty text.
\<close>

theorem torn_login_loses_cmk:
  assumes "sh_home sh = Some h" and "login_profile whoami b so po = Some p"
    and "cmd_login E K J whoami sh rq b so po d = (Inr u, ops)"
    and "profile_parse J [] = None" and "session_parse J [] = None"
  shows "\<exists>k. k < length ops \<and> (\<forall>sh' rq' i. sh_home sh' = Some h \<longrightarrow>
    load_named E K J sh' rq' i p (fs_cut k (Some 0) ops d) = (Inl ClientJson, []))"
proof -
  obtain k where k: "tears (profile_file h p) k (Some 0) ops" by (rule login_writes [OF assms(1-3)])
  obtain m where m: "fs_cut k (Some 0) ops d (profile_file h p) = Some \<lparr>contents_of = [], mode_of = m\<rparr>"
    by (rule cut_truncated [OF k])
  have "load_named E K J sh' rq' i p (fs_cut k (Some 0) ops d) = (Inl ClientJson, [])" if "sh_home sh' = Some h" for sh' rq' i
    using load_found [OF that, of "fs_cut k (Some 0) ops d" p, OF m] assms(4,5)
    by (simp add: from_profile_bytes_def parse_session_def io_simps)
  moreover have "k < length ops" using k by (rule_tac ccontr) (simp add: tears_def)
  ultimately show ?thesis by blast
qed

text \<open>
  An unlocked profile opens without a passphrase for exactly the time asked for: before it has
  passed every load succeeds and writes nothing, and afterwards a load with no passphrase at hand
  is refused and has deleted the cached key.
\<close>

theorem unlock_window:
  assumes "gcm_bound E" and "b64_law E" and "session_codec_law J" and "sh_home sh = Some h" and "sh_home sh' = Some h"
    and "profile_carries E K J (profile_file h p) cmk d" and "cmd_unlock E K J sh rq p ttl d = (Inr u, ops)"
    and "now_secs rq + ttl * 60 < 2 ^ 64"
  shows "if now_secs rq' < now_secs rq + ttl * 60
    then \<exists>s. load_named E K J sh' rq' i p (fs_run ops d) = (Inr s, []) \<and> se_cmk s = Some cmk
    else nonempty (sh_env sh' ''BLACKBOOK_PASSPHRASE'') = None \<longrightarrow> prompts_suppressed sh' \<longrightarrow>
      fst (load_named E K J sh' rq' i p (fs_run ops d)) = Inl (ClientCred CredNoPassphrase)
      \<and> agent_entry_of (cred_of J) sh' p (io_disk (load_named E K J sh' rq' i p) (fs_run ops d)) = None"
proof -
  let ?path = "profile_file h p" and ?agent = "path_join (path_join (path_join h ''.bbk'') ''agent'') p"
  obtain f ep salt nonce pass inner s0 where c: "d ?path = Some f" "profile_parse J (contents_of f) = Some ep"
    "length nonce = 12" "seal_profile E K salt nonce pass inner = Inr ep" "session_parse J inner = Some s0" "se_cmk s0 = Some cmk"
    using assms(6) by (auto simp: profile_carries_def)
  have v: "ep_v ep = 2" using c(4) by (auto simp: seal_profile_def elim!: and_then_InrE)
  have agent: "agent_path sh p = Inr ?agent" "agent_path sh' p = Inr ?agent"
    using assms(4,5) by (simp_all add: agent_path_def agent_dir_def)
  have rd: "read_sealed J sh p d = (Inr (?path, ep), [])"
    using c(1,2) profile_paths(1) [OF assms(4)] by (simp add: read_sealed_def io_bind_def io_simps io_read_def)
  obtain kek r where k: "open_with_kek E ep kek = Inr inner"
    "agent_store E (cred_of J) sh rq p kek (min (ttl * 60) (2 ^ 64 - 1)) d = (Inr r, ops)"
    using assms(7) rd sealed_bound [OF assms(1,2) c(3,4)]
    by (auto simp: cmd_unlock_def io_bind_def io_simps split: sum.splits prod.splits)
  have "min (ttl * 60) (2 ^ 64 - 1) = ttl * 60" using assms(8) by simp
  have len: "length kek = 32" using k(1) by (auto simp: open_with_kek_def aead_open_def elim!: and_then_InrE split: if_splits)
  have get: "agent_get E (cred_of J) sh' rq' p (fs_run ops d) =
    (if now_secs rq' < now_secs rq + ttl * 60 then (Inr (Some kek) :: client_error + bytes option, [])
     else (Inr None, snd (secure_delete () rq' 50 ?agent (fs_run ops d))))"
  proof -
    have "agent_get E (cred_of J) sh' rq' p (fs_run ops d)
      = (agent_get E (cred_of J) sh rq' p (fs_run ops d) :: (client_error + bytes option) \<times> fs_op list)"
      by (simp add: agent_get_def agent_entry_of_def agent)
    then show ?thesis
      using agent_stored [OF assms(2) session_codec_laws(3) [OF assms(3)] agent(1) len k(2), of "fs_run ops d" rq'] assms(8)
        \<open>min _ _ = _\<close> by simp
  qed
  have at: "fs_run ops d ?path = Some f"
    using spared(2) [OF spares_agent(1) [OF profile_paths(2) [OF assms(4)]] k(2)] c(1) by simp
  have load: "load_named E K J sh' rq' i p (fs_run ops d) = from_profile_bytes E K J sh' rq' i p (contents_of f) (fs_run ops d)"
    by (rule load_found [OF assms(5), of "fs_run ops d" p f, OF at])
  show ?thesis
  proof (cases "now_secs rq' < now_secs rq + ttl * 60")
    case True
    then show ?thesis using c(2,5,6) k(1) v get by (simp add: load from_profile_bytes_def io_bind_def io_simps parse_session_def)
  next
    case False
    let ?del = "snd (secure_delete () rq' 50 ?agent (fs_run ops d))"
    have "load_named E K J sh' rq' i p (fs_run ops d) = (Inl (ClientCred CredNoPassphrase), ?del)"
      if "nonempty (sh_env sh' ''BLACKBOOK_PASSPHRASE'') = None" "prompts_suppressed sh'"
      using False c(2) v get that
      by (simp add: load from_profile_bytes_def io_bind_def io_simps open_with_prompt_def resolve_passphrase_def)
    moreover have "fs_run ?del (fs_run ops d) ?agent = None"
      using secure_delete_removes [OF prod.collapse [symmetric], of "()" rq' 50 ?agent "fs_run ops d"] by simp
    ultimately show ?thesis using False by (simp add: agent_entry_of_def agent io_disk_def)
  qed
qed

section \<open>Witnesses\<close>

text \<open>Forms of the three records in unary numbers.\<close>

definition demo_profile_print :: "encrypted_profile \<Rightarrow> bytes" where
  "demo_profile_print p = unary (ep_v p # ep_m_cost p # ep_t_cost p # ep_p_cost p # put_str (ep_enc p) @ put_str (ep_salt p)
     @ put_str (ep_ct p))"

definition demo_profile_parse :: "bytes \<Rightarrow> encrypted_profile option" where
  "demo_profile_parse b = (if b = [] then None else
     case get_nat (ununary 0 b) of (v, ns) \<Rightarrow> case get_nat ns of (m, ns) \<Rightarrow> case get_nat ns of (t, ns) \<Rightarrow> case get_nat ns of (p, ns) \<Rightarrow>
      case get_str ns of (enc, ns) \<Rightarrow> case get_str ns of (salt, ns) \<Rightarrow> case get_str ns of (ct, ns) \<Rightarrow>
        Some \<lparr>ep_v = v, ep_enc = enc, ep_salt = salt, ep_m_cost = m, ep_t_cost = t, ep_p_cost = p, ep_ct = ct\<rparr>)"

definition demo_session_print :: "client_session \<Rightarrow> bytes" where
  "demo_session_print s = unary (put_str (se_server s) @ put_opt put_str (se_token s) @ put_opt put_str (se_cert s)
     @ put_opt put_str (se_key s) @ put_opt put_str (se_ca s) @ put_opt put_str (se_cmk s))"

definition demo_session_parse :: "bytes \<Rightarrow> client_session option" where
  "demo_session_parse b = (if b = [] then None else
     case get_str (ununary 0 b) of (server, ns) \<Rightarrow> case get_opt get_str ns of (token, ns) \<Rightarrow> case get_opt get_str ns of (cert, ns) \<Rightarrow>
      case get_opt get_str ns of (key, ns) \<Rightarrow> case get_opt get_str ns of (ca, ns) \<Rightarrow> case get_opt get_str ns of (cmk, ns) \<Rightarrow>
        Some \<lparr>se_server = server, se_token = token, se_cert = cert, se_key = key, se_ca = ca, se_cmk = cmk\<rparr>)"

definition demo_session_codec :: session_codec where
  "demo_session_codec = \<lparr>profile_print = demo_profile_print, profile_parse = demo_profile_parse,
     agent_print = (\<lambda>a. unary (ag_expires a # put_str (ag_kek a))),
     agent_parse = (\<lambda>b. case get_nat (ununary 0 b) of (e, ns) \<Rightarrow> Some \<lparr>ag_kek = fst (get_str ns), ag_expires = e\<rparr>),
     session_print = demo_session_print, session_parse = demo_session_parse\<rparr>"

lemma unary_nonempty: "ns \<noteq> [] \<Longrightarrow> unary ns \<noteq> []"
  by (cases ns) (simp_all add: unary_def)

lemma demo_session_codec_laws: "session_codec_law demo_session_codec"
  by (simp add: session_codec_law_def cred_codec_law_def cred_codec.defs demo_session_codec_def demo_profile_print_def
      demo_profile_parse_def demo_session_print_def demo_session_parse_def ununary_unary unary_nonempty put_str_def)

lemma demo_vault_laws: "gcm_law demo_vault_ext" "gcm_bound demo_vault_ext" "b64_law demo_vault_ext"
  by (auto simp: gcm_law_def gcm_bound_def b64_law_def demo_vault_ext_def demo_ext_def zeros_def split: if_splits)

definition demo_login :: login_bundle where
  "demo_login = \<lparr>lb_server = Some ''s'', lb_token = Some ''t'', lb_cert = Some ''c'', lb_key = Some ''k'', lb_ca = Some ''a''\<rparr>"

definition demo_shell :: "string option \<Rightarrow> shell" where
  "demo_shell pass = \<lparr>sh_env = [''BLACKBOOK_NO_PROMPT'' \<mapsto> ''1''](''BLACKBOOK_PASSPHRASE'' := pass), sh_home = Some ''/h'',
     sh_typed = Map.empty, sh_new_mode = 0x1A4\<rparr>"

definition demo_at :: "int \<Rightarrow> 8 word \<Rightarrow> request" where
  "demo_at t b = \<lparr>now = t * 1000000, entropy = (\<lambda>i. replicate 32 b)\<rparr>"

definition demo_whoami :: "client_session \<Rightarrow> (string \<times> string option) option" where
  "demo_whoami s = Some (''alice'', None)"

abbreviation demo_log_in :: "string \<Rightarrow> request \<Rightarrow> (client_error, unit) io" where
  "demo_log_in pass rq \<equiv> cmd_login demo_vault_ext demo_ops demo_session_codec demo_whoami (demo_shell (Some pass)) rq demo_login None None"

abbreviation demo_load :: "string option \<Rightarrow> request \<Rightarrow> (client_error, client_session) io" where
  "demo_load pass rq \<equiv> load_named demo_vault_ext demo_ops demo_session_codec (demo_shell pass) rq 0 ''alice''"

lemma demo_home [simp]: "sh_home (demo_shell pass) = Some ''/h''"
  "login_profile demo_whoami demo_login None None = Some ''alice''"
  by (simp_all add: demo_shell_def login_profile_def demo_whoami_def)

lemma demo_pass [simp]:
  "resolve_passphrase (demo_shell (Some (c # cs))) i None conf = Inr (c # cs)"
  "nonempty (sh_env (demo_shell None) ''BLACKBOOK_PASSPHRASE'') = None" "prompts_suppressed (demo_shell None)"
  by (simp_all add: resolve_passphrase_def demo_shell_def prompts_suppressed_def)

text \<open>The profile \<open>alice\<close>, sealed.\<close>

definition demo_stretch :: "string \<Rightarrow> bytes" where
  "demo_stretch pass = take 32 (as_bytes pass @ zeros 32)"

definition demo_sealed :: "string \<Rightarrow> request \<Rightarrow> bytes \<Rightarrow> encrypted_profile" where
  "demo_sealed pass rq inner = \<lparr>ep_v = 2, ep_enc = ''argon2id-aes256gcm'', ep_salt = str_of (rand rq 60 16), ep_m_cost = 64 * 1024,
     ep_t_cost = 3, ep_p_cost = 1, ep_ct = str_of (rand rq 61 12 @ inner @ take 16 (demo_stretch pass))\<rparr>"

lemma demo_sealing:
  "seal_profile demo_vault_ext demo_ops (rand rq 60 16) (rand rq 61 12) pass inner = Inr (demo_sealed pass rq inner)"
  "profile_kek demo_vault_ext demo_ops (demo_sealed pass rq inner) pass' = Inr (demo_stretch pass')"
  "open_with_kek demo_vault_ext (demo_sealed pass rq inner) (demo_stretch pass') =
     (if take 16 (demo_stretch pass) = take 16 (demo_stretch pass') then Inr inner else Inl CredDecrypt)"
proof -
  have arg: "argon2id demo_ops m t p (as_bytes x) salt = Some (demo_stretch x)" for m t p x salt
    by (simp add: demo_ops_def demo_stretch_def)
  have b64: "b64_encode demo_vault_ext = str_of" "b64_decode demo_vault_ext (str_of x) = Some x" for x
    by (simp_all add: demo_vault_ext_def demo_ext_def)
  have len: "length (demo_stretch x) = 32" for x by (simp add: demo_stretch_def zeros_def)
  show "seal_profile demo_vault_ext demo_ops (rand rq 60 16) (rand rq 61 12) pass inner = Inr (demo_sealed pass rq inner)"
    by (simp add: seal_profile_def derive_kek_def arg demo_aead [OF len] b64 demo_sealed_def)
  show "profile_kek demo_vault_ext demo_ops (demo_sealed pass rq inner) pass' = Inr (demo_stretch pass')"
    by (simp add: profile_kek_def derive_kek_def arg b64 demo_sealed_def)
  show "open_with_kek demo_vault_ext (demo_sealed pass rq inner) (demo_stretch pass') =
     (if take 16 (demo_stretch pass) = take 16 (demo_stretch pass') then Inr inner else Inl CredDecrypt)"
    using len [of pass'] len [of pass]
    by (simp add: open_with_kek_def b64 demo_sealed_def aead_open_def) (simp add: demo_vault_ext_def zeros_def map_err_def)
qed

definition demo_session :: client_session where
  "demo_session = (bundle_session demo_login None)\<lparr>se_cmk := Some (str_of (replicate 32 4))\<rparr>"

definition demo_home_disk :: disk where
  "demo_home_disk = [profile_file ''/h'' ''alice'' \<mapsto>
     \<lparr>contents_of = demo_profile_print (demo_sealed ''pw'' (demo_at 0 4) (demo_session_print demo_session)), mode_of = owner_only\<rparr>]"

lemma demo_parses: "profile_parse demo_session_codec (demo_profile_print ep) = Some ep"
  "session_parse demo_session_codec (demo_session_print s) = Some s"
  using session_codec_laws [OF demo_session_codec_laws] by (simp_all add: demo_session_codec_def)

lemma demo_carries:
  "profile_carries demo_vault_ext demo_ops demo_session_codec (profile_file ''/h'' ''alice'') (str_of (replicate 32 4)) demo_home_disk"
  by (rule carriesI [OF demo_session_codec_laws, of _ _ _ "rand (demo_at 0 4) 61 12" "''pw''" _ _ "rand (demo_at 0 4) 60 16"
        "demo_session_print demo_session" demo_session])
    (simp_all add: demo_sealing demo_home_disk_def demo_parses, simp_all add: demo_session_codec_def demo_session_def)

text \<open>A login when the profile is not there or does not open.\<close>

lemma demo_logs_in:
  assumes "demo_load (Some (c # cs)) rq d = (Inl e, ops0)"
  shows "\<exists>ops. demo_log_in (c # cs) rq d = (Inr (), ops)"
proof -
  have "io_ok (demo_load (Some (c # cs)) rq) d = (Inr None :: client_error + client_session option, ops0)"
    using assms by (simp add: io_ok_def)
  moreover have "complete_bundle (bundle_session demo_login None)"
    by (simp add: complete_bundle_def bundle_session_def demo_login_def)
  ultimately show ?thesis
    by (simp add: cmd_login_def Let_def demo_whoami_def io_bind_def save_encrypted_def demo_sealing profile_paths(1) [OF demo_home(1)]
        io_simps io_ignore_def write_active_pointer_def active_pointer_path_def bbk_dir_def split: prod.splits)
qed

theorem cmk_survives_witness:
  "\<exists>ops d. demo_log_in ''pw'' (demo_at 0 4) Map.empty = (Inr (), ops)
    \<and> profile_step demo_vault_ext demo_ops demo_session_codec ''/h'' ''alice'' (fs_run ops Map.empty) d
    \<and> (\<exists>pass. \<not> isl (fst (demo_load (Some pass) (demo_at 0 4) d)))"
proof -
  have none: "demo_load (Some ''pw'') (demo_at 0 4) Map.empty = (Inl NoSession, [])"
    by (simp add: load_named_def profile_paths(1) [OF demo_home(1)] io_bind_def io_simps)
  obtain ops where l: "demo_log_in ''pw'' (demo_at 0 4) Map.empty = (Inr (), ops)" using demo_logs_in [OF none] by blast
  let ?step = "profile_step demo_vault_ext demo_ops demo_session_codec ''/h'' ''alice''" and ?d = "fs_run ops Map.empty"
  let ?d' = "fs_cut 0 (Some 3) (snd (cmd_passphrase demo_vault_ext demo_ops demo_session_codec (demo_shell None) (demo_at 5 6)
    ''alice'' (Some ''pw'') (Some ''new'') ?d)) ?d"
  have s: "?step ?d ?d'" by (rule profile_step.Passphrase) simp
  then have "rtranclp ?step ?d ?d'" by blast
  from cmk_survives [OF demo_vault_laws demo_session_codec_laws demo_home(1) demo_home(2) none l this]
  obtain pass where "\<forall>sh' rq' i. sh_home sh' = Some ''/h'' \<longrightarrow> sh_env sh' ''BLACKBOOK_PASSPHRASE'' = Some pass \<longrightarrow>
    \<not> isl (fst (load_named demo_vault_ext demo_ops demo_session_codec sh' rq' i ''alice'' ?d'))" by blast
  then have "\<not> isl (fst (demo_load (Some pass) (demo_at 0 4) ?d'))" by (simp add: demo_shell_def)
  with l s show ?thesis by blast
qed

lemma demo_wrong_passphrase: "demo_load (Some ''typo'') (demo_at 9 7) demo_home_disk = (Inl (ClientCred CredDecrypt), [])"
proof -
  have at: "demo_home_disk (profile_file ''/h'' ''alice'') = Some \<lparr>contents_of =
      demo_profile_print (demo_sealed ''pw'' (demo_at 0 4) (demo_session_print demo_session)), mode_of = owner_only\<rparr>"
    by (simp add: demo_home_disk_def)
  have no: "agent_get demo_vault_ext (cred_of demo_session_codec) (demo_shell pass) rq ''alice'' demo_home_disk
      = (Inr None :: client_error + bytes option, [])" for pass rq
    using profile_paths(2) [OF demo_home(1), of pass "''alice''" "''alice''"]
    by (auto simp: agent_get_def agent_entry_of_def demo_home_disk_def split: sum.splits)
  have ne: "take 16 (demo_stretch ''pw'') \<noteq> take 16 (demo_stretch ''typo'')" by code_simp
  have "ep_v (demo_sealed pass rq inner) = 2" for pass rq inner by (simp add: demo_sealed_def)
  then show ?thesis using no ne
    by (simp add: load_found [OF demo_home(1), of demo_home_disk, OF at] from_profile_bytes_def demo_parses io_bind_def open_with_prompt_def
        demo_sealing io_simps)
qed

theorem relogin_replaces_cmk_witness:
  "profile_carries demo_vault_ext demo_ops demo_session_codec (profile_file ''/h'' ''alice'') (str_of (replicate 32 4)) demo_home_disk
    \<and> (\<exists>ops pass s ops'. demo_log_in ''typo'' (demo_at 9 7) demo_home_disk = (Inr (), ops)
      \<and> demo_load (Some pass) (demo_at 9 7) (fs_run ops demo_home_disk) = (Inr s, ops')
      \<and> cmk_bytes demo_vault_ext s = Some (replicate 32 7))"
proof -
  have b: "complete_bundle (bundle_session demo_login None)"
    by (simp add: complete_bundle_def bundle_session_def demo_login_def)
  have r: "resolve_passphrase (demo_shell (Some ''typo'')) 1 None True = Inr ''typo''" by simp
  have sl: "\<forall>inner. \<exists>ep. seal_profile demo_vault_ext demo_ops (rand (demo_at 9 7) 60 16) (rand (demo_at 9 7) 61 12) ''typo'' inner = Inr ep"
    using demo_sealing(1) by blast
  obtain ops pass where l: "demo_log_in ''typo'' (demo_at 9 7) demo_home_disk = (Inr (), ops)"
      and p: "\<forall>sh' rq' i. sh_home sh' = Some ''/h'' \<longrightarrow> sh_env sh' ''BLACKBOOK_PASSPHRASE'' = Some pass \<longrightarrow>
         \<not> isl (fst (load_named demo_vault_ext demo_ops demo_session_codec sh' rq' i ''alice'' (fs_run ops demo_home_disk)))"
      and c: "\<forall>sh' rq' i s ops'. sh_home sh' = Some ''/h'' \<longrightarrow>
         load_named demo_vault_ext demo_ops demo_session_codec sh' rq' i ''alice'' (fs_run ops demo_home_disk) = (Inr s, ops') \<longrightarrow>
         cmk_bytes demo_vault_ext s = Some (rand (demo_at 9 7) 70 32)"
    using relogin_replaces_cmk [OF demo_vault_laws demo_session_codec_laws demo_home(1) b demo_home(2) demo_wrong_passphrase r sl] by blast
  have "\<not> isl (fst (demo_load (Some pass) (demo_at 9 7) (fs_run ops demo_home_disk)))"
    using p demo_home(1) [of "Some pass"] by (simp add: demo_shell_def)
  then obtain s ops' where s: "demo_load (Some pass) (demo_at 9 7) (fs_run ops demo_home_disk) = (Inr s, ops')"
    by (metis isl_def prod.collapse sum.collapse(2))
  have "rand (demo_at 9 7) 70 32 = replicate 32 7" by (simp add: rand_def demo_at_def)
  with c s l demo_carries demo_home(1) show ?thesis by metis
qed

theorem torn_login_loses_cmk_witness:
  "\<exists>ops k. demo_log_in ''pw'' (demo_at 0 4) Map.empty = (Inr (), ops) \<and> k < length ops
    \<and> demo_load (Some ''pw'') (demo_at 9 7) (fs_cut k (Some 0) ops Map.empty) = (Inl ClientJson, [])"
proof -
  have "demo_load (Some ''pw'') (demo_at 0 4) Map.empty = (Inl NoSession, [])"
    by (simp add: load_named_def profile_paths(1) [OF demo_home(1)] io_bind_def io_simps)
  then obtain ops where l: "demo_log_in ''pw'' (demo_at 0 4) Map.empty = (Inr (), ops)" using demo_logs_in by blast
  have "profile_parse demo_session_codec [] = None" "session_parse demo_session_codec [] = None"
    by (simp_all add: demo_session_codec_def demo_profile_parse_def demo_session_parse_def)
  from torn_login_loses_cmk [OF demo_home(1) demo_home(2) l this] l demo_home(1) show ?thesis by blast
qed

theorem unlock_window_witness:
  "\<exists>ops. cmd_unlock demo_vault_ext demo_ops demo_session_codec (demo_shell (Some ''pw'')) (demo_at 0 4) ''alice'' 15 demo_home_disk
      = (Inr (), ops)
    \<and> (\<exists>s. demo_load None (demo_at 899 1) (fs_run ops demo_home_disk) = (Inr s, []) \<and> se_cmk s = Some (str_of (replicate 32 4)))
    \<and> fst (demo_load None (demo_at 900 1) (fs_run ops demo_home_disk)) = Inl (ClientCred CredNoPassphrase)"
proof -
  have "\<exists>ops. cmd_unlock demo_vault_ext demo_ops demo_session_codec (demo_shell (Some ''pw'')) (demo_at 0 4) ''alice'' 15 demo_home_disk
      = (Inr (), ops)"
    by (simp add: cmd_unlock_def read_sealed_def io_bind_def io_simps profile_paths(1) [OF demo_home(1)] io_read_def demo_home_disk_def
        demo_parses demo_sealing agent_store_def agent_path_def agent_dir_def harden_perms_def)
  then obtain ops where u: "cmd_unlock demo_vault_ext demo_ops demo_session_codec (demo_shell (Some ''pw'')) (demo_at 0 4) ''alice'' 15
      demo_home_disk = (Inr (), ops)" by blast
  have t: "now_secs (demo_at 0 4) + 15 * 60 < 2 ^ 64" "now_secs (demo_at 0 4) = 0" "now_secs (demo_at 899 1) = 899"
    "now_secs (demo_at 900 1) = 900" by (simp_all add: now_secs_def demo_at_def)
  note w = unlock_window [OF demo_vault_laws(2,3) demo_session_codec_laws demo_home(1) demo_home(1) demo_carries u t(1), where i = 0]
  show ?thesis using u w [of "demo_at 899 1" None] w [of "demo_at 900 1" None] t(2-4) by auto
qed

end
