(* ===== verification/Client_Envelopes.thy ===== *)
theory Client_Envelopes
  imports Profiles
begin

unbundle bit_operations_syntax

text \<open>
  Encryption on the client (\<open>main.rs\<close>, \<open>external_*\<close> and \<open>resident_*\<close>): envelopes that the server stores
  and cannot open, and resident files, whose ciphertext stays on the client's disk while the server
  keeps half of the key. The lemmas show that the two byte formats are read back exactly and never
  out of bounds, and that both open to what was sealed, also after a change of the key.
\<close>

datatype app_error = AppConfig | AppCrypto | AppIo | AppJson | AppClient | AppPanic

section \<open>Slices\<close>

text \<open>Indexing and slicing stop the program when out of bounds.\<close>

definition byte_at :: "bytes \<Rightarrow> nat \<Rightarrow> app_error + 8 word" where
  "byte_at b i = (if i < length b then Inr (b ! i) else Inl AppPanic)"

definition slice_of :: "bytes \<Rightarrow> nat \<Rightarrow> nat \<Rightarrow> app_error + bytes" where
  "slice_of b i j = (if i \<le> j \<and> j \<le> length b then Inr (take (j - i) (drop i b)) else Inl AppPanic)"

section \<open>What to encrypt with\<close>

datatype ext_key = ExtCmk bytes | ExtPassphrase string

datatype key_source = Managed | UserPassphrase

datatype data_loc = InServer | Resident

record ext_spec =
  es_key :: key_source
  es_data :: data_loc

record ext_flags =
  ef_external :: bool
  ef_key :: bool
  ef_data :: bool
  ef_passphrase :: "string option"
  ef_from_env :: bool

definition resolve_external_passphrase_opt :: "shell \<Rightarrow> string option \<Rightarrow> string option" where
  "resolve_external_passphrase_opt sh explicit = flag_or_env sh explicit ''BLACKBOOK_EXTERNAL_PASSPHRASE''"

text \<open>The prompt is the first of the command.\<close>

definition resolve_external_passphrase_for_read :: "shell \<Rightarrow> string option \<Rightarrow> app_error + string" where
  "resolve_external_passphrase_for_read sh explicit = (case resolve_external_passphrase_opt sh explicit of
      Some p \<Rightarrow> Inr p
    | None \<Rightarrow>
        if prompts_suppressed sh then Inl AppConfig
        else
          (case sh_typed sh 0 of
             None \<Rightarrow> Inl AppConfig
           | Some p \<Rightarrow> if p = [] then Inl AppConfig else Inr p))"

definition resolve_ext_spec :: "shell \<Rightarrow> ext_flags \<Rightarrow> bool \<Rightarrow> app_error + ext_spec option" where
  "resolve_ext_spec sh f data_allowed =
     (let managed_signal = ef_key f \<or> ef_external f;
          pass_flag = nonempty (ef_passphrase f) \<noteq> None;
          pass_signal = pass_flag \<or> ef_from_env f
      in if managed_signal \<and> pass_signal then Inl AppConfig
         else if \<not> (managed_signal \<or> ef_data f \<or> pass_signal) then Inr None
         else if ef_data f \<and> \<not> data_allowed then Inl AppConfig
         else
           Inr (Some \<lparr>es_key = (if managed_signal then Managed
                 else if pass_signal \<or> resolve_external_passphrase_opt sh (ef_passphrase f) \<noteq> None then UserPassphrase
                 else Managed),
               es_data = (if ef_data f \<or> ef_external f \<and> data_allowed then Resident else InServer)\<rparr>))"

definition ext_key_for_spec :: "ext \<Rightarrow> shell \<Rightarrow> ext_spec \<Rightarrow> client_session \<Rightarrow> string option \<Rightarrow> app_error + ext_key" where
  "ext_key_for_spec E sh spec s explicit = (case es_key spec of
      UserPassphrase \<Rightarrow> and_then (resolve_external_passphrase_for_read sh explicit) (\<lambda>p. Inr (ExtPassphrase p))
    | Managed \<Rightarrow> ok_or AppConfig (map_option ExtCmk (cmk_bytes E s)))"

section \<open>The envelope\<close>

definition EXT_ENVELOPE_V1 :: "8 word" where
  "EXT_ENVELOPE_V1 = 1"

definition EXT_ENVELOPE_V2 :: "8 word" where
  "EXT_ENVELOPE_V2 = 2"

definition EXT_MODE_CMK :: "8 word" where
  "EXT_MODE_CMK = 0"

definition EXT_MODE_ARGON2 :: "8 word" where
  "EXT_MODE_ARGON2 = 1"

record ext_envelope =
  ev_version :: nat
  ev_mode :: "8 word"
  ev_salt :: bytes
  ev_argon :: "nat \<times> nat \<times> nat"
  ev_wrapped :: bytes
  ev_ciphertext :: bytes

definition ext_encode_v2 :: "8 word \<Rightarrow> bytes \<Rightarrow> nat \<times> nat \<times> nat \<Rightarrow> bytes \<Rightarrow> bytes \<Rightarrow> bytes" where
  "ext_encode_v2 mode salt argon wrapped_dek ciphertext = (case argon of (m, t, p) \<Rightarrow>
     [EXT_ENVELOPE_V2, mode] @ be_bytes 4 m @ be_bytes 4 t @ be_bytes 4 p
       @ [word_of_nat (length salt)] @ salt @ len_u32 wrapped_dek @ wrapped_dek @ ciphertext)"

text \<open>The fields from position \<open>p\<close> on, which both versions share.\<close>

definition ext_fields :: "bytes \<Rightarrow> nat \<Rightarrow> nat \<Rightarrow> app_error + bytes \<times> bytes \<times> bytes" where
  "ext_fields buf p slen =
     (if length buf < p + slen + 4 then Inl AppCrypto
      else
        and_then (slice_of buf p (p + slen)) (\<lambda>salt.
        and_then (slice_of buf (p + slen) (p + slen + 4)) (\<lambda>w.
          (let wlen = of_be w; q = p + slen + 4
           in if length buf < q + wlen then Inl AppCrypto
              else
                and_then (slice_of buf q (q + wlen)) (\<lambda>wrapped_dek.
                and_then (slice_of buf (q + wlen) (length buf)) (\<lambda>ciphertext.
                  Inr (salt, wrapped_dek, ciphertext)))))))"

definition ext_decode :: "bytes \<Rightarrow> app_error + ext_envelope" where
  "ext_decode buf =
     (if buf = [] then Inl AppCrypto
      else
        and_then (byte_at buf 0) (\<lambda>version.
          if version = EXT_ENVELOPE_V1
          then
            (if length buf < 2 then Inl AppCrypto
             else
               and_then (byte_at buf 1) (\<lambda>slen.
               and_then (ext_fields buf 2 (unat slen)) (\<lambda>(salt, wrapped_dek, ciphertext).
                 Inr \<lparr>ev_version = 1, ev_mode = EXT_MODE_ARGON2, ev_salt = salt, ev_argon = (0, 0, 0),
                      ev_wrapped = wrapped_dek, ev_ciphertext = ciphertext\<rparr>)))
          else if version = EXT_ENVELOPE_V2
          then
            (if length buf < 2 + 12 + 1 then Inl AppCrypto
             else
               and_then (byte_at buf 1) (\<lambda>mode.
               and_then (slice_of buf 2 6) (\<lambda>m.
               and_then (slice_of buf 6 10) (\<lambda>t.
               and_then (slice_of buf 10 14) (\<lambda>p.
               and_then (byte_at buf 14) (\<lambda>slen.
               and_then (ext_fields buf 15 (unat slen)) (\<lambda>(salt, wrapped_dek, ciphertext).
                 Inr \<lparr>ev_version = 2, ev_mode = mode, ev_salt = salt, ev_argon = (of_be m, of_be t, of_be p),
                      ev_wrapped = wrapped_dek, ev_ciphertext = ciphertext\<rparr>)))))))
          else Inl AppCrypto))"

text \<open>The mode, the salt, the costs and the key-encryption key of a new item; the salt is draw \<open>i\<close>.\<close>

definition wrap_key ::
    "ops_ext \<Rightarrow> request \<Rightarrow> nat \<Rightarrow> ext_key \<Rightarrow> app_error + 8 word \<times> bytes \<times> (nat \<times> nat \<times> nat) \<times> bytes" where
  "wrap_key K rq i key = (case key of
      ExtCmk cmk \<Rightarrow> Inr (EXT_MODE_CMK, [], (0, 0, 0), cmk)
    | ExtPassphrase pass \<Rightarrow>
        and_then (map_err AppConfig (argon2_key K pass (rand rq i 16))) (\<lambda>k.
          Inr (EXT_MODE_ARGON2, rand rq i 16, (64 * 1024, 3, 1), k)))"

definition external_seal_parts ::
    "ext \<Rightarrow> ops_ext \<Rightarrow> request \<Rightarrow> ext_key \<Rightarrow> bytes \<Rightarrow> app_error + bytes \<times> bytes" where
  "external_seal_parts E K rq key plaintext =
     (let dek = rand rq 80 32
      in and_then (wrap_key K rq 81 key) (\<lambda>(mode, salt, argon, kek).
         and_then (map_err AppCrypto (aead_seal E (rand rq 82 12) dek kek)) (\<lambda>wrapped_dek.
         and_then (map_err AppCrypto (aead_seal E (rand rq 83 12) plaintext dek)) (\<lambda>ciphertext.
           Inr (ext_encode_v2 mode salt argon wrapped_dek [], ciphertext)))))"

definition external_seal :: "ext \<Rightarrow> ops_ext \<Rightarrow> request \<Rightarrow> ext_key \<Rightarrow> bytes \<Rightarrow> app_error + bytes" where
  "external_seal E K rq key plaintext =
     and_then (external_seal_parts E K rq key plaintext) (\<lambda>(meta, ct). Inr (meta @ ct))"

definition external_kek ::
    "ext \<Rightarrow> ops_ext \<Rightarrow> shell \<Rightarrow> ext_envelope \<Rightarrow> client_session \<Rightarrow> string option \<Rightarrow> app_error + bytes" where
  "external_kek E K sh env s explicit_pass =
     (if ev_version env = 2 \<and> ev_mode env = EXT_MODE_CMK then ok_or AppCrypto (cmk_bytes E s)
      else
        and_then (resolve_external_passphrase_for_read sh explicit_pass) (\<lambda>pass.
          if ev_version env = 2
          then (case ev_argon env of (m, t, p) \<Rightarrow> map_err AppCrypto (argon2_key_with K pass (ev_salt env) m t p))
          else map_err AppCrypto (derive_message_key E (as_bytes pass) (ev_salt env))))"

definition external_open ::
    "ext \<Rightarrow> ops_ext \<Rightarrow> shell \<Rightarrow> ext_envelope \<Rightarrow> client_session \<Rightarrow> string option \<Rightarrow> app_error + bytes" where
  "external_open E K sh env s explicit_pass =
     and_then (external_kek E K sh env s explicit_pass) (\<lambda>kek.
     and_then (map_err AppCrypto (aead_open E (ev_wrapped env) kek)) (\<lambda>dek.
       map_err AppCrypto (aead_open E (ev_ciphertext env) dek)))"

section \<open>Resident files\<close>

definition RESIDENT_MAGIC :: bytes where
  "RESIDENT_MAGIC = as_bytes ''BBKR''"

record resident_header =
  rh_mode :: "8 word"
  rh_salt :: string
  rh_m_cost :: nat
  rh_t_cost :: nat
  rh_p_cost :: nat
  rh_wrapped_c :: string
  rh_orig_name :: string

text \<open>
  The JSON forms (crate serde_json) of the header of a stash and of the index. The index is a
  sorted map in the source; only its entries matter.
\<close>

record stash_codec =
  header_print :: "resident_header \<Rightarrow> bytes"
  header_parse :: "bytes \<Rightarrow> resident_header option"
  index_print :: "(string \<times> string) list \<Rightarrow> bytes"
  index_parse :: "bytes \<Rightarrow> (string \<times> string) list option"

definition stash_codec_law :: "stash_codec \<Rightarrow> bool" where
  "stash_codec_law J \<longleftrightarrow> (\<forall>h. header_parse J (header_print J h) = Some h) \<and> (\<forall>m. index_parse J (index_print J m) = Some m)"

definition resident_dir :: "shell \<Rightarrow> app_error + string" where
  "resident_dir sh = (case sh_home sh of
      None \<Rightarrow> Inl AppConfig
    | Some h \<Rightarrow> Inr (path_join (path_join h ''.bbk'') ''resident''))"

definition resident_index_path :: "shell \<Rightarrow> app_error + string" where
  "resident_index_path sh = and_then (resident_dir sh) (\<lambda>dir. Inr (path_join dir ''index.json''))"

definition resident_index_load :: "stash_codec \<Rightarrow> shell \<Rightarrow> disk \<Rightarrow> (string \<times> string) list" where
  "resident_index_load J sh d = (case resident_index_path sh of
      Inl e \<Rightarrow> []
    | Inr p \<Rightarrow>
      (case d p of
         None \<Rightarrow> []
       | Some f \<Rightarrow> (case index_parse J (contents_of f) of None \<Rightarrow> [] | Some m \<Rightarrow> m)))"

definition resident_index_save :: "stash_codec \<Rightarrow> shell \<Rightarrow> (string \<times> string) list \<Rightarrow> (app_error, unit) io" where
  "resident_index_save J sh m = io_bind (io_lift (resident_index_path sh)) (\<lambda>p.
     io_do (WriteFile p (index_print J m) (sh_new_mode sh)))"

definition resident_key :: "string \<Rightarrow> string \<Rightarrow> string" where
  "resident_key domain_name name = domain_name @ ''/'' @ name"

definition xor_bytes :: "bytes \<Rightarrow> bytes \<Rightarrow> bytes" where
  "xor_bytes a b = map (\<lambda>(x, y). x XOR y) (zip a b)"

definition stash_bytes :: "stash_codec \<Rightarrow> resident_header \<Rightarrow> bytes \<Rightarrow> bytes" where
  "stash_bytes J header ct = RESIDENT_MAGIC @ len_u32 (header_print J header) @ header_print J header @ ct"

text \<open>The header of a stash: the client's half of the key under the key of the client.\<close>

definition wrap_half ::
    "ext \<Rightarrow> ops_ext \<Rightarrow> request \<Rightarrow> nat \<Rightarrow> ext_key \<Rightarrow> bytes \<Rightarrow> string \<Rightarrow> app_error + resident_header" where
  "wrap_half E K rq i key kf_c orig_name =
     and_then (wrap_key K rq i key) (\<lambda>(mode, salt, (m, t, p), client_kek).
     and_then (map_err AppCrypto (aead_seal E (rand rq (i + 1) 12) kf_c client_kek)) (\<lambda>wrapped_c.
       Inr \<lparr>rh_mode = mode, rh_salt = (if mode = EXT_MODE_CMK then [] else b64_encode E salt), rh_m_cost = m, rh_t_cost = t,
            rh_p_cost = p, rh_wrapped_c = b64_encode E wrapped_c, rh_orig_name = orig_name\<rparr>))"

definition resident_seal ::
    "ext \<Rightarrow> ops_ext \<Rightarrow> stash_codec \<Rightarrow> request \<Rightarrow> ext_key \<Rightarrow> bytes \<Rightarrow> string \<Rightarrow> app_error + bytes \<times> string" where
  "resident_seal E K J rq key plaintext orig_name =
     (let kf = rand rq 84 32; kf_c = rand rq 85 32; kf_s = xor_bytes kf kf_c
      in and_then (map_err AppCrypto (aead_seal E (rand rq 86 12) plaintext kf)) (\<lambda>ct.
         and_then (wrap_half E K rq 87 key kf_c orig_name) (\<lambda>header.
           Inr (stash_bytes J header ct, b64_encode E kf_s))))"

definition resident_parse :: "stash_codec \<Rightarrow> bytes \<Rightarrow> app_error + resident_header \<times> bytes" where
  "resident_parse J stash =
     (if length stash < 8 then Inl AppCrypto
      else
        and_then (slice_of stash 0 4) (\<lambda>magic.
          if magic \<noteq> RESIDENT_MAGIC then Inl AppCrypto
          else
            and_then (slice_of stash 4 8) (\<lambda>w.
              (let hlen = of_be w
               in if length stash < 8 + hlen then Inl AppCrypto
                  else
                    and_then (slice_of stash 8 (8 + hlen)) (\<lambda>h.
                    and_then (ok_or AppCrypto (header_parse J h)) (\<lambda>header.
                    and_then (slice_of stash (8 + hlen) (length stash)) (\<lambda>ct. Inr (header, ct))))))))"

definition client_kek_of ::
    "ext \<Rightarrow> ops_ext \<Rightarrow> shell \<Rightarrow> resident_header \<Rightarrow> client_session \<Rightarrow> string option \<Rightarrow> app_error + bytes" where
  "client_kek_of E K sh header s explicit_pass =
     (if rh_mode header = 0 then ok_or AppCrypto (cmk_bytes E s)
      else
        and_then (resolve_external_passphrase_for_read sh explicit_pass) (\<lambda>pass.
        and_then (ok_or AppCrypto (b64_decode E (rh_salt header))) (\<lambda>salt.
          map_err AppCrypto (argon2_key_with K pass salt (rh_m_cost header) (rh_t_cost header) (rh_p_cost header)))))"

definition open_half ::
    "ext \<Rightarrow> ops_ext \<Rightarrow> shell \<Rightarrow> resident_header \<Rightarrow> client_session \<Rightarrow> string option \<Rightarrow> app_error + bytes" where
  "open_half E K sh header s explicit_pass =
     and_then (client_kek_of E K sh header s explicit_pass) (\<lambda>client_kek.
     and_then (ok_or AppCrypto (b64_decode E (rh_wrapped_c header))) (\<lambda>wrapped_c.
       map_err AppCrypto (aead_open E wrapped_c client_kek)))"

definition resident_open ::
    "ext \<Rightarrow> ops_ext \<Rightarrow> shell \<Rightarrow> resident_header \<Rightarrow> bytes \<Rightarrow> string \<Rightarrow> client_session \<Rightarrow> string option \<Rightarrow> app_error + bytes" where
  "resident_open E K sh header ciphertext kf_s_b64 s explicit_pass =
     and_then (open_half E K sh header s explicit_pass) (\<lambda>kf_c.
     and_then (ok_or AppCrypto (b64_decode E kf_s_b64)) (\<lambda>kf_s.
       if length kf_c \<noteq> 32 \<or> length kf_s \<noteq> 32 then Inl AppCrypto
       else map_err AppCrypto (aead_open E ciphertext (xor_bytes kf_c kf_s))))"

definition resident_unwrap_client_half ::
    "ext \<Rightarrow> ops_ext \<Rightarrow> shell \<Rightarrow> resident_header \<Rightarrow> client_session \<Rightarrow> string option \<Rightarrow> app_error + bytes" where
  "resident_unwrap_client_half E K sh header s explicit_pass =
     and_then (open_half E K sh header s explicit_pass) (\<lambda>kf_c.
       if length kf_c \<noteq> 32 then Inl AppCrypto else Inr kf_c)"

definition resident_rewrap ::
    "ext \<Rightarrow> ops_ext \<Rightarrow> stash_codec \<Rightarrow> request \<Rightarrow> ext_key \<Rightarrow> bytes \<Rightarrow> bytes \<Rightarrow> string \<Rightarrow> app_error + bytes" where
  "resident_rewrap E K J rq new_key kf_c ciphertext orig_name =
     and_then (wrap_half E K rq 90 new_key kf_c orig_name) (\<lambda>header. Inr (stash_bytes J header ciphertext))"

definition rekey_target_key :: "ext \<Rightarrow> client_session \<Rightarrow> bool \<Rightarrow> string option \<Rightarrow> app_error + ext_key" where
  "rekey_target_key E s external_key new_passphrase = (case nonempty new_passphrase of
      Some p \<Rightarrow> if external_key then Inl AppConfig else Inr (ExtPassphrase p)
    | None \<Rightarrow> ok_or AppConfig (map_option ExtCmk (cmk_bytes E s)))"

section \<open>The byte formats\<close>

text \<open>
  A wire format: what is printed is read back, and what is read was printed. The two laws give
  that printing is injective and that reading is too.
\<close>

locale wire_format =
  fixes print_it :: "'a \<Rightarrow> bytes"
    and read_it :: "bytes \<Rightarrow> 'e + 'a"
    and proper :: "'a \<Rightarrow> bool"
  assumes read_print: "proper x \<Longrightarrow> read_it (print_it x) = Inr x"
    and print_read: "read_it b = Inr x \<Longrightarrow> proper x \<Longrightarrow> print_it x = b"
begin

lemma print_inject: "proper x \<Longrightarrow> proper y \<Longrightarrow> print_it x = print_it y \<Longrightarrow> x = y"
  by (metis read_print sum.inject(2))

lemma read_inject: "read_it b = Inr x \<Longrightarrow> read_it c = Inr x \<Longrightarrow> proper x \<Longrightarrow> b = c"
  using print_read by metis

lemma read_exactly: "proper x \<Longrightarrow> read_it b = Inr x \<longleftrightarrow> b = print_it x"
  using read_print print_read by metis

end

lemma slice_mid: "i = length a \<Longrightarrow> j = length a + length b \<Longrightarrow> slice_of (a @ b @ c) i j = Inr b"
  by (simp add: slice_of_def)

lemma slice_some: "i \<le> j \<Longrightarrow> j \<le> length b \<Longrightarrow> slice_of b i j = Inr (take (j - i) (drop i b))"
  by (simp add: slice_of_def)

lemma byte_some: "i < length b \<Longrightarrow> byte_at b i = Inr (b ! i)"
  by (simp add: byte_at_def)

lemma ext_fields_read:
  assumes "ext_fields buf p slen = Inr (salt, w, ct)"
  shows "drop p buf = salt @ be_bytes 4 (length w) @ w @ ct" and "length salt = slen" and "length w < 2 ^ 32"
proof -
  let ?w = "take 4 (drop (p + slen) buf)"
  have b: "p + slen + 4 \<le> length buf" using assms by (simp add: ext_fields_def split: if_splits)
  then have sl: "slice_of buf p (p + slen) = Inr (take slen (drop p buf))" "slice_of buf (p + slen) (p + slen + 4) = Inr ?w"
    and lw: "length ?w = 4" by (simp_all add: slice_of_def)
  have q1: "p + slen + 4 + of_be ?w \<le> length buf"
    using assms b unfolding ext_fields_def sl and_then_simps Let_def by (simp split: if_splits)
  then have sl': "slice_of buf (p + slen + 4) (p + slen + 4 + of_be ?w) = Inr (take (of_be ?w) (drop (p + slen + 4) buf))"
    "slice_of buf (p + slen + 4 + of_be ?w) (length buf) = Inr (drop (p + slen + 4 + of_be ?w) buf)"
    by (simp_all add: slice_of_def)
  have q: "salt = take slen (drop p buf)" "w = take (of_be ?w) (drop (p + slen + 4) buf)" "ct = drop (p + slen + 4 + of_be ?w) buf"
    using assms b q1 unfolding ext_fields_def sl and_then_simps Let_def sl' by simp_all
  have "be_bytes 4 (of_be ?w) = ?w" using be_bytes_of_be [of ?w] unfolding lw .
  moreover have len: "length w = of_be ?w" using q1 by (simp add: q(2))
  moreover have "drop p buf = salt @ drop (p + slen) buf"
    using append_take_drop_id [of slen "drop p buf"] by (simp add: q(1) add.commute)
  moreover have "drop (p + slen) buf = ?w @ drop (p + slen + 4) buf"
    using append_take_drop_id [of 4 "drop (p + slen) buf"] by (simp add: add.commute)
  moreover have "drop (p + slen + 4) buf = w @ ct"
    using append_take_drop_id [of "of_be ?w" "drop (p + slen + 4) buf"] unfolding q(2,3) by (simp add: add.commute)
  ultimately show "drop p buf = salt @ be_bytes 4 (length w) @ w @ ct" by argo
  show "length salt = slen" using b by (simp add: q(1))
  show "length w < 2 ^ 32" using of_be_less [of ?w] unfolding len lw by simp
qed

lemma ext_fields_printed:
  assumes "length w < 2 ^ 32"
  shows "ext_fields (a @ salt @ be_bytes 4 (length w) @ w @ ct) (length a) (length salt) = Inr (salt, w, ct)"
proof -
  let ?buf = "a @ salt @ be_bytes 4 (length w) @ w @ ct" and ?p = "length a + length salt"
  have "of_be (be_bytes 4 (length w)) = length w" using assms by (intro of_be_be_bytes) simp
  moreover have "slice_of ?buf (length a) ?p = Inr salt" "slice_of ?buf ?p (?p + 4) = Inr (be_bytes 4 (length w))"
    "slice_of ?buf (?p + 4) (?p + 4 + length w) = Inr w" "slice_of ?buf (?p + 4 + length w) (length ?buf) = Inr ct"
    by (simp_all add: slice_of_def)
  ultimately show ?thesis by (simp add: ext_fields_def Let_def)
qed

lemma chunk: "take n (drop i b) @ drop (i + n) b = drop i b"
  using append_take_drop_id [of n "drop i b"] by (simp add: add.commute)

lemma chunk_byte: "i < length b \<Longrightarrow> b ! i # drop (i + 1) b = drop i b"
  by (simp add: Cons_nth_drop_Suc)

lemma be_bytes_slice: "length w = 4 \<Longrightarrow> be_bytes 4 (of_be w) = w"
  using be_bytes_of_be [of w] by simp

text \<open>The bytes of an envelope, and what the format can hold.\<close>

definition ext_print :: "ext_envelope \<Rightarrow> bytes" where
  "ext_print env = ext_encode_v2 (ev_mode env) (ev_salt env) (ev_argon env) (ev_wrapped env) (ev_ciphertext env)"

definition ext_proper :: "ext_envelope \<Rightarrow> bool" where
  "ext_proper env \<longleftrightarrow> ev_version env = 2 \<and> length (ev_salt env) < 256 \<and> length (ev_wrapped env) < 2 ^ 32
     \<and> (case ev_argon env of (m, t, p) \<Rightarrow> m < 2 ^ 32 \<and> t < 2 ^ 32 \<and> p < 2 ^ 32)"

lemma ext_decode_printed:
  assumes "ext_proper env"
  shows "ext_decode (ext_print env) = Inr env"
proof -
  obtain mode salt m t p w ct where env: "env = \<lparr>ev_version = 2, ev_mode = mode, ev_salt = salt, ev_argon = (m, t, p),
      ev_wrapped = w, ev_ciphertext = ct\<rparr>"
    using assms by (cases env) (auto simp: ext_proper_def)
  have len: "length salt < 256" "length w < 2 ^ 32" "m < 256 ^ 4" "t < 256 ^ 4" "p < 256 ^ 4"
    using assms by (simp_all add: env ext_proper_def)
  define a where "a = [EXT_ENVELOPE_V2, mode] @ be_bytes 4 m @ be_bytes 4 t @ be_bytes 4 p @ [word_of_nat (length salt)]"
  have la: "length a = 15" by (simp add: a_def)
  have u: "unat (word_of_nat (length salt) :: 8 word) = length salt" using len(1) by (simp add: unat_of_nat)
  have "len_u32 w = be_bytes 4 (length w)" using len(2) by (simp add: len_u32_def unat_of_nat)
  then have b: "ext_print env = a @ salt @ be_bytes 4 (length w) @ w @ ct" (is "_ = ?buf")
    by (simp add: ext_print_def ext_encode_v2_def env a_def)
  have f: "ext_fields ?buf 15 (length salt) = Inr (salt, w, ct)" using ext_fields_printed [OF len(2), of a] by (simp add: la)
  have "byte_at ?buf 0 = Inr EXT_ENVELOPE_V2" "byte_at ?buf 1 = Inr mode" "byte_at ?buf 14 = Inr (word_of_nat (length salt))"
    by (simp_all add: byte_at_def a_def nth_append)
  moreover have "slice_of ?buf 2 6 = Inr (be_bytes 4 m)" "slice_of ?buf 6 10 = Inr (be_bytes 4 t)" "slice_of ?buf 10 14 = Inr (be_bytes 4 p)"
    by (simp_all add: slice_of_def a_def)
  moreover have "?buf \<noteq> []" "\<not> length ?buf < 15" using la by auto
  ultimately show ?thesis using f u of_be_be_bytes [OF len(3)] of_be_be_bytes [OF len(4)] of_be_be_bytes [OF len(5)]
    unfolding b by (simp add: ext_decode_def env EXT_ENVELOPE_V1_def EXT_ENVELOPE_V2_def)
qed

lemma ext_decode_read:
  assumes "ext_decode buf = Inr env" and "ev_version env = 2"
  shows "ext_proper env" and "ext_print env = buf"
proof -
  let ?m = "take 4 (drop 2 buf)" and ?t = "take 4 (drop 6 buf)" and ?p = "take 4 (drop 10 buf)"
  have ne: "buf \<noteq> []" using assms(1) by (auto simp: ext_decode_def)
  then have b0: "byte_at buf 0 = Inr (buf ! 0)" by (simp add: byte_at_def)
  have "\<not> buf ! 0 = EXT_ENVELOPE_V1"
    using assms ne by (auto simp: ext_decode_def b0 elim!: and_then_InrE split: if_splits)
  with assms(1) ne have v: "buf ! 0 = EXT_ENVELOPE_V2" "15 \<le> length buf"
    by (auto simp: ext_decode_def b0 split: if_splits)
  then have sl: "byte_at buf (Suc 0) = Inr (buf ! 1)" "byte_at buf 14 = Inr (buf ! 14)"
    "slice_of buf 2 6 = Inr ?m" "slice_of buf 6 10 = Inr ?t" "slice_of buf 10 14 = Inr ?p"
    and l4: "length ?m = 4" "length ?t = 4" "length ?p = 4" by (simp_all add: byte_at_def slice_of_def)
  obtain salt w ct where f: "ext_fields buf 15 (unat (buf ! 14)) = Inr (salt, w, ct)"
    and env: "env = \<lparr>ev_version = 2, ev_mode = buf ! 1, ev_salt = salt, ev_argon = (of_be ?m, of_be ?t, of_be ?p),
      ev_wrapped = w, ev_ciphertext = ct\<rparr>"
    using assms(1) ne v by (auto simp: ext_decode_def b0 sl EXT_ENVELOPE_V1_def EXT_ENVELOPE_V2_def elim!: and_then_InrE)
  note r = ext_fields_read [OF f]
  have "unat (buf ! 14) < 256" using unsigned_less [of "buf ! 14", where 'a = nat] by simp
  then show "ext_proper env" using r(2,3) of_be_less [of ?m] of_be_less [of ?t] of_be_less [of ?p] l4
    by (simp add: env ext_proper_def)
  have "len_u32 w = be_bytes 4 (length w)" using r(3) by (simp add: len_u32_def unat_of_nat)
  moreover have "(word_of_nat (length salt) :: 8 word) = buf ! 14" using r(2) by simp
  ultimately have "ext_print env = buf ! 0 # buf ! 1 # ?m @ ?t @ ?p @ buf ! 14 # drop 15 buf"
    by (simp add: ext_print_def ext_encode_v2_def env v(1) r(1)
        be_bytes_slice [OF l4(1)] be_bytes_slice [OF l4(2)] be_bytes_slice [OF l4(3)])
  also have "\<dots> = drop 0 buf"
    using chunk_byte [of 14 buf] chunk [of 4 10 buf] chunk [of 4 6 buf] chunk [of 4 2 buf] chunk_byte [of 1 buf] chunk_byte [of 0 buf] v(2) ne
    by (simp add: numeral_2_eq_2)
  finally show "ext_print env = buf" by simp
qed

interpretation ext_wire: wire_format ext_print ext_decode ext_proper
  by unfold_locales (use ext_decode_printed ext_decode_read in \<open>auto simp: ext_proper_def\<close>)

lemma ext_fields_safe: "ext_fields buf p slen \<noteq> Inl AppPanic"
  by (auto simp: ext_fields_def slice_of_def Let_def)

lemma ext_decode_safe: "ext_decode buf \<noteq> Inl AppPanic"
proof
  assume "ext_decode buf = Inl AppPanic"
  then show False using ext_fields_safe
    by (auto simp: ext_decode_def byte_at_def slice_of_def and_then_def split: if_splits sum.splits prod.splits)
qed

text \<open>The same for the stash of a resident file.\<close>

definition stash_proper :: "stash_codec \<Rightarrow> resident_header \<times> bytes \<Rightarrow> bool" where
  "stash_proper J x \<longleftrightarrow> length (header_print J (fst x)) < 2 ^ 32"

lemma resident_parse_printed:
  assumes "stash_codec_law J" and "length (header_print J header) < 2 ^ 32"
  shows "resident_parse J (stash_bytes J header ct) = Inr (header, ct)"
proof -
  let ?h = "header_print J header"
  have "len_u32 ?h = be_bytes 4 (length ?h)" using assms(2) by (simp add: len_u32_def unat_of_nat)
  then have b: "stash_bytes J header ct = RESIDENT_MAGIC @ be_bytes 4 (length ?h) @ ?h @ ct" (is "_ = ?buf")
    by (simp add: stash_bytes_def)
  have l: "length RESIDENT_MAGIC = 4" by (simp add: RESIDENT_MAGIC_def)
  then have "slice_of ?buf 0 4 = Inr RESIDENT_MAGIC" "slice_of ?buf 4 8 = Inr (be_bytes 4 (length ?h))"
    "slice_of ?buf 8 (8 + length ?h) = Inr ?h" "slice_of ?buf (8 + length ?h) (length ?buf) = Inr ct"
    by (simp_all add: slice_of_def)
  moreover have "of_be (be_bytes 4 (length ?h)) = length ?h" using assms(2) by (intro of_be_be_bytes) simp
  ultimately show ?thesis unfolding b using assms(1) l by (simp add: resident_parse_def Let_def stash_codec_law_def)
qed

lemma resident_parse_safe: "resident_parse J stash \<noteq> Inl AppPanic"
  by (auto simp: resident_parse_def slice_of_def Let_def ok_or_def split: option.splits)

section \<open>Opening what was sealed\<close>

text \<open>Whoever holds the key: the client master key in the session, or the passphrase at hand.\<close>

definition holds_key :: "ext \<Rightarrow> shell \<Rightarrow> client_session \<Rightarrow> string option \<Rightarrow> ext_key \<Rightarrow> bool" where
  "holds_key E sh s explicit_pass key = (case key of
      ExtCmk c \<Rightarrow> cmk_bytes E s = Some c
    | ExtPassphrase p \<Rightarrow> resolve_external_passphrase_for_read sh explicit_pass = Inr p)"

lemma wrap_key_mode:
  assumes "wrap_key K rq i key = Inr (mode, salt, argon, kek)"
  shows "mode = EXT_MODE_CMK \<longleftrightarrow> (\<exists>c. key = ExtCmk c)" and "length salt < 256"
    and "case argon of (m, t, p) \<Rightarrow> m < 2 ^ 32 \<and> t < 2 ^ 32 \<and> p < 2 ^ 32"
  using assms by (auto simp: wrap_key_def EXT_MODE_CMK_def EXT_MODE_ARGON2_def elim!: and_then_InrE split: ext_key.splits)

lemma wrap_key_kek:
  assumes "wrap_key K rq i key = Inr (mode, salt, argon, kek)" and "holds_key E sh s explicit_pass key"
    and "ev_version env = 2" and "ev_mode env = mode" and "ev_salt env = salt" and "ev_argon env = argon"
  shows "external_kek E K sh env s explicit_pass = Inr kek"
  using assms(1,2) unfolding external_kek_def assms(3-6)
  by (auto simp: wrap_key_def external_kek_def holds_key_def argon2_key_with_def derive_kek_def argon2_key_def map_err_def
      EXT_MODE_CMK_def EXT_MODE_ARGON2_def ok_or_def elim!: and_then_InrE split: ext_key.splits option.splits)

text \<open>An envelope opens to what was sealed, for whoever holds the key.\<close>

lemma external_sealed:
  assumes "gcm_law E" and "external_seal_parts E K rq key plain = Inr (meta, ct)"
  obtains env where "ext_decode (meta @ ct) = Inr env"
    "\<And>sh s explicit_pass. holds_key E sh s explicit_pass key \<Longrightarrow> external_open E K sh env s explicit_pass = Inr plain"
proof -
  obtain mode salt argon kek w where k: "wrap_key K rq 81 key = Inr (mode, salt, argon, kek)"
    "aead_seal E (rand rq 82 12) (rand rq 80 32) kek = Inr w" "aead_seal E (rand rq 83 12) plain (rand rq 80 32) = Inr ct"
    "meta = ext_encode_v2 mode salt argon w []"
    using assms(2) by (auto simp: external_seal_parts_def Let_def elim!: and_then_InrE)
  let ?env = "\<lparr>ev_version = 2, ev_mode = mode, ev_salt = salt, ev_argon = argon, ev_wrapped = w, ev_ciphertext = ct\<rparr>"
  have o: "aead_open E w kek = Inr (rand rq 80 32)" "aead_open E ct (rand rq 80 32) = Inr plain"
    using box.unseal_seal [OF assms(1) length_rand k(2)] box.unseal_seal [OF assms(1) length_rand k(3)] by simp_all
  have "length w < 2 ^ 32"
    using k(2) assms(1) by (auto simp: aead_seal_def aead_seal_nonce_def gcm_law_def elim!: and_then_InrE split: if_splits)
  then have "ext_proper ?env" using wrap_key_mode(2,3) [OF k(1)] by (simp add: ext_proper_def)
  moreover have "ext_print ?env = meta @ ct" by (simp add: ext_print_def k(4) ext_encode_v2_def split: prod.splits)
  ultimately have "ext_decode (meta @ ct) = Inr ?env" using ext_wire.read_print by metis
  moreover have "external_open E K sh ?env s explicit_pass = Inr plain" if "holds_key E sh s explicit_pass key" for sh s explicit_pass
    using wrap_key_kek [OF k(1) that, of ?env] o by (simp add: external_open_def)
  ultimately show thesis by (rule that)
qed

text \<open>A resident file opens with both halves.\<close>

lemma xor_bytes_cancel: "length a = length b \<Longrightarrow> xor_bytes b (xor_bytes a b) = a"
  by (rule nth_equalityI) (simp_all add: xor_bytes_def xor.left_commute)

lemma length_xor_bytes [simp]: "length (xor_bytes a b) = min (length a) (length b)"
  by (simp add: xor_bytes_def)

lemma half_opens:
  assumes "gcm_law E" and "b64_law E" and "wrap_half E K rq i key kf_c name = Inr header" and "holds_key E sh s explicit_pass key"
  shows "open_half E K sh header s explicit_pass = Inr kf_c"
proof -
  obtain mode salt m t p kek w where k: "wrap_key K rq i key = Inr (mode, salt, (m, t, p), kek)"
    "aead_seal E (rand rq (i + 1) 12) kf_c kek = Inr w"
    "header = \<lparr>rh_mode = mode, rh_salt = (if mode = EXT_MODE_CMK then [] else b64_encode E salt), rh_m_cost = m, rh_t_cost = t,
            rh_p_cost = p, rh_wrapped_c = b64_encode E w, rh_orig_name = name\<rparr>"
    using assms(3) by (auto simp: wrap_half_def elim!: and_then_InrE)
  have "client_kek_of E K sh header s explicit_pass = Inr kek"
    using k(1) assms(2,4)
    by (auto simp: k(3) client_kek_of_def wrap_key_def holds_key_def argon2_key_with_def derive_kek_def argon2_key_def map_err_def
        EXT_MODE_CMK_def EXT_MODE_ARGON2_def ok_or_def b64_law_def elim!: and_then_InrE split: ext_key.splits option.splits)
  moreover have "aead_open E w kek = Inr kf_c" using box.unseal_seal [OF assms(1) length_rand k(2)] by simp
  ultimately show ?thesis using assms(2) by (simp add: open_half_def k(3) b64_law_def)
qed

text \<open>The stash of a file whose server half is \<open>half\<close>, under the key \<open>key\<close>.\<close>

definition stash_of ::
    "ext \<Rightarrow> ops_ext \<Rightarrow> stash_codec \<Rightarrow> ext_key \<Rightarrow> bytes \<Rightarrow> string \<Rightarrow> bytes \<Rightarrow> bool" where
  "stash_of E K J key plain half stash \<longleftrightarrow>
     (\<exists>rq i kf_c name header ct. wrap_half E K rq i key kf_c name = Inr header \<and> length kf_c = 32 \<and> b64_decode E half \<noteq> None
        \<and> length (the (b64_decode E half)) = 32 \<and> aead_open E ct (xor_bytes kf_c (the (b64_decode E half))) = Inr plain
        \<and> length (header_print J header) < 2 ^ 32 \<and> stash = stash_bytes J header ct)"

lemma stash_opens:
  assumes "gcm_law E" and "b64_law E" and "stash_codec_law J" and "stash_of E K J key plain half stash"
    and "holds_key E sh s explicit_pass key"
  shows "\<exists>header ct. resident_parse J stash = Inr (header, ct) \<and> resident_open E K sh header ct half s explicit_pass = Inr plain"
proof -
  obtain rq i kf_c name header ct where w: "wrap_half E K rq i key kf_c name = Inr header" "length kf_c = 32" "b64_decode E half \<noteq> None"
    "length (the (b64_decode E half)) = 32" "aead_open E ct (xor_bytes kf_c (the (b64_decode E half))) = Inr plain"
    "length (header_print J header) < 2 ^ 32" "stash = stash_bytes J header ct"
    using assms(4) by (auto simp: stash_of_def)
  have "resident_parse J stash = Inr (header, ct)" unfolding w(7) by (rule resident_parse_printed [OF assms(3) w(6)])
  moreover have "resident_open E K sh header ct half s explicit_pass = Inr plain"
    using half_opens [OF assms(1,2) w(1) assms(5)] w(2-5) by (auto simp: resident_open_def)
  ultimately show ?thesis by blast
qed

lemma resident_sealed:
  assumes "gcm_law E" and "b64_law E" and "resident_seal E K J rq key plain name = Inr (stash, half)"
    and "\<And>header. wrap_half E K rq 87 key (rand rq 85 32) name = Inr header \<Longrightarrow> length (header_print J header) < 2 ^ 32"
  shows "stash_of E K J key plain half stash"
proof -
  let ?kf = "rand rq 84 32" and ?c = "rand rq 85 32"
  obtain ct header where k: "aead_seal E (rand rq 86 12) plain ?kf = Inr ct" "wrap_half E K rq 87 key ?c name = Inr header"
    "stash = stash_bytes J header ct" "half = b64_encode E (xor_bytes ?kf ?c)"
    using assms(3) by (auto simp: resident_seal_def Let_def elim!: and_then_InrE)
  have "xor_bytes ?c (xor_bytes ?kf ?c) = ?kf" by (rule xor_bytes_cancel) simp
  moreover have "aead_open E ct ?kf = Inr plain" using box.unseal_seal [OF assms(1) length_rand k(1)] by simp
  moreover have "b64_decode E half = Some (xor_bytes ?kf ?c)" using assms(2) k(4) by (simp add: b64_law_def)
  ultimately show ?thesis using k(2,3) assms(4) unfolding stash_of_def
    by (intro exI [of _ rq] exI [of _ 87] exI [of _ ?c] exI [of _ name] exI [of _ header] exI [of _ ct]) simp
qed

text \<open>A change of the key re-wraps the client's half.\<close>

lemma rewrapped:
  assumes "gcm_bound E" and "b64_law E" and "stash_codec_law J" and "stash_of E K J key plain half stash"
    and "resident_parse J stash = Inr (header, ct)" and "resident_unwrap_client_half E K sh header s old = Inr kf_c"
    and "resident_rewrap E K J rq new_key kf_c ct name = Inr stash'"
    and "\<And>header. wrap_half E K rq 90 new_key kf_c name = Inr header \<Longrightarrow> length (header_print J header) < 2 ^ 32"
  shows "stash_of E K J new_key plain half stash'"
proof -
  obtain rq0 i c0 name0 header0 ct0 where w: "wrap_half E K rq0 i key c0 name0 = Inr header0" "length c0 = 32" "b64_decode E half \<noteq> None"
    "length (the (b64_decode E half)) = 32" "aead_open E ct0 (xor_bytes c0 (the (b64_decode E half))) = Inr plain"
    "length (header_print J header0) < 2 ^ 32" "stash = stash_bytes J header0 ct0"
    using assms(4) by (auto simp: stash_of_def)
  have h: "header = header0" "ct = ct0" using assms(5) resident_parse_printed [OF assms(3) w(6), of ct0] w(7) by simp_all
  obtain kek x where k: "aead_seal E (rand rq0 (i + 1) 12) c0 kek = Inr x" "rh_wrapped_c header0 = b64_encode E x"
    using w(1) by (auto simp: wrap_half_def elim!: and_then_InrE)
  obtain kek' where "aead_open E x kek' = Inr kf_c"
    using assms(2,6) k(2) by (auto simp: resident_unwrap_client_half_def open_half_def h(1) b64_law_def map_err_def
        elim!: and_then_InrE split: if_splits sum.splits)
  then have "kf_c = c0" using aead_bound [OF assms(1) length_rand k(1)] by simp
  moreover obtain header' where "wrap_half E K rq 90 new_key kf_c name = Inr header'" "stash' = stash_bytes J header' ct"
    using assms(7) by (auto simp: resident_rewrap_def elim!: and_then_InrE)
  ultimately show ?thesis using w h assms(8) unfolding stash_of_def
    by (intro exI [of _ rq] exI [of _ 90] exI [of _ c0] exI [of _ name] exI [of _ header'] exI [of _ ct]) simp
qed

section \<open>Properties\<close>

text \<open>
  C27. The envelope format is exact: no byte string, however malformed, makes the two readers index
  out of bounds, and a string is read as an envelope of version two exactly when it is the one
  encoding of that envelope.
\<close>

theorem envelope_format_exact:
  "ext_decode buf \<noteq> Inl AppPanic \<and> resident_parse J buf \<noteq> Inl AppPanic
    \<and> (ext_decode buf = Inr env \<and> ev_version env = 2 \<longleftrightarrow>
         ext_proper env \<and> buf = ext_encode_v2 (ev_mode env) (ev_salt env) (ev_argon env) (ev_wrapped env) (ev_ciphertext env))"
proof (intro conjI ext_decode_safe resident_parse_safe iffI)
  assume d: "ext_decode buf = Inr env \<and> ev_version env = 2"
  then show "ext_proper env" using ext_decode_read(1) by blast
  from d show "buf = ext_encode_v2 (ev_mode env) (ev_salt env) (ev_argon env) (ev_wrapped env) (ev_ciphertext env)"
    using ext_decode_read(2) unfolding ext_print_def by metis
next
  assume "ext_proper env \<and> buf = ext_encode_v2 (ev_mode env) (ev_salt env) (ev_argon env) (ev_wrapped env) (ev_ciphertext env)"
  then have "ext_proper env" "buf = ext_print env" by (simp_all add: ext_print_def)
  then show "ext_decode buf = Inr env" "ev_version env = 2" using ext_wire.read_print by (simp_all add: ext_proper_def)
qed

end
