(* ===== verification/Client_Commands.thy ===== *)
theory Client_Commands
  imports Client_Envelopes Files "HOL-Library.AList"
begin

text \<open>
  The commands of the client on secrets and files (\<open>main.rs\<close>, \<open>cmd_put\<close>, \<open>cmd_get\<close>, \<open>cmd_rekey\<close>,
  \<open>cmd_file\<close>; \<open>client.rs\<close>, the requests they send). The commands on secrets run against the handlers
  of \<open>Secrets\<close>, those on files against the client's disk, with the answers of the server as
  parameters. The lemmas show that what a client seals it gets back through the server, that a
  resident file survives every command on the client's disk, and what a change of the key does to
  the read limits of a secret.
\<close>

section \<open>Requests to the server\<close>

text \<open>
  What a client sends with: the domain of its requests, who the server takes it for, and the code
  of the second factor.
\<close>

record connection =
  cn_domain :: string
  cn_client :: authenticated_client
  cn_mfa :: "string option"

definition domain_param :: "connection \<Rightarrow> string option" where
  "domain_param cn = (if cn_domain cn = ''default'' then None else Some (cn_domain cn))"

definition api_value :: "'a response \<Rightarrow> app_error + 'a" where
  "api_value r = (case r of Reply c v \<Rightarrow> if 200 \<le> c \<and> c < 300 then Inr v else Inl AppClient | _ \<Rightarrow> Inl AppClient)"

definition store_inner ::
    "string \<Rightarrow> string \<Rightarrow> resource_flags option \<Rightarrow> access_policy option \<Rightarrow> bool \<Rightarrow> string option \<Rightarrow> store_request" where
  "store_inner name data flags policy overwrite external =
     \<lparr>sq_name = name, sq_data = data, sq_flags = flags, sq_policy = policy, sq_overwrite = overwrite, sq_external = external\<rparr>"

definition store_external ::
    "string \<Rightarrow> string \<Rightarrow> resource_flags option \<Rightarrow> access_policy option \<Rightarrow> bool \<Rightarrow> store_request" where
  "store_external name envelope_b64 flags policy overwrite = store_inner name [] flags policy overwrite (Some envelope_b64)"

definition retrieve_with_request ::
    "ext \<Rightarrow> app \<Rightarrow> request \<Rightarrow> connection \<Rightarrow> string \<Rightarrow> string option \<Rightarrow> 'a secret_state_scheme
      \<Rightarrow> (app_error + retrieved) \<times> 'a secret_state_scheme" where
  "retrieve_with_request E app rq cn name request_id st =
     (case retrieve_data E app rq name (domain_param cn) \<lparr>h_mfa = cn_mfa cn, h_request_id = request_id\<rparr> (cn_client cn) st of
        (resp, st) \<Rightarrow>
          (and_then (api_value resp) (\<lambda>v. case v of Retrieved x \<Rightarrow> Inr x | ApprovalRequired r \<Rightarrow> Inl AppJson), st))"

section \<open>Commands on secrets\<close>

record put_args =
  pa_mfa :: bool
  pa_delete_on_read :: bool
  pa_max_reads :: "int option"
  pa_rotate :: bool
  pa_preserve :: bool
  pa_no_overwrite :: bool
  pa_overwrite :: bool
  pa_quorum :: "int option"
  pa_signatories :: "string list"
  pa_ext :: ext_flags

definition put_flags :: "'z put_args_scheme \<Rightarrow> resource_flags option" where
  "put_flags a =
     (if pa_mfa a \<or> pa_delete_on_read a \<or> pa_max_reads a \<noteq> None \<or> pa_rotate a \<or> pa_preserve a \<or> pa_no_overwrite a
      then Some \<lparr>mfa_required = pa_mfa a, delete_on_read = pa_delete_on_read a, max_reads = pa_max_reads a,
             rotate_on_read = pa_rotate a, preserve_on_cleanup = pa_preserve a, no_overwrite = pa_no_overwrite a\<rparr>
      else None)"

definition put_policy :: "'z put_args_scheme \<Rightarrow> app_error + access_policy option" where
  "put_policy a = (case pa_quorum a of
      Some k \<Rightarrow> if pa_signatories a = [] then Inl AppConfig else Inr (Some \<lparr>threshold_k = k, signatories = pa_signatories a\<rparr>)
    | None \<Rightarrow> if pa_signatories a = [] then Inr None else Inl AppConfig)"

text \<open>What \<open>cmd_put\<close> sends.\<close>

definition put_request ::
    "ext \<Rightarrow> ops_ext \<Rightarrow> shell \<Rightarrow> client_session \<Rightarrow> request \<Rightarrow> string \<Rightarrow> string \<Rightarrow> 'z put_args_scheme \<Rightarrow> app_error + store_request" where
  "put_request E K sh s rq name value a =
     and_then (resolve_ext_spec sh (pa_ext a) False) (\<lambda>spec.
       if spec \<noteq> None \<and> pa_rotate a then Inl AppConfig
       else
         and_then (put_policy a) (\<lambda>policy.
           (case spec of
              Some sp \<Rightarrow>
                and_then (ext_key_for_spec E sh sp s (ef_passphrase (pa_ext a))) (\<lambda>key.
                and_then (external_seal E K rq key (as_bytes value)) (\<lambda>envelope.
                  Inr (store_external name (b64_encode E envelope) (put_flags a) policy (pa_overwrite a))))
            | None \<Rightarrow> Inr (store_inner name value (put_flags a) policy (pa_overwrite a) None))))"

text \<open>The client draws from \<open>rq\<close>, the server from \<open>rq'\<close>.\<close>

definition cmd_put ::
    "ext \<Rightarrow> ops_ext \<Rightarrow> key_codec \<Rightarrow> app \<Rightarrow> connection \<Rightarrow> shell \<Rightarrow> client_session \<Rightarrow> request \<Rightarrow> request \<Rightarrow> string \<Rightarrow> string
      \<Rightarrow> 'z put_args_scheme \<Rightarrow> 'a secret_state_scheme \<Rightarrow> (app_error + store_reply) \<times> 'a secret_state_scheme" where
  "cmd_put E K Kc app cn sh s rq rq' name value a st = (case put_request E K sh s rq name value a of
      Inl e \<Rightarrow> (Inl e, st)
    | Inr req \<Rightarrow>
      (case store_data E Kc app rq' req (domain_param cn) (cn_client cn) st of (resp, st) \<Rightarrow> (api_value resp, st)))"

text \<open>The plaintext of a secret that was sealed by a client.\<close>

definition open_external ::
    "ext \<Rightarrow> ops_ext \<Rightarrow> shell \<Rightarrow> client_session \<Rightarrow> retrieved \<Rightarrow> string option \<Rightarrow> app_error + bytes" where
  "open_external E K sh s x explicit_pass =
     and_then (ok_or AppCrypto (rt_envelope x)) (\<lambda>envelope_b64.
     and_then (ok_or AppCrypto (b64_decode E envelope_b64)) (\<lambda>envelope.
     and_then (ext_decode envelope) (\<lambda>env. external_open E K sh env s explicit_pass)))"

text \<open>What \<open>cmd_get\<close> writes to the standard output; a secret of the server gets a newline.\<close>

definition cmd_get ::
    "ext \<Rightarrow> ops_ext \<Rightarrow> app \<Rightarrow> connection \<Rightarrow> shell \<Rightarrow> client_session \<Rightarrow> request \<Rightarrow> string \<Rightarrow> string option \<Rightarrow> string option
      \<Rightarrow> 'a secret_state_scheme \<Rightarrow> (app_error + bytes) \<times> 'a secret_state_scheme" where
  "cmd_get E K app cn sh s rq name request_id external_passphrase st =
     (case retrieve_with_request E app rq cn name request_id st of
        (Inl e, st) \<Rightarrow> (Inl e, st)
      | (Inr x, st) \<Rightarrow>
          (if rt_external x then open_external E K sh s x external_passphrase
           else Inr (as_bytes (rt_data x) @ [10]), st))"

definition cmd_rekey ::
    "ext \<Rightarrow> ops_ext \<Rightarrow> key_codec \<Rightarrow> app \<Rightarrow> connection \<Rightarrow> shell \<Rightarrow> client_session \<Rightarrow> request \<Rightarrow> request \<Rightarrow> request \<Rightarrow> string
      \<Rightarrow> string option \<Rightarrow> bool \<Rightarrow> string option \<Rightarrow> 'a secret_state_scheme \<Rightarrow> (app_error + unit) \<times> 'a secret_state_scheme" where
  "cmd_rekey E K Kc app cn sh s rq rq1 rq2 name old_passphrase external_key external_passphrase st =
     (case retrieve_with_request E app rq1 cn name None st of
        (Inl e, st) \<Rightarrow> (Inl e, st)
      | (Inr x, st) \<Rightarrow>
          if \<not> rt_external x then (Inl AppConfig, st)
          else
            (case and_then (open_external E K sh s x old_passphrase) (\<lambda>plain.
                and_then (rekey_target_key E s external_key external_passphrase) (\<lambda>new_key.
                  external_seal E K rq new_key plain)) of
               Inl e \<Rightarrow> (Inl e, st)
             | Inr new_env \<Rightarrow>
                 (case store_data E Kc app rq2 (store_external name (b64_encode E new_env) None None True)
                     (domain_param cn) (cn_client cn) st of
                    (resp, st) \<Rightarrow> (and_then (api_value resp) (\<lambda>_. Inr ()), st))))"

section \<open>Commands on files\<close>

record file_put_opts =
  po_mfa :: bool
  po_delete_on_read :: bool
  po_max_reads :: "int option"
  po_rotate :: bool
  po_preserve :: bool
  po_no_overwrite :: bool
  po_overwrite :: bool
  po_quorum :: "int option"
  po_signatories :: "string list"
  po_meta :: "string option"
  po_external :: bool
  po_resident :: bool
  po_component :: "string option"
  po_server_copy :: bool

definition query_flag :: "bool \<Rightarrow> bool option" where
  "query_flag b = (if b then Some True else None)"

definition file_put_query :: "file_put_opts \<Rightarrow> file_policy" where
  "file_put_query o' = \<lparr>fp_mfa = query_flag (po_mfa o'), fp_delete_on_read = query_flag (po_delete_on_read o'),
     fp_max_reads = po_max_reads o', fp_rotate_on_read = query_flag (po_rotate o'), fp_preserve = query_flag (po_preserve o'),
     fp_no_overwrite = query_flag (po_no_overwrite o'), fp_overwrite = query_flag (po_overwrite o'), fp_quorum = po_quorum o',
     fp_signatories = (if po_signatories o' = [] then None else Some (join_comma (po_signatories o'))),
     fp_external = query_flag (po_external o'), fp_meta = po_meta o', fp_resident = query_flag (po_resident o'),
     fp_component = po_component o', fp_server_copy = query_flag (po_server_copy o')\<rparr>"

record file_download =
  fd_bytes :: bytes
  fd_type :: "string option"
  fd_meta :: "string option"
  fd_component :: "string option"
  fd_resident :: bool

definition handle_download :: "file_reply response \<Rightarrow> app_error + file_download" where
  "handle_download resp = and_then (api_value resp) (\<lambda>v. (case v of
      FileData b mime meta \<Rightarrow> Inr \<lparr>fd_bytes = b, fd_type = mime, fd_meta = meta, fd_component = None, fd_resident = False\<rparr>
    | ResidentKey kc copy \<Rightarrow> Inr \<lparr>fd_bytes = [], fd_type = None, fd_meta = None, fd_component = Some kc, fd_resident = True\<rparr>
    | FileApproval r \<Rightarrow> Inl AppClient))"

record file_put_args = put_args +
  pa_mime :: "string option"
  pa_server_copy :: bool
  pa_shred :: bool

definition put_opts :: "file_put_args \<Rightarrow> bool \<Rightarrow> string option \<Rightarrow> string option \<Rightarrow> file_put_opts" where
  "put_opts a resident meta kc = \<lparr>po_mfa = pa_mfa a, po_delete_on_read = pa_delete_on_read a, po_max_reads = pa_max_reads a,
     po_rotate = (\<not> resident \<and> pa_rotate a), po_preserve = pa_preserve a, po_no_overwrite = pa_no_overwrite a,
     po_overwrite = pa_overwrite a, po_quorum = pa_quorum a, po_signatories = pa_signatories a, po_meta = meta,
     po_external = (meta \<noteq> None), po_resident = resident, po_component = kc, po_server_copy = (resident \<and> pa_server_copy a)\<rparr>"

text \<open>The last component of a path that names a file.\<close>

definition file_name :: "string \<Rightarrow> string" where
  "file_name path = rev (takeWhile (\<lambda>c. c \<noteq> CHR ''/'') (rev path))"

text \<open>
  The answer of the server to an upload is \<open>put\<close>, a function of the body, the type and the query:
  whether it accepted the file.
\<close>

definition put_resident ::
    "ext \<Rightarrow> ops_ext \<Rightarrow> stash_codec \<Rightarrow> (bytes \<Rightarrow> string option \<Rightarrow> file_policy \<Rightarrow> bool) \<Rightarrow> shell \<Rightarrow> request \<Rightarrow> string \<Rightarrow> string
      \<Rightarrow> string \<Rightarrow> ext_key \<Rightarrow> bytes \<Rightarrow> file_put_args \<Rightarrow> (app_error, unit) io" where
  "put_resident E K J put sh rq domain_name name path key body a =
     io_bind (io_lift (resident_seal E K J rq key body name)) (\<lambda>(stash, kc).
     io_bind (io_lift (resident_dir sh)) (\<lambda>dir.
       (let stash_id = hex_encode E (rand rq 89 16) @ ''.bbkr''; stash_path = path_join dir stash_id
        in io_bind (io_do (WriteFile stash_path stash (sh_new_mode sh))) (\<lambda>_.
           io_bind (io_lift (if pa_server_copy a then and_then (resident_parse J stash) (\<lambda>(h, ct). Inr ct) else Inr [0])) (\<lambda>upload.
             if put upload (pa_mime a) (file_put_query (put_opts a True None (Some kc)))
             then
               io_bind (\<lambda>d. resident_index_save J sh (AList.update (resident_key domain_name name) stash_id (resident_index_load J sh d)) d)
                 (\<lambda>_. if pa_shred a then io_ignore (secure_delete () rq 400 path) else io_return ())
             else io_bind (io_ignore (secure_delete () rq 300 stash_path)) (\<lambda>_. io_fail AppClient))))))"

definition put_in_server ::
    "ext \<Rightarrow> ops_ext \<Rightarrow> (bytes \<Rightarrow> string option \<Rightarrow> file_policy \<Rightarrow> bool) \<Rightarrow> shell \<Rightarrow> client_session \<Rightarrow> request
      \<Rightarrow> ext_spec option \<Rightarrow> bytes \<Rightarrow> file_put_args \<Rightarrow> app_error + unit" where
  "put_in_server E K put sh s rq spec body a =
     and_then (case spec of
        Some sp \<Rightarrow>
          and_then (ext_key_for_spec E sh sp s (ef_passphrase (pa_ext a))) (\<lambda>key.
          and_then (external_seal_parts E K rq key body) (\<lambda>(meta, ct). Inr (ct, Some (b64_encode E meta))))
      | None \<Rightarrow> Inr (body, None)) (\<lambda>(upload, meta).
        if put upload (pa_mime a) (file_put_query (put_opts a False meta None)) then Inr () else Inl AppClient)"

definition cmd_file_put ::
    "ext \<Rightarrow> ops_ext \<Rightarrow> stash_codec \<Rightarrow> (bytes \<Rightarrow> string option \<Rightarrow> file_policy \<Rightarrow> bool) \<Rightarrow> shell \<Rightarrow> client_session \<Rightarrow> request
      \<Rightarrow> string \<Rightarrow> string option \<Rightarrow> string \<Rightarrow> file_put_args \<Rightarrow> (app_error, unit) io" where
  "cmd_file_put E K J put sh s rq domain_name name_flag path a = io_bind (io_read AppIo path) (\<lambda>body.
     (let name = (case name_flag of Some n \<Rightarrow> n | None \<Rightarrow> file_name path)
      in if name = [] then io_fail AppConfig
         else
           io_bind (io_lift (resolve_ext_spec sh (pa_ext a) True)) (\<lambda>spec.
             if spec \<noteq> None \<and> pa_rotate a then io_fail AppConfig
             else
               (case spec of
                  Some sp \<Rightarrow>
                    if es_data sp = Resident
                    then
                      io_bind (io_lift (put_policy a)) (\<lambda>_.
                      io_bind (io_lift (ext_key_for_spec E sh sp s (ef_passphrase (pa_ext a)))) (\<lambda>key.
                        put_resident E K J put sh rq domain_name name path key body a))
                    else if pa_server_copy a \<or> pa_shred a then io_fail AppConfig
                    else io_bind (io_lift (put_policy a)) (\<lambda>_. io_lift (put_in_server E K put sh s rq spec body a))
                | None \<Rightarrow>
                    if pa_server_copy a \<or> pa_shred a then io_fail AppConfig
                    else io_bind (io_lift (put_policy a)) (\<lambda>_. io_lift (put_in_server E K put sh s rq spec body a))))))"

text \<open>The contents of a downloaded file; \<open>dl\<close> is the answer of the server.\<close>

definition open_uploaded ::
    "ext \<Rightarrow> ops_ext \<Rightarrow> shell \<Rightarrow> client_session \<Rightarrow> bytes \<Rightarrow> string \<Rightarrow> string option \<Rightarrow> app_error + bytes" where
  "open_uploaded E K sh s b meta_b64 explicit_pass =
     and_then (ok_or AppCrypto (b64_decode E meta_b64)) (\<lambda>meta.
     and_then (ext_decode (meta @ b)) (\<lambda>env. external_open E K sh env s explicit_pass))"

definition open_stash ::
    "ext \<Rightarrow> ops_ext \<Rightarrow> stash_codec \<Rightarrow> shell \<Rightarrow> client_session \<Rightarrow> string \<Rightarrow> string \<Rightarrow> string \<Rightarrow> string option \<Rightarrow> (app_error, bytes) io" where
  "open_stash E K J sh s domain_name name kc explicit_pass d =
     (case map_of (resident_index_load J sh d) (resident_key domain_name name) of
        None \<Rightarrow> (Inl AppConfig, [])
      | Some stash_id \<Rightarrow>
          io_bind (io_lift (resident_dir sh)) (\<lambda>dir.
          io_bind (io_read AppConfig (path_join dir stash_id)) (\<lambda>stash.
          io_bind (io_lift (resident_parse J stash)) (\<lambda>(header, ct).
            io_lift (resident_open E K sh header ct kc s explicit_pass)))) d)"

definition cmd_file_get ::
    "ext \<Rightarrow> ops_ext \<Rightarrow> stash_codec \<Rightarrow> (app_error + file_download) \<Rightarrow> shell \<Rightarrow> client_session \<Rightarrow> string \<Rightarrow> string \<Rightarrow> string option
      \<Rightarrow> string option \<Rightarrow> (app_error, bytes) io" where
  "cmd_file_get E K J dl sh s domain_name name path external_passphrase = io_bind (io_lift dl) (\<lambda>dl.
     io_bind (if fd_resident dl
              then (case fd_component dl of
                      None \<Rightarrow> io_fail AppCrypto
                    | Some kc \<Rightarrow> open_stash E K J sh s domain_name name kc external_passphrase)
              else (case fd_meta dl of
                      Some meta \<Rightarrow> io_lift (open_uploaded E K sh s (fd_bytes dl) meta external_passphrase)
                    | None \<Rightarrow> io_return (fd_bytes dl))) (\<lambda>b.
       if path = Some ''-'' then io_return b
       else io_bind (io_do (WriteFile (case path of Some p \<Rightarrow> p | None \<Rightarrow> name) b (sh_new_mode sh))) (\<lambda>_. io_return b)))"

definition rekey_stash ::
    "ext \<Rightarrow> ops_ext \<Rightarrow> stash_codec \<Rightarrow> shell \<Rightarrow> client_session \<Rightarrow> request \<Rightarrow> ext_key \<Rightarrow> string option \<Rightarrow> string \<Rightarrow> (app_error, unit) io" where
  "rekey_stash E K J sh s rq new_key old_passphrase stash_id = io_bind (io_lift (resident_dir sh)) (\<lambda>dir.
     (let stash_path = path_join dir stash_id
      in io_bind (io_read AppConfig stash_path) (\<lambda>stash.
         io_bind (io_lift (resident_parse J stash)) (\<lambda>(header, ct).
         io_bind (io_lift (resident_unwrap_client_half E K sh header s old_passphrase)) (\<lambda>kf_c.
         io_bind (io_lift (resident_rewrap E K J rq new_key kf_c ct (rh_orig_name header))) (\<lambda>new_stash.
           (let tmp = with_extension stash_path ''bbkr.tmp''
            in io_bind (io_do (WriteFile tmp new_stash (sh_new_mode sh))) (\<lambda>_. io_do (Rename tmp stash_path)))))))))"

definition rekey_uploaded ::
    "ext \<Rightarrow> ops_ext \<Rightarrow> (bytes \<Rightarrow> string option \<Rightarrow> file_policy \<Rightarrow> bool) \<Rightarrow> (app_error + file_download) \<Rightarrow> shell \<Rightarrow> client_session
      \<Rightarrow> request \<Rightarrow> ext_key \<Rightarrow> string option \<Rightarrow> app_error + unit" where
  "rekey_uploaded E K put dl sh s rq new_key old_passphrase = and_then dl (\<lambda>dl.
     if fd_resident dl then Inl AppConfig
     else
       and_then (ok_or AppConfig (fd_meta dl)) (\<lambda>meta_b64.
       and_then (open_uploaded E K sh s (fd_bytes dl) meta_b64 old_passphrase) (\<lambda>plain.
       and_then (external_seal_parts E K rq new_key plain) (\<lambda>(meta, ct).
         if put ct (fd_type dl) (file_put_query
              \<lparr>po_mfa = False, po_delete_on_read = False, po_max_reads = None, po_rotate = False, po_preserve = False,
               po_no_overwrite = False, po_overwrite = True, po_quorum = None, po_signatories = [],
               po_meta = Some (b64_encode E meta), po_external = True, po_resident = False, po_component = None,
               po_server_copy = False\<rparr>)
         then Inr () else Inl AppClient))))"

definition cmd_file_rekey ::
    "ext \<Rightarrow> ops_ext \<Rightarrow> stash_codec \<Rightarrow> (bytes \<Rightarrow> string option \<Rightarrow> file_policy \<Rightarrow> bool) \<Rightarrow> (app_error + file_download) \<Rightarrow> shell
      \<Rightarrow> client_session \<Rightarrow> request \<Rightarrow> string \<Rightarrow> string \<Rightarrow> string option \<Rightarrow> bool \<Rightarrow> string option \<Rightarrow> (app_error, unit) io" where
  "cmd_file_rekey E K J put dl sh s rq domain_name name old_passphrase external_key external_passphrase =
     io_bind (io_lift (rekey_target_key E s external_key external_passphrase)) (\<lambda>new_key.
       \<lambda>d. (case map_of (resident_index_load J sh d) (resident_key domain_name name) of
              Some stash_id \<Rightarrow> rekey_stash E K J sh s rq new_key old_passphrase stash_id d
            | None \<Rightarrow> io_lift (rekey_uploaded E K put dl sh s rq new_key old_passphrase) d))"

section \<open>Secrets sealed by the client\<close>

lemma store_reply_code: "store_data E K app rq req q c st = (Reply k v, st') \<Longrightarrow> k = 201"
  by (auto simp: store_data_def store_checked_def insert_secret_def Let_def external_blob_def resolve_and_gate_domain_def
      policy_value_no_reply split: option.splits if_splits sum.splits prod.splits response.splits)

lemma api_value_Inr: "api_value r = Inr v \<longleftrightarrow> (\<exists>c. r = Reply c v \<and> 200 \<le> c \<and> c < 300)"
  by (cases r) (auto simp: api_value_def)

lemma put_flags_of:
  "mfa_required (case put_flags a of None \<Rightarrow> default_flags | Some f \<Rightarrow> f) = pa_mfa a"
  "max_reads (case put_flags a of None \<Rightarrow> default_flags | Some f \<Rightarrow> f) = pa_max_reads a"
  by (auto simp: put_flags_def default_flags_def)

lemma put_request_sealed:
  assumes "put_request E K sh s rq name value a = Inr req" and "resolve_ext_spec sh (pa_ext a) False = Inr (Some sp)"
    and "ext_key_for_spec E sh sp s (ef_passphrase (pa_ext a)) = Inr key" and "pa_quorum a = None"
  obtains meta ct where "external_seal_parts E K rq key (as_bytes value) = Inr (meta, ct)"
    "req = store_external name (b64_encode E (meta @ ct)) (put_flags a) None (pa_overwrite a)"
  using assms
  by (auto simp: put_request_def put_policy_def external_seal_def elim!: and_then_InrE split: if_splits)

text \<open>What a read leaves of the domains.\<close>

lemma consume_domains [simp]: "domains (consume_grant_uses is st) = domains st"
  by (induction "is" st rule: consume_grant_uses.induct) simp_all

lemma gate_domains: "domains (snd (threshold_gate E app rq c kind d name pol i st)) = domains st"
proof -
  obtain s st1 where cr: "create_access_request E app rq c kind d name pol st = (s, st1)" by fastforce
  have "domains st1 = domains st"
    using cr by (auto simp: create_access_request_def Let_def split: option.splits sum.splits if_splits)
  then show ?thesis using cr
    by (cases i) (simp_all add: threshold_gate_def gate_with_request_def gate_without_request_def Let_def mark_consumed_def
        split: option.split)
qed

lemma mfa_gate_domains: "domains (snd (mfa_gate E app rq c name code req st)) = domains st"
proof -
  have "domains (snd (verify_totp E rq kek i x st)) = domains st" for kek i x
    by (simp add: verify_totp_def split: option.split sum.split)
  then show ?thesis by (auto simp: mfa_gate_def Let_def split: option.splits sum.splits prod.splits if_splits) (metis snd_conv)+
qed

lemma retrieve_domains:
  assumes "retrieve_data E app rq i q h c st = (Reply 200 (Retrieved x), st')"
  shows "domains st' = domains st"
proof -
  obtain d r name where r: "retrieve_allowed E app rq h c d (acl_check E app rq c d name Read st) name r st = (Reply 200 (Retrieved x), st')"
    using retrieve_Retrieved [OF assms] by blast
  let ?dec = "acl_check E app rq c d name Read st"
  obtain g st1 where g: "policy_gate E app rq c d name (sr_policy r) (h_request_id h) st = (g, st1)" by fastforce
  have d1: "domains st1 = domains st"
    using g gate_domains [of E app rq c "''secret''" d name "the (sr_policy r)" "h_request_id h" st]
    by (cases "sr_policy r") (auto simp: policy_gate_def)
  have P: "g = Proceed" using r g by (auto simp: retrieve_allowed_def Let_def split: if_splits option.splits gate.splits)
  obtain m st2 where m: "mfa_gate E app rq c name (h_mfa h) (mfa_required (sr_flags r)) st1
      = (m :: retrieve_reply response option, st2)" by fastforce
  have d2: "domains st2 = domains st1" using mfa_gate_domains [of E app rq c name "h_mfa h" "mfa_required (sr_flags r)" st1] m
    by (metis snd_conv)
  have "m = None" using r g m P
    by (auto simp: retrieve_allowed_def Let_def mfa_gate_def split: if_splits option.splits sum.splits prod.splits)
  then have "serve_read E app rq c ?dec name r st2 = (Reply 200 (Retrieved x), st')"
    using r g m P by (auto simp: retrieve_allowed_def Let_def split: if_splits option.splits)
  then show ?thesis using d1 d2 by (auto simp: serve_read_def Let_def split: option.splits sum.splits prod.splits)
qed

lemma retrieve_code: "retrieve_data E app rq i q h c st = (Reply k (Retrieved x), st') \<Longrightarrow> k = 200"
  by (auto simp: retrieve_data_def retrieve_allowed_def serve_read_def resolve_and_gate_domain_def mfa_gate_def Let_def
      split: option.splits if_splits sum.splits prod.splits gate.splits)

text \<open>A read of a secret with \<open>delete_on_read\<close> removes its row.\<close>

lemma read_deletes:
  assumes "retrieve_data E app rq i q h c st = (Reply 200 (Retrieved x), st')"
    and "resolve_and_gate_domain E app c q st = (Inr (d, n) :: retrieve_reply response + string \<times> string)"
    and "lookup_secret E app d i st = Some r" and "delete_on_read (sr_flags r)"
    and "y \<in> set (secrets st')"
  shows "sr_id y \<noteq> sr_id r" and "\<exists>z \<in> set (secrets st). sr_id z = sr_id y \<and> sr_domain z = sr_domain y \<and> sr_name_id z = sr_name_id y"
proof -
  obtain name where r: "retrieve_allowed E app rq h c d (acl_check E app rq c d name Read st) name r st = (Reply 200 (Retrieved x), st')"
    using retrieve_Retrieved [OF assms(1)] assms(2,3) by auto
  from r obtain k rows where k: "claim_for r (secrets st) = (Some k, rows)" "secrets st' = snd (post_read rq r k rows)"
    by (cases rule: retrieve_allowed_Retrieved) auto
  then have y: "y \<in> set rows" "sr_id y \<noteq> sr_id r" using assms(4,5) by (auto simp: post_read_def delete_where_def)
  then show "sr_id y \<noteq> sr_id r" by simp
  show "\<exists>z \<in> set (secrets st). sr_id z = sr_id y \<and> sr_domain z = sr_domain y \<and> sr_name_id z = sr_name_id y"
    using k(1) y(1)
    by (auto simp: claim_for_def claim_read_def update_where_def bump_reads_def split: option.splits prod.splits if_splits) blast+
qed

section \<open>Properties of the commands on secrets\<close>

text \<open>
  C22. What a client seals comes back through the server: a new secret put with a key of the
  client, its master key or a passphrase, is stored as an envelope and printed unchanged by the get
  of every client that the rules of the server let read it and that holds the key.
\<close>

theorem sealed_secret_returns:
  assumes "gcm_law E" and "b64_law E" and "utf8_str name"
    and "resolve_ext_spec sh (pa_ext a) False = Inr (Some sp)" and "ext_key_for_spec E sh sp s (ef_passphrase (pa_ext a)) = Inr key"
    and "cmd_put E K Kc app cn sh s rq rq1 name value a st = (Inr (Stored i), st1)"
    and "resolve_and_gate_domain E app (cn_client cn) (domain_param cn) st = (Inr (d, n) :: store_reply response + string \<times> string)"
    and "resolve_and_gate_domain E app (cn_client cn') (domain_param cn') st1
      = (Inr (d, n') :: retrieve_reply response + string \<times> string)"
    and "pa_quorum a = None" and "\<not> pa_mfa a" and "case pa_max_reads a of None \<Rightarrow> True | Some m \<Rightarrow> 0 < m"
    and "\<not> list_ex (\<lambda>r. sr_id r = name) (secrets st)"
    and "is_allowed (acl_check E app rq2 (cn_client cn') d name Read st1)"
    and "holds_key E sh' s' pass key"
  shows "fst (cmd_get E K app cn' sh' s' rq2 name request_id pass st1) = Inr (as_bytes value)"
proof -
  obtain req resp where req: "put_request E K sh s rq name value a = Inr req"
    "store_data E Kc app rq1 req (domain_param cn) (cn_client cn) st = (resp, st1)" "api_value resp = Inr (Stored i)"
    using assms(6) by (auto simp: cmd_put_def split: sum.splits prod.splits)
  from put_request_sealed [OF req(1) assms(4,5,9)] obtain meta ct where sealed:
    "external_seal_parts E K rq key (as_bytes value) = Inr (meta, ct)"
    "req = store_external name (b64_encode E (meta @ ct)) (put_flags a) None (pa_overwrite a)" .
  have store: "store_data E Kc app rq1 req (domain_param cn) (cn_client cn) st = (Reply 201 (Stored i), st1)"
    using req(2,3) store_reply_code unfolding api_value_Inr by metis
  have f: "sq_name req = name" "sq_data req = []" "sq_policy req = None" "sq_flags req = put_flags a"
    "sq_external req = Some (b64_encode E (meta @ ct))"
    by (simp_all add: sealed(2) store_external_def store_inner_def)
  obtain x st2 where x: "retrieve_data E app rq2 name (domain_param cn') \<lparr>h_mfa = cn_mfa cn', h_request_id = request_id\<rparr> (cn_client cn') st1
      = (Reply 200 (Retrieved x), st2)"
    "map_option (b64_decode E) (rt_envelope x) = Some (b64_decode E (b64_encode E (meta @ ct)))" "rt_external x"
    using stored_readable [OF assms(1,2) _ _ store assms(7,8), of rq2 "\<lparr>h_mfa = cn_mfa cn', h_request_id = request_id\<rparr>"]
      assms(3,10-13) ascii_utf8 [of "[]"] by (auto simp: f put_flags_of)
  from external_sealed [OF assms(1) sealed(1)] obtain env where env: "ext_decode (meta @ ct) = Inr env"
    "external_open E K sh' env s' pass = Inr (as_bytes value)" using assms(14) by metis
  have "open_external E K sh' s' x pass = Inr (as_bytes value)"
    using x(2) env assms(2) by (auto simp: open_external_def b64_law_def)
  then show ?thesis using x(1,3) by (simp add: cmd_get_def retrieve_with_request_def api_value_def)
qed

text \<open>
  C25. A change of the key lifts the read limit: re-keying a secret that is to be deleted on its
  first read reads it, so that its row is gone, and stores it anew without flags and without
  policy; when the command reports success the secret can be read without limit.
\<close>

theorem rekey_lifts_limit:
  assumes "cmd_rekey E K Kc app cn sh s rq rq1 rq2 name old external_key new st = (Inr (), st')"
    and "resolve_and_gate_domain E app (cn_client cn) (domain_param cn) st = (Inr (d, n) :: retrieve_reply response + string \<times> string)"
    and "lookup_secret E app d name st = Some r" and "delete_on_read (sr_flags r)"
    and "\<forall>q \<in> set (secrets st). sr_domain q = d \<and> sr_name_id q = name_id_hex E (name_index_key app) d name \<longrightarrow> sr_id q = sr_id r"
  shows "\<exists>r' \<in> set (secrets st'). sr_domain r' = d \<and> sr_name_id r' = name_id_hex E (name_index_key app) d name
    \<and> sr_flags r' = default_flags \<and> sr_policy r' = None \<and> read_cap (sr_flags r') = None"
proof -
  let ?q = "domain_param cn" and ?c = "cn_client cn" and ?h = "\<lparr>h_mfa = cn_mfa cn, h_request_id = None\<rparr>"
  let ?id = "name_id_hex E (name_index_key app) d name"
  obtain x st1 where rt: "retrieve_with_request E app rq1 cn name None st = (Inr x, st1)"
    using assms(1) by (auto simp: cmd_rekey_def split: prod.splits sum.splits)
  obtain env resp where sd: "store_data E Kc app rq2 (store_external name env None None True) ?q ?c st1 = (resp, st')"
    "\<exists>v. api_value resp = Inr v"
    using assms(1) rt by (auto simp: cmd_rekey_def elim!: and_then_InrE split: if_splits sum.splits prod.splits)
  obtain k where k: "retrieve_data E app rq1 name ?q ?h ?c st = (Reply k (Retrieved x), st1)"
    using rt by (auto simp: retrieve_with_request_def api_value_Inr elim!: and_then_InrE split: prod.splits retrieve_reply.splits)
  then have rd: "retrieve_data E app rq1 name ?q ?h ?c st = (Reply 200 (Retrieved x), st1)"
    by (metis retrieve_code)
  have resp: "\<exists>v. resp = Reply 201 v" using sd store_reply_code unfolding api_value_Inr by blast
  note gone = read_deletes [OF rd assms(2-4)]
  from sd(1) show ?thesis
  proof (cases rule: store_data_cases)
    case refused
    then show ?thesis using resp by auto
  next
    case (overwritten d' n' blob e p)
    have "resolve_domain E app n' st1 = Some d'" "n' = domain_query ?q" "resolve_domain E app n st = Some d" "n = domain_query ?q"
      using overwritten(1) assms(2) by (auto simp: resolve_and_gate_domain_def Let_def split: option.splits if_splits)
    then have "d' = d" using retrieve_domains [OF rd] by (auto simp: resolve_domain_def domain_by_name_def)
    then have "e \<in> set (secrets st1)" "sr_domain e = d" "sr_name_id e = ?id"
      using find_SomeD [OF overwritten(2)] by (simp_all add: store_external_def store_inner_def)
    with gone [of e] assms(5) show ?thesis by metis
  next
    case (inserted d' n' blob p i st2)
    have "resolve_domain E app n' st1 = Some d'" "n' = domain_query ?q" "resolve_domain E app n st = Some d" "n = domain_query ?q"
      using inserted(1) assms(2) by (auto simp: resolve_and_gate_domain_def Let_def split: option.splits if_splits)
    then have "d' = d" using retrieve_domains [OF rd] by (auto simp: resolve_domain_def domain_by_name_def)
    obtain l1 l2 w ev where p: "p = (l1, l2, w, ev)" by (cases p) auto
    from inserted(5) [unfolded p] obtain r' where "secrets st2 = secrets st1 @ [r']" "sr_domain r' = d'" "sr_name_id r' = ?id"
      "sr_flags r' = default_flags" "policy_value E app st1 None = (Inr (sr_policy r') :: store_reply response + access_policy option)"
      by (rule insert_secret_row) (auto simp: store_external_def store_inner_def \<open>d' = d\<close>)
    then show ?thesis using inserted(6) \<open>d' = d\<close>
      by (intro bexI [of _ r']) (simp_all add: policy_value_def read_cap_def default_flags_def)
  qed
qed

section \<open>Resident files on the client's disk\<close>

text \<open>
  What a program keeps, whenever it is cut off, except in the middle of a write that truncates the
  file \<open>x\<close>.
\<close>

definition keeps :: "string \<Rightarrow> (disk \<Rightarrow> bool) \<Rightarrow> ('e, 'a) io \<Rightarrow> bool" where
  "keeps x Q c \<longleftrightarrow> (\<forall>d k j. Q d \<longrightarrow> \<not> tears x k j (snd (c d)) \<longrightarrow> Q (fs_cut k j (snd (c d)) d))"

lemma keepsD:
  "keeps x Q c \<Longrightarrow> c d = (r, ops) \<Longrightarrow> Q d \<Longrightarrow> \<not> tears x k j ops \<Longrightarrow> Q (fs_cut k j ops d)"
  "keeps x Q c \<Longrightarrow> c d = (r, ops) \<Longrightarrow> Q d \<Longrightarrow> Q (fs_run ops d)"
proof -
  show "keeps x Q c \<Longrightarrow> c d = (r, ops) \<Longrightarrow> Q d \<Longrightarrow> \<not> tears x k j ops \<Longrightarrow> Q (fs_cut k j ops d)" for k j
    unfolding keeps_def by (metis snd_conv)
  from this [of "length ops" None] show "keeps x Q c \<Longrightarrow> c d = (r, ops) \<Longrightarrow> Q d \<Longrightarrow> Q (fs_run ops d)" by simp
qed

lemma keeps_ops:
  assumes "\<And>d op d'. op \<in> set (snd (c d)) \<Longrightarrow> Q d' \<Longrightarrow> Q (fs_apply op d')"
    and "\<And>d op d' i. op \<in> set (snd (c d)) \<Longrightarrow> Q d' \<Longrightarrow> Q (fs_torn i op d')"
  shows "keeps x Q c"
  unfolding keeps_def
proof (intro allI impI)
  fix d k j
  assume "Q d"
  have "Q (fs_cut k j ops d')" if "set ops \<subseteq> set (snd (c d))" "Q d'" for ops d'
    using that
  proof (induction ops arbitrary: k d')
    case (Cons op ops)
    then show ?case using assms [of op d] by (cases k; cases j) auto
  qed simp
  then show "Q (fs_cut k j (snd (c d)) d)" using \<open>Q d\<close> by simp
qed

lemma keeps_bind_result:
  assumes "keeps y Q c" and "\<And>d x ops. c d = (Inr x, ops) \<Longrightarrow> keeps y Q (f x)"
  shows "keeps y Q (io_bind c f)"
  unfolding keeps_def
proof (intro allI impI)
  fix d k j
  assume q: "Q d" and t: "\<not> tears y k j (snd (io_bind c f d))"
  obtain r ops where c: "c d = (r, ops)" by force
  show "Q (fs_cut k j (snd (io_bind c f d)) d)"
  proof (cases r)
    case (Inl e)
    then show ?thesis using keepsD(1) [OF assms(1) c q] c t by (simp add: io_bind_def)
  next
    case (Inr x)
    obtain r' ops' where f: "f x (fs_run ops d) = (r', ops')" by force
    have "keeps y Q (f x)" using assms(2) c Inr by blast
    from keepsD(1) [OF this f keepsD(2) [OF assms(1) c q]] keepsD(1) [OF assms(1) c q] show ?thesis
      using c f Inr t by (cases "k < length ops") (simp_all add: io_bind_def fs_cut_append tears_append)
  qed
qed

lemma keeps_bind: "keeps y Q c \<Longrightarrow> (\<And>x. keeps y Q (f x)) \<Longrightarrow> keeps y Q (io_bind c f)"
  by (rule keeps_bind_result)

lemma keeps_basic: "keeps y Q (io_lift r)" "keeps y Q (io_return x)" "keeps y Q (io_fail e)" "keeps y Q (io_exists p)" "keeps y Q (io_read e p)"
  by (simp_all add: keeps_def io_simps io_read_def)

lemma keeps_lift_bind: "(\<And>x. r = Inr x \<Longrightarrow> keeps y Q (f x)) \<Longrightarrow> keeps y Q (io_bind (io_lift r) f)"
  by (rule keeps_bind_result) (auto simp: keeps_basic io_simps)

lemma keeps_if: "(b \<Longrightarrow> keeps y Q c) \<Longrightarrow> (\<not> b \<Longrightarrow> keeps y Q c') \<Longrightarrow> keeps y Q (if b then c else c')"
  by simp

lemmas keeps_intros = keeps_lift_bind keeps_bind keeps_basic keeps_if

definition resident_file :: "string \<Rightarrow> string \<Rightarrow> string" where
  "resident_file h i = path_join (path_join (path_join h ''.bbk'') ''resident'') i"

definition stash_name :: "string \<Rightarrow> bool" where
  "stash_name i \<longleftrightarrow> (\<exists>x. i = x @ ''.bbkr'')"

text \<open>A key that some session or some passphrase gives.\<close>

definition usable :: "ext \<Rightarrow> ext_key \<Rightarrow> bool" where
  "usable E key \<longleftrightarrow> (\<exists>s pass. \<forall>sh. holds_key E sh s pass key)"

lemma usable_keys: "cmk_bytes E s = Some c \<Longrightarrow> usable E (ExtCmk c)" "p \<noteq> [] \<Longrightarrow> usable E (ExtPassphrase p)"
proof -
  show "cmk_bytes E s = Some c \<Longrightarrow> usable E (ExtCmk c)" unfolding usable_def holds_key_def by auto
  show "p \<noteq> [] \<Longrightarrow> usable E (ExtPassphrase p)" unfolding usable_def holds_key_def
    by (intro exI [of _ "Some p"] exI) (simp add: resolve_external_passphrase_for_read_def resolve_external_passphrase_opt_def flag_or_env_def
      nonempty_def)
qed

lemma usable_new_key: "rekey_target_key E s external_key pass = Inr key \<Longrightarrow> usable E key"
  by (auto simp: rekey_target_key_def nonempty_def ok_or_def intro: usable_keys split: option.splits if_splits)

lemma usable_spec_key: "ext_key_for_spec E sh sp s pass = Inr key \<Longrightarrow> usable E key"
  by (auto simp: ext_key_for_spec_def resolve_external_passphrase_for_read_def resolve_external_passphrase_opt_def flag_or_env_def
      nonempty_def ok_or_def intro: usable_keys elim!: and_then_InrE split: key_source.splits option.splits if_splits)

text \<open>
  The file with the index key \<open>k\<close> is kept: the index names its stash, which is no path of \<open>P\<close>, and
  the stash holds the contents under a usable key for the server half \<open>half\<close>.
\<close>

definition resident_kept ::
    "ext \<Rightarrow> ops_ext \<Rightarrow> stash_codec \<Rightarrow> string \<Rightarrow> string \<Rightarrow> bytes \<Rightarrow> string \<Rightarrow> string set \<Rightarrow> disk \<Rightarrow> bool" where
  "resident_kept E K J h k plain half P d \<longleftrightarrow>
     (\<exists>g idx i f key. d (resident_file h ''index.json'') = Some g \<and> index_parse J (contents_of g) = Some idx
        \<and> list_all (\<lambda>(k, i). stash_name i) idx \<and> map_of idx k = Some i \<and> resident_file h i \<notin> P
        \<and> d (resident_file h i) = Some f \<and> usable E key \<and> stash_of E K J key plain half (contents_of f))"

lemma resident_file_inject [simp]: "resident_file h i = resident_file h j \<longleftrightarrow> i = j"
  by (simp add: resident_file_def)

lemma stash_names: "stash_name i \<Longrightarrow> i \<noteq> ''index.json''" "stash_name i \<Longrightarrow> last (resident_file h i) = CHR ''r''"
  by (auto simp: stash_name_def resident_file_def)

lemma resident_paths:
  assumes "sh_home sh = Some h"
  shows "resident_dir sh = Inr (path_join (path_join h ''.bbk'') ''resident'')" and "resident_index_path sh = Inr (resident_file h ''index.json'')"
  using assms by (simp_all add: resident_dir_def resident_index_path_def resident_file_def)

text \<open>An operation on other paths.\<close>

definition harmless :: "string \<Rightarrow> string set \<Rightarrow> fs_op \<Rightarrow> bool" where
  "harmless h P op \<longleftrightarrow> resident_file h ''index.json'' \<notin> op_paths op
     \<and> (\<forall>i. stash_name i \<longrightarrow> resident_file h i \<in> op_paths op \<longrightarrow> resident_file h i \<in> P)"

lemma fs_apply_other: "p \<notin> op_paths op \<Longrightarrow> fs_apply op d p = d p"
  by (cases op) auto

lemma kept_harmless:
  assumes "harmless h P op" and "resident_kept E K J h k plain half P d"
  shows "resident_kept E K J h k plain half P (fs_apply op d)" and "resident_kept E K J h k plain half P (fs_torn j op d)"
proof -
  obtain g idx i f key where r: "d (resident_file h ''index.json'') = Some g" "index_parse J (contents_of g) = Some idx"
    "list_all (\<lambda>(k, i). stash_name i) idx" "map_of idx k = Some i" "resident_file h i \<notin> P"
    "d (resident_file h i) = Some f" "stash_of E K J key plain half (contents_of f)" "usable E key"
    using assms(2) by (auto simp: resident_kept_def)
  have "stash_name i" using map_of_SomeD [OF r(4)] r(3) by (auto simp: list_all_iff)
  then have "resident_file h i \<notin> op_paths op" "resident_file h ''index.json'' \<notin> op_paths op"
    using assms(1) r(5) by (auto simp: harmless_def)
  then show "resident_kept E K J h k plain half P (fs_apply op d)" "resident_kept E K J h k plain half P (fs_torn j op d)"
    using r unfolding resident_kept_def by (metis fs_apply_other, metis fs_torn_spared)
qed

lemma kept_do: "harmless h P op \<Longrightarrow> keeps (resident_file h ''index.json'') (resident_kept E K J h k plain half P) (io_do op)"
  by (rule keeps_ops) (auto simp: io_simps intro: kept_harmless)

lemma kept_mono: "resident_kept E K J h k plain half P d \<Longrightarrow> resident_kept E K J h k plain half {} d"
  unfolding resident_kept_def by blast

text \<open>A path outside the directory of stashes.\<close>

definition outside :: "string \<Rightarrow> string \<Rightarrow> bool" where
  "outside h p \<longleftrightarrow> (\<forall>i. p \<noteq> resident_file h i)"

lemma outside_harmless: "outside h p \<Longrightarrow> op_paths op \<subseteq> {p} \<Longrightarrow> harmless h P op"
  by (auto simp: outside_def harmless_def)

lemma delete_paths: "op \<in> set (snd (secure_delete e rq n p d)) \<Longrightarrow> op_paths op = {p}"
  by (auto simp: secure_delete_def split: option.splits if_splits)

lemma kept_scrub:
  assumes "outside h p \<or> p \<in> P \<and> p \<noteq> resident_file h ''index.json''"
  shows "keeps (resident_file h ''index.json'') (resident_kept E K J h k plain half P) (io_ignore (secure_delete () rq n p))"
proof -
  have kept: "resident_kept E K J h k plain half P (fs_apply op d')" "resident_kept E K J h k plain half P (fs_torn i op d')"
    if op: "op \<in> set (snd (io_ignore (secure_delete () rq n p) d))" and k: "resident_kept E K J h k plain half P d'" for d op d' i
  proof -
    have "op_paths op = {p}" using op delete_paths by (metis io_ignore_def snd_conv)
    then have "harmless h P op" using assms by (auto simp: harmless_def outside_def)
    from kept_harmless [OF this k] show "resident_kept E K J h k plain half P (fs_apply op d')"
      "resident_kept E K J h k plain half P (fs_torn i op d')" by simp_all
  qed
  show ?thesis by (rule keeps_ops) (rule kept; assumption)+
qed

lemma index_loaded:
  assumes "sh_home sh = Some h" and "d (resident_file h ''index.json'') = Some g" and "index_parse J (contents_of g) = Some idx"
  shows "resident_index_load J sh d = idx"
  using assms by (simp add: resident_index_load_def resident_paths)

lemma names_updated:
  assumes "list_all (\<lambda>(k, i). stash_name i) idx" and "stash_name i'"
  shows "list_all (\<lambda>(k, i). stash_name i) (AList.update k' i' idx)"
proof -
  have "set (AList.update k' i' idx) \<subseteq> insert (k', i') (set idx)" by (induction idx) auto
  then show ?thesis using assms by (auto simp: list_all_iff)
qed

text \<open>An entry for another file.\<close>

lemma kept_index_save:
  assumes "stash_codec_law J" and "sh_home sh = Some h" and "k' \<noteq> k" and "stash_name i'"
  shows "keeps (resident_file h ''index.json'') (resident_kept E K J h k plain half P)
    (\<lambda>d. resident_index_save J sh (AList.update k' i' (resident_index_load J sh d)) d)"
  unfolding keeps_def
proof (intro allI impI)
  fix d n j
  assume kept: "resident_kept E K J h k plain half P d"
    and whole: "\<not> tears (resident_file h ''index.json'') n j
      (snd (resident_index_save J sh (AList.update k' i' (resident_index_load J sh d)) d))"
  obtain g idx i f key where r: "d (resident_file h ''index.json'') = Some g" "index_parse J (contents_of g) = Some idx"
    "list_all (\<lambda>(k, i). stash_name i) idx" "map_of idx k = Some i" "resident_file h i \<notin> P"
    "d (resident_file h i) = Some f" "stash_of E K J key plain half (contents_of f)" "usable E key"
    using kept by (auto simp: resident_kept_def)
  have i: "stash_name i" using map_of_SomeD [OF r(4)] r(3) by (auto simp: list_all_iff)
  let ?idx = "AList.update k' i' idx"
  let ?op = "WriteFile (resident_file h ''index.json'') (index_print J ?idx) (sh_new_mode sh)"
  have "list_all (\<lambda>(k, i). stash_name i) ?idx" using r(3) assms(4) by (rule names_updated)
  moreover have "map_of ?idx k = Some i" using r(4) assms(3) by (simp add: update_conv)
  moreover have "fs_apply ?op d (resident_file h i) = d (resident_file h i)" using stash_names(1) [OF i] by (intro fs_apply_other) simp
  moreover have "index_parse J (index_print J ?idx) = Some ?idx" using assms(1) by (simp add: stash_codec_law_def)
  ultimately have n: "resident_kept E K J h k plain half P (fs_apply ?op d)"
    using r(5-8) unfolding resident_kept_def by fastforce
  have sv: "resident_index_save J sh (AList.update k' i' (resident_index_load J sh d)) d = (Inr (), [?op])"
    using index_loaded [of sh h d g J idx, OF assms(2) r(1,2)] resident_paths(2) [OF assms(2)] by (simp add: resident_index_save_def io_bind_def io_simps)
  have "j = None" if "n = 0" using whole that unfolding sv by (cases j) auto
  then show "resident_kept E K J h k plain half P
      (fs_cut n j (snd (resident_index_save J sh (AList.update k' i' (resident_index_load J sh d)) d)) d)"
    unfolding sv using n kept by (cases n) auto
qed

text \<open>The commands.\<close>

lemma kept_put:
  assumes "stash_codec_law J" and "sh_home sh = Some h" and "resident_key dom' name' \<noteq> k" and "outside h path"
    and "resident_file h (hex_encode E (rand rq 89 16) @ ''.bbkr'') \<in> P"
  shows "keeps (resident_file h ''index.json'') (resident_kept E K J h k plain half P) (put_resident E K J put sh rq dom' name' path key body a)"
proof -
  let ?i = "hex_encode E (rand rq 89 16) @ ''.bbkr''"
  have i: "stash_name ?i" by (auto simp: stash_name_def)
  have w: "harmless h P (WriteFile (resident_file h ?i) b m)" for b m
    using assms(5) stash_names(1) [OF i] by (auto simp: harmless_def)
  show ?thesis
    unfolding put_resident_def Let_def resident_paths(1) [OF assms(2)]
    by (auto intro!: keeps_intros kept_do kept_index_save [OF assms(1-3) i] kept_scrub [OF disjI1, OF assms(4)] kept_scrub [OF disjI2]
        simp: resident_file_def [symmetric] w assms(4,5) stash_names(1) [OF i] split: prod.splits)
qed

lemma kept_get:
  assumes "path \<noteq> Some ''-'' \<longrightarrow> outside h (case path of Some p \<Rightarrow> p | None \<Rightarrow> name')"
  shows "keeps (resident_file h ''index.json'') (resident_kept E K J h k plain half P) (cmd_file_get E K J dl sh s dom' name' path pass)"
proof -
  have "keeps y Q (open_stash E K J sh s dom' name' kc pass)" for kc y Q
    unfolding keeps_def
    by (auto simp: open_stash_def io_bind_def io_simps io_read_def split: option.splits sum.splits prod.splits)
  then show ?thesis using assms unfolding cmd_file_get_def
    by (auto intro!: keeps_intros kept_do outside_harmless split: option.splits)
qed

lemma tears_spared: "spares p c \<Longrightarrow> c d = (r, ops) \<Longrightarrow> \<not> tears p k j ops"
proof -
  assume s: "spares p c" "c d = (r, ops)"
  have "op \<in> set ops" if "drop k ops = op # ops'" for op ops' using that by (metis in_set_dropD list.set_intros(1))
  with sparesD [OF s] show ?thesis by (fastforce simp: tears_def split: list.splits fs_op.splits)
qed

lemma spares_get:
  assumes "path \<noteq> Some ''-'' \<longrightarrow> outside h (case path of Some p \<Rightarrow> p | None \<Rightarrow> name')"
  shows "spares (resident_file h ''index.json'') (cmd_file_get E K J dl sh s dom' name' path pass)"
proof -
  have "spares q (open_stash E K J sh s dom' name' kc pass)" for q kc
    by (auto simp: spares_def open_stash_def io_bind_def io_simps io_read_def split: option.splits sum.splits prod.splits)
  then show ?thesis using assms unfolding cmd_file_get_def
    by (auto intro!: spares_intros simp: outside_def split: option.splits if_splits)
qed

lemma tmp_no_stash:
  assumes "tmp = with_extension p ''bbkr.tmp''"
  shows "tmp \<noteq> resident_file h ''index.json''" and "stash_name i \<Longrightarrow> tmp \<noteq> resident_file h i"
proof -
  have "last tmp = CHR ''p''" by (simp add: assms with_extension_def Let_def)
  then show "tmp \<noteq> resident_file h ''index.json''" "stash_name i \<Longrightarrow> tmp \<noteq> resident_file h i"
    using stash_names(2) [of i h] by (auto simp: resident_file_def)
qed

text \<open>The headers that a change of keys writes are shorter than four gigabytes.\<close>

definition short_rewraps :: "ext \<Rightarrow> ops_ext \<Rightarrow> stash_codec \<Rightarrow> request \<Rightarrow> string \<Rightarrow> disk \<Rightarrow> bool" where
  "short_rewraps E K J rq h d \<longleftrightarrow>
     (\<forall>i f header ct key kf_c header'. d (resident_file h i) = Some f \<longrightarrow> resident_parse J (contents_of f) = Inr (header, ct) \<longrightarrow>
        length kf_c = 32 \<longrightarrow> wrap_half E K rq 90 key kf_c (rh_orig_name header) = Inr header' \<longrightarrow> length (header_print J header') < 2 ^ 32)"

lemma rekey_stash_ops:
  assumes "sh_home sh = Some h" and "rekey_stash E K J sh s rq new_key old i d = (r, ops)"
  obtains "ops = []" | f header ct kf_c stash' where "d (resident_file h i) = Some f" "resident_parse J (contents_of f) = Inr (header, ct)"
    "resident_unwrap_client_half E K sh header s old = Inr kf_c"
    "resident_rewrap E K J rq new_key kf_c ct (rh_orig_name header) = Inr stash'"
    "ops = [WriteFile (with_extension (resident_file h i) ''bbkr.tmp'') stash' (sh_new_mode sh),
       Rename (with_extension (resident_file h i) ''bbkr.tmp'') (resident_file h i)]"
  using assms(2)
  by (auto simp: rekey_stash_def resident_paths(1) [OF assms(1)] resident_file_def [symmetric] Let_def io_bind_def io_simps io_read_def
      split: sum.splits prod.splits option.splits)

lemma kept_rekey:
  assumes "gcm_bound E" and "b64_law E" and "stash_codec_law J" and "sh_home sh = Some h" and "short_rewraps E K J rq h d"
    and "cmd_file_rekey E K J put dl sh s rq dom' name' old ek ep d = (r, ops)" and "resident_kept E K J h k plain half {} d"
  shows "resident_kept E K J h k plain half {} (fs_cut n j ops d)"
proof -
  obtain g idx i f key where r: "d (resident_file h ''index.json'') = Some g" "index_parse J (contents_of g) = Some idx"
    "list_all (\<lambda>(k, i). stash_name i) idx" "map_of idx k = Some i"
    "d (resident_file h i) = Some f" "stash_of E K J key plain half (contents_of f)" "usable E key"
    using assms(7) by (auto simp: resident_kept_def)
  have nm: "stash_name j" if "map_of idx k' = Some j" for k' j using map_of_SomeD [OF that] r(3) by (auto simp: list_all_iff)
  note idx = index_loaded [of sh h d g J idx, OF assms(4) r(1,2)]
  consider "ops = []" | new_key l where "map_of idx (resident_key dom' name') = Some l" "rekey_stash E K J sh s rq new_key old l d = (r, ops)"
      "rekey_target_key E s ek ep = Inr new_key"
    using assms(6) by (auto simp: cmd_file_rekey_def io_bind_def io_simps idx split: sum.splits option.splits prod.splits)
  then show ?thesis
  proof cases
    case 1
    then show ?thesis using assms(7) by simp
  next
    case (2 new_key l)
    show ?thesis
    proof (rule rekey_stash_ops [OF assms(4) 2(2)])
      assume "ops = []"
      then show ?thesis using assms(7) by simp
    next
      fix f' header ct kf_c stash'
      let ?tmp = "with_extension (resident_file h l) ''bbkr.tmp''"
      assume o: "d (resident_file h l) = Some f'" "resident_parse J (contents_of f') = Inr (header, ct)"
        "resident_unwrap_client_half E K sh header s old = Inr kf_c"
        "resident_rewrap E K J rq new_key kf_c ct (rh_orig_name header) = Inr stash'"
        "ops = [WriteFile ?tmp stash' (sh_new_mode sh), Rename ?tmp (resident_file h l)]"
      define d1 where "d1 = fs_apply (WriteFile ?tmp stash' (sh_new_mode sh)) d"
      have t: "?tmp \<noteq> resident_file h ''index.json''" "?tmp \<noteq> resident_file h i" "?tmp \<noteq> resident_file h l"
        using tmp_no_stash(1) [OF refl] tmp_no_stash(2) [OF refl nm [OF r(4)]] tmp_no_stash(2) [OF refl nm [OF 2(1)]] by blast+
      have "harmless h {} (WriteFile ?tmp stash' (sh_new_mode sh))"
        unfolding harmless_def op_paths.simps using tmp_no_stash [OF refl] by (metis singletonD)
      note k1 = kept_harmless [OF this assms(7), folded d1_def]
      have short: "length kf_c = 32" using o(3) by (auto simp: resident_unwrap_client_half_def elim!: and_then_InrE split: if_splits)
      let ?d2 = "fs_apply (Rename ?tmp (resident_file h l)) d1"
      have d2: "?d2 (resident_file h ''index.json'') = Some g" "map_option contents_of (?d2 (resident_file h l)) = Some stash'"
        "l \<noteq> i \<Longrightarrow> ?d2 (resident_file h i) = Some f"
        using r(1,5) t not_sym [OF t(1)] not_sym [OF t(2)] not_sym [OF t(3)] stash_names(1) [OF nm [OF 2(1)]] by (auto simp: d1_def)
      have "\<exists>f key. ?d2 (resident_file h i) = Some f \<and> usable E key \<and> stash_of E K J key plain half (contents_of f)"
      proof (cases "l = i")
        case True
        have "f' = f" using o(1) r(5) True by simp
        have "length (header_print J h') < 2 ^ 32" if "wrap_half E K rq 90 new_key kf_c (rh_orig_name header) = Inr h'" for h'
          using assms(5) o(1,2) short that unfolding short_rewraps_def by blast
        from rewrapped [OF assms(1-3) r(6) o(2) [unfolded \<open>f' = f\<close>] o(3,4) this]
        have "stash_of E K J new_key plain half stash'" by simp
        then show ?thesis using d2(2) True usable_new_key [OF 2(3)] by auto
      next
        case False
        then show ?thesis using d2(3) r(6,7) by blast
      qed
      then have k2: "resident_kept E K J h k plain half {} ?d2"
        using d2(1) r(2-4) unfolding resident_kept_def by blast
      consider "n = 0" "j = None" | i where "n = 0" "j = Some i" | "n = 1" | i where "n = Suc (Suc i)"
        by (cases n; cases j; cases "n - 1") auto
      then show ?thesis
      proof cases
        case 3
        then show ?thesis using k1(1) by (cases j) (simp_all add: o(5) d1_def)
      next
        case (4 i)
        then show ?thesis using k2 by (simp add: o(5) d1_def)
      qed (use assms(7) k1(2) in \<open>simp_all add: o(5)\<close>)
    qed
  qed
qed

text \<open>
  What happens to the home directory \<open>h\<close> after the file with the index key \<open>k\<close> has been put there:
  commands on files, complete or cut off at any point, in the middle of a write too, and changes
  elsewhere. A put of a resident file is one of another file, with a name for its stash that is
  not in use, and is not cut off in the middle of its write of the index, which is done in place;
  the files that commands read from and write to are outside the directory of stashes.
\<close>

inductive resident_step :: "ext \<Rightarrow> ops_ext \<Rightarrow> stash_codec \<Rightarrow> string \<Rightarrow> string \<Rightarrow> disk \<Rightarrow> disk \<Rightarrow> bool"
  for E K J h k where
  Put: "sh_home sh = Some h \<Longrightarrow> resident_key dom' (case name_flag of Some n \<Rightarrow> n | None \<Rightarrow> file_name path) \<noteq> k \<Longrightarrow> outside h path \<Longrightarrow>
    d (resident_file h (hex_encode E (rand rq 89 16) @ ''.bbkr'')) = None \<Longrightarrow>
    \<not> tears (resident_file h ''index.json'') n j (snd (cmd_file_put E K J put sh s rq dom' name_flag path a d)) \<Longrightarrow>
    resident_step E K J h k d (fs_cut n j (snd (cmd_file_put E K J put sh s rq dom' name_flag path a d)) d)"
| Get: "path \<noteq> Some ''-'' \<longrightarrow> outside h (case path of Some p \<Rightarrow> p | None \<Rightarrow> name') \<Longrightarrow>
    resident_step E K J h k d (fs_cut n j (snd (cmd_file_get E K J dl sh s dom' name' path pass d)) d)"
| Rekey: "sh_home sh = Some h \<Longrightarrow> short_rewraps E K J rq h d \<Longrightarrow>
    resident_step E K J h k d (fs_cut n j (snd (cmd_file_rekey E K J put dl sh s rq dom' name' old ek ep d)) d)"
| Elsewhere: "(\<And>i. d' (resident_file h i) = d (resident_file h i)) \<Longrightarrow> resident_step E K J h k d d'"

lemma kept_file_put:
  assumes "stash_codec_law J" and "sh_home sh = Some h" and "outside h path"
    and "resident_key dom' (case name_flag of Some n \<Rightarrow> n | None \<Rightarrow> file_name path) \<noteq> k"
    and "resident_file h (hex_encode E (rand rq 89 16) @ ''.bbkr'') \<in> P"
  shows "keeps (resident_file h ''index.json'') (resident_kept E K J h k plain half P) (cmd_file_put E K J put sh s rq dom' name_flag path a)"
  unfolding cmd_file_put_def Let_def
  using assms(4)
  by (auto intro!: keeps_intros kept_put [OF assms(1,2) _ assms(3,5)] split: option.splits)

lemma resident_step_kept:
  assumes "resident_step E K J h k d d'" and "gcm_bound E" and "b64_law E" and "stash_codec_law J"
    and "resident_kept E K J h k plain half {} d"
  shows "resident_kept E K J h k plain half {} d'"
  using assms(1)
proof cases
  case (Put sh dom' name_flag path rq n j put s a)
  let ?p = "resident_file h (hex_encode E (rand rq 89 16) @ ''.bbkr'')"
  have "resident_kept E K J h k plain half {?p} d"
    using assms(5) Put(5) unfolding resident_kept_def by (metis option.distinct(1) singletonD)
  from keepsD(1) [OF kept_file_put [OF assms(4) Put(2,4,3)] prod.collapse [symmetric] this Put(6)] show ?thesis
    using Put(1) kept_mono by blast
next
  case (Get path name' n j dl sh s dom' pass)
  have "\<not> tears (resident_file h ''index.json'') n j (snd (cmd_file_get E K J dl sh s dom' name' path pass d))"
    by (rule tears_spared [OF spares_get [OF Get(2)] prod.collapse [symmetric]])
  from keepsD(1) [OF kept_get [OF Get(2)] prod.collapse [symmetric] assms(5) this] show ?thesis unfolding Get(1) .
next
  case (Rekey sh rq n j put dl s dom' name' old ek ep)
  from kept_rekey [OF assms(2-4) Rekey(2,3) prod.collapse [symmetric] assms(5)] show ?thesis unfolding Rekey(1) .
next
  case Elsewhere
  then show ?thesis using assms(5) by (simp add: resident_kept_def)
qed

interpretation resident: step_invariant "resident_step E K J h k"
  "\<lambda>d. gcm_bound E \<and> b64_law E \<and> stash_codec_law J \<and> resident_kept E K J h k plain half {} d" for E K J h k plain half
  by unfold_locales (use resident_step_kept in blast)

text \<open>A put that the server accepted.\<close>

lemma first_put:
  assumes "gcm_law E" and "b64_law E" and "stash_codec_law J" and "sh_home sh = Some h" and "outside h path"
    and "list_all (\<lambda>(k, i). stash_name i) (resident_index_load J sh d)"
    and "resident_seal E K J rq key body name = Inr (stash, half)"
    and "\<And>header. wrap_half E K rq 87 key (rand rq 85 32) name = Inr header \<Longrightarrow> length (header_print J header) < 2 ^ 32"
    and "put_resident E K J put sh rq domain_name name path key body a d = (Inr u, ops)" and "usable E key"
  shows "resident_kept E K J h (resident_key domain_name name) body half {} (fs_run ops d)"
proof -
  let ?i = "hex_encode E (rand rq 89 16) @ ''.bbkr''" and ?k = "resident_key domain_name name"
  let ?idx = "AList.update ?k ?i (resident_index_load J sh d)"
  have i: "stash_name ?i" by (auto simp: stash_name_def)
  note ne = stash_names(1) [OF i]
  define d1 where "d1 = fs_apply (WriteFile (resident_file h ?i) stash (sh_new_mode sh)) d"
  define d2 where "d2 = fs_apply (WriteFile (resident_file h ''index.json'') (index_print J ?idx) (sh_new_mode sh)) d1"
  have same: "resident_index_load J sh d1 = resident_index_load J sh d"
    using ne by (simp add: resident_index_load_def resident_paths(2) [OF assms(4)] d1_def)
  have wf: "list_all (\<lambda>(k, i). stash_name i) ?idx" using assms(6) i by (rule names_updated)
  have st: "stash_of E K J key body half stash" by (rule resident_sealed [OF assms(1,2,7,8)])
  have m: "map_of ?idx ?k = Some ?i" by (simp add: update_conv)
  have ip: "index_parse J (index_print J ?idx) = Some ?idx" using assms(3) by (simp add: stash_codec_law_def)
  have k2: "resident_kept E K J h ?k body half {} d2"
  proof -
    have "map_option contents_of (d2 (resident_file h ?i)) = Some stash" using ne by (simp add: d2_def d1_def)
    then obtain f where f: "d2 (resident_file h ?i) = Some f" "contents_of f = stash" by auto
    obtain g where g: "d2 (resident_file h ''index.json'') = Some g" "contents_of g = index_print J ?idx" by (simp add: d2_def)
    show ?thesis unfolding resident_kept_def
      using f g st m wf ip assms(10) by (intro exI [of _ g] exI [of _ ?idx] exI [of _ ?i] exI [of _ f] exI [of _ key]) simp
  qed
  consider "ops = [WriteFile (resident_file h ?i) stash (sh_new_mode sh), WriteFile (resident_file h ''index.json'') (index_print J ?idx) (sh_new_mode sh)]"
    | ops' r where "io_ignore (secure_delete () rq 400 path) d2 = (r :: app_error + unit, ops')"
      "ops = [WriteFile (resident_file h ?i) stash (sh_new_mode sh),
        WriteFile (resident_file h ''index.json'') (index_print J ?idx) (sh_new_mode sh)] @ ops'"
    using assms(9,7) same
    by (auto simp: put_resident_def Let_def resident_paths [OF assms(4)] resident_file_def [symmetric] io_bind_def io_simps
        resident_index_save_def d1_def d2_def io_ignore_def split: sum.splits if_splits prod.splits)
  then show ?thesis
  proof cases
    case 1
    then show ?thesis using k2 by (simp add: d2_def d1_def)
  next
    case (2 ops' r)
    have "fs_run ops d = fs_run ops' d2" by (simp only: 2(2) d2_def d1_def append.simps fs_run_Cons)
    with keepsD(2) [OF kept_scrub [OF disjI1, OF assms(5)] 2(1) k2] show ?thesis by simp
  qed
qed

text \<open>A kept file is read with its key.\<close>

lemma kept_read:
  assumes "gcm_law E" and "b64_law E" and "stash_codec_law J" and "resident_kept E K J h (resident_key dom' name') plain half {} d"
  shows "\<exists>s pass. \<forall>sh dl p. sh_home sh = Some h \<longrightarrow> fd_resident dl \<longrightarrow> fd_component dl = Some half \<longrightarrow>
    fst (cmd_file_get E K J (Inr dl) sh s dom' name' p pass d) = Inr plain"
proof -
  obtain g idx i f key where r: "d (resident_file h ''index.json'') = Some g" "index_parse J (contents_of g) = Some idx"
    "map_of idx (resident_key dom' name') = Some i" "d (resident_file h i) = Some f" "stash_of E K J key plain half (contents_of f)"
    "usable E key"
    using assms(4) by (auto simp: resident_kept_def)
  then obtain s pass where k: "holds_key E sh s pass key" for sh by (auto simp: usable_def)
  show ?thesis
  proof (intro exI [of _ s] exI [of _ pass] allI impI)
    fix sh :: shell and p and dl :: file_download
    assume a: "sh_home sh = Some h" "fd_resident dl" "fd_component dl = Some half"
    obtain header ct where "resident_parse J (contents_of f) = Inr (header, ct)" "resident_open E K sh header ct half s pass = Inr plain"
      using stash_opens [OF assms(1-3) r(5) k] by blast
    then have "open_stash E K J sh s dom' name' half pass d = (Inr plain, [])"
      using index_loaded [of sh h d g J idx, OF a(1) r(1,2)] r(3,4)
      by (simp add: open_stash_def resident_paths(1) [OF a(1)] resident_file_def [symmetric] io_bind_def io_simps io_read_def)
    then show "fst (cmd_file_get E K J (Inr dl) sh s dom' name' p pass d) = Inr plain"
      by (simp add: cmd_file_get_def a(2,3) io_bind_def io_simps)
  qed
qed

section \<open>Properties of the commands on files\<close>

text \<open>
  C24. A resident file survives: once a put of a resident file has succeeded, and after any commands
  on the same home directory, each complete or killed at any point, in the middle of a write
  included - puts of other files under unused stash names, gets, changes of the key of this or
  another file - there are a session and a passphrase with which a get, given the half of the file
  key that the put uploaded, returns the contents of the file. Left out are another put of the same
  file, a put that is killed in the middle of its write of the index (which is done in place), and
  commands that read from or write to a path in the directory of stashes.
\<close>

theorem resident_file_survives:
  assumes "gcm_law E" and "gcm_bound E" and "b64_law E" and "stash_codec_law J" and "sh_home sh = Some h" and "outside h path"
    and "list_all (\<lambda>(k, i). stash_name i) (resident_index_load J sh d)"
    and "resolve_ext_spec sh (pa_ext a) True = Inr (Some sp)" and "es_data sp = Resident"
    and "\<forall>key header. wrap_half E K rq 87 key (rand rq 85 32) name = Inr header \<longrightarrow> length (header_print J header) < 2 ^ 32"
    and "d path = Some f"
    and "cmd_file_put E K J put sh s rq dom' (Some name) path a d = (Inr (), ops)"
    and "(resident_step E K J h (resident_key dom' name))\<^sup>*\<^sup>* (fs_run ops d) d'"
  shows "\<exists>half upload s pass. put upload (pa_mime a) (file_put_query (put_opts a True None (Some half)))
    \<and> (\<forall>sh dl p. sh_home sh = Some h \<longrightarrow> fd_resident dl \<longrightarrow> fd_component dl = Some half \<longrightarrow>
        fst (cmd_file_get E K J (Inr dl) sh s dom' name p pass d') = Inr (contents_of f))"
proof -
  obtain key where key: "put_resident E K J put sh rq dom' name path key (contents_of f) a d = (Inr (), ops)" "usable E key"
    using assms(8,9,11,12) usable_spec_key
    by (auto simp: cmd_file_put_def Let_def io_bind_def io_simps io_read_def split: if_splits sum.splits prod.splits)
  then obtain stash half where seal: "resident_seal E K J rq key (contents_of f) name = Inr (stash, half)"
    by (auto simp: put_resident_def io_bind_def io_simps split: sum.splits prod.splits)
  have "\<exists>upload. put upload (pa_mime a) (file_put_query (put_opts a True None (Some half)))"
    using key(1) seal by (auto simp: put_resident_def Let_def io_bind_def io_simps io_ignore_def split: sum.splits prod.splits if_splits)
  moreover have "resident_kept E K J h (resident_key dom' name) (contents_of f) half {} (fs_run ops d)"
    using first_put [OF assms(1,3-7) seal _ key] assms(10) by blast
  then have "resident_kept E K J h (resident_key dom' name) (contents_of f) half {} d'"
    using resident.steps_keep [OF assms(13)] assms(2-4) by blast
  ultimately show ?thesis using kept_read [OF assms(1,3,4)] by blast
qed

text \<open>
  A put that is killed while it writes the index loses the resident files: every put of a
  resident file that goes through has a point, within its write of the index, at which the index
  has been truncated and not yet written; when the process is killed there, no get finds any
  resident file of the home directory, whatever the session and the passphrase, since an empty
  text is no index and an index that cannot be read counts as an empty one.
\<close>

theorem torn_index_loses_files:
  assumes "sh_home sh = Some h" and "resolve_ext_spec sh (pa_ext a) True = Inr (Some sp)" and "es_data sp = Resident"
    and "cmd_file_put E K J put sh s rq dom' (Some name) path a d = (Inr (), ops)" and "index_parse J [] = None"
  shows "\<exists>k. k < length ops \<and> (\<forall>sh' s' dl half dom'' name'' p pass. sh_home sh' = Some h \<longrightarrow> fd_resident dl \<longrightarrow>
    fd_component dl = Some half \<longrightarrow>
    cmd_file_get E K J (Inr dl) sh' s' dom'' name'' p pass (fs_cut k (Some 0) ops d) = (Inl AppConfig, []))"
proof -
  obtain key body where "put_resident E K J put sh rq dom' name path key body a d = (Inr (), ops)"
    using assms(2-4) by (auto simp: cmd_file_put_def Let_def io_bind_def io_simps io_read_def split: if_splits sum.splits prod.splits option.splits)
  then obtain o1 b m ops' where "ops = o1 # WriteFile (resident_file h ''index.json'') b m # ops'"
    by (auto simp: put_resident_def Let_def resident_paths [OF assms(1)] io_bind_def io_simps resident_index_save_def io_ignore_def
        split: sum.splits if_splits prod.splits)
  then have k: "1 < length ops" "tears (resident_file h ''index.json'') 1 (Some 0) ops" by auto
  obtain m where m: "fs_cut 1 (Some 0) ops d (resident_file h ''index.json'') = Some \<lparr>contents_of = [], mode_of = m\<rparr>"
    by (rule cut_truncated [OF k(2)])
  have "cmd_file_get E K J (Inr dl) sh' s' dom'' name'' p pass (fs_cut 1 (Some 0) ops d) = (Inl AppConfig, [])"
    if "sh_home sh' = Some h" "fd_resident dl" "fd_component dl = Some half" for sh' s' dl half dom'' name'' p pass
  proof -
    have "resident_index_load J sh' (fs_cut 1 (Some 0) ops d) = []"
      using m assms(5) by (simp add: resident_index_load_def resident_paths(2) [OF that(1)])
    then show ?thesis using that(2,3) by (simp add: cmd_file_get_def open_stash_def io_bind_def io_simps)
  qed
  with k(1) show ?thesis by blast
qed

section \<open>Witnesses\<close>

definition demo_put :: "bool \<Rightarrow> put_args" where
  "demo_put once = \<lparr>pa_mfa = False, pa_delete_on_read = once, pa_max_reads = None, pa_rotate = False, pa_preserve = False,
     pa_no_overwrite = False, pa_overwrite = False, pa_quorum = None, pa_signatories = [],
     pa_ext = \<lparr>ef_external = False, ef_key = True, ef_data = False, ef_passphrase = None, ef_from_env = False\<rparr>\<rparr>"

definition demo_connection :: connection where
  "demo_connection = \<lparr>cn_domain = ''default'', cn_client = demo_admin, cn_mfa = None\<rparr>"

definition demo_file_put :: file_put_args where
  "demo_file_put = put_args.extend ((demo_put False)\<lparr>pa_ext := (pa_ext (demo_put False))\<lparr>ef_data := True\<rparr>\<rparr>)
     \<lparr>pa_mime = None, pa_server_copy = False, pa_shred = False\<rparr>"

fun get_pairs :: "nat \<Rightarrow> nat list \<Rightarrow> (string \<times> string) list" where
  "get_pairs 0 ns = []"
| "get_pairs (Suc n) ns = (let (k, x) = get_str ns; (i, y) = get_str x in (k, i) # get_pairs n y)"

definition demo_stash_codec :: stash_codec where
  "demo_stash_codec = \<lparr>
     header_print = (\<lambda>h. unary (put_str (rh_salt h) @ put_str (rh_wrapped_c h) @ put_str (rh_orig_name h)
        @ [unat (rh_mode h), rh_m_cost h, rh_t_cost h, rh_p_cost h])),
     header_parse = (\<lambda>b. let (s, x) = get_str (ununary 0 b); (w, y) = get_str x; (n, z) = get_str y
        in Some \<lparr>rh_mode = word_of_nat (z ! 0), rh_salt = s, rh_m_cost = z ! 1, rh_t_cost = z ! 2, rh_p_cost = z ! 3,
             rh_wrapped_c = w, rh_orig_name = n\<rparr>),
     index_print = (\<lambda>m. unary (length m # concat (map (\<lambda>(k, i). put_str k @ put_str i) m))),
     index_parse = (\<lambda>b. case ununary 0 b of [] \<Rightarrow> None | n # ns \<Rightarrow> Some (get_pairs n ns))\<rparr>"

lemma demo_stash_codec_laws: "stash_codec_law demo_stash_codec"
proof -
  have "get_pairs (length m) (concat (map (\<lambda>(k, i). put_str k @ put_str i) m)) = m" for m
    by (induction m) auto
  then show ?thesis by (simp add: stash_codec_law_def demo_stash_codec_def ununary_unary)
qed

lemma demo_key: "cmk_bytes demo_ext demo_session = Some (replicate 32 4)" "cmk_bytes demo_vault_ext demo_session = Some (replicate 32 4)"
  by (simp_all add: cmk_bytes_def demo_session_def demo_ext_def demo_vault_ext_def)

lemma demo_seal_any: "length k = 32 \<Longrightarrow> aead_seal demo_ext n m k = Inr (n @ m @ zeros 16)"
  by (simp add: aead_seal_def aead_seal_nonce_def demo_ext_def zeros_def)

lemma demo_connected [simp]: "domain_param demo_connection = None" "cn_client demo_connection = demo_admin" "cn_mfa demo_connection = None"
  by (simp_all add: demo_connection_def domain_param_def)

lemma demo_spec: "resolve_ext_spec sh (pa_ext (demo_put once)) False = Inr (Some \<lparr>es_key = Managed, es_data = InServer\<rparr>)"
  "ext_key_for_spec demo_ext sh \<lparr>es_key = Managed, es_data = InServer\<rparr> demo_session p = Inr (ExtCmk (replicate 32 4))"
  by (simp_all add: resolve_ext_spec_def demo_put_def ext_key_for_spec_def demo_key)

lemma demo_sealed_parts: "\<exists>meta ct. external_seal_parts demo_ext K rq (ExtCmk (replicate 32 4)) m = Inr (meta, ct) \<and> meta \<noteq> []"
  by (simp add: external_seal_parts_def wrap_key_def demo_seal_any ext_encode_v2_def Let_def)

lemma demo_external_store:
  assumes "domains st = [demo_default]" and "secrets st = []" and "b \<noteq> []" and "name \<noteq> []"
  shows "\<exists>st1. store_data demo_ext demo_key_codec demo_app (demo_rq 5) (store_external name (b64_encode demo_ext b) f None ow) None demo_admin st
      = (Reply 201 (Stored (hex_encode demo_ext (zeros 32))), st1) \<and> domains st1 = [demo_default]"
proof -
  have k: "metadata_enc_key demo_app = zeros 32" by (simp add: demo_app_def)
  then obtain p where p: "store_payload demo_ext demo_key_codec demo_app (demo_rq 5) [] (Some b) = Inr p"
    by (simp add: store_payload_def enc_field_def demo_seal_Inr)
  have "b64_decode demo_ext (b64_encode demo_ext b) = Some b" by (simp add: demo_ext_def)
  then show ?thesis using assms p
    by (cases p) (simp add: store_data_def Let_def store_external_def store_inner_def external_blob_def demo_gate store_checked_def demo_allowed
        is_allowed_def insert_secret_def policy_value_def demo_name_sealed demo_draw)
qed

lemma demo_puts:
  "\<exists>st1. cmd_put demo_ext demo_ops demo_key_codec demo_app demo_connection sh demo_session (demo_rq 1) (demo_rq 5) ''db/x'' ''pw''
      (demo_put once) (demo_vault []) = (Inr (Stored (hex_encode demo_ext (zeros 32))), st1) \<and> domains st1 = [demo_default]"
proof -
  obtain meta ct where s: "external_seal_parts demo_ext demo_ops (demo_rq 1) (ExtCmk (replicate 32 4)) (as_bytes ''pw'') = Inr (meta, ct)" "meta \<noteq> []"
    using demo_sealed_parts by blast
  have "put_policy (demo_put once) = Inr None" "\<not> pa_rotate (demo_put once)" by (simp_all add: put_policy_def demo_put_def)
  then have "put_request demo_ext demo_ops sh demo_session (demo_rq 1) ''db/x'' ''pw'' (demo_put once)
      = Inr (store_external ''db/x'' (b64_encode demo_ext (meta @ ct)) (put_flags (demo_put once)) None (pa_overwrite (demo_put once)))"
    using s(1) by (simp add: put_request_def demo_spec external_seal_def)
  then show ?thesis
    using demo_external_store [of "demo_vault []" "meta @ ct" "''db/x''" "put_flags (demo_put once)" "pa_overwrite (demo_put once)"] s(2)
    by (auto simp: cmd_put_def api_value_def)
qed

theorem sealed_secret_returns_witness:
  "\<exists>st1. cmd_put demo_ext demo_ops demo_key_codec demo_app demo_connection (demo_shell None) demo_session (demo_rq 1) (demo_rq 5)
      ''db/x'' ''pw'' (demo_put False) (demo_vault []) = (Inr (Stored (hex_encode demo_ext (zeros 32))), st1)
    \<and> fst (cmd_get demo_ext demo_ops demo_app demo_connection (demo_shell None) demo_session (demo_rq 6) ''db/x'' None None st1)
      = Inr (as_bytes ''pw'')"
proof -
  obtain st1 where st1: "cmd_put demo_ext demo_ops demo_key_codec demo_app demo_connection (demo_shell None) demo_session (demo_rq 1)
      (demo_rq 5) ''db/x'' ''pw'' (demo_put False) (demo_vault []) = (Inr (Stored (hex_encode demo_ext (zeros 32))), st1)"
    "domains st1 = [demo_default]" using demo_puts by blast
  have g: "resolve_and_gate_domain demo_ext demo_app (cn_client demo_connection) (domain_param demo_connection) st
      = Inr (''dom'', ''default'')" if "domains st = [demo_default]" for st :: secret_state
    using demo_gate [OF that] by simp
  have "fst (cmd_get demo_ext demo_ops demo_app demo_connection (demo_shell None) demo_session (demo_rq 6) ''db/x'' None None st1)
      = Inr (as_bytes ''pw'')"
    by (rule sealed_secret_returns [OF demo_laws(3,2) _ demo_spec st1(1) g g [OF st1(2)]])
      (simp_all add: demo_put_def holds_key_def demo_key ascii_utf8 demo_allowed is_allowed_def)
  with st1(1) show ?thesis by blast
qed

text \<open>A sealed secret that is deleted on its first read, with the envelope \<open>b\<close>.\<close>

definition demo_fleeting :: "bytes \<Rightarrow> secret_row" where
  "demo_fleeting b = (demo_secret (default_flags\<lparr>delete_on_read := True\<rparr>))
     \<lparr>sr_external := True, sr_envelope := Some (zeros 12 @ b @ zeros 16)\<rparr>"

lemma demo_fleeting_fields:
  "sr_domain (demo_fleeting b) = ''dom''" "sr_name_id (demo_fleeting b) = name_id_hex demo_ext (name_index_key demo_app) ''dom'' ''db/x''"
  "sr_exhausted (demo_fleeting b) = None" "sr_policy (demo_fleeting b) = None" "sr_reads (demo_fleeting b) = 0"
  "sr_flags (demo_fleeting b) = default_flags\<lparr>delete_on_read := True\<rparr>" "sr_id (demo_fleeting b) = ''s1''"
  "dec_str demo_ext (metadata_enc_key demo_app) (sr_name_enc (demo_fleeting b)) = Inr ''db/x''" "sr_external (demo_fleeting b)"
  using demo_named [of default_flags] by (simp_all add: demo_fleeting_def demo_secret_def)

lemma demo_fleeting_served: "serve_payload demo_ext demo_app (demo_fleeting b) = Inr ([], Some (b64_encode demo_ext b))"
proof -
  have "aead_open demo_ext (zeros 12 @ b @ zeros 16) (zeros 32) = Inr b"
    by (simp add: aead_open_def demo_ext_def zeros_def)
  then show ?thesis by (simp add: serve_payload_def demo_fleeting_def dec_field_def demo_app_def)
qed

lemma demo_fleeting_read:
  "\<exists>x st'. retrieve_with_request demo_ext demo_app (demo_rq 6) demo_connection ''db/x'' None (demo_vault [demo_fleeting b]) = (Inr x, st')
    \<and> rt_external x \<and> rt_envelope x = Some (b64_encode demo_ext b) \<and> domains st' = [demo_default] \<and> secrets st' = []"
  by (simp add: retrieve_with_request_def retrieve_data_def demo_gate lookup_secret_def demo_fleeting_fields Let_def demo_allowed
      is_allowed_def retrieve_allowed_def policy_gate_def mfa_gate_def serve_read_def claim_for_def read_cap_def claim_read_def default_flags_def
      claimable_def demo_fleeting_served post_read_def reached_max_def api_value_def delete_where_def)

theorem rekey_lifts_limit_witness:
  "\<exists>b st'. read_cap (sr_flags (demo_fleeting b)) = Some 1
    \<and> cmd_rekey demo_ext demo_ops demo_key_codec demo_app demo_connection (demo_shell None) demo_session (demo_rq 2) (demo_rq 6) (demo_rq 5)
      ''db/x'' None True None (demo_vault [demo_fleeting b]) = (Inr (), st')
    \<and> (\<exists>r \<in> set (secrets st'). read_cap (sr_flags r) = None)"
proof -
  let ?key = "ExtCmk (replicate 32 4)" and ?sh = "demo_shell None"
  obtain meta ct where s: "external_seal_parts demo_ext demo_ops (demo_rq 1) ?key (as_bytes ''pw'') = Inr (meta, ct)" "meta \<noteq> []"
    using demo_sealed_parts by blast
  have "holds_key demo_ext ?sh demo_session None ?key" by (simp add: holds_key_def demo_key)
  with external_sealed [OF demo_laws(3) s(1)] obtain env where
    env: "ext_decode (meta @ ct) = Inr env" "external_open demo_ext demo_ops ?sh env demo_session None = Inr (as_bytes ''pw'')" by metis
  obtain meta' ct' where s': "external_seal_parts demo_ext demo_ops (demo_rq 2) ?key (as_bytes ''pw'') = Inr (meta', ct')" "meta' \<noteq> []"
    using demo_sealed_parts by blast
  let ?st = "demo_vault [demo_fleeting (meta @ ct)]"
  obtain x st1 where x: "retrieve_with_request demo_ext demo_app (demo_rq 6) demo_connection ''db/x'' None ?st = (Inr x, st1)"
    "rt_external x" "rt_envelope x = Some (b64_encode demo_ext (meta @ ct))" "domains st1 = [demo_default]" "secrets st1 = []"
    using demo_fleeting_read by metis
  have "open_external demo_ext demo_ops ?sh demo_session x None = Inr (as_bytes ''pw'')"
    using env x(3) demo_laws(2) by (auto simp: open_external_def b64_law_def)
  moreover have "rekey_target_key demo_ext demo_session True None = Inr ?key" by (simp add: rekey_target_key_def demo_key)
  moreover obtain st2 where "store_data demo_ext demo_key_codec demo_app (demo_rq 5)
      (store_external ''db/x'' (b64_encode demo_ext (meta' @ ct')) None None True) None demo_admin st1
      = (Reply 201 (Stored (hex_encode demo_ext (zeros 32))), st2)"
    using demo_external_store [OF x(4,5), of "meta' @ ct'" "''db/x''" None True] s'(2) by auto
  ultimately have rk: "cmd_rekey demo_ext demo_ops demo_key_codec demo_app demo_connection ?sh demo_session (demo_rq 2) (demo_rq 6) (demo_rq 5)
      ''db/x'' None True None ?st = (Inr (), st2)"
    using x(1,2) s'(1) by (simp add: cmd_rekey_def external_seal_def api_value_def)
  have g: "resolve_and_gate_domain demo_ext demo_app (cn_client demo_connection) (domain_param demo_connection) ?st
      = Inr (''dom'', ''default'')" using demo_gate [of ?st] by simp
  have "lookup_secret demo_ext demo_app ''dom'' ''db/x'' ?st = Some (demo_fleeting (meta @ ct))"
    by (simp add: lookup_secret_def demo_fleeting_fields)
  from rekey_lifts_limit [OF rk g this] show ?thesis
    using rk by (auto simp: demo_fleeting_fields read_cap_def default_flags_def)
qed

text \<open>The stash of a small file.\<close>

definition demo_disk :: disk where
  "demo_disk = [''/f'' \<mapsto> \<lparr>contents_of = [1, 2, 3], mode_of = owner_only\<rparr>]"

abbreviation demo_file_cmd :: "(app_error, unit) io" where
  "demo_file_cmd \<equiv> cmd_file_put demo_vault_ext demo_ops demo_stash_codec (\<lambda>b t p. True) (demo_shell None) demo_session (demo_at 0 4)
     ''default'' (Some ''f'') ''/f'' demo_file_put"

lemma of_char_less: "(of_char c :: nat) < 256"
  by (cases c) (auto simp: of_char_def horner_sum_simps)

lemma unary_str: "length (unary (put_str s @ ns)) \<le> 257 * length s + 1 + length (unary ns)"
proof -
  have "length (unary (map of_char s @ ns)) \<le> 256 * length s + length (unary ns)" for s
  proof (induction s)
    case (Cons c s)
    have "(of_char c :: nat) \<le> 255" using of_char_less [of c] by linarith
    with Cons show ?case by (simp add: unary_def)
  qed simp
  from this [of s] show ?thesis by (simp add: put_str_def unary_def)
qed

lemma demo_short_header:
  assumes "wrap_half demo_vault_ext demo_ops rq i key (rand rq' j 32) ''f'' = Inr header"
  shows "length (header_print demo_stash_codec header) < 2 ^ 32"
proof -
  obtain mode salt m t p kek w where k: "wrap_key demo_ops rq i key = Inr (mode, salt, (m, t, p), kek)"
    "aead_seal demo_vault_ext (rand rq (i + 1) 12) (rand rq' j 32) kek = Inr w"
    and h: "header = \<lparr>rh_mode = mode, rh_salt = (if mode = EXT_MODE_CMK then [] else b64_encode demo_vault_ext salt), rh_m_cost = m, rh_t_cost = t,
            rh_p_cost = p, rh_wrapped_c = b64_encode demo_vault_ext w, rh_orig_name = ''f''\<rparr>"
    using assms by (auto simp: wrap_half_def map_err_def elim!: and_then_InrE split: sum.splits)
  have "length w \<le> 60"
    using k(2) by (auto simp: aead_seal_def aead_seal_nonce_def demo_vault_ext_def elim!: and_then_InrE split: if_splits)
  then have w: "length (rh_wrapped_c header) \<le> 60" by (simp add: h demo_vault_ext_def demo_ext_def str_of_def)
  have s: "length (rh_salt header) \<le> 16" "rh_m_cost header \<le> 65536" "rh_t_cost header \<le> 3" "rh_p_cost header \<le> 1"
    using k(1) by (auto simp: h wrap_key_def demo_vault_ext_def demo_ext_def str_of_def elim!: and_then_InrE split: ext_key.splits)
  have n: "length (rh_orig_name header) = 1" by (simp add: h)
  have m: "unat (rh_mode header) < 256" using unsigned_less [of "rh_mode header"] by simp
  have "length (unary [unat (rh_mode header), rh_m_cost header, rh_t_cost header, rh_p_cost header])
      = unat (rh_mode header) + rh_m_cost header + rh_t_cost header + rh_p_cost header + 4"
    by (simp add: unary_def)
  also have "\<dots> \<le> 65800" using m s(2-4) by linarith
  finally have c: "length (unary [unat (rh_mode header), rh_m_cost header, rh_t_cost header, rh_p_cost header]) \<le> 65800" .
  let ?c = "[unat (rh_mode header), rh_m_cost header, rh_t_cost header, rh_p_cost header]"
  have "length (unary (put_str (rh_salt header) @ put_str (rh_wrapped_c header) @ put_str (rh_orig_name header) @ ?c)) \<le> 100000"
    using unary_str [of "rh_salt header" "put_str (rh_wrapped_c header) @ put_str (rh_orig_name header) @ ?c"]
      unary_str [of "rh_wrapped_c header" "put_str (rh_orig_name header) @ ?c"] unary_str [of "rh_orig_name header" ?c] w s(1) n c
    by linarith
  then have "length (header_print demo_stash_codec header) \<le> 100000" by (simp add: demo_stash_codec_def)
  then show ?thesis by simp
qed

lemma demo_outside: "outside ''/h'' ''/f''"
  by (simp add: outside_def resident_file_def path_join_def)

lemma demo_file_put_fields:
  "\<not> pa_rotate demo_file_put" "\<not> pa_server_copy demo_file_put" "\<not> pa_shred demo_file_put" "put_policy demo_file_put = Inr None"
  "resolve_ext_spec (demo_shell None) (pa_ext demo_file_put) True = Inr (Some \<lparr>es_key = Managed, es_data = Resident\<rparr>)"
  by (simp_all add: demo_file_put_def demo_put_def put_policy_def resolve_ext_spec_def put_args.defs)

lemma demo_file_puts: "\<exists>ops. demo_file_cmd demo_disk = (Inr (), ops)"
proof -
  have w: "\<exists>header. wrap_half demo_vault_ext demo_ops rq i (ExtCmk (replicate 32 4)) m n = Inr header" for rq i m n
    by (simp add: wrap_half_def wrap_key_def demo_aead)
  have "\<exists>stash half. resident_seal demo_vault_ext demo_ops demo_stash_codec (demo_at 0 4) (ExtCmk (replicate 32 4)) b ''f''
      = Inr (stash, half)" for b
    using w [of "demo_at 0 4" 87 "rand (demo_at 0 4) 85 32" "''f''"] by (auto simp: resident_seal_def Let_def demo_aead)
  then obtain stash half where "resident_seal demo_vault_ext demo_ops demo_stash_codec (demo_at 0 4) (ExtCmk (replicate 32 4)) [1, 2, 3] ''f''
      = Inr (stash, half)" by blast
  then show ?thesis
    by (simp add: cmd_file_put_def demo_file_put_fields io_bind_def io_simps io_read_def demo_disk_def ext_key_for_spec_def demo_key
      put_resident_def resident_dir_def Let_def resident_index_save_def resident_index_path_def split: prod.split)
qed

theorem resident_file_survives_witness:
  "\<exists>ops half s pass. demo_file_cmd demo_disk = (Inr (), ops)
    \<and> fst (cmd_file_get demo_vault_ext demo_ops demo_stash_codec
        (Inr \<lparr>fd_bytes = [], fd_type = None, fd_meta = None, fd_component = Some half, fd_resident = True\<rparr>) (demo_shell None) s
        ''default'' ''f'' (Some ''-'') pass (fs_run ops demo_disk)) = Inr [1, 2, 3]"
proof -
  obtain ops where p: "demo_file_cmd demo_disk = (Inr (), ops)" using demo_file_puts by blast
  let ?d = "fs_run ops demo_disk"
  have "rtranclp (resident_step demo_vault_ext demo_ops demo_stash_codec ''/h'' (resident_key ''default'' ''f'')) ?d ?d" by simp
  note survives = resident_file_survives [OF demo_vault_laws demo_stash_codec_laws demo_home(1) demo_outside _ demo_file_put_fields(5) _ _ _ p this]
  have "resident_index_load demo_stash_codec (demo_shell None) demo_disk = []"
    by (simp add: resident_index_load_def resident_paths(2) [OF demo_home(1)] demo_disk_def resident_file_def path_join_def)
  then obtain half s pass where "\<forall>sh dl q. sh_home sh = Some ''/h'' \<longrightarrow> fd_resident dl \<longrightarrow> fd_component dl = Some half \<longrightarrow>
      fst (cmd_file_get demo_vault_ext demo_ops demo_stash_codec (Inr dl) sh s ''default'' ''f'' q pass ?d) = Inr [1, 2, 3]"
    using survives [of "\<lparr>contents_of = [1, 2, 3], mode_of = owner_only\<rparr>"] demo_short_header [of "demo_at 0 4" 87 _ "demo_at 0 4" 85]
    by (simp add: demo_disk_def) blast
  with p demo_home(1) [of None] show ?thesis
    by (intro exI [of _ ops] exI [of _ half] exI [of _ s] exI [of _ pass]) simp
qed

theorem torn_index_loses_files_witness:
  "\<exists>ops k. demo_file_cmd demo_disk = (Inr (), ops) \<and> k < length ops
    \<and> cmd_file_get demo_vault_ext demo_ops demo_stash_codec
        (Inr \<lparr>fd_bytes = [], fd_type = None, fd_meta = None, fd_component = Some ''x'', fd_resident = True\<rparr>) (demo_shell None) demo_session
        ''default'' ''f'' (Some ''-'') None (fs_cut k (Some 0) ops demo_disk) = (Inl AppConfig, [])"
proof -
  obtain ops where p: "demo_file_cmd demo_disk = (Inr (), ops)" using demo_file_puts by blast
  have ip: "index_parse demo_stash_codec [] = None" by (simp add: demo_stash_codec_def)
  have "\<exists>k. k < length ops \<and> (\<forall>sh' s' dl half dom'' name'' p pass. sh_home sh' = Some ''/h'' \<longrightarrow> fd_resident dl \<longrightarrow>
    fd_component dl = Some half \<longrightarrow> cmd_file_get demo_vault_ext demo_ops demo_stash_codec (Inr dl) sh' s' dom'' name'' p pass
      (fs_cut k (Some 0) ops demo_disk) = (Inl AppConfig, []))"
    by (rule torn_index_loses_files [OF demo_home(1) demo_file_put_fields(5) _ p ip]) simp
  then show ?thesis using p demo_home(1) [of None]
    by (metis (no_types, lifting) file_download.select_convs(4,5))
qed

end
