(* ===== verification/Web_Console.thy ===== *)
theory Web_Console
  imports Client_Commands "HOL-Library.Char_ord" "HOL-Library.List_Lexorder"
begin

text \<open>
  The web console (\<open>webui.rs\<close>), which runs the client with the words that a user typed, and the
  listings of the client that its dashboard reads back (\<open>main.rs\<close>, \<open>cmd_profile\<close>, \<open>cmd_domain\<close>). The
  processes it starts are a parameter. The lemmas show that every list of arguments can be typed and
  is passed on exactly, that a command started by the console never waits for input on the
  terminal, and what the dashboard makes of the listings.
\<close>

section \<open>Processes\<close>

record proc_output =
  pr_code :: "int option"
  pr_stdout :: string
  pr_stderr :: string

text \<open>
  What the console runs on: whether the own binary is found, else the message, and a process
  given the arguments and the variables added to its environment; its output is the text that
  \<open>String::from_utf8_lossy\<close> makes of the bytes, and a process that cannot be started gives a message.
\<close>

record host =
  current_exe :: "string option"
  spawn :: "string list \<Rightarrow> (string \<times> string) list \<Rightarrow> string + proc_output"

definition success :: "proc_output \<Rightarrow> bool" where
  "success o' \<longleftrightarrow> pr_code o' = Some 0"

definition opt_arg :: "string \<Rightarrow> string option \<Rightarrow> string list" where
  "opt_arg flag v = (case v of None \<Rightarrow> [] | Some x \<Rightarrow> [flag, x])"

definition opt_env :: "string \<Rightarrow> string option \<Rightarrow> (string \<times> string) list" where
  "opt_env var v = (case nonempty v of None \<Rightarrow> [] | Some x \<Rightarrow> [(var, x)])"

definition child_env :: "string option \<Rightarrow> string option \<Rightarrow> (string \<times> string) list" where
  "child_env profile_pass external_pass =
     (''BLACKBOOK_NO_PROMPT'', ''1'') # opt_env ''BLACKBOOK_PASSPHRASE'' profile_pass
       @ opt_env ''BLACKBOOK_EXTERNAL_PASSPHRASE'' external_pass"

definition run_bbk ::
    "host \<Rightarrow> string list \<Rightarrow> string option \<Rightarrow> string option \<Rightarrow> string option \<Rightarrow> string option \<Rightarrow> bool \<times> string \<times> string" where
  "run_bbk H args profile domain profile_pass external_pass = (case current_exe H of
      Some e \<Rightarrow> (False, [], ''cannot locate binary: '' @ e)
    | None \<Rightarrow>
      (case spawn H (opt_arg ''-P'' profile @ opt_arg ''-D'' domain @ args) (child_env profile_pass external_pass) of
         Inr o' \<Rightarrow> (success o', pr_stdout o', pr_stderr o')
       | Inl e \<Rightarrow> (False, [], e)))"

section \<open>Text\<close>

text \<open>\<open>str::lines\<close>: the pieces that end in a newline, and a last one that is not empty.\<close>

definition strip_cr :: "string \<Rightarrow> string" where
  "strip_cr l = (if l \<noteq> [] \<and> last l = CHR 0x0D then butlast l else l)"

definition lines :: "string \<Rightarrow> string list" where
  "lines s = (let ps = split_on (CHR 0x0A) s
     in map strip_cr (butlast ps) @ (if last ps = [] then [] else [last ps]))"

definition println :: "string \<Rightarrow> string" where
  "println l = l @ [CHR 0x0A]"

text \<open>The formats \<open>{:<n}\<close>.\<close>

definition pad :: "nat \<Rightarrow> string \<Rightarrow> string" where
  "pad n s = s @ replicate (n - length (chars s)) (CHR '' '')"

text \<open>The first piece of \<open>str::split\<close> at two spaces.\<close>

fun before_gap :: "string \<Rightarrow> string" where
  "before_gap [] = []"
| "before_gap (c # s) = (if c = CHR '' '' \<and> s \<noteq> [] \<and> hd s = CHR '' '' then [] else c # before_gap s)"

section \<open>The dashboard\<close>

text \<open>\<open>ui_profiles\<close>: the loop over the lines of \<open>profile ls\<close>.\<close>

fun profile_lines :: "string list \<Rightarrow> string list \<Rightarrow> string option \<Rightarrow> string list \<times> string option" where
  "profile_lines [] profiles active = (profiles, active)"
| "profile_lines (r # ls) profiles active =
     (let line = trim r
      in if line = [] \<or> starts_with ''('' line then profile_lines ls profiles active
         else
           (case strip_prefix ''* '' line of
              Some rest \<Rightarrow> profile_lines ls (profiles @ [trim rest]) (Some (trim rest))
            | None \<Rightarrow> profile_lines ls (profiles @ [line]) active))"

definition ui_profiles :: "host \<Rightarrow> string list \<times> string option" where
  "ui_profiles H = (case run_bbk H [''profile'', ''ls''] None None None None of
     (ok, out, err) \<Rightarrow> profile_lines (lines out) [] None)"

definition domain_of_line :: "string \<Rightarrow> string option" where
  "domain_of_line l = (let name = trim (before_gap l) in if name = [] then None else Some name)"

definition ui_domains :: "host \<Rightarrow> string option \<Rightarrow> string option \<Rightarrow> string + string list" where
  "ui_domains H profile passphrase = (case run_bbk H [''domain'', ''ls''] profile None passphrase None of
     (ok, out, err) \<Rightarrow>
       if \<not> ok then Inl err
       else Inr (List.map_filter domain_of_line
         (filter (\<lambda>l. trim l \<noteq> [] \<and> \<not> starts_with ''('' (trim l)) (drop 2 (lines out)))))"

definition ui_json ::
    "ops_ext \<Rightarrow> host \<Rightarrow> string list \<Rightarrow> string option \<Rightarrow> string option \<Rightarrow> string option \<Rightarrow> json \<Rightarrow> string + json" where
  "ui_json K H args profile domain passphrase fallback = (case run_bbk H args profile domain passphrase None of
     (ok, out, err) \<Rightarrow> if \<not> ok then Inl err else Inr (case json_parse K (as_bytes out) of None \<Rightarrow> fallback | Some v \<Rightarrow> v))"

definition ui_secrets :: "ops_ext \<Rightarrow> host \<Rightarrow> string option \<Rightarrow> string option \<Rightarrow> string option \<Rightarrow> string + json" where
  "ui_secrets K H profile domain passphrase =
     ui_json K H [''ls'', ''--json''] profile domain passphrase (JObject [(''resources'', JArray []), (''count'', Number 0)])"

definition ui_files :: "ops_ext \<Rightarrow> host \<Rightarrow> string option \<Rightarrow> string option \<Rightarrow> string option \<Rightarrow> string + json" where
  "ui_files K H profile domain passphrase =
     ui_json K H [''file'', ''ls'', ''--json''] profile domain passphrase (JObject [(''files'', JArray []), (''count'', Number 0)])"

text \<open>A command of the command line (crate clap): its name, description, whether it is hidden, its subcommands.\<close>

datatype command = Command (cm_name: string) (cm_about: "string option") (cm_hidden: bool) (cm_subs: "command list")

record catalog_entry =
  ce_path :: string
  ce_about :: string
  ce_leaf :: bool
  ce_group :: string

definition join_space :: "string list \<Rightarrow> string" where
  "join_space xs = (case xs of [] \<Rightarrow> [] | x # r \<Rightarrow> x @ concat (map (\<lambda>y. CHR '' '' # y) r))"

definition first_line :: "string option \<Rightarrow> string" where
  "first_line about = (case about of None \<Rightarrow> [] | Some s \<Rightarrow> trim (case lines s of [] \<Rightarrow> [] | l # ls \<Rightarrow> l))"

definition listed :: "command \<Rightarrow> bool" where
  "listed c \<longleftrightarrow> \<not> cm_hidden c \<and> cm_name c \<noteq> ''help''"

fun walk_commands :: "string list \<Rightarrow> command \<Rightarrow> catalog_entry list" where
  "walk_commands prefix (Command n a h subs) = concat (map (\<lambda>sub.
     if \<not> listed sub then []
     else
       (let path = prefix @ [cm_name sub]; has_subs = list_ex listed (cm_subs sub)
        in \<lparr>ce_path = join_space path, ce_about = first_line (cm_about sub), ce_leaf = (\<not> has_subs),
             ce_group = (case prefix of [] \<Rightarrow> [] | g # gs \<Rightarrow> g)\<rparr>
           # (if has_subs then walk_commands path sub else []))) subs)"

definition ui_commands :: "command \<Rightarrow> catalog_entry list" where
  "ui_commands c = walk_commands [] c"

record reveal_req =
  rv_name :: string
  rv_profile :: "string option"
  rv_domain :: "string option"
  rv_passphrase :: "string option"
  rv_external_passphrase :: "string option"
  rv_mfa :: "string option"
  rv_request_id :: "string option"

record reveal_reply =
  rr_ok :: bool
  rr_value :: string
  rr_stderr :: string

definition trim_end_newlines :: "string \<Rightarrow> string" where
  "trim_end_newlines s = rev (dropWhile (\<lambda>c. c = CHR 0x0A) (rev s))"

definition ui_reveal :: "host \<Rightarrow> reveal_req \<Rightarrow> string + reveal_reply" where
  "ui_reveal H req = (case current_exe H of
      Some e \<Rightarrow> Inl e
    | None \<Rightarrow>
      (case spawn H (opt_arg ''-P'' (rv_profile req) @ opt_arg ''-D'' (rv_domain req) @ opt_arg ''-m'' (rv_mfa req)
          @ [''get'', rv_name req] @ opt_arg ''-r'' (rv_request_id req))
          (child_env (rv_passphrase req) (rv_external_passphrase req)) of
         Inr o' \<Rightarrow> Inr \<lparr>rr_ok = success o', rr_value = trim_end_newlines (pr_stdout o'), rr_stderr = pr_stderr o'\<rparr>
       | Inl e \<Rightarrow> Inl e))"

section \<open>Command lines\<close>

record tokens =
  tk_out :: "string list"
  tk_cur :: string
  tk_single :: bool
  tk_double :: bool
  tk_started :: bool

fun token_loop :: "tokens \<Rightarrow> string list \<Rightarrow> tokens" where
  "token_loop t [] = t"
| "token_loop t (c # cs) =
     (if c = [CHR 0x27] \<and> \<not> tk_double t then token_loop (t\<lparr>tk_single := \<not> tk_single t, tk_started := True\<rparr>) cs
      else if c = [CHR 0x22] \<and> \<not> tk_single t then token_loop (t\<lparr>tk_double := \<not> tk_double t, tk_started := True\<rparr>) cs
      else if c = [CHR 0x5C] \<and> \<not> tk_single t
      then (case cs of [] \<Rightarrow> t | n # cs' \<Rightarrow> token_loop (t\<lparr>tk_cur := tk_cur t @ n, tk_started := True\<rparr>) cs')
      else if is_whitespace c \<and> \<not> tk_single t \<and> \<not> tk_double t
      then token_loop (if tk_started t then t\<lparr>tk_out := tk_out t @ [tk_cur t], tk_cur := [], tk_started := False\<rparr> else t) cs
      else token_loop (t\<lparr>tk_cur := tk_cur t @ c, tk_started := True\<rparr>) cs)"

definition tokenize :: "string \<Rightarrow> string + string list" where
  "tokenize line = (let t = token_loop \<lparr>tk_out = [], tk_cur = [], tk_single = False, tk_double = False, tk_started = False\<rparr> (chars line)
     in if tk_single t \<or> tk_double t then Inl ''unterminated quote''
        else Inr (if tk_started t then tk_out t @ [tk_cur t] else tk_out t))"

definition em_dash :: string where
  "em_dash = [CHR 0xE2, CHR 0x80, CHR 0x94]"

definition is_blocked :: "string list \<Rightarrow> string option" where
  "is_blocked argv = (case List.find (\<lambda>a. \<not> starts_with ''-'' a) argv of
      None \<Rightarrow> None
    | Some sub \<Rightarrow>
        if sub = ''server'' then Some (''`server` runs the API daemon '' @ em_dash @ '' start it separately, not from the web console.'')
        else if sub = ''web'' then Some ''`web` would start another console (no nesting).''
        else None)"

record run_request =
  rn_line :: string
  rn_profile_passphrase :: "string option"
  rn_external_passphrase :: "string option"

record run_response =
  rs_ok :: bool
  rs_code :: int
  rs_stdout :: string
  rs_stderr :: string

definition run_failed :: "string \<Rightarrow> run_response" where
  "run_failed message = \<lparr>rs_ok = False, rs_code = -1, rs_stdout = [], rs_stderr = message\<rparr>"

definition run_finished :: "proc_output \<Rightarrow> run_response" where
  "run_finished o' = \<lparr>rs_ok = success o', rs_code = (case pr_code o' of None \<Rightarrow> -1 | Some c \<Rightarrow> c),
     rs_stdout = pr_stdout o', rs_stderr = pr_stderr o'\<rparr>"

definition run :: "host \<Rightarrow> run_request \<Rightarrow> run_response" where
  "run H req = (case tokenize (rn_line req) of
      Inl e \<Rightarrow> run_failed (''parse error: '' @ e)
    | Inr argv \<Rightarrow>
        if argv = [] then \<lparr>rs_ok = True, rs_code = 0, rs_stdout = [], rs_stderr = []\<rparr>
        else
          (case is_blocked argv of
             Some reason \<Rightarrow> run_failed reason
           | None \<Rightarrow>
             (case current_exe H of
                Some e \<Rightarrow> run_failed (''cannot locate blackbook binary: '' @ e)
              | None \<Rightarrow>
                (case spawn H argv (child_env (rn_profile_passphrase req) (rn_external_passphrase req)) of
                   Inr o' \<Rightarrow> run_finished o'
                 | Inl e \<Rightarrow> run_failed (''failed to run: '' @ e)))))"

definition ends_blank :: "string \<Rightarrow> bool" where
  "ends_blank line \<longleftrightarrow> line = [] \<or> is_whitespace (last (chars line))"

definition complete :: "host \<Rightarrow> string \<Rightarrow> string list" where
  "complete H line =
     (let argv = ''bbk'' # (case tokenize line of Inr v \<Rightarrow> v | Inl e \<Rightarrow> []) @ (if ends_blank line then [[]] else [])
      in case current_exe H of
           Some e \<Rightarrow> []
         | None \<Rightarrow>
           (case spawn H (''__complete'' # ''--'' # argv) [(''BLACKBOOK_NO_PROMPT'', ''1'')] of
              Inr o' \<Rightarrow> filter (\<lambda>s. s \<noteq> []) (lines (pr_stdout o'))
            | Inl e \<Rightarrow> []))"

section \<open>The listings of the client\<close>

text \<open>\<open>&s[..n]\<close> of a string panics inside a character.\<close>

definition short_id :: "string \<Rightarrow> app_error + string" where
  "short_id i = (if 8 < length i \<and> is_cont_char (i ! 8) then Inl AppPanic else Inr (take 8 i))"

text \<open>\<open>Path::extension\<close> and \<open>Path::file_stem\<close> of a file name: split at the last dot, unless it is the first character.\<close>

definition stem_ext :: "string \<Rightarrow> (string \<times> string) option" where
  "stem_ext f = (case split_once (CHR ''.'') (rev f) of
      None \<Rightarrow> None
    | Some (e, s) \<Rightarrow> if s = [] then None else Some (rev s, rev e))"

text \<open>
  \<open>Session::list_profiles\<close>, given the names in the directory of profiles, in the order of
  \<open>fs::read_dir\<close>, and whether the old session file exists.
\<close>

definition list_profiles :: "string list \<Rightarrow> bool \<Rightarrow> string list" where
  "list_profiles entries legacy =
     (let names = List.map_filter (\<lambda>f. case stem_ext f of Some (s, e) \<Rightarrow> if e = ''json'' then Some s else None | None \<Rightarrow> None) entries
      in sort (if legacy \<and> ''default'' \<notin> set names then names @ [''default''] else names))"

text \<open>What \<open>profile ls\<close> prints.\<close>

definition cmd_profile_ls :: "string list \<Rightarrow> string \<Rightarrow> string" where
  "cmd_profile_ls names active =
     (if names = [] then println (''(no profiles '' @ em_dash @ '' run `blackbook login`)'')
      else concat (map (\<lambda>n. println ((if n = active then ''* '' else ''  '') @ n)) names))"

record domain_entry =
  de_id :: string
  de_name :: string
  de_created :: string
  de_description :: "string option"

text \<open>A row of \<open>domain ls\<close>.\<close>

definition domain_line :: "domain_entry \<Rightarrow> app_error + string" where
  "domain_line d = and_then (short_id (de_id d)) (\<lambda>i.
     Inr (pad 10 i @ ''  '' @ pad 24 (de_name d) @ ''  '' @ pad 24 (de_created d) @ ''  ''
       @ (case de_description d of None \<Rightarrow> [] | Some t \<Rightarrow> t)))"

fun domain_lines :: "domain_entry list \<Rightarrow> app_error + string" where
  "domain_lines [] = Inr []"
| "domain_lines (d # ds) = and_then (domain_line d) (\<lambda>l. and_then (domain_lines ds) (\<lambda>ls. Inr (println l @ ls)))"

definition cmd_domain_ls :: "domain_entry list \<Rightarrow> app_error + string" where
  "cmd_domain_ls ds =
     (if ds = [] then Inr (println ''(no domains visible)'')
      else and_then (domain_lines ds) (\<lambda>ls.
        Inr (println (pad 10 ''ID'' @ ''  '' @ pad 24 ''NAME'' @ ''  '' @ pad 24 ''CREATED'' @ ''  DESCRIPTION'')
          @ println (replicate 90 (CHR ''-'')) @ ls)))"

section \<open>Quoting\<close>

lemma chars_not_Nil [simp]: "chars s = [] \<longleftrightarrow> s = []"
  by (cases s) simp_all

text \<open>A string that does not begin inside a character.\<close>

definition aligned :: "string \<Rightarrow> bool" where
  "aligned s \<longleftrightarrow> s = [] \<or> \<not> is_cont_char (hd s)"

lemma chars_append: "aligned b \<Longrightarrow> chars (a @ b) = chars a @ chars b"
proof (induction a rule: chars.induct)
  case (2 c s)
  show ?case
  proof (cases "\<forall>x \<in> set s. is_cont_char x")
    case True
    then have s: "takeWhile is_cont_char s = s" "dropWhile is_cont_char s = []" by (simp_all add: takeWhile_eq_all_conv)
    have b: "takeWhile is_cont_char b = []" "dropWhile is_cont_char b = b" using 2(2) by (cases b; simp add: aligned_def)+
    have "takeWhile is_cont_char (s @ b) = s @ takeWhile is_cont_char b" "dropWhile is_cont_char (s @ b) = dropWhile is_cont_char b"
      using True by (blast intro: takeWhile_append2 dropWhile_append2)+
    then show ?thesis unfolding append_Cons chars.simps b s by simp
  next
    case False
    then have "takeWhile is_cont_char (s @ b) = takeWhile is_cont_char s" "dropWhile is_cont_char (s @ b) = dropWhile is_cont_char s @ b"
      by (auto simp: takeWhile_append dropWhile_append)
    then show ?thesis using 2 by simp
  qed
qed simp

lemma chars_one: "list_all is_cont_char s \<Longrightarrow> chars (c # s) = [c # s]"
  by (simp add: list_all_iff takeWhile_eq_all_conv [THEN iffD2] dropWhile_eq_Nil_conv [THEN iffD2])

lemma aligned_drop: "aligned (dropWhile is_cont_char s)"
  by (induction s) (auto simp: aligned_def)

lemma aligned_simps [simp]: "aligned []" "aligned (c # s) \<longleftrightarrow> \<not> is_cont_char c"
  by (simp_all add: aligned_def)

lemma aligned_append: "aligned a \<Longrightarrow> aligned b \<Longrightarrow> aligned (a @ b)"
  by (cases a) simp_all

lemma concat_chars [simp]: "concat (chars s) = s"
  by (induction s rule: chars.induct) simp_all

text \<open>A word in single quotes, a quote in it written outside of them.\<close>

definition quote_char :: "string \<Rightarrow> string list" where
  "quote_char c = (if c = [CHR 0x27] then [[CHR 0x27], [CHR 0x5C], [CHR 0x27], [CHR 0x27]] else [c])"

definition quote :: "string \<Rightarrow> string" where
  "quote w = CHR 0x27 # concat (concat (map quote_char (chars w))) @ [CHR 0x27]"

definition command_line :: "string list \<Rightarrow> string" where
  "command_line ws = join_space (map quote ws)"

lemma not_cont [simp]: "\<not> is_cont_char (CHR 0x27)" "\<not> is_cont_char (CHR 0x5C)" "\<not> is_cont_char (CHR '' '')"
  by (simp_all add: is_cont_char_def)

lemma quoted_chars:
  "aligned w \<Longrightarrow> aligned b \<Longrightarrow>
    aligned (concat (concat (map quote_char (chars w))) @ b)
    \<and> chars (concat (concat (map quote_char (chars w))) @ b) = concat (map quote_char (chars w)) @ chars b"
proof (induction w rule: chars.induct)
  case (2 c s)
  let ?r = "concat (concat (map quote_char (chars (dropWhile is_cont_char s)))) @ b" and ?c = "c # takeWhile is_cont_char s"
  have IH: "aligned ?r" "chars ?r = concat (map quote_char (chars (dropWhile is_cont_char s))) @ chars b"
    using 2 aligned_drop by blast+
  have one: "chars ?c = [?c]" by (rule chars_one) (auto simp: list_all_iff dest: set_takeWhileD)
  have q: "chars (concat (quote_char ?c)) = quote_char ?c" "aligned (concat (quote_char ?c))"
    using 2(2) one by (auto simp: quote_char_def)
  then show ?case using chars_append [OF IH(1), of "concat (quote_char ?c)"] aligned_append [OF q(2) IH(1)] IH(2) by simp
qed simp

lemma quote_chars:
  assumes "aligned w" and "aligned b"
  shows "chars (quote w @ b) = [CHR 0x27] # concat (map quote_char (chars w)) @ [CHR 0x27] # chars b"
proof -
  let ?q = "concat (concat (map quote_char (chars w)))"
  have b: "chars (CHR 0x27 # b) = [CHR 0x27] # chars b" using chars_append [OF assms(2), of "[CHR 0x27]"] by simp
  have "aligned (?q @ CHR 0x27 # b)" "chars (?q @ CHR 0x27 # b) = concat (map quote_char (chars w)) @ [CHR 0x27] # chars b"
    using quoted_chars [OF assms(1), of "CHR 0x27 # b"] b by simp_all
  then show ?thesis using chars_append [of "?q @ CHR 0x27 # b" "[CHR 0x27]"] by (simp add: quote_def)
qed

lemma token_quoted:
  assumes "tk_single t" and "\<not> tk_double t" and "tk_started t"
  shows "token_loop t (concat (map quote_char cs) @ rest) = token_loop (t\<lparr>tk_cur := tk_cur t @ concat cs\<rparr>) rest"
  using assms
proof (induction cs arbitrary: t)
  case (Cons c cs)
  then show ?case by (cases t) (auto simp: quote_char_def)
qed simp

lemma token_word:
  assumes "aligned w" and "aligned b" and "\<not> tk_single t" and "\<not> tk_double t"
  shows "token_loop t (chars (quote w @ b)) = token_loop (t\<lparr>tk_cur := tk_cur t @ w, tk_started := True\<rparr>) (chars b)"
  using assms by (cases t) (simp add: quote_chars token_quoted)

lemma line_tokens:
  assumes "list_all aligned ws" and "\<not> tk_single t" and "\<not> tk_double t" and "tk_started t"
  shows "token_loop t (chars (concat (map (\<lambda>w. CHR '' '' # quote w) ws)))
    = t\<lparr>tk_out := tk_out t @ butlast (tk_cur t # ws), tk_cur := last (tk_cur t # ws), tk_started := True\<rparr>"
  using assms
proof (induction ws arbitrary: t)
  case (Cons w ws)
  let ?r = "concat (map (\<lambda>w. CHR '' '' # quote w) ws)"
  have r: "aligned ?r" by (cases ws) simp_all
  have q: "aligned (quote w @ ?r)" by (simp add: quote_def)
  have sp: "is_whitespace [CHR '' '']" by (simp add: is_whitespace_def whitespace_codes_def)
  have "chars (CHR '' '' # quote w @ ?r) = [CHR '' ''] # chars (quote w @ ?r)"
    using chars_append [OF q, of "[CHR '' '']"] by simp
  then show ?case using Cons sp r by (simp add: token_word)
qed simp

lemma tokenize_command_line:
  assumes "list_all aligned ws"
  shows "tokenize (command_line ws) = Inr ws"
proof (cases ws)
  case Nil
  then show ?thesis by (simp add: tokenize_def command_line_def join_space_def)
next
  case (Cons w r)
  let ?r = "concat (map (\<lambda>w. CHR '' '' # quote w) r)"
  have r: "aligned ?r" by (cases r) simp_all
  have "command_line ws = quote w @ ?r" by (simp add: command_line_def join_space_def Cons comp_def)
  then show ?thesis using assms Cons token_word [OF _ r, of w]
    by (simp add: tokenize_def line_tokens append_butlast_last_id)
qed

lemma utf8_aligned: "utf8_str s \<Longrightarrow> aligned s"
proof (cases s)
  case (Cons c r)
  let ?b = "word_of_nat (of_char c) :: 8 word"
  assume "utf8_str s"
  then have "utf8_ok (?b # as_bytes r)" by (simp add: utf8_str_def Cons as_bytes_def)
  then have "unat ?b < 128 \<or> 194 \<le> unat ?b"
    by (subst (asm) utf8_ok.simps) (auto split: if_splits list.splits)
  moreover have "unat ?b = of_char c" using of_char_less [of c] by (simp add: unat_of_nat)
  ultimately show ?thesis unfolding Cons aligned_simps is_cont_char_def by linarith
qed simp

section \<open>Reading the listings back\<close>

definition printable :: "string \<Rightarrow> bool" where
  "printable l \<longleftrightarrow> CHR 0x0A \<notin> set l \<and> (l = [] \<or> last l \<noteq> CHR 0x0D)"

lemma lines_println: "printable l \<Longrightarrow> lines (println l @ s) = l # lines s"
proof -
  assume "printable l"
  then have "split_on (CHR 0x0A) (println l @ s) = l # split_on (CHR 0x0A) s" "strip_cr l = l"
    by (auto simp: printable_def println_def split_on_first strip_cr_def)
  moreover have "split_on (CHR 0x0A) s \<noteq> []" unfolding split_on_def by (induction s) (simp_all split: list.split)
  ultimately show ?thesis by (simp add: lines_def Let_def)
qed

lemma lines_Nil [simp]: "lines [] = []"
  by (simp add: lines_def split_on_def)

lemma lines_printed: "list_all printable ls \<Longrightarrow> lines (concat (map println ls)) = ls"
  by (induction ls) (simp_all add: lines_println)

text \<open>The catalogue has the path of every command that is reached through commands that are not hidden.\<close>

inductive visible_path :: "command \<Rightarrow> string list \<Rightarrow> bool" where
  Sub: "s \<in> set (cm_subs c) \<Longrightarrow> listed s \<Longrightarrow> visible_path c [cm_name s]"
| Deeper: "s \<in> set (cm_subs c) \<Longrightarrow> listed s \<Longrightarrow> visible_path s p \<Longrightarrow> visible_path c (cm_name s # p)"

inductive_simps visible_path_Nil: "visible_path c []"
inductive_simps visible_path_Cons: "visible_path c (n # p)"

lemma visible_path_iff:
  "visible_path c p \<longleftrightarrow> (\<exists>s \<in> set (cm_subs c). listed s \<and> (\<exists>q. p = cm_name s # q \<and> (q = [] \<or> visible_path s q)))"
  by (subst visible_path.simps) auto

lemma walk_paths: "ce_path ` set (walk_commands prefix c) = {join_space (prefix @ p) |p. visible_path c p}"
proof (induction prefix c rule: walk_commands.induct)
  case (1 prefix n a h subs)
  let ?below = "\<lambda>s. if list_ex listed (cm_subs s) then walk_commands (prefix @ [cm_name s]) s else []"
  let ?paths = "\<lambda>s. {join_space (prefix @ cm_name s # q) |q. q = [] \<or> visible_path s q}"
  define f where "f = (\<lambda>s. if \<not> listed s then [] else (let path = prefix @ [cm_name s]; has_subs = list_ex listed (cm_subs s)
    in \<lparr>ce_path = join_space path, ce_about = first_line (cm_about s), ce_leaf = (\<not> has_subs),
         ce_group = (case prefix of [] \<Rightarrow> [] | g # gs \<Rightarrow> g)\<rparr> # (if has_subs then walk_commands path s else [])))"
  have d: "ce_path ` set (?below s) = {join_space (prefix @ cm_name s # q) |q. visible_path s q}" if "s \<in> set subs" "listed s" for s
  proof (cases "list_ex listed (cm_subs s)")
    case True
    then show ?thesis using 1 [OF that(1) _ refl refl] that(2) by simp
  next
    case False
    then have "\<not> visible_path s q" for q by (subst visible_path_iff) (auto simp: list_ex_iff)
    with False show ?thesis by simp
  qed
  have e: "ce_path ` set (f s) = (if listed s then ?paths s else {})" if "s \<in> set subs" for s
  proof (cases "listed s")
    case True
    then have "ce_path ` set (f s) = insert (join_space (prefix @ [cm_name s])) (ce_path ` set (?below s))" by (simp add: f_def Let_def)
    also have "\<dots> = ?paths s" unfolding d [OF that True] by auto
    finally show ?thesis using True by simp
  qed (simp add: f_def)
  have w: "walk_commands prefix (Command n a h subs) = concat (map f subs)" unfolding walk_commands.simps f_def ..
  have "ce_path ` set (concat (map f subs)) = (\<Union>s \<in> set subs. ce_path ` set (f s))" by auto
  also have "\<dots> = (\<Union>s \<in> set subs. if listed s then ?paths s else {})" using e by (rule SUP_cong [OF refl])
  also have "\<dots> = {join_space (prefix @ p) |p. \<exists>s \<in> set subs. listed s \<and> (\<exists>q. p = cm_name s # q \<and> (q = [] \<or> visible_path s q))}"
    (is "?A = ?B")
  proof (intro set_eqI iffI)
    fix x
    assume "x \<in> ?A"
    then obtain s where s: "s \<in> set subs" "listed s" "x \<in> ?paths s" by (auto split: if_splits)
    then show "x \<in> ?B" by blast
  next
    fix x
    assume "x \<in> ?B"
    then obtain s where "s \<in> set subs" "listed s" "x \<in> ?paths s" by blast
    then show "x \<in> ?A" by force
  qed
  finally show ?case unfolding w visible_path_iff [of "Command n a h subs"] command.sel .
qed

lemma visible_aligned: "list_all visible s \<Longrightarrow> aligned s"
  by (cases s) (auto simp: visible_def is_cont_char_def)

lemma trim_first:
  assumes "visible c"
  shows "\<exists>t. trim (c # s) = c # t"
proof -
  obtain x xs where x: "chars (c # s) = x # xs" "\<exists>t. x = c # t" by simp
  have n: "\<not> is_whitespace x" using x(2) assms by (auto simp: is_whitespace_def whitespace_codes_def visible_def)
  have "rev (dropWhile is_whitespace (rev xs @ [x])) = x # rev (dropWhile is_whitespace (rev xs))"
    using n by (cases "\<forall>y \<in> set (rev xs). is_whitespace y") (auto simp: dropWhile_append)
  then show ?thesis using x n by (auto simp: trim_def)
qed

lemma space_char [simp]: "is_whitespace [CHR '' '']"
  by (simp add: is_whitespace_def whitespace_codes_def)

lemma trim_listed:
  assumes "list_all visible n" and "n \<noteq> []"
  shows "trim (''  '' @ n) = n" and "trim (''* '' @ n) = ''* '' @ n"
proof -
  have c: "chars (a @ n) = chars a @ map (\<lambda>c. [c]) n" for a
    using chars_append [OF visible_aligned [OF assms(1)]] assms(1) by (simp add: chars_visible)
  have "\<not> is_whitespace [hd n]" "\<not> is_whitespace [last n]" using assms by (auto intro!: visible_not_space simp: list_all_iff)
  note ends = this assms(2)
  have d1: "dropWhile is_whitespace (map (\<lambda>c. [c]) n) = map (\<lambda>c. [c]) n" using ends by (cases n) simp_all
  have d2: "dropWhile is_whitespace (rev (map (\<lambda>c. [c]) n) @ r) = rev (map (\<lambda>c. [c]) n) @ r" for r
    using ends by (cases n rule: rev_cases) simp_all
  have star: "\<not> is_whitespace ''*''" by (simp add: is_whitespace_def whitespace_codes_def)
  have sp: "chars ''  '' = ['' '', '' '']" "chars ''* '' = [''*'', '' '']" by (simp_all add: is_cont_char_def)
  show "trim (''  '' @ n) = n" using d1 d2 [of "[]"] unfolding trim_def c sp by simp
  show "trim (''* '' @ n) = ''* '' @ n" using star d2 [of "['' '', ''*'']"] unfolding trim_def c sp by simp
qed

text \<open>A name as the listing of profiles can hold it: visible characters, the first no parenthesis.\<close>

definition listable :: "string \<Rightarrow> bool" where
  "listable n \<longleftrightarrow> n \<noteq> [] \<and> list_all visible n \<and> hd n \<noteq> CHR ''(''"

lemma listable_printable: "listable n \<Longrightarrow> printable (''* '' @ n)" "listable n \<Longrightarrow> printable (''  '' @ n)"
proof -
  have v: "\<not> visible (CHR 0x0A)" "\<not> visible (CHR 0x0D)" by (simp_all add: visible_def)
  show "listable n \<Longrightarrow> printable (''* '' @ n)" "listable n \<Longrightarrow> printable (''  '' @ n)"
    using v by (auto simp: listable_def printable_def list_all_iff) (metis last_in_set)+
qed

lemma profile_lines_read:
  assumes "list_all listable ns"
  shows "profile_lines (map (\<lambda>n. (if n = active then ''* '' else ''  '') @ n) ns) ps act
    = (ps @ ns, if active \<in> set ns then Some active else act)"
  using assms
proof (induction ns arbitrary: ps act)
  case (Cons n ns)
  have n: "n \<noteq> []" "list_all visible n" "hd n \<noteq> CHR ''(''" using Cons(2) by (simp_all add: listable_def)
  have t: "trim n = n" using n(2) by (rule trim_visible)
  have "\<not> starts_with ''('' n" using n(1,3) by (cases n) (auto simp: starts_with_def)
  moreover have "strip_prefix ''* '' n = None" using n by (cases n; cases "tl n") (auto simp: strip_prefix_def visible_def)
  ultimately show ?case using Cons n trim_listed [OF n(2,1)] t
    by (auto simp: Let_def starts_with_def strip_prefix_def)
qed simp

lemma profiles_read_back:
  assumes "list_all listable ns"
  shows "profile_lines (lines (cmd_profile_ls ns active)) [] None = (ns, if active \<in> set ns then Some active else None)"
proof (cases "ns = []")
  case True
  have l: "lines (cmd_profile_ls ns active) = [''(no profiles '' @ em_dash @ '' run `blackbook login`)'']"
    using True lines_println [of _ "[]"] by (simp add: cmd_profile_ls_def printable_def em_dash_def)
  obtain t where "trim (''(no profiles '' @ em_dash @ '' run `blackbook login`)'') = CHR ''('' # t"
    using trim_first [of "CHR ''(''"] by (auto simp: visible_def)
  then show ?thesis using True l by (simp add: starts_with_def)
next
  case False
  let ?l = "\<lambda>n. (if n = active then ''* '' else ''  '') @ n"
  have "lines (concat (map println (map ?l ns))) = map ?l ns"
    using assms listable_printable by (intro lines_printed) (auto simp: list_all_iff)
  then have "lines (cmd_profile_ls ns active) = map ?l ns" using False by (simp add: cmd_profile_ls_def comp_def)
  then show ?thesis using profile_lines_read [OF assms, of active] by simp
qed

lemma split_once_Some: "split_once c s = Some (a, b) \<Longrightarrow> s = a @ c # b \<and> c \<notin> set a"
  by (induction s arbitrary: a) (auto split: if_splits)

text \<open>The profiles listed are those that have a file, and the old session as \<open>default\<close>.\<close>

lemma list_profiles_set:
  "set (list_profiles entries legacy)
    = {n. n \<noteq> [] \<and> n @ ''.json'' \<in> set entries} \<union> (if legacy then {''default''} else {})"
proof -
  have "stem_ext f = Some (n, ''json'') \<longleftrightarrow> n \<noteq> [] \<and> f = n @ ''.json''" for f n
  proof
    assume "stem_ext f = Some (n, ''json'')"
    then show "n \<noteq> [] \<and> f = n @ ''.json''"
      by (auto simp: stem_ext_def dest!: split_once_Some arg_cong [of _ "rev ''json''" rev] split: option.splits if_splits)
  next
    assume "n \<noteq> [] \<and> f = n @ ''.json''"
    then show "stem_ext f = Some (n, ''json'')"
      using split_once_first [of "CHR ''.''" "rev ''json''" "rev n"] by (simp add: stem_ext_def)
  qed
  note ext = this
  let ?g = "\<lambda>f. case stem_ext f of Some (s, e) \<Rightarrow> if e = ''json'' then Some s else None | None \<Rightarrow> None"
  have g: "?g f = Some n \<longleftrightarrow> n \<noteq> [] \<and> f = n @ ''.json''" for f n
    unfolding ext [symmetric] by (simp split: option.split prod.split)
  have m: "set (List.map_filter ?g fs) = {n. \<exists>f \<in> set fs. ?g f = Some n}" for fs
    by (induction fs) (auto simp: map_filter_simps split: option.split)
  have "set (List.map_filter ?g entries) = {n. n \<noteq> [] \<and> n @ ''.json'' \<in> set entries}" unfolding m g by blast
  then show ?thesis by (cases "''default'' @ ''.json'' \<in> set entries") (simp_all add: list_profiles_def Let_def insert_absorb)
qed

text \<open>A row of the listing of domains begins with the short id.\<close>

lemma before_gap_visible: "list_all visible s \<Longrightarrow> before_gap (s @ CHR '' '' # CHR '' '' # r) = s"
  by (induction s) (auto simp: visible_def)

lemma domain_of_row:
  assumes "listable (de_id d)" and "domain_line d = Inr l"
  shows "domain_of_line l = Some (take 8 (de_id d))" and "trim l \<noteq> []" and "\<not> starts_with ''('' (trim l)"
proof -
  let ?i = "take 8 (de_id d)"
  have v: "list_all visible ?i" "?i \<noteq> []" "hd ?i \<noteq> CHR ''(''"
    using assms(1) by (auto simp: listable_def list_all_iff dest: in_set_takeD)
  have "length (chars ?i) \<le> 8" using v(1) by (simp add: chars_visible)
  then have "10 - length (chars ?i) = Suc (Suc (8 - length (chars ?i)))" by linarith
  then have "\<exists>r. pad 10 ?i = ?i @ CHR '' '' # CHR '' '' # r" unfolding pad_def by simp
  moreover have "\<exists>r. l = pad 10 ?i @ r" using assms(2) by (auto simp: domain_line_def short_id_def split: if_splits)
  ultimately obtain r where l: "l = ?i @ CHR '' '' # CHR '' '' # r" by auto
  then have "before_gap l = ?i" using v(1) by (simp add: before_gap_visible)
  then show "domain_of_line l = Some ?i" using v(1,2) by (simp add: domain_of_line_def trim_visible)
  obtain c s where c: "?i = c # s" using v(2) by (cases ?i) auto
  obtain t where "trim l = c # t" using trim_first [of c "s @ CHR '' '' # CHR '' '' # r"] v(1) c l by auto
  then show "trim l \<noteq> []" "\<not> starts_with ''('' (trim l)" using v(3) c by (auto simp: starts_with_def)
qed

lemma domain_rows_read:
  assumes "list_all (\<lambda>d. listable (de_id d)) ds" and "domain_lines ds = Inr out"
    and "list_all (\<lambda>d. \<forall>l. domain_line d = Inr l \<longrightarrow> printable l) ds"
  shows "List.map_filter domain_of_line (filter (\<lambda>l. trim l \<noteq> [] \<and> \<not> starts_with ''('' (trim l)) (lines out))
    = map (\<lambda>d. take 8 (de_id d)) ds"
  using assms
proof (induction ds arbitrary: out)
  case (Cons d ds)
  obtain l ls where l: "domain_line d = Inr l" "domain_lines ds = Inr ls" "out = println l @ ls"
    using Cons(3) by (auto elim!: and_then_InrE)
  have "lines out = l # lines ls" using l Cons(4) by (simp add: lines_println)
  then show ?case using Cons domain_of_row [OF _ l(1)] l(2) by (simp add: map_filter_simps)
qed (simp add: map_filter_simps)

text \<open>Where a command starts that the console runs.\<close>

definition child_shell :: "shell \<Rightarrow> string option \<Rightarrow> string option \<Rightarrow> shell" where
  "child_shell sh profile_pass external_pass = sh\<lparr>sh_env := sh_env sh ++ map_of (child_env profile_pass external_pass)\<rparr>"

lemma child_suppressed: "prompts_suppressed (child_shell sh p e)"
  by (simp add: prompts_suppressed_def child_shell_def child_env_def map_add_def nonempty_def)

lemma unprompted:
  assumes "prompts_suppressed sh"
  shows "resolve_passphrase (sh\<lparr>sh_typed := t\<rparr>) i x c = resolve_passphrase sh i x c"
    and "resolve_external_passphrase_for_read (sh\<lparr>sh_typed := t\<rparr>) x = resolve_external_passphrase_for_read sh x"
  using assms
  by (simp_all add: resolve_passphrase_def prompts_suppressed_def resolve_external_passphrase_for_read_def
      resolve_external_passphrase_opt_def flag_or_env_def split: option.split)

section \<open>Properties\<close>

text \<open>
  C28. Every list of arguments can be typed into the console and is run as it is: each has a command
  line, with every word in quotes, for which the console starts exactly one process with exactly
  these arguments, whatever characters they contain, unless the subcommand is blocked.
\<close>

theorem console_runs_argv:
  assumes "list_all utf8_str ws" and "ws \<noteq> []" and "is_blocked ws = None" and "current_exe H = None"
  shows "run H \<lparr>rn_line = command_line ws, rn_profile_passphrase = p, rn_external_passphrase = e\<rparr>
    = (case spawn H ws (child_env p e) of Inr o' \<Rightarrow> run_finished o' | Inl m \<Rightarrow> run_failed (''failed to run: '' @ m))"
proof -
  have "list_all aligned ws" using assms(1) by (auto simp: list_all_iff intro: utf8_aligned)
  then show ?thesis using assms(2-4) by (simp add: run_def tokenize_command_line)
qed

text \<open>
  C29. The dashboard's listing of domains has ids for names: the list that \<open>ui_domains\<close> returns as the
  names of the domains of a profile consists of the first eight characters of their ids, since the
  output of \<open>domain ls\<close> that it reads has the id in the first column. (What the page in the browser
  does with the list is not modelled.)
\<close>

theorem dashboard_domains_are_ids:
  assumes "ds \<noteq> []" and "cmd_domain_ls ds = Inr out" and "list_all (\<lambda>d. listable (de_id d)) ds"
    and "list_all (\<lambda>d. \<forall>l. domain_line d = Inr l \<longrightarrow> printable l) ds" and "current_exe H = None"
    and "spawn H (opt_arg ''-P'' profile @ [''domain'', ''ls'']) (child_env pass None)
      = Inr \<lparr>pr_code = Some 0, pr_stdout = out, pr_stderr = err\<rparr>"
  shows "ui_domains H profile pass = Inr (map (\<lambda>d. take 8 (de_id d)) ds)"
proof -
  obtain ls where ls: "domain_lines ds = Inr ls"
    "out = println (pad 10 ''ID'' @ ''  '' @ pad 24 ''NAME'' @ ''  '' @ pad 24 ''CREATED'' @ ''  DESCRIPTION'')
      @ println (replicate 90 (CHR ''-'')) @ ls"
    using assms(1,2) by (auto simp: cmd_domain_ls_def elim!: and_then_InrE)
  have "printable (pad 10 ''ID'' @ ''  '' @ pad 24 ''NAME'' @ ''  '' @ pad 24 ''CREATED'' @ ''  DESCRIPTION'')"
    "printable (replicate 90 (CHR ''-''))"
    by (simp_all add: printable_def pad_def last_replicate)
  then have "drop 2 (lines out) = lines ls" by (simp add: ls(2) lines_println)
  then show ?thesis using domain_rows_read [OF assms(3) ls(1) assms(4)] assms(5,6)
    by (simp add: ui_domains_def run_bbk_def opt_arg_def success_def)
qed

text \<open>
  A command of the console never waits for the terminal: whatever would be typed there, the
  commands that may ask for a passphrase do the same and return the same.
\<close>

theorem console_never_prompts:
  "load_named E K J (child_shell sh p e\<lparr>sh_typed := t\<rparr>) rq i n = load_named E K J (child_shell sh p e) rq i n
   \<and> cmd_login E K J me (child_shell sh p e\<lparr>sh_typed := t\<rparr>) rq b so po = cmd_login E K J me (child_shell sh p e) rq b so po
   \<and> cmd_unlock E K J (child_shell sh p e\<lparr>sh_typed := t\<rparr>) rq n m = cmd_unlock E K J (child_shell sh p e) rq n m
   \<and> cmd_passphrase E K J (child_shell sh p e\<lparr>sh_typed := t\<rparr>) rq n old new = cmd_passphrase E K J (child_shell sh p e) rq n old new"
proof -
  note u = unprompted [OF child_suppressed]
  have f: "path_for (sh\<lparr>sh_typed := t\<rparr>) = path_for sh" "legacy_path (sh\<lparr>sh_typed := t\<rparr>) = legacy_path sh"
    "agent_get E c (sh\<lparr>sh_typed := t\<rparr>) = agent_get E c sh" "agent_store E c (sh\<lparr>sh_typed := t\<rparr>) = agent_store E c sh"
    for sh c
    by (auto simp: path_for_def legacy_path_def bbk_dir_def agent_get_def agent_entry_of_def agent_store_def agent_path_def agent_dir_def fun_eq_iff)
  have w: "save_encrypted E K J (sh\<lparr>sh_typed := t\<rparr>) = save_encrypted E K J sh"
    "read_domain_pref (sh\<lparr>sh_typed := t\<rparr>) = read_domain_pref sh" "write_domain_pref (sh\<lparr>sh_typed := t\<rparr>) = write_domain_pref sh"
    "read_sealed J (sh\<lparr>sh_typed := t\<rparr>) = read_sealed J sh" "flag_or_env (sh\<lparr>sh_typed := t\<rparr>) = flag_or_env sh"
    for sh
    by (auto simp: save_encrypted_def read_domain_pref_def write_domain_pref_def domain_pointer_path_def read_sealed_def
        flag_or_env_def bbk_dir_def write_active_pointer_def active_pointer_path_def f fun_eq_iff split: sum.split option.split)
  have "open_with_prompt E K J (child_shell sh p e\<lparr>sh_typed := t\<rparr>) rq i n = open_with_prompt E K J (child_shell sh p e) rq i n" for i n
    by (rule ext) (simp add: open_with_prompt_def f u cong: sum.case_cong)
  then have "from_profile_bytes E K J (child_shell sh p e\<lparr>sh_typed := t\<rparr>) rq i n = from_profile_bytes E K J (child_shell sh p e) rq i n" for i n
    by (intro ext) (simp add: from_profile_bytes_def f cong: option.case_cong sum.case_cong if_cong)
  then have l: "load_named E K J (child_shell sh p e\<lparr>sh_typed := t\<rparr>) rq i n = load_named E K J (child_shell sh p e) rq i n" for i n
    by (simp add: load_named_def f cong: if_cong)
  then have "load_named E K J (child_shell sh p e\<lparr>sh_typed := t\<rparr>) rq i n = load_named E K J (child_shell sh p e) rq i n" .
  moreover have "cmd_login E K J me (child_shell sh p e\<lparr>sh_typed := t\<rparr>) rq b so po = cmd_login E K J me (child_shell sh p e) rq b so po"
    by (simp add: cmd_login_def l u w cong: option.case_cong sum.case_cong if_cong prod.case_cong)
  moreover have "cmd_unlock E K J (child_shell sh p e\<lparr>sh_typed := t\<rparr>) rq n m = cmd_unlock E K J (child_shell sh p e) rq n m"
    by (simp add: cmd_unlock_def u w f cong: option.case_cong sum.case_cong)
  moreover have "cmd_passphrase E K J (child_shell sh p e\<lparr>sh_typed := t\<rparr>) rq n old new = cmd_passphrase E K J (child_shell sh p e) rq n old new"
    by (simp add: cmd_passphrase_def passphrase_or_def u w f Let_def cong: option.case_cong sum.case_cong if_cong)
  ultimately show ?thesis by blast
qed

section \<open>Witnesses\<close>

definition demo_host :: host where
  "demo_host = \<lparr>current_exe = None, spawn = (\<lambda>argv env. Inr \<lparr>pr_code = Some 0, pr_stdout = join_space argv, pr_stderr = []\<rparr>)\<rparr>"

theorem console_runs_argv_witness:
  "rs_stdout (run demo_host \<lparr>rn_line = command_line [''put'', ''it'' @ [CHR 0x27] @ ''s'', []], rn_profile_passphrase = None,
     rn_external_passphrase = None\<rparr>) = ''put it'' @ [CHR 0x27] @ ''s ''"
proof -
  let ?ws = "[''put'', ''it'' @ [CHR 0x27] @ ''s'', []]"
  have "list_all utf8_str ?ws" by (simp add: ascii_utf8)
  moreover have "is_blocked ?ws = None" by (simp add: is_blocked_def starts_with_def)
  ultimately show ?thesis
    using console_runs_argv [of ?ws demo_host None None] by (simp add: demo_host_def run_finished_def join_space_def)
qed

definition demo_domains :: "domain_entry list" where
  "demo_domains = [\<lparr>de_id = ''0123456789abcdef'', de_name = ''prod'', de_created = ''2024'', de_description = None\<rparr>]"

definition demo_domain_host :: host where
  "demo_domain_host = \<lparr>current_exe = None, spawn = (\<lambda>argv env. Inr \<lparr>pr_code = Some 0,
     pr_stdout = (case cmd_domain_ls demo_domains of Inr out \<Rightarrow> out | Inl e \<Rightarrow> []), pr_stderr = []\<rparr>)\<rparr>"

theorem dashboard_domains_are_ids_witness:
  "ui_domains demo_domain_host None None = Inr [''01234567''] \<and> map de_name demo_domains = [''prod'']"
proof -
  have l: "\<exists>l. domain_line d = Inr l \<and> printable l" if "d \<in> set demo_domains" for d
    using that by (auto simp: demo_domains_def domain_line_def short_id_def is_cont_char_def printable_def pad_def)
  then obtain out where "cmd_domain_ls demo_domains = Inr out" by (auto simp: cmd_domain_ls_def demo_domains_def)
  then show ?thesis
    using dashboard_domains_are_ids [of demo_domains out demo_domain_host None None "[]"] l
    by (auto simp: demo_domain_host_def demo_domains_def list_all_iff listable_def visible_def)
qed

text \<open>A flag with a value in front of the subcommand hides it from the check.\<close>

lemma blocked_bypassed:
  "is_blocked [''server''] \<noteq> None \<and> is_blocked [''-P'', ''alice'', ''server''] = None \<and> is_blocked [''-D'', ''prod'', ''web''] = None"
  by (simp add: is_blocked_def starts_with_def)

end
