(* ===== verification/Presentation.thy ===== *)
theory Presentation
  imports Prelude
begin

text \<open>
  Pictures of fingerprints (\<open>presentation.rs\<close>): one braille cell per byte, and the walk on a field of
  17 by 9 cells. The lemmas show that the walk never leaves the field or the table of glyphs, that
  the picture always has the same shape, and that the braille cells determine the bytes.
\<close>

text \<open>The UTF-8 encoding of the cell U+2800 + b.\<close>

definition braille_cell :: "u8 \<Rightarrow> string" where
  "braille_cell b = map char_of [226 :: nat, 160 + unat b div 64, 128 + unat b mod 64]"

definition braille :: "bytes \<Rightarrow> string" where
  "braille data = concat (map braille_cell data)"

definition ART_W :: nat where "ART_W = 17"
definition ART_H :: nat where "ART_H = 9"
definition COINS :: string where "COINS = '' .o+=*BOX@%&#/^''"

record walk =
  field :: "nat list list"
  wx :: nat
  wy :: nat

text \<open>One of the four steps of a byte, with the bits \<open>d\<close>: the low bit moves along the row, the high bit along the column.\<close>

definition bishop_step :: "nat \<Rightarrow> walk \<Rightarrow> walk" where
  "bishop_step d w =
     (let x = (if even d then wx w - 1 else if wx w < ART_W - 1 then wx w + 1 else wx w);
          y = (if even (d div 2) then wy w - 1 else if wy w < ART_H - 1 then wy w + 1 else wy w);
          c = field w ! y ! x
      in \<lparr>field = (if c < length COINS - 1 then (field w)[y := (field w ! y)[x := c + 1]] else field w), wx = x, wy = y\<rparr>)"

definition bishop_byte :: "u8 \<Rightarrow> walk \<Rightarrow> walk" where
  "bishop_byte b w = fold (\<lambda>i. bishop_step (unat b div 4 ^ i mod 4)) [0, 1, 2, 3] w"

definition bishop_start :: walk where
  "bishop_start = \<lparr>field = replicate ART_H (replicate ART_W 0), wx = ART_W div 2, wy = ART_H div 2\<rparr>"

definition center_in :: "string \<Rightarrow> nat \<Rightarrow> string" where
  "center_in title width =
     (let label = (if title = [] then [] else ''['' @ concat (take (width - 2) (chars title)) @ '']'');
          padding = width - length (chars label);
          left = padding div 2
      in replicate left (CHR ''-'') @ label @ replicate (padding - left) (CHR ''-''))"

definition glyph :: "walk \<Rightarrow> nat \<Rightarrow> nat \<Rightarrow> char" where
  "glyph w j i =
     (if i = ART_W div 2 \<and> j = ART_H div 2 then CHR ''S''
      else if i = wx w \<and> j = wy w then CHR ''E''
      else COINS ! (field w ! j ! i))"

definition art_row :: "walk \<Rightarrow> nat \<Rightarrow> string" where
  "art_row w j = ''|'' @ map (glyph w j) [0..<length (field w ! j)] @ ''|'' @ [CHR 0x0A]"

definition randomart :: "bytes \<Rightarrow> string \<Rightarrow> string" where
  "randomart data title =
     (let w = fold bishop_byte data bishop_start
      in ''+'' @ center_in title ART_W @ ''+'' @ [CHR 0x0A] @ concat (map (art_row w) [0..<length (field w)])
         @ ''+'' @ replicate ART_W (CHR ''-'') @ ''+'')"

section \<open>The walk\<close>

definition walk_ok :: "walk \<Rightarrow> bool" where
  "walk_ok w \<longleftrightarrow> wx w < ART_W \<and> wy w < ART_H \<and> length (field w) = ART_H
     \<and> (\<forall>r \<in> set (field w). length r = ART_W \<and> (\<forall>v \<in> set r. v < length COINS))"

lemma bishop_step_ok: "walk_ok w \<Longrightarrow> walk_ok (bishop_step d w)"
proof -
  assume ok: "walk_ok w"
  define x where "x = (if even d then wx w - 1 else if wx w < ART_W - 1 then wx w + 1 else wx w)"
  define y where "y = (if even (d div 2) then wy w - 1 else if wy w < ART_H - 1 then wy w + 1 else wy w)"
  have xy: "x < ART_W" "y < ART_H" using ok by (auto simp: x_def y_def walk_ok_def)
  then have r: "field w ! y \<in> set (field w)" "length (field w ! y) = ART_W" using ok by (auto simp: walk_ok_def)
  have v: "\<forall>v \<in> set ((field w ! y)[x := field w ! y ! x + 1]). v < length COINS" if "field w ! y ! x < length COINS - 1"
  proof
    fix v assume "v \<in> set ((field w ! y)[x := field w ! y ! x + 1])"
    then have "v = field w ! y ! x + 1 \<or> v \<in> set (field w ! y)" using set_update_subset_insert by fastforce
    then show "v < length COINS" using that ok r(1) by (auto simp: walk_ok_def)
  qed
  have "length r = ART_W \<and> (\<forall>v \<in> set r. v < length COINS)"
    if m: "r \<in> set ((field w)[y := (field w ! y)[x := field w ! y ! x + 1]])" and c: "field w ! y ! x < length COINS - 1" for r
  proof -
    from m have "r = (field w ! y)[x := field w ! y ! x + 1] \<or> r \<in> set (field w)" using set_update_subset_insert by fastforce
    then show ?thesis
    proof
      assume "r = (field w ! y)[x := field w ! y ! x + 1]"
      then show ?thesis using v [OF c] r(2) by simp
    next
      assume "r \<in> set (field w)"
      then show ?thesis using ok by (simp add: walk_ok_def)
    qed
  qed
  then show ?thesis
    using ok xy unfolding bishop_step_def x_def [symmetric] y_def [symmetric] Let_def by (auto simp: walk_ok_def)
qed

lemma bishop_byte_ok: "walk_ok w \<Longrightarrow> walk_ok (bishop_byte b w)"
  by (simp add: bishop_byte_def bishop_step_ok)

lemma walk_stays: "walk_ok w \<Longrightarrow> walk_ok (fold bishop_byte data w)"
  by (induction data arbitrary: w) (simp_all add: bishop_byte_ok)

lemma bishop_start_ok: "walk_ok bishop_start"
  by (simp add: walk_ok_def bishop_start_def ART_W_def ART_H_def COINS_def)

lemma braille_cell_inject: "braille_cell a = braille_cell b \<Longrightarrow> a = b"
proof -
  assume eq: "braille_cell a = braille_cell b"
  have c: "unat x div 64 < 4" "unat x mod 64 < 64" for x :: u8 using unat_u8_less [of x] by (simp_all add: less_mult_imp_div_less)
  from eq have "of_char (char_of (160 + unat a div 64) :: char) = (of_char (char_of (160 + unat b div 64) :: char) :: nat)"
    "of_char (char_of (128 + unat a mod 64) :: char) = (of_char (char_of (128 + unat b mod 64) :: char) :: nat)"
    by (simp_all add: braille_cell_def)
  then have "unat a div 64 = unat b div 64" "unat a mod 64 = unat b mod 64"
    using c [of a] c [of b] by (simp_all add: of_char_of)
  then show ?thesis by (metis div_mult_mod_eq unsigned_word_eqI)
qed

lemma length_braille [simp]: "length (braille data) = 3 * length data"
  by (induction data) (simp_all add: braille_def braille_cell_def)

text \<open>The braille cells determine the bytes.\<close>

lemma braille_inject: "braille a = braille b \<Longrightarrow> a = b"
proof (induction a arbitrary: b)
  case Nil
  then have "length (braille b) = 0" by (metis length_braille list.size(3) mult_0_right)
  then show ?case by simp
next
  case (Cons x a)
  have "length (braille b) = 3 * Suc (length a)" using Cons.prems by (metis length_braille length_Cons)
  then obtain y c where b: "b = y # c" by (cases b) auto
  have "braille_cell x @ braille a = braille_cell y @ braille c" using Cons.prems b by (simp add: braille_def)
  then have "braille_cell x = braille_cell y" "braille a = braille c" by (auto simp: braille_cell_def)
  with Cons.IH braille_cell_inject b show ?case by blast
qed

lemma center_in_length:
  assumes "list_all visible title" and "2 \<le> width"
  shows "length (center_in title width) = width"
proof -
  have "list_all visible (''['' @ concat (take (width - 2) (chars title)) @ '']'')"
    using assms(1) by (auto simp: chars_visible take_map list_all_iff visible_def dest: in_set_takeD)
  then show ?thesis
    using assms by (auto simp: center_in_def Let_def chars_visible take_map)
qed

section \<open>Properties\<close>

text \<open>
  A picture always has eleven lines of nineteen characters: the walk never leaves the field of
  17 by 9 cells and no cell counts beyond the table of glyphs, so that no index is out of range.
\<close>

theorem randomart_shape:
  assumes "list_all visible title"
  shows "walk_ok (fold bishop_byte data bishop_start)
    \<and> (\<exists>lines. randomart data title = concat (map (\<lambda>l. l @ [CHR 0x0A]) (butlast lines)) @ last lines
        \<and> length lines = 11 \<and> (\<forall>l \<in> set lines. length l = 19))"
proof -
  let ?w = "fold bishop_byte data bishop_start"
  have ok: "walk_ok ?w" by (rule walk_stays [OF bishop_start_ok])
  define rows where "rows = map (\<lambda>j. ''|'' @ map (glyph ?w j) [0..<length (field ?w ! j)] @ ''|'') [0..<length (field ?w)]"
  let ?lines = "(''+'' @ center_in title ART_W @ ''+'') # rows @ [''+'' @ replicate ART_W (CHR ''-'') @ ''+'']"
  have "randomart data title = concat (map (\<lambda>l. l @ [CHR 0x0A]) (butlast ?lines)) @ last ?lines"
    by (simp add: randomart_def Let_def rows_def art_row_def [abs_def] comp_def butlast_append)
  moreover have "length (center_in title ART_W) = ART_W" using center_in_length [OF assms] by (simp add: ART_W_def)
  then have "\<forall>l \<in> set ?lines. length l = 19" using ok by (auto simp: rows_def walk_ok_def ART_W_def)
  moreover have "length ?lines = 11" using ok by (simp add: rows_def walk_ok_def ART_H_def)
  ultimately show ?thesis using ok by blast
qed

section \<open>Witnesses\<close>

theorem randomart_shape_witness:
  "\<exists>lines. randomart [1, 2, 255] ''bbk'' = concat (map (\<lambda>l. l @ [CHR 0x0A]) (butlast lines)) @ last lines
    \<and> length lines = 11 \<and> (\<forall>l \<in> set lines. length l = 19)"
  using randomart_shape [of "''bbk''" "[1, 2, 255]"] by (simp add: visible_def)

end
