(* ===== verification/Crypto_Cli.thy ===== *)
theory Crypto_Cli
  imports Client_Commands Keys_Api Presentation
begin

text \<open>
  The cryptographic commands of the client (\<open>crypto_cli.rs\<close>): encryption and decryption with a
  managed key, the client master key, a key file or a passphrase, signatures, keyed hashes, tokens,
  and the generation of key files. Managed keys are used through the handlers of \<open>Keys_Api\<close>. The
  lemmas show that what is encrypted is decrypted whatever happens to the key in between, which
  files a generated key is written over, and with which permissions.
\<close>

section \<open>Helpers\<close>

text \<open>
  What a command runs in: the shell, the profile as far as it loads, what is on the standard input
  and the draws of the process.
\<close>

record cli =
  ci_shell :: shell
  ci_session :: "app_error + client_session"
  ci_stdin :: bytes
  ci_rq :: request

record crypto_input =
  in_path :: "string option"
  in_text :: "string option"

text \<open>Equality with \<open>Path::new("-")\<close>, which compares components: trailing slashes and dots do not count.\<close>

definition path_dash :: "string \<Rightarrow> bool" where
  "path_dash p = (case split_on (CHR ''/'') p of
      [] \<Rightarrow> False
    | x # xs \<Rightarrow> x = ''-'' \<and> list_all (\<lambda>y. y = [] \<or> y = ''.'') xs)"

definition read_input :: "cli \<Rightarrow> crypto_input \<Rightarrow> (app_error, bytes) io" where
  "read_input C i = (case in_text i of
      Some t \<Rightarrow> io_return (as_bytes t)
    | None \<Rightarrow>
      (case in_path i of
         Some p \<Rightarrow> if \<not> path_dash p then io_read AppIo p else io_return (ci_stdin C)
       | None \<Rightarrow> io_return (ci_stdin C)))"

definition read_input_text :: "cli \<Rightarrow> crypto_input \<Rightarrow> (app_error, string) io" where
  "read_input_text C i = io_bind (read_input C i) (\<lambda>b. io_lift (and_then (ok_or AppConfig (from_utf8 b)) (\<lambda>s. Inr (trim s))))"

text \<open>The value is what goes to the standard output.\<close>

definition write_output :: "cli \<Rightarrow> string option \<Rightarrow> bytes \<Rightarrow> (app_error, bytes) io" where
  "write_output C out b = (case out of
      Some p \<Rightarrow> if \<not> path_dash p then io_bind (io_do (WriteFile p b (sh_new_mode (ci_shell C)))) (\<lambda>_. io_return []) else io_return b
    | None \<Rightarrow> io_return b)"

definition one_source :: "(string \<times> bool) list \<Rightarrow> bool \<Rightarrow> app_error + string option" where
  "one_source sources required = (case map fst (filter snd sources) of
      [] \<Rightarrow> if required then Inl AppConfig else Inr None
    | [one] \<Rightarrow> Inr (Some one)
    | _ \<Rightarrow> Inl AppConfig)"

definition crypto_secret :: "cli \<Rightarrow> bool \<Rightarrow> app_error + string" where
  "crypto_secret C confirm =
     (let sh = ci_shell C
      in case nonempty (sh_env sh ''BLACKBOOK_CRYPTO_PASSPHRASE'') of
           Some p \<Rightarrow> Inr p
         | None \<Rightarrow>
           (case nonempty (sh_env sh ''BLACKBOOK_EXTERNAL_PASSPHRASE'') of
              Some p \<Rightarrow> Inr p
            | None \<Rightarrow>
                if prompts_suppressed sh then Inl AppConfig
                else
                  (case sh_typed sh 0 of
                     None \<Rightarrow> Inl AppConfig
                   | Some p1 \<Rightarrow>
                       if p1 = [] then Inl AppConfig
                       else if \<not> confirm then Inr p1
                       else
                         (case sh_typed sh 1 of
                            None \<Rightarrow> Inl AppConfig
                          | Some p2 \<Rightarrow> if p1 \<noteq> p2 then Inl AppConfig else Inr p1))))"

definition profile_cmk :: "ext \<Rightarrow> cli \<Rightarrow> app_error + bytes" where
  "profile_cmk E C = and_then (ci_session C) (\<lambda>s. ok_or AppConfig (cmk_bytes E s))"

definition load_key_file :: "ext \<Rightarrow> ops_ext \<Rightarrow> string \<Rightarrow> key_type option \<Rightarrow> (app_error, local_key) io" where
  "load_key_file E K path hint = io_bind (io_read AppConfig path) (\<lambda>b. io_lift (map_err AppConfig (parse_local_key E K b hint)))"

definition public_key_arg :: "ext \<Rightarrow> ops_ext \<Rightarrow> string \<Rightarrow> (app_error, bytes) io" where
  "public_key_arg E K arg = io_bind (io_exists arg) (\<lambda>there.
     io_bind (if there then io_bind (io_read AppIo arg) (\<lambda>b. io_lift (ok_or AppIo (from_utf8 b))) else io_return arg) (\<lambda>t.
       io_lift (map_err AppConfig (parse_public_key E K t))))"

definition aad_json :: "ext \<Rightarrow> bytes \<Rightarrow> string option" where
  "aad_json E aad = (if aad = [] then None else Some (b64_encode E aad))"

text \<open>\<open>str::parse::<i64>\<close> and \<open>i64::checked_mul\<close>.\<close>

definition parse_i64 :: "string \<Rightarrow> int option" where
  "parse_i64 s =
     (let (neg, d) = (case s of
            c # r \<Rightarrow> if c = CHR ''-'' then (True, r) else if c = CHR ''+'' then (False, r) else (False, s)
          | [] \<Rightarrow> (False, []));
          v = (if neg then - int (digits_val d) else int (digits_val d))
      in if d \<noteq> [] \<and> list_all is_digit d \<and> - (2 ^ 63) \<le> v \<and> v < 2 ^ 63 then Some v else None)"

definition checked_mul :: "int \<Rightarrow> int \<Rightarrow> int option" where
  "checked_mul a b = (if - (2 ^ 63) \<le> a * b \<and> a * b < 2 ^ 63 then Some (a * b) else None)"

definition duration_unit :: "char \<Rightarrow> int option" where
  "duration_unit c =
     (if c = CHR ''s'' then Some 1 else if c = CHR ''m'' then Some 60 else if c = CHR ''h'' then Some 3600
      else if c = CHR ''d'' then Some 86400 else if c = CHR ''w'' then Some 604800 else None)"

definition parse_duration :: "string \<Rightarrow> app_error + int" where
  "parse_duration text_s =
     (let s = trim text_s
      in if s = [] then Inl AppConfig
         else
           and_then (case duration_unit (last s) of
               Some m \<Rightarrow> Inr (butlast s, m)
             | None \<Rightarrow> if is_digit (last s) then Inr (s, 1) else Inl AppConfig) (\<lambda>(num, mult).
             ok_or AppConfig (case parse_i64 num of None \<Rightarrow> None | Some n \<Rightarrow> checked_mul n mult)))"

fun add_claims :: "ops_ext \<Rightarrow> string list \<Rightarrow> claims \<Rightarrow> app_error + claims" where
  "add_claims K [] c = Inr c"
| "add_claims K (p # ps) c = (case split_once (CHR ''='') p of
      None \<Rightarrow> Inl AppConfig
    | Some (k, v) \<Rightarrow> add_claims K ps (AList.update k (case json_parse K (as_bytes v) of Some j \<Rightarrow> j | None \<Rightarrow> JString v) c))"

definition build_claims :: "ops_ext \<Rightarrow> string option \<Rightarrow> string list \<Rightarrow> app_error + claims" where
  "build_claims K claims_json pairs =
     and_then (case claims_json of
        None \<Rightarrow> Inr []
      | Some j \<Rightarrow> (case json_parse K (as_bytes j) of Some (JObject m) \<Rightarrow> Inr m | _ \<Rightarrow> Inl AppConfig)) (add_claims K pairs)"

section \<open>Operations on managed keys\<close>

text \<open>The operations of \<open>key_op\<close> with the fields of their requests.\<close>

datatype key_call =
    CallDatakey
  | CallEncrypt string "string option"
  | CallDecrypt string "string option"
  | CallSign string
  | CallHmac string "string option"
  | CallVerify string string "string option"
  | CallToken issue_token_request
  | CallTokenVerify string "string option"

text \<open>The server draws from \<open>rq\<close>.\<close>

definition key_op ::
    "ext \<Rightarrow> ops_ext \<Rightarrow> app \<Rightarrow> request \<Rightarrow> connection \<Rightarrow> string \<Rightarrow> key_call \<Rightarrow> 'a keys_state_scheme
      \<Rightarrow> (app_error + key_reply) \<times> 'a keys_state_scheme" where
  "key_op E K app rq cn name call st =
     (let q = domain_param cn; code = cn_mfa cn; c = cn_client cn
      in case (case call of
             CallDatakey \<Rightarrow> key_datakey E app rq name q code c st
           | CallEncrypt p aad \<Rightarrow> key_encrypt E app rq name p aad q code c st
           | CallDecrypt ct aad \<Rightarrow> key_decrypt E app rq name ct aad q code c st
           | CallSign i \<Rightarrow> key_sign E app rq name i q code c st
           | CallHmac i alg \<Rightarrow> key_hmac E K app rq name i alg q code c st
           | CallVerify i sig alg \<Rightarrow> key_verify E K app rq name i sig alg q code c st
           | CallToken req \<Rightarrow> issue_token E K app rq name req q code c st
           | CallTokenVerify t aud \<Rightarrow> verify_token E K app rq name t aud q code c st) of
           (resp, st) \<Rightarrow> (api_value resp, st))"

definition managed_op ::
    "ext \<Rightarrow> ops_ext \<Rightarrow> app \<Rightarrow> request \<Rightarrow> connection \<Rightarrow> cli \<Rightarrow> string \<Rightarrow> key_call \<Rightarrow> 'a keys_state_scheme
      \<Rightarrow> (app_error + key_reply) \<times> 'a keys_state_scheme" where
  "managed_op E K app rq cn C name call st = (case ci_session C of Inl e \<Rightarrow> (Inl e, st) | Inr s \<Rightarrow> key_op E K app rq cn name call st)"

text \<open>\<open>b64_field\<close> of a reply; the constructor stands for the object that has the field.\<close>

definition reply_bytes :: "ext \<Rightarrow> string \<Rightarrow> app_error + bytes" where
  "reply_bytes E s = ok_or AppClient (b64_decode E s)"

section \<open>Encryption and decryption\<close>

record encrypt_args =
  ea_input :: crypto_input
  ea_key :: "string option"
  ea_cmk :: bool
  ea_key_file :: "string option"
  ea_passphrase :: bool
  ea_aad :: "string option"
  ea_out :: "string option"

definition opt_string :: "string option \<Rightarrow> string" where
  "opt_string s = (case s of None \<Rightarrow> [] | Some x \<Rightarrow> x)"

definition encrypt_source :: "encrypt_args \<Rightarrow> app_error + string option" where
  "encrypt_source a = one_source [(''-k/--key'', ea_key a \<noteq> None), (''--cmk'', ea_cmk a),
     (''--key-file'', ea_key_file a \<noteq> None), (''-p/--passphrase'', ea_passphrase a)] True"

text \<open>The envelope that does not need the server.\<close>

definition local_envelope ::
    "ext \<Rightarrow> ops_ext \<Rightarrow> cli \<Rightarrow> encrypt_args \<Rightarrow> string option \<Rightarrow> bytes \<Rightarrow> bytes \<Rightarrow> (app_error, string) io" where
  "local_envelope E K C a src data aad =
     (if src = Some ''--cmk''
      then io_lift (and_then (profile_cmk E C) (\<lambda>k. map_err AppCrypto (cmk_seal E K (rand (ci_rq C) 1 12) data k aad)))
      else if src = Some ''--key-file''
      then
        io_bind (load_key_file E K (opt_string (ea_key_file a)) (Some Aes256Gcm)) (\<lambda>k.
          if lk_type k \<noteq> Aes256Gcm then io_fail AppConfig
          else io_lift (map_err AppCrypto (rawkey_seal E (rand (ci_rq C) 1 12) data (lk_secret k) aad)))
      else
        io_lift (and_then (crypto_secret C True) (\<lambda>p.
          map_err AppCrypto (passphrase_seal E K (rand (ci_rq C) 0 16) (rand (ci_rq C) 1 12) data p aad))))"

definition managed_envelope ::
    "ext \<Rightarrow> ops_ext \<Rightarrow> app \<Rightarrow> request \<Rightarrow> connection \<Rightarrow> cli \<Rightarrow> string \<Rightarrow> bytes \<Rightarrow> bytes \<Rightarrow> 'a keys_state_scheme
      \<Rightarrow> (app_error + string) \<times> 'a keys_state_scheme" where
  "managed_envelope E K app rq cn C name data aad st = (case managed_op E K app rq cn C name CallDatakey st of
      (Inl e, st) \<Rightarrow> (Inl e, st)
    | (Inr r, st) \<Rightarrow>
        ((case r of
            DataKey plaintext ciphertext v \<Rightarrow>
              and_then (reply_bytes E plaintext) (\<lambda>dek.
                map_err AppCrypto (datakey_seal E (rand (ci_rq C) 1 12) data dek ciphertext aad))
          | _ \<Rightarrow> Inl AppClient), st))"

text \<open>The standard output, the operations on the disk \<open>d\<close> and the state of the server.\<close>

definition cmd_encrypt ::
    "ext \<Rightarrow> ops_ext \<Rightarrow> app \<Rightarrow> request \<Rightarrow> connection \<Rightarrow> cli \<Rightarrow> encrypt_args \<Rightarrow> disk \<Rightarrow> 'a keys_state_scheme
      \<Rightarrow> ((app_error + bytes) \<times> fs_op list) \<times> 'a keys_state_scheme" where
  "cmd_encrypt E K app rq cn C a d st = (case and_then (encrypt_source a) (\<lambda>src.
        and_then (fst (read_input C (ea_input a) d)) (\<lambda>data. Inr (src, data))) of
      Inl e \<Rightarrow> ((Inl e, []), st)
    | Inr (src, data) \<Rightarrow>
      (let aad = as_bytes (opt_string (ea_aad a))
       in case (if src = Some ''-k/--key'' then managed_envelope E K app rq cn C (opt_string (ea_key a)) data aad st
                else (fst (local_envelope E K C a src data aad d), st)) of
            (Inl e, st) \<Rightarrow> ((Inl e, []), st)
          | (Inr envelope, st) \<Rightarrow> (write_output C (ea_out a) (as_bytes (envelope @ [CHR 0x0A])) d, st)))"

record decrypt_args =
  da_input :: crypto_input
  da_key :: "string option"
  da_key_file :: "string option"
  da_aad :: "string option"
  da_out :: "string option"

definition managed_plaintext ::
    "ext \<Rightarrow> ops_ext \<Rightarrow> app \<Rightarrow> request \<Rightarrow> connection \<Rightarrow> cli \<Rightarrow> string option \<Rightarrow> string \<Rightarrow> string option \<Rightarrow> 'a keys_state_scheme
      \<Rightarrow> (app_error + bytes) \<times> 'a keys_state_scheme" where
  "managed_plaintext E K app rq cn C key ciphertext aad st = (case ci_session C of
      Inl e \<Rightarrow> (Inl e, st)
    | Inr s \<Rightarrow>
      (case key of
         None \<Rightarrow> (Inl AppConfig, st)
       | Some name \<Rightarrow>
         (case key_op E K app rq cn name (CallDecrypt ciphertext aad) st of
            (Inl e, st) \<Rightarrow> (Inl e, st)
          | (Inr r, st) \<Rightarrow> ((case r of Plaintext p v \<Rightarrow> reply_bytes E p | _ \<Rightarrow> Inl AppClient), st))))"

definition decrypt_text ::
    "ext \<Rightarrow> ops_ext \<Rightarrow> app \<Rightarrow> request \<Rightarrow> connection \<Rightarrow> cli \<Rightarrow> decrypt_args \<Rightarrow> string \<Rightarrow> disk \<Rightarrow> 'a keys_state_scheme
      \<Rightarrow> (app_error + bytes) \<times> 'a keys_state_scheme" where
  "decrypt_text E K app rq cn C a t d st =
     (let aad = as_bytes (opt_string (da_aad a))
      in case detect t of
           Some ManagedKind \<Rightarrow> managed_plaintext E K app rq cn C (da_key a) t (aad_json E aad) st
         | Some DataKeyKind \<Rightarrow>
           (case datakey_parse E t of
              Inl e \<Rightarrow> (Inl AppCrypto, st)
            | Inr (w, sealed) \<Rightarrow>
              (case managed_plaintext E K app rq cn C (da_key a) w None st of
                 (r, st) \<Rightarrow> (and_then r (\<lambda>dek. map_err AppCrypto (datakey_open E sealed dek aad)), st)))
         | Some PassphraseKind \<Rightarrow> (and_then (crypto_secret C False) (\<lambda>p. map_err AppCrypto (passphrase_open E K t p aad)), st)
         | Some CmkKind \<Rightarrow> (and_then (profile_cmk E C) (\<lambda>k. map_err AppCrypto (cmk_open E K t k aad)), st)
         | Some RawKeyKind \<Rightarrow>
             (and_then (ok_or AppConfig (da_key_file a)) (\<lambda>path.
              and_then (fst (load_key_file E K path (Some Aes256Gcm) d)) (\<lambda>k. map_err AppCrypto (rawkey_open E t (lk_secret k) aad))), st)
         | None \<Rightarrow> (Inl AppConfig, st))"

definition cmd_decrypt ::
    "ext \<Rightarrow> ops_ext \<Rightarrow> app \<Rightarrow> request \<Rightarrow> connection \<Rightarrow> cli \<Rightarrow> decrypt_args \<Rightarrow> disk \<Rightarrow> 'a keys_state_scheme
      \<Rightarrow> ((app_error + bytes) \<times> fs_op list) \<times> 'a keys_state_scheme" where
  "cmd_decrypt E K app rq cn C a d st = (case fst (read_input_text C (da_input a) d) of
      Inl e \<Rightarrow> ((Inl e, []), st)
    | Inr t \<Rightarrow>
      (case decrypt_text E K app rq cn C a t d st of
         (Inl e, st) \<Rightarrow> ((Inl e, []), st)
       | (Inr plaintext, st) \<Rightarrow> (write_output C (da_out a) plaintext d, st)))"


section \<open>Signatures and hashes\<close>

definition print_line :: "string \<Rightarrow> bytes" where
  "print_line s = as_bytes (s @ [CHR 0x0A])"

record sign_args =
  sa_input :: crypto_input
  sa_key :: "string option"
  sa_key_file :: "string option"

definition cmd_sign ::
    "ext \<Rightarrow> ops_ext \<Rightarrow> app \<Rightarrow> request \<Rightarrow> connection \<Rightarrow> cli \<Rightarrow> sign_args \<Rightarrow> disk \<Rightarrow> 'a keys_state_scheme
      \<Rightarrow> (app_error + bytes) \<times> 'a keys_state_scheme" where
  "cmd_sign E K app rq cn C a d st = (case and_then (one_source [(''-k/--key'', sa_key a \<noteq> None), (''--key-file'', sa_key_file a \<noteq> None)] True)
        (\<lambda>src. and_then (fst (read_input C (sa_input a) d)) (\<lambda>data. Inr (src, data))) of
      Inl e \<Rightarrow> (Inl e, st)
    | Inr (src, data) \<Rightarrow>
        if src = Some ''-k/--key''
        then
          (case managed_op E K app rq cn C (opt_string (sa_key a)) (CallSign (b64_encode E data)) st of
             (r, st) \<Rightarrow> (and_then r (\<lambda>r. case r of Signed sig v pk \<Rightarrow> Inr (print_line sig) | _ \<Rightarrow> Inl AppClient), st))
        else
          (and_then (fst (load_key_file E K (opt_string (sa_key_file a)) (Some Ed25519) d)) (\<lambda>k.
             if lk_type k \<noteq> Ed25519 then Inl AppConfig
             else and_then (map_err AppCrypto (ed25519_sign E (lk_secret k) data)) (\<lambda>sig. Inr (print_line (b64_encode E sig)))), st))"

text \<open>\<open>finish_check\<close>: what is found valid ends with status 0, anything else with status 1.\<close>

datatype check = Valid | Invalid

definition finish_check :: "bool \<Rightarrow> app_error + check" where
  "finish_check ok = Inr (if ok then Valid else Invalid)"

record verify_args =
  va_input :: crypto_input
  va_signature :: string
  va_key :: "string option"
  va_key_file :: "string option"
  va_public :: "string option"
  va_algorithm :: string

text \<open>The check of a signature without the server.\<close>

definition verify_locally ::
    "ext \<Rightarrow> ops_ext \<Rightarrow> verify_args \<Rightarrow> string option \<Rightarrow> hash_alg \<Rightarrow> bytes \<Rightarrow> disk \<Rightarrow> app_error + bool" where
  "verify_locally E K a src alg data d =
     (if src = Some ''--public-key''
      then
        and_then (fst (public_key_arg E K (opt_string (va_public a)) d)) (\<lambda>pk.
        and_then (map_err AppConfig (parse_tag E K (va_signature a))) (\<lambda>tag. Inr (ed25519_verify E K pk data tag)))
      else
        and_then (fst (load_key_file E K (opt_string (va_key_file a)) (Some Hmac) d)) (\<lambda>k.
        and_then (map_err AppConfig (parse_tag E K (va_signature a))) (\<lambda>tag.
          if lk_type k = Ed25519
          then and_then (map_err AppCrypto (ed25519_public E (lk_secret k))) (\<lambda>pk. Inr (ed25519_verify E K pk data tag))
          else Inr (hmac_verify K alg (lk_secret k) data tag))))"

definition cmd_verify ::
    "ext \<Rightarrow> ops_ext \<Rightarrow> app \<Rightarrow> request \<Rightarrow> connection \<Rightarrow> cli \<Rightarrow> verify_args \<Rightarrow> disk \<Rightarrow> 'a keys_state_scheme
      \<Rightarrow> (app_error + check) \<times> 'a keys_state_scheme" where
  "cmd_verify E K app rq cn C a d st = (case and_then (one_source [(''-k/--key'', va_key a \<noteq> None),
          (''--key-file'', va_key_file a \<noteq> None), (''--public-key'', va_public a \<noteq> None)] True) (\<lambda>src.
        and_then (map_err AppConfig (parse_hash_alg (va_algorithm a))) (\<lambda>alg.
        and_then (fst (read_input C (va_input a) d)) (\<lambda>data. Inr (src, alg, data)))) of
      Inl e \<Rightarrow> (Inl e, st)
    | Inr (src, alg, data) \<Rightarrow>
        if src = Some ''-k/--key''
        then
          (case managed_op E K app rq cn C (opt_string (va_key a))
                  (CallVerify (b64_encode E data) (trim (va_signature a)) (Some (hash_alg_str alg))) st of
             (r, st) \<Rightarrow> (and_then r (\<lambda>r. finish_check (case r of Validity ok v \<Rightarrow> ok | _ \<Rightarrow> False)), st))
        else (and_then (verify_locally E K a src alg data d) finish_check, st))"

record hash_args =
  ha_input :: crypto_input
  ha_algorithm :: string
  ha_key :: "string option"
  ha_cmk :: bool
  ha_key_file :: "string option"
  ha_encoding :: string

definition hash_locally ::
    "ext \<Rightarrow> ops_ext \<Rightarrow> cli \<Rightarrow> hash_args \<Rightarrow> string option \<Rightarrow> hash_alg \<Rightarrow> bytes \<Rightarrow> disk \<Rightarrow> app_error + string" where
  "hash_locally E K C a src alg data d =
     (let encoded = (\<lambda>b. map_err AppConfig (encode_bytes E b (ha_encoding a)))
      in if src = None then encoded (digest K alg data)
         else if src = Some ''--cmk''
         then and_then (profile_cmk E C) (\<lambda>c. encoded (hmac K alg (cmk_subkey K c ''hmac'') data))
         else
           and_then (fst (load_key_file E K (opt_string (ha_key_file a)) (Some Hmac) d)) (\<lambda>k.
             if lk_type k \<noteq> Hmac then Inl AppConfig else encoded (hmac K alg (lk_secret k) data)))"

definition cmd_hash ::
    "ext \<Rightarrow> ops_ext \<Rightarrow> app \<Rightarrow> request \<Rightarrow> connection \<Rightarrow> cli \<Rightarrow> hash_args \<Rightarrow> disk \<Rightarrow> 'a keys_state_scheme
      \<Rightarrow> (app_error + bytes) \<times> 'a keys_state_scheme" where
  "cmd_hash E K app rq cn C a d st = (case and_then (map_err AppConfig (parse_hash_alg (ha_algorithm a))) (\<lambda>alg.
        and_then (one_source [(''-k/--key'', ha_key a \<noteq> None), (''--cmk'', ha_cmk a), (''--key-file'', ha_key_file a \<noteq> None)] False) (\<lambda>src.
        and_then (fst (read_input C (ha_input a) d)) (\<lambda>data. Inr (alg, src, data)))) of
      Inl e \<Rightarrow> (Inl e, st)
    | Inr (alg, src, data) \<Rightarrow>
        if src = Some ''-k/--key''
        then
          (case managed_op E K app rq cn C (opt_string (ha_key a)) (CallHmac (b64_encode E data) (Some (hash_alg_str alg))) st of
             (r, st) \<Rightarrow> (and_then r (\<lambda>r. case r of Mac m alg v \<Rightarrow> Inr (print_line m) | _ \<Rightarrow> Inl AppClient), st))
        else (and_then (hash_locally E K C a src alg data d) (\<lambda>s. Inr (print_line s)), st))"

section \<open>Key files\<close>

definition write_secret_file :: "string \<Rightarrow> bytes \<Rightarrow> bool \<Rightarrow> (app_error, unit) io" where
  "write_secret_file path b force = io_bind (io_exists path) (\<lambda>there.
     if there \<and> \<not> force then io_fail AppConfig else io_do (WriteFile path b 384))"

definition keygen_bytes :: "ext \<Rightarrow> ops_ext \<Rightarrow> string \<Rightarrow> key_type \<Rightarrow> bytes \<Rightarrow> app_error + bytes" where
  "keygen_bytes E K format t secret =
     (if format = ''json'' then Inr (as_bytes (local_key_json E K t secret))
      else if format = ''pem'' then (if t = Ed25519 then Inr (as_bytes (ed25519_private_pem E secret)) else Inl AppConfig)
      else if format = ''raw'' then (if t = Ed25519 then Inl AppConfig else Inr secret)
      else Inl AppConfig)"

definition print_public_key :: "ext \<Rightarrow> bytes \<Rightarrow> bytes" where
  "print_public_key E pk = print_line (''public key:  '' @ b64_encode E pk) @ as_bytes (ed25519_public_pem E pk)"

definition cmd_keygen ::
    "ext \<Rightarrow> ops_ext \<Rightarrow> cli \<Rightarrow> string \<Rightarrow> string \<Rightarrow> string \<Rightarrow> bool \<Rightarrow> (app_error, bytes) io" where
  "cmd_keygen E K C key_type_s out format force =
     io_bind (io_lift (map_err AppConfig (parse_key_type key_type_s))) (\<lambda>t.
       let secret = rand (ci_rq C) 0 KEY_LEN
       in io_bind (io_lift (keygen_bytes E K format t secret)) (\<lambda>b.
            if path_dash out then write_output C None b
            else
              io_bind (write_secret_file out b force) (\<lambda>_.
                io_return (case public_key E t secret of Some pk \<Rightarrow> print_public_key E pk | None \<Rightarrow> []))))"

text \<open>What is printed: lines, or the whole reply as JSON.\<close>

datatype 'r shown = Lines string | Whole 'r

definition cmd_datakey ::
    "ext \<Rightarrow> ops_ext \<Rightarrow> app \<Rightarrow> request \<Rightarrow> connection \<Rightarrow> cli \<Rightarrow> string \<Rightarrow> bool \<Rightarrow> 'a keys_state_scheme
      \<Rightarrow> (app_error + key_reply shown) \<times> 'a keys_state_scheme" where
  "cmd_datakey E K app rq cn C key as_json st = (case managed_op E K app rq cn C key CallDatakey st of
      (r, st) \<Rightarrow>
        (and_then r (\<lambda>r.
           if as_json then Inr (Whole r)
           else (case r of
               DataKey plaintext ciphertext v \<Rightarrow>
                 Inr (Lines (''plaintext:   '' @ plaintext @ [CHR 0x0A] @ ''ciphertext:  '' @ ciphertext @ [CHR 0x0A]))
             | _ \<Rightarrow> Inl AppClient)), st))"

definition cmd_random :: "ext \<Rightarrow> cli \<Rightarrow> nat \<Rightarrow> string \<Rightarrow> app_error + bytes" where
  "cmd_random E C n enc =
     (if n = 0 \<or> n > 65536 then Inl AppConfig
      else and_then (map_err AppConfig (encode_bytes E (rand (ci_rq C) 0 n) enc)) (\<lambda>s. Inr (print_line s)))"

definition cmd_derive_key :: "ext \<Rightarrow> ops_ext \<Rightarrow> cli \<Rightarrow> string \<Rightarrow> string option \<Rightarrow> app_error + bytes" where
  "cmd_derive_key E K C algorithm salt =
     and_then (map_err AppConfig (parse_kdf_alg algorithm)) (\<lambda>alg.
     and_then (case salt of
         Some s \<Rightarrow> ok_or AppConfig (b64_decode E (trim s))
       | None \<Rightarrow> Inr (rand (ci_rq C) 0 16)) (\<lambda>salt.
     and_then (crypto_secret C False) (\<lambda>pass.
     and_then (map_err AppCrypto (derive_key E K alg pass salt)) (\<lambda>key.
       Inr (print_line (''algorithm:  '' @ kdf_alg_str alg) @ print_line (''key_base64: '' @ b64_encode E key)
         @ print_line (''key_hex:    '' @ hex_encode E key) @ print_line (''salt:       '' @ b64_encode E salt))))))"

definition cmd_fingerprint :: "ext \<Rightarrow> ops_ext \<Rightarrow> cli \<Rightarrow> crypto_input \<Rightarrow> (app_error, bytes) io" where
  "cmd_fingerprint E K C i = io_bind (read_input C i) (\<lambda>data.
     let fp = digest K Sha3_256 data
     in io_return (print_line (randomart fp ''bbk'') @ print_line (''braille:  '' @ braille fp)
          @ print_line (''sha3-256: '' @ hex_encode E fp)))"

section \<open>Tokens\<close>

record token_issue_args =
  ti_key :: "string option"
  ti_key_file :: "string option"
  ti_sub :: "string option"
  ti_aud :: "string option"
  ti_iss :: "string option"
  ti_ttl :: string
  ti_nbf :: "string option"
  ti_claims :: "string list"
  ti_claims_json :: "string option"
  ti_json :: bool

record token_reply =
  tp_token :: string
  tp_kid :: "string option"
  tp_expires :: string
  tp_claims :: claims

definition local_signer :: "ext \<Rightarrow> ops_ext \<Rightarrow> local_key \<Rightarrow> app_error + token_signer \<times> string option" where
  "local_signer E K k = (case lk_type k of
      Ed25519 \<Rightarrow> and_then (map_err AppCrypto (ed25519_public E (lk_secret k))) (\<lambda>pk.
        Inr (SignEd25519 (lk_secret k), Some (key_fingerprint E K pk)))
    | Hmac \<Rightarrow> Inr (SignHmac (lk_secret k), None)
    | Aes256Gcm \<Rightarrow> Inl AppConfig)"

definition issue_locally ::
    "ext \<Rightarrow> ops_ext \<Rightarrow> cli \<Rightarrow> token_issue_args \<Rightarrow> claims \<Rightarrow> int \<Rightarrow> int option \<Rightarrow> disk \<Rightarrow> app_error + token_reply" where
  "issue_locally E K C a extra ttl nbf d =
     and_then (fst (load_key_file E K (opt_string (ti_key_file a)) (Some Hmac) d)) (\<lambda>k.
     and_then (local_signer E K k) (\<lambda>(signer, kid).
     and_then (map_err AppConfig (token_claims E (rand (ci_rq C) 0 16)
         \<lparr>tr_claims = extra, tr_subject = ti_sub a, tr_audience = ti_aud a, tr_issuer = ti_iss a, tr_ttl = ttl, tr_not_before = nbf\<rparr>
         (now_unix (ci_rq C)))) (\<lambda>c.
     and_then (map_err AppCrypto (token_issue E K signer kid c)) (\<lambda>token.
       let x = (case Option.bind (map_of c ''exp'') as_i64 of Some n \<Rightarrow> n | None \<Rightarrow> 0)
       in Inr \<lparr>tp_token = token, tp_kid = kid, tp_expires = to_rfc3339 E (x * 10 ^ 6), tp_claims = c\<rparr>))))"

definition show_token :: "bool \<Rightarrow> token_reply \<Rightarrow> token_reply shown" where
  "show_token as_json r = (if as_json then Whole r else Lines (tp_token r @ [CHR 0x0A]))"

definition token_times :: "token_issue_args \<Rightarrow> app_error + int \<times> int option" where
  "token_times a =
     and_then (parse_duration (ti_ttl a)) (\<lambda>ttl.
     and_then (case ti_nbf a of None \<Rightarrow> Inr None | Some s \<Rightarrow> and_then (parse_duration s) (\<lambda>n. Inr (Some n))) (\<lambda>nbf. Inr (ttl, nbf)))"

definition cmd_token_issue ::
    "ext \<Rightarrow> ops_ext \<Rightarrow> app \<Rightarrow> request \<Rightarrow> connection \<Rightarrow> cli \<Rightarrow> token_issue_args \<Rightarrow> disk \<Rightarrow> 'a keys_state_scheme
      \<Rightarrow> (app_error + token_reply shown) \<times> 'a keys_state_scheme" where
  "cmd_token_issue E K app rq cn C a d st = (case and_then (one_source [(''-k/--key'', ti_key a \<noteq> None), (''--key-file'', ti_key_file a \<noteq> None)] True)
        (\<lambda>src. and_then (build_claims K (ti_claims_json a) (ti_claims a)) (\<lambda>extra.
               and_then (token_times a) (\<lambda>(ttl, nbf). Inr (src, extra, ttl, nbf)))) of
      Inl e \<Rightarrow> (Inl e, st)
    | Inr (src, extra, ttl, nbf) \<Rightarrow>
        if src = Some ''-k/--key''
        then
          (case managed_op E K app rq cn C (opt_string (ti_key a)) (CallToken \<lparr>it_claims = Some extra, it_subject = ti_sub a,
                  it_audience = ti_aud a, it_issuer = ti_iss a, it_ttl = Some ttl, it_not_before = nbf\<rparr>) st of
             (r, st) \<Rightarrow>
               (and_then r (\<lambda>r. case r of
                    IssuedToken token kid x c \<Rightarrow>
                      Inr (show_token (ti_json a) \<lparr>tp_token = token, tp_kid = Some kid, tp_expires = x, tp_claims = c\<rparr>)
                  | _ \<Rightarrow> Inl AppClient), st))
        else (and_then (issue_locally E K C a extra ttl nbf d) (\<lambda>r. Inr (show_token (ti_json a) r)), st))"

text \<open>
  \<open>String::from_utf8_lossy\<close>: each longest prefix of a scalar value that is not completed becomes
  U+FFFD. The value is whether a scalar value starts here, and the number of bytes it or the
  incomplete prefix has.
\<close>

definition second_ok :: "u8 \<Rightarrow> u8 \<Rightarrow> bool" where
  "second_ok a b \<longleftrightarrow> cont b \<and> (unat a = 224 \<longrightarrow> 160 \<le> unat b) \<and> (unat a = 237 \<longrightarrow> unat b \<le> 159)
     \<and> (unat a = 240 \<longrightarrow> 144 \<le> unat b) \<and> (unat a = 244 \<longrightarrow> unat b \<le> 143)"

definition utf8_head :: "u8 \<Rightarrow> bytes \<Rightarrow> bool \<times> nat" where
  "utf8_head a r =
     (if unat a < 128 then (True, 1)
      else if unat a < 194 \<or> unat a > 244 then (False, 1)
      else
        let w = (if unat a \<le> 223 then 1 else if unat a \<le> 239 then 2 else 3);
            g = (case take w r of [] \<Rightarrow> 0 | b # bs \<Rightarrow> if second_ok a b then 1 + length (takeWhile cont bs) else 0)
        in (g = w, g + 1))"

function utf8_lossy :: "bytes \<Rightarrow> bytes" where
  "utf8_lossy [] = []"
| "utf8_lossy (a # r) = (case utf8_head a r of (ok, n) \<Rightarrow>
     (if ok then a # take (n - 1) r else [239, 191, 189]) @ utf8_lossy (drop (n - 1) r))"
  by pat_completeness auto
termination
  by (relation "measure length") auto

definition from_utf8_lossy :: "bytes \<Rightarrow> string" where
  "from_utf8_lossy b = str_of (utf8_lossy b)"

record token_verify_args =
  tv_token :: string
  tv_key :: "string option"
  tv_key_file :: "string option"
  tv_public :: "string option"
  tv_aud :: "string option"

definition verify_locally_token ::
    "ext \<Rightarrow> ops_ext \<Rightarrow> cli \<Rightarrow> token_verify_args \<Rightarrow> string option \<Rightarrow> string \<Rightarrow> disk \<Rightarrow> app_error + claims option" where
  "verify_locally_token E K C a src token d =
     (let checked = (\<lambda>v. case token_verify E K token v (now_unix (ci_rq C)) (tv_aud a) of Inr c \<Rightarrow> Inr (Some c) | Inl e \<Rightarrow> Inr None)
      in if src = Some ''--public-key''
         then and_then (fst (public_key_arg E K (opt_string (tv_public a)) d)) (\<lambda>pk. checked (VerifyEd25519 pk))
         else
           and_then (fst (load_key_file E K (opt_string (tv_key_file a)) (Some Hmac) d)) (\<lambda>k.
             if lk_type k = Ed25519
             then and_then (map_err AppCrypto (ed25519_public E (lk_secret k))) (\<lambda>pk. checked (VerifyEd25519 pk))
             else checked (VerifyHmac (lk_secret k))))"

text \<open>The claims of a valid token; \<open>None\<close> is the message with status 1.\<close>

definition cmd_token_verify ::
    "ext \<Rightarrow> ops_ext \<Rightarrow> app \<Rightarrow> request \<Rightarrow> connection \<Rightarrow> cli \<Rightarrow> token_verify_args \<Rightarrow> disk \<Rightarrow> 'a keys_state_scheme
      \<Rightarrow> (app_error + claims option) \<times> 'a keys_state_scheme" where
  "cmd_token_verify E K app rq cn C a d st =
     (let token = (if tv_token a = ''-'' then trim (from_utf8_lossy (ci_stdin C)) else tv_token a)
      in case one_source [(''-k/--key'', tv_key a \<noteq> None), (''--key-file'', tv_key_file a \<noteq> None),
                (''--public-key'', tv_public a \<noteq> None)] True of
           Inl e \<Rightarrow> (Inl e, st)
         | Inr src \<Rightarrow>
             if src = Some ''-k/--key''
             then
               (case managed_op E K app rq cn C (opt_string (tv_key a)) (CallTokenVerify token (tv_aud a)) st of
                  (r, st) \<Rightarrow> (and_then r (\<lambda>r. Inr (case r of TokenValid kid c \<Rightarrow> Some c | _ \<Rightarrow> None)), st))
             else (verify_locally_token E K C a src token d, st))"

section \<open>Lifecycle of managed keys\<close>

record key_create_args =
  kc_name :: string
  kc_type :: "string option"
  kc_mfa :: bool
  kc_import :: "string option"

text \<open>The type and the material that \<open>key create\<close> asks for.\<close>

definition create_material :: "ext \<Rightarrow> ops_ext \<Rightarrow> key_create_args \<Rightarrow> disk \<Rightarrow> app_error + key_type \<times> string option" where
  "create_material E K a d =
     and_then (case kc_type a of None \<Rightarrow> Inr None | Some s \<Rightarrow> and_then (map_err AppConfig (parse_key_type s)) (\<lambda>t. Inr (Some t))) (\<lambda>requested.
       case kc_import a of
         Some path \<Rightarrow>
           and_then (fst (load_key_file E K path requested d)) (\<lambda>k.
             if requested \<noteq> None \<and> requested \<noteq> Some (lk_type k) then Inl AppConfig
             else Inr (lk_type k, Some (b64_encode E (lk_secret k))))
       | None \<Rightarrow> Inr (case requested of Some t \<Rightarrow> t | None \<Rightarrow> Aes256Gcm, None))"

definition cmd_key_create ::
    "ext \<Rightarrow> ops_ext \<Rightarrow> app \<Rightarrow> request \<Rightarrow> connection \<Rightarrow> cli \<Rightarrow> key_create_args \<Rightarrow> disk \<Rightarrow> 'a keys_state_scheme
      \<Rightarrow> (app_error + key_summary) \<times> 'a keys_state_scheme" where
  "cmd_key_create E K app rq cn C a d st = (case and_then (ci_session C) (\<lambda>_. create_material E K a d) of
      Inl e \<Rightarrow> (Inl e, st)
    | Inr (t, material) \<Rightarrow>
      (case create_key E app rq \<lparr>ck_name = kc_name a, ck_type = Some (key_type_str t), ck_mfa = kc_mfa a, ck_import = material\<rparr>
              (domain_param cn) (cn_client cn) st of
         (resp, st) \<Rightarrow> (and_then (api_value resp) (\<lambda>r. case r of Summary s \<Rightarrow> Inr s | _ \<Rightarrow> Inl AppJson), st)))"

text \<open>\<open>None\<close> is the command that is aborted; \<open>line\<close> is what \<open>read_stdin_line\<close> reads.\<close>

definition cmd_key_rm ::
    "ext \<Rightarrow> app \<Rightarrow> request \<Rightarrow> connection \<Rightarrow> cli \<Rightarrow> string \<Rightarrow> bool \<Rightarrow> string \<Rightarrow> 'a keys_state_scheme
      \<Rightarrow> (app_error + key_reply option) \<times> 'a keys_state_scheme" where
  "cmd_key_rm E app rq cn C name yes line st = (case ci_session C of
      Inl e \<Rightarrow> (Inl e, st)
    | Inr _ \<Rightarrow>
        if \<not> yes \<and> line \<noteq> name then (Inr None, st)
        else
          (case delete_key E app rq name (domain_param cn) (cn_client cn) st of
             (resp, st) \<Rightarrow> (and_then (api_value resp) (\<lambda>r. Inr (Some r)), st)))"

definition cmd_key_rotate ::
    "ext \<Rightarrow> app \<Rightarrow> request \<Rightarrow> connection \<Rightarrow> cli \<Rightarrow> string \<Rightarrow> 'a keys_state_scheme
      \<Rightarrow> (app_error + key_summary) \<times> 'a keys_state_scheme" where
  "cmd_key_rotate E app rq cn C name st = (case ci_session C of
      Inl e \<Rightarrow> (Inl e, st)
    | Inr _ \<Rightarrow>
      (case rotate_key E app rq name (domain_param cn) (cn_client cn) st of
         (resp, st) \<Rightarrow> (and_then (api_value resp) (\<lambda>r. case r of Summary s \<Rightarrow> Inr s | _ \<Rightarrow> Inl AppJson), st)))"

text \<open>The commands that only read; the value is the reply that is printed.\<close>

definition cmd_key_ls ::
    "ext \<Rightarrow> app \<Rightarrow> request \<Rightarrow> connection \<Rightarrow> cli \<Rightarrow> 'a keys_state_scheme \<Rightarrow> (app_error + key_reply) \<times> 'a keys_state_scheme" where
  "cmd_key_ls E app rq cn C st = (case ci_session C of
      Inl e \<Rightarrow> (Inl e, st)
    | Inr _ \<Rightarrow> apfst api_value (list_keys E app rq (domain_param cn) (cn_client cn) st))"

definition cmd_key_show ::
    "ext \<Rightarrow> app \<Rightarrow> request \<Rightarrow> connection \<Rightarrow> cli \<Rightarrow> string \<Rightarrow> 'a keys_state_scheme \<Rightarrow> (app_error + key_reply) \<times> 'a keys_state_scheme" where
  "cmd_key_show E app rq cn C name st = (case ci_session C of
      Inl e \<Rightarrow> (Inl e, st)
    | Inr _ \<Rightarrow> apfst api_value (show_key E app rq name (domain_param cn) (cn_client cn) st))"

definition cmd_key_jwks ::
    "ext \<Rightarrow> app \<Rightarrow> request \<Rightarrow> connection \<Rightarrow> cli \<Rightarrow> string \<Rightarrow> 'a keys_state_scheme \<Rightarrow> (app_error + key_reply) \<times> 'a keys_state_scheme" where
  "cmd_key_jwks E app rq cn C name st = (case ci_session C of
      Inl e \<Rightarrow> (Inl e, st)
    | Inr _ \<Rightarrow> apfst api_value (key_jwks E app rq name (domain_param cn) (cn_client cn) st))"

section \<open>Text\<close>

text \<open>Well-formed text is not changed by \<open>from_utf8_lossy\<close>.\<close>

lemma utf8_lossy_ok:
  "utf8_ok bs \<Longrightarrow> utf8_lossy bs = bs"
proof (induction bs rule: utf8_lossy.induct)
  case (2 a r)
  have "\<exists>n. utf8_head a r = (True, Suc n) \<and> utf8_ok (drop n r)"
    using 2(2)
    by (subst (asm) utf8_ok.simps) (auto simp: utf8_head_def second_ok_def Let_def split: if_splits list.splits)
  then obtain n where "utf8_head a r = (True, Suc n)" "utf8_ok (drop n r)" by blast
  with 2(1) [of True "Suc n"] show ?case by simp
qed simp

text \<open>A duration with a unit is read exactly, and refused where it does not fit.\<close>

lemma parse_i64_show: "parse_i64 (show_nat n) = (if int n < 2 ^ 63 then Some (int n) else None)"
proof -
  obtain c r where s: "show_nat n = c # r" using show_nat_not_Nil by (cases "show_nat n") auto
  have "is_digit c" using show_nat_digits [of c n] s by simp
  then have "c \<noteq> CHR ''-''" "c \<noteq> CHR ''+''" by (auto simp: is_digit_def)
  moreover have "list_all is_digit (c # r)" using show_nat_digits [of _ n] s by (auto simp: list_all_iff)
  moreover have "digits_val (c # r) = n" using digits_val_show s by metis
  ultimately show ?thesis by (simp add: s parse_i64_def Let_def)
qed

lemma duration_exact:
  assumes "duration_unit c = Some m"
  shows "parse_duration (show_nat n @ [c]) = (if int n * m < 2 ^ 63 then Inr (int n * m) else Inl AppConfig)"
proof -
  have m: "1 \<le> m" and c: "visible c" using assms by (auto simp: duration_unit_def visible_def split: if_splits)
  have "list_all visible (show_nat n @ [c])" using c show_nat_digits visible_digit by (auto simp: list_all_iff)
  moreover have "int n \<le> int n * m" using m by (simp add: mult_le_cancel_left1)
  ultimately show ?thesis
    using assms m by (auto simp: parse_duration_def trim_visible Let_def parse_i64_show checked_mul_def)
qed

section \<open>Encryption and decryption\<close>

text \<open>Where the output of a command is: on the standard output or in the file it names.\<close>

definition delivered :: "string option \<Rightarrow> bytes \<Rightarrow> disk \<Rightarrow> bytes" where
  "delivered out b d = (case out of
      Some p \<Rightarrow> if path_dash p then b else (case d p of Some f \<Rightarrow> contents_of f | None \<Rightarrow> [])
    | None \<Rightarrow> b)"

lemma write_output_delivers:
  assumes "write_output C out b d = (r, ops)"
  shows "\<exists>x. r = Inr x \<and> delivered out x (fs_run ops d) = b"
proof (cases out)
  case None
  then show ?thesis using assms by (simp add: write_output_def delivered_def io_simps)
next
  case (Some p)
  then show ?thesis using assms by (cases "path_dash p") (auto simp: write_output_def delivered_def io_bind_def io_basic)
qed

lemma read_line:
  assumes "list_all visible e" and "fst (read_input C i d) = Inr (as_bytes (e @ [CHR 0x0A]))"
  shows "fst (read_input_text C i d) = Inr e"
proof -
  have "\<exists>ops. read_input C i d = (Inr (as_bytes (e @ [CHR 0x0A])), ops)" using assms(2) by (cases "read_input C i d") simp
  then show ?thesis using visible_utf8(2) [OF assms(1)] trim_line [OF assms(1)]
    by (auto simp: read_input_text_def io_simps)
qed

lemma cmd_decrypt_line:
  assumes "list_all visible e" and "fst (read_input C (da_input a) d) = Inr (as_bytes (e @ [CHR 0x0A]))" and "da_out a = None"
  shows "decrypt_text E K app rq cn C a e d st = (Inr p, st') \<Longrightarrow> cmd_decrypt E K app rq cn C a d st = ((Inr p, []), st')"
  using assms(3) unfolding cmd_decrypt_def read_line [OF assms(1,2)] by (simp add: write_output_def io_simps)

lemma cmd_encrypt_InrE:
  assumes "cmd_encrypt E K app rq cn C a d st = ((Inr out, ops), st1)"
  obtains src data e where "encrypt_source a = Inr src" "fst (read_input C (ea_input a) d) = Inr data"
    "(if src = Some ''-k/--key'' then managed_envelope E K app rq cn C (opt_string (ea_key a)) data (as_bytes (opt_string (ea_aad a))) st
      else (fst (local_envelope E K C a src data (as_bytes (opt_string (ea_aad a))) d), st)) = (Inr e, st1)"
    "delivered (ea_out a) out (fs_run ops d) = as_bytes (e @ [CHR 0x0A])"
proof -
  obtain src data where s: "encrypt_source a = Inr src" "fst (read_input C (ea_input a) d) = Inr data"
    using assms by (auto simp: cmd_encrypt_def and_then_def split: sum.splits)
  let ?e = "(if src = Some ''-k/--key'' then managed_envelope E K app rq cn C (opt_string (ea_key a)) data (as_bytes (opt_string (ea_aad a))) st
      else (fst (local_envelope E K C a src data (as_bytes (opt_string (ea_aad a))) d), st))"
  obtain e st' where e: "?e = (Inr e, st')" "write_output C (ea_out a) (as_bytes (e @ [CHR 0x0A])) d = (Inr out, ops)" "st' = st1"
    using assms s by (auto simp: cmd_encrypt_def Let_def split: sum.splits prod.splits)
  show thesis using that [OF s] e write_output_delivers [OF e(2)] by simp
qed

lemma api_value_200 [simp]: "api_value (Reply 200 v) = Inr v"
  by (simp add: api_value_def)

lemma datakey_reply:
  assumes "key_datakey E app rq name q code c st = (resp, st1)" and "api_value resp = Inr (DataKey p ct v)"
  obtains key dec st0 m x where
    "begin_op E app rq c code q name ''datakey'' [Aes256Gcm] (\<lambda>_. True) st = (Inr (key, dec) :: key_reply response + _, st0)"
    "load_material E app key (ky_latest key) st0 = (Inr m :: key_reply response + bytes)"
    "aead_seal_aad E (rand rq 1 12) (rand rq 0 32) m [] = Inr x" "ct = versioned E (ky_latest key) x" "p = b64_encode E (rand rq 0 32)"
    "key_tables st1 = key_tables st0"
  using assms
  by (auto simp: key_datakey_def finish_op_def Let_def api_value_def split: sum.splits prod.splits response.splits if_splits)

lemma managed_opened:
  assumes "gcm_law E" and "b64_law E" and "b64_text_law E" and "keys_inv E app st"
    and "managed_envelope E K app rq cn C name data aad st = (Inr e, st1)"
    and "resolve_and_gate_domain E app (cn_client cn) (domain_param cn) st = (Inr (dom_id, n) :: key_reply response + string \<times> string)"
    and "find_key_row E app dom_id name st = Some r"
    and "rtranclp (\<lambda>a b. key_step E app a b \<and> has_key (kr_id r) b) st1 st2"
    and "begin_op E app rq' (cn_client cn') (cn_mfa cn') (domain_param cn') name' ''decrypt'' [Aes256Gcm] (\<lambda>_. True) st2
      = (Inr (key, dec) :: key_reply response + _, st3)"
    and "ky_id key = kr_id r" and "ci_session C' = Inr s" and "da_key a = Some name'" and "as_bytes (opt_string (da_aad a)) = aad"
  shows "list_all visible e \<and> (\<exists>st4. decrypt_text E K app rq' cn' C' a e d st2 = (Inr data, st4))"
proof -
  obtain resp p ct v dek where k: "key_datakey E app rq name (domain_param cn) (cn_mfa cn) (cn_client cn) st = (resp, st1)"
    "api_value resp = Inr (DataKey p ct v)" "b64_decode E p = Some dek" "datakey_seal E (rand (ci_rq C) 1 12) data dek ct aad = Inr e"
    using assms(5)
    by (auto simp: managed_envelope_def managed_op_def key_op_def Let_def reply_bytes_def elim!: and_then_InrE
        split: sum.splits prod.splits key_reply.splits)
  obtain key0 dec0 st0 m x where b:
    "begin_op E app rq (cn_client cn) (cn_mfa cn) (domain_param cn) name ''datakey'' [Aes256Gcm] (\<lambda>_. True) st
      = (Inr (key0, dec0) :: key_reply response + _, st0)"
    "load_material E app key0 (ky_latest key0) st0 = (Inr m :: key_reply response + bytes)"
    "aead_seal_aad E (rand rq 1 12) (rand rq 0 32) m [] = Inr x" "ct = versioned E (ky_latest key0) x"
    "p = b64_encode E (rand rq 0 32)" "key_tables st1 = key_tables st0"
    using datakey_reply [OF k(1,2)] by metis
  have dek: "dek = rand rq 0 32" using k(3) b(5) assms(2) by (simp add: b64_lawD)
  have "aad_field E None = (Inr [] :: key_reply response + bytes)" by (simp add: aad_field_def)
  note o = sealed_version_opens [OF assms(1-4) b(1-3) length_rand b(6) assms(6-10) this]
  obtain sealed where s: "datakey_parse E e = Inr (ct, sealed)" "datakey_open E sealed dek aad = Inr data" "detect e = Some DataKeyKind"
    using datakey_round_trip [OF assms(1-3) length_rand visible_utf8(1) k(4)] visible_versioned [OF assms(3)] b(4) by auto
  have "managed_plaintext E K app rq' cn' C' (da_key a) ct None st2 = (Inr dek, snd (finish_op E app rq' (cn_client cn') dec key ''decrypt'' None
      (Plaintext (b64_encode E (rand rq 0 32)) (ky_latest key0)) st3))"
    using assms(2,11,12) o dek b(4)
    by (simp add: managed_plaintext_def key_op_def Let_def finish_op_def reply_bytes_def b64_lawD)
  then show ?thesis
    using s visible_envelopes(1) [OF assms(3) k(4)] assms(13) by (simp add: decrypt_text_def)
qed

lemma local_opened:
  assumes "gcm_law E" and "b64_law E" and "b64_text_law E"
    and "fst (local_envelope E K C a src data aad d) = Inr e"
    and "src = Some ''--cmk'' \<Longrightarrow> profile_cmk E C' = profile_cmk E C"
    and "src = Some ''--key-file'' \<Longrightarrow> da_key_file a' = ea_key_file a \<and> ea_key_file a \<noteq> None
      \<and> (\<forall>p. ea_key_file a = Some p \<longrightarrow> d' p = d p)"
    and "src \<noteq> Some ''--cmk'' \<Longrightarrow> src \<noteq> Some ''--key-file'' \<Longrightarrow> crypto_secret C' False = crypto_secret C True"
    and "as_bytes (opt_string (da_aad a')) = aad"
  shows "list_all visible e \<and> decrypt_text E K app rq cn C' a' e d' st = (Inr data, st)"
proof -
  consider "src = Some ''--cmk''" | "src = Some ''--key-file''" | "src \<noteq> Some ''--cmk''" "src \<noteq> Some ''--key-file''" by blast
  then show ?thesis
  proof cases
    case 1
    then obtain k where k: "profile_cmk E C = Inr k" "cmk_seal E K (rand (ci_rq C) 1 12) data k aad = Inr e"
      using assms(4) by (auto simp: local_envelope_def io_simps elim!: and_then_InrE)
    then show ?thesis
      using keyed_round_trip(1) [OF assms(1-3) length_rand k(2)] visible_envelopes(3) [OF assms(3) k(2)] assms(5,8) 1
      by (simp add: decrypt_text_def)
  next
    case 2
    obtain p where p: "ea_key_file a = Some p" "d' p = d p" "da_key_file a' = Some p" using assms(6) [OF 2] by auto
    have same: "load_key_file E K p h d' = load_key_file E K p h d" for h
      using p(2) by (simp add: load_key_file_def io_bind_def io_read_def io_lift_def split: option.split)
    obtain k where k: "fst (load_key_file E K p (Some Aes256Gcm) d) = Inr k" "rawkey_seal E (rand (ci_rq C) 1 12) data (lk_secret k) aad = Inr e"
      using assms(4) 2 p(1)
      by (auto simp: local_envelope_def io_bind_def io_basic opt_string_def split: prod.splits sum.splits if_splits)
    then show ?thesis
      using keyed_round_trip(2) [OF assms(1-3) length_rand k(2)] visible_envelopes(4) [OF assms(3) k(2)] assms(8) p(3) same
      by (simp add: decrypt_text_def)
  next
    case 3
    then obtain s where k: "crypto_secret C True = Inr s"
        "passphrase_seal E K (rand (ci_rq C) 0 16) (rand (ci_rq C) 1 12) data s aad = Inr e"
      using assms(4) by (auto simp: local_envelope_def io_simps elim!: and_then_InrE)
    then show ?thesis
      using passphrase_round_trip [OF assms(1-3) length_rand length_rand k(2)] visible_envelopes(2) [OF assms(3) k(2)] assms(7) [OF 3] assms(8)
      by (simp add: decrypt_text_def)
  qed
qed

section \<open>Key files\<close>

text \<open>
  JSON: the object of a key file is printed as UTF-8 and read back with the same members, with the
  newline behind it, and a text that starts with a hyphen and is no number is not JSON.
\<close>

definition key_object :: "ext \<Rightarrow> key_type \<Rightarrow> bytes \<Rightarrow> claims" where
  "key_object E t secret = [(''blackbook_key'', Number 1), (''type'', JString (key_type_str t)), (''secret'', JString (b64_encode E secret))]
     @ (case public_key E t secret of None \<Rightarrow> [] | Some pk \<Rightarrow> [(''public'', JString (b64_encode E pk))])"

definition key_json_law :: "ops_ext \<Rightarrow> claims \<Rightarrow> bool" where
  "key_json_law K m \<longleftrightarrow> (\<forall>s. json_parse K (as_bytes (''--'' @ s)) = None)
     \<and> utf8_str (json_pretty K (JObject m) @ [CHR 0x0A])
     \<and> (\<exists>m'. json_parse K (as_bytes (json_pretty K (JObject m) @ [CHR 0x0A])) = Some (JObject m') \<and> map_of m' = map_of m)"

lemma json_key_loads:
  assumes "b64_law E" and "key_json_law K (key_object E t secret)" and "length secret = KEY_LEN"
  shows "parse_local_key E K (as_bytes (local_key_json E K t secret)) hint = Inr \<lparr>lk_type = t, lk_secret = secret\<rparr>"
proof -
  have s: "local_key_json E K t secret = json_pretty K (JObject (key_object E t secret)) @ [CHR 0x0A]"
    by (simp add: local_key_json_def key_object_def)
  obtain m' where m: "json_parse K (as_bytes (local_key_json E K t secret)) = Some (JObject m')" "map_of m' = map_of (key_object E t secret)"
    and u: "utf8_str (local_key_json E K t secret)"
    using assms(2) unfolding key_json_law_def s by blast
  have "json_local_key E m' = Inr \<lparr>lk_type = t, lk_secret = secret\<rparr>"
    using assms(1,3) by (simp add: json_local_key_def m(2) key_object_def as_str_def parse_key_type_str b64_lawD check_material_def)
  with m(1) u show ?thesis by (simp add: parse_local_key_def Let_def)
qed

lemma pem_key_loads:
  assumes "b64_law E" and "b64_text_law E" and "b64_hyphen_law E" and "key_json_law K m" and "length secret = KEY_LEN"
  shows "parse_local_key E K (as_bytes (ed25519_private_pem E secret)) hint = Inr \<lparr>lk_type = Ed25519, lk_secret = secret\<rparr>"
proof -
  let ?s = "ed25519_private_pem E secret"
  have "list_all visible (b64_encode E (ED25519_PKCS8_PREFIX @ secret))" using assms(2) by (simp add: b64_text_law_def)
  then have "ascii ?s" using ascii_pem
    by (simp add: ed25519_private_pem_def pem_wrap_def pem_begin_def pem_end_def ascii_def)
  then have u: "from_utf8 (as_bytes ?s) = Some ?s" by (simp add: ascii_utf8)
  have "\<exists>s. ?s = ''--'' @ s" by (simp add: ed25519_private_pem_def pem_wrap_def pem_begin_def)
  then have j: "json_parse K (as_bytes ?s) = None" using assms(4) unfolding key_json_law_def by metis
  have "pem_payload E ?s ''PRIVATE KEY'' = Some (ED25519_PKCS8_PREFIX @ secret)"
    unfolding ed25519_private_pem_def by (rule pem_round_trip [OF assms(1-3)])
  then show ?thesis using u j assms(5) by (simp add: parse_local_key_def Let_def)
qed

lemma raw_key_loads:
  "from_utf8 secret = None \<Longrightarrow> length secret = KEY_LEN \<Longrightarrow>
    parse_local_key E K secret (Some t) = Inr \<lparr>lk_type = t, lk_secret = secret\<rparr>"
  by (simp add: parse_local_key_def Let_def hinted_def)

section \<open>Properties\<close>

text \<open>
  C23. What is encrypted with a managed key on the command line comes back: when \<open>crypto encrypt -k\<close>
  succeeds, then after any sequence of requests that leaves the key in existence, rotations
  included, \<open>crypto decrypt -k\<close> by any client that the server lets through to that key prints
  exactly the input, when it is given what the first command printed or wrote to the file and the
  same associated data.
\<close>

theorem managed_command_round_trip:
  assumes "gcm_law E" and "b64_law E" and "b64_text_law E" and "keys_inv E app st"
    and "ea_key a = Some name" and "cmd_encrypt E K app rq cn C a d st = ((Inr out, ops), st1)"
    and "resolve_and_gate_domain E app (cn_client cn) (domain_param cn) st = (Inr (dom_id, n) :: key_reply response + string \<times> string)"
    and "find_key_row E app dom_id name st = Some r"
    and "rtranclp (\<lambda>a b. key_step E app a b \<and> has_key (kr_id r) b) st1 st2"
    and "begin_op E app rq' (cn_client cn') (cn_mfa cn') (domain_param cn') name' ''decrypt'' [Aes256Gcm] (\<lambda>_. True) st2
      = (Inr (key, dec) :: key_reply response + _, st3)" and "ky_id key = kr_id r"
    and "ci_session C' = Inr s" and "da_key a' = Some name'" and "da_aad a' = ea_aad a" and "da_out a' = None"
    and "fst (read_input C' (da_input a') d') = Inr (delivered (ea_out a) out (fs_run ops d))"
  shows "\<exists>data st4. fst (read_input C (ea_input a) d) = Inr data
    \<and> cmd_decrypt E K app rq' cn' C' a' d' st2 = ((Inr data, []), st4)"
proof -
  obtain src data e where e: "encrypt_source a = Inr src" "fst (read_input C (ea_input a) d) = Inr data"
    "(if src = Some ''-k/--key'' then managed_envelope E K app rq cn C (opt_string (ea_key a)) data (as_bytes (opt_string (ea_aad a))) st
      else (fst (local_envelope E K C a src data (as_bytes (opt_string (ea_aad a))) d), st)) = (Inr e, st1)"
    "delivered (ea_out a) out (fs_run ops d) = as_bytes (e @ [CHR 0x0A])"
    using cmd_encrypt_InrE [OF assms(6)] .
  have "src = Some ''-k/--key''" using e(1) assms(5) by (auto simp: encrypt_source_def one_source_def split: if_splits)
  then have "managed_envelope E K app rq cn C name data (as_bytes (opt_string (ea_aad a))) st = (Inr e, st1)"
    using e(3) assms(5) by (simp add: opt_string_def)
  from managed_opened [OF assms(1-4) this assms(7-13), where d = d'] assms(14) obtain st4 where
    o: "list_all visible e" "decrypt_text E K app rq' cn' C' a' e d' st2 = (Inr data, st4)" by auto
  have "cmd_decrypt E K app rq' cn' C' a' d' st2 = ((Inr data, []), st4)"
    by (rule cmd_decrypt_line [OF o(1) _ assms(15) o(2)]) (use assms(16) e(4) in simp)
  with e(2) show ?thesis by blast
qed

text \<open>
  Encryption without the server is undone without it: what \<open>crypto encrypt\<close> makes under the client
  master key, a key file or a passphrase is decrypted to the input by \<open>crypto decrypt\<close> with the same
  master key, key file or passphrase and the same associated data, without naming the kind of
  the key; neither command changes the server.
\<close>

theorem local_command_round_trip:
  assumes "gcm_law E" and "b64_law E" and "b64_text_law E"
    and "ea_key a = None" and "cmd_encrypt E K app rq cn C a d st = ((Inr out, ops), st1)"
    and "ea_cmk a \<Longrightarrow> profile_cmk E C' = profile_cmk E C"
    and "\<And>p. ea_key_file a = Some p \<Longrightarrow> da_key_file a' = Some p \<and> d' p = d p"
    and "ea_passphrase a \<Longrightarrow> crypto_secret C' False = crypto_secret C True"
    and "da_aad a' = ea_aad a" and "da_out a' = None"
    and "fst (read_input C' (da_input a') d') = Inr (delivered (ea_out a) out (fs_run ops d))"
  shows "st1 = st \<and> (\<exists>data. fst (read_input C (ea_input a) d) = Inr data
    \<and> cmd_decrypt E K app rq' cn' C' a' d' st' = ((Inr data, []), st'))"
proof -
  obtain src data e where e: "encrypt_source a = Inr src" "fst (read_input C (ea_input a) d) = Inr data"
    "(if src = Some ''-k/--key'' then managed_envelope E K app rq cn C (opt_string (ea_key a)) data (as_bytes (opt_string (ea_aad a))) st
      else (fst (local_envelope E K C a src data (as_bytes (opt_string (ea_aad a))) d), st)) = (Inr e, st1)"
    "delivered (ea_out a) out (fs_run ops d) = as_bytes (e @ [CHR 0x0A])"
    using cmd_encrypt_InrE [OF assms(5)] .
  have src: "(src = Some ''--cmk'' \<longrightarrow> ea_cmk a) \<and> (src = Some ''--key-file'' \<longrightarrow> ea_key_file a \<noteq> None)
      \<and> (src \<noteq> Some ''--cmk'' \<longrightarrow> src \<noteq> Some ''--key-file'' \<longrightarrow> ea_passphrase a) \<and> src \<noteq> Some ''-k/--key''"
    using e(1) assms(4) by (auto simp: encrypt_source_def one_source_def split: if_splits)
  then have l: "fst (local_envelope E K C a src data (as_bytes (opt_string (ea_aad a))) d) = Inr e" "st1 = st"
    using e(3) by simp_all
  have o: "list_all visible e" "decrypt_text E K app rq' cn' C' a' e d' st' = (Inr data, st')"
    using local_opened [OF assms(1-3) l(1), of C' a' d' app rq' cn' st'] src assms(6-9) by auto
  have "cmd_decrypt E K app rq' cn' C' a' d' st' = ((Inr data, []), st')"
    by (rule cmd_decrypt_line [OF o(1) _ assms(10) o(2)]) (use assms(11) e(4) in simp)
  with e(2) l(2) show ?thesis by blast
qed

text \<open>
  C32. A generated key is the key in its file: after \<open>crypto keygen\<close> to a file, loading that file gives
  the type asked for and the secret that was drawn. In the formats \<open>json\<close> and \<open>pem\<close> this is so whatever
  type the loading command expects; a \<open>raw\<close> file has no type, and it is so when the command expects
  the type that was generated and the secret is not valid UTF-8. Only that file has changed, and
  an existing one only with \<open>--force\<close>. A new file is readable by its owner alone; one that is
  overwritten keeps the permission bits it had, against the documentation of \<open>write_secret_file\<close>.
\<close>

theorem generated_key_loads:
  assumes "b64_law E" and "b64_text_law E" and "b64_hyphen_law E"
    and "parse_key_type ts = Inr t" and "key_json_law K (key_object E t (rand (ci_rq C) 0 32))"
    and "cmd_keygen E K C ts out format force d = (Inr shown, ops)" and "\<not> path_dash out"
    and "format = ''raw'' \<Longrightarrow> from_utf8 (rand (ci_rq C) 0 32) = None \<and> hint = t"
  shows "fst (load_key_file E K out (Some hint) (fs_run ops d)) = Inr \<lparr>lk_type = t, lk_secret = rand (ci_rq C) 0 32\<rparr>
    \<and> (d out \<noteq> None \<longrightarrow> force) \<and> map_option mode_of (fs_run ops d out) = Some (case d out of None \<Rightarrow> 384 | Some f \<Rightarrow> mode_of f)
    \<and> (\<forall>p. p \<noteq> out \<longrightarrow> fs_run ops d p = d p)"
proof -
  let ?s = "rand (ci_rq C) 0 32"
  obtain b where b: "keygen_bytes E K format t ?s = Inr b" and f: "d out \<noteq> None \<longrightarrow> force" and ops: "ops = [WriteFile out b 384]"
    using assms(4,6,7)
    by (auto simp: cmd_keygen_def Let_def io_bind_def io_basic write_secret_file_def KEY_LEN_def split: sum.splits prod.splits if_splits)
  have l: "length ?s = KEY_LEN" by (simp add: KEY_LEN_def)
  have "parse_local_key E K b (Some hint) = Inr \<lparr>lk_type = t, lk_secret = ?s\<rparr>"
    using b assms(8) json_key_loads [OF assms(1,5) l] pem_key_loads [OF assms(1-3,5) l] raw_key_loads [OF _ l]
    by (auto simp: keygen_bytes_def split: if_splits)
  then show ?thesis using ops f by (auto simp: load_key_file_def io_bind_def io_read_def io_basic)
qed

section \<open>Witnesses\<close>

definition demo_cli :: "bytes \<Rightarrow> cli" where
  "demo_cli b = \<lparr>ci_shell = (demo_shell None)\<lparr>sh_env := [''BLACKBOOK_CRYPTO_PASSPHRASE'' \<mapsto> ''pw'']\<rparr>, ci_session = Inr demo_session,
     ci_stdin = b, ci_rq = demo_rq 5\<rparr>"

definition demo_encrypt :: "string option \<Rightarrow> bool \<Rightarrow> encrypt_args" where
  "demo_encrypt key pass = \<lparr>ea_input = \<lparr>in_path = None, in_text = Some ''hi''\<rparr>, ea_key = key, ea_cmk = False, ea_key_file = None,
     ea_passphrase = pass, ea_aad = Some ''ctx'', ea_out = None\<rparr>"

definition demo_decrypt :: "string option \<Rightarrow> decrypt_args" where
  "demo_decrypt key = \<lparr>da_input = \<lparr>in_path = Some ''-'', in_text = None\<rparr>, da_key = key, da_key_file = None, da_aad = Some ''ctx'', da_out = None\<rparr>"

lemma demo_text_length: "length (demo_text b) = 2 * length b"
  by (induction b) (simp_all add: demo_text_def)

lemma demo_datakey:
  "\<exists>ct st1. key_datakey ops_demo_ext demo_app (demo_rq 5) ''k'' None None demo_admin demo_created
      = (Reply 200 (DataKey (demo_text (zeros 32)) ct 1), st1) \<and> length ct < 200
    \<and> keys st1 = [demo_key_row] \<and> key_versions st1 = [demo_version_row] \<and> domains st1 = [demo_keys_domain]"
proof -
  have l: "ky_latest (demo_view demo_key_row) = 1" by (simp add: demo_view_def demo_key_row_def)
  have b: "b64_encode ops_demo_ext = demo_text" by (simp add: ops_demo_ext_def)
  have "length (show_int 1) = 1" by code_simp
  then have "length (versioned ops_demo_ext 1 (zeros 12 @ zeros 32 @ zeros 16)) < 200"
    by (simp add: versioned_def b demo_text_length MANAGED_PREFIX_def demo_keys_app)
  then show ?thesis
    by (simp add: key_datakey_def demo_let_through(2) [OF demo_created_tables(2,1) demo_key_row_ok] l demo_material demo_draw Let_def
        demo_keys_seal demo_keys_app finish_op_def demo_created_tables acl_record_use_def audit_key_def b)
qed

lemma demo_sources:
  "encrypt_source (demo_encrypt (Some k) False) = Inr (Some ''-k/--key'')"
  "encrypt_source (demo_encrypt None True) = Inr (Some ''-p/--passphrase'')"
  "fst (read_input C (ea_input (demo_encrypt key pass)) d) = Inr (as_bytes ''hi'')"
  "fst (read_input (demo_cli b) (da_input (demo_decrypt key)) d) = Inr b"
  by (simp_all add: encrypt_source_def one_source_def demo_encrypt_def read_input_def io_simps demo_decrypt_def demo_cli_def path_dash_def
      split_on_def)

lemma demo_managed_encrypt:
  "\<exists>out st1. cmd_encrypt ops_demo_ext demo_ops demo_app (demo_rq 5) demo_connection (demo_cli []) (demo_encrypt (Some ''k'') False) d demo_created
      = ((Inr out, []), st1)
    \<and> keys st1 = [demo_key_row] \<and> key_versions st1 = [demo_version_row] \<and> domains st1 = [demo_keys_domain]"
proof -
  obtain ct st1 where k: "key_datakey ops_demo_ext demo_app (demo_rq 5) ''k'' None None demo_admin demo_created
      = (Reply 200 (DataKey (demo_text (zeros 32)) ct 1), st1)" "length ct < 200"
    "keys st1 = [demo_key_row]" "key_versions st1 = [demo_version_row]" "domains st1 = [demo_keys_domain]"
    using demo_datakey by blast
  have "length (as_bytes ct) < 2 ^ 16" using k(2) by simp
  then obtain e where e: "datakey_seal ops_demo_ext (zeros 12) (as_bytes ''hi'') (zeros 32) ct (as_bytes ''ctx'') = Inr e"
    by (simp add: datakey_seal_def Let_def demo_keys_seal demo_keys_app)
  have "b64_decode ops_demo_ext (demo_text (zeros 32)) = Some (zeros 32)" by (simp add: ops_demo_ext_def demo_untext_text)
  then have "managed_envelope ops_demo_ext demo_ops demo_app (demo_rq 5) demo_connection (demo_cli []) ''k'' (as_bytes ''hi'') (as_bytes ''ctx'') demo_created
      = (Inr e, st1)"
    using k(1) e by (simp add: managed_envelope_def managed_op_def demo_cli_def key_op_def Let_def reply_bytes_def demo_draw)
  then have "cmd_encrypt ops_demo_ext demo_ops demo_app (demo_rq 5) demo_connection (demo_cli []) (demo_encrypt (Some ''k'') False) d demo_created
      = ((Inr (as_bytes (e @ [CHR 0x0A])), []), st1)"
    by (simp add: cmd_encrypt_def demo_sources and_then_def opt_string_def)
      (simp add: demo_encrypt_def write_output_def io_simps)
  with k show ?thesis by blast
qed

lemma demo_local_encrypt:
  "\<exists>out. cmd_encrypt ops_demo_ext demo_ops demo_app rq cn (demo_cli []) (demo_encrypt None True) d st = ((Inr out, []), st)"
proof -
  have c: "crypto_secret (demo_cli []) x = Inr ''pw''" for x by (simp add: crypto_secret_def demo_cli_def)
  obtain e where e: "passphrase_seal ops_demo_ext demo_ops (zeros 16) (zeros 12) (as_bytes ''hi'') ''pw'' (as_bytes ''ctx'') = Inr e"
    by (simp add: passphrase_seal_def argon2_key_def demo_ops_def demo_keys_seal demo_keys_app)
  have "ci_rq (demo_cli []) = demo_rq 5" by (simp add: demo_cli_def)
  then have "fst (local_envelope ops_demo_ext demo_ops (demo_cli []) (demo_encrypt None True) (Some ''-p/--passphrase'') (as_bytes ''hi'') (as_bytes ''ctx'') d) = Inr e"
    using e by (simp add: local_envelope_def io_simps c demo_draw)
  then show ?thesis
    by (simp add: cmd_encrypt_def demo_sources and_then_def opt_string_def)
      (simp add: demo_encrypt_def write_output_def io_simps)
qed

theorem managed_command_round_trip_witness:
  "\<exists>out st1 st4. cmd_encrypt ops_demo_ext demo_ops demo_app (demo_rq 5) demo_connection (demo_cli []) (demo_encrypt (Some ''k'') False)
      Map.empty demo_created = ((Inr out, []), st1)
    \<and> cmd_decrypt ops_demo_ext demo_ops demo_app (demo_rq 7) demo_connection (demo_cli out) (demo_decrypt (Some ''k''))
      Map.empty (demo_rotated_ring st1) = ((Inr (as_bytes ''hi''), []), st4)"
proof -
  obtain out st1 where e: "cmd_encrypt ops_demo_ext demo_ops demo_app (demo_rq 5) demo_connection (demo_cli []) (demo_encrypt (Some ''k'') False)
      Map.empty demo_created = ((Inr out, []), st1)"
    and t: "keys st1 = [demo_key_row]" "key_versions st1 = [demo_version_row]" "domains st1 = [demo_keys_domain]"
    using demo_managed_encrypt by blast
  note r = demo_rotates [OF t]
  have f: "find_key_row ops_demo_ext demo_app ''dom'' ''k'' demo_created = Some demo_key_row"
    by (simp add: find_key_row_def demo_created_tables demo_key_row_def)
  have "key_step ops_demo_ext demo_app st1 (demo_rotated_ring st1)" unfolding demo_rotated_ring_def by (rule RotateKey)
  then have s: "rtranclp (\<lambda>a b. key_step ops_demo_ext demo_app a b \<and> has_key (kr_id demo_key_row) b) st1 (demo_rotated_ring st1)"
    using r(1) by (intro r_into_rtranclp) (simp add: has_key_def)
  have k: "demo_key (demo_key_row\<lparr>kr_latest := 2, kr_updated := 6\<rparr>)" by (simp add: demo_key_def demo_key_row_def)
  have v: "ky_id (demo_view (demo_key_row\<lparr>kr_latest := 2, kr_updated := 6\<rparr>)) = kr_id demo_key_row" by (simp add: demo_view_def)
  have "\<exists>data st4. fst (read_input (demo_cli []) (ea_input (demo_encrypt (Some ''k'') False)) Map.empty) = Inr data
    \<and> cmd_decrypt ops_demo_ext demo_ops demo_app (demo_rq 7) demo_connection (demo_cli out) (demo_decrypt (Some ''k''))
      Map.empty (demo_rotated_ring st1) = ((Inr data, []), st4)"
    using demo_keys_gate [OF demo_created_tables(2)] demo_let_through(2) [where rq = "demo_rq 7" and code = None, OF r(2,1) k]
    by (intro managed_command_round_trip [OF demo_ops_laws(1-3) demo_created_inv _ e _ f s _ v])
      (simp_all add: demo_sources, simp_all add: demo_encrypt_def demo_decrypt_def v demo_cli_def delivered_def)
  then show ?thesis using e by (simp add: demo_sources)
qed

theorem local_command_round_trip_witness:
  "\<exists>out. cmd_encrypt ops_demo_ext demo_ops demo_app (demo_rq 5) demo_connection (demo_cli []) (demo_encrypt None True)
      Map.empty demo_created = ((Inr out, []), demo_created)
    \<and> cmd_decrypt ops_demo_ext demo_ops demo_app (demo_rq 7) demo_connection (demo_cli out) (demo_decrypt None)
      Map.empty demo_created = ((Inr (as_bytes ''hi''), []), demo_created)"
proof -
  obtain out where e: "cmd_encrypt ops_demo_ext demo_ops demo_app (demo_rq 5) demo_connection (demo_cli []) (demo_encrypt None True)
      Map.empty demo_created = ((Inr out, []), demo_created)"
    using demo_local_encrypt by blast
  have c: "crypto_secret (demo_cli b) x = Inr ''pw''" for x b by (simp add: crypto_secret_def demo_cli_def)
  have "demo_created = demo_created \<and> (\<exists>data. fst (read_input (demo_cli []) (ea_input (demo_encrypt None True)) Map.empty) = Inr data
    \<and> cmd_decrypt ops_demo_ext demo_ops demo_app (demo_rq 7) demo_connection (demo_cli out) (demo_decrypt None)
      Map.empty demo_created = ((Inr data, []), demo_created))"
    by (rule local_command_round_trip [OF demo_ops_laws(1-3) _ e])
      (simp_all add: demo_sources c, simp_all add: demo_encrypt_def demo_decrypt_def delivered_def)
  then show ?thesis using e by (simp add: demo_sources)
qed

definition demo_key_ops :: ops_ext where
  "demo_key_ops = demo_ops\<lparr>json_pretty := (\<lambda>j. ''{}''),
     json_parse := (\<lambda>b. if b = as_bytes ''{}\<newline>'' then Some (JObject (key_object ops_demo_ext Ed25519 (zeros 32))) else None)\<rparr>"

theorem generated_key_loads_witness:
  "\<exists>shown ops. cmd_keygen ops_demo_ext demo_key_ops (demo_cli []) ''ed25519'' ''/k'' ''pem'' False Map.empty = (Inr shown, ops)
    \<and> fst (load_key_file ops_demo_ext demo_key_ops ''/k'' (Some Aes256Gcm) (fs_run ops Map.empty))
      = Inr \<lparr>lk_type = Ed25519, lk_secret = zeros 32\<rparr>
    \<and> map_option mode_of (fs_run ops Map.empty ''/k'') = Some 384"
proof -
  have h: "b64_hyphen_law ops_demo_ext"
    unfolding b64_hyphen_law_def
  proof (intro allI notI)
    fix b assume "CHR ''-'' \<in> set (b64_encode ops_demo_ext b)"
    then show False using demo_text_letters [of "CHR ''-''" b] by (simp add: ops_demo_ext_def)
  qed
  have t: "parse_key_type ''ed25519'' = Inr Ed25519" using parse_key_type_str [of Ed25519] by simp
  have r: "rand (ci_rq (demo_cli [])) 0 n = zeros n" for n by (simp add: demo_cli_def demo_draw)
  have j: "key_json_law demo_key_ops (key_object ops_demo_ext Ed25519 (rand (ci_rq (demo_cli [])) 0 32))"
    unfolding r by (auto simp: key_json_law_def demo_key_ops_def ascii_utf8 ascii_def as_bytes_def)
  have d: "\<not> path_dash ''/k''" by (simp add: path_dash_def split_on_def)
  obtain shown ops where g: "cmd_keygen ops_demo_ext demo_key_ops (demo_cli []) ''ed25519'' ''/k'' ''pem'' False Map.empty = (Inr shown, ops)"
    using d by (auto simp: cmd_keygen_def t r Let_def io_bind_def io_basic write_secret_file_def keygen_bytes_def)
  from generated_key_loads [OF demo_ops_laws(2,3) h t j g d, of Aes256Gcm] g r show ?thesis by auto
qed

end
