(* ===== verification/Mcp_Bridge.thy ===== *)
theory Mcp_Bridge
  imports Crypto_Cli
begin

text \<open>
  The bridge to the model context protocol (\<open>mcp.rs\<close>): messages are read line by line, tools run
  locally or as requests of the client. A tool that talks to the server is a tree of requests, so
  that what it asks for can be stated for every server. The lemmas show which tools are refused,
  that a bridge without write access changes nothing but what reading changes, and that every
  request is answered once.
\<close>

section \<open>Configuration\<close>

definition PROTO_LATEST :: string where "PROTO_LATEST = ''2025-06-18''"
definition PROTO_SUPPORTED :: "string list" where "PROTO_SUPPORTED = [''2024-11-05'', ''2025-03-26'', ''2025-06-18'']"
definition WRITE_TOOLS :: "string list" where
  "WRITE_TOOLS = [''bbk_secret_put'', ''bbk_secret_delete'', ''bbk_key_create'', ''bbk_key_rotate'']"

record mcp_config =
  mc_profile :: "string option"
  mc_offline :: bool
  mc_allow_write :: bool
  mc_domain :: "string option"

definition online :: "mcp_config \<Rightarrow> bool" where
  "online cfg \<longleftrightarrow> \<not> mc_offline cfg \<and> mc_profile cfg \<noteq> None"

section \<open>Catalogue\<close>

text \<open>A tool without its descriptions: its name, the names of its properties and which are required.\<close>

record tool_spec =
  tl_name :: string
  tl_properties :: "string list"
  tl_required :: "string list"

definition tool :: "string \<Rightarrow> string list \<Rightarrow> string list \<Rightarrow> tool_spec" where
  "tool name props req = \<lparr>tl_name = name, tl_properties = props, tl_required = req\<rparr>"

definition key_tools :: "(string \<times> string list \<times> string list) list" where
  "key_tools =
     [(''bbk_key_encrypt'', [''data'', ''data_base64'', ''aad''], [''data'']),
      (''bbk_key_decrypt'', [''ciphertext'', ''aad''], [''ciphertext'']),
      (''bbk_key_sign'', [''data'', ''data_base64''], [''data'']),
      (''bbk_key_hmac'', [''data'', ''data_base64'', ''algorithm''], [''data'']),
      (''bbk_key_verify'', [''data'', ''data_base64'', ''signature'', ''algorithm''], [''data'', ''signature'']),
      (''bbk_key_token_issue'', [''claims'', ''subject'', ''audience'', ''issuer'', ''ttl_secs''], []),
      (''bbk_key_token_verify'', [''token'', ''audience''], [''token''])]"

definition offline_tools :: "tool_spec list" where
  "offline_tools =
     [tool ''bbk_hash'' [''data'', ''algorithm'', ''data_base64''] [''data''],
      tool ''bbk_random'' [''bytes'', ''encoding''] [],
      tool ''bbk_encrypt'' [''plaintext'', ''passphrase''] [''plaintext'', ''passphrase''],
      tool ''bbk_decrypt'' [''envelope'', ''passphrase''] [''envelope'', ''passphrase''],
      tool ''bbk_derive_key'' [''passphrase'', ''algorithm'', ''salt_base64''] [''passphrase''],
      tool ''bbk_fingerprint'' [''data'', ''data_base64''] [''data''],
      tool ''bbk_hmac'' [''data'', ''data_base64'', ''key_base64'', ''algorithm''] [''data'', ''key_base64''],
      tool ''bbk_verify_signature'' [''data'', ''data_base64'', ''signature'', ''public_key''] [''data'', ''signature'', ''public_key''],
      tool ''bbk_token_verify'' [''token'', ''public_key'', ''audience''] [''token'', ''public_key'']]"

definition tools_list :: "mcp_config \<Rightarrow> tool_spec list" where
  "tools_list cfg = offline_tools @
     (if online cfg
      then
        [tool ''bbk_status'' [] [],
         tool ''bbk_secret_list'' [''domain''] [],
         tool ''bbk_secret_get'' [''name'', ''domain'', ''mfa'', ''request_id''] [''name''],
         tool ''bbk_file_list'' [''domain''] []]
        @ map (\<lambda>(name, props, required). tool name (props @ [''key'', ''domain'', ''mfa'']) (''key'' # required)) key_tools
        @ [tool ''bbk_key_list'' [''domain''] []]
        @ (if mc_allow_write cfg
           then
             [tool ''bbk_key_create'' [''name'', ''key_type'', ''mfa_required'', ''domain''] [''name''],
              tool ''bbk_key_rotate'' [''key'', ''domain''] [''key''],
              tool ''bbk_secret_put'' [''name'', ''value'', ''domain'', ''overwrite'', ''mfa_required'', ''delete_on_read'', ''max_reads''] [''name'', ''value''],
              tool ''bbk_secret_delete'' [''name'', ''domain''] [''name'']]
           else [])
      else [])"

section \<open>Arguments\<close>

text \<open>What a tool can fail with; the texts of the messages are left out.\<close>

datatype tool_error =
    MissingParams | MissingToolName | MissingArgument string | NotBase64 string | OutOfRange | NotUtf8
  | OpsFailed ops_error | OnlineDisabled | WritesDisabled | UnknownTool string
  | NoProfile | ProfileLocked | NoConnection | ClientFailed app_error | BadReply string

text \<open>The text of a result; the reason why a token is invalid is left out.\<close>

datatype tool_text = Text string | InvalidToken

definition jget :: "string \<Rightarrow> json \<Rightarrow> json option" where
  "jget k v = (case v of JObject m \<Rightarrow> map_of m k | _ \<Rightarrow> None)"

definition as_bool :: "json \<Rightarrow> bool option" where
  "as_bool v = (case v of JBool b \<Rightarrow> Some b | _ \<Rightarrow> None)"

definition as_u64 :: "json \<Rightarrow> nat option" where
  "as_u64 v = (case v of
      Number n \<Rightarrow> if 0 \<le> n then Some (nat n) else None
    | OtherNumber s \<Rightarrow> if s \<noteq> [] \<and> list_all is_digit s \<and> digits_val s < 2 ^ 64 then Some (digits_val s) else None
    | _ \<Rightarrow> None)"

definition arg_str :: "json \<Rightarrow> string \<Rightarrow> tool_error + string" where
  "arg_str args key = ok_or (MissingArgument key) (as_str (jget key args))"

definition arg_str_opt :: "json \<Rightarrow> string \<Rightarrow> string option" where
  "arg_str_opt args key = as_str (jget key args)"

definition arg_bool :: "json \<Rightarrow> string \<Rightarrow> bool \<Rightarrow> bool" where
  "arg_bool args key dflt = (case Option.bind (jget key args) as_bool of Some b \<Rightarrow> b | None \<Rightarrow> dflt)"

definition arg_or :: "json \<Rightarrow> string \<Rightarrow> string \<Rightarrow> string" where
  "arg_or args key dflt = (case arg_str_opt args key of Some s \<Rightarrow> s | None \<Rightarrow> dflt)"

definition arg_data :: "ext \<Rightarrow> json \<Rightarrow> tool_error + bytes" where
  "arg_data E args = and_then (arg_str args ''data'') (\<lambda>s.
     if arg_bool args ''data_base64'' False then ok_or (NotBase64 ''data'') (b64_decode E (trim s)) else Inr (as_bytes s))"

text \<open>The operator \<open>?\<close> on the results of \<open>crypto_ops\<close>.\<close>

definition ops_try :: "'a ops_result \<Rightarrow> tool_error + 'a" where
  "ops_try r = (case r of Inl e \<Rightarrow> Inl (OpsFailed e) | Inr x \<Rightarrow> Inr x)"

section \<open>Offline tools\<close>

definition tool_hash :: "ext \<Rightarrow> ops_ext \<Rightarrow> json \<Rightarrow> tool_error + tool_text" where
  "tool_hash E K args =
     and_then (arg_data E args) (\<lambda>data.
     and_then (ops_try (parse_hash_alg (arg_or args ''algorithm'' ''sha3-256''))) (\<lambda>alg.
       Inr (Text (hash_alg_str alg @ '': '' @ hex_encode E (digest K alg data)))))"

definition tool_hmac :: "ext \<Rightarrow> ops_ext \<Rightarrow> json \<Rightarrow> tool_error + tool_text" where
  "tool_hmac E K args =
     and_then (arg_data E args) (\<lambda>data.
     and_then (arg_str args ''key_base64'') (\<lambda>k.
     and_then (ok_or (NotBase64 ''key_base64'') (b64_decode E (trim k))) (\<lambda>key.
     and_then (ops_try (parse_hash_alg (arg_or args ''algorithm'' ''sha3-256''))) (\<lambda>alg.
       Inr (Text (''hmac-'' @ hash_alg_str alg @ '': '' @ hex_encode E (hmac K alg key data)))))))"

definition tool_verify_signature :: "ext \<Rightarrow> ops_ext \<Rightarrow> json \<Rightarrow> tool_error + tool_text" where
  "tool_verify_signature E K args =
     and_then (arg_data E args) (\<lambda>data.
     and_then (arg_str args ''public_key'') (\<lambda>p.
     and_then (ops_try (parse_public_key E K p)) (\<lambda>pk.
     and_then (arg_str args ''signature'') (\<lambda>s.
     and_then (ops_try (parse_tag E K s)) (\<lambda>sig.
       Inr (Text (if ed25519_verify E K pk data sig then ''valid'' else ''INVALID'')))))))"

definition valid_token :: "ops_ext \<Rightarrow> claims \<Rightarrow> tool_text" where
  "valid_token K c = Text (''valid token'' @ [CHR 0x0A] @ json_pretty K (JObject c))"

definition tool_token_verify :: "ext \<Rightarrow> ops_ext \<Rightarrow> request \<Rightarrow> json \<Rightarrow> tool_error + tool_text" where
  "tool_token_verify E K rq args =
     and_then (arg_str args ''public_key'') (\<lambda>p.
     and_then (ops_try (parse_public_key E K p)) (\<lambda>pk.
     and_then (arg_str args ''token'') (\<lambda>token.
       case token_verify E K token (VerifyEd25519 pk) (now_unix rq) (arg_str_opt args ''audience'') of
         Inr c \<Rightarrow> Inr (valid_token K c)
       | Inl reason \<Rightarrow> Inr InvalidToken)))"

definition tool_random :: "ext \<Rightarrow> request \<Rightarrow> json \<Rightarrow> tool_error + tool_text" where
  "tool_random E rq args =
     (let n = (case Option.bind (jget ''bytes'' args) as_u64 of Some n \<Rightarrow> n | None \<Rightarrow> 32)
      in if n = 0 \<or> n > 4096 then Inl OutOfRange
         else and_then (ops_try (encode_bytes E (rand rq 0 n) (arg_or args ''encoding'' ''base64url''))) (\<lambda>s. Inr (Text s)))"

definition tool_encrypt :: "ext \<Rightarrow> ops_ext \<Rightarrow> request \<Rightarrow> json \<Rightarrow> tool_error + tool_text" where
  "tool_encrypt E K rq args =
     and_then (arg_str args ''plaintext'') (\<lambda>plaintext.
     and_then (arg_str args ''passphrase'') (\<lambda>passphrase.
     and_then (ops_try (passphrase_seal E K (rand rq 0 16) (rand rq 1 12) (as_bytes plaintext) passphrase [])) (\<lambda>e. Inr (Text e))))"

definition tool_decrypt :: "ext \<Rightarrow> ops_ext \<Rightarrow> json \<Rightarrow> tool_error + tool_text" where
  "tool_decrypt E K args =
     and_then (arg_str args ''envelope'') (\<lambda>envelope.
     and_then (arg_str args ''passphrase'') (\<lambda>passphrase.
     and_then (ops_try (passphrase_open E K envelope passphrase [])) (\<lambda>pt.
       map_sum (\<lambda>_. NotUtf8) Text (ok_or () (from_utf8 pt)))))"

definition tool_derive_key :: "ext \<Rightarrow> ops_ext \<Rightarrow> request \<Rightarrow> json \<Rightarrow> tool_error + tool_text" where
  "tool_derive_key E K rq args =
     and_then (arg_str args ''passphrase'') (\<lambda>passphrase.
     and_then (ops_try (parse_kdf_alg (arg_or args ''algorithm'' ''argon2id''))) (\<lambda>alg.
     and_then (case arg_str_opt args ''salt_base64'' of
         Some s \<Rightarrow> ok_or (NotBase64 ''salt_base64'') (b64_decode E (trim s))
       | None \<Rightarrow> Inr (rand rq 0 16)) (\<lambda>salt.
     and_then (ops_try (derive_key E K alg passphrase salt)) (\<lambda>key.
       Inr (Text (''algorithm: '' @ kdf_alg_str alg @ [CHR 0x0A] @ ''key_base64: '' @ b64_encode E key @ [CHR 0x0A]
         @ ''key_hex: '' @ hex_encode E key @ [CHR 0x0A] @ ''salt_base64: '' @ b64_encode E salt))))))"

definition tool_fingerprint :: "ext \<Rightarrow> ops_ext \<Rightarrow> json \<Rightarrow> tool_error + tool_text" where
  "tool_fingerprint E K args =
     and_then (arg_data E args) (\<lambda>data.
       let fp = digest K Sha3_256 data
       in Inr (Text (randomart fp ''bbk'' @ [CHR 0x0A] @ ''braille: '' @ braille fp @ [CHR 0x0A] @ ''sha3-256: '' @ hex_encode E fp)))"

section \<open>Talking to the server\<close>

record link =
  ln_server :: string
  ln_domain :: string
  ln_mfa :: "string option"

datatype client_call =
    Whoami | Health | ListSecrets | RetrieveSecret string "string option" | ListFiles
  | StoreSecret string string "resource_flags option" bool | DeleteSecret string
  | ListKeys | CreateKey string string bool | RotateKey string
  | KeyOp string key_call | KeyOpMalformed string

record identity =
  wi_id :: string
  wi_name :: string
  wi_role :: string
  wi_auth :: string
  wi_domain :: "string option"

record health =
  he_status :: string
  he_database :: string
  he_version :: string
  he_uptime :: nat

record resource_entry =
  re_name :: string
  re_external :: bool
  re_exhausted :: bool
  re_quorum :: "int option"
  re_signatories :: "nat option"
  re_reads :: int

record file_entry =
  fe_name :: string
  fe_size :: int
  fe_mime :: "string option"

datatype client_answer =
    IsIdentity identity | IsHealth health | IsSecrets nat "resource_entry list" | IsSecret retrieved | IsFiles nat "file_entry list"
  | IsStored string string string | IsDeleted | IsKeys nat "key_item list" | IsKey key_summary | IsReply key_reply

datatype talk = Done "tool_error + tool_text" | Ask link client_call "app_error + client_answer \<Rightarrow> talk"

text \<open>A request whose failure is the failure of the tool; an answer of another shape does not deserialize.\<close>

definition ask :: "link \<Rightarrow> client_call \<Rightarrow> (client_answer \<Rightarrow> talk option) \<Rightarrow> talk" where
  "ask l c f = Ask l c (\<lambda>r. case r of
      Inl e \<Rightarrow> Done (Inl (ClientFailed e))
    | Inr a \<Rightarrow> (case f a of Some t \<Rightarrow> t | None \<Rightarrow> Done (Inl (ClientFailed AppJson))))"

text \<open>The operator \<open>?\<close> before a request.\<close>

definition talk_then :: "tool_error + 'a \<Rightarrow> ('a \<Rightarrow> talk) \<Rightarrow> talk" where
  "talk_then r f = (case r of Inl e \<Rightarrow> Done (Inl e) | Inr x \<Rightarrow> f x)"

text \<open>
  Of the profile: what \<open>Session::load_named\<close> gives, whether the TLS set-up accepts its certificates,
  and the address that \<open>redirect_loopback\<close> makes of its server.
\<close>

record bridge_env =
  be_session :: "string \<Rightarrow> app_error + client_session"
  be_tls :: "client_session \<Rightarrow> bool"
  be_url :: "client_session \<Rightarrow> string"

definition online_client :: "bridge_env \<Rightarrow> mcp_config \<Rightarrow> json \<Rightarrow> tool_error + link" where
  "online_client B cfg args =
     and_then (ok_or NoProfile (mc_profile cfg)) (\<lambda>profile.
     and_then (map_err ProfileLocked (be_session B profile)) (\<lambda>s.
       if se_ca s = None \<or> \<not> be_tls B s then Inl NoConnection
       else Inr \<lparr>ln_server = be_url B s,
              ln_domain = (case arg_str_opt args ''domain'' of Some d \<Rightarrow> d
                | None \<Rightarrow> (case mc_domain cfg of Some d \<Rightarrow> d | None \<Rightarrow> ''default'')), ln_mfa = None\<rparr>))"

definition with_mfa :: "json \<Rightarrow> link \<Rightarrow> link" where
  "with_mfa args l = (case arg_str_opt args ''mfa'' of Some code \<Rightarrow> l\<lparr>ln_mfa := Some code\<rparr> | None \<Rightarrow> l)"

definition fmt_uptime :: "nat \<Rightarrow> string" where
  "fmt_uptime secs =
     (let d = secs div 86400; h = secs mod 86400 div 3600; m = secs mod 3600 div 60
      in if d > 0 then show_nat d @ ''d '' @ show_nat h @ ''h '' @ show_nat m @ ''m''
         else if h > 0 then show_nat h @ ''h '' @ show_nat m @ ''m''
         else show_nat m @ ''m'')"

definition dash :: string where
  "dash = [CHR 0xE2, CHR 0x80, CHR 0x94]"

definition nl :: string where
  "nl = [CHR 0x0A]"

definition join_nl :: "string list \<Rightarrow> string" where
  "join_nl ls = (case ls of [] \<Rightarrow> [] | x # xs \<Rightarrow> x @ concat (map (\<lambda>y. nl @ y) xs))"

definition status_text :: "link \<Rightarrow> identity \<Rightarrow> health option \<Rightarrow> string" where
  "status_text l who h =
     ''identity: '' @ wi_name who @ '' ('' @ wi_role who @ '') '' @ dash @ '' id '' @ wi_id who @ nl
     @ ''auth: '' @ wi_auth who @ nl @ ''server: '' @ ln_server l
     @ (case wi_domain who of Some ud \<Rightarrow> nl @ ''user domain: '' @ ud | None \<Rightarrow> [])
     @ (case h of
          Some h \<Rightarrow> nl @ ''health: '' @ he_status h @ '' (db '' @ he_database h @ ''), version '' @ he_version h
            @ '', uptime '' @ fmt_uptime (he_uptime h)
        | None \<Rightarrow> [])"

definition tool_status :: "link \<Rightarrow> talk" where
  "tool_status l = ask l Whoami (\<lambda>a. case a of
      IsIdentity who \<Rightarrow> Some (Ask l Health (\<lambda>r. Done (Inr (Text (status_text l who (case r of Inr (IsHealth h) \<Rightarrow> Some h | _ \<Rightarrow> None))))))
    | _ \<Rightarrow> None)"

definition secret_line :: "resource_entry \<Rightarrow> string" where
  "secret_line r = ''  '' @ re_name r @ '' ['' @ (if re_external r then ''external'' else ''server'') @ '']''
     @ (if re_exhausted r then '' [exhausted]'' else [])
     @ (case (re_quorum r, re_signatories r) of (Some k, Some n) \<Rightarrow> '' quorum '' @ show_int k @ ''-of-'' @ show_nat n | _ \<Rightarrow> [])
     @ '' (reads: '' @ show_int (re_reads r) @ '')''"

definition tool_secret_list :: "link \<Rightarrow> talk" where
  "tool_secret_list l = ask l ListSecrets (\<lambda>a. case a of
      IsSecrets n rs \<Rightarrow> Some (Done (Inr (Text (if rs = [] then ''(no secrets in this domain)''
         else join_nl ((show_nat n @ '' secret(s):'') # map secret_line rs)))))
    | _ \<Rightarrow> None)"

definition tool_secret_get :: "link \<Rightarrow> json \<Rightarrow> talk" where
  "tool_secret_get l args = talk_then (arg_str args ''name'') (\<lambda>n.
     ask (with_mfa args l) (RetrieveSecret n (arg_str_opt args ''request_id'')) (\<lambda>a. case a of
         IsSecret r \<Rightarrow> Some (Done (Inr (Text (if rt_external r
            then ''secret '' @ [CHR 0x27] @ rt_name r @ [CHR 0x27] @ '' is client-side encrypted (external): the server only holds an ''
              @ ''opaque envelope. Decrypt it with the bbk CLI (which holds the client key).''
            else rt_data r))))
       | _ \<Rightarrow> None))"

definition tool_file_list :: "link \<Rightarrow> talk" where
  "tool_file_list l = ask l ListFiles (\<lambda>a. case a of
      IsFiles n fs \<Rightarrow> Some (Done (Inr (Text (if fs = [] then ''(no files in this domain)''
         else join_nl ((show_nat n @ '' file(s):'') # map (\<lambda>f. ''  '' @ fe_name f @ '' ('' @ show_int (fe_size f) @ '' bytes, ''
           @ (case fe_mime f of Some m \<Rightarrow> m | None \<Rightarrow> ''application/octet-stream'') @ '')'') fs)))))
    | _ \<Rightarrow> None)"

definition put_tool_flags :: "json \<Rightarrow> resource_flags option" where
  "put_tool_flags args =
     (let flags = \<lparr>mfa_required = arg_bool args ''mfa_required'' False, delete_on_read = arg_bool args ''delete_on_read'' False,
            max_reads = Option.bind (jget ''max_reads'' args) as_i64, rotate_on_read = False, preserve_on_cleanup = False, no_overwrite = False\<rparr>
      in if mfa_required flags \<or> delete_on_read flags \<or> max_reads flags \<noteq> None then Some flags else None)"

definition tool_secret_put :: "link \<Rightarrow> json \<Rightarrow> talk" where
  "tool_secret_put l args = talk_then (arg_str args ''name'') (\<lambda>n. talk_then (arg_str args ''value'') (\<lambda>v.
     ask l (StoreSecret n v (put_tool_flags args) (arg_bool args ''overwrite'' False)) (\<lambda>a. case a of
         IsStored name enc created \<Rightarrow> Some (Done (Inr (Text (''stored '' @ [CHR 0x27] @ name @ [CHR 0x27] @ '' ('' @ enc @ '') at '' @ created))))
       | _ \<Rightarrow> None)))"

definition tool_secret_delete :: "link \<Rightarrow> json \<Rightarrow> talk" where
  "tool_secret_delete l args = talk_then (arg_str args ''name'') (\<lambda>n.
     ask l (DeleteSecret n) (\<lambda>a. case a of
         IsDeleted \<Rightarrow> Some (Done (Inr (Text (''deleted '' @ [CHR 0x27] @ n @ [CHR 0x27]))))
       | _ \<Rightarrow> None))"

definition tool_key_list :: "link \<Rightarrow> talk" where
  "tool_key_list l = ask l ListKeys (\<lambda>a. case a of
      IsKeys n ks \<Rightarrow> Some (Done (Inr (Text (if ks = [] then ''(no managed keys in this domain)''
         else join_nl ((show_nat n @ '' key(s):'') # map (\<lambda>k. ''  '' @ ki_name k @ '' ['' @ ki_type k @ ''] v'' @ show_int (ki_latest k)
           @ (if ki_mfa k then '' (MFA required)'' else [])) ks)))))
    | _ \<Rightarrow> None)"

definition tool_key_create :: "link \<Rightarrow> json \<Rightarrow> talk" where
  "tool_key_create l args = talk_then (arg_str args ''name'') (\<lambda>n.
     ask l (CreateKey n (arg_or args ''key_type'' ''aes256-gcm'') (arg_bool args ''mfa_required'' False)) (\<lambda>a. case a of
         IsKey k \<Rightarrow> Some (Done (Inr (Text (''created '' @ ki_type (ks_item k) @ '' key '' @ [CHR 0x27] @ ki_name (ks_item k) @ [CHR 0x27]
           @ '' (v'' @ show_int (ki_latest (ks_item k)) @ '')''
           @ (case ks_public k of Some pk \<Rightarrow> nl @ ''public key: '' @ pk | None \<Rightarrow> [])))))
       | _ \<Rightarrow> None))"

definition tool_key_rotate :: "link \<Rightarrow> json \<Rightarrow> talk" where
  "tool_key_rotate l args = talk_then (arg_str args ''key'') (\<lambda>n.
     ask l (RotateKey n) (\<lambda>a. case a of
         IsKey k \<Rightarrow> Some (Done (Inr (Text (''rotated '' @ [CHR 0x27] @ ki_name (ks_item k) @ [CHR 0x27] @ '' '' @ dash @ '' new output uses v''
           @ show_int (ki_latest (ks_item k))))))
       | _ \<Rightarrow> None))"

section \<open>Operations on managed keys\<close>

text \<open>The body of the request; \<open>None\<close> is a body the server does not deserialize.\<close>

definition token_body :: "json \<Rightarrow> key_call option" where
  "token_body args =
     (let call = (\<lambda>c. CallToken \<lparr>it_claims = c, it_subject = arg_str_opt args ''subject'', it_audience = arg_str_opt args ''audience'',
            it_issuer = arg_str_opt args ''issuer'', it_ttl = Option.bind (jget ''ttl_secs'' args) as_i64, it_not_before = None\<rparr>)
      in case jget ''claims'' args of
           None \<Rightarrow> Some (call None)
         | Some JNull \<Rightarrow> Some (call None)
         | Some (JObject m) \<Rightarrow> Some (call (Some m))
         | Some _ \<Rightarrow> None)"

definition key_body :: "ext \<Rightarrow> string \<Rightarrow> json \<Rightarrow> tool_error + key_call option" where
  "key_body E name args =
     (let aad = map_option (\<lambda>a. b64_encode E (as_bytes a)) (arg_str_opt args ''aad'')
      in if name = ''bbk_key_encrypt'' then and_then (arg_data E args) (\<lambda>d. Inr (Some (CallEncrypt (b64_encode E d) aad)))
         else if name = ''bbk_key_decrypt'' then and_then (arg_str args ''ciphertext'') (\<lambda>ct. Inr (Some (CallDecrypt ct aad)))
         else if name = ''bbk_key_sign'' then and_then (arg_data E args) (\<lambda>d. Inr (Some (CallSign (b64_encode E d))))
         else if name = ''bbk_key_hmac''
         then and_then (arg_data E args) (\<lambda>d. Inr (Some (CallHmac (b64_encode E d) (arg_str_opt args ''algorithm''))))
         else if name = ''bbk_key_verify''
         then and_then (arg_data E args) (\<lambda>d. and_then (arg_str args ''signature'') (\<lambda>s.
                Inr (Some (CallVerify (b64_encode E d) s (arg_str_opt args ''algorithm'')))))
         else if name = ''bbk_key_token_issue'' then Inr (token_body args)
         else if name = ''bbk_key_token_verify''
         then and_then (arg_str args ''token'') (\<lambda>t. Inr (Some (CallTokenVerify t (arg_str_opt args ''audience''))))
         else Inl (UnknownTool name))"

definition key_text :: "ext \<Rightarrow> ops_ext \<Rightarrow> string \<Rightarrow> key_reply \<Rightarrow> tool_error + tool_text" where
  "key_text E K name r =
     (if name = ''bbk_key_encrypt'' then (case r of Ciphertext ct v \<Rightarrow> Inr (Text ct) | _ \<Rightarrow> Inl (BadReply ''ciphertext''))
      else if name = ''bbk_key_decrypt''
      then (case r of
              Plaintext p v \<Rightarrow> and_then (ok_or (NotBase64 ''plaintext'') (b64_decode E p)) (\<lambda>pt.
                Inr (Text (case from_utf8 pt of Some s \<Rightarrow> s | None \<Rightarrow> ''(binary plaintext, base64) '' @ b64_encode E pt)))
            | _ \<Rightarrow> Inl (BadReply ''plaintext''))
      else if name = ''bbk_key_sign''
      then (case r of Signed sig v pk \<Rightarrow> Inr (Text (''signature: '' @ sig @ nl @ ''public key: '' @ pk)) | _ \<Rightarrow> Inl (BadReply ''signature''))
      else if name = ''bbk_key_hmac'' then (case r of Mac m alg v \<Rightarrow> Inr (Text m) | _ \<Rightarrow> Inl (BadReply ''hmac''))
      else if name = ''bbk_key_verify'' then Inr (Text (case r of Validity True v \<Rightarrow> ''valid'' | _ \<Rightarrow> ''INVALID''))
      else if name = ''bbk_key_token_issue''
      then (case r of IssuedToken t kid x c \<Rightarrow> Inr (Text (t @ nl @ ''(expires '' @ x @ '')'')) | _ \<Rightarrow> Inl (BadReply ''token''))
      else Inr (case r of TokenValid kid c \<Rightarrow> valid_token K c | _ \<Rightarrow> InvalidToken))"

definition call_key_op :: "ext \<Rightarrow> ops_ext \<Rightarrow> link \<Rightarrow> string \<Rightarrow> json \<Rightarrow> talk" where
  "call_key_op E K l name args = talk_then (arg_str args ''key'') (\<lambda>key.
     talk_then (key_body E name args) (\<lambda>body.
       ask (with_mfa args l) (case body of Some c \<Rightarrow> KeyOp key c | None \<Rightarrow> KeyOpMalformed key) (\<lambda>a. case a of
           IsReply r \<Rightarrow> Some (Done (key_text E K name r))
         | _ \<Rightarrow> None)))"

definition call_online :: "ext \<Rightarrow> ops_ext \<Rightarrow> bridge_env \<Rightarrow> mcp_config \<Rightarrow> string \<Rightarrow> json \<Rightarrow> talk" where
  "call_online E K B cfg name args = talk_then (online_client B cfg args) (\<lambda>l.
     if name = ''bbk_status'' then tool_status l
     else if name = ''bbk_secret_list'' then tool_secret_list l
     else if name = ''bbk_secret_get'' then tool_secret_get l args
     else if name = ''bbk_file_list'' then tool_file_list l
     else if name = ''bbk_secret_put'' then tool_secret_put l args
     else if name = ''bbk_secret_delete'' then tool_secret_delete l args
     else if name = ''bbk_key_list'' then tool_key_list l
     else if name = ''bbk_key_create'' then tool_key_create l args
     else if name = ''bbk_key_rotate'' then tool_key_rotate l args
     else call_key_op E K l name args)"

definition ONLINE_TOOLS :: "string list" where
  "ONLINE_TOOLS = [''bbk_status'', ''bbk_secret_list'', ''bbk_secret_get'', ''bbk_file_list'', ''bbk_secret_put'', ''bbk_secret_delete'',
     ''bbk_key_list'', ''bbk_key_create'', ''bbk_key_rotate'', ''bbk_key_encrypt'', ''bbk_key_decrypt'', ''bbk_key_sign'', ''bbk_key_hmac'',
     ''bbk_key_verify'', ''bbk_key_token_issue'', ''bbk_key_token_verify'']"

definition dispatch :: "ext \<Rightarrow> ops_ext \<Rightarrow> bridge_env \<Rightarrow> mcp_config \<Rightarrow> request \<Rightarrow> string \<Rightarrow> json \<Rightarrow> talk" where
  "dispatch E K B cfg rq name args =
     (if name = ''bbk_hash'' then Done (tool_hash E K args)
      else if name = ''bbk_random'' then Done (tool_random E rq args)
      else if name = ''bbk_encrypt'' then Done (tool_encrypt E K rq args)
      else if name = ''bbk_decrypt'' then Done (tool_decrypt E K args)
      else if name = ''bbk_derive_key'' then Done (tool_derive_key E K rq args)
      else if name = ''bbk_fingerprint'' then Done (tool_fingerprint E K args)
      else if name = ''bbk_hmac'' then Done (tool_hmac E K args)
      else if name = ''bbk_verify_signature'' then Done (tool_verify_signature E K args)
      else if name = ''bbk_token_verify'' then Done (tool_token_verify E K rq args)
      else if name \<in> set ONLINE_TOOLS
      then
        (if \<not> online cfg then Done (Inl OnlineDisabled)
         else if name \<in> set WRITE_TOOLS \<and> \<not> mc_allow_write cfg then Done (Inl WritesDisabled)
         else call_online E K B cfg name args)
      else Done (Inl (UnknownTool name)))"

definition call_tool :: "ext \<Rightarrow> ops_ext \<Rightarrow> bridge_env \<Rightarrow> mcp_config \<Rightarrow> request \<Rightarrow> json option \<Rightarrow> talk" where
  "call_tool E K B cfg rq params = (case params of
      None \<Rightarrow> Done (Inl MissingParams)
    | Some p \<Rightarrow>
      (case as_str (jget ''name'' p) of
         None \<Rightarrow> Done (Inl MissingToolName)
       | Some name \<Rightarrow> dispatch E K B cfg rq name (case jget ''arguments'' p of Some a \<Rightarrow> a | None \<Rightarrow> JObject [])))"

section \<open>The protocol\<close>

datatype rpc_value = Initialized string | Pong | Tools "tool_spec list" | Called "tool_error + tool_text"

datatype rpc_reply = RpcResult json rpc_value | RpcError json int

definition initialize_result :: "string option \<Rightarrow> rpc_value" where
  "initialize_result requested =
     Initialized (case requested of Some v \<Rightarrow> if v \<in> set PROTO_SUPPORTED then v else PROTO_LATEST | None \<Rightarrow> PROTO_LATEST)"

definition result :: "json option \<Rightarrow> rpc_value \<Rightarrow> rpc_reply" where
  "result i v = RpcResult (case i of Some j \<Rightarrow> j | None \<Rightarrow> JNull) v"

text \<open>The server is any function that answers the requests of the client.\<close>

type_synonym 's server = "link \<Rightarrow> client_call \<Rightarrow> 's \<Rightarrow> (app_error + client_answer) \<times> 's"

primrec run_talk :: "'s server \<Rightarrow> talk \<Rightarrow> 's \<Rightarrow> (tool_error + tool_text) \<times> 's" where
  "run_talk srv (Done r) = (\<lambda>s. (r, s))"
| "run_talk srv (Ask l c k) = (\<lambda>s. (\<lambda>a. run_talk srv (k a)) (fst (srv l c s)) (snd (srv l c s)))"

definition handle_message ::
    "ext \<Rightarrow> ops_ext \<Rightarrow> bridge_env \<Rightarrow> mcp_config \<Rightarrow> request \<Rightarrow> 's server \<Rightarrow> json \<Rightarrow> 's \<Rightarrow> rpc_reply list \<times> 's" where
  "handle_message E K B cfg rq srv msg s =
     (let i = jget ''id'' msg;
          m = (case as_str (jget ''method'' msg) of Some m \<Rightarrow> m | None \<Rightarrow> [])
      in if m = ''initialize''
         then ([result i (initialize_result (as_str (Option.bind (jget ''params'' msg) (jget ''protocolVersion''))))], s)
         else if m = ''ping'' then ([result i Pong], s)
         else if m = ''tools/list'' then ([result i (Tools (tools_list cfg))], s)
         else if m = ''tools/call''
         then (case run_talk srv (call_tool E K B cfg rq (jget ''params'' msg)) s of (r, s) \<Rightarrow> ([result i (Called r)], s))
         else if starts_with ''notifications/'' m then ([], s)
         else ((case i of Some j \<Rightarrow> [RpcError j (-32601)] | None \<Rightarrow> []), s))"

text \<open>The draws of the process for a message are those for the number of lines that follow it.\<close>

fun mcp_run :: "ext \<Rightarrow> ops_ext \<Rightarrow> bridge_env \<Rightarrow> mcp_config \<Rightarrow> (nat \<Rightarrow> request) \<Rightarrow> 's server \<Rightarrow> string list \<Rightarrow> 's \<Rightarrow> rpc_reply list \<times> 's" where
  "mcp_run E K B cfg rqs srv [] s = ([], s)"
| "mcp_run E K B cfg rqs srv (line # rest) s =
     (let line = trim line
      in if line = [] then mcp_run E K B cfg rqs srv rest s
         else
           (case json_parse K (as_bytes line) of
              None \<Rightarrow> (case mcp_run E K B cfg rqs srv rest s of (out, s) \<Rightarrow> (RpcError JNull (-32700) # out, s))
            | Some msg \<Rightarrow>
              (case handle_message E K B cfg (rqs (length rest)) srv msg s of
                 (out, s) \<Rightarrow> (case mcp_run E K B cfg rqs srv rest s of (out', s) \<Rightarrow> (out @ out', s)))))"


section \<open>The server of managed keys\<close>

text \<open>The client's calls on managed keys, answered by the handlers; the draws of the server are \<open>rq\<close>.\<close>

definition reply_as :: "(key_reply \<Rightarrow> client_answer option) \<Rightarrow> key_reply response \<Rightarrow> app_error + client_answer" where
  "reply_as f resp = and_then (api_value resp) (\<lambda>r. ok_or AppJson (f r))"

definition key_server :: "ext \<Rightarrow> ops_ext \<Rightarrow> app \<Rightarrow> request \<Rightarrow> authenticated_client \<Rightarrow> 'a keys_state_scheme server" where
  "key_server E K app rq cl l c st =
     (let cn = \<lparr>cn_domain = ln_domain l, cn_client = cl, cn_mfa = ln_mfa l\<rparr>;
          summary_of = (\<lambda>r. case r of Summary s \<Rightarrow> Some (IsKey s) | _ \<Rightarrow> None)
      in case c of
           KeyOp name call \<Rightarrow> apfst (map_sum id IsReply) (key_op E K app rq cn name call st)
         | ListKeys \<Rightarrow>
             apfst (reply_as (\<lambda>r. case r of KeyList ks \<Rightarrow> Some (IsKeys (length ks) ks) | _ \<Rightarrow> None)) (list_keys E app rq (domain_param cn) cl st)
         | CreateKey name t mfa \<Rightarrow>
             apfst (reply_as summary_of)
               (create_key E app rq \<lparr>ck_name = name, ck_type = Some t, ck_mfa = mfa, ck_import = None\<rparr> (domain_param cn) cl st)
         | RotateKey name \<Rightarrow> apfst (reply_as summary_of) (rotate_key E app rq name (domain_param cn) cl st)
         | _ \<Rightarrow> (Inl AppClient, st))"

section \<open>What a tool asks for\<close>

primrec all_asks :: "(client_call \<Rightarrow> bool) \<Rightarrow> talk \<Rightarrow> bool" where
  "all_asks P (Done r) = True"
| "all_asks P (Ask l c k) = (P c \<and> (\<forall>a. all_asks P (k a)))"

primrec all_ends :: "(tool_error + tool_text \<Rightarrow> bool) \<Rightarrow> talk \<Rightarrow> bool" where
  "all_ends P (Done r) = P r"
| "all_ends P (Ask l c k) = (\<forall>a. all_ends P (k a))"

lemma run_talk_keeps:
  assumes "\<And>l c s. P c \<Longrightarrow> Q s \<Longrightarrow> Q (snd (srv l c s))" and "all_asks P t" and "Q s"
  shows "Q (snd (run_talk srv t s))"
  using assms(2,3)
proof (induction t arbitrary: s)
  case (Ask l c k)
  then show ?case using assms(1) [of c s l] by simp
qed simp

lemma asks_ask: "all_asks P (ask l c f) \<longleftrightarrow> P c \<and> (\<forall>a t. f a = Some t \<longrightarrow> all_asks P t)"
  by (fastforce simp: ask_def split: sum.splits option.splits)

lemma asks_then: "all_asks P (talk_then r f) \<longleftrightarrow> (\<forall>x. r = Inr x \<longrightarrow> all_asks P (f x))"
  by (auto simp: talk_then_def split: sum.splits)

lemma ends_ask:
  "all_ends P (ask l c f) \<longleftrightarrow> (\<forall>e. P (Inl (ClientFailed e))) \<and> (\<forall>a t. f a = Some t \<longrightarrow> all_ends P t)"
  by (fastforce simp: ask_def split: sum.splits option.splits)

lemma ends_then: "all_ends P (talk_then r f) \<longleftrightarrow> (\<forall>e. r = Inl e \<longrightarrow> P (Inl e)) \<and> (\<forall>x. r = Inr x \<longrightarrow> all_ends P (f x))"
  by (auto simp: talk_then_def split: sum.splits)

text \<open>The requests that only read.\<close>

definition reading :: "client_call \<Rightarrow> bool" where
  "reading c = (case c of StoreSecret n v f w \<Rightarrow> False | DeleteSecret n \<Rightarrow> False | CreateKey n t m \<Rightarrow> False | RotateKey n \<Rightarrow> False | _ \<Rightarrow> True)"

lemmas talk_asks = asks_ask asks_then tool_status_def tool_secret_list_def tool_secret_get_def tool_file_list_def tool_key_list_def call_key_op_def

lemma online_reads:
  assumes "name \<notin> set WRITE_TOOLS"
  shows "all_asks reading (call_online E K B cfg name args)"
  using assms
  by (auto simp: call_online_def talk_asks reading_def WRITE_TOOLS_def split: client_answer.splits option.splits)

lemma dispatch_reads: "\<not> mc_allow_write cfg \<Longrightarrow> all_asks reading (dispatch E K B cfg rq name args)"
  using online_reads by (simp add: dispatch_def)

lemma dispatch_offline: "\<not> online cfg \<Longrightarrow> all_asks (\<lambda>_. False) (dispatch E K B cfg rq name args)"
  by (simp add: dispatch_def)

lemma call_tool_asks:
  "\<not> mc_allow_write cfg \<Longrightarrow> all_asks reading (call_tool E K B cfg rq p)"
  "\<not> online cfg \<Longrightarrow> all_asks (\<lambda>_. False) (call_tool E K B cfg rq p)"
  by (simp_all add: call_tool_def dispatch_reads dispatch_offline split: option.splits)

lemma mcp_run_keeps:
  assumes "\<And>l c s. P c \<Longrightarrow> Q s \<Longrightarrow> Q (snd (srv l c s))" and "\<And>rq p. all_asks P (call_tool E K B cfg rq p)" and "Q s"
  shows "Q (snd (mcp_run E K B cfg rqs srv lines s))"
  using assms(3)
proof (induction lines arbitrary: s)
  case (Cons line rest)
  have h: "Q (snd (handle_message E K B cfg rq srv msg s))" for rq msg
    using run_talk_keeps [where P = P and Q = Q and srv = srv, OF assms(1,2) Cons.prems]
    by (auto simp: handle_message_def Let_def Cons.prems split: prod.splits option.splits) (metis snd_conv)
  show ?case
    using Cons.IH [OF Cons.prems] Cons.IH [OF h]
    by (auto simp: Let_def split: option.splits prod.splits) (metis snd_conv)+
qed simp


text \<open>
  What the bridge relies on: a property of the server that its reading requests keep. It is kept by
  every session without write access.
\<close>

locale reading_keeps =
  fixes srv :: "'s server"
    and Q :: "'s \<Rightarrow> bool"
  assumes reading_kept: "reading c \<Longrightarrow> Q s \<Longrightarrow> Q (snd (srv l c s))"
begin

lemma session_kept: "\<not> mc_allow_write cfg \<Longrightarrow> Q s \<Longrightarrow> Q (snd (mcp_run E K B cfg rqs srv lines s))"
  by (rule mcp_run_keeps [where P = reading]) (simp_all add: reading_kept call_tool_asks(1))

end

lemma key_op_tables: "key_tables (snd (key_op E K app rq cn name call st)) = key_tables st"
  by (cases call) (simp_all add: key_op_def Let_def case_prod_beta operations_keep_tables)

lemma list_keys_tables: "key_tables (snd (list_keys E app rq q cl st)) = key_tables st"
  by (auto simp: list_keys_def key_tables_def split: sum.splits)

lemma key_server_reading: "reading c \<Longrightarrow> key_tables (snd (key_server E K app rq cl l c st)) = key_tables st"
  by (cases c) (auto simp: reading_def key_server_def Let_def key_op_tables list_keys_tables)

interpretation key_bridge: reading_keeps "key_server E K app rq cl" "\<lambda>st. key_tables st = t" for E K app rq cl t
  by unfold_locales (simp add: key_server_reading)

lemma session_offline: "\<not> online cfg \<Longrightarrow> snd (mcp_run E K B cfg rqs srv lines s) = s"
  by (rule mcp_run_keeps [where P = "\<lambda>_. False" and Q = "\<lambda>x. x = s"]) (simp_all add: call_tool_asks(2))

section \<open>Which tools are refused\<close>

definition refusal :: "tool_error \<Rightarrow> bool" where
  "refusal e = (case e of OnlineDisabled \<Rightarrow> True | WritesDisabled \<Rightarrow> True | UnknownTool n \<Rightarrow> True | _ \<Rightarrow> False)"

definition refused :: "talk \<Rightarrow> bool" where
  "refused t \<longleftrightarrow> (\<exists>e. t = Done (Inl e) \<and> refusal e)"

lemma refused_simps [simp]: "refused (Done (Inl OnlineDisabled))" "refused (Done (Inl WritesDisabled))" "refused (Done (Inl (UnknownTool n)))"
  by (simp_all add: refused_def refusal_def)

lemma arg_errors:
  "arg_str args k = Inl e \<Longrightarrow> e = MissingArgument k \<and> as_str (jget k args) = None"
  "arg_data E args = Inl e \<Longrightarrow> e = NotBase64 ''data'' \<or> (e = MissingArgument ''data'' \<and> as_str (jget ''data'' args) = None)"
  "ops_try r = Inl e \<Longrightarrow> \<exists>x. e = OpsFailed x"
  "online_client B cfg args = Inl e \<Longrightarrow> e \<in> {NoProfile, ProfileLocked, NoConnection}"
  by (auto simp: arg_str_def arg_data_def ops_try_def online_client_def and_then_def ok_or_def map_err_def split: option.splits sum.splits if_splits)

lemmas offline_tool_defs = tool_hash_def tool_random_def tool_encrypt_def tool_decrypt_def tool_derive_key_def tool_fingerprint_def
  tool_hmac_def tool_verify_signature_def tool_token_verify_def

lemma and_then_Inl: "and_then r f = Inl e \<longleftrightarrow> r = Inl e \<or> (\<exists>x. r = Inr x \<and> f x = Inl e)"
  by (cases r) simp_all

text \<open>What the offline tools fail with.\<close>

definition harmless_error :: "json \<Rightarrow> string list \<Rightarrow> tool_error \<Rightarrow> bool" where
  "harmless_error args req e \<longleftrightarrow> \<not> refusal e \<and> (\<forall>k. e = MissingArgument k \<longrightarrow> k \<in> set req \<and> as_str (jget k args) = None)"

lemma harmless_basic [simp]:
  "harmless_error args req (NotBase64 k)" "harmless_error args req OutOfRange" "harmless_error args req NotUtf8"
  "harmless_error args req (OpsFailed x)" "harmless_error args req (ClientFailed c)" "harmless_error args req (BadReply k)"
  "harmless_error args req NoProfile" "harmless_error args req ProfileLocked" "harmless_error args req NoConnection"
  "harmless_error args req (MissingArgument k) \<longleftrightarrow> k \<in> set req \<and> as_str (jget k args) = None"
  by (auto simp: harmless_error_def refusal_def)

lemma offline_errors:
  "tool_hash E K args = Inl e \<Longrightarrow> harmless_error args [''data''] e"
  "tool_random E rq args = Inl e \<Longrightarrow> harmless_error args [] e"
  "tool_encrypt E K rq args = Inl e \<Longrightarrow> harmless_error args [''plaintext'', ''passphrase''] e"
  "tool_decrypt E K args = Inl e \<Longrightarrow> harmless_error args [''envelope'', ''passphrase''] e"
  "tool_derive_key E K rq args = Inl e \<Longrightarrow> harmless_error args [''passphrase''] e"
  "tool_fingerprint E K args = Inl e \<Longrightarrow> harmless_error args [''data''] e"
  "tool_hmac E K args = Inl e \<Longrightarrow> harmless_error args [''data'', ''key_base64''] e"
  "tool_verify_signature E K args = Inl e \<Longrightarrow> harmless_error args [''data'', ''signature'', ''public_key''] e"
  "tool_token_verify E K rq args = Inl e \<Longrightarrow> harmless_error args [''token'', ''public_key''] e"
  unfolding offline_tool_defs
  by (auto simp: and_then_Inl Let_def ok_or_def dest!: arg_errors split: if_splits option.splits sum.splits)
    (metis obj_sumE)

lemma key_body_errors:
  "(name, props, req) \<in> set key_tools \<Longrightarrow> key_body E name args = Inl e \<Longrightarrow> harmless_error args req e"
  unfolding key_tools_def
  by (auto simp: key_body_def and_then_Inl Let_def dest!: arg_errors)

lemma key_text_errors: "key_text E K name r = Inl e \<Longrightarrow> harmless_error args req e"
  by (auto simp: key_text_def and_then_Inl ok_or_def split: if_splits key_reply.splits option.splits)


abbreviation ends_well :: "json \<Rightarrow> string list \<Rightarrow> talk \<Rightarrow> bool" where
  "ends_well args req \<equiv> all_ends (\<lambda>r. \<forall>e. r = Inl e \<longrightarrow> harmless_error args req e)"

lemma ends_well_ask: "ends_well args req (ask l c f) \<longleftrightarrow> (\<forall>a t. f a = Some t \<longrightarrow> ends_well args req t)"
  by (simp add: ends_ask)

lemma ends_well_then:
  "ends_well args req (talk_then r f) \<longleftrightarrow> (\<forall>e. r = Inl e \<longrightarrow> harmless_error args req e) \<and> (\<forall>x. r = Inr x \<longrightarrow> ends_well args req (f x))"
  by (simp add: ends_then)

lemma harmless_more: "harmless_error args req e \<Longrightarrow> harmless_error args (k # req) e"
  by (auto simp: harmless_error_def)

lemma key_op_ends:
  assumes "(name, props, req) \<in> set key_tools"
  shows "ends_well args (''key'' # req) (call_key_op E K l name args)"
  unfolding call_key_op_def ends_well_then ends_well_ask
  using key_body_errors [OF assms, THEN harmless_more] key_text_errors
  by (auto split: client_answer.splits dest!: arg_errors(1))

lemmas online_tool_defs = tool_status_def tool_secret_list_def tool_secret_get_def tool_file_list_def tool_secret_put_def
  tool_secret_delete_def tool_key_list_def tool_key_create_def tool_key_rotate_def

lemma online_ends:
  "ends_well args [] (tool_status l)" "ends_well args [] (tool_secret_list l)" "ends_well args [''name''] (tool_secret_get l args)"
  "ends_well args [] (tool_file_list l)" "ends_well args [''name'', ''value''] (tool_secret_put l args)"
  "ends_well args [''name''] (tool_secret_delete l args)" "ends_well args [] (tool_key_list l)"
  "ends_well args [''name''] (tool_key_create l args)" "ends_well args [''key''] (tool_key_rotate l args)"
  unfolding online_tool_defs
  by (auto simp: ends_well_ask ends_well_then dest!: arg_errors(1) split: client_answer.splits)

lemma key_tool_named:
  assumes "(name, props, req) \<in> set key_tools"
  shows "name \<in> set ONLINE_TOOLS" "name \<notin> set WRITE_TOOLS" "call_online E K B cfg name args = talk_then (online_client B cfg args) (\<lambda>l. call_key_op E K l name args)"
    "dispatch E K B cfg rq name args = (if online cfg then call_online E K B cfg name args else Done (Inl OnlineDisabled))"
  using assms by (auto simp: key_tools_def ONLINE_TOOLS_def WRITE_TOOLS_def call_online_def dispatch_def)

lemma online_client_ends: "(\<And>l. ends_well args req (f l)) \<Longrightarrow> ends_well args req (talk_then (online_client B cfg args) f)"
  using arg_errors(4) [of B cfg args] by (auto simp: ends_well_then)

lemma offline_ends: "t \<in> set offline_tools \<Longrightarrow> ends_well args (tl_required t) (dispatch E K B cfg rq (tl_name t) args)"
proof -
  have "list_all (\<lambda>t. ends_well args (tl_required t) (dispatch E K B cfg rq (tl_name t) args)) offline_tools"
    unfolding offline_tools_def tool_def dispatch_def
    by simp (intro conjI allI impI; erule offline_errors)
  then show "t \<in> set offline_tools \<Longrightarrow> ?thesis" by (simp add: list_all_iff)
qed

lemma listed_ends:
  assumes "t \<in> set (tools_list cfg)"
  shows "ends_well args (tl_required t) (dispatch E K B cfg rq (tl_name t) args)"
proof -
  consider "t \<in> set offline_tools"
    | name props req where "online cfg" "(name, props, req) \<in> set key_tools" "t = tool name (props @ [''key'', ''domain'', ''mfa'']) (''key'' # req)"
    | "online cfg" "tl_name t \<in> {''bbk_status'', ''bbk_secret_list'', ''bbk_file_list'', ''bbk_key_list''}" "tl_required t = []"
    | "online cfg" "tl_name t = ''bbk_secret_get''" "tl_required t = [''name'']"
    | "online cfg" "mc_allow_write cfg" "(tl_name t, tl_required t) \<in> {(''bbk_key_create'', [''name'']), (''bbk_key_rotate'', [''key'']),
        (''bbk_secret_put'', [''name'', ''value'']), (''bbk_secret_delete'', [''name''])}"
    using assms unfolding tools_list_def by (auto simp: tool_def split: if_splits)
  then show ?thesis
  proof cases
    case 1
    then show ?thesis by (rule offline_ends)
  next
    case (2 name props req)
    have "ends_well args (''key'' # req) (call_online E K B cfg name args)"
      unfolding key_tool_named(3) [OF 2(2)] by (intro online_client_ends key_op_ends [OF 2(2)])
    then show ?thesis using 2(1,3) key_tool_named(4) [OF 2(2)] by (simp add: tool_def)
  next
    case 3
    then show ?thesis
      using online_ends(1,2,4,7) online_client_ends [of args "[]"]
      by (auto simp: dispatch_def ONLINE_TOOLS_def WRITE_TOOLS_def call_online_def)
  next
    case 4
    then show ?thesis
      using online_ends(3) online_client_ends [of args "[''name'']"]
      by (auto simp: dispatch_def ONLINE_TOOLS_def WRITE_TOOLS_def call_online_def)
  next
    case 5
    then show ?thesis
      using online_ends(5,6,8,9) online_client_ends
      by (auto simp: dispatch_def ONLINE_TOOLS_def WRITE_TOOLS_def call_online_def)
  qed
qed

lemma tools_names:
  "map tl_name (tools_list cfg) = map tl_name offline_tools @
     (if online cfg
      then [''bbk_status'', ''bbk_secret_list'', ''bbk_secret_get'', ''bbk_file_list'', ''bbk_key_encrypt'', ''bbk_key_decrypt'', ''bbk_key_sign'',
        ''bbk_key_hmac'', ''bbk_key_verify'', ''bbk_key_token_issue'', ''bbk_key_token_verify'', ''bbk_key_list'']
        @ (if mc_allow_write cfg then [''bbk_key_create'', ''bbk_key_rotate'', ''bbk_secret_put'', ''bbk_secret_delete''] else [])
      else [])"
  by (simp add: tools_list_def key_tools_def tool_def)

lemma not_refused:
  assumes "\<not> refused (dispatch E K B cfg rq name args)"
  shows "name \<in> set (map tl_name offline_tools)
    \<or> name \<in> set ONLINE_TOOLS \<and> online cfg \<and> (name \<in> set WRITE_TOOLS \<longrightarrow> mc_allow_write cfg)"
proof (rule ccontr)
  assume n: "\<not> ?thesis"
  have "name \<notin> set (map tl_name offline_tools)" using n by blast
  then have "dispatch E K B cfg rq name args = (if name \<in> set ONLINE_TOOLS
      then (if \<not> online cfg then Done (Inl OnlineDisabled)
            else if name \<in> set WRITE_TOOLS \<and> \<not> mc_allow_write cfg then Done (Inl WritesDisabled)
            else call_online E K B cfg name args)
      else Done (Inl (UnknownTool name)))"
    by (simp add: dispatch_def offline_tools_def tool_def)
  with n assms show False by (auto split: if_splits)
qed

lemma online_listed:
  assumes "name \<in> set ONLINE_TOOLS" and "online cfg" and "name \<in> set WRITE_TOOLS \<longrightarrow> mc_allow_write cfg"
  shows "name \<in> set (map tl_name (tools_list cfg))"
proof (cases "name \<in> set WRITE_TOOLS")
  case True
  then show ?thesis using assms unfolding tools_names by (auto simp: WRITE_TOOLS_def)
next
  case False
  then have "name \<in> set (filter (\<lambda>n. n \<notin> set WRITE_TOOLS) ONLINE_TOOLS)" using assms(1) by simp
  also have "filter (\<lambda>n. n \<notin> set WRITE_TOOLS) ONLINE_TOOLS = [''bbk_status'', ''bbk_secret_list'', ''bbk_secret_get'', ''bbk_file_list'',
      ''bbk_key_list'', ''bbk_key_encrypt'', ''bbk_key_decrypt'', ''bbk_key_sign'', ''bbk_key_hmac'', ''bbk_key_verify'', ''bbk_key_token_issue'', ''bbk_key_token_verify'']"
    by (simp add: ONLINE_TOOLS_def WRITE_TOOLS_def)
  finally show ?thesis using assms(2) unfolding tools_names by auto
qed

lemma unlisted_refused: "name \<notin> set (map tl_name (tools_list cfg)) \<Longrightarrow> refused (dispatch E K B cfg rq name args)"
  using not_refused [of E K B cfg rq name args] online_listed [of name cfg] unfolding tools_list_def by fastforce


section \<open>Properties\<close>

text \<open>
  C30. A bridge without write access leaves the managed keys alone: whatever lines arrive on the
  standard input, the tables of keys and versions are the same afterwards. A bridge that is
  offline or has no profile does not reach the server at all.
\<close>

theorem bridge_spares_keys:
  "(\<not> mc_allow_write cfg \<longrightarrow> key_tables (snd (mcp_run E K B cfg rqs (key_server E K app rq cl) lines st)) = key_tables st)
    \<and> (\<not> online cfg \<longrightarrow> snd (mcp_run E K B cfg rqs srv lines s) = s)"
  using key_bridge.session_kept [of cfg st "key_tables st"] session_offline [of cfg E K B rqs srv lines s] by blast

text \<open>
  C31. The catalogue is exact: a tool is refused, as unknown, as offline or as a write, if and only if
  \<open>tools/list\<close> does not name it; and a listed tool never complains of a missing argument that is not
  among the required ones of its schema or that is there, whatever the server answers.
\<close>

theorem tools_listed_exactly:
  "(refused (dispatch E K B cfg rq name args) \<longleftrightarrow> name \<notin> set (map tl_name (tools_list cfg)))
    \<and> (t \<in> set (tools_list cfg) \<longrightarrow>
        (\<forall>srv s k. fst (run_talk srv (dispatch E K B cfg rq (tl_name t) args) s) = Inl (MissingArgument k)
          \<longrightarrow> k \<in> set (tl_required t) \<and> as_str (jget k args) = None))"
proof -
  have e: "P (fst (run_talk srv t s))" if "all_ends P t" for P and srv :: "'b server" and t s
    using that by (induction t arbitrary: s) simp_all
  have "name \<notin> set (map tl_name (tools_list cfg))" if "refused (dispatch E K B cfg rq name args)"
  proof
    assume "name \<in> set (map tl_name (tools_list cfg))"
    then obtain u where "u \<in> set (tools_list cfg)" "tl_name u = name" by auto
    from listed_ends [OF this(1), of args E K B rq] this(2) that show False
      by (auto simp: refused_def harmless_error_def)
  qed
  moreover have "harmless_error args (tl_required t) (MissingArgument k)"
    if "t \<in> set (tools_list cfg)" "fst (run_talk srv (dispatch E K B cfg rq (tl_name t) args) s) = Inl (MissingArgument k)"
    for srv :: "'b server" and s k
    using e [OF listed_ends [OF that(1), of args E K B rq], of srv s] that(2) by simp
  ultimately show ?thesis using unlisted_refused by fastforce
qed

text \<open>
  Every request is answered exactly once, under its own id, with a result or as an unknown method.
  A notification, which has no id, is answered all the same, under the id null, when it names one
  of the four methods of the bridge.
\<close>

theorem answered_once:
  "(jget ''id'' msg = Some i \<longrightarrow> \<not> starts_with ''notifications/'' (case as_str (jget ''method'' msg) of Some m \<Rightarrow> m | None \<Rightarrow> []) \<longrightarrow>
      (\<exists>r. fst (handle_message E K B cfg rq srv msg s) = [r] \<and> (r = RpcError i (-32601) \<or> (\<exists>v. r = RpcResult i v))))
    \<and> (jget ''id'' msg = None \<longrightarrow>
      (fst (handle_message E K B cfg rq srv msg s) \<noteq> [] \<longleftrightarrow>
        as_str (jget ''method'' msg) \<in> {Some ''initialize'', Some ''ping'', Some ''tools/list'', Some ''tools/call''}))"
proof -
  have "starts_with ''notifications/'' m \<Longrightarrow> m \<noteq> ''initialize'' \<and> m \<noteq> ''ping'' \<and> m \<noteq> ''tools/list'' \<and> m \<noteq> ''tools/call''" for m
    by (auto simp: starts_with_def)
  then show ?thesis
    by (auto simp: handle_message_def Let_def result_def split: prod.splits option.splits if_splits)
qed

section \<open>Witnesses\<close>

definition demo_bridge :: mcp_config where
  "demo_bridge = \<lparr>mc_profile = Some ''alice'', mc_offline = False, mc_allow_write = False, mc_domain = None\<rparr>"

definition demo_env :: bridge_env where
  "demo_env = \<lparr>be_session = (\<lambda>p. Inr demo_session), be_tls = (\<lambda>s. True), be_url = se_server\<rparr>"

text \<open>Every line is the request to rotate the key.\<close>

definition demo_rotating :: ops_ext where
  "demo_rotating = demo_ops\<lparr>json_parse := (\<lambda>b. Some (JObject [(''id'', Number 1), (''method'', JString ''tools/call''),
     (''params'', JObject [(''name'', JString ''bbk_key_rotate''), (''arguments'', JObject [(''key'', JString ''k'')])])]))\<rparr>"

theorem bridge_spares_keys_witness:
  "key_tables (snd (mcp_run ops_demo_ext demo_rotating demo_env demo_bridge (\<lambda>n. demo_rq 5)
      (key_server ops_demo_ext demo_rotating demo_app (demo_rq 5) demo_admin) [''line''] demo_created)) = ([demo_key_row], [demo_version_row])"
  using bridge_spares_keys [of demo_bridge ops_demo_ext demo_rotating demo_env "\<lambda>n. demo_rq 5" demo_app "demo_rq 5" demo_admin
      "[''line'']" demo_created, THEN conjunct1]
  by (simp add: demo_bridge_def key_tables_def demo_created_tables del: mcp_run.simps)

theorem tools_listed_exactly_witness:
  "refused (dispatch ops_demo_ext demo_ops demo_env demo_bridge (demo_rq 5) ''bbk_secret_put'' (JObject []))
    \<and> \<not> refused (dispatch ops_demo_ext demo_ops demo_env demo_bridge (demo_rq 5) ''bbk_secret_get'' (JObject []))"
proof -
  have "''bbk_secret_put'' \<notin> set (map tl_name (tools_list demo_bridge))" "''bbk_secret_get'' \<in> set (map tl_name (tools_list demo_bridge))"
    unfolding tools_names by (simp_all add: demo_bridge_def online_def offline_tools_def tool_def)
  then show ?thesis
    using tools_listed_exactly [of ops_demo_ext demo_ops demo_env demo_bridge "demo_rq 5" "''bbk_secret_put''" "JObject []", THEN conjunct1]
      tools_listed_exactly [of ops_demo_ext demo_ops demo_env demo_bridge "demo_rq 5" "''bbk_secret_get''" "JObject []", THEN conjunct1] by blast
qed

end
