(* ===== verification/Spec2Isabelle.thy ===== *)
theory Spec2Isabelle
  imports Glob Cron Blackbook_Core Server_Base Audit_Chain Audit_Archive Accounts Acl Approvals Secrets
    Net_Ratelimit Tunnel_Crypto Tunnel_Relay Crypto_Ops Keys_Api
    Files_Intact Persistence Profiles Client_Envelopes Client_Commands Web_Console Crypto_Cli Mcp_Bridge
begin

text \<open>
  Blackbook is a secret-management server: clients authenticate with a certificate and a token,
  and store, read and share secrets under access rules, approvals of other clients and read
  limits; every decision is written to a hash-chained audit log. This development models the
  server's core as executable functions and proves that it keeps its promises.

  \<^bold>\<open>Parts and theories.\<close> The order is that of the imports.

  \<^item> \<open>Prelude\<close>: byte strings, UTF-8, result values (\<open>and_then\<close>, \<open>ok_or\<close> for the operator \<open>?\<close>),
    SQL statements on tables as list operations (\<open>update_where\<close>, \<open>delete_where\<close>,
    \<open>rows_affected\<close>), length-prefixed framing, and the locales \<open>framing\<close> (an encoding of several
    fields is injective), \<open>sealed_box\<close> (a nonce-prefixed ciphertext opens to its plaintext) and
    \<open>step_invariant\<close> (what every step keeps, every run keeps).
  \<^item> \<open>Externals\<close>: third-party code as the fields of a record \<open>ext\<close>, an argument \<open>E\<close> of every
    definition that calls it: AES-GCM, AES key wrap, SHA3-256, HMAC, HKDF, scrypt, PBKDF2,
    Ed25519, Base64, hex, X.509 issuance, time formatting. What the proofs rely on is a named law
    per function (\<open>gcm_law\<close>: decryption inverts encryption, \<open>sha3_law\<close>: digests have 32 bytes,
    \<dots>), a hypothesis of the theorems that need it; \<open>demo_ext\<close> satisfies all of them and serves the
    witnesses.
  \<^item> \<open>Glob\<close> (\<open>auth.rs\<close>, \<open>sql_like_match\<close>): the pattern matcher of access rules, as the loop with
    its four variables; equivalence with the textbook relation, and the step bound.
  \<^item> \<open>Cron\<close> (\<open>auth.rs\<close>, \<open>cron_window_matches\<close>, \<open>cron_field\<close>): schedules of access rules, and what a
    schedule denotes (\<open>schedule_admits\<close>), with the proof that the evaluator decides it.
  \<^item> \<open>Blackbook_Core\<close> (\<open>blackbook_core.rs\<close>): key hierarchy, key wrapping in rounds, derivation
    salts, Base85, AES-GCM envelopes.
  \<^item> \<open>Server_Base\<close> (\<open>server.rs\<close>, \<open>auth.rs\<close>): application context, requests, responses, keyed
    lookup ids of names (\<open>name_id_hex\<close>), sealed metadata (\<open>enc_str\<close>, \<open>dec_str\<close>).
  \<^item> \<open>Audit_Chain\<close> (\<open>server.rs\<close>, \<open>audit\<close>, \<open>compute_audit_hash\<close>, \<open>verify_audit\<close>): the log. A head
    that verifies commits to every event before it, up to a collision of SHA3.
  \<^item> \<open>Audit_Archive\<close> (\<open>audit_archive.rs\<close>, \<open>server.rs\<close>, \<open>audit_archive_*\<close>): export, verification
    and pruning; in every reachable state the log verifies.
  \<^item> \<open>Accounts\<close> (\<open>auth.rs\<close>, \<open>server.rs\<close>): clients, domains, memberships, TOTP, authentication,
    creation, rotation, revocation.
  \<^item> \<open>Acl\<close> (\<open>auth.rs\<close>, \<open>acl_check\<close>, \<open>acl_record_use\<close>; \<open>server.rs\<close>, \<open>grant_acl\<close>): access rules with
    validity, schedule, rate and use budgets. \<open>rule_applies\<close> states the conditions of a rule without the
    functions of the code; the check decides exactly them.
  \<^item> \<open>Approvals\<close> (\<open>server.rs\<close>, \<open>threshold_gate\<close> and the access request and grant handlers): K-of-N
    approval of reads; the gate refines a quorum of different clients.
  \<^item> \<open>Secrets\<close> (\<open>server.rs\<close>, \<open>store_data\<close>, \<open>retrieve_data\<close>, \<open>delete_data\<close>, \<open>list_resources\<close>): string
    secrets with flags, policies, read limits and tombstones, also under every interleaving of
    the statements of concurrent requests; the limits of a rule bound the reads that succeed.
  \<^item> \<open>Net_Ratelimit\<close> (\<open>net_ratelimit.rs\<close>): the token buckets in front of the server, in \<open>f64\<close>
    arithmetic that rounds (\<open>fl\<close>); bounds with the error of the rounding.
  \<^item> \<open>Tunnel_Crypto\<close> (\<open>tunnel_crypto.rs\<close>): the end-to-end channel between two clients. \<open>tun_ext\<close> is
    the record of X25519, ECDSA, X.509 and HKDF. Interpretations \<open>tun_base\<close> and \<open>tun_payload\<close> of
    \<open>framing\<close> make the signed bytes injective; an accepted handshake is one the vouched peer ran, and
    the plaintexts accepted are a prefix of those sent.
  \<^item> \<open>Tunnel_Relay\<close> (\<open>tunnel_relay.rs\<close>, \<open>server.rs\<close>, \<open>offer_tunnel\<close>, \<open>list_tunnels\<close>, \<open>tunnel_ws\<close>): the hub
    as a step relation over offers, attachments, pumps and teardowns in every order; interpretation
    \<open>relay\<close> of \<open>step_invariant\<close>. An attachment (fingerprints, registration under the lock, vouches) is
    one step. A connection is introduced only to the other party of its offer.
  \<^item> \<open>Crypto_Ops\<close> (\<open>crypto_ops.rs\<close>, \<open>credstore.rs\<close>, \<open>argon2_key\<close>): key types, signatures, MACs, the
    versioned and the local envelopes, tokens and key files. \<open>ops_ext\<close> is the record of hashes,
    base64url, JSON and Argon2. Tokens live exactly as long as asked, envelopes open.
  \<^item> \<open>Keys_Api\<close> (\<open>keys_api.rs\<close>): managed keys. Interpretations \<open>mkeys\<close> and \<open>kept\<close> of
    \<open>step_invariant\<close>: every version of every key can be used, and no version of a key that exists is
    lost, so that no rotation strands a ciphertext.
  \<^item> \<open>Files\<close> (\<open>server.rs\<close>, \<open>upload_file\<close>, \<open>download_file\<close>, \<open>rotate_file\<close>, \<open>delete_file\<close>, \<open>list_files\<close>,
    \<open>cleanup_secrets\<close>): file secrets in three storage kinds and the purge of tombstones. The
    directory of blobs is a map from names to bytes, \<open>guess\<close> the table of MIME types.
  \<^item> \<open>Files_Intact\<close>: the requests on files as a step relation, where the content id drawn by a
    request is new. Interpretations \<open>filed\<close> and \<open>immutable\<close> of \<open>step_invariant\<close>: every file that is
    not exhausted can be read, and an immutable file keeps its bytes; the purge is exact.
  \<^item> \<open>Disk\<close>: programs on the file system as functions from a disk to a result and the operations
    performed, so that a process killed between two operations is a prefix of them; \<open>fs_cut\<close> also kills
    it within a write, which leaves a file that is truncated and written in part. \<open>spares\<close> says which
    file a program leaves alone, \<open>tears\<close> which one is cut within its write, \<open>cut_safe\<close> what holds at
    every point that tears no given file.
  \<^item> \<open>Credstore\<close> (\<open>credstore.rs\<close>): sealed profiles, the agent that caches a key for a limited time,
    the sources of a passphrase, the deletion of secret files.
  \<^item> \<open>Persistence\<close> (\<open>persistence.rs\<close>; \<open>main.rs\<close>, the order of the start): the key of the data
    directory from a passphrase or a keyfile, the master key, the CA and the admin bundle.
    \<open>volume_ext\<close> is the record of the JSON forms and of certificate issue. Interpretation \<open>volume\<close> of
    \<open>step_invariant\<close>: the master key survives every sequence of starts and rotations, cut off between
    any two operations but at the one point that \<open>rekey_window\<close> exhibits; a half-written \<open>dek.meta\<close>
    belongs to that point.
  \<^item> \<open>Profiles\<close> (\<open>client.rs\<close>, \<open>Session\<close>; \<open>main.rs\<close>, \<open>cmd_login\<close>, \<open>cmd_unlock\<close>, \<open>cmd_lock\<close>, \<open>cmd_logout\<close>,
    \<open>cmd_passphrase\<close>, \<open>cmd_profile\<close>): the profiles of the client. Interpretation \<open>cmk_kept\<close> of
    \<open>step_invariant\<close>: the client master key survives every command, killed anywhere, except a login
    over a profile that does not open and a login killed within its write of the profile, which
    loses it (\<open>torn_login_loses_cmk\<close>). \<open>gcm_bound\<close>, that a ciphertext opens to what was sealed or not at
    all, is the authenticity of AES-GCM taken as perfect.
  \<^item> \<open>Client_Envelopes\<close> (\<open>main.rs\<close>, \<open>external_seal\<close> to \<open>resident_rewrap\<close>): what a client encrypts
    itself. The locale \<open>wire_format\<close> states that a byte format is read back and that nothing else is
    read; its interpretation \<open>ext_wire\<close> is for the envelope. \<open>stash_codec\<close> is the record of the JSON forms of
    the resident index and header.
  \<^item> \<open>Client_Commands\<close> (\<open>main.rs\<close>, \<open>cmd_put\<close>, \<open>cmd_get\<close>, \<open>cmd_rekey\<close>, \<open>cmd_file\<close>; \<open>client.rs\<close>, the requests):
    the commands on secrets, run against the handlers of \<open>Secrets\<close>, and on files. What a client
    seals comes back through the server; interpretation \<open>resident\<close> of \<open>step_invariant\<close>: a resident file
    survives every command on the client's disk, killed anywhere, except another put of it and a put
    killed within its write of the index, which loses it (\<open>torn_index_loses_files\<close>).
  \<^item> \<open>Web_Console\<close> (\<open>webui.rs\<close>; \<open>main.rs\<close>, the listings of \<open>cmd_profile\<close> and \<open>cmd_domain\<close>): the console that
    runs the client. \<open>host\<close> is the record of the processes it starts. Every list of arguments can be
    typed, no command waits for the terminal; the listing of profiles is read back exactly, that of
    domains takes ids for names.
  \<^item> \<open>Crypto_Cli\<close> (\<open>crypto_cli.rs\<close>; \<open>client.rs\<close>, \<open>key_op\<close>): the cryptographic commands, run against the
    handlers of \<open>Keys_Api\<close> and a disk. What is encrypted is decrypted, with a managed key after
    any sequence of requests that leaves it in existence; key files load as they were generated.
  \<^item> \<open>Presentation\<close> (\<open>presentation.rs\<close>): pictures of fingerprints. The walk stays on its field, the
    picture has a fixed shape, the braille cells determine the bytes.
  \<^item> \<open>Mcp_Bridge\<close> (\<open>mcp.rs\<close>): the bridge to the model context protocol. An online tool is a tree of
    requests to the server. The locale \<open>reading_keeps\<close> states what the bridge relies on, a property
    that the server's reading requests keep; its interpretation \<open>key_bridge\<close> is for the tables of
    managed keys under the handlers of \<open>Keys_Api\<close>. The catalogue names exactly the tools that are not
    refused; every request is answered once.
  \<^item> This theory: properties that span components.

  \<^bold>\<open>State and operations.\<close> A table is the list of its rows in insertion order; the state of the
  server is one record that grows theory by theory (\<open>audit_state\<close>, \<open>archive_state\<close>, \<open>acct_state\<close>,
  \<open>acl_state\<close>, \<open>appr_state\<close>, \<open>secret_state\<close>, \<open>file_state\<close>; \<open>relay_state\<close> and \<open>keys_state\<close> extend \<open>acct_state\<close> and
  \<open>acl_state\<close>), and every function is polymorphic in the rest of it.
  A handler takes the request and the state and returns a \<open>response\<close> and the new state; every early
  return of the source is a branch. \<open>Reply\<close> carries the success value, \<open>ErrorReply\<close> the status and
  error code, \<open>ActixError\<close> the responses the framework makes of a server error; the prose of error
  messages is dropped. Components are linked through the locales named above, interpreted on the
  model's own functions: \<open>framing\<close> on the audit, lookup-id and derivation-salt encodings,
  \<open>sealed_box\<close> on the AES-GCM envelope, \<open>step_invariant\<close> on the account, approval and consumed-request
  invariants.

  \<^bold>\<open>Bounds and conventions.\<close> A request reads the clock once, and its random draws are \<open>rand rq i n\<close>,
  the \<open>i\<close>-th draw filled to \<open>n\<close> bytes (the \<open>k\<close>-th audit call of a request uses draws \<open>1000 + 2k\<close> and
  \<open>1001 + 2k\<close>). The statements of one handler run without interruption except in the interleaving
  models of \<open>Secrets\<close> and \<open>Tunnel_Relay\<close>. SQL errors other than unique violations, and exhausted connections, do not
  occur. Counters are integers with the database's width checked where an overflow makes the
  statement fail. Loops of the source are total functions; there is no fuel. Every
  operation of the rate limiter rounds to the nearest \<open>f64\<close>. Times are microseconds since the epoch as integers.

  \<^bold>\<open>Not modelled.\<close> Of the command-line client the profiles, the client-side encryption, the
  cryptographic commands, the web console and the protocol bridge are modelled; the parsing of
  arguments, the commands that send one request and print the answer, the loop that waits for an
  approval, the password hashes of the argon2 crate, the terminal side of the tunnel (\<open>main.rs\<close>,
  \<open>client.rs\<close>, \<open>tunnel_client.rs\<close>) and the rest of the start-up code of \<open>main.rs\<close> and \<open>tls.rs\<close> are input and
  output around the core. The process of a command may be killed within a write (for the
  start and the rotation of the server's volume: between two operations); a crash of the machine,
  which may lose or reorder writes that were not synchronized, is not modelled, and the file system never fails
  on its own.
\<close>

section \<open>Reads and the audit log\<close>

text \<open>Encryption of metadata works: the cipher accepts every message under the metadata key.\<close>

definition can_seal :: "ext \<Rightarrow> app \<Rightarrow> bool" where
  "can_seal E app \<longleftrightarrow> (\<forall>n m. length n = 12 \<longrightarrow> (\<exists>c. aead_seal E n m (metadata_enc_key app) = Inr c))"

lemma log_ok_frame:
  assumes "audit_log st' = audit_log st" and "anchors st' = anchors st"
  shows "log_ok E app st' = log_ok E app st"
  using assms by (simp add: log_ok_def verify_log_def chain_start_def latest_audit_anchor_def)

lemma consume_log:
  "audit_log (consume_grant_uses is st) = audit_log st"
  "anchors (consume_grant_uses is st) = anchors st"
  by (induction "is" st rule: consume_grant_uses.induct) simp_all

lemma create_request_log:
  "create_access_request E app rq c kind d name pol st = (s, st') \<Longrightarrow>
    audit_log st' = audit_log st \<and> anchors st' = anchors st"
  by (auto simp: create_access_request_def Let_def split: option.splits sum.splits if_splits)

lemma dec_str_utf8: "dec_str E k b = Inr s \<Longrightarrow> utf8_str s"
  by (auto simp: dec_str_def from_utf8_def and_then_def utf8_str_def split: sum.splits if_splits)

lemma record_use_log:
  "audit_log (acl_record_use rq d st) = audit_log st"
  "anchors (acl_record_use rq d st) = anchors st"
  by (simp_all add: acl_record_use_def split: acl_decision.splits)

lemma verify_totp_log:
  "verify_totp E rq kek i code st = (r, st') \<Longrightarrow> audit_log st' = audit_log st \<and> anchors st' = anchors st"
  by (auto simp: verify_totp_def split: option.splits sum.splits if_splits)

lemma audit_anchors: "anchors (audit E app rq k c a r s m st) = anchors st"
  by (simp add: audit_def Let_def split: sum.splits)

lemma gate_log_ok:
  assumes "gcm_law E" and "hex_law E" and "sha3_law E" and "utf8_str name" and "log_ok E app st"
    and "threshold_gate E app rq c kind d name pol i st = (Proceed, st')"
  shows "log_ok E app st'"
proof (cases i)
  case (Some rid)
  then have "audit_log st' = audit_log st \<and> anchors st' = anchors st"
    using assms(6)
    by (auto simp: consume_log threshold_gate_def gate_with_request_def Let_def mark_consumed_def split: option.splits if_splits)
  then show ?thesis using assms(5) log_ok_frame by blast
next
  case None
  obtain s st1 where cr: "create_access_request E app rq c kind d name pol st = (s, st1)" by fastforce
  from None assms(6) cr obtain st2 m where st': "st' = audit E app rq 0 (Some (ac_id c)) (read_action kind) (Some name) AuditOk (Some m) st2"
      "audit_log st2 = audit_log st \<and> anchors st2 = anchors st" "utf8_str m"
    using create_request_log [OF cr]
    by (auto simp: consume_log threshold_gate_def gate_without_request_def Let_def mark_consumed_def ascii_utf8
        split: option.splits if_splits)
  have "log_ok E app st2" using st'(2) assms(5) log_ok_frame by blast
  then show ?thesis unfolding st'(1)
    by (intro audit_log_ok assms(1-3)) (simp_all add: utf8_opt_def assms(4) st'(3))
qed

lemma policy_gate_log_ok:
  assumes "gcm_law E" and "hex_law E" and "sha3_law E" and "utf8_str name" and "log_ok E app st"
    and "policy_gate E app rq c d name pol i st = (Proceed, st')"
  shows "log_ok E app st'"
  using assms(5,6) gate_log_ok [OF assms(1-5)] by (auto simp: policy_gate_def split: option.splits)

lemma mfa_gate_log:
  assumes "mfa_gate E app rq c name code b st = (None, st')"
  shows "audit_log st' = audit_log st \<and> anchors st' = anchors st"
  using assms by (auto simp: mfa_gate_def Let_def split: if_splits option.splits sum.splits prod.splits dest: verify_totp_log)

lemma audit_writes:
  assumes "can_seal E app" and "gcm_law E" and "utf8_opt resource"
  obtains row where "audit_log (audit E app rq k c a resource s message st) = audit_log st @ [row]"
    "au_client row = c" "au_action row = a" "au_status row = status_str s" "au_ts row = now rq"
    "dec_opt E (metadata_enc_key app) (au_resource_enc row) = Inr resource"
proof -
  have seal: "\<exists>c. seal_opt E n (metadata_enc_key app) x = Inr c" if "length n = 12" for n x
  proof (cases x)
    case (Some t)
    from assms(1) that obtain b where "aead_seal E n (as_bytes t) (metadata_enc_key app) = Inr b"
      by (auto simp: can_seal_def)
    with Some show ?thesis by (simp add: seal_opt_def)
  qed (simp add: seal_opt_def)
  from seal [OF length_rand] obtain er
    where er: "seal_opt E (rand rq (1000 + 2 * k) 12) (metadata_enc_key app) resource = Inr er" by blast
  from seal [OF length_rand] obtain em
    where "seal_opt E (rand rq (1001 + 2 * k) 12) (metadata_enc_key app) message = Inr em" by blast
  with er have "audit_log (audit E app rq k c a resource s message st) = audit_log st
      @ [\<lparr>au_id = audit_next st, au_ts = now rq, au_client = c, au_action = a, au_status = status_str s,
          au_resource_enc = er, au_message_enc = em,
          au_prev = Some (hex_encode E (chain_head E (zeros 32) (audit_log st))),
          au_hash = Some (hex_encode E (compute_audit_hash E (audit_hmac_key app) (chain_head E (zeros 32) (audit_log st))
            \<lparr>ev_ts = now rq, ev_client = c, ev_action = a, ev_resource = resource, ev_status = status_str s,
             ev_message = message\<rparr>))\<rparr>]"
    by (simp add: audit_def Let_def)
  with that seal_opt_dec [OF assms(2) length_rand er assms(3)] show ?thesis by simp
qed

text \<open>
  C7. Every read of a secret is on the record: when a client obtains a value, the audit log has
  gained, as its newest row, an entry with the client's identity, the action \<open>read\<close>, the status
  \<open>ok\<close>, the time of the request and the name of the secret under the metadata key, and the log
  verifies from start to end as it did before the request, whatever the approval gate and the
  second factor wrote in between.
\<close>

theorem read_is_audited:
  assumes "gcm_law E" and "hex_law E" and "sha3_law E" and "can_seal E app" and "log_ok E app st"
    and "retrieve_data E app rq i q h c st = (Reply 200 (Retrieved x), st')"
  shows "log_ok E app st'
    \<and> audit_log st' \<noteq> [] \<and> au_client (last (audit_log st')) = Some (ac_id c)
    \<and> au_action (last (audit_log st')) = ''read'' \<and> au_status (last (audit_log st')) = ''ok''
    \<and> au_ts (last (audit_log st')) = now rq
    \<and> dec_opt E (metadata_enc_key app) (au_resource_enc (last (audit_log st'))) = Inr (Some (rt_name x))"
proof -
  obtain d r name where r: "dec_str E (metadata_enc_key app) (sr_name_enc r) = Inr name"
      "retrieve_allowed E app rq h c d (acl_check E app rq c d name Read st) name r st = (Reply 200 (Retrieved x), st')"
    using retrieve_Retrieved [OF assms(6)] by blast
  have u: "utf8_str name" by (rule dec_str_utf8 [OF r(1)])
  obtain g st1 where g: "policy_gate E app rq c d name (sr_policy r) (h_request_id h) st = (g, st1)" by fastforce
  obtain m st2 where m: "mfa_gate E app rq c name (h_mfa h) (mfa_required (sr_flags r)) st1
      = (m :: retrieve_reply response option, st2)" by fastforce
  have "g = Proceed" "m = None" and s: "serve_read E app rq c (acl_check E app rq c d name Read st) name r st2
      = (Reply 200 (Retrieved x), st')"
    using r(2) g m by (auto simp: retrieve_allowed_def Let_def mfa_gate_def split: if_splits option.splits gate.splits
        sum.splits prod.splits)
  with g m have "log_ok E app st2"
    using policy_gate_log_ok [OF assms(1-3) u assms(5)] mfa_gate_log log_ok_frame by metis
  obtain n st3 where st3: "st' = audit E app rq 1 (Some (ac_id c)) ''read'' (Some name) AuditOk n st3"
      "audit_log st3 = audit_log st2" "anchors st3 = anchors st2" "rt_name x = name" "utf8_opt n"
    using s by (auto simp: serve_read_def Let_def record_use_log post_read_def ascii_utf8 utf8_opt_def
        split: prod.splits option.splits sum.splits if_splits)
  have u': "utf8_opt (Some name)" using u by (simp add: utf8_opt_def)
  obtain row where "audit_log st' = audit_log st3 @ [row]" "au_client row = Some (ac_id c)" "au_action row = ''read''"
    "au_status row = status_str AuditOk" "au_ts row = now rq"
    "dec_opt E (metadata_enc_key app) (au_resource_enc row) = Inr (Some name)"
    using audit_writes [OF assms(4,1) u'] st3(1) by metis
  moreover have "log_ok E app st'"
    unfolding st3(1) using \<open>log_ok E app st2\<close> st3(2,3,5) u'
    by (intro audit_log_ok assms(1-3)) (simp_all add: log_ok_frame [OF st3(2,3)])
  ultimately show ?thesis by (simp add: st3(4))
qed

theorem read_is_audited_witness:
  "\<exists>x st'. retrieve_data demo_ext demo_app (demo_rq 5) ''db/x'' None demo_headers demo_admin (demo_vault [demo_secret demo_once])
      = (Reply 200 (Retrieved x), st') \<and> au_client (last (audit_log st')) = Some (ac_id demo_admin)
    \<and> log_ok demo_ext demo_app st'"
proof -
  obtain x st' where x: "retrieve_data demo_ext demo_app (demo_rq 5) ''db/x'' None demo_headers demo_admin
      (demo_vault [demo_secret demo_once]) = (Reply 200 (Retrieved x), st')"
    using demo_reads by blast
  have "can_seal demo_ext demo_app"
    by (simp add: can_seal_def demo_ext_def aead_seal_def aead_seal_nonce_def demo_app_def zeros_def)
  moreover have "log_ok demo_ext demo_app (demo_vault [demo_secret demo_once])"
    by (simp add: log_ok_def verify_log_def demo_vault_def chain_start_def latest_audit_anchor_def)
  ultimately show ?thesis using read_is_audited [OF demo_laws(3,1,7) _ _ x] x by blast
qed

end
